(* ===== verification/Prelude.thy ===== *)
theory Prelude
  imports Main "HOL-Library.Word" "HOL-Library.Char_ord" "HOL-Library.Code_Target_Nat"
begin

text \<open>
  What every theory of the development shares: the exceptions the code throws, the result type
  of an operation that may throw, the character classes and string functions of JavaScript that
  the services use, decimal numerals, and the \<^theory_text>\<open>named_theorems\<close> collections that carry the
  component proofs.

  A JavaScript string is modelled by \<^typ>\<open>string\<close>, one \<^typ>\<open>char\<close> for one UTF-16 code unit, so
  the model speaks of strings whose code units are at most 0xFF (ASCII and Latin-1). Where the
  code handles other code points itself (download headers) the model uses code point numbers.
\<close>

section \<open>Exceptions and results\<close>

text \<open>
  \<open>Error\<close> is a plain \<open>new Error(message)\<close> with its message; \<open>RowNotFound\<close> is Lucid's exception of
  \<open>firstOrFail\<close> and \<open>findOrFail\<close>; \<open>ConstraintViolation\<close> is what PostgreSQL reports when a named
  constraint or index of the migrations is violated; the next four are the exception classes
  that \<open>app/services/updater_service.ts\<close> exports; \<open>Fault\<close> is any failure of a collaborator
  (storage, database connection, cryptography) that the code lets through.
\<close>

datatype exn =
    Error string
  | RowNotFound
  | ConstraintViolation string
  | PublicArtifactNotFoundError
  | ArtifactStorageError
  | UnsupportedReleaseTargetError
  | PublicSoftwareNotFoundError
  | Fault string

type_synonym 'a res = "exn + 'a"

text \<open>The first exception ends the operation; \<open>guard c e\<close> is \<open>if (c) throw e\<close>.\<close>

fun bind_res :: "'a res \<Rightarrow> ('a \<Rightarrow> 'b res) \<Rightarrow> 'b res" where
  "bind_res (Inl e) f = Inl e"
| "bind_res (Inr x) f = f x"

definition throw_if :: "bool \<Rightarrow> exn \<Rightarrow> 'a res \<Rightarrow> 'a res" where
  "throw_if c e r = (if c then Inl e else r)"

definition from_option :: "exn \<Rightarrow> 'a option \<Rightarrow> 'a res" where
  "from_option e x = (case x of None \<Rightarrow> Inl e | Some y \<Rightarrow> Inr y)"

named_theorems res_simps "unfolding and inversion of results"

lemma bind_res_Inr [res_simps]:
  "bind_res r f = Inr y \<longleftrightarrow> (\<exists>x. r = Inr x \<and> f x = Inr y)"
  by (cases r) auto

lemma bind_res_Inl [res_simps]:
  "bind_res r f = Inl e \<longleftrightarrow> r = Inl e \<or> (\<exists>x. r = Inr x \<and> f x = Inl e)"
  by (cases r) auto

lemma throw_if_Inr [res_simps]: "throw_if c e r = Inr y \<longleftrightarrow> \<not> c \<and> r = Inr y"
  by (simp add: throw_if_def)

lemma throw_if_simps [simp]: "throw_if True e r = Inl e" "throw_if False e r = r"
  by (simp_all add: throw_if_def)

lemma from_option_Inr [res_simps]: "from_option e x = Inr y \<longleftrightarrow> x = Some y"
  by (cases x) (auto simp: from_option_def)

lemma from_option_Inl [res_simps]: "from_option e x = Inl e' \<longleftrightarrow> x = None \<and> e' = e"
  by (cases x) (auto simp: from_option_def)

lemma from_option_simps [simp]:
  "from_option e None = Inl e" "from_option e (Some y) = Inr y"
  by (simp_all add: from_option_def)

lemma bind_res_cong [fundef_cong]:
  "r = r' \<Longrightarrow> (\<And>x. r' = Inr x \<Longrightarrow> f x = f' x) \<Longrightarrow> bind_res r f = bind_res r' f'"
  by (cases r') auto

section \<open>Characters\<close>

abbreviation code :: "char \<Rightarrow> nat" where
  "code c \<equiv> of_char c"

definition char_between :: "nat \<Rightarrow> nat \<Rightarrow> char \<Rightarrow> bool" where
  "char_between lo hi c \<longleftrightarrow> lo \<le> code c \<and> code c \<le> hi"

definition is_digit :: "char \<Rightarrow> bool" where
  "is_digit c \<longleftrightarrow> char_between 48 57 c"

definition is_upper :: "char \<Rightarrow> bool" where
  "is_upper c \<longleftrightarrow> char_between 65 90 c"

definition is_lower :: "char \<Rightarrow> bool" where
  "is_lower c \<longleftrightarrow> char_between 97 122 c"

definition is_alnum :: "char \<Rightarrow> bool" where
  "is_alnum c \<longleftrightarrow> is_digit c \<or> is_upper c \<or> is_lower c"

text \<open>\<open>[0-9a-f]\<close>, and the same class under the flag \<open>i\<close>.\<close>

definition is_hex :: "char \<Rightarrow> bool" where
  "is_hex c \<longleftrightarrow> is_digit c \<or> char_between 97 102 c"

definition is_hex_i :: "char \<Rightarrow> bool" where
  "is_hex_i c \<longleftrightarrow> is_hex c \<or> char_between 65 70 c"

text \<open>\<open>\s\<close> and what \<open>trim\<close> removes, up to U+00FF.\<close>

definition is_space :: "char \<Rightarrow> bool" where
  "is_space c \<longleftrightarrow> char_between 9 13 c \<or> code c = 32 \<or> code c = 160"

text \<open>\<open>toLowerCase\<close> on code units up to U+00FF.\<close>

definition to_lower :: "char \<Rightarrow> char" where
  "to_lower c =
     (if is_upper c \<or> (192 \<le> code c \<and> code c \<le> 222 \<and> code c \<noteq> 215)
      then char_of (code c + 32) else c)"

definition lowercase :: "string \<Rightarrow> string" where
  "lowercase s = map to_lower s"

lemmas char_class_defs = char_between_def is_digit_def is_upper_def is_lower_def is_alnum_def
  is_hex_def is_hex_i_def is_space_def to_lower_def

lemma code_less_256 [simp]: "code c < 256"
  by (metis char.exhaust_sel char_of_char of_char_of of_char_mod_256 mod_less_divisor zero_less_numeral)

lemma code_inject [simp]: "code c = code d \<longleftrightarrow> c = d"
  by (metis char_of_char)

section \<open>Strings\<close>

definition trim :: "string \<Rightarrow> string" where
  "trim s = rev (dropWhile is_space (rev (dropWhile is_space s)))"

definition starts_with :: "string \<Rightarrow> string \<Rightarrow> bool" where
  "starts_with s p \<longleftrightarrow> take (length p) s = p"

fun str_includes :: "string \<Rightarrow> string \<Rightarrow> bool" where
  "str_includes [] p \<longleftrightarrow> p = []"
| "str_includes (c # s) p \<longleftrightarrow> starts_with (c # s) p \<or> str_includes s p"

text \<open>\<open>s.split(sep)\<close> for a separator of one character: always at least one part.\<close>

fun split_on :: "char \<Rightarrow> string \<Rightarrow> string list" where
  "split_on d [] = [[]]"
| "split_on d (c # s) =
     (if c = d then [] # split_on d s
      else (case split_on d s of [] \<Rightarrow> [[c]] | p # ps \<Rightarrow> (c # p) # ps))"

fun join_with :: "string \<Rightarrow> string list \<Rightarrow> string" where
  "join_with d [] = []"
| "join_with d [p] = p"
| "join_with d (p # q # ps) = p @ d @ join_with d (q # ps)"

text \<open>A regular expression that is a fixed sequence of character classes between \<open>^\<close> and \<open>$\<close>.\<close>

definition matches_classes :: "(char \<Rightarrow> bool) list \<Rightarrow> string \<Rightarrow> bool" where
  "matches_classes ps s \<longleftrightarrow> list_all2 (\<lambda>p c. p c) ps s"

definition is_uuid :: "string \<Rightarrow> bool" where
  "is_uuid s \<longleftrightarrow> matches_classes
     (replicate 8 is_hex_i @ [\<lambda>c. c = CHR ''-''] @ replicate 4 is_hex_i @ [\<lambda>c. c = CHR ''-''] @
      [char_between 49 56] @ replicate 3 is_hex_i @ [\<lambda>c. c = CHR ''-''] @
      [\<lambda>c. to_lower c \<in> set ''89ab''] @ replicate 3 is_hex_i @ [\<lambda>c. c = CHR ''-''] @
      replicate 12 is_hex_i) s"

definition is_hex64 :: "string \<Rightarrow> bool" where
  "is_hex64 s \<longleftrightarrow> length s = 64 \<and> list_all is_hex s"

lemma split_on_nonempty [simp]: "split_on d s \<noteq> []"
  by (induction s) (auto split: list.splits)

lemma join_split_on [simp]: "join_with [d] (split_on d s) = s"
proof (induction s)
  case (Cons c s)
  then show ?case
    by (cases "split_on d s" rule: list.exhaust; cases "tl (split_on d s)") auto
qed simp

lemma split_on_single: "d \<notin> set p \<Longrightarrow> split_on d p = [p]"
  by (induction p) auto

lemma split_on_append: "d \<notin> set p \<Longrightarrow> split_on d (p @ d # s) = p # split_on d s"
  by (induction p) auto

lemma split_on_parts_no_sep: "p \<in> set (split_on d s) \<Longrightarrow> d \<notin> set p"
  by (induction s arbitrary: p) (fastforce split: if_splits list.splits)+

lemma length_trim_le: "length (trim s) \<le> length s"
proof -
  have "length (dropWhile P xs) \<le> length xs" for P :: "char \<Rightarrow> bool" and xs
    by (induction xs) auto
  then show ?thesis unfolding trim_def by (metis le_trans length_rev)
qed

lemma set_trim: "set (trim s) \<subseteq> set s"
  unfolding trim_def by (auto dest!: set_dropWhileD)

lemma trim_hd: "trim s \<noteq> [] \<Longrightarrow> \<not> is_space (hd (trim s))"
proof -
  assume ne: "trim s \<noteq> []"
  let ?t = "dropWhile is_space s"
  obtain w where w: "?t = trim s @ w"
    unfolding trim_def
    by (metis rev_append rev_rev_ident takeWhile_dropWhile_id)
  have "?t \<noteq> []" using ne w by auto
  then have "\<not> is_space (hd ?t)" by (rule hd_dropWhile)
  then show ?thesis using ne w by simp
qed

lemma trim_last: "trim s \<noteq> [] \<Longrightarrow> \<not> is_space (last (trim s))"
  unfolding trim_def by (simp add: last_rev hd_dropWhile)

lemma trim_id:
  assumes "s \<noteq> [] \<Longrightarrow> \<not> is_space (hd s)" and "s \<noteq> [] \<Longrightarrow> \<not> is_space (last s)"
  shows "trim s = s"
proof (cases s)
  case (Cons c t)
  then have "dropWhile is_space s = s" using assms(1) by simp
  moreover have "dropWhile is_space (rev s) = rev s"
  proof (cases "rev s")
    case (Cons d u)
    then have "last s = d" and "s \<noteq> []" by (auto simp: rev_eq_Cons_iff)
    with Cons assms(2) show ?thesis by simp
  qed simp
  ultimately show ?thesis by (simp add: trim_def)
qed (simp add: trim_def)

lemma trim_idem [simp]: "trim (trim s) = trim s"
  by (rule trim_id) (simp_all add: trim_hd trim_last)

lemma trim_no_space: "list_all (\<lambda>c. \<not> is_space c) s \<Longrightarrow> trim s = s"
  by (rule trim_id) (auto simp: list_all_iff)

section \<open>Decimal numerals\<close>

text \<open>\<open>String(n)\<close> for a non-negative integer, and \<open>Number(text)\<close> for a text of digits.\<close>

fun dec :: "nat \<Rightarrow> string" where
  "dec n = (if n < 10 then [char_of (48 + n)] else dec (n div 10) @ [char_of (48 + n mod 10)])"

declare dec.simps [simp del]

definition digit_val :: "char \<Rightarrow> nat" where
  "digit_val c = code c - 48"

definition undec :: "string \<Rightarrow> nat" where
  "undec s = foldl (\<lambda>n c. 10 * n + digit_val c) 0 s"

definition all_digits :: "string \<Rightarrow> bool" where
  "all_digits s \<longleftrightarrow> s \<noteq> [] \<and> list_all is_digit s"

lemma code_char_of [simp]: "n < 256 \<Longrightarrow> code (char_of n) = n"
  by (simp add: of_char_of)

lemma dec_nonempty [simp]: "dec n \<noteq> []"
  by (subst dec.simps) simp

lemma dec_digits: "list_all is_digit (dec n)"
proof (induction n rule: dec.induct)
  case (1 n)
  show ?case
  proof (cases "n < 10")
    case True
    then show ?thesis by (subst dec.simps) (simp add: is_digit_def char_between_def)
  next
    case False
    then have "dec n = dec (n div 10) @ [char_of (48 + n mod 10)]"
      by (subst dec.simps) simp
    moreover have "is_digit (char_of (48 + n mod 10))"
      by (simp add: is_digit_def char_between_def)
    ultimately show ?thesis using 1 False by simp
  qed
qed

lemma all_digits_dec [simp]: "all_digits (dec n)"
  by (simp add: all_digits_def dec_digits)

lemma undec_snoc: "undec (s @ [c]) = 10 * undec s + digit_val c"
  by (simp add: undec_def)

lemma undec_dec [simp]: "undec (dec n) = n"
proof (induction n rule: dec.induct)
  case (1 n)
  show ?case
  proof (cases "n < 10")
    case True
    then show ?thesis by (subst dec.simps) (simp add: undec_def digit_val_def)
  next
    case False
    with 1 have "undec (dec (n div 10)) = n div 10" by simp
    moreover have "dec n = dec (n div 10) @ [char_of (48 + n mod 10)]"
      using False by (subst dec.simps) simp
    ultimately show ?thesis by (simp add: undec_snoc digit_val_def)
  qed
qed

lemma dec_inject [simp]: "dec m = dec n \<longleftrightarrow> m = n"
  by (metis undec_dec)

lemma undec_bound: "list_all is_digit s \<Longrightarrow> undec s < 10 ^ length s"
proof (induction s rule: rev_induct)
  case Nil
  then show ?case by (simp add: undec_def)
next
  case (snoc c s)
  then have "undec s < 10 ^ length s" and "digit_val c \<le> 9"
    by (auto simp: is_digit_def char_between_def digit_val_def)
  then have "10 * undec s + digit_val c < 10 * 10 ^ length s" by linarith
  then show ?case by (simp add: undec_snoc)
qed

lemma dec_no_char: "\<not> is_digit c \<Longrightarrow> c \<notin> set (dec n)"
  using dec_digits [of n] by (auto simp: list_all_iff)

section \<open>Integers of JavaScript numbers\<close>

text \<open>\<open>Number.MAX_SAFE_INTEGER\<close> and \<open>Number.isSafeInteger\<close> of an integer.\<close>

definition max_safe_integer :: int where
  "max_safe_integer = 9007199254740991"

definition is_safe_integer :: "int \<Rightarrow> bool" where
  "is_safe_integer n \<longleftrightarrow> - max_safe_integer \<le> n \<and> n \<le> max_safe_integer"

section \<open>Lists\<close>

text \<open>\<open>Array.prototype.some\<close>, \<open>find\<close>, and the first row of a query.\<close>

lemma find_Some_mem: "List.find P xs = Some x \<Longrightarrow> x \<in> set xs \<and> P x"
  by (auto simp: find_Some_iff)

lemma find_None_iff': "List.find P xs = None \<longleftrightarrow> (\<forall>x\<in>set xs. \<not> P x)"
  by (auto simp: find_None_iff)

lemma find_unique:
  assumes "x \<in> set xs" "P x" "\<And>y. y \<in> set xs \<Longrightarrow> P y \<Longrightarrow> y = x"
  shows "List.find P xs = Some x"
proof (cases "List.find P xs")
  case None
  then have "\<not> P x" using assms(1) by (auto simp: find_None_iff')
  with assms(2) show ?thesis by contradiction
next
  case (Some z)
  then have "z \<in> set xs" "P z" by (auto dest: find_Some_mem)
  then have "z = x" by (rule assms(3))
  with Some show ?thesis by simp
qed

lemma distinct_map_inj: "distinct (map f xs) \<Longrightarrow> x \<in> set xs \<Longrightarrow> y \<in> set xs \<Longrightarrow> f x = f y \<Longrightarrow> x = y"
  by (auto simp: distinct_map inj_on_def)

lemma distinct_map_filter': "distinct (map f xs) \<Longrightarrow> distinct (map f (filter P xs))"
  by (simp add: distinct_map_filter)

end
