(* ===== verification/Download_Headers.thy ===== *)
theory Download_Headers
  imports Prelude
begin

text \<open>
  \<open>app/services/download_headers.ts\<close>. A file name is a list of code points, as \<open>Array.from\<close>
  iterates it (a lone surrogate is an element of its own); the header is a text of code units
  below 0x80.
\<close>

definition is_surrogate :: "nat \<Rightarrow> bool" where
  "is_surrogate cp \<longleftrightarrow> 55296 \<le> cp \<and> cp \<le> 57343"

text \<open>The UTF-16 code units and the UTF-8 bytes of a code point.\<close>

definition utf16_units :: "nat \<Rightarrow> nat list" where
  "utf16_units cp =
     (if cp < 65536 then [cp]
      else [55296 + (cp - 65536) div 1024, 56320 + (cp - 65536) mod 1024])"

definition utf8_bytes :: "nat \<Rightarrow> nat list" where
  "utf8_bytes cp =
     (if cp < 128 then [cp]
      else if cp < 2048 then [192 + cp div 64, 128 + cp mod 64]
      else if cp < 65536 then [224 + cp div 4096, 128 + cp div 64 mod 64, 128 + cp mod 64]
      else [240 + cp div 262144, 128 + cp div 4096 mod 64, 128 + cp div 64 mod 64, 128 + cp mod 64])"

definition upper_hex :: "nat \<Rightarrow> char" where
  "upper_hex n = (if n < 10 then char_of (48 + n) else char_of (55 + n))"

definition percent_byte :: "nat \<Rightarrow> string" where
  "percent_byte b = [CHR ''%'', upper_hex (b div 16), upper_hex (b mod 16)]"

text \<open>\<open>encodeURIComponent\<close>; it throws a \<open>URIError\<close> on a lone surrogate.\<close>

definition uri_unreserved :: "nat \<Rightarrow> bool" where
  "uri_unreserved cp \<longleftrightarrow> cp < 128 \<and> (is_alnum (char_of cp) \<or> char_of cp \<in> set ''-_.!~*'' \<or>
     cp = 39 \<or> cp = 40 \<or> cp = 41)"

definition encode_code_point :: "nat \<Rightarrow> string" where
  "encode_code_point cp =
     (if uri_unreserved cp then [char_of cp] else concat (map percent_byte (utf8_bytes cp)))"

definition encode_uri_component :: "nat list \<Rightarrow> string option" where
  "encode_uri_component cps =
     (if list_ex is_surrogate cps then None else Some (concat (map encode_code_point cps)))"

definition safe_file_name :: "nat list \<Rightarrow> nat list" where
  "safe_file_name cps = map (\<lambda>cp. if cp \<le> 31 \<or> cp = 127 then 95 else cp) cps"

definition fallback_unit :: "nat \<Rightarrow> char" where
  "fallback_unit u =
     (if u < 32 \<or> 126 < u \<or> u = 34 \<or> u = 92 \<or> u = 59 then CHR ''_'' else char_of u)"

text \<open>\<open>.replace(/[!'()*]/g, ...)\<close> on the encoded text\<close>

definition escape_extra :: "char \<Rightarrow> string" where
  "escape_extra c =
     (if code c = 33 \<or> code c = 39 \<or> code c = 40 \<or> code c = 41 \<or> code c = 42
      then percent_byte (code c) else [c])"

definition attachment_disposition :: "nat list \<Rightarrow> string option" where
  "attachment_disposition cps =
     (let safe = safe_file_name cps;
          fallback = map fallback_unit (concat (map utf16_units safe))
      in map_option (\<lambda>e. ''attachment; filename='' @ [CHR 0x22] @ fallback @ [CHR 0x22] @
             ''; filename*=UTF-8'' @ [CHR 0x27, CHR 0x27] @ concat (map escape_extra e))
           (encode_uri_component safe))"

section \<open>Reading the encoded name\<close>

text \<open>What a client does with the parameter \<open>filename*\<close>: percent decoding to bytes.\<close>

definition upper_hex_val :: "char \<Rightarrow> nat option" where
  "upper_hex_val c =
     (if is_digit c then Some (code c - 48)
      else if char_between 65 70 c then Some (code c - 55) else None)"

fun percent_decode :: "string \<Rightarrow> nat list option" where
  "percent_decode [] = Some []"
| "percent_decode (c # s) =
     (if c = CHR ''%'' then
        (case s of
           h # l # t \<Rightarrow>
             (case (upper_hex_val h, upper_hex_val l) of
                (Some a, Some b) \<Rightarrow> map_option ((#) (a * 16 + b)) (percent_decode t)
              | _ \<Rightarrow> None)
         | _ \<Rightarrow> None)
      else map_option ((#) (code c)) (percent_decode s))"

text \<open>The characters RFC 5987 allows in a value, and those of a quoted string without escapes.\<close>

definition attr_char :: "char \<Rightarrow> bool" where
  "attr_char c \<longleftrightarrow> is_alnum c \<or> c \<in> set ''-_.~%''"

definition quoted_char :: "char \<Rightarrow> bool" where
  "quoted_char c \<longleftrightarrow> 32 \<le> code c \<and> code c \<le> 126 \<and> code c \<noteq> 34 \<and> code c \<noteq> 92 \<and> code c \<noteq> 59"

lemma code_upper_hex: "n < 16 \<Longrightarrow> code (upper_hex n) = (if n < 10 then 48 + n else 55 + n)"
  by (simp add: upper_hex_def)

lemma upper_hex_digit:
  assumes "n < 16"
  shows "upper_hex_val (upper_hex n) = Some n" "attr_char (upper_hex n)"
    "upper_hex n \<noteq> CHR ''%''" "escape_extra (upper_hex n) = [upper_hex n]"
proof -
  note c = code_upper_hex [OF assms]
  show "upper_hex_val (upper_hex n) = Some n"
    using assms by (simp add: upper_hex_val_def is_digit_def char_between_def c)
  show "attr_char (upper_hex n)"
    using assms by (simp add: attr_char_def is_alnum_def is_digit_def is_upper_def char_between_def c)
  have "code (upper_hex n) \<noteq> code (CHR ''%'')" using assms by (simp add: c)
  then show "upper_hex n \<noteq> CHR ''%''" by metis
  show "escape_extra (upper_hex n) = [upper_hex n]"
    using assms by (simp add: escape_extra_def c)
qed

lemma percent_decode_byte:
  "b < 256 \<Longrightarrow> percent_decode (percent_byte b @ s) = map_option ((#) b) (percent_decode s)"
  by (simp add: percent_byte_def upper_hex_digit less_mult_imp_div_less)

lemma percent_byte_attr: "b < 256 \<Longrightarrow> list_all attr_char (percent_byte b)"
  by (simp add: percent_byte_def upper_hex_digit less_mult_imp_div_less, simp add: attr_char_def)

lemma percent_byte_plain: "b < 256 \<Longrightarrow> concat (map escape_extra (percent_byte b)) = percent_byte b"
  by (simp add: percent_byte_def upper_hex_digit less_mult_imp_div_less, simp add: escape_extra_def)

lemma utf8_bytes_bound: "cp < 1114112 \<Longrightarrow> list_all (\<lambda>b. b < 256) (utf8_bytes cp)"
proof -
  assume cp: "cp < 1114112"
  have m: "n mod 64 < 64" for n :: nat by simp
  have "128 + n mod 64 < 256" for n :: nat using m [of n] by linarith
  moreover have "cp < 2048 \<Longrightarrow> 192 + cp div 64 < 256" "cp < 65536 \<Longrightarrow> 224 + cp div 4096 < 256"
    "240 + cp div 262144 < 256" using cp by linarith+
  ultimately show ?thesis by (simp add: utf8_bytes_def)
qed

text \<open>What follows \<open>filename*=UTF-8''\<close> for one code point.\<close>

definition ext_value :: "nat \<Rightarrow> string" where
  "ext_value cp = concat (map escape_extra (encode_code_point cp))"

lemma ext_value_percent:
  assumes "cp < 1114112" "\<not> uri_unreserved cp"
  shows "ext_value cp = concat (map percent_byte (utf8_bytes cp))"
proof -
  have "concat (map escape_extra (concat (map percent_byte bs))) = concat (map percent_byte bs)"
    if "list_all (\<lambda>b. b < 256) bs" for bs
    using that by (induction bs) (auto simp: percent_byte_plain)
  then show ?thesis using assms utf8_bytes_bound [OF assms(1)] by (simp add: ext_value_def encode_code_point_def)
qed

lemma ext_value_unreserved:
  assumes "uri_unreserved cp"
  shows "ext_value cp = (if cp = 33 \<or> cp = 39 \<or> cp = 40 \<or> cp = 41 \<or> cp = 42 then percent_byte cp else [char_of cp])"
    "utf8_bytes cp = [cp]" "char_of cp \<noteq> CHR ''%''" "cp < 128"
proof -
  have cp: "cp < 128" using assms by (simp add: uri_unreserved_def)
  then have c: "code (char_of cp) = cp" by simp
  show "ext_value cp = (if cp = 33 \<or> cp = 39 \<or> cp = 40 \<or> cp = 41 \<or> cp = 42 then percent_byte cp else [char_of cp])"
    using assms cp by (simp add: ext_value_def encode_code_point_def escape_extra_def c)
  show "utf8_bytes cp = [cp]" using cp by (simp add: utf8_bytes_def)
  show "cp < 128" by (rule cp)
  show "char_of cp \<noteq> CHR ''%''"
  proof
    assume "char_of cp = CHR ''%''"
    then have "cp = 37" using c by simp
    then show False using assms by (simp add: uri_unreserved_def is_alnum_def char_class_defs char_of_eq_iff)
  qed
qed

lemma percent_decode_ext:
  assumes "cp < 1114112"
  shows "percent_decode (ext_value cp @ s) = map_option ((@) (utf8_bytes cp)) (percent_decode s)"
proof (cases "uri_unreserved cp")
  case True
  note u = ext_value_unreserved [OF True]
  have p: "percent_decode (percent_byte cp @ s) = map_option ((#) cp) (percent_decode s)"
    using u(4) by (intro percent_decode_byte) simp
  have q: "percent_decode ([char_of cp] @ s) = map_option ((#) cp) (percent_decode s)"
    using u(3,4) by simp
  have "((@) [cp] :: nat list \<Rightarrow> nat list) = (#) cp" by (simp add: fun_eq_iff)
  then show ?thesis unfolding u(1,2) using p q by (simp only: split: if_splits) simp
next
  case False
  have "percent_decode (concat (map percent_byte bs) @ s) = map_option ((@) bs) (percent_decode s)"
    if "list_all (\<lambda>b. b < 256) bs" for bs
    using that by (induction bs) (cases "percent_decode s"; simp add: percent_decode_byte)+
  then show ?thesis using utf8_bytes_bound [OF assms] by (simp add: ext_value_percent [OF assms False])
qed

lemma ext_value_attr: "cp < 1114112 \<Longrightarrow> list_all attr_char (ext_value cp)"
proof (cases "uri_unreserved cp")
  case True
  note u = ext_value_unreserved [OF True]
  have "attr_char (char_of cp)" if "cp \<notin> {33, 39, 40, 41, 42}"
  proof -
    have "take_bit 8 cp = cp" using u(4) by (simp add: take_bit_nat_eq_self)
    then show ?thesis using True that by (auto simp: uri_unreserved_def attr_char_def char_of_eq_iff)
  qed
  then show ?thesis using u percent_byte_attr [of cp] by auto
next
  case False
  assume cp: "cp < 1114112"
  have "list_all attr_char (concat (map percent_byte bs))" if "list_all (\<lambda>b. b < 256) bs" for bs
    using that by (induction bs) (auto simp: percent_byte_attr)
  then show ?thesis using utf8_bytes_bound [OF cp] by (simp add: ext_value_percent [OF cp False])
qed

lemma decode_name:
  "\<forall>cp\<in>set cps. cp < 1114112 \<Longrightarrow>
     percent_decode (concat (map ext_value cps)) = Some (concat (map utf8_bytes cps))"
  by (induction cps) (auto simp: percent_decode_ext)

lemma fallback_quoted: "quoted_char (fallback_unit u)"
  by (auto simp: fallback_unit_def quoted_char_def)

lemma safe_name_bound: "\<forall>cp\<in>set cps. cp < 1114112 \<Longrightarrow> \<forall>cp\<in>set (safe_file_name cps). cp < 1114112"
  by (auto simp: safe_file_name_def)

lemma concat_escape: "concat (map escape_extra (concat (map encode_code_point cps))) = concat (map ext_value cps)"
  by (induction cps) (auto simp: ext_value_def)


text \<open>
  The header built for a download cannot be broken by the stored file name: the quoted name holds
  printable ASCII only, without a quote, a backslash or a semicolon, the extended value holds only
  the characters RFC 5987 allows, and percent decoding it gives the UTF-8 bytes of the file name
  with its control characters replaced.
\<close>

theorem attachment_header_safe:
  assumes "attachment_disposition cps = Some h" "\<forall>cp\<in>set cps. cp < 1114112"
  shows "\<exists>fallback ext.
     h = ''attachment; filename='' @ [CHR 0x22] @ fallback @ [CHR 0x22] @ ''; filename*=UTF-8'' @
         [CHR 0x27, CHR 0x27] @ ext \<and>
     list_all quoted_char fallback \<and> list_all attr_char ext \<and>
     percent_decode ext = Some (concat (map utf8_bytes (safe_file_name cps)))"
proof -
  let ?safe = "safe_file_name cps"
  have b: "\<forall>cp\<in>set ?safe. cp < 1114112" by (rule safe_name_bound [OF assms(2)])
  have h: "h = ''attachment; filename='' @ [CHR 0x22] @ map fallback_unit (concat (map utf16_units ?safe)) @
      [CHR 0x22] @ ''; filename*=UTF-8'' @ [CHR 0x27, CHR 0x27] @ concat (map ext_value ?safe)"
    using assms(1)
    by (auto simp: attachment_disposition_def encode_uri_component_def Let_def concat_escape split: if_splits)
  have "list_all attr_char (concat (map ext_value ?safe))"
    using b ext_value_attr by (auto simp: list_all_iff)
  moreover have "list_all quoted_char (map fallback_unit (concat (map utf16_units ?safe)))"
    by (auto simp: list_all_iff fallback_quoted)
  ultimately show ?thesis using h decode_name [OF b] by blast
qed

lemma attachment_header_safe_witness:
  "\<exists>fallback ext.
     the (attachment_disposition [97, 34, 10, 233, 128512]) =
       ''attachment; filename='' @ [CHR 0x22] @ fallback @ [CHR 0x22] @ ''; filename*=UTF-8'' @
         [CHR 0x27, CHR 0x27] @ ext \<and>
     list_all quoted_char fallback \<and> list_all attr_char ext \<and>
     percent_decode ext = Some (concat (map utf8_bytes (safe_file_name [97, 34, 10, 233, 128512])))"
proof -
  have "attachment_disposition [97, 34, 10, 233, 128512] =
      Some (the (attachment_disposition [97, 34, 10, 233, 128512]))"
    by code_simp
  then show ?thesis by (rule attachment_header_safe) simp
qed

end
