(* ===== verification/JS_Values.thy ===== *)
theory JS_Values
  imports Prelude "HOL-Library.Log_Nat"
begin

text \<open>
  The JavaScript values that reach the services: untyped request input (\<open>unknown\<close> and \<open>any\<close> in
  the TypeScript), the numbers behind them, and the conversions \<open>Number(v)\<close> and \<open>String(v)\<close> the
  code applies. A number is an IEEE double; a finite one is the rational it denotes (zero has one
  sign), and arithmetic is exact arithmetic followed by the rounding \<open>fl\<close>.
\<close>

section \<open>Rounding to a double\<close>

text \<open>Round to the nearest integer, ties to even.\<close>

definition rne :: "rat \<Rightarrow> int" where
  "rne y = (let f = \<lfloor>y\<rfloor>; d = y - of_int f in
     if d < 1/2 then f else if d > 1/2 then f + 1 else if even f then f else f + 1)"

text \<open>The exponent of the binade of a positive number: \<open>2\<^bsup>ilog2 x\<^esup> \<le> x < 2\<^bsup>ilog2 x + 1\<^esup>\<close>.\<close>

definition ilog2 :: "rat \<Rightarrow> int" where
  "ilog2 x =
     (if 1 \<le> x then int (floorlog 2 (nat \<lfloor>x\<rfloor>)) - 1
      else - int (floorlog 2 (nat (\<lceil>1 / x\<rceil> - 1))))"

definition ulp :: "rat \<Rightarrow> rat" where
  "ulp x = 2 powi (max (ilog2 x) (-1022) - 52)"

definition fl :: "rat \<Rightarrow> rat" where
  "fl x = (if x = 0 then 0
           else if 0 < x then of_int (rne (x / ulp x)) * ulp x
           else - (of_int (rne (- x / ulp (- x))) * ulp (- x)))"

lemma rne_bounds: "of_int (rne y) \<le> y + 1/2" "y - 1/2 \<le> of_int (rne y)"
  unfolding rne_def Let_def by (auto simp: algebra_simps; linarith)+

lemma rne_of_int [simp]: "rne (of_int n) = n"
  by (simp add: rne_def)

lemma rne_mono: "x \<le> y \<Longrightarrow> rne x \<le> rne y"
proof -
  assume xy: "x \<le> y"
  then have fxy: "\<lfloor>x\<rfloor> \<le> \<lfloor>y\<rfloor>" by (rule floor_mono)
  show ?thesis
  proof (cases "\<lfloor>x\<rfloor> = \<lfloor>y\<rfloor>")
    case True
    with xy show ?thesis by (auto simp: rne_def Let_def)
  next
    case False
    with fxy have "\<lfloor>x\<rfloor> + 1 \<le> \<lfloor>y\<rfloor>" by linarith
    moreover have "rne x \<le> \<lfloor>x\<rfloor> + 1" and "\<lfloor>y\<rfloor> \<le> rne y"
      by (auto simp: rne_def Let_def)
    ultimately show ?thesis by linarith
  qed
qed

lemma floorlog2_bounds: "0 < n \<Longrightarrow> 2 ^ (floorlog 2 n - 1) \<le> n" "0 < n \<Longrightarrow> n < 2 ^ floorlog 2 n"
  using floorlog_bounds [of n 2] by auto

lemma ilog2_ge_one:
  assumes "1 \<le> x"
  shows "2 powi ilog2 x \<le> x" and "x < 2 powi (ilog2 x + 1)"
proof -
  let ?n = "nat \<lfloor>x\<rfloor>" and ?k = "floorlog 2 (nat \<lfloor>x\<rfloor>)"
  have n: "0 < ?n" using assms by simp
  then have k: "0 < ?k" by (simp add: floorlog_def)
  have "(of_nat (2 ^ (?k - 1)) :: rat) \<le> of_nat ?n"
    using floorlog2_bounds(1) [OF n] by (simp only: of_nat_le_iff)
  also have "of_nat ?n \<le> x" using assms by simp
  finally have le: "2 ^ (?k - 1) \<le> x" by simp
  have "?n + 1 \<le> 2 ^ ?k" using floorlog2_bounds(2) [OF n] by linarith
  then have "(of_nat (?n + 1) :: rat) \<le> of_nat (2 ^ ?k)" by (simp only: of_nat_le_iff)
  moreover have "x < of_nat (?n + 1)" using assms by simp linarith
  ultimately have lt: "x < 2 ^ ?k" by simp
  have il: "ilog2 x = int (?k - 1)" "ilog2 x + 1 = int ?k"
    using assms k by (simp_all add: ilog2_def of_nat_diff)
  show "2 powi ilog2 x \<le> x" using le by (simp add: il(1))
  show "x < 2 powi (ilog2 x + 1)" using lt by (simp add: il(2))
qed

lemma ilog2_less_one:
  assumes "0 < x" "x < 1"
  shows "2 powi ilog2 x \<le> x" and "x < 2 powi (ilog2 x + 1)"
proof -
  let ?n = "nat (\<lceil>1 / x\<rceil> - 1)" and ?k = "floorlog 2 (nat (\<lceil>1 / x\<rceil> - 1))"
  have inv: "1 < 1 / x" using assms by simp
  then have n: "0 < ?n" by (simp add: less_ceiling_iff)
  then have k: "0 < ?k" by (simp add: floorlog_def)
  have "?n + 1 \<le> 2 ^ ?k" using floorlog2_bounds(2) [OF n] by linarith
  then have "(of_nat (?n + 1) :: rat) \<le> of_nat (2 ^ ?k)" by (simp only: of_nat_le_iff)
  moreover have "1 / x \<le> of_nat (?n + 1)"
  proof -
    have "int (?n + 1) = \<lceil>1 / x\<rceil>" using n by linarith
    then have "(of_nat (?n + 1) :: rat) = of_int \<lceil>1 / x\<rceil>" by (metis of_int_of_nat_eq)
    then show ?thesis by (simp only: le_of_int_ceiling)
  qed
  ultimately have "1 / x \<le> 2 ^ ?k" by simp
  then have le: "inverse (2 ^ ?k) \<le> x" using assms by (simp add: field_simps)
  have "(of_nat (2 ^ (?k - 1)) :: rat) \<le> of_nat ?n"
    using floorlog2_bounds(1) [OF n] by (simp only: of_nat_le_iff)
  also have "of_nat ?n < 1 / x" using n by (simp; linarith)
  finally have "2 ^ (?k - 1) < 1 / x" by simp
  then have lt: "x < inverse (2 ^ (?k - 1))" using assms by (simp add: field_simps)
  have il: "ilog2 x = - int ?k" "ilog2 x + 1 = - int (?k - 1)"
    using assms k by (simp_all add: ilog2_def of_nat_diff)
  show "2 powi ilog2 x \<le> x" using le by (simp add: il(1) power_int_minus)
  show "x < 2 powi (ilog2 x + 1)" using lt by (simp add: il(2) power_int_minus)
qed

lemma ilog2_bounds:
  "0 < x \<Longrightarrow> 2 powi ilog2 x \<le> x" "0 < x \<Longrightarrow> x < 2 powi (ilog2 x + 1)"
  using ilog2_ge_one ilog2_less_one by (cases "1 \<le> x"; simp)+

lemma powi2_mono: "i \<le> j \<Longrightarrow> (2 :: rat) powi i \<le> 2 powi j"
  by (rule power_int_increasing) auto

lemma powi2_less_cancel: "(2 :: rat) powi i < 2 powi j \<Longrightarrow> i < j"
  by (metis linorder_not_le powi2_mono)

lemma ulp_pos [simp]: "0 < ulp x"
  by (simp add: ulp_def)

lemma ilog2_mono: "0 < x \<Longrightarrow> x \<le> y \<Longrightarrow> ilog2 x \<le> ilog2 y"
proof -
  assume "0 < x" "x \<le> y"
  then have "(2 :: rat) powi ilog2 x < 2 powi (ilog2 y + 1)"
    using ilog2_bounds(1) [of x] ilog2_bounds(2) [of y] by linarith
  then show ?thesis using powi2_less_cancel by fastforce
qed

lemma fl_pos: "0 < x \<Longrightarrow> fl x = of_int (rne (x / ulp x)) * ulp x"
  by (simp add: fl_def)

text \<open>The rounding error is half a unit in the last place.\<close>

lemma fl_error: "0 < x \<Longrightarrow> fl x \<le> x + ulp x / 2" "0 < x \<Longrightarrow> x - ulp x / 2 \<le> fl x"
proof -
  assume x: "0 < x"
  have up: "ulp x \<noteq> 0" "0 \<le> ulp x" using ulp_pos [of x] by linarith+
  have "of_int (rne (x / ulp x)) * ulp x \<le> (x / ulp x + 1/2) * ulp x"
    by (rule mult_right_mono [OF rne_bounds(1)]) (use up in simp)
  moreover have "(x / ulp x - 1/2) * ulp x \<le> of_int (rne (x / ulp x)) * ulp x"
    by (rule mult_right_mono [OF rne_bounds(2)]) (use up in simp)
  moreover have "(x / ulp x + 1/2) * ulp x = x + ulp x / 2" "(x / ulp x - 1/2) * ulp x = x - ulp x / 2"
    using up(1) by (simp_all add: distrib_right left_diff_distrib)
  ultimately show "fl x \<le> x + ulp x / 2" "x - ulp x / 2 \<le> fl x"
    by (simp_all add: fl_pos [OF x])
qed

lemma ulp_rel: 
  assumes "2 powi (-1022) \<le> x"
  shows "ulp x \<le> x / 2 ^ 52"
proof -
  have x: "0 < x" using assms by (metis less_le_trans zero_less_power_int zero_less_numeral)
  have "(2 :: rat) powi (-1022) < 2 powi (ilog2 x + 1)"
    using assms ilog2_bounds(2) [OF x] by linarith
  then have "-1022 \<le> ilog2 x" using powi2_less_cancel by fastforce
  then have "ulp x = 2 powi ilog2 x / 2 ^ 52"
    by (simp add: ulp_def power_int_diff)
  also have "\<dots> \<le> x / 2 ^ 52" using ilog2_bounds(1) [OF x] by (simp add: divide_right_mono)
  finally show ?thesis .
qed

lemma fl_rel_upper:
  assumes "2 powi (-1022) \<le> x"
  shows "fl x \<le> x * (1 + 1 / 2 ^ 53)"
proof -
  have x: "0 < x" using assms by (metis less_le_trans zero_less_power_int zero_less_numeral)
  have "ulp x / 2 \<le> (x / 2 ^ 52) / 2" by (rule divide_right_mono [OF ulp_rel [OF assms]]) simp
  then have "fl x \<le> x + (x / 2 ^ 52) / 2" using fl_error(1) [OF x] by linarith
  then show ?thesis by (simp add: field_simps)
qed

lemma powi2_nat: "0 \<le> i \<Longrightarrow> (2 :: rat) powi i = of_int (2 ^ nat i)"
  by (simp add: power_int_def)

lemma powi2_div_ulp:
  assumes "max (ilog2 x) (-1022) - 52 \<le> j"
  shows "2 powi j / ulp x = of_int (2 ^ nat (j - (max (ilog2 x) (-1022) - 52)))"
proof -
  have "2 powi j / ulp x = 2 powi (j - (max (ilog2 x) (-1022) - 52))"
    by (simp add: ulp_def power_int_diff)
  also have "\<dots> = of_int (2 ^ nat (j - (max (ilog2 x) (-1022) - 52)))"
    by (rule powi2_nat) (use assms in simp)
  finally show ?thesis .
qed

lemma fl_le_next:
  assumes "0 < x" "ilog2 x < j" "-1022 < j"
  shows "fl x \<le> 2 powi j"
proof -
  let ?e = "max (ilog2 x) (-1022)"
  have je: "?e + 1 \<le> j" using assms by simp
  have "x < 2 powi (ilog2 x + 1)" by (rule ilog2_bounds(2)) fact
  also have "\<dots> \<le> 2 powi j" by (rule powi2_mono) (use assms in simp)
  finally have "x / ulp x \<le> 2 powi j / ulp x" by (simp add: divide_right_mono less_imp_le)
  moreover have q: "2 powi j / ulp x = of_int (2 ^ nat (j - (?e - 52)))"
    using je by (intro powi2_div_ulp) simp
  ultimately have "rne (x / ulp x) \<le> rne (2 powi j / ulp x)" by (intro rne_mono)
  then have "rne (x / ulp x) \<le> 2 ^ nat (j - (?e - 52))" by (simp only: q rne_of_int)
  then have "(of_int (rne (x / ulp x)) :: rat) \<le> 2 powi j / ulp x"
    unfolding q by (simp only: of_int_le_iff)
  then show ?thesis using fl_pos [OF assms(1)] by (simp add: pos_le_divide_eq)
qed

lemma fl_ge_pow:
  assumes "2 powi j \<le> y" "-1022 \<le> j"
  shows "2 powi j \<le> fl y"
proof -
  have y: "0 < y" using assms(1) by (metis less_le_trans zero_less_power_int zero_less_numeral)
  let ?e = "max (ilog2 y) (-1022)"
  show ?thesis
  proof (cases "ilog2 y - 52 \<le> j")
    case True
    then have q: "2 powi j / ulp y = of_int (2 ^ nat (j - (?e - 52)))"
      using assms(2) by (intro powi2_div_ulp) simp
    have "rne (2 powi j / ulp y) \<le> rne (y / ulp y)"
      using assms(1) by (intro rne_mono divide_right_mono) (auto simp: less_imp_le)
    then have "2 ^ nat (j - (?e - 52)) \<le> rne (y / ulp y)" by (simp only: q rne_of_int)
    then have "2 powi j / ulp y \<le> of_int (rne (y / ulp y))"
      unfolding q by (simp only: of_int_le_iff)
    then show ?thesis using fl_pos [OF y] by (simp add: pos_divide_le_eq)
  next
    case False
    then have eq: "?e = ilog2 y" using assms(2) by simp
    have "ulp y / 2 \<le> (2 :: rat) powi ilog2 y / 2"
      by (simp add: ulp_def eq powi2_mono)
    moreover have "2 powi ilog2 y \<le> y" by (rule ilog2_bounds(1) [OF y])
    moreover have "2 powi j \<le> (2 :: rat) powi ilog2 y / 2"
      using powi2_mono [of j "ilog2 y - 1"] False by (simp add: power_int_diff)
    ultimately show ?thesis using fl_error(2) [OF y] by linarith
  qed
qed

lemma fl_mono_pos: "0 < x \<Longrightarrow> x \<le> y \<Longrightarrow> fl x \<le> fl y"
proof -
  assume x: "0 < x" and xy: "x \<le> y"
  then have y: "0 < y" by linarith
  let ?ex = "max (ilog2 x) (-1022)" and ?ey = "max (ilog2 y) (-1022)"
  have "ilog2 x \<le> ilog2 y" by (rule ilog2_mono [OF x xy])
  then consider "?ex = ?ey" | "?ex < ?ey" by linarith
  then show ?thesis
  proof cases
    case 1
    then have u: "ulp x = ulp y" by (simp add: ulp_def)
    have "rne (x / ulp y) \<le> rne (y / ulp y)"
      using xy by (intro rne_mono divide_right_mono) (auto simp: less_imp_le)
    then show ?thesis
      using fl_pos [OF x] fl_pos [OF y] u by (simp add: mult_right_mono less_imp_le)
  next
    case 2
    then have "-1022 < ilog2 y" "ilog2 x < ilog2 y" by auto
    then show ?thesis
      using fl_le_next [OF x, of "ilog2 y"] fl_ge_pow [OF ilog2_bounds(1) [OF y]] by force
  qed
qed

text \<open>Integers of magnitude below \<open>2\<^sup>5\<^sup>3\<close> are doubles.\<close>

lemma fl_of_int_pos:
  assumes "0 < n" "n < 2 ^ 53"
  shows "fl (of_int n) = of_int n"
proof -
  have x: "(0 :: rat) < of_int n" using assms by simp
  have "(2 :: rat) powi ilog2 (of_int n) \<le> of_int n" by (rule ilog2_bounds(1) [OF x])
  also have "(of_int n :: rat) < of_int (2 ^ 53)" using assms by (simp only: of_int_less_iff)
  also have "(of_int (2 ^ 53) :: rat) = 2 powi 53" by simp
  finally have il: "ilog2 (of_int n) < 53" by (rule powi2_less_cancel)
  have ge: "0 \<le> ilog2 (of_int n)" using assms by (simp add: ilog2_def floorlog_def)
  define k where "k = nat (52 - ilog2 (of_int n))"
  have k: "ilog2 (of_int n) - 52 = - int k" "- 1022 \<le> ilog2 (of_int n)"
    using il ge by (simp_all add: k_def)
  then have u: "ulp (of_int n) = inverse (2 ^ k)"
    by (simp add: ulp_def max_def power_int_minus)
  moreover have "of_int n * 2 ^ k = (of_int (n * 2 ^ k) :: rat)" by simp
  ultimately have "rne (of_int n / ulp (of_int n)) = n * 2 ^ k"
    by (simp only: divide_inverse inverse_inverse_eq rne_of_int)
  with u show ?thesis by (simp add: fl_pos [OF x])
qed

lemma fl_zero [simp]: "fl 0 = 0"
  by (simp add: fl_def)

lemma fl_of_nat: "n < 2 ^ 53 \<Longrightarrow> fl (of_nat n) = of_nat n"
proof (cases "n = 0")
  case False
  assume "n < 2 ^ 53"
  then have "int n < int (2 ^ 53)" by (simp only: of_nat_less_iff)
  then have "int n < 2 ^ 53" by simp
  with False show ?thesis using fl_of_int_pos [of "int n"] by simp
qed simp

section \<open>Numbers and values\<close>

datatype jsnum = Fin rat | NaN | PosInf | NegInf

datatype jsval =
    JUndef
  | JNull
  | JBool bool
  | JNum jsnum
  | JStr string
  | JArr "jsval list"
  | JObj "(string \<times> jsval) list"

text \<open>The double nearest to a real value, with overflow to the infinities.\<close>

definition to_double :: "rat \<Rightarrow> jsnum" where
  "to_double x =
     (if 2 ^ 1024 - 2 ^ 970 \<le> x then PosInf
      else if x \<le> - (2 ^ 1024 - 2 ^ 970) then NegInf else Fin (fl x))"

fun truthy :: "jsval \<Rightarrow> bool" where
  "truthy JUndef \<longleftrightarrow> False"
| "truthy JNull \<longleftrightarrow> False"
| "truthy (JBool b) \<longleftrightarrow> b"
| "truthy (JNum (Fin r)) \<longleftrightarrow> r \<noteq> 0"
| "truthy (JNum NaN) \<longleftrightarrow> False"
| "truthy (JNum PosInf) \<longleftrightarrow> True"
| "truthy (JNum NegInf) \<longleftrightarrow> True"
| "truthy (JStr s) \<longleftrightarrow> s \<noteq> []"
| "truthy (JArr vs) \<longleftrightarrow> True"
| "truthy (JObj ps) \<longleftrightarrow> True"

text \<open>\<open>a || b\<close>, \<open>a ?? b\<close>, \<open>o.k\<close>.\<close>

definition js_or :: "jsval \<Rightarrow> jsval \<Rightarrow> jsval" where
  "js_or a b = (if truthy a then a else b)"

definition js_nullish :: "jsval \<Rightarrow> jsval \<Rightarrow> jsval" where
  "js_nullish a b = (if a = JUndef \<or> a = JNull then b else a)"

definition js_prop :: "(string \<times> jsval) list \<Rightarrow> string \<Rightarrow> jsval" where
  "js_prop ps k = (case map_of ps k of None \<Rightarrow> JUndef | Some v \<Rightarrow> v)"

text \<open>\<open>value === undefined || value === null || value === ''\<close>\<close>

definition js_absent :: "jsval \<Rightarrow> bool" where
  "js_absent v \<longleftrightarrow> v = JUndef \<or> v = JNull \<or> v = JStr []"

subsection \<open>\<open>Number(text)\<close>\<close>

definition exponent_part :: "string \<Rightarrow> int option" where
  "exponent_part s =
     (case s of
        c # t \<Rightarrow>
          if c = CHR ''+'' then (if all_digits t then Some (int (undec t)) else None)
          else if c = CHR ''-'' then (if all_digits t then Some (- int (undec t)) else None)
          else if all_digits s then Some (int (undec s)) else None
      | [] \<Rightarrow> None)"

definition unsigned_decimal :: "string \<Rightarrow> rat option" where
  "unsigned_decimal s =
     (let ip = takeWhile is_digit s; r1 = dropWhile is_digit s;
          dot = (r1 \<noteq> [] \<and> hd r1 = CHR ''.'');
          fp = (if dot then takeWhile is_digit (tl r1) else []);
          r2 = (if dot then dropWhile is_digit (tl r1) else r1);
          m = of_nat (undec (ip @ fp)) / 10 ^ length fp
      in if ip = [] \<and> fp = [] then None
         else (case r2 of
             [] \<Rightarrow> Some m
           | c # t \<Rightarrow> if c = CHR ''e'' \<or> c = CHR ''E''
               then map_option (\<lambda>k. m * 10 powi k) (exponent_part t) else None))"

definition radix_val :: "nat \<Rightarrow> char \<Rightarrow> nat option" where
  "radix_val r c =
     (let v = (if is_digit c then code c - 48
               else if is_lower c then code c - 87
               else if is_upper c then code c - 55 else 99)
      in if v < r then Some v else None)"

fun radix_number :: "nat \<Rightarrow> nat \<Rightarrow> string \<Rightarrow> nat option" where
  "radix_number r acc [] = Some acc"
| "radix_number r acc (c # s) =
     (case radix_val r c of None \<Rightarrow> None | Some v \<Rightarrow> radix_number r (r * acc + v) s)"

definition radix_literal :: "string \<Rightarrow> jsnum option" where
  "radix_literal s =
     (case s of
        z # x # d # ds \<Rightarrow>
          if z \<noteq> CHR ''0'' then None
          else (case (if x \<in> set ''xX'' then 16 else if x \<in> set ''oO'' then 8
                      else if x \<in> set ''bB'' then 2 else 0) of
              0 \<Rightarrow> None
            | Suc r \<Rightarrow> map_option (\<lambda>n. to_double (of_nat n)) (radix_number (Suc r) 0 (d # ds)))
      | _ \<Rightarrow> None)"

definition signed_decimal :: "bool \<Rightarrow> string \<Rightarrow> jsnum" where
  "signed_decimal neg s =
     (if s = ''Infinity'' then (if neg then NegInf else PosInf)
      else (case unsigned_decimal s of
          None \<Rightarrow> NaN
        | Some m \<Rightarrow> to_double (if neg then - m else m)))"

definition number_of_string :: "string \<Rightarrow> jsnum" where
  "number_of_string str =
     (let s = trim str in
      case s of
        [] \<Rightarrow> Fin 0
      | c # t \<Rightarrow>
          (case radix_literal s of
             Some n \<Rightarrow> n
           | None \<Rightarrow> if c = CHR ''+'' then signed_decimal False t
                     else if c = CHR ''-'' then signed_decimal True t
                     else signed_decimal False s))"

text \<open>
  \<open>Number(value)\<close>. An array is converted through \<open>String(array)\<close>, the elements joined with
  commas: no element gives 0, one element its own conversion (\<open>Number(String(n))\<close> is \<open>n\<close>,
  \<open>null\<close> and \<open>undefined\<close> print as nothing, a boolean as a word), and two or more give a text with
  a comma, hence NaN. An object prints as \<open>[object Object]\<close>.
\<close>

fun to_number :: "jsval \<Rightarrow> jsnum" where
  "to_number JUndef = NaN"
| "to_number JNull = Fin 0"
| "to_number (JBool b) = Fin (if b then 1 else 0)"
| "to_number (JNum n) = n"
| "to_number (JStr s) = number_of_string s"
| "to_number (JArr []) = Fin 0"
| "to_number (JArr [v]) =
     (case v of JUndef \<Rightarrow> Fin 0 | JBool b \<Rightarrow> NaN | _ \<Rightarrow> to_number v)"
| "to_number (JArr (v # w # vs)) = NaN"
| "to_number (JObj ps) = NaN"

fun num_is_integer :: "jsnum \<Rightarrow> bool" where
  "num_is_integer (Fin r) \<longleftrightarrow> of_int \<lfloor>r\<rfloor> = r"
| "num_is_integer _ \<longleftrightarrow> False"

text \<open>\<open>Number.isInteger(v)\<close> and \<open>Number.isSafeInteger(v)\<close>: false for what is not a number.\<close>

fun js_integer :: "jsval \<Rightarrow> int option" where
  "js_integer (JNum (Fin r)) = (if of_int \<lfloor>r\<rfloor> = r then Some \<lfloor>r\<rfloor> else None)"
| "js_integer _ = None"

definition js_safe_integer :: "jsval \<Rightarrow> int option" where
  "js_safe_integer v =
     (case js_integer v of Some n \<Rightarrow> if is_safe_integer n then Some n else None | None \<Rightarrow> None)"

text \<open>
  \<open>String(value)\<close> of a string or a number, where it matches \<open>/^\d+$/\<close>: a number prints as
  digits only when it is a non-negative integer below \<open>10\<^bsup>21\<^esup>\<close>.
\<close>

fun digits_text :: "jsval \<Rightarrow> string option" where
  "digits_text (JStr s) = (if all_digits s then Some s else None)"
| "digits_text (JNum (Fin r)) =
     (if of_int \<lfloor>r\<rfloor> = r \<and> 0 \<le> r \<and> r < 10 ^ 21 then Some (dec (nat \<lfloor>r\<rfloor>)) else None)"
| "digits_text _ = None"

lemma digits_text_all_digits: "digits_text v = Some s \<Longrightarrow> all_digits s"
  by (cases v rule: digits_text.cases) (auto split: if_splits)

text \<open>\<open>x.toFixed(d)\<close> of a non-negative double below \<open>10\<^bsup>21\<^esup>\<close>: the larger of two nearest decimals.\<close>

definition to_fixed :: "nat \<Rightarrow> rat \<Rightarrow> string" where
  "to_fixed d x =
     (let n = nat \<lfloor>x * 10 ^ d + 1 / 2\<rfloor>; m = dec n;
          k = (if length m \<le> d then replicate (d + 1 - length m) (CHR ''0'') @ m else m)
      in if d = 0 then m
         else take (length k - d) k @ ''.'' @ drop (length k - d) k)"

section \<open>Percentages of integers\<close>

text \<open>\<open>(a / b) * 100\<close> in doubles, for \<open>b > 0\<close>.\<close>

definition percent :: "nat \<Rightarrow> nat \<Rightarrow> rat" where
  "percent a b = fl (fl (of_nat a / of_nat b) * 100)"

lemma fl_95: "fl (fl (95 / 100) * 100) = 95"
  by code_simp

lemma fl_nonneg: "0 \<le> x \<Longrightarrow> 0 \<le> fl x"
proof (cases "x = 0")
  case False
  assume "0 \<le> x"
  with False have x: "0 < x" by simp
  have "0 \<le> rne (x / ulp x)"
    using rne_mono [of 0 "x / ulp x"] rne_of_int [of 0] x by (simp add: less_imp_le)
  then show ?thesis using fl_pos [OF x] by (simp add: less_imp_le)
qed simp

lemma percent_ge_95:
  assumes "0 < b" "95 * b \<le> 100 * a"
  shows "95 \<le> percent a b"
proof -
  have "(95 / 100 :: rat) \<le> of_nat a / of_nat b"
  proof -
    have "(of_nat (95 * b) :: rat) \<le> of_nat (100 * a)" using assms(2) by (simp only: of_nat_le_iff)
    then show ?thesis using assms(1) by (simp add: field_simps)
  qed
  then have "fl (95 / 100) \<le> fl (of_nat a / of_nat b)" by (intro fl_mono_pos) auto
  moreover have "0 < fl (95 / 100)" by code_simp
  ultimately have "fl (fl (95 / 100) * 100) \<le> percent a b"
    unfolding percent_def by (intro fl_mono_pos) (auto intro: mult_right_mono)
  then show ?thesis by (simp only: fl_95)
qed

lemma percent_less_95:
  assumes "0 < b" "b \<le> 2 ^ 47" "100 * a < 95 * b"
  shows "percent a b < 95"
proof (cases "a = 0")
  case True
  then show ?thesis by (simp add: percent_def)
next
  case False
  let ?x = "(of_nat a / of_nat b :: rat)"
  have b47: "(of_nat b :: rat) \<le> 2 ^ 47"
    using assms(2) by (metis of_nat_le_iff of_nat_numeral of_nat_power)
  have tiny: "(2 :: rat) powi (-1022) \<le> inverse (2 ^ 47)"
    using powi2_mono [of "-1022" "-47"] by (simp add: power_int_minus)
  have "inverse (2 ^ 47) \<le> inverse (of_nat b :: rat)"
    using b47 assms(1) by (intro le_imp_inverse_le) auto
  also have "inverse (of_nat b) \<le> ?x"
  proof -
    have "(1 :: rat) \<le> of_nat a" using False by simp
    then show ?thesis using assms(1) by (simp add: divide_inverse mult_le_cancel_right1)
  qed
  finally have xb: "(2 :: rat) powi (-1022) \<le> ?x" using tiny by linarith
  have x0: "0 < ?x" using assms(1) False by simp
  have f1: "fl ?x \<le> ?x * (1 + 1 / 2 ^ 53)" by (rule fl_rel_upper [OF xb])
  have lower: "?x / 2 \<le> fl ?x"
  proof -
    have "ulp ?x / 2 \<le> ?x / 2"
      using ulp_rel [OF xb] x0 by (simp add: field_simps)
    then show ?thesis using fl_error(2) [OF x0] by linarith
  qed
  have "(2 :: rat) powi (-1022) \<le> fl ?x * 100"
  proof -
    have "c \<le> x \<Longrightarrow> x / 2 \<le> f \<Longrightarrow> 0 < x \<Longrightarrow> c \<le> f * 100" for c x f :: rat by linarith
    then show ?thesis using xb lower x0 .
  qed
  then have "percent a b \<le> fl ?x * 100 * (1 + 1 / 2 ^ 53)"
    unfolding percent_def by (rule fl_rel_upper)
  also have "\<dots> \<le> ?x * (1 + 1 / 2 ^ 53) * 100 * (1 + 1 / 2 ^ 53)"
    using f1 by (simp add: mult_right_mono)
  also have "\<dots> = ?x * 100 * ((1 + 1 / 2 ^ 53) * (1 + 1 / 2 ^ 53))" by simp
  also have "\<dots> \<le> (95 - 5 / of_nat b) * ((1 + 1 / 2 ^ 53) * (1 + 1 / 2 ^ 53))"
  proof (rule mult_right_mono)
    have "100 * a + 5 \<le> 95 * b"
    proof -
      have "20 * a < 19 * b" using assms(3) by simp
      then show ?thesis by simp
    qed
    then have "(of_nat (100 * a + 5) :: rat) \<le> of_nat (95 * b)" by (simp only: of_nat_le_iff)
    then show "?x * 100 \<le> 95 - 5 / of_nat b" using assms(1) by (simp add: field_simps)
  qed simp
  also have "\<dots> < 95"
  proof -
    have "5 / 2 ^ 47 \<le> 5 / (of_nat b :: rat)"
      using b47 assms(1) by (intro divide_left_mono) auto
    then have "(95 - 5 / of_nat b) * ((1 + 1 / 2 ^ 53) * (1 + 1 / 2 ^ 53)) \<le>
        (95 - 5 / 2 ^ 47 :: rat) * ((1 + 1 / 2 ^ 53) * (1 + 1 / 2 ^ 53))"
      by (intro mult_right_mono) auto
    also have "\<dots> < 95" by simp
    finally show ?thesis .
  qed
  finally show ?thesis .
qed

lemma percent_critical_iff:
  "0 < b \<Longrightarrow> b \<le> 2 ^ 47 \<Longrightarrow> 95 \<le> percent a b \<longleftrightarrow> 19 * b \<le> 20 * a"
  using percent_ge_95 [of b a] percent_less_95 [of b a] by (cases "95 * b \<le> 100 * a") auto

end
