(* ===== verification/Encoding.thy ===== *)
theory Encoding
  imports Prelude "HOL-Library.AList"
begin

text \<open>
  The encodings an OTA payload goes through, as Node.js computes them: UTF-8
  (\<open>Buffer.from(s, 'utf8')\<close>), base64url without padding (\<open>toString('base64url')\<close> and
  \<open>Buffer.from(s, 'base64url')\<close>) and compact JSON of a flat object (\<open>JSON.stringify\<close>,
  \<open>JSON.parse\<close>), each with its inverse.
\<close>

type_synonym bytes = "8 word list"

definition byte :: "nat \<Rightarrow> 8 word" where
  "byte n = of_nat n"

lemma unat_byte: "n < 256 \<Longrightarrow> unat (byte n) = n"
  by (simp add: byte_def unat_of_nat)

lemma byte_unat [simp]: "byte (unat w) = w"
  by (simp add: byte_def)

lemma unat_lt_256 [simp]: "unat (w :: 8 word) < 256"
  using unsigned_less [of w, where ?'a = nat] by simp

section \<open>base64url\<close>

definition b64_char :: "nat \<Rightarrow> char" where
  "b64_char n =
     (if n < 26 then char_of (65 + n)
      else if n < 52 then char_of (97 + (n - 26))
      else if n < 62 then char_of (48 + (n - 52))
      else if n = 62 then CHR ''-'' else CHR ''_'')"

text \<open>Node reads both alphabets, skips any other character, and stops at \<open>=\<close>.\<close>

definition b64_val :: "char \<Rightarrow> nat option" where
  "b64_val c =
     (if is_upper c then Some (code c - 65)
      else if is_lower c then Some (code c - 97 + 26)
      else if is_digit c then Some (code c - 48 + 52)
      else if c = CHR ''-'' \<or> c = CHR ''+'' then Some 62
      else if c = CHR ''_'' \<or> c = CHR ''/'' then Some 63
      else None)"

definition is_b64url :: "char \<Rightarrow> bool" where
  "is_b64url c \<longleftrightarrow> is_alnum c \<or> c = CHR ''_'' \<or> c = CHR ''-''"

fun sextets :: "nat list \<Rightarrow> nat list" where
  "sextets [] = []"
| "sextets [a] = [a div 4, (a mod 4) * 16]"
| "sextets [a, b] = [a div 4, (a mod 4) * 16 + b div 16, (b mod 16) * 4]"
| "sextets (a # b # c # r) =
     [a div 4, (a mod 4) * 16 + b div 16, (b mod 16) * 4 + c div 64, c mod 64] @ sextets r"

fun octets :: "nat list \<Rightarrow> nat list" where
  "octets (w # x # y # z # r) =
     [w * 4 + x div 16, (x mod 16) * 16 + y div 4, (y mod 4) * 64 + z] @ octets r"
| "octets [w, x, y] = [w * 4 + x div 16, (x mod 16) * 16 + y div 4]"
| "octets [w, x] = [w * 4 + x div 16]"
| "octets [w] = []"
| "octets [] = []"

definition base64url :: "bytes \<Rightarrow> string" where
  "base64url bs = map b64_char (sextets (map unat bs))"

definition base64url_decode :: "string \<Rightarrow> bytes" where
  "base64url_decode s = map byte (octets (List.map_filter b64_val (takeWhile (\<lambda>c. c \<noteq> CHR ''='') s)))"

lemma sextets_bound: "list_all (\<lambda>n. n < 256) ns \<Longrightarrow> list_all (\<lambda>n. n < 64) (sextets ns)"
proof (induction ns rule: sextets.induct)
  case (4 a b c r)
  have "(a mod 4) * 16 + b div 16 < 64" "(b mod 16) * 4 + c div 64 < 64"
    using 4(2) by auto
  then show ?case using 4 by (simp add: less_mult_imp_div_less)
next
  case (3 a b)
  have "(a mod 4) * 16 + b div 16 < 64" "(b mod 16) * 4 < 64"
    using 3 by auto
  then show ?case using 3 by (simp add: less_mult_imp_div_less)
next
  case (2 a)
  have "(a mod 4) * 16 < 64" by presburger
  then show ?case using 2 by (simp add: less_mult_imp_div_less)
qed simp

lemma octets_sextets: "list_all (\<lambda>n. n < 256) ns \<Longrightarrow> octets (sextets ns) = ns"
proof (induction ns rule: sextets.induct)
  case (4 a b c r)
  have "((a mod 4) * 16 + b div 16) div 16 = a mod 4" "((a mod 4) * 16 + b div 16) mod 16 = b div 16"
    "((b mod 16) * 4 + c div 64) div 4 = b mod 16" "((b mod 16) * 4 + c div 64) mod 4 = c div 64"
    using 4(2) by auto
  then show ?case using 4 by simp
next
  case (3 a b)
  have "((a mod 4) * 16 + b div 16) div 16 = a mod 4" "((a mod 4) * 16 + b div 16) mod 16 = b div 16"
    using 3 by auto
  then show ?case by simp
qed auto

lemma b64_val_char: "n < 64 \<Longrightarrow> b64_val (b64_char n) = Some n"
  unfolding b64_char_def b64_val_def is_upper_def is_lower_def is_digit_def char_between_def
  by (auto simp: less_Suc_eq_le)

lemma b64_char_class: "n < 64 \<Longrightarrow> is_b64url (b64_char n)"
  unfolding b64_char_def is_b64url_def is_alnum_def is_upper_def is_lower_def is_digit_def char_between_def
  by auto

lemma bytes_bound: "list_all (\<lambda>n. n < 256) (map unat (bs :: bytes))"
  by (simp add: list_all_iff)

lemma map_filter_b64: "list_all (\<lambda>n. n < 64) ns \<Longrightarrow> List.map_filter b64_val (map b64_char ns) = ns"
  by (induction ns) (auto simp: map_filter_def b64_val_char)

lemma base64url_class: "list_all is_b64url (base64url bs)"
  using sextets_bound [OF bytes_bound, of bs]
  by (auto simp: base64url_def list_all_iff intro: b64_char_class)

lemma not_padding: "is_b64url c \<Longrightarrow> c \<noteq> CHR ''=''"
  unfolding is_b64url_def is_alnum_def is_upper_def is_lower_def is_digit_def char_between_def by auto

lemma base64url_roundtrip [simp]: "base64url_decode (base64url bs) = bs"
proof -
  have "takeWhile (\<lambda>c. c \<noteq> CHR ''='') (base64url bs) = base64url bs"
    using base64url_class [of bs] by (auto simp: list_all_iff takeWhile_eq_all_conv dest: not_padding)
  then have "base64url_decode (base64url bs) = map byte (octets (sextets (map unat bs)))"
    unfolding base64url_decode_def
    by (simp only: base64url_def map_filter_b64 [OF sextets_bound [OF bytes_bound]])
  also have "\<dots> = bs" by (simp add: octets_sextets [OF bytes_bound] map_idI)
  finally show ?thesis .
qed

lemma base64url_inject: "base64url a = base64url b \<Longrightarrow> a = b"
  by (metis base64url_roundtrip)

lemma length_sextets: "length (sextets ns) = (4 * length ns + 2) div 3"
  by (induction ns rule: sextets.induct) auto

lemma length_base64url: "length (base64url bs) = (4 * length bs + 2) div 3"
  by (simp add: base64url_def length_sextets)

section \<open>UTF-8\<close>

definition utf8_char :: "char \<Rightarrow> bytes" where
  "utf8_char c =
     (if code c < 128 then [byte (code c)]
      else [byte (192 + code c div 64), byte (128 + code c mod 64)])"

definition utf8 :: "string \<Rightarrow> bytes" where
  "utf8 s = concat (map utf8_char s)"

text \<open>Decoding the sequences of code points up to U+00FF; \<^const>\<open>None\<close> for any other sequence.\<close>

fun utf8_decode :: "bytes \<Rightarrow> string option" where
  "utf8_decode [] = Some []"
| "utf8_decode (b # bs) =
     (if unat b < 128 then map_option ((#) (char_of (unat b))) (utf8_decode bs)
      else (case bs of
          [] \<Rightarrow> None
        | c # cs \<Rightarrow>
            if (unat b = 194 \<or> unat b = 195) \<and> 128 \<le> unat c \<and> unat c < 192
            then map_option ((#) (char_of ((unat b - 192) * 64 + (unat c - 128)))) (utf8_decode cs)
            else None))"

lemma utf8_decode_char: "utf8_decode (utf8_char c @ bs) = map_option ((#) c) (utf8_decode bs)"
proof (cases "code c < 128")
  case True
  then show ?thesis by (simp add: utf8_char_def unat_byte)
next
  case False
  define n where "n = code c"
  have n: "128 \<le> n" "n < 256" "char_of n = c" using False by (simp_all add: n_def)
  have m: "n mod 64 < 64" by simp
  have d: "n div 64 = 2 \<or> n div 64 = 3" using n(1,2) by linarith
  have u: "unat (byte (192 + n div 64)) = 192 + n div 64"
    using d by (intro unat_byte) linarith
  have v: "unat (byte (128 + n mod 64)) = 128 + n mod 64"
    using m by (intro unat_byte) linarith
  have e: "utf8_char c = [byte (192 + n div 64), byte (128 + n mod 64)]"
    using False by (simp add: utf8_char_def n_def)
  have k: "(192 + n div 64 - 192) * 64 + (128 + n mod 64 - 128) = n" by simp
  have g: "\<not> 192 + n div 64 < 128" "192 + n div 64 = 194 \<or> 192 + n div 64 = 195"
    "128 \<le> 128 + n mod 64" "128 + n mod 64 < 192" using d m by linarith+
  show ?thesis
    unfolding e append_Cons append_Nil utf8_decode.simps list.case u v k n(3) using g by simp
qed

lemma utf8_Cons: "utf8 (c # s) = utf8_char c @ utf8 s"
  by (simp add: utf8_def)

lemma utf8_roundtrip [simp]: "utf8_decode (utf8 s) = Some s"
proof (induction s)
  case Nil
  show ?case by (simp add: utf8_def)
next
  case (Cons c s)
  then show ?case by (simp add: utf8_Cons utf8_decode_char)
qed

lemma utf8_inject: "utf8 s = utf8 t \<Longrightarrow> s = t"
  by (metis utf8_roundtrip option.inject)

lemma length_utf8_le: "length (utf8 s) \<le> 2 * length s"
  by (induction s) (auto simp: utf8_def utf8_char_def)

lemma utf8_nonempty: "s \<noteq> [] \<Longrightarrow> utf8 s \<noteq> []"
  by (cases s) (auto simp: utf8_def utf8_char_def)

lemma utf8_append: "utf8 (s @ t) = utf8 s @ utf8 t"
  by (simp add: utf8_def)

section \<open>JSON\<close>

text \<open>
  Flat objects: the values of an OTA manifest are strings, integers and \<open>null\<close>. \<open>JSON.stringify\<close>
  escapes the quote, the backslash and the control characters and copies every other character.
\<close>

datatype scalar = SNull | SInt int | SStr string

type_synonym json_obj = "(string \<times> scalar) list"

definition hex_digit :: "nat \<Rightarrow> char" where
  "hex_digit n = (if n < 10 then char_of (48 + n) else char_of (87 + n))"

definition hex_val :: "char \<Rightarrow> nat option" where
  "hex_val c =
     (if is_digit c then Some (code c - 48)
      else if char_between 97 102 c then Some (code c - 87)
      else if char_between 65 70 c then Some (code c - 55) else None)"

definition int_text :: "int \<Rightarrow> string" where
  "int_text n = (if n < 0 then CHR ''-'' # dec (nat (- n)) else dec (nat n))"

definition json_char :: "char \<Rightarrow> string" where
  "json_char c =
     (if c = CHR 0x22 then [CHR 0x5C, CHR 0x22]
      else if c = CHR 0x5C then [CHR 0x5C, CHR 0x5C]
      else if c = CHR 0x08 then [CHR 0x5C, CHR ''b'']
      else if c = CHR 0x09 then [CHR 0x5C, CHR ''t'']
      else if c = CHR 0x0A then [CHR 0x5C, CHR ''n'']
      else if c = CHR 0x0C then [CHR 0x5C, CHR ''f'']
      else if c = CHR 0x0D then [CHR 0x5C, CHR ''r'']
      else if code c < 32
        then [CHR 0x5C, CHR ''u'', CHR ''0'', CHR ''0'', hex_digit (code c div 16), hex_digit (code c mod 16)]
      else [c])"

definition json_string :: "string \<Rightarrow> string" where
  "json_string s = CHR 0x22 # concat (map json_char s) @ [CHR 0x22]"

fun json_scalar :: "scalar \<Rightarrow> string" where
  "json_scalar SNull = ''null''"
| "json_scalar (SInt n) = int_text n"
| "json_scalar (SStr s) = json_string s"

definition json_pair :: "string \<times> scalar \<Rightarrow> string" where
  "json_pair p = json_string (fst p) @ CHR '':'' # json_scalar (snd p)"

text \<open>\<open>JSON.stringify(o)\<close> and, for a non-empty object, \<open>JSON.stringify(o, null, 2)\<close>.\<close>

definition json_object :: "json_obj \<Rightarrow> string" where
  "json_object ps = CHR ''{'' # join_with '','' (map json_pair ps) @ ''}''"

definition json_pretty :: "json_obj \<Rightarrow> string" where
  "json_pretty ps =
     CHR ''{'' # CHR 0x0A #
     join_with [CHR '','', CHR 0x0A]
       (map (\<lambda>p. ''  '' @ json_string (fst p) @ '': '' @ json_scalar (snd p)) ps) @ [CHR 0x0A, CHR ''}'']"

subsection \<open>Parsing\<close>

definition unescape :: "char \<Rightarrow> char option" where
  "unescape c =
     (if c = CHR 0x22 \<or> c = CHR 0x5C \<or> c = CHR ''/'' then Some c
      else if c = CHR ''b'' then Some (CHR 0x08)
      else if c = CHR ''t'' then Some (CHR 0x09)
      else if c = CHR ''n'' then Some (CHR 0x0A)
      else if c = CHR ''f'' then Some (CHR 0x0C)
      else if c = CHR ''r'' then Some (CHR 0x0D) else None)"

definition hex4 :: "string \<Rightarrow> nat option" where
  "hex4 s =
     (case map hex_val s of
        [Some a, Some b, Some c, Some d] \<Rightarrow> Some (((a * 16 + b) * 16 + c) * 16 + d)
      | _ \<Rightarrow> None)"

definition cons_fst :: "char \<Rightarrow> (string \<times> string) option \<Rightarrow> (string \<times> string) option" where
  "cons_fst c r = map_option (\<lambda>(s, t). (c # s, t)) r"

text \<open>The characters of a string literal after its opening quote, and what follows its closing one.\<close>

function parse_chars :: "string \<Rightarrow> (string \<times> string) option" where
  "parse_chars s =
     (case s of
        [] \<Rightarrow> None
      | c # t \<Rightarrow>
          if c = CHR 0x22 then Some ([], t)
          else if c \<noteq> CHR 0x5C then (if code c < 32 then None else cons_fst c (parse_chars t))
          else (case t of
              [] \<Rightarrow> None
            | e # u \<Rightarrow>
                if e = CHR ''u'' then
                  (case hex4 (take 4 u) of
                     Some n \<Rightarrow> if n < 256 then cons_fst (char_of n) (parse_chars (drop 4 u)) else None
                   | None \<Rightarrow> None)
                else (case unescape e of
                   Some d \<Rightarrow> cons_fst d (parse_chars u)
                 | None \<Rightarrow> None)))"
  by pat_completeness auto
termination
  by (relation "measure length") auto

declare parse_chars.simps [simp del]

definition parse_digits :: "bool \<Rightarrow> string \<Rightarrow> (scalar \<times> string) option" where
  "parse_digits neg u =
     (let ds = takeWhile is_digit u; r = dropWhile is_digit u
      in if ds = [] \<or> (hd ds = CHR ''0'' \<and> length ds > 1) \<or> (r \<noteq> [] \<and> hd r \<in> set ''.eE'') then None
         else Some (SInt (if neg then - int (undec ds) else int (undec ds)), r))"

definition parse_scalar :: "string \<Rightarrow> (scalar \<times> string) option" where
  "parse_scalar s =
     (case s of
        [] \<Rightarrow> None
      | c # t \<Rightarrow>
          if c = CHR 0x22 then map_option (\<lambda>(x, r). (SStr x, r)) (parse_chars t)
          else if starts_with s ''null'' then Some (SNull, drop 4 s)
          else if c = CHR ''-'' then parse_digits True t else parse_digits False s)"

definition parse_pair :: "string \<Rightarrow> ((string \<times> scalar) \<times> string) option" where
  "parse_pair s =
     (if s = [] \<or> hd s \<noteq> CHR 0x22 then None
      else (case parse_chars (tl s) of
          None \<Rightarrow> None
        | Some (k, r) \<Rightarrow>
            if r = [] \<or> hd r \<noteq> CHR '':'' then None
            else map_option (\<lambda>(v, u). ((k, v), u)) (parse_scalar (tl r))))"

fun parse_members :: "nat \<Rightarrow> string \<Rightarrow> json_obj option" where
  "parse_members 0 s = None"
| "parse_members (Suc n) s =
     (case parse_pair s of
        None \<Rightarrow> None
      | Some (p, r) \<Rightarrow>
          if r = ''}'' then Some [p]
          else if r \<noteq> [] \<and> hd r = CHR '','' then map_option ((#) p) (parse_members n (tl r))
          else None)"

text \<open>
  \<open>JSON.parse\<close> of a flat object without insignificant white space; a repeated name keeps its
  first place and takes its last value, as a JavaScript object does.
\<close>

definition json_parse :: "string \<Rightarrow> json_obj option" where
  "json_parse s =
     (if s = ''{}'' then Some []
      else if s = [] \<or> hd s \<noteq> CHR ''{'' then None
      else map_option (foldl (\<lambda>obj p. AList.update (fst p) (snd p) obj) [])
             (parse_members (length s) (tl s)))"

lemma hex_val_digit: "n < 16 \<Longrightarrow> hex_val (hex_digit n) = Some n"
  by (auto simp: hex_val_def hex_digit_def is_digit_def char_between_def)

lemma hex4_escape:
  assumes "n < 32"
  shows "hex4 [CHR ''0'', CHR ''0'', hex_digit (n div 16), hex_digit (n mod 16)] = Some n"
proof -
  have "hex_val (CHR ''0'') = Some 0" by (simp add: hex_val_def is_digit_def char_between_def)
  moreover have "n div 16 < 16" "n mod 16 < 16" using assms by auto
  ultimately show ?thesis by (simp add: hex4_def hex_val_digit)
qed

lemma unescape_simps:
  "unescape (CHR 0x22) = Some (CHR 0x22)" "unescape (CHR 0x5C) = Some (CHR 0x5C)"
  "unescape (CHR ''b'') = Some (CHR 0x08)" "unescape (CHR ''t'') = Some (CHR 0x09)"
  "unescape (CHR ''n'') = Some (CHR 0x0A)" "unescape (CHR ''f'') = Some (CHR 0x0C)"
  "unescape (CHR ''r'') = Some (CHR 0x0D)"
  by (simp_all add: unescape_def)

lemma parse_chars_escape:
  "unescape e = Some d \<Longrightarrow> e \<noteq> CHR ''u'' \<Longrightarrow>
     parse_chars (CHR 0x5C # e # r) = cons_fst d (parse_chars r)"
  by (subst parse_chars.simps) simp

lemma parse_chars_json_char: "parse_chars (json_char c @ r) = cons_fst c (parse_chars r)"
proof -
  consider "c \<in> {CHR 0x22, CHR 0x5C, CHR 0x08, CHR 0x09, CHR 0x0A, CHR 0x0C, CHR 0x0D}"
    | "c \<notin> {CHR 0x22, CHR 0x5C, CHR 0x08, CHR 0x09, CHR 0x0A, CHR 0x0C, CHR 0x0D}" "code c < 32"
    | "c \<notin> {CHR 0x22, CHR 0x5C, CHR 0x08, CHR 0x09, CHR 0x0A, CHR 0x0C, CHR 0x0D}" "\<not> code c < 32"
    by blast
  then show ?thesis
  proof cases
    case 1
    then show ?thesis
      by (elim insertE emptyE) (simp_all add: json_char_def parse_chars_escape unescape_simps)
  next
    case 2
    then have j: "json_char c = CHR 0x5C # CHR ''u'' #
        [CHR ''0'', CHR ''0'', hex_digit (code c div 16), hex_digit (code c mod 16)]"
      by (simp add: json_char_def)
    show ?thesis
      using 2 unfolding j by (subst parse_chars.simps) (simp add: hex4_escape)
  next
    case 3
    then have j: "json_char c = [c]" by (simp add: json_char_def)
    show ?thesis using 3 unfolding j by (subst parse_chars.simps) simp
  qed
qed

lemma parse_chars_json:
  "parse_chars (concat (map json_char s) @ CHR 0x22 # r) = Some (s, r)"
proof (induction s)
  case Nil
  show ?case by (subst parse_chars.simps) simp
next
  case (Cons c s)
  then show ?case by (simp add: parse_chars_json_char cons_fst_def)
qed

lemma dec_no_lead: "hd (dec n) = CHR ''0'' \<Longrightarrow> length (dec n) \<le> 1"
proof (induction n rule: dec.induct)
  case (1 n)
  show ?case
  proof (cases "n < 10")
    case True
    then show ?thesis by (subst dec.simps) simp
  next
    case False
    then have d: "dec n = dec (n div 10) @ [char_of (48 + n mod 10)]" by (subst dec.simps) simp
    then have "hd (dec (n div 10)) = CHR ''0''" using 1(2) by simp
    then have "length (dec (n div 10)) \<le> 1" using 1(1) False by blast
    then have l: "length (dec (n div 10)) = 1" using dec_nonempty [of "n div 10"] by (cases "dec (n div 10)") auto
    then have "dec (n div 10) = [CHR ''0'']" using \<open>hd (dec (n div 10)) = CHR ''0''\<close>
      by (cases "dec (n div 10)") auto
    then have "undec (dec (n div 10)) = 0" by (simp add: undec_def digit_val_def)
    then have "n div 10 = 0" by simp
    then show ?thesis using False by simp
  qed
qed

lemma parse_digits_dec:
  assumes "r = [] \<or> (\<not> is_digit (hd r) \<and> hd r \<notin> set ''.eE'')"
  shows "parse_digits neg (dec m @ r) = Some (SInt (if neg then - int m else int m), r)"
proof -
  have span: "takeWhile is_digit (dec m @ r) = dec m" "dropWhile is_digit (dec m @ r) = r"
    using dec_digits [of m] assms by (cases r; auto simp: list_all_iff takeWhile_append dropWhile_append)+
  moreover have "\<not> (hd (dec m) = CHR ''0'' \<and> length (dec m) > 1)"
    using dec_no_lead [of m] by auto
  moreover have "\<not> (r \<noteq> [] \<and> hd r \<in> set ''.eE'')" using assms by blast
  ultimately show ?thesis
    unfolding parse_digits_def Let_def span by (simp only: dec_nonempty undec_dec) simp
qed

lemma parse_scalar_int:
  assumes "r = [] \<or> (\<not> is_digit (hd r) \<and> hd r \<notin> set ''.eE'')"
  shows "parse_scalar (int_text n @ r) = Some (SInt n, r)"
proof (cases "n < 0")
  case True
  then have "parse_scalar (int_text n @ r) = parse_digits True (dec (nat (- n)) @ r)"
    by (simp add: parse_scalar_def starts_with_def int_text_def)
  with True show ?thesis by (simp add: parse_digits_dec [OF assms])
next
  case False
  obtain c t where ct: "dec (nat n) = c # t" "is_digit c"
    using dec_digits [of "nat n"] dec_nonempty [of "nat n"] by (cases "dec (nat n)") auto
  then have "c \<noteq> CHR 0x22" "c \<noteq> CHR ''n''" "c \<noteq> CHR ''-''"
    by (auto simp: is_digit_def char_between_def)
  then have "parse_scalar (int_text n @ r) = parse_digits False (dec (nat n) @ r)"
    using False ct by (simp add: parse_scalar_def starts_with_def int_text_def)
  with False show ?thesis by (simp add: parse_digits_dec [OF assms])
qed

lemma parse_scalar_json:
  assumes "r = [] \<or> hd r \<in> set '',}''"
  shows "parse_scalar (json_scalar v @ r) = Some (v, r)"
proof (cases v)
  case SNull
  then show ?thesis by (simp add: parse_scalar_def starts_with_def)
next
  case (SInt n)
  have "r = [] \<or> (\<not> is_digit (hd r) \<and> hd r \<notin> set ''.eE'')"
    using assms by (auto simp: is_digit_def char_between_def)
  then show ?thesis using SInt by (simp add: parse_scalar_int)
next
  case (SStr s)
  then show ?thesis by (simp add: parse_scalar_def json_string_def parse_chars_json)
qed

lemma parse_pair_json:
  "r = [] \<or> hd r \<in> set '',}'' \<Longrightarrow> parse_pair (json_pair p @ r) = Some (p, r)"
  by (simp add: parse_pair_def json_pair_def json_string_def parse_chars_json parse_scalar_json)

lemma parse_members_json:
  "ps \<noteq> [] \<Longrightarrow> length ps \<le> n \<Longrightarrow>
     parse_members n (join_with '','' (map json_pair ps) @ ''}'') = Some ps"
proof (induction ps arbitrary: n)
  case (Cons p ps)
  then obtain m where n: "n = Suc m" by (cases n) auto
  show ?case
  proof (cases ps)
    case Nil
    then show ?thesis by (simp add: n parse_pair_json)
  next
    case (Cons q qs)
    then show ?thesis using Cons.IH [of m] Cons.prems by (simp add: n parse_pair_json)
  qed
qed simp

lemma update_fresh:
  "distinct (map fst (obj @ ps)) \<Longrightarrow>
     foldl (\<lambda>obj p. AList.update (fst p) (snd p) obj) obj ps = obj @ ps"
proof (induction ps arbitrary: obj)
  case (Cons p ps)
  have "AList.update k v obj = obj @ [(k, v)]" if "k \<notin> fst ` set obj" for k and v :: 'b and obj :: "('a \<times> 'b) list"
    using that by (induction obj) auto
  then have "AList.update (fst p) (snd p) obj = obj @ [p]" using Cons.prems by auto
  then show ?case using Cons.IH [of "obj @ [p]"] Cons.prems by simp
qed simp

lemma length_join_ge: "length ps \<le> length (join_with '','' (map json_pair ps))"
  by (induction ps rule: induct_list012) (auto simp: json_pair_def json_string_def)

theorem json_roundtrip:
  assumes "distinct (map fst ps)"
  shows "json_parse (json_object ps) = Some ps"
proof (cases ps)
  case Nil
  then show ?thesis by (simp add: json_parse_def json_object_def)
next
  case (Cons p qs)
  let ?s = "join_with '','' (map json_pair ps) @ ''}''"
  have ne: "json_object ps \<noteq> ''{}''"
  proof -
    have "join_with '','' (map json_pair ps) \<noteq> []"
      using length_join_ge [of ps] Cons by auto
    then show ?thesis by (simp add: json_object_def)
  qed
  have "parse_members (length (json_object ps)) ?s = Some ps"
    using length_join_ge [of ps] Cons by (intro parse_members_json) (auto simp: json_object_def)
  then show ?thesis
    using ne update_fresh [of "[]" ps] assms by (simp add: json_parse_def json_object_def)
qed

end
