(* ===== verification/Schema.thy ===== *)
theory Schema
  imports Prelude JS_Values Encoding
begin

text \<open>
  The relational state: one record per table with the columns of \<open>database/schema.ts\<close>, the
  database as the record of its tables, the row operations of Lucid the services use (find by a
  column, update, insert, soft delete), and the constraints of the migrations that PostgreSQL
  enforces on every write. A timestamp is an \<^typ>\<open>int\<close> (milliseconds); identifiers are strings.
  The column \<open>signature_manifest\<close> holds a flat JSON object.
\<close>

section \<open>Rows\<close>

record software_row =
  sw_id :: string
  sw_name :: string
  sw_slug :: string
  sw_is_active :: bool
  sw_is_default :: bool
  sw_require_signed :: bool
  sw_created_at :: int

record signing_key_row =
  sk_id :: string
  sk_software_id :: string
  sk_key_id :: string
  sk_public_key :: string
  sk_is_active :: bool
  sk_created_at :: int

record version_row =
  ver_id :: string
  ver_software_id :: string
  ver_major :: int
  ver_minor :: int
  ver_patch :: int
  ver_codename :: "string option"
  ver_changelog :: "string option"
  ver_release_date :: "string option"
  ver_is_active :: bool
  ver_created_at :: int
  ver_deleted_at :: "int option"

record platform_row =
  plat_id :: string
  plat_name :: string
  plat_display_name :: string
  plat_deleted_at :: "int option"

record architecture_row =
  arch_id :: string
  arch_name :: string
  arch_display_name :: string
  arch_deleted_at :: "int option"

record provider_row =
  sp_id :: string
  sp_name :: string
  sp_type :: string
  sp_config :: jsval
  sp_is_default :: bool
  sp_is_active :: bool
  sp_quota_bytes :: "int option"
  sp_created_at :: int
  sp_deleted_at :: "int option"

record artifact_row =
  art_id :: string
  art_version_id :: string
  art_platform_id :: string
  art_architecture_id :: string
  art_provider_id :: string
  art_file_name :: string
  art_mime_type :: "string option"
  art_size_bytes :: "int option"
  art_storage_key :: string
  art_channel :: string
  art_download_count :: nat
  art_is_archived :: bool
  art_is_published :: bool
  art_published_at :: "int option"
  art_checksum :: "string option"
  art_md5 :: "string option"
  art_sha1 :: "string option"
  art_sha256 :: "string option"
  art_sha512 :: "string option"
  art_signature :: "string option"
  art_signature_key_id :: "string option"
  art_signature_manifest :: "json_obj option"
  art_created_at :: int
  art_deleted_at :: "int option"

record history_row =
  dh_id :: string
  dh_artifact_id :: string
  dh_ip_address :: "string option"
  dh_user_agent :: "string option"
  dh_created_at :: int
  dh_deleted_at :: "int option"

record reservation_row =
  rv_id :: string
  rv_provider_id :: string
  rv_size_bytes :: int
  rv_expires_at :: int
  rv_created_at :: int

record setting_row =
  st_id :: string
  st_key :: string
  st_value :: "string option"
  st_deleted_at :: "int option"

record license_row =
  lic_id :: string
  lic_license_key :: string
  lic_product_name :: string
  lic_customer_name :: "string option"
  lic_customer_email :: "string option"
  lic_status :: string
  lic_max_activations :: int
  lic_activation_count :: int
  lic_expires_at :: "int option"
  lic_revoked_at :: "int option"
  lic_created_at :: int
  lic_deleted_at :: "int option"

record activation_row =
  la_id :: string
  la_license_id :: string
  la_machine_id :: string
  la_created_at :: int

record user_row =
  us_id :: string
  us_email :: string
  us_full_name :: "string option"
  us_password_hash :: string
  us_is_active :: bool
  us_is_root :: bool
  us_auth_version :: int
  us_theme :: string
  us_accent_color :: int
  us_created_at :: int
  us_deleted_at :: "int option"

record reset_token_row =
  rt_id :: nat
  rt_email :: string
  rt_token :: string
  rt_expires_at :: int

record remember_token_row =
  rm_id :: nat
  rm_tokenable_id :: string
  rm_hash :: string
  rm_expires_at :: int

record rate_limit_row =
  rl_key :: string
  rl_attempts :: nat
  rl_window_ends_at :: int

record db =
  software :: "software_row list"
  signing_keys :: "signing_key_row list"
  versions :: "version_row list"
  platforms :: "platform_row list"
  architectures :: "architecture_row list"
  providers :: "provider_row list"
  artifacts :: "artifact_row list"
  histories :: "history_row list"
  reservations :: "reservation_row list"
  settings :: "setting_row list"
  licenses :: "license_row list"
  activations :: "activation_row list"
  users :: "user_row list"
  reset_tokens :: "reset_token_row list"
  remember_tokens :: "remember_token_row list"
  rate_limits :: "rate_limit_row list"

definition empty_db :: db where
  "empty_db = \<lparr> software = [], signing_keys = [], versions = [], platforms = [], architectures = [],
     providers = [], artifacts = [], histories = [], reservations = [], settings = [],
     licenses = [], activations = [], users = [], reset_tokens = [], remember_tokens = [],
     rate_limits = [] \<rparr>"

section \<open>Row operations\<close>

text \<open>
  \<open>query().where(column, value).first()\<close>; \<open>update\<close> of the rows of a key; \<open>delete\<close> of the rows of
  a predicate; and the rows a model of the mixin \<open>SoftDeletes\<close> sees.
\<close>

definition find_by :: "('r \<Rightarrow> 'k) \<Rightarrow> 'k \<Rightarrow> 'r list \<Rightarrow> 'r option" where
  "find_by key k tbl = List.find (\<lambda>r. key r = k) tbl"

definition modify_by :: "('r \<Rightarrow> 'k) \<Rightarrow> 'k \<Rightarrow> ('r \<Rightarrow> 'r) \<Rightarrow> 'r list \<Rightarrow> 'r list" where
  "modify_by key k f tbl = map (\<lambda>r. if key r = k then f r else r) tbl"

definition update_where :: "('r \<Rightarrow> bool) \<Rightarrow> ('r \<Rightarrow> 'r) \<Rightarrow> 'r list \<Rightarrow> 'r list" where
  "update_where P f tbl = map (\<lambda>r. if P r then f r else r) tbl"

definition delete_where :: "('r \<Rightarrow> bool) \<Rightarrow> 'r list \<Rightarrow> 'r list" where
  "delete_where P tbl = filter (\<lambda>r. \<not> P r) tbl"

text \<open>The mixin \<open>SoftDeletes\<close>: \<open>ignoreDeleted\<close>, \<open>delete\<close>, \<open>restore\<close>, \<open>forceDelete\<close>, \<open>trashed\<close>.\<close>

definition ignore_deleted :: "('r \<Rightarrow> int option) \<Rightarrow> 'r list \<Rightarrow> 'r list" where
  "ignore_deleted deleted_at tbl = filter (\<lambda>r. deleted_at r = None) tbl"

definition soft_delete :: "('r \<Rightarrow> string) \<Rightarrow> (int option \<Rightarrow> 'r \<Rightarrow> 'r) \<Rightarrow> int \<Rightarrow> string \<Rightarrow> 'r list \<Rightarrow> 'r list" where
  "soft_delete key set_deleted now i tbl = modify_by key i (set_deleted (Some now)) tbl"

definition restore_row :: "('r \<Rightarrow> string) \<Rightarrow> (int option \<Rightarrow> 'r \<Rightarrow> 'r) \<Rightarrow> string \<Rightarrow> 'r list \<Rightarrow> 'r list" where
  "restore_row key set_deleted i tbl = modify_by key i (set_deleted None) tbl"

definition force_delete :: "('r \<Rightarrow> string) \<Rightarrow> string \<Rightarrow> 'r list \<Rightarrow> 'r list" where
  "force_delete key i tbl = delete_where (\<lambda>r. key r = i) tbl"

definition trashed :: "('r \<Rightarrow> int option) \<Rightarrow> 'r \<Rightarrow> bool" where
  "trashed deleted_at r \<longleftrightarrow> deleted_at r \<noteq> None"

named_theorems row_simps "what the row operations return"

lemma find_by_Some: "find_by key k tbl = Some r \<Longrightarrow> r \<in> set tbl \<and> key r = k"
  unfolding find_by_def by (rule find_Some_mem)

lemma find_by_None [row_simps]: "find_by key k tbl = None \<longleftrightarrow> k \<notin> key ` set tbl"
  by (auto simp: find_by_def find_None_iff')

lemma find_by_distinct:
  "distinct (map key tbl) \<Longrightarrow> r \<in> set tbl \<Longrightarrow> find_by key (key r) tbl = Some r"
  unfolding find_by_def by (rule find_unique) (auto dest: distinct_map_inj)

lemma modify_by_keys [row_simps]:
  "(\<And>r. key r = k \<Longrightarrow> g (f r) = g r) \<Longrightarrow> map g (modify_by key k f tbl) = map g tbl"
  by (auto simp: modify_by_def)

lemma mem_modify_by:
  "r \<in> set (modify_by key k f tbl) \<longleftrightarrow>
     (\<exists>s\<in>set tbl. r = (if key s = k then f s else s))"
  unfolding modify_by_def set_map by blast

lemma mem_update_where:
  "r \<in> set (update_where P f tbl) \<longleftrightarrow> (\<exists>s\<in>set tbl. r = (if P s then f s else s))"
  unfolding update_where_def set_map by blast

lemma mem_delete_where [row_simps]: "r \<in> set (delete_where P tbl) \<longleftrightarrow> r \<in> set tbl \<and> \<not> P r"
  by (auto simp: delete_where_def)

lemma mem_ignore_deleted [row_simps]:
  "r \<in> set (ignore_deleted d tbl) \<longleftrightarrow> r \<in> set tbl \<and> d r = None"
  by (auto simp: ignore_deleted_def)

lemma find_by_modify_by_same:
  assumes "\<And>r. key r = k \<Longrightarrow> key (f r) = k"
  shows "find_by key k (modify_by key k f tbl) = map_option f (find_by key k tbl)"
proof (induction tbl)
  case (Cons r tbl)
  then show ?case using assms [of r] by (simp add: find_by_def modify_by_def)
qed (simp add: find_by_def modify_by_def)

lemma find_by_modify_by_other:
  assumes "\<And>r. key r = k \<Longrightarrow> key (f r) = k" "k' \<noteq> k"
  shows "find_by key k' (modify_by key k f tbl) = find_by key k' tbl"
proof (induction tbl)
  case (Cons r tbl)
  then show ?case using assms(1) [of r] assms(2) by (simp add: find_by_def modify_by_def)
qed (simp add: find_by_def modify_by_def)

lemma map_update_where:
  "(\<And>r. P r \<Longrightarrow> g (f r) = g r) \<Longrightarrow> map g (update_where P f tbl) = map g tbl"
  by (auto simp: update_where_def)

section \<open>Soft deletes\<close>

text \<open>The contract of a model composed with \<open>SoftDeletes\<close>: its key and its column \<open>deleted_at\<close>.\<close>

locale soft_deletes =
  fixes key :: "'r \<Rightarrow> string"
    and deleted_at :: "'r \<Rightarrow> int option"
    and set_deleted :: "int option \<Rightarrow> 'r \<Rightarrow> 'r"
  assumes deleted_set: "deleted_at (set_deleted t r) = t"
    and key_set: "key (set_deleted t r) = key r"
    and set_set: "set_deleted t (set_deleted u r) = set_deleted t r"
    and set_same: "set_deleted (deleted_at r) r = r"
begin

lemma deleted_not_found:
  "find_by key i (ignore_deleted deleted_at (soft_delete key set_deleted now i tbl)) = None"
proof -
  have "deleted_at r \<noteq> None" if "r \<in> set (modify_by key i (set_deleted (Some now)) tbl)" "key r = i" for r
    using that unfolding mem_modify_by by (metis deleted_set key_set option.distinct(1))
  then show ?thesis unfolding find_by_None soft_delete_def image_iff by (metis mem_ignore_deleted)
qed

lemma others_found:
  assumes "j \<noteq> i"
  shows "find_by key j (ignore_deleted deleted_at (soft_delete key set_deleted now i tbl)) =
    find_by key j (ignore_deleted deleted_at tbl)"
  using assms
  by (induction tbl) (auto simp: find_by_def ignore_deleted_def soft_delete_def modify_by_def key_set deleted_set)

lemma keys_kept: "map key (soft_delete key set_deleted now i tbl) = map key tbl"
  by (simp add: soft_delete_def row_simps key_set)

lemma deleted_trashed:
  "r \<in> set (soft_delete key set_deleted now i tbl) \<Longrightarrow> key r = i \<Longrightarrow> trashed deleted_at r"
  unfolding soft_delete_def mem_modify_by trashed_def
  by (elim bexE, cases "key r = i") (metis deleted_set key_set option.distinct(1))+

lemma restore_delete:
  assumes "\<And>r. r \<in> set tbl \<Longrightarrow> key r = i \<Longrightarrow> deleted_at r = None"
  shows "restore_row key set_deleted i (soft_delete key set_deleted now i tbl) = tbl"
proof -
  have "(if key r' = i then set_deleted None r' else r') = r"
    if "r \<in> set tbl" "r' = (if key r = i then set_deleted (Some now) r else r)" for r r'
  proof (cases "key r = i")
    case True
    then have "deleted_at r = None" using assms that(1) by blast
    then show ?thesis using True that(2) set_same [of r] by (simp add: key_set set_set)
  qed (simp add: that(2))
  then show ?thesis
    by (simp add: restore_row_def soft_delete_def modify_by_def map_idI)
qed

lemma force_deleted_gone: "find_by key i (force_delete key i tbl) = None"
  by (auto simp: row_simps force_delete_def)

end

definition set_ver_deleted :: "int option \<Rightarrow> version_row \<Rightarrow> version_row" where
  "set_ver_deleted t r = r\<lparr>ver_deleted_at := t\<rparr>"

definition set_art_deleted :: "int option \<Rightarrow> artifact_row \<Rightarrow> artifact_row" where
  "set_art_deleted t r = r\<lparr>art_deleted_at := t\<rparr>"

definition set_sp_deleted :: "int option \<Rightarrow> provider_row \<Rightarrow> provider_row" where
  "set_sp_deleted t r = r\<lparr>sp_deleted_at := t\<rparr>"

definition set_st_deleted :: "int option \<Rightarrow> setting_row \<Rightarrow> setting_row" where
  "set_st_deleted t r = r\<lparr>st_deleted_at := t\<rparr>"

definition set_lic_deleted :: "int option \<Rightarrow> license_row \<Rightarrow> license_row" where
  "set_lic_deleted t r = r\<lparr>lic_deleted_at := t\<rparr>"

interpretation ver_sd: soft_deletes ver_id ver_deleted_at set_ver_deleted
  by unfold_locales (simp_all add: set_ver_deleted_def)

interpretation art_sd: soft_deletes art_id art_deleted_at set_art_deleted
  by unfold_locales (simp_all add: set_art_deleted_def)

interpretation sp_sd: soft_deletes sp_id sp_deleted_at set_sp_deleted
  by unfold_locales (simp_all add: set_sp_deleted_def)

interpretation st_sd: soft_deletes st_id st_deleted_at set_st_deleted
  by unfold_locales (simp_all add: set_st_deleted_def)

interpretation lic_sd: soft_deletes lic_id lic_deleted_at set_lic_deleted
  by unfold_locales (simp_all add: set_lic_deleted_def)

section \<open>Constraints\<close>

text \<open>
  A unique index over the rows for which \<open>key\<close> is not \<^const>\<open>None\<close> (a partial index leaves rows
  out). PostgreSQL checks the constraints of a table when a statement has written it; a violated
  one raises an exception that names it and the write is undone.
\<close>

definition unique_on :: "('r \<Rightarrow> 'k option) \<Rightarrow> 'r list \<Rightarrow> bool" where
  "unique_on key tbl \<longleftrightarrow> distinct (List.map_filter key tbl)"

fun checked :: "(string \<times> ('r list \<Rightarrow> bool)) list \<Rightarrow> 'r list \<Rightarrow> 'r list res" where
  "checked [] tbl = Inr tbl"
| "checked ((name, ok) # cs) tbl =
     (if ok tbl then checked cs tbl else Inl (ConstraintViolation name))"

definition software_constraints :: "(string \<times> (software_row list \<Rightarrow> bool)) list" where
  "software_constraints =
    [(''software_pkey'', unique_on (\<lambda>r. Some (sw_id r))),
     (''uq_software_slug'', unique_on (\<lambda>r. Some (sw_slug r))),
     (''uq_software_default'', unique_on (\<lambda>r. if sw_is_default r then Some () else None)),
     (''chk_software_default_active'', list_all (\<lambda>r. \<not> sw_is_default r \<or> sw_is_active r))]"

definition signing_key_constraints :: "(string \<times> (signing_key_row list \<Rightarrow> bool)) list" where
  "signing_key_constraints =
    [(''software_signing_keys_pkey'', unique_on (\<lambda>r. Some (sk_id r))),
     (''uq_software_signing_keys_key_id'', unique_on (\<lambda>r. Some (sk_key_id r)))]"

definition version_constraints :: "(string \<times> (version_row list \<Rightarrow> bool)) list" where
  "version_constraints =
    [(''versions_pkey'', unique_on (\<lambda>r. Some (ver_id r))),
     (''uq_versions_software_semver'',
      unique_on (\<lambda>r. Some (ver_software_id r, ver_major r, ver_minor r, ver_patch r)))]"

definition artifact_constraints :: "(string \<times> (artifact_row list \<Rightarrow> bool)) list" where
  "artifact_constraints =
    [(''artifacts_pkey'', unique_on (\<lambda>r. Some (art_id r))),
     (''uq_artifacts_system_channel'',
      unique_on (\<lambda>r. Some (art_version_id r, art_platform_id r, art_architecture_id r, art_channel r)))]"

definition provider_constraints :: "(string \<times> (provider_row list \<Rightarrow> bool)) list" where
  "provider_constraints =
    [(''storage_providers_pkey'', unique_on (\<lambda>r. Some (sp_id r))),
     (''uq_storage_default'',
      unique_on (\<lambda>r. if sp_is_default r \<and> sp_deleted_at r = None then Some () else None))]"

definition platform_constraints :: "(string \<times> (platform_row list \<Rightarrow> bool)) list" where
  "platform_constraints =
    [(''platforms_pkey'', unique_on (\<lambda>r. Some (plat_id r))),
     (''platforms_name_unique'', unique_on (\<lambda>r. Some (plat_name r)))]"

definition architecture_constraints :: "(string \<times> (architecture_row list \<Rightarrow> bool)) list" where
  "architecture_constraints =
    [(''architectures_pkey'', unique_on (\<lambda>r. Some (arch_id r))),
     (''architectures_name_unique'', unique_on (\<lambda>r. Some (arch_name r)))]"

definition setting_constraints :: "(string \<times> (setting_row list \<Rightarrow> bool)) list" where
  "setting_constraints =
    [(''settings_pkey'', unique_on (\<lambda>r. Some (st_id r))),
     (''settings_key_unique'', unique_on (\<lambda>r. Some (st_key r)))]"

definition license_constraints :: "(string \<times> (license_row list \<Rightarrow> bool)) list" where
  "license_constraints =
    [(''licenses_pkey'', unique_on (\<lambda>r. Some (lic_id r))),
     (''licenses_license_key_unique'', unique_on (\<lambda>r. Some (lic_license_key r)))]"

definition user_constraints :: "(string \<times> (user_row list \<Rightarrow> bool)) list" where
  "user_constraints =
    [(''users_pkey'', unique_on (\<lambda>r. Some (us_id r))),
     (''users_email_unique'', unique_on (\<lambda>r. Some (us_email r)))]"

definition reset_token_constraints :: "(string \<times> (reset_token_row list \<Rightarrow> bool)) list" where
  "reset_token_constraints =
    [(''password_reset_tokens_pkey'', unique_on (\<lambda>r. Some (rt_id r))),
     (''password_reset_tokens_token_unique'', unique_on (\<lambda>r. Some (rt_token r)))]"

definition rate_limit_constraints :: "(string \<times> (rate_limit_row list \<Rightarrow> bool)) list" where
  "rate_limit_constraints = [(''auth_rate_limits_pkey'', unique_on (\<lambda>r. Some (rl_key r)))]"

definition satisfies :: "(string \<times> ('r list \<Rightarrow> bool)) list \<Rightarrow> 'r list \<Rightarrow> bool" where
  "satisfies cs tbl \<longleftrightarrow> list_all (\<lambda>c. snd c tbl) cs"

lemma checked_Inr [res_simps]: "checked cs tbl = Inr tbl' \<longleftrightarrow> tbl' = tbl \<and> satisfies cs tbl"
  by (induction cs) (auto simp: satisfies_def split: if_splits)

lemma checked_satisfies: "satisfies cs tbl \<Longrightarrow> checked cs tbl = Inr tbl"
  by (simp add: res_simps)

lemma checked_Inl: "checked cs tbl = Inl e \<Longrightarrow> \<not> satisfies cs tbl \<and> (\<exists>name. e = ConstraintViolation name)"
  by (induction cs) (auto simp: satisfies_def split: if_splits)

lemma unique_on_total: "unique_on (\<lambda>r. Some (key r)) tbl \<longleftrightarrow> distinct (map key tbl)"
  by (simp add: unique_on_def map_filter_def comp_def)

lemma unique_on_partial:
  "unique_on (\<lambda>r. if P r then Some () else None) tbl \<longleftrightarrow>
     (\<forall>i j. i < length tbl \<longrightarrow> j < length tbl \<longrightarrow> P (tbl ! i) \<longrightarrow> P (tbl ! j) \<longrightarrow> i = j)"
proof -
  have *: "unique_on (\<lambda>r. if P r then Some () else None) tbl \<longleftrightarrow> length (filter P tbl) \<le> 1"
  proof -
    have "List.map_filter (\<lambda>r. if P r then Some () else None) tbl = replicate (length (filter P tbl)) ()"
      by (induction tbl) (auto simp: map_filter_def)
    moreover have "distinct (replicate n ()) \<longleftrightarrow> n \<le> 1" for n
      by (cases n) (auto simp: less_Suc_eq_0_disj)
    ultimately show ?thesis by (simp add: unique_on_def)
  qed
  have card: "length (filter P tbl) = card {i. i < length tbl \<and> P (tbl ! i)}"
    by (rule length_filter_conv_card)
  have fin: "finite {i. i < length tbl \<and> P (tbl ! i)}" by simp
  show ?thesis
    unfolding * card One_nat_def card_le_Suc0_iff_eq [OF fin] by auto
qed

text \<open>The contract of a checked table: what is written satisfies the constraints.\<close>

locale checked_table =
  fixes commit :: "'r list \<Rightarrow> 'r list res"
    and valid :: "'r list \<Rightarrow> bool"
  assumes write_ok: "valid tbl \<Longrightarrow> commit tbl = Inr tbl"
    and write_Inr: "commit tbl = Inr tbl' \<Longrightarrow> valid tbl \<and> tbl' = tbl"
begin

lemma written_valid: "commit tbl = Inr tbl' \<Longrightarrow> valid tbl'"
  using write_Inr by blast

lemma write_same: "commit tbl = Inr tbl' \<Longrightarrow> commit tbl' = Inr tbl'"
  using write_Inr write_ok by blast

lemma write_fails_iff: "(\<exists>e. commit tbl = Inl e) \<longleftrightarrow> \<not> valid tbl"
  by (cases "commit tbl") (auto dest: write_ok write_Inr)

end

interpretation software_tbl: checked_table "checked software_constraints" "satisfies software_constraints"
  by unfold_locales (auto simp: res_simps)

interpretation signing_key_tbl: checked_table "checked signing_key_constraints" "satisfies signing_key_constraints"
  by unfold_locales (auto simp: res_simps)

interpretation version_tbl: checked_table "checked version_constraints" "satisfies version_constraints"
  by unfold_locales (auto simp: res_simps)

interpretation artifact_tbl: checked_table "checked artifact_constraints" "satisfies artifact_constraints"
  by unfold_locales (auto simp: res_simps)

interpretation provider_tbl: checked_table "checked provider_constraints" "satisfies provider_constraints"
  by unfold_locales (auto simp: res_simps)

definition db_ok :: "db \<Rightarrow> bool" where
  "db_ok d \<longleftrightarrow>
     satisfies software_constraints (software d) \<and>
     satisfies signing_key_constraints (signing_keys d) \<and>
     satisfies version_constraints (versions d) \<and>
     satisfies artifact_constraints (artifacts d) \<and>
     satisfies provider_constraints (providers d) \<and>
     satisfies platform_constraints (platforms d) \<and>
     satisfies architecture_constraints (architectures d) \<and>
     satisfies setting_constraints (settings d) \<and>
     satisfies license_constraints (licenses d) \<and>
     satisfies user_constraints (users d) \<and>
     satisfies reset_token_constraints (reset_tokens d) \<and>
     satisfies rate_limit_constraints (rate_limits d)"

lemma satisfies_Cons [simp]: "satisfies ((name, ok) # cs) tbl \<longleftrightarrow> ok tbl \<and> satisfies cs tbl"
  by (simp add: satisfies_def)

lemma satisfies_Nil [simp]: "satisfies [] tbl"
  by (simp add: satisfies_def)

lemmas constraint_defs = software_constraints_def signing_key_constraints_def
  version_constraints_def artifact_constraints_def provider_constraints_def
  platform_constraints_def architecture_constraints_def setting_constraints_def
  license_constraints_def user_constraints_def reset_token_constraints_def rate_limit_constraints_def

end
