(* ===== verification/Signatures.thy ===== *)
theory Signatures
  imports Schema
begin

text \<open>
  \<open>app/services/ota_release_signature_service.ts\<close>: the manifest of a release, its payload, the
  verification of an Ed25519 signature over the payload bytes, and the envelope the API serves.
  The primitives of \<open>node:crypto\<close> are the fields of a record \<open>crypto\<close> that every definition takes;
  \<open>crypto_ok\<close> states the documented behaviour the theorems rely on.
\<close>

section \<open>Cryptographic primitives\<close>

text \<open>
  \<open>cr_key_type pem\<close> is \<open>createPublicKey(pem).asymmetricKeyType\<close>, \<^const>\<open>None\<close> when the call throws;
  \<open>cr_spki_pem\<close> and \<open>cr_spki_der\<close> are the exports of that key; \<open>cr_verify pem data sig\<close> is
  \<open>verify(null, data, key, sig)\<close>, false when it throws; the digests are in hexadecimal.
\<close>

record crypto =
  cr_key_type :: "string \<Rightarrow> string option"
  cr_spki_pem :: "string \<Rightarrow> string"
  cr_spki_der :: "string \<Rightarrow> bytes"
  cr_verify :: "string \<Rightarrow> bytes \<Rightarrow> bytes \<Rightarrow> bool"
  cr_md5 :: "bytes \<Rightarrow> string"
  cr_sha1 :: "bytes \<Rightarrow> string"
  cr_sha256 :: "bytes \<Rightarrow> string"
  cr_sha512 :: "bytes \<Rightarrow> string"

text \<open>
  Exporting a key as SPKI PEM and reading it again gives the same key, and a SHA-256 digest in
  hexadecimal is 64 lower-case hexadecimal digits.
\<close>

definition crypto_ok :: "crypto \<Rightarrow> bool" where
  "crypto_ok cr \<longleftrightarrow>
     (\<forall>pem. cr_key_type cr pem \<noteq> None \<longrightarrow>
        cr_key_type cr (cr_spki_pem cr pem) = cr_key_type cr pem \<and>
        cr_spki_der cr (cr_spki_pem cr pem) = cr_spki_der cr pem \<and>
        cr_verify cr (cr_spki_pem cr pem) = cr_verify cr pem) \<and>
     (\<forall>b. is_hex64 (cr_sha256 cr b))"

definition get_public_key :: "crypto \<Rightarrow> string \<Rightarrow> string res" where
  "get_public_key cr pem =
     (case cr_key_type cr pem of
        None \<Rightarrow> Inl (Fault ''ERR_OSSL_UNSUPPORTED'')
      | Some t \<Rightarrow>
          if t \<noteq> ''ed25519'' then Inl (Error ''OTA release keys must use Ed25519.'') else Inr pem)"

definition get_ota_signing_key_id :: "crypto \<Rightarrow> string \<Rightarrow> string res" where
  "get_ota_signing_key_id cr pem =
     bind_res (get_public_key cr pem) (\<lambda>k. Inr (cr_sha256 cr (cr_spki_der cr k)))"

record ota_public_key =
  pk_public_key :: string
  pk_key_id :: string

definition validate_ota_public_key :: "crypto \<Rightarrow> jsval \<Rightarrow> ota_public_key res" where
  "validate_ota_public_key cr v =
     (case v of
        JStr s \<Rightarrow>
          if length s > 4096 then Inl (Error ''Provide an Ed25519 public key in PEM format.'')
          else
            (let trimmed = trim s in
             throw_if (\<not> starts_with trimmed ''-----BEGIN PUBLIC KEY-----'')
               (Error ''Provide an Ed25519 public key in SPKI PEM format.'')
               (bind_res (get_public_key cr trimmed) (\<lambda>k.
                bind_res (get_ota_signing_key_id cr trimmed) (\<lambda>i.
                Inr \<lparr> pk_public_key = cr_spki_pem cr k, pk_key_id = i \<rparr>))))
      | _ \<Rightarrow> Inl (Error ''Provide an Ed25519 public key in PEM format.''))"

section \<open>The manifest of a release\<close>

record ota_manifest =
  mf_software :: string
  mf_version :: string
  mf_codename :: "string option"
  mf_changelog :: "string option"
  mf_channel :: string
  mf_platform :: string
  mf_architecture :: string
  mf_file_name :: string
  mf_size_bytes :: int
  mf_sha256 :: string

text \<open>The properties of the manifest object in the order the code writes them.\<close>

definition opt_text :: "string option \<Rightarrow> scalar" where
  "opt_text x = (case x of None \<Rightarrow> SNull | Some s \<Rightarrow> SStr s)"

definition manifest_obj :: "ota_manifest \<Rightarrow> json_obj" where
  "manifest_obj m =
     [(''schemaVersion'', SInt 1),
      (''software'', SStr (mf_software m)),
      (''version'', SStr (mf_version m)),
      (''codename'', opt_text (mf_codename m)),
      (''changelog'', opt_text (mf_changelog m)),
      (''channel'', SStr (mf_channel m)),
      (''platform'', SStr (mf_platform m)),
      (''architecture'', SStr (mf_architecture m)),
      (''fileName'', SStr (mf_file_name m)),
      (''sizeBytes'', SInt (mf_size_bytes m)),
      (''sha256'', SStr (mf_sha256 m))]"

text \<open>
  An artifact with its preloaded relations. Preloading goes through the model hooks, so a
  soft-deleted version, platform, architecture or provider is not loaded.
\<close>

record release =
  rel_artifact :: artifact_row
  rel_version :: "version_row option"
  rel_software :: "software_row option"
  rel_platform :: "platform_row option"
  rel_architecture :: "architecture_row option"

definition load_release :: "db \<Rightarrow> artifact_row \<Rightarrow> release" where
  "load_release d a =
     (let v = find_by ver_id (art_version_id a) (ignore_deleted ver_deleted_at (versions d)) in
      \<lparr> rel_artifact = a,
        rel_version = v,
        rel_software = (case v of None \<Rightarrow> None | Some r \<Rightarrow> find_by sw_id (ver_software_id r) (software d)),
        rel_platform = find_by plat_id (art_platform_id a) (ignore_deleted plat_deleted_at (platforms d)),
        rel_architecture =
          find_by arch_id (art_architecture_id a) (ignore_deleted arch_deleted_at (architectures d)) \<rparr>)"

definition version_text :: "version_row \<Rightarrow> string" where
  "version_text v = int_text (ver_major v) @ ''.'' @ int_text (ver_minor v) @ ''.'' @ int_text (ver_patch v)"

definition valid_size :: "int option \<Rightarrow> bool" where
  "valid_size n = (case n of None \<Rightarrow> False | Some k \<Rightarrow> is_safe_integer k \<and> 0 \<le> k)"

definition valid_sha256 :: "string option \<Rightarrow> bool" where
  "valid_sha256 h = (case h of None \<Rightarrow> False | Some s \<Rightarrow> is_hex64 s)"

definition build_ota_release_manifest :: "release \<Rightarrow> ota_manifest res" where
  "build_ota_release_manifest r =
     (let a = rel_artifact r in
      case (rel_version r, rel_software r, rel_platform r, rel_architecture r) of
        (Some v, Some s, Some p, Some h) \<Rightarrow>
          throw_if (\<not> valid_size (art_size_bytes a))
            (Error ''Release size is missing or invalid and cannot be signed.'')
            (throw_if (\<not> valid_sha256 (art_sha256 a))
              (Error ''A valid SHA-256 checksum is required before signing a release.'')
              (Inr \<lparr> mf_software = sw_slug s, mf_version = version_text v,
                 mf_codename = ver_codename v, mf_changelog = ver_changelog v,
                 mf_channel = art_channel a, mf_platform = plat_name p,
                 mf_architecture = arch_name h, mf_file_name = art_file_name a,
                 mf_size_bytes = the (art_size_bytes a), mf_sha256 = the (art_sha256 a) \<rparr>))
      | _ \<Rightarrow> Inl (Error ''Release metadata is incomplete and cannot be signed.''))"

definition payload_of :: "ota_manifest \<Rightarrow> string" where
  "payload_of m = base64url (utf8 (json_object (manifest_obj m)))"

definition create_ota_release_payload :: "release \<Rightarrow> string res" where
  "create_ota_release_payload r = bind_res (build_ota_release_manifest r) (\<lambda>m. Inr (payload_of m))"

definition create_ota_release_manifest_json :: "release \<Rightarrow> string res" where
  "create_ota_release_manifest_json r =
     bind_res (build_ota_release_manifest r) (\<lambda>m. Inr (json_pretty (manifest_obj m)))"

text \<open>\<open>JSON.parse(Buffer.from(payload, 'base64url').toString('utf8'))\<close>\<close>

definition parse_payload :: "string \<Rightarrow> json_obj option" where
  "parse_payload p =
     (case utf8_decode (base64url_decode p) of None \<Rightarrow> None | Some s \<Rightarrow> json_parse s)"

section \<open>Verification\<close>

definition verify_ota_release_signature :: "crypto \<Rightarrow> string \<Rightarrow> jsval \<Rightarrow> string \<Rightarrow> bool" where
  "verify_ota_release_signature cr payload sig pem =
     (case sig of
        JStr s \<Rightarrow>
          if length s \<noteq> 86 \<or> \<not> list_all is_b64url s then False
          else if payload = [] \<or> \<not> list_all is_b64url payload \<or> length payload > 120000 then False
          else
            (let pb = base64url_decode payload; sb = base64url_decode s in
             if length sb \<noteq> 64 \<or> base64url sb \<noteq> s \<or> length pb = 0 \<or> base64url pb \<noteq> payload then False
             else (case get_public_key cr pem of Inl _ \<Rightarrow> False | Inr k \<Rightarrow> cr_verify cr k pb sb))
      | _ \<Rightarrow> False)"

record ota_envelope =
  env_payload :: string
  env_signature :: string
  env_key_id :: string

text \<open>\<open>!value\<close> for a nullable text column.\<close>

definition no_text :: "string option \<Rightarrow> bool" where
  "no_text x \<longleftrightarrow> x = None \<or> x = Some []"

definition create_ota_signature_envelope :: "release \<Rightarrow> ota_envelope option res" where
  "create_ota_signature_envelope r =
     (let a = rel_artifact r in
      if no_text (art_signature a) \<or> no_text (art_signature_key_id a) then Inr None
      else bind_res (build_ota_release_manifest r) (\<lambda>m.
        case art_signature_manifest a of
          None \<Rightarrow> Inr None
        | Some snapshot \<Rightarrow>
            if list_ex (\<lambda>(field, v). map_of snapshot field \<noteq> Some v) (manifest_obj m) then Inr None
            else bind_res (create_ota_release_payload r) (\<lambda>p.
              Inr (Some \<lparr> env_payload = p, env_signature = the (art_signature a),
                          env_key_id = the (art_signature_key_id a) \<rparr>))))"

section \<open>Payloads\<close>

lemma manifest_keys: "distinct (map fst (manifest_obj m))"
  by (simp add: manifest_obj_def)

lemma parse_payload_of: "parse_payload (payload_of m) = Some (manifest_obj m)"
  by (simp add: parse_payload_def payload_of_def json_roundtrip [OF manifest_keys])

lemma opt_text_inject [simp]: "opt_text x = opt_text y \<longleftrightarrow> x = y"
  by (auto simp: opt_text_def split: option.splits)

lemma manifest_obj_inject [simp]: "manifest_obj m = manifest_obj m' \<longleftrightarrow> m = m'"
  by (auto simp: manifest_obj_def)

lemma payload_of_inject [simp]: "payload_of m = payload_of m' \<longleftrightarrow> m = m'"
  by (metis parse_payload_of option.inject manifest_obj_inject)

lemma map_of_eq_manifest:
  assumes "\<not> list_ex (\<lambda>(field, v). map_of s field \<noteq> Some v) (manifest_obj m)"
    and "s = manifest_obj m'"
  shows "m = m'"
  using assms by (auto simp: manifest_obj_def)

section \<open>What verification accepts\<close>

lemma verify_iff:
  "verify_ota_release_signature cr payload (JStr s) pem \<longleftrightarrow>
     (\<exists>pb sb. payload = base64url pb \<and> s = base64url sb \<and> length sb = 64 \<and> pb \<noteq> [] \<and>
        length payload \<le> 120000 \<and> cr_key_type cr pem = Some ''ed25519'' \<and> cr_verify cr pem pb sb)"
  (is "?L \<longleftrightarrow> ?R")
proof
  assume ?L
  then show ?R
    by (intro exI [of _ "base64url_decode payload"] exI [of _ "base64url_decode s"])
      (auto simp: verify_ota_release_signature_def Let_def get_public_key_def
         split: if_splits option.splits sum.splits)
next
  assume ?R
  then obtain pb sb where b: "payload = base64url pb" "s = base64url sb" "length sb = 64" "pb \<noteq> []"
    "length payload \<le> 120000" "cr_key_type cr pem = Some ''ed25519''" "cr_verify cr pem pb sb"
    by blast
  have "length s = 86" using b(2,3) by (simp add: length_base64url)
  moreover have "payload \<noteq> []" using b(1,4) base64url_inject [of pb "[]"] by (auto simp: base64url_def)
  ultimately show ?L
    using b by (simp add: verify_ota_release_signature_def base64url_class get_public_key_def)
qed

lemma verify_only_text:
  "verify_ota_release_signature cr payload v pem \<Longrightarrow> \<exists>s. v = JStr s"
  by (auto simp: verify_ota_release_signature_def split: jsval.splits)

lemma validated_key:
  assumes "validate_ota_public_key cr v = Inr k"
  shows "\<exists>pem. cr_key_type cr pem = Some ''ed25519'' \<and> pk_public_key k = cr_spki_pem cr pem \<and>
     pk_key_id k = cr_sha256 cr (cr_spki_der cr pem)"
  using assms
  by (auto simp: validate_ota_public_key_def get_public_key_def get_ota_signing_key_id_def Let_def res_simps
      split: jsval.splits if_splits option.splits)

lemma manifest_Inr:
  "build_ota_release_manifest r = Inr m \<longleftrightarrow>
     (\<exists>v s p h n c. rel_version r = Some v \<and> rel_software r = Some s \<and> rel_platform r = Some p \<and>
        rel_architecture r = Some h \<and> art_size_bytes (rel_artifact r) = Some n \<and>
        art_sha256 (rel_artifact r) = Some c \<and> valid_size (Some n) \<and> is_hex64 c \<and>
        m = \<lparr> mf_software = sw_slug s, mf_version = version_text v,
              mf_codename = ver_codename v, mf_changelog = ver_changelog v,
              mf_channel = art_channel (rel_artifact r), mf_platform = plat_name p,
              mf_architecture = arch_name h, mf_file_name = art_file_name (rel_artifact r),
              mf_size_bytes = n, mf_sha256 = c \<rparr>)"
  by (auto simp: build_ota_release_manifest_def Let_def res_simps valid_size_def valid_sha256_def
      split: option.splits)


section \<open>The size of a payload\<close>

text \<open>
  Every character but a raw control character takes at most two bytes of the payload JSON
  (an escape of two characters, or two bytes of UTF-8).
\<close>

definition short_escapes :: "string \<Rightarrow> bool" where
  "short_escapes s \<longleftrightarrow> list_all (\<lambda>c. 32 \<le> code c \<or> code c \<in> {8, 9, 10, 12, 13}) s"

lemma length_utf8_json_char:
  assumes "32 \<le> code c \<or> code c \<in> {8, 9, 10, 12, 13}"
  shows "length (utf8 (json_char c)) \<le> 2"
proof -
  have "c \<in> {CHR 0x08, CHR 0x09, CHR 0x0A, CHR 0x0C, CHR 0x0D}" if "\<not> 32 \<le> code c"
  proof -
    have "code c \<in> {8, 9, 10, 12, 13}" using assms that by blast
    then have "code c = code (CHR 0x08) \<or> code c = code (CHR 0x09) \<or> code c = code (CHR 0x0A) \<or>
        code c = code (CHR 0x0C) \<or> code c = code (CHR 0x0D)" by simp
    then show ?thesis by (simp only: code_inject insert_iff empty_iff) blast
  qed
  then show ?thesis
    by (auto simp: json_char_def utf8_def utf8_char_def)
qed

lemma length_utf8_json_string:
  "short_escapes s \<Longrightarrow> length (utf8 (json_string s)) \<le> 2 * length s + 2"
proof -
  assume "short_escapes s"
  then have "length (utf8 (concat (map json_char s))) \<le> 2 * length s"
  proof (induction s)
    case (Cons c s)
    have "length (utf8 (json_char c)) \<le> 2"
      by (rule length_utf8_json_char) (use Cons.prems in \<open>simp add: short_escapes_def\<close>)
    moreover have "length (utf8 (concat (map json_char s))) \<le> 2 * length s"
      using Cons by (simp add: short_escapes_def)
    ultimately show ?case by (simp add: utf8_append)
  qed (simp add: utf8_def)
  then show ?thesis by (simp add: json_string_def utf8_append utf8_Cons utf8_def [of "[]"] utf8_char_def)
qed

lemma length_utf8_text: "list_all (\<lambda>c. code c < 128) s \<Longrightarrow> length (utf8 s) = length s"
  by (induction s) (auto simp: utf8_def utf8_char_def)

lemma length_dec_le: "0 < k \<Longrightarrow> n < 10 ^ k \<Longrightarrow> length (dec n) \<le> k"
proof (induction n arbitrary: k rule: dec.induct)
  case (1 n)
  show ?case
  proof (cases "n < 10")
    case True
    then show ?thesis using 1 by (subst dec.simps) simp
  next
    case False
    then obtain j where k: "k = Suc j" "0 < j" using 1(3) by (cases k; cases "k - 1") auto
    then have "n div 10 < 10 ^ j" using 1(3) by (simp add: less_mult_imp_div_less mult.commute)
    then have "length (dec (n div 10)) \<le> j" using 1(1) False k by blast
    then show ?thesis using False k by (subst dec.simps) simp
  qed
qed

lemma length_utf8_size:
  assumes "valid_size (Some n)"
  shows "length (utf8 (int_text n)) \<le> 16"
proof -
  have n: "0 \<le> n" "n \<le> 9007199254740991"
    using assms by (simp_all add: valid_size_def is_safe_integer_def max_safe_integer_def)
  then have "nat n < 10 ^ 16" by simp
  then have "length (dec (nat n)) \<le> 16" by (intro length_dec_le) auto
  moreover have "list_all (\<lambda>c. code c < 128) (dec m)" for m
    using dec_digits [of m] by (auto simp: list_all_iff is_digit_def char_between_def)
  ultimately show ?thesis using n by (simp add: int_text_def length_utf8_text)
qed

definition manifest_fits :: "ota_manifest \<Rightarrow> bool" where
  "manifest_fits m \<longleftrightarrow>
     length (mf_software m) \<le> 80 \<and> length (mf_version m) \<le> 29 \<and>
     length (case mf_codename m of None \<Rightarrow> [] | Some s \<Rightarrow> s) \<le> 100 \<and>
     length (case mf_changelog m of None \<Rightarrow> [] | Some s \<Rightarrow> s) \<le> 20000 \<and>
     length (mf_channel m) \<le> 255 \<and> length (mf_platform m) \<le> 50 \<and> length (mf_architecture m) \<le> 50 \<and>
     length (mf_file_name m) \<le> 255 \<and> length (mf_sha256 m) = 64 \<and> valid_size (Some (mf_size_bytes m)) \<and>
     list_all short_escapes
       [mf_software m, mf_version m, (case mf_codename m of None \<Rightarrow> [] | Some s \<Rightarrow> s),
        (case mf_changelog m of None \<Rightarrow> [] | Some s \<Rightarrow> s), mf_channel m, mf_platform m,
        mf_architecture m, mf_file_name m, mf_sha256 m]"

lemma length_utf8_opt_text:
  "short_escapes (case x of None \<Rightarrow> [] | Some s \<Rightarrow> s) \<Longrightarrow>
     length (utf8 (json_scalar (opt_text x))) \<le> 2 * length (case x of None \<Rightarrow> [] | Some s \<Rightarrow> s) + 4"
proof (cases x)
  case None
  have "length (utf8 ''null'') = 4" by code_simp
  then show ?thesis using None by (simp add: opt_text_def)
next
  case (Some s)
  assume "short_escapes (case x of None \<Rightarrow> [] | Some s \<Rightarrow> s)"
  then have "length (utf8 (json_string s)) \<le> 2 * length s + 2"
    using Some length_utf8_json_string by simp
  then show ?thesis using Some by (simp add: opt_text_def)
qed

lemma length_utf8_pair: "length (utf8 (json_pair (k, v))) =
    length (utf8 (json_string k)) + 1 + length (utf8 (json_scalar v))"
  by (simp add: json_pair_def utf8_append utf8_Cons utf8_char_def)

lemma payload_bytes_bound:
  assumes "manifest_fits m"
  shows "length (utf8 (json_object (manifest_obj m))) \<le> 42500"
proof -
  have fields: "length (utf8 (json_scalar (SStr s))) \<le> 2 * length s + 2" if "short_escapes s" for s
    using length_utf8_json_string [OF that] by simp
  have s: "short_escapes (mf_software m)" "short_escapes (mf_version m)" "short_escapes (mf_channel m)"
    "short_escapes (mf_platform m)" "short_escapes (mf_architecture m)" "short_escapes (mf_file_name m)"
    "short_escapes (mf_sha256 m)" "short_escapes (case mf_codename m of None \<Rightarrow> [] | Some s \<Rightarrow> s)"
    "short_escapes (case mf_changelog m of None \<Rightarrow> [] | Some s \<Rightarrow> s)"
    using assms by (simp_all add: manifest_fits_def)
  have l: "length (mf_software m) \<le> 80" "length (mf_version m) \<le> 29" "length (mf_channel m) \<le> 255"
    "length (mf_platform m) \<le> 50" "length (mf_architecture m) \<le> 50" "length (mf_file_name m) \<le> 255"
    "length (mf_sha256 m) = 64" "length (case mf_codename m of None \<Rightarrow> [] | Some s \<Rightarrow> s) \<le> 100"
    "length (case mf_changelog m of None \<Rightarrow> [] | Some s \<Rightarrow> s) \<le> 20000" "valid_size (Some (mf_size_bytes m))"
    using assms by (simp_all add: manifest_fits_def)
  have keys: "length (utf8 (json_string ''schemaVersion'')) = 15" "length (utf8 (json_string ''software'')) = 10"
    "length (utf8 (json_string ''version'')) = 9" "length (utf8 (json_string ''codename'')) = 10"
    "length (utf8 (json_string ''changelog'')) = 11" "length (utf8 (json_string ''channel'')) = 9"
    "length (utf8 (json_string ''platform'')) = 10" "length (utf8 (json_string ''architecture'')) = 14"
    "length (utf8 (json_string ''fileName'')) = 10" "length (utf8 (json_string ''sizeBytes'')) = 11"
    "length (utf8 (json_string ''sha256'')) = 8" "length (utf8 (int_text 1)) = 1"
    by code_simp+
  have sep: "length (utf8 (c # t)) = 1 + length (utf8 t)" if "code c < 128" for c t
    using that by (simp add: utf8_Cons utf8_char_def)
  have join: "length (utf8 (json_object (manifest_obj m))) =
      12 + (\<Sum>p\<leftarrow>manifest_obj m. length (utf8 (json_pair p)))"
    by (simp add: json_object_def manifest_obj_def utf8_append sep utf8_def [of "[]"])
  show ?thesis
    unfolding join
    using fields [OF s(1)] fields [OF s(2)] fields [OF s(3)] fields [OF s(4)] fields [OF s(5)]
      fields [OF s(6)] fields [OF s(7)] length_utf8_opt_text [OF s(8)] length_utf8_opt_text [OF s(9)]
      length_utf8_size [OF l(10)] l(1-9)
    unfolding manifest_obj_def list.map sum_list_simps length_utf8_pair keys json_scalar.simps(2)
    by linarith
qed

section \<open>Properties\<close>

text \<open>
  A signature is accepted exactly when the payload and the signature are the canonical base64url
  texts of some payload bytes and of 64 signature bytes, the payload is not empty and within the
  limit, the key is an Ed25519 key, and the key verifies the signature bytes over those payload
  bytes. In particular no two different texts of one signature or one payload are both accepted.
\<close>

theorem signature_acceptance:
  "verify_ota_release_signature cr payload v pem \<longleftrightarrow>
     (\<exists>pb sb. payload = base64url pb \<and> v = JStr (base64url sb) \<and> length sb = 64 \<and> pb \<noteq> [] \<and>
        length payload \<le> 120000 \<and> cr_key_type cr pem = Some ''ed25519'' \<and> cr_verify cr pem pb sb)"
proof (cases v)
  case (JStr s)
  then show ?thesis by (simp add: verify_iff)
qed (auto dest: verify_only_text)

text \<open>
  The payload determines the manifest: reading the payload back as the code does when it stores a
  signature gives exactly the manifest object that was encoded.
\<close>

theorem payload_roundtrip:
  "parse_payload (payload_of m) = Some (manifest_obj m) \<and> (payload_of m = payload_of m' \<longleftrightarrow> m = m')"
  by (simp add: parse_payload_of)

text \<open>
  A manifest within the limits of the columns, whose texts hold no raw control character other
  than those JSON escapes in two characters, has a payload within the 120,000 characters that
  verification accepts.
\<close>

theorem payload_within_limit:
  "manifest_fits m \<Longrightarrow> length (payload_of m) \<le> 120000"
  using payload_bytes_bound [of m] by (simp add: payload_of_def length_base64url)

lemma payload_within_limit_witness:
  "length (payload_of \<lparr> mf_software = ''app'', mf_version = ''1.2.3'', mf_codename = None,
     mf_changelog = Some ''fixes'', mf_channel = ''stable'', mf_platform = ''linux'',
     mf_architecture = ''x64'', mf_file_name = ''app.zip'', mf_size_bytes = 5,
     mf_sha256 = replicate 64 (CHR ''0'') \<rparr>) \<le> 120000"
  by (rule payload_within_limit) code_simp

text \<open>
  A served envelope is about the release as it is now: it is built only when the stored
  snapshot agrees with the current manifest in every field, and it carries the payload of the
  current manifest with the stored signature and key identifier.
\<close>

theorem envelope_current:
  assumes "create_ota_signature_envelope r = Inr (Some e)"
  shows "\<exists>m snapshot. build_ota_release_manifest r = Inr m \<and>
     art_signature_manifest (rel_artifact r) = Some snapshot \<and>
     (\<forall>k v. map_of (manifest_obj m) k = Some v \<longrightarrow> map_of snapshot k = Some v) \<and>
     env_payload e = payload_of m \<and> art_signature (rel_artifact r) = Some (env_signature e) \<and>
     art_signature_key_id (rel_artifact r) = Some (env_key_id e)"
proof -
  from assms obtain m snapshot where m: "build_ota_release_manifest r = Inr m"
    and s: "art_signature_manifest (rel_artifact r) = Some snapshot"
    and agree: "\<not> list_ex (\<lambda>(field, v). map_of snapshot field \<noteq> Some v) (manifest_obj m)"
    and e: "env_payload e = payload_of m" "env_signature e = the (art_signature (rel_artifact r))"
      "env_key_id e = the (art_signature_key_id (rel_artifact r))"
    and t: "art_signature (rel_artifact r) \<noteq> None" "art_signature_key_id (rel_artifact r) \<noteq> None"
    by (auto simp: create_ota_signature_envelope_def create_ota_release_payload_def Let_def res_simps
        no_text_def split: if_splits option.splits)
  have "map_of snapshot k = Some v" if "map_of (manifest_obj m) k = Some v" for k v
    using agree map_of_SomeD [OF that] by (fastforce simp: list_ex_iff)
  then show ?thesis using m s e t by auto
qed

end
