(* ===== verification/Core_Version.thy ===== *)
theory Core_Version
  imports Schema "HOL-Library.Multiset"
begin

text \<open>
  The core \<open>major.minor.patch\<close> of a semantic version with its order of precedence, the parsed form
  of the package \<open>semver\<close>, and the comparisons the code writes out as conditions on three columns.
\<close>

datatype core_version = Core (major: int) (minor: int) (patch: int)

instantiation core_version :: linorder
begin

definition less_eq_core_version :: "core_version \<Rightarrow> core_version \<Rightarrow> bool" where
  "less_eq_core_version a b \<longleftrightarrow>
     major a < major b \<or>
     (major a = major b \<and> (minor a < minor b \<or> (minor a = minor b \<and> patch a \<le> patch b)))"

definition less_core_version :: "core_version \<Rightarrow> core_version \<Rightarrow> bool" where
  "less_core_version a b \<longleftrightarrow>
     major a < major b \<or>
     (major a = major b \<and> (minor a < minor b \<or> (minor a = minor b \<and> patch a < patch b)))"

instance
proof
  fix a b c :: core_version
  show "a < b \<longleftrightarrow> a \<le> b \<and> \<not> b \<le> a"
    by (auto simp: less_eq_core_version_def less_core_version_def)
  show "a \<le> a" by (simp add: less_eq_core_version_def)
  show "a \<le> b \<Longrightarrow> b \<le> c \<Longrightarrow> a \<le> c" by (auto simp: less_eq_core_version_def)
  show "a \<le> b \<Longrightarrow> b \<le> a \<Longrightarrow> a = b"
    by (auto simp: less_eq_core_version_def intro: core_version.expand)
  show "a \<le> b \<or> b \<le> a" by (auto simp: less_eq_core_version_def)
qed

end

definition core_of :: "version_row \<Rightarrow> core_version" where
  "core_of v = Core (ver_major v) (ver_minor v) (ver_patch v)"

text \<open>
  \<open>semver.parse\<close>, \<open>semver.valid\<close> and \<open>semver.gt\<close> of the npm package, as parameters. By its
  documentation a text is valid when it parses, and the precedence of a stable version against any
  version is that of the cores, a stable version being newer than a pre-release of its own core.
\<close>

record semver =
  sv_core :: core_version
  sv_prerelease :: "string list"

record semver_lib =
  sv_parse :: "string \<Rightarrow> semver option"
  sv_valid :: "string \<Rightarrow> bool"
  sv_gt :: "string \<Rightarrow> string \<Rightarrow> bool"

definition newer :: "core_version \<Rightarrow> semver \<Rightarrow> bool" where
  "newer c cur \<longleftrightarrow> sv_core cur < c \<or> (sv_core cur = c \<and> sv_prerelease cur \<noteq> [])"

definition core_text :: "core_version \<Rightarrow> string" where
  "core_text c = int_text (major c) @ ''.'' @ int_text (minor c) @ ''.'' @ int_text (patch c)"

definition core_nonneg :: "core_version \<Rightarrow> bool" where
  "core_nonneg c \<longleftrightarrow> 0 \<le> major c \<and> 0 \<le> minor c \<and> 0 \<le> patch c"

definition versions_nonneg :: "db \<Rightarrow> bool" where
  "versions_nonneg d \<longleftrightarrow> list_all (\<lambda>v. core_nonneg (core_of v)) (versions d)"

definition semver_ok :: "semver_lib \<Rightarrow> bool" where
  "semver_ok lib \<longleftrightarrow>
     (\<forall>s. sv_valid lib s \<longleftrightarrow> sv_parse lib s \<noteq> None) \<and>
     (\<forall>s cur c. sv_parse lib s = Some cur \<longrightarrow> core_nonneg c \<longrightarrow> sv_gt lib (core_text c) s \<longleftrightarrow> newer c cur)"

section \<open>Ordering by version, newest first\<close>

text \<open>
  \<open>orderBy('v.major', 'desc').orderBy('v.minor', 'desc').orderBy('v.patch', 'desc')\<close>: a stable sort,
  the largest key first.
\<close>

definition sort_desc :: "('a \<Rightarrow> 'k::linorder) \<Rightarrow> 'a list \<Rightarrow> 'a list" where
  "sort_desc key xs = rev (sort_key key (rev xs))"

lemma set_sort_desc [simp]: "set (sort_desc key xs) = set xs"
  by (simp add: sort_desc_def)

lemma length_sort_desc [simp]: "length (sort_desc key xs) = length xs"
  by (simp add: sort_desc_def)

lemma sort_desc_Nil [simp]: "sort_desc key xs = [] \<longleftrightarrow> xs = []"
  by (metis length_0_conv length_sort_desc)

lemma sort_desc_sorted: "sorted (map key (rev (sort_desc key xs)))"
  by (simp add: sort_desc_def)

lemma sort_desc_hd:
  assumes "sort_desc key xs = y # ys"
  shows "y \<in> set xs" "\<And>x. x \<in> set xs \<Longrightarrow> key x \<le> key y"
proof -
  show "y \<in> set xs" using assms set_sort_desc [of key xs] by auto
  fix x assume "x \<in> set xs"
  then have x: "x \<in> set (rev ys @ [y])" using assms set_sort_desc [of key xs] by auto
  have "sorted (map key (rev ys @ [y]))" using sort_desc_sorted [of key xs] assms by simp
  then show "key x \<le> key y" using x by (auto simp: sorted_append)
qed

lemma mset_sort_desc: "mset (sort_desc key xs) = mset xs"
  by (simp add: sort_desc_def)

lemma sort_desc_index:
  assumes "i < j" "j < length xs"
  shows "key (sort_desc key xs ! j) \<le> key (sort_desc key xs ! i)"
proof -
  let ?s = "sort_key key (rev xs)"
  have n: "length ?s = length xs" by simp
  have "sorted (map key ?s)" by simp
  then have "key (?s ! (length xs - Suc j)) \<le> key (?s ! (length xs - Suc i))"
    using assms n sorted_nth_mono [of "map key ?s" "length xs - Suc j" "length xs - Suc i"] by simp
  then show ?thesis using assms n by (simp add: sort_desc_def rev_nth)
qed

end
