(* ===== verification/Visibility.thy ===== *)
theory Visibility
  imports Signatures Core_Version
begin

text \<open>
  \<open>app/repositories/artifact_repository.ts\<close>: the canonical query for artifacts that OTA clients may
  see. A subquery reads the tables directly, so soft-deleted rows are excluded only where the query
  says so; the query itself goes through the hooks of the model.
\<close>

definition nullable :: "('a \<Rightarrow> scalar) \<Rightarrow> 'a option \<Rightarrow> scalar" where
  "nullable f x = (case x of None \<Rightarrow> SNull | Some y \<Rightarrow> f y)"

text \<open>\<open>jsonb_build_object(...)\<close> of the query: the manifest of the columns as they are.\<close>

definition sql_manifest :: "db \<Rightarrow> software_row \<Rightarrow> version_row \<Rightarrow> artifact_row \<Rightarrow> json_obj" where
  "sql_manifest d s v a =
     [(''schemaVersion'', SInt 1),
      (''software'', SStr (sw_slug s)),
      (''version'', SStr (int_text (ver_major v) @ ''.'' @ int_text (ver_minor v) @ ''.'' @ int_text (ver_patch v))),
      (''codename'', nullable SStr (ver_codename v)),
      (''changelog'', nullable SStr (ver_changelog v)),
      (''channel'', SStr (art_channel a)),
      (''platform'', nullable (\<lambda>p. SStr (plat_name p)) (find_by plat_id (art_platform_id a) (platforms d))),
      (''architecture'',
         nullable (\<lambda>h. SStr (arch_name h)) (find_by arch_id (art_architecture_id a) (architectures d))),
      (''fileName'', SStr (art_file_name a)),
      (''sizeBytes'', nullable SInt (art_size_bytes a)),
      (''sha256'', nullable SStr (art_sha256 a))]"

text \<open>Equality of two flat \<open>jsonb\<close> objects: the same names with the same values, in any order.\<close>

definition jsonb_eq :: "json_obj \<Rightarrow> json_obj \<Rightarrow> bool" where
  "jsonb_eq p q \<longleftrightarrow> list_all (\<lambda>k. map_of p k = map_of q k) (map fst p @ map fst q)"

definition eligible_signature :: "db \<Rightarrow> software_row \<Rightarrow> version_row \<Rightarrow> artifact_row \<Rightarrow> bool" where
  "eligible_signature d s v a \<longleftrightarrow>
     list_ex (\<lambda>k. sk_software_id k = sw_id s \<and> art_signature_key_id a = Some (sk_key_id k) \<and>
        sk_is_active k \<and> art_signature a \<noteq> None \<and>
        (case art_signature_manifest a of
           None \<Rightarrow> False | Some snapshot \<Rightarrow> jsonb_eq snapshot (sql_manifest d s v a)))
       (signing_keys d)"

definition eligible_version :: "db \<Rightarrow> string option \<Rightarrow> artifact_row \<Rightarrow> bool" where
  "eligible_version d software_id a \<longleftrightarrow>
     list_ex (\<lambda>v. ver_id v = art_version_id a \<and> ver_deleted_at v = None \<and> ver_is_active v \<and>
        list_ex (\<lambda>s. sw_id s = ver_software_id v \<and> sw_is_active s \<and>
            (\<not> sw_require_signed s \<or> eligible_signature d s v a) \<and>
            (case software_id of None \<Rightarrow> True | Some i \<Rightarrow> i = [] \<or> sw_id s = i))
          (software d))
       (versions d)"

definition public_artifact :: "db \<Rightarrow> string option \<Rightarrow> artifact_row \<Rightarrow> bool" where
  "public_artifact d software_id a \<longleftrightarrow>
     art_deleted_at a = None \<and> eligible_version d software_id a \<and>
     list_ex (\<lambda>p. plat_id p = art_platform_id a \<and> plat_deleted_at p = None) (platforms d) \<and>
     list_ex (\<lambda>h. arch_id h = art_architecture_id a \<and> arch_deleted_at h = None) (architectures d) \<and>
     list_ex (\<lambda>sp. sp_id sp = art_provider_id a \<and> sp_deleted_at sp = None \<and> sp_is_active sp) (providers d) \<and>
     art_is_published a \<and> \<not> art_is_archived a"

definition public_query :: "db \<Rightarrow> string option \<Rightarrow> artifact_row list" where
  "public_query d software_id =
     filter (public_artifact d software_id) (ignore_deleted art_deleted_at (artifacts d))"

definition find_public_by_id :: "db \<Rightarrow> string \<Rightarrow> string option \<Rightarrow> artifact_row option" where
  "find_public_by_id d i software_id = find_by art_id i (public_query d software_id)"

definition find_public_by_storage_key :: "db \<Rightarrow> string \<Rightarrow> artifact_row option" where
  "find_public_by_storage_key d key = find_by art_storage_key key (public_query d None)"

definition find_by_version_id :: "db \<Rightarrow> string \<Rightarrow> artifact_row option" where
  "find_by_version_id d version_id =
     find_by art_version_id version_id (ignore_deleted art_deleted_at (artifacts d))"

section \<open>Signed manifests\<close>

lemma jsonb_eq_iff: "jsonb_eq p q \<longleftrightarrow> (\<forall>k. map_of p k = map_of q k)"
proof
  assume l: "jsonb_eq p q"
  show "\<forall>k. map_of p k = map_of q k"
  proof
    fix k
    show "map_of p k = map_of q k"
    proof (cases "k \<in> fst ` set p \<or> k \<in> fst ` set q")
      case True
      then show ?thesis using l by (auto simp: jsonb_eq_def list_all_iff)
    next
      case False
      then show ?thesis by (simp add: map_of_eq_None_iff [THEN iffD2])
    qed
  qed
qed (simp add: jsonb_eq_def list_all_iff)

lemma nullable_opt_text: "nullable SStr x = opt_text x"
  by (cases x) (simp_all add: nullable_def opt_text_def)

lemma map_of_all_eq:
  assumes "\<forall>k. map_of (manifest_obj m) k = map_of q k"
    and "map fst q = map fst (manifest_obj m)"
  shows "q = manifest_obj m"
proof -
  have "distinct (map fst q)" using assms(2) manifest_keys by simp
  moreover have "map_of q = map_of (manifest_obj m)" using assms(1) by auto
  ultimately have "set q = set (manifest_obj m)"
    by (metis manifest_keys map_of_eqI map_of_inject_set)
  then have "\<And>k v. (k, v) \<in> set q \<longleftrightarrow> (k, v) \<in> set (manifest_obj m)" by simp
  have eq: "map snd xs = map (\<lambda>k. the (map_of xs k)) (map fst xs)" if "distinct (map fst xs)"
    for xs :: json_obj
    using that by (induction xs) (force simp: rev_image_eqI)+
  have "map snd q = map snd (manifest_obj m)"
    using eq [OF \<open>distinct (map fst q)\<close>] eq [OF manifest_keys [of m]] assms(2)
      \<open>map_of q = map_of (manifest_obj m)\<close> by simp
  then show ?thesis using assms(2) by (metis zip_map_fst_snd)
qed

lemma sql_manifest_keys: "map fst (sql_manifest d s v a) = map fst (manifest_obj m)"
  by (simp add: sql_manifest_def manifest_obj_def)

text \<open>
  When the columns agree with a manifest the code can build, the query's object is that manifest.
\<close>

lemma sql_manifest_eq:
  assumes "jsonb_eq (manifest_obj m) (sql_manifest d s v a)"
  shows "sql_manifest d s v a = manifest_obj m"
  using assms by (intro map_of_all_eq [OF _ sql_manifest_keys]) (simp add: jsonb_eq_iff)

lemma public_artifact_obtain:
  assumes "public_artifact d sid a"
  obtains v s where "v \<in> set (versions d)" "ver_id v = art_version_id a" "ver_deleted_at v = None"
    "ver_is_active v" "s \<in> set (software d)" "sw_id s = ver_software_id v" "sw_is_active s"
    "sw_require_signed s \<Longrightarrow> eligible_signature d s v a"
    "\<And>i. sid = Some i \<Longrightarrow> i \<noteq> [] \<Longrightarrow> sw_id s = i"
proof -
  from assms obtain v s where "v \<in> set (versions d)" "ver_id v = art_version_id a"
    "ver_deleted_at v = None" "ver_is_active v" "s \<in> set (software d)" "sw_id s = ver_software_id v"
    "sw_is_active s" "\<not> sw_require_signed s \<or> eligible_signature d s v a"
    and "case sid of None \<Rightarrow> True | Some i \<Rightarrow> i = [] \<or> sw_id s = i"
    by (auto simp: public_artifact_def eligible_version_def list_ex_iff)
  then show thesis by (intro that [of v s]) auto
qed

lemma public_query_mem [simp]:
  "a \<in> set (public_query d sid) \<longleftrightarrow> a \<in> set (artifacts d) \<and> public_artifact d sid a"
  by (auto simp: public_query_def row_simps public_artifact_def)

lemma public_any: "public_artifact d sid a \<Longrightarrow> public_artifact d None a"
  by (fastforce simp: public_artifact_def eligible_version_def list_ex_iff)

end
