(* ===== verification/Pagination.thy ===== *)
theory Pagination
  imports JS_Values
begin

text \<open>
  \<open>app/services/pagination.ts\<close> and the page arithmetic of Lucid's \<open>paginate\<close>: the page value a
  request carries is parsed before it reaches a query, and a page is the slice of the ordered rows
  from \<open>(page - 1) * limit\<close>.
\<close>

definition page_number :: "int \<Rightarrow> jsval \<Rightarrow> int option" where
  "page_number maximum v =
     (case digits_text v of
        None \<Rightarrow> None
      | Some text \<Rightarrow>
          (case js_safe_integer (JNum (number_of_string text)) of
             Some n \<Rightarrow> if 1 \<le> n \<and> n \<le> maximum then Some n else None
           | None \<Rightarrow> None))"

definition parse_page :: "jsval \<Rightarrow> int \<Rightarrow> int \<Rightarrow> int option" where
  "parse_page v fallback maximum = (if \<not> truthy v then Some fallback else page_number maximum v)"

text \<open>\<open>positiveInteger\<close> of \<open>app/controllers/api/updater_controller.ts\<close>\<close>

definition positive_integer :: "jsval \<Rightarrow> int \<Rightarrow> int \<Rightarrow> int option" where
  "positive_integer v fallback maximum =
     (if v = JUndef \<or> v = JStr [] then Some fallback else page_number maximum v)"

definition page_slice :: "int \<Rightarrow> int \<Rightarrow> 'a list \<Rightarrow> 'a list" where
  "page_slice page limit rows = take (nat limit) (drop (nat ((page - 1) * limit)) rows)"

text \<open>\<open>Math.ceil(total / limit)\<close>\<close>

definition total_pages :: "nat \<Rightarrow> int \<Rightarrow> int" where
  "total_pages rows limit = (int rows + limit - 1) div limit"

section \<open>Numbers written with digits\<close>

lemma digits_trim: "all_digits s \<Longrightarrow> trim s = s"
proof (rule trim_id)
  assume s: "all_digits s"
  then have "list_all is_digit s" by (simp add: all_digits_def)
  then have *: "\<not> is_space c" if "c \<in> set s" for c
    using that by (auto simp: list_all_iff char_class_defs)
  show "\<not> is_space (hd s)" if "s \<noteq> []" using * that by simp
  show "\<not> is_space (last s)" if "s \<noteq> []" using * that by simp
qed

lemma digits_not_radix: "all_digits s \<Longrightarrow> radix_literal s = None"
proof -
  assume "all_digits s"
  then have d: "list_all is_digit s" by (simp add: all_digits_def)
  show ?thesis
  proof (cases "\<exists>z x e ds. s = z # x # e # ds")
    case True
    then obtain z x e ds where s: "s = z # x # e # ds" by blast
    have "is_digit x" using d s by simp
    then have "x \<notin> set ''xX''" "x \<notin> set ''oO''" "x \<notin> set ''bB''"
      by (auto simp: is_digit_def char_between_def)
    then show ?thesis unfolding radix_literal_def s by simp
  next
    case False
    then show ?thesis by (auto simp: radix_literal_def split: list.splits)
  qed
qed

lemma digits_unsigned: "all_digits s \<Longrightarrow> unsigned_decimal s = Some (of_nat (undec s))"
proof -
  assume "all_digits s"
  then have "s \<noteq> []" "list_all is_digit s" by (simp_all add: all_digits_def)
  then have td: "takeWhile is_digit s = s" "dropWhile is_digit s = []"
    by (auto simp: list_all_iff takeWhile_eq_all_conv)
  show ?thesis using \<open>s \<noteq> []\<close> unfolding unsigned_decimal_def Let_def td by simp
qed

lemma number_of_digits: "all_digits s \<Longrightarrow> number_of_string s = to_double (of_nat (undec s))"
proof -
  assume s: "all_digits s"
  then obtain c t where ct: "s = c # t" "is_digit c" by (cases s) (auto simp: all_digits_def)
  have ne: "s \<noteq> ''Infinity''" using s by (auto simp: all_digits_def is_digit_def char_between_def)
  have c: "c \<noteq> CHR ''+''" "c \<noteq> CHR ''-''" using ct(2) by (auto simp: is_digit_def char_between_def)
  show ?thesis
    unfolding number_of_string_def digits_trim [OF s] Let_def digits_not_radix [OF s]
    using ct(1) c ne digits_unsigned [OF s] by (auto simp: signed_decimal_def)
qed

lemma to_double_small: "n < 2 ^ 53 \<Longrightarrow> to_double (of_nat n) = Fin (of_nat n)"
proof -
  assume n: "n < 2 ^ 53"
  then have "(of_nat n :: rat) < 2 ^ 53" by (metis of_nat_less_iff of_nat_numeral of_nat_power)
  moreover have "(2 :: rat) ^ 53 < 2 ^ 1024 - 2 ^ 970" by simp
  moreover have "(0 :: rat) \<le> of_nat n" by simp
  ultimately show ?thesis using fl_of_nat [OF n] by (simp add: to_double_def)
qed

lemma to_double_large:
  assumes "2 ^ 53 \<le> n"
  shows "js_safe_integer (JNum (to_double (of_nat n))) = None"
proof (cases "(2 :: rat) ^ 1024 - 2 ^ 970 \<le> of_nat n")
  case True
  then show ?thesis by (simp add: to_double_def js_safe_integer_def)
next
  case False
  have big: "(2 :: rat) ^ 53 \<le> of_nat n" using assms by (metis of_nat_le_iff of_nat_numeral of_nat_power)
  have "(2 :: rat) powi 53 = 2 ^ 53" by (simp add: power_int_def)
  then have f: "2 ^ 53 \<le> fl (of_nat n)" using fl_ge_pow [of 53 "of_nat n"] big by simp
  have "\<not> is_safe_integer \<lfloor>fl (rat_of_nat n)\<rfloor>"
  proof -
    have "2 ^ 53 \<le> \<lfloor>fl (rat_of_nat n)\<rfloor>" using f by (simp add: le_floor_iff)
    then show ?thesis by (simp add: is_safe_integer_def max_safe_integer_def)
  qed
  moreover have "(0 :: rat) \<le> of_nat n" by simp
  then have "\<not> of_nat n \<le> - (2 ^ 1024 - 2 ^ 970 :: rat)" by simp
  ultimately show ?thesis using False by (auto simp: to_double_def js_safe_integer_def)
qed

lemma page_number_digits:
  assumes "digits_text v = Some s" "maximum \<le> 1000000"
  shows "page_number maximum v =
    (if 1 \<le> undec s \<and> int (undec s) \<le> maximum then Some (int (undec s)) else None)"
proof (cases "undec s < 2 ^ 53")
  case True
  then have "js_safe_integer (JNum (number_of_string s)) = Some (int (undec s))"
    using number_of_digits [OF digits_text_all_digits [OF assms(1)]] to_double_small [OF True]
    by (simp add: js_safe_integer_def is_safe_integer_def max_safe_integer_def)
  then show ?thesis using assms(1) by (simp add: page_number_def)
next
  case False
  then have "js_safe_integer (JNum (number_of_string s)) = None"
    using number_of_digits [OF digits_text_all_digits [OF assms(1)]] by (simp add: to_double_large)
  moreover have "\<not> int (undec s) \<le> maximum" using False assms(2) by simp
  ultimately show ?thesis using assms(1) by (simp add: page_number_def)
qed

lemma page_number_range: "page_number maximum v = Some n \<Longrightarrow> 1 \<le> n \<and> n \<le> maximum"
  by (auto simp: page_number_def split: option.splits if_splits)

section \<open>Pages\<close>

lemma page_slice_length: "0 < limit \<Longrightarrow> int (length (page_slice page limit rows)) \<le> limit"
proof -
  assume "0 < limit"
  moreover have "length (page_slice page limit rows) \<le> nat limit" by (simp add: page_slice_def)
  ultimately show ?thesis by linarith
qed

lemma concat_slices: "0 < k \<Longrightarrow> length rows \<le> n * k \<Longrightarrow>
  concat (map (\<lambda>i. take k (drop (i * k) rows)) [0..<n]) = rows"
proof (induction n arbitrary: rows)
  case (Suc n)
  have "concat (map (\<lambda>i. take k (drop (i * k) rows)) [0..<Suc n]) =
      take k rows @ concat (map (\<lambda>i. take k (drop (i * k) (drop k rows))) [0..<n])"
  proof -
    have "[0..<Suc n] = 0 # map Suc [0..<n]" by (simp add: map_Suc_upt upt_conv_Cons del: upt_Suc)
    then show ?thesis by (simp add: comp_def add.commute)
  qed
  also have "\<dots> = take k rows @ drop k rows"
    by (subst Suc.IH) (use Suc.prems in auto)
  finally show ?case by simp
qed simp


text \<open>
  \<open>parsePage\<close> of a query text: the empty text gives the fallback; any other text gives a page
  exactly when it consists of digits and denotes a number from 1 to the maximum, and then that
  number, whatever its length (a text beyond the doubles is refused, not rounded).
\<close>

theorem parse_page_text:
  assumes "maximum \<le> 1000000"
  shows "parse_page (JStr s) fallback maximum =
    (if s = [] then Some fallback
     else if all_digits s \<and> 1 \<le> undec s \<and> int (undec s) \<le> maximum then Some (int (undec s))
     else None)"
proof (cases "all_digits s")
  case True
  then show ?thesis
    using page_number_digits [of "JStr s" s maximum] assms
    by (auto simp: parse_page_def all_digits_def)
next
  case False
  then show ?thesis by (auto simp: parse_page_def page_number_def)
qed

lemma parse_page_text_witness:
  "parse_page (JStr ''42'') 1 1000000 = Some 42 \<and> parse_page (JStr ''9007199254740993'') 1 1000000 = None"
proof -
  have "all_digits ''42''" "undec ''42'' = 42" "all_digits ''9007199254740993''"
    "undec ''9007199254740993'' = 9007199254740993"
    by code_simp+
  then show ?thesis using parse_page_text [of 1000000] by simp
qed

text \<open>
  The pages of a result partition it: concatenated from the first to \<open>totalPages\<close> they give
  every row once and in order.
\<close>

theorem pages_partition:
  assumes "0 < limit"
  shows "concat (map (\<lambda>i. page_slice (int i + 1) limit rows) [0..<nat (total_pages (length rows) limit)]) = rows"
proof -
  let ?n = "nat (total_pages (length rows) limit)"
  have slice: "page_slice (int i + 1) limit rows = take (nat limit) (drop (i * nat limit) rows)" for i
    using assms by (simp add: page_slice_def nat_mult_distrib)
  have "int (length rows) \<le> total_pages (length rows) limit * limit"
  proof -
    let ?t = "int (length rows) + limit - 1"
    have "?t = ?t div limit * limit + ?t mod limit" by simp
    moreover have "?t mod limit < limit" using assms by simp
    ultimately show ?thesis unfolding total_pages_def by linarith
  qed
  moreover have "0 \<le> total_pages (length rows) limit"
    using assms by (simp add: total_pages_def pos_imp_zdiv_nonneg_iff)
  ultimately have "int (length rows) \<le> int (?n * nat limit)" using assms by simp
  then have "length rows \<le> ?n * nat limit" by (simp only: of_nat_le_iff)
  then show ?thesis unfolding slice by (intro concat_slices) (use assms in auto)
qed

lemma pages_partition_witness:
  "concat (map (\<lambda>i. page_slice (int i + 1) 2 [1::nat, 2, 3]) [0..<nat (total_pages (length [1::nat, 2, 3]) 2)]) = [1, 2, 3]"
  using pages_partition [of 2 "[1::nat, 2, 3]"] by simp

end
