(* ===== verification/Fixture.thy ===== *)
theory Fixture
  imports Visibility
begin

text \<open>
  A concrete database and concrete primitives at which the properties are evaluated: one product
  that requires signatures, one active version 1.2.3 with a published, signed artifact, and an
  unsigned draft of version 1.3.0. The digest and the signature scheme are small executable
  functions with the documented shape of the real ones.
\<close>

definition toy_digest :: "bytes \<Rightarrow> string" where
  "toy_digest b =
     (let n = foldl (\<lambda>h w. (h * 31 + unat w) mod 65536) 7 b
      in replicate 60 (CHR ''0'') @
         [hex_digit (n div 4096), hex_digit (n div 256 mod 16), hex_digit (n div 16 mod 16), hex_digit (n mod 16)])"

definition toy_sign :: "bytes \<Rightarrow> bytes" where
  "toy_sign data = take 64 (data @ replicate 64 0)"

definition toy_crypto :: crypto where
  "toy_crypto = \<lparr>
     cr_key_type = (\<lambda>pem. if starts_with pem ''-----BEGIN PUBLIC KEY-----'' then Some ''ed25519'' else None),
     cr_spki_pem = (\<lambda>pem. pem),
     cr_spki_der = utf8,
     cr_verify = (\<lambda>pem data sig. sig = toy_sign data),
     cr_md5 = toy_digest, cr_sha1 = toy_digest, cr_sha256 = toy_digest, cr_sha512 = toy_digest \<rparr>"

definition toy_pem :: string where
  "toy_pem = ''-----BEGIN PUBLIC KEY-----K''"

definition toy_key_id :: string where
  "toy_key_id = toy_digest (utf8 toy_pem)"

definition sample_software :: software_row where
  "sample_software = \<lparr> sw_id = ''s1'', sw_name = ''App'', sw_slug = ''app'', sw_is_active = True,
     sw_is_default = True, sw_require_signed = True, sw_created_at = 1 \<rparr>"

definition sample_key :: signing_key_row where
  "sample_key = \<lparr> sk_id = ''k1'', sk_software_id = ''s1'', sk_key_id = toy_key_id,
     sk_public_key = toy_pem, sk_is_active = True, sk_created_at = 1 \<rparr>"

definition sample_version :: version_row where
  "sample_version = \<lparr> ver_id = ''v1'', ver_software_id = ''s1'', ver_major = 1, ver_minor = 2,
     ver_patch = 3, ver_codename = None, ver_changelog = Some ''fix'', ver_release_date = None,
     ver_is_active = True, ver_created_at = 1, ver_deleted_at = None \<rparr>"

definition sample_version2 :: version_row where
  "sample_version2 = sample_version \<lparr> ver_id := ''v2'', ver_minor := 3, ver_patch := 0 \<rparr>"

definition sample_platform :: platform_row where
  "sample_platform = \<lparr> plat_id = ''p1'', plat_name = ''linux'', plat_display_name = ''Linux'', plat_deleted_at = None \<rparr>"

definition sample_architecture :: architecture_row where
  "sample_architecture = \<lparr> arch_id = ''h1'', arch_name = ''x64'', arch_display_name = ''x64'', arch_deleted_at = None \<rparr>"

definition sample_provider :: provider_row where
  "sample_provider = \<lparr> sp_id = ''sp1'', sp_name = ''Local'', sp_type = ''local'',
     sp_config = JObj [(''driver'', JStr ''local''), (''root'', JStr ''/data'')], sp_is_default = True,
     sp_is_active = True, sp_quota_bytes = Some 1000, sp_created_at = 1, sp_deleted_at = None \<rparr>"

definition sample_manifest :: ota_manifest where
  "sample_manifest = \<lparr> mf_software = ''app'', mf_version = ''1.2.3'', mf_codename = None,
     mf_changelog = Some ''fix'', mf_channel = ''stable'', mf_platform = ''linux'',
     mf_architecture = ''x64'', mf_file_name = ''a.zip'', mf_size_bytes = 5,
     mf_sha256 = replicate 64 (CHR ''a'') \<rparr>"

definition sample_signature :: string where
  "sample_signature = base64url (toy_sign (utf8 (json_object (manifest_obj sample_manifest))))"

definition sample_draft :: artifact_row where
  "sample_draft = \<lparr> art_id = ''a2'', art_version_id = ''v2'', art_platform_id = ''p1'',
     art_architecture_id = ''h1'', art_provider_id = ''sp1'', art_file_name = ''b.zip'',
     art_mime_type = None, art_size_bytes = Some 5, art_storage_key = ''artifacts/a2/payload'',
     art_channel = ''stable'', art_download_count = 0, art_is_archived = False,
     art_is_published = False, art_published_at = None,
     art_checksum = Some (replicate 64 (CHR ''a'')), art_md5 = None, art_sha1 = None,
     art_sha256 = Some (replicate 64 (CHR ''a'')), art_sha512 = None, art_signature = None,
     art_signature_key_id = None, art_signature_manifest = None, art_created_at = 2,
     art_deleted_at = None \<rparr>"

definition sample_artifact :: artifact_row where
  "sample_artifact = sample_draft \<lparr> art_id := ''a1'', art_version_id := ''v1'',
     art_file_name := ''a.zip'', art_storage_key := ''artifacts/a1/payload'',
     art_is_published := True, art_published_at := Some 3,
     art_signature := Some sample_signature, art_signature_key_id := Some toy_key_id,
     art_signature_manifest := Some (manifest_obj sample_manifest) \<rparr>"

definition sample_db :: db where
  "sample_db = empty_db \<lparr> software := [sample_software], signing_keys := [sample_key],
     versions := [sample_version, sample_version2], platforms := [sample_platform],
     architectures := [sample_architecture], providers := [sample_provider],
     artifacts := [sample_artifact, sample_draft] \<rparr>"

definition toy_semver :: semver_lib where
  "toy_semver = \<lparr>
     sv_parse = (\<lambda>s. case split_on (CHR ''.'') s of
         [a, b, c] \<Rightarrow> if all_digits a \<and> all_digits b \<and> all_digits c
           then Some \<lparr> sv_core = Core (int (undec a)) (int (undec b)) (int (undec c)), sv_prerelease = [] \<rparr>
           else None
       | _ \<Rightarrow> None),
     sv_valid = (\<lambda>s. case split_on (CHR ''.'') s of
         [a, b, c] \<Rightarrow> all_digits a \<and> all_digits b \<and> all_digits c | _ \<Rightarrow> False),
     sv_gt = (\<lambda>s t. case (split_on (CHR ''.'') s, split_on (CHR ''.'') t) of
         ([a, b, c], [x, y, z]) \<Rightarrow>
           Core (int (undec x)) (int (undec y)) (int (undec z)) < Core (int (undec a)) (int (undec b)) (int (undec c))
       | _ \<Rightarrow> False) \<rparr>"

declare sample_signature_def [code del] toy_key_id_def [code del]

lemmas sample_defs = sample_software_def sample_key_def sample_version_def sample_version2_def
  sample_platform_def sample_architecture_def sample_provider_def sample_draft_def
  sample_artifact_def sample_db_def empty_db_def

lemma sample_tables:
  "software sample_db = [sample_software]" "signing_keys sample_db = [sample_key]"
  "versions sample_db = [sample_version, sample_version2]" "platforms sample_db = [sample_platform]"
  "architectures sample_db = [sample_architecture]" "providers sample_db = [sample_provider]"
  "artifacts sample_db = [sample_artifact, sample_draft]"
  by (simp_all add: sample_db_def empty_db_def)

lemma sample_fields:
  "art_id sample_artifact = ''a1''" "art_version_id sample_artifact = ''v1''"
  "art_platform_id sample_artifact = ''p1''" "art_architecture_id sample_artifact = ''h1''"
  "art_provider_id sample_artifact = ''sp1''" "art_file_name sample_artifact = ''a.zip''"
  "art_size_bytes sample_artifact = Some 5" "art_storage_key sample_artifact = ''artifacts/a1/payload''"
  "art_channel sample_artifact = ''stable''" "art_published_at sample_artifact = Some 3"
  "art_md5 sample_artifact = None" "art_sha1 sample_artifact = None" "art_sha512 sample_artifact = None"
  "art_sha256 sample_artifact = Some (replicate 64 (CHR ''a''))"
  "art_signature sample_artifact = Some sample_signature"
  "art_signature_key_id sample_artifact = Some toy_key_id"
  "art_signature_manifest sample_artifact = Some (manifest_obj sample_manifest)"
  "art_is_published sample_artifact" "\<not> art_is_archived sample_artifact"
  "art_deleted_at sample_artifact = None"
  by (simp_all add: sample_artifact_def sample_draft_def)

lemma sample_rows:
  "ver_id sample_version = ''v1''" "ver_id sample_version2 = ''v2''" "ver_deleted_at sample_version = None"
  "ver_software_id sample_version = ''s1''" "ver_codename sample_version = None"
  "ver_changelog sample_version = Some ''fix''" "ver_is_active sample_version"
  "sw_id sample_software = ''s1''" "plat_id sample_platform = ''p1''" "plat_deleted_at sample_platform = None"
  "arch_id sample_architecture = ''h1''" "arch_deleted_at sample_architecture = None"
  "sp_id sample_provider = ''sp1''" "sp_deleted_at sample_provider = None"
  "sk_software_id sample_key = ''s1''" "sk_key_id sample_key = toy_key_id" "sk_is_active sample_key"
  "sk_public_key sample_key = toy_pem"
  by (simp_all add: sample_version_def sample_version2_def sample_software_def sample_platform_def
      sample_architecture_def sample_provider_def sample_key_def)

lemma toy_digest_hex64: "is_hex64 (toy_digest b)"
proof -
  define n where "n = foldl (\<lambda>h w. (h * 31 + unat w) mod 65536) 7 b"
  have h: "is_hex (hex_digit k)" if "k < 16" for k
    using that by (auto simp: hex_digit_def is_hex_def is_digit_def char_between_def)
  have z: "is_hex (CHR ''0'')" by (simp add: is_hex_def is_digit_def char_between_def)
  have n: "n < 65536"
  proof (cases b rule: rev_cases)
    case (snoc ys y)
    then show ?thesis by (simp add: n_def)
  qed (simp add: n_def)
  then have "n div 4096 < 16" by linarith
  then show ?thesis
    using h z by (simp add: toy_digest_def is_hex64_def Let_def n_def [symmetric] list_all_iff)
qed

lemma toy_crypto_ok: "crypto_ok toy_crypto"
  by (simp add: crypto_ok_def toy_crypto_def toy_digest_hex64)

lemma sample_public: "public_query sample_db None = [sample_artifact]"
  by code_simp

lemma sample_built: "build_ota_release_manifest (load_release sample_db sample_artifact) = Inr sample_manifest"
  by code_simp

lemma length_toy_sign [simp]: "length (toy_sign data) = 64"
  by (simp add: toy_sign_def)

lemma sample_signature_nonempty: "sample_signature \<noteq> []"
proof
  assume "sample_signature = []"
  then have "length sample_signature = 0" by simp
  then show False by (simp add: sample_signature_def length_base64url)
qed

lemma toy_key_id_nonempty: "toy_key_id \<noteq> []"
  by (simp add: toy_key_id_def toy_digest_def Let_def)

lemma sample_envelope:
  "create_ota_signature_envelope (load_release sample_db sample_artifact) =
     Inr (Some \<lparr> env_payload = payload_of sample_manifest, env_signature = sample_signature,
        env_key_id = toy_key_id \<rparr>)"
proof -
  have r: "rel_artifact (load_release sample_db sample_artifact) = sample_artifact"
    by (simp add: load_release_def Let_def)
  have c: "art_signature sample_artifact = Some sample_signature"
    "art_signature_key_id sample_artifact = Some toy_key_id"
    "art_signature_manifest sample_artifact = Some (manifest_obj sample_manifest)"
    by (simp_all add: sample_artifact_def)
  have l: "\<not> list_ex (\<lambda>(field, v). map_of (manifest_obj m) field \<noteq> Some v) (manifest_obj m)" for m
    by (auto simp: list_ex_iff map_of_eq_Some_iff [OF manifest_keys])
  show ?thesis
    using sample_signature_nonempty toy_key_id_nonempty l
    by (simp add: create_ota_signature_envelope_def create_ota_release_payload_def r c sample_built no_text_def)
qed

lemma sample_verified:
  "verify_ota_release_signature toy_crypto (payload_of sample_manifest) (JStr sample_signature) toy_pem"
proof -
  have fits: "manifest_fits sample_manifest" by code_simp
  let ?b = "utf8 (json_object (manifest_obj sample_manifest))"
  have "length (payload_of sample_manifest) \<le> 120000"
    using payload_bytes_bound [OF fits] by (simp add: payload_of_def length_base64url)
  moreover have "?b \<noteq> []" by (rule utf8_nonempty) (simp add: json_object_def)
  moreover have "cr_key_type toy_crypto toy_pem = Some ''ed25519''" by code_simp
  moreover have "cr_verify toy_crypto toy_pem ?b (toy_sign ?b)" by (simp add: toy_crypto_def)
  ultimately show ?thesis
    unfolding verify_iff sample_signature_def payload_of_def using length_toy_sign by blast
qed

lemma envelope_current_witness:
  "\<exists>m snapshot. build_ota_release_manifest (load_release sample_db sample_artifact) = Inr m \<and>
     art_signature_manifest (rel_artifact (load_release sample_db sample_artifact)) = Some snapshot \<and>
     payload_of sample_manifest = payload_of m"
  using envelope_current [OF sample_envelope] by force

lemma split_core_text:
  assumes "core_nonneg c"
  shows "split_on (CHR ''.'') (core_text c) = [dec (nat (major c)), dec (nat (minor c)), dec (nat (patch c))]"
proof -
  have "CHR ''.'' \<notin> set (dec n)" for n
    by (rule dec_no_char) (simp add: is_digit_def char_between_def)
  then show ?thesis
    using assms by (simp add: core_text_def core_nonneg_def int_text_def split_on_append split_on_single)
qed

lemma toy_semver_ok: "semver_ok toy_semver"
proof -
  have "sv_gt toy_semver (core_text c) s \<longleftrightarrow> newer c cur"
    if "sv_parse toy_semver s = Some cur" "core_nonneg c" for s cur c
  proof -
    from that(1) obtain x y z where "split_on (CHR ''.'') s = [x, y, z]"
      "cur = \<lparr> sv_core = Core (int (undec x)) (int (undec y)) (int (undec z)), sv_prerelease = [] \<rparr>"
      by (auto simp: toy_semver_def split: list.splits if_splits)
    then show ?thesis using that(2)
      by (cases c) (simp add: toy_semver_def split_core_text newer_def core_nonneg_def)
  qed
  moreover have "sv_valid toy_semver s \<longleftrightarrow> sv_parse toy_semver s \<noteq> None" for s
    by (auto simp: toy_semver_def split: list.splits)
  ultimately show ?thesis by (simp add: semver_ok_def)
qed

end
