(* ===== verification/Updater.thy ===== *)
theory Updater
  imports Visibility Pagination Fixture "HOL-Library.List_Lexorder"
begin

text \<open>
  \<open>app/services/updater_service.ts\<close> with the lookups of \<open>app/repositories/software_repository.ts\<close>
  it uses: the public update check, the latest release, the pages of releases, and the download
  with its metrics. A parameter of an \<open>integer\<close> column that does not fit 32 bits is refused by
  PostgreSQL with the error 22003; the service lets that error through.
\<close>

definition find_active_by_slug :: "db \<Rightarrow> string \<Rightarrow> software_row option" where
  "find_active_by_slug d slug = List.find (\<lambda>s. sw_slug s = slug \<and> sw_is_active s) (software d)"

definition find_active_default :: "db \<Rightarrow> software_row option" where
  "find_active_default d = List.find (\<lambda>s. sw_is_default s \<and> sw_is_active s) (software d)"

definition resolve_software :: "db \<Rightarrow> string option \<Rightarrow> software_row res" where
  "resolve_software d slug =
     from_option PublicSoftwareNotFoundError
       (case slug of
          None \<Rightarrow> find_active_default d
        | Some s \<Rightarrow> if s = [] then find_active_default d else find_active_by_slug d s)"

definition find_platform :: "db \<Rightarrow> string \<Rightarrow> platform_row option" where
  "find_platform d name = find_by plat_name name (ignore_deleted plat_deleted_at (platforms d))"

definition find_architecture :: "db \<Rightarrow> string \<Rightarrow> architecture_row option" where
  "find_architecture d name = find_by arch_name name (ignore_deleted arch_deleted_at (architectures d))"

text \<open>
  \<open>publicQuery(software.id).join('versions as v', ...)\<close> restricted to one platform, architecture
  and channel: the artifacts with their versions.
\<close>

definition target_rows ::
  "db \<Rightarrow> software_row \<Rightarrow> platform_row \<Rightarrow> architecture_row \<Rightarrow> string \<Rightarrow> (artifact_row \<times> version_row) list" where
  "target_rows d s p h channel =
     [(a, v). a \<leftarrow> public_query d (Some (sw_id s)),
       v \<leftarrow> versions d,
       ver_id v = art_version_id a \<and> art_platform_id a = plat_id p \<and>
       art_architecture_id a = arch_id h \<and> art_channel a = channel]"

definition int4 :: "int \<Rightarrow> bool" where
  "int4 n \<longleftrightarrow> - 2147483648 \<le> n \<and> n \<le> 2147483647"

definition int4_core :: "core_version \<Rightarrow> bool" where
  "int4_core c \<longleftrightarrow> int4 (major c) \<and> int4 (minor c) \<and> int4 (patch c)"

text \<open>The condition of the update check on the columns of the version.\<close>

definition newer_row :: "semver \<Rightarrow> version_row \<Rightarrow> bool" where
  "newer_row cur v \<longleftrightarrow>
     (let c = sv_core cur in
      ver_major v > major c \<or>
      (ver_major v = major c \<and> ver_minor v > minor c) \<or>
      (ver_major v = major c \<and> ver_minor v = minor c \<and> ver_patch v > patch c) \<or>
      (sv_prerelease cur \<noteq> [] \<and> ver_major v = major c \<and> ver_minor v = minor c \<and> ver_patch v = patch c))"

definition newest :: "(artifact_row \<times> version_row) list \<Rightarrow> artifact_row option" where
  "newest rows =
     (case sort_desc (\<lambda>r. core_of (snd r)) rows of [] \<Rightarrow> None | r # _ \<Rightarrow> Some (fst r))"

definition check_for_update ::
  "semver_lib \<Rightarrow> db \<Rightarrow> string \<Rightarrow> string \<Rightarrow> string \<Rightarrow> string \<Rightarrow> string option \<Rightarrow> artifact_row option res" where
  "check_for_update lib d platform arch version channel slug =
     bind_res (from_option (Error ''Invalid semantic version.'') (sv_parse lib version)) (\<lambda>cur.
     bind_res (resolve_software d slug) (\<lambda>s.
     bind_res (from_option UnsupportedReleaseTargetError (find_platform d platform)) (\<lambda>p.
     bind_res (from_option UnsupportedReleaseTargetError (find_architecture d arch)) (\<lambda>h.
     throw_if (\<not> int4_core (sv_core cur)) (Fault ''22003'')
       (Inr (newest (filter (\<lambda>r. newer_row cur (snd r)) (target_rows d s p h channel))))))))"

definition get_latest ::
  "db \<Rightarrow> string \<Rightarrow> string \<Rightarrow> string \<Rightarrow> string option \<Rightarrow> artifact_row option res" where
  "get_latest d platform arch channel slug =
     bind_res (resolve_software d slug) (\<lambda>s.
     case (find_platform d platform, find_architecture d arch) of
       (Some p, Some h) \<Rightarrow> Inr (newest (target_rows d s p h channel))
     | _ \<Rightarrow> Inr None)"

record pagination =
  pg_total :: nat
  pg_page :: int
  pg_limit :: int
  pg_total_pages :: int

definition get_releases ::
  "db \<Rightarrow> string \<Rightarrow> string \<Rightarrow> string \<Rightarrow> int \<Rightarrow> int \<Rightarrow> string option \<Rightarrow> (artifact_row list \<times> pagination) res" where
  "get_releases d platform arch channel limit page slug =
     bind_res (resolve_software d slug) (\<lambda>s.
     case (find_platform d platform, find_architecture d arch) of
       (Some p, Some h) \<Rightarrow>
         (let rows = sort_desc (\<lambda>r. core_of (snd r)) (sort_key (\<lambda>r. art_id (fst r))
                       (target_rows d s p h channel));
              total = length rows
          in Inr (map fst (page_slice page limit rows),
                  \<lparr> pg_total = total, pg_page = page, pg_limit = limit,
                    pg_total_pages = total_pages total limit \<rparr>))
     | _ \<Rightarrow> Inl (Error ''Platform or architecture not supported.''))"

section \<open>Downloads\<close>

text \<open>
  \<open>StorageManager.resolve(provider).getStream(key)\<close> and \<open>isIP\<close> are parameters; \<open>record_ok\<close> says
  whether the metrics transaction succeeds, its failure is only logged.
\<close>

definition record_metrics ::
  "(string \<Rightarrow> bool) \<Rightarrow> int \<Rightarrow> string \<Rightarrow> artifact_row \<Rightarrow> string \<Rightarrow> string option \<Rightarrow> db \<Rightarrow> db" where
  "record_metrics is_ip now hid a ip agent d =
     d\<lparr> artifacts := modify_by art_id (art_id a)
            (\<lambda>r. r\<lparr>art_download_count := art_download_count r + 1\<rparr>) (artifacts d),
        histories := histories d @
          [\<lparr> dh_id = hid, dh_artifact_id = art_id a,
             dh_ip_address = (if is_ip ip then Some (take 50 ip) else None),
             dh_user_agent = (case agent of None \<Rightarrow> None
                | Some s \<Rightarrow> if take 2048 s = [] then None else Some (take 2048 s)),
             dh_created_at = now, dh_deleted_at = None \<rparr>] \<rparr>"

definition record_and_stream ::
  "(provider_row \<Rightarrow> string \<Rightarrow> 'stream res) \<Rightarrow> (string \<Rightarrow> bool) \<Rightarrow> bool \<Rightarrow> int \<Rightarrow> string \<Rightarrow>
   db \<Rightarrow> string \<Rightarrow> string \<Rightarrow> string option \<Rightarrow> string option \<Rightarrow> ((artifact_row \<times> 'stream) \<times> db) res" where
  "record_and_stream get_stream is_ip record_ok now hid d artifact_id ip agent slug =
     bind_res (resolve_software d slug) (\<lambda>s.
     bind_res (from_option PublicArtifactNotFoundError
                (find_public_by_id d artifact_id (Some (sw_id s)))) (\<lambda>a.
     bind_res (from_option ArtifactStorageError
                (find_by sp_id (art_provider_id a) (ignore_deleted sp_deleted_at (providers d)))) (\<lambda>sp.
     case get_stream sp (art_storage_key a) of
       Inl e \<Rightarrow> Inl ArtifactStorageError
     | Inr stream \<Rightarrow>
         Inr ((a, stream), if record_ok then record_metrics is_ip now hid a ip agent d else d))))"

section \<open>What the queries return\<close>

named_theorems updater_simps "the services of the updater, inverted"

lemma find_Some_unfold: "List.find P xs = Some x \<Longrightarrow> P x \<and> x \<in> set xs"
  by (auto dest: find_Some_mem)

lemma resolve_software_Inr:
  assumes "resolve_software d slug = Inr s"
  shows "s \<in> set (software d)" "sw_is_active s"
    "sw_is_default s \<or> slug = Some (sw_slug s)"
  using assms
  by (auto simp: resolve_software_def res_simps find_active_default_def find_active_by_slug_def
      dest!: find_Some_unfold split: option.splits if_splits)

lemma newer_row_newer: "newer_row cur v \<longleftrightarrow> newer (core_of v) cur"
  by (cases "sv_core cur")
    (auto simp: newer_row_def newer_def core_of_def less_core_version_def Let_def)

lemma target_rows_mem:
  "(a, v) \<in> set (target_rows d s p h channel) \<longleftrightarrow>
     a \<in> set (artifacts d) \<and> public_artifact d (Some (sw_id s)) a \<and> v \<in> set (versions d) \<and>
     ver_id v = art_version_id a \<and> art_platform_id a = plat_id p \<and>
     art_architecture_id a = arch_id h \<and> art_channel a = channel"
  by (auto simp: target_rows_def)

lemma newest_Some:
  assumes "newest rows = Some a"
  shows "\<exists>v. (a, v) \<in> set rows \<and> (\<forall>b w. (b, w) \<in> set rows \<longrightarrow> core_of w \<le> core_of v)"
proof -
  from assms obtain v rest where s: "sort_desc (\<lambda>r. core_of (snd r)) rows = (a, v) # rest"
    by (auto simp: newest_def split: list.splits)
  show ?thesis
    using sort_desc_hd(1) [OF s] sort_desc_hd(2) [OF s] by (intro exI [of _ v]) force
qed

lemma newest_None: "newest rows = None \<longleftrightarrow> rows = []"
proof
  assume "newest rows = None"
  then have "sort_desc (\<lambda>r. core_of (snd r)) rows = []" by (auto simp: newest_def split: list.splits)
  then show "rows = []" by simp
qed (simp add: newest_def sort_desc_def)

lemma find_platform_Some:
  "find_platform d name = Some p \<Longrightarrow> p \<in> set (platforms d) \<and> plat_name p = name \<and> plat_deleted_at p = None"
  by (auto simp: find_platform_def row_simps dest: find_by_Some)

lemma find_architecture_Some:
  "find_architecture d name = Some h \<Longrightarrow>
     h \<in> set (architectures d) \<and> arch_name h = name \<and> arch_deleted_at h = None"
  by (auto simp: find_architecture_def row_simps dest: find_by_Some)

lemma check_for_update_Inr [updater_simps]:
  "check_for_update lib d platform arch version channel slug = Inr r \<longleftrightarrow>
     (\<exists>cur s p h. sv_parse lib version = Some cur \<and> resolve_software d slug = Inr s \<and>
        find_platform d platform = Some p \<and> find_architecture d arch = Some h \<and>
        int4_core (sv_core cur) \<and>
        r = newest (filter (\<lambda>r. newer_row cur (snd r)) (target_rows d s p h channel)))"
  by (auto simp: check_for_update_def res_simps)

lemma public_version_unique:
  assumes "db_ok d" "v \<in> set (versions d)" "w \<in> set (versions d)" "ver_id v = ver_id w"
  shows "v = w"
  using assms by (auto simp: db_ok_def version_constraints_def unique_on_total dest: distinct_map_inj)

lemma software_unique:
  assumes "db_ok d" "s \<in> set (software d)" "t \<in> set (software d)" "sw_id s = sw_id t"
  shows "s = t"
  using assms by (auto simp: db_ok_def software_constraints_def unique_on_total dest: distinct_map_inj)

lemma target_row_version:
  assumes "db_ok d" "(a, v) \<in> set (target_rows d s p h channel)"
  shows "ver_is_active v" "ver_deleted_at v = None"
proof -
  from assms(2) have "public_artifact d (Some (sw_id s)) a" "v \<in> set (versions d)" "ver_id v = art_version_id a"
    by (auto simp: target_rows_mem)
  then obtain w where "w \<in> set (versions d)" "ver_id w = art_version_id a" "ver_deleted_at w = None"
    "ver_is_active w" by (elim public_artifact_obtain) blast
  then have "v = w" using public_version_unique [OF assms(1)] \<open>v \<in> _\<close> \<open>ver_id v = _\<close> by metis
  then show "ver_is_active v" "ver_deleted_at v = None"
    using \<open>ver_is_active w\<close> \<open>ver_deleted_at w = None\<close> by simp_all
qed

section \<open>Properties\<close>

text \<open>The releases a client of one target may be offered.\<close>

definition offered :: "db \<Rightarrow> software_row \<Rightarrow> string \<Rightarrow> string \<Rightarrow> string \<Rightarrow> artifact_row \<Rightarrow> version_row \<Rightarrow> bool" where
  "offered d s platform arch channel a v \<longleftrightarrow>
     a \<in> set (artifacts d) \<and> public_artifact d (Some (sw_id s)) a \<and> v \<in> set (versions d) \<and>
     ver_id v = art_version_id a \<and> art_channel a = channel \<and>
     (\<exists>p\<in>set (platforms d). plat_id p = art_platform_id a \<and> plat_name p = platform) \<and>
     (\<exists>h\<in>set (architectures d). arch_id h = art_architecture_id a \<and> arch_name h = arch)"

lemma platform_unique:
  assumes "db_ok d" "p \<in> set (platforms d)" "q \<in> set (platforms d)" "plat_name p = plat_name q"
  shows "p = q"
  using assms by (auto simp: db_ok_def platform_constraints_def unique_on_total dest: distinct_map_inj)

lemma architecture_unique:
  assumes "db_ok d" "p \<in> set (architectures d)" "q \<in> set (architectures d)" "arch_name p = arch_name q"
  shows "p = q"
  using assms by (auto simp: db_ok_def architecture_constraints_def unique_on_total dest: distinct_map_inj)

lemma target_rows_offered:
  assumes "db_ok d" "find_platform d platform = Some p" "find_architecture d arch = Some h"
  shows "(a, v) \<in> set (target_rows d s p h channel) \<longleftrightarrow> offered d s platform arch channel a v"
proof -
  have "(\<exists>q\<in>set (platforms d). plat_id q = i \<and> plat_name q = platform) \<longleftrightarrow> i = plat_id p" for i
    using find_platform_Some [OF assms(2)] platform_unique [OF assms(1)] by metis
  moreover have "(\<exists>q\<in>set (architectures d). arch_id q = i \<and> arch_name q = arch) \<longleftrightarrow> i = arch_id h" for i
    using find_architecture_Some [OF assms(3)] architecture_unique [OF assms(1)] by metis
  ultimately show ?thesis unfolding target_rows_mem offered_def by blast
qed

text \<open>
  C9. The update check of a supported target answers with the newest release the client may be
  offered among those newer than its version, by the precedence of semantic versions in which a
  stable release is newer than a pre-release of its own core, and with nothing exactly when no
  offered release is newer.
\<close>

theorem check_for_update_correct:
  assumes "db_ok d" "sv_parse lib version = Some cur" "resolve_software d slug = Inr s"
    and "find_platform d platform = Some p" "find_architecture d arch = Some h" "int4_core (sv_core cur)"
  shows "\<exists>r. check_for_update lib d platform arch version channel slug = Inr r \<and>
     (case r of
        None \<Rightarrow> \<forall>a v. offered d s platform arch channel a v \<longrightarrow> \<not> newer (core_of v) cur
      | Some a \<Rightarrow> \<exists>v. offered d s platform arch channel a v \<and> newer (core_of v) cur \<and>
          (\<forall>b w. offered d s platform arch channel b w \<longrightarrow> core_of w \<le> core_of v))"
proof -
  let ?rows = "filter (\<lambda>r. newer_row cur (snd r)) (target_rows d s p h channel)"
  have rows: "(a, v) \<in> set ?rows \<longleftrightarrow> offered d s platform arch channel a v \<and> newer (core_of v) cur" for a v
    using target_rows_offered [OF assms(1,4,5)] by (auto simp: newer_row_newer)
  have up: "newer (core_of w) cur" if "core_of v < core_of w" "newer (core_of v) cur" for v w
    using that by (auto simp: newer_def)
  have "check_for_update lib d platform arch version channel slug = Inr (newest ?rows)"
    using assms by (simp add: check_for_update_def)
  moreover have "case newest ?rows of
        None \<Rightarrow> \<forall>a v. offered d s platform arch channel a v \<longrightarrow> \<not> newer (core_of v) cur
      | Some a \<Rightarrow> \<exists>v. offered d s platform arch channel a v \<and> newer (core_of v) cur \<and>
          (\<forall>b w. offered d s platform arch channel b w \<longrightarrow> core_of w \<le> core_of v)"
  proof (cases "newest ?rows")
    case None
    then have "set ?rows = {}" by (simp add: newest_None)
    then show ?thesis using None rows by auto
  next
    case (Some a)
    from newest_Some [OF this] obtain v where v: "(a, v) \<in> set ?rows"
      "\<And>b w. (b, w) \<in> set ?rows \<Longrightarrow> core_of w \<le> core_of v"
      by blast
    have "core_of w \<le> core_of v" if "offered d s platform arch channel b w" for b w
      using v(2) [of b w] that rows [of b w] rows [of a v] v(1) up [of v w] by force
    then show ?thesis using Some v(1) rows [of a v] by auto
  qed
  ultimately show ?thesis by blast
qed

lemma sample_db_ok: "db_ok sample_db"
  by code_simp

lemma sample_offered: "offered sample_db sample_software ''linux'' ''x64'' ''stable'' sample_artifact sample_version"
proof -
  have "public_artifact sample_db (Some (sw_id sample_software)) sample_artifact" by code_simp
  then show ?thesis by (simp add: offered_def) (simp add: sample_defs)
qed

lemma check_for_update_correct_witness:
  "\<exists>r. check_for_update toy_semver sample_db ''linux'' ''x64'' ''1.2.2'' ''stable'' None = Inr r \<and> r \<noteq> None"
proof -
  have "sv_parse toy_semver ''1.2.2'' = Some \<lparr> sv_core = Core 1 2 2, sv_prerelease = [] \<rparr>" by code_simp
  moreover have "resolve_software sample_db None = Inr sample_software" by code_simp
  moreover have "find_platform sample_db ''linux'' = Some sample_platform" by code_simp
  moreover have "find_architecture sample_db ''x64'' = Some sample_architecture" by code_simp
  moreover have "int4_core (sv_core \<lparr> sv_core = Core 1 2 2, sv_prerelease = [] \<rparr>)" by code_simp
  ultimately obtain r where r: "check_for_update toy_semver sample_db ''linux'' ''x64'' ''1.2.2'' ''stable'' None = Inr r"
    "r = None \<longrightarrow> (\<forall>a v. offered sample_db sample_software ''linux'' ''x64'' ''stable'' a v \<longrightarrow>
       \<not> newer (core_of v) \<lparr> sv_core = Core 1 2 2, sv_prerelease = [] \<rparr>)"
    using check_for_update_correct [OF sample_db_ok, of toy_semver "''1.2.2''" _ None sample_software
      "''linux''" sample_platform "''x64''" sample_architecture "''stable''"] by fastforce
  have "offered sample_db sample_software ''linux'' ''x64'' ''stable'' sample_artifact sample_version"
    by (rule sample_offered)
  moreover have "newer (core_of sample_version) \<lparr> sv_core = Core 1 2 2, sv_prerelease = [] \<rparr>" by code_simp
  ultimately show ?thesis using r by blast
qed

end
