(* ===== verification/Updater_Api.thy ===== *)
theory Updater_Api
  imports Updater Download_Headers
begin

text \<open>
  \<open>app/controllers/api/updater_controller.ts\<close>: the public endpoints. A request is its input object
  and the route parameter \<open>slug\<close>; a response is a value of \<open>api_response\<close>; an error the handler
  does not catch is the left side of the result. \<open>url\<close> stands for \<open>new URL(path, appUrl)\<close>.
\<close>

section \<open>Input\<close>

definition release_channels :: "string list" where
  "release_channels = [''dev'', ''staging'', ''beta'', ''stable'']"

definition read_text :: "jsval \<Rightarrow> bool \<Rightarrow> jsval" where
  "read_text v required =
     (case v of
        JStr s \<Rightarrow>
          (let t = trim s in
           if t = [] \<and> required then JNull
           else if length t > 100 then JNull
           else if t = [] then JUndef else JStr t)
      | _ \<Rightarrow> if required then JNull else JUndef)"

definition target_name :: "string \<Rightarrow> bool" where
  "target_name s \<longleftrightarrow> s \<noteq> [] \<and> list_all (\<lambda>c. is_alnum c \<or> c = CHR ''_'' \<or> c = CHR ''-'') s"

text \<open>\<open>request.input(key)\<close> and \<open>request.input(key, default)\<close>\<close>

type_synonym request_input = "(string \<times> jsval) list"

definition input_or :: "request_input \<Rightarrow> string \<Rightarrow> jsval \<Rightarrow> jsval" where
  "input_or inp k v = (if js_prop inp k = JUndef then v else js_prop inp k)"

record release_context =
  rc_platform :: string
  rc_arch :: string
  rc_channel :: string

definition release_context :: "request_input \<Rightarrow> release_context option" where
  "release_context inp =
     (case (read_text (js_prop inp ''platform'') True, read_text (js_prop inp ''arch'') True,
            read_text (input_or inp ''channel'' (JStr ''stable'')) True) of
        (JStr p, JStr a, JStr c) \<Rightarrow>
          if target_name p \<and> target_name a \<and> c \<in> set release_channels
          then Some \<lparr> rc_platform = p, rc_arch = a, rc_channel = c \<rparr> else None
      | _ \<Rightarrow> None)"

definition download_path :: "string \<Rightarrow> string option \<Rightarrow> string" where
  "download_path i slug =
     (case slug of
        None \<Rightarrow> ''/api/download/'' @ i
      | Some s \<Rightarrow> if s = [] then ''/api/download/'' @ i
          else ''/api/software/'' @ the (encode_uri_component (map of_char s)) @ ''/download/'' @ i)"

section \<open>Responses\<close>

record update_body =
  ub_version :: string
  ub_codename :: "string option"
  ub_changelog :: "string option"
  ub_channel :: string
  ub_download_url :: string
  ub_md5 :: "string option"
  ub_sha1 :: "string option"
  ub_sha256 :: "string option"
  ub_sha512 :: "string option"
  ub_size_bytes :: "int option"
  ub_published_at :: "int option"
  ub_signed_manifest :: "ota_envelope option"

record release_body =
  rb_id :: string
  rb_version :: string
  rb_codename :: "string option"
  rb_changelog :: "string option"
  rb_platform :: string
  rb_arch :: string
  rb_channel :: string
  rb_file_name :: string
  rb_size_bytes :: "int option"
  rb_checksum :: "string option"
  rb_published_at :: "int option"
  rb_download_url :: string
  rb_signed_manifest :: "ota_envelope option"

record 'stream file_response =
  fr_content_type :: string
  fr_nosniff :: string
  fr_disposition :: string
  fr_content_length :: "string option"
  fr_stream :: 'stream

datatype 'stream api_response =
    Api_Error nat string
  | No_Content
  | Update_Found update_body
  | Latest_Release release_body bool
  | Release_Page "release_body list" pagination
  | File_Response "'stream file_response"

abbreviation type_error :: exn where
  "type_error \<equiv> Fault ''TypeError''"

definition update_body_of :: "(string \<Rightarrow> string) \<Rightarrow> db \<Rightarrow> string option \<Rightarrow> artifact_row \<Rightarrow> update_body res" where
  "update_body_of url d slug a =
     (let r = load_release d a in
      bind_res (from_option type_error (rel_version r)) (\<lambda>v.
      bind_res (create_ota_signature_envelope r) (\<lambda>env.
      Inr \<lparr> ub_version = version_text v, ub_codename = ver_codename v, ub_changelog = ver_changelog v,
            ub_channel = art_channel a, ub_download_url = url (download_path (art_id a) slug),
            ub_md5 = art_md5 a, ub_sha1 = art_sha1 a, ub_sha256 = art_sha256 a, ub_sha512 = art_sha512 a,
            ub_size_bytes = art_size_bytes a, ub_published_at = art_published_at a,
            ub_signed_manifest = env \<rparr>)))"

definition release_body_of :: "(string \<Rightarrow> string) \<Rightarrow> db \<Rightarrow> string option \<Rightarrow> artifact_row \<Rightarrow> release_body res" where
  "release_body_of url d slug a =
     (let r = load_release d a in
      bind_res (from_option type_error (rel_version r)) (\<lambda>v.
      bind_res (from_option type_error (rel_platform r)) (\<lambda>p.
      bind_res (from_option type_error (rel_architecture r)) (\<lambda>h.
      bind_res (create_ota_signature_envelope r) (\<lambda>env.
      Inr \<lparr> rb_id = art_id a, rb_version = version_text v, rb_codename = ver_codename v,
            rb_changelog = ver_changelog v, rb_platform = plat_name p, rb_arch = arch_name h,
            rb_channel = art_channel a, rb_file_name = art_file_name a,
            rb_size_bytes = art_size_bytes a, rb_checksum = art_checksum a,
            rb_published_at = art_published_at a,
            rb_download_url = url (download_path (art_id a) slug), rb_signed_manifest = env \<rparr>)))))"

fun map_res :: "('a \<Rightarrow> 'b res) \<Rightarrow> 'a list \<Rightarrow> 'b list res" where
  "map_res f [] = Inr []"
| "map_res f (x # xs) = bind_res (f x) (\<lambda>y. bind_res (map_res f xs) (\<lambda>ys. Inr (y # ys)))"

section \<open>Handlers\<close>

definition api_check ::
  "semver_lib \<Rightarrow> (string \<Rightarrow> string) \<Rightarrow> db \<Rightarrow> request_input \<Rightarrow> string option \<Rightarrow> 'stream api_response res" where
  "api_check lib url d inp slug =
     (case (release_context inp, read_text (js_prop inp ''version'') True) of
        (Some c, JStr version) \<Rightarrow>
          if \<not> sv_valid lib version
          then Inr (Api_Error 400 ''Invalid platform, arch, channel, or version.'')
          else
            (case bind_res (check_for_update lib d (rc_platform c) (rc_arch c) version (rc_channel c) slug)
                (\<lambda>r. case r of
                   None \<Rightarrow> Inr No_Content
                 | Some a \<Rightarrow> bind_res (update_body_of url d slug a) (\<lambda>b. Inr (Update_Found b))) of
               Inl UnsupportedReleaseTargetError \<Rightarrow>
                 Inr (Api_Error 404 ''Platform or architecture not supported.'')
             | Inl PublicSoftwareNotFoundError \<Rightarrow> Inr (Api_Error 404 ''Software not found.'')
             | r \<Rightarrow> r)
      | _ \<Rightarrow> Inr (Api_Error 400 ''Invalid platform, arch, channel, or version.''))"

definition api_latest ::
  "semver_lib \<Rightarrow> (string \<Rightarrow> string) \<Rightarrow> db \<Rightarrow> request_input \<Rightarrow> string option \<Rightarrow> 'stream api_response res" where
  "api_latest lib url d inp slug =
     (let raw = js_prop inp ''currentVersion'';
          given = (raw \<noteq> JUndef \<and> raw \<noteq> JStr []);
          current = (if given then read_text raw False else JUndef);
          bad = Inr (Api_Error 400 ''Invalid platform, arch, channel, or currentVersion.'')
      in case release_context inp of
           None \<Rightarrow> bad
         | Some c \<Rightarrow>
             if given \<and> (case current of JStr s \<Rightarrow> \<not> sv_valid lib s | _ \<Rightarrow> True) then bad
             else
               (case get_latest d (rc_platform c) (rc_arch c) (rc_channel c) slug of
                  Inl PublicSoftwareNotFoundError \<Rightarrow> Inr (Api_Error 404 ''Software not found.'')
                | Inl e \<Rightarrow> Inl e
                | Inr None \<Rightarrow> Inr (Api_Error 404 ''No releases found for the specified platform context.'')
                | Inr (Some a) \<Rightarrow>
                    bind_res (release_body_of url d slug a) (\<lambda>b.
                      Inr (Latest_Release b
                        (case current of JStr s \<Rightarrow> sv_gt lib (rb_version b) s | _ \<Rightarrow> True)))))"

definition api_releases ::
  "(string \<Rightarrow> string) \<Rightarrow> db \<Rightarrow> request_input \<Rightarrow> string option \<Rightarrow> 'stream api_response res" where
  "api_releases url d inp slug =
     (case (release_context inp, positive_integer (js_prop inp ''page'') 1 1000000,
            positive_integer (js_prop inp ''limit'') 20 100) of
        (Some c, Some page, Some limit) \<Rightarrow>
          (case bind_res (get_releases d (rc_platform c) (rc_arch c) (rc_channel c) limit page slug)
              (\<lambda>(results, pg).
                 if results = []
                 then Inr (Api_Error 404 ''No releases found for the specified platform context.'')
                 else bind_res (map_res (release_body_of url d slug) results) (\<lambda>bs. Inr (Release_Page bs pg))) of
             Inl UnsupportedReleaseTargetError \<Rightarrow>
               Inr (Api_Error 404 ''Platform or architecture not supported.'')
           | Inl PublicSoftwareNotFoundError \<Rightarrow> Inr (Api_Error 404 ''Software not found.'')
           | r \<Rightarrow> r)
      | _ \<Rightarrow> Inr (Api_Error 400 ''Invalid platform, arch, channel, page, or limit.''))"

definition api_download ::
  "(provider_row \<Rightarrow> string \<Rightarrow> 'stream res) \<Rightarrow> (string \<Rightarrow> bool) \<Rightarrow> bool \<Rightarrow> int \<Rightarrow> string \<Rightarrow>
   db \<Rightarrow> string \<Rightarrow> string \<Rightarrow> string option \<Rightarrow> string option \<Rightarrow> ('stream api_response \<times> db) res" where
  "api_download get_stream is_ip record_ok now hid d artifact_id ip agent slug =
     (if \<not> is_uuid artifact_id then Inr (Api_Error 404 ''Artifact not found.'', d)
      else
        (case record_and_stream get_stream is_ip record_ok now hid d artifact_id ip agent slug of
           Inr ((a, stream), d') \<Rightarrow>
             bind_res (from_option (Fault ''URIError'') (attachment_disposition (map of_char (art_file_name a))))
               (\<lambda>disposition.
                  Inr (File_Response \<lparr> fr_content_type = ''application/octet-stream'', fr_nosniff = ''nosniff'',
                         fr_disposition = disposition,
                         fr_content_length = map_option int_text (art_size_bytes a),
                         fr_stream = stream \<rparr>, d'))
         | Inl PublicArtifactNotFoundError \<Rightarrow> Inr (Api_Error 404 ''Artifact not found.'', d)
         | Inl PublicSoftwareNotFoundError \<Rightarrow> Inr (Api_Error 404 ''Software not found.'', d)
         | Inl ArtifactStorageError \<Rightarrow>
             Inr (Api_Error 503 ''Artifact storage is temporarily unavailable.'', d)
         | Inl e \<Rightarrow> Inl e))"

section \<open>Properties\<close>

lemma version_text_core: "version_text v = core_text (core_of v)"
  by (simp add: version_text_def core_text_def core_of_def)

lemma release_context_Some:
  "release_context inp = Some c \<Longrightarrow>
     target_name (rc_platform c) \<and> target_name (rc_arch c) \<and> rc_channel c \<in> set release_channels"
  by (auto simp: release_context_def split: jsval.splits if_splits)

lemma load_release_version:
  assumes "db_ok d" "rel_version (load_release d a) = Some w" "v \<in> set (versions d)" "ver_id v = art_version_id a"
  shows "w = v"
proof -
  have "w \<in> set (versions d) \<and> ver_id w = art_version_id a"
    using assms(2) by (auto simp: load_release_def Let_def row_simps dest!: find_by_Some)
  then show ?thesis using public_version_unique [OF assms(1)] assms(3,4) by metis
qed

lemma newest_target:
  assumes "db_ok d" "find_platform d platform = Some p" "find_architecture d arch = Some h"
    and "newest (filter P (target_rows d s p h channel)) = Some a"
  shows "\<exists>v. offered d s platform arch channel a v \<and> P (a, v) \<and>
    (\<forall>b w. offered d s platform arch channel b w \<longrightarrow> P (b, w) \<longrightarrow> core_of w \<le> core_of v)"
proof -
  from newest_Some [OF assms(4)] obtain v where v: "(a, v) \<in> set (target_rows d s p h channel)" "P (a, v)"
    "\<And>b w. (b, w) \<in> set (target_rows d s p h channel) \<Longrightarrow> P (b, w) \<Longrightarrow> core_of w \<le> core_of v"
    by auto
  then show ?thesis unfolding target_rows_offered [OF assms(1-3)] by blast
qed

lemma announced_release:
  assumes "db_ok d" "api_check lib url d inp slug = Inr (Update_Found b)"
  obtains c version cur s a v where "release_context inp = Some c"
    "read_text (js_prop inp ''version'') True = JStr version" "sv_parse lib version = Some cur"
    "resolve_software d slug = Inr s" "offered d s (rc_platform c) (rc_arch c) (rc_channel c) a v"
    "ub_download_url b = url (download_path (art_id a) slug)"
    "create_ota_signature_envelope (load_release d a) = Inr (ub_signed_manifest b)"
    "newer (core_of v) cur"
    "\<forall>a' w. offered d s (rc_platform c) (rc_arch c) (rc_channel c) a' w \<longrightarrow> core_of w \<le> core_of v"
    "ub_version b = core_text (core_of v)" "ub_channel b = rc_channel c"
proof -
  from assms(2) obtain c version a where
      c: "release_context inp = Some c" and version: "read_text (js_prop inp ''version'') True = JStr version"
    and chk: "check_for_update lib d (rc_platform c) (rc_arch c) version (rc_channel c) slug = Inr (Some a)"
    and body: "update_body_of url d slug a = Inr b"
    by (auto simp: api_check_def res_simps split: option.splits jsval.splits if_splits sum.splits exn.splits)
  from chk obtain cur s p h where cur: "sv_parse lib version = Some cur" "resolve_software d slug = Inr s"
    and ph: "find_platform d (rc_platform c) = Some p" "find_architecture d (rc_arch c) = Some h"
    and new: "newest (filter (\<lambda>r. newer_row cur (snd r)) (target_rows d s p h (rc_channel c))) = Some a"
    by (auto simp: updater_simps)
  obtain v where v: "offered d s (rc_platform c) (rc_arch c) (rc_channel c) a v" "newer (core_of v) cur"
    "\<And>a' w. offered d s (rc_platform c) (rc_arch c) (rc_channel c) a' w \<Longrightarrow> newer (core_of w) cur \<Longrightarrow>
       core_of w \<le> core_of v"
    using newest_target [OF assms(1) ph new] by (auto simp: newer_row_newer)
  have max: "core_of w \<le> core_of v"
    if o: "offered d s (rc_platform c) (rc_arch c) (rc_channel c) a' w" for a' w
  proof (rule ccontr)
    assume n: "\<not> core_of w \<le> core_of v"
    then have "newer (core_of w) cur" using v(2) by (auto simp: newer_def)
    then show False using v(3) [OF o] n by simp
  qed
  from body obtain w where w: "rel_version (load_release d a) = Some w" "ub_version b = version_text w"
    "ub_channel b = art_channel a" "ub_download_url b = url (download_path (art_id a) slug)"
    "create_ota_signature_envelope (load_release d a) = Inr (ub_signed_manifest b)"
    by (auto simp: update_body_of_def Let_def res_simps)
  have "w = v" using load_release_version [OF assms(1) w(1)] v(1) by (auto simp: offered_def)
  moreover have "art_channel a = rc_channel c" using v(1) by (simp add: offered_def)
  ultimately show thesis using c version cur v(1,2) max w by (intro that [of c version cur s a v]) (auto simp: version_text_core)
qed

text \<open>
  Whatever update the endpoint announces is published for the requested platform, architecture
  and channel, belongs to the resolved product, is newer than the version the client named, and is
  the newest such release; the announced version text is that of the release.
\<close>

theorem api_check_sound:
  assumes "db_ok d" "api_check lib url d inp slug = Inr (Update_Found b)"
  shows "\<exists>c version cur s a v. release_context inp = Some c \<and>
     read_text (js_prop inp ''version'') True = JStr version \<and> sv_parse lib version = Some cur \<and>
     resolve_software d slug = Inr s \<and>
     offered d s (rc_platform c) (rc_arch c) (rc_channel c) a v \<and> newer (core_of v) cur \<and>
     (\<forall>a' w. offered d s (rc_platform c) (rc_arch c) (rc_channel c) a' w \<longrightarrow> core_of w \<le> core_of v) \<and>
     ub_version b = core_text (core_of v) \<and> ub_channel b = rc_channel c \<and>
     ub_download_url b = url (download_path (art_id a) slug) \<and>
     create_ota_signature_envelope (load_release d a) = Inr (ub_signed_manifest b)"
  by (rule announced_release [OF assms]) (intro exI conjI)

lemma sample_release: "load_release sample_db sample_artifact =
   \<lparr> rel_artifact = sample_artifact, rel_version = Some sample_version, rel_software = Some sample_software,
     rel_platform = Some sample_platform, rel_architecture = Some sample_architecture \<rparr>"
  by (simp add: load_release_def Let_def find_by_def ignore_deleted_def sample_tables sample_fields sample_rows)

definition sample_request :: request_input where
  "sample_request = [(''platform'', JStr ''linux''), (''arch'', JStr ''x64''), (''version'', JStr ''1.2.2'')]"

lemma sample_public_app: "public_query sample_db (Some ''s1'') = [sample_artifact]"
  by code_simp

lemma sample_targets: "target_rows sample_db sample_software sample_platform sample_architecture ''stable'' =
   [(sample_artifact, sample_version)]"
  by (simp add: target_rows_def sample_rows sample_fields sample_tables sample_public_app)

lemma sample_check:
  "check_for_update toy_semver sample_db ''linux'' ''x64'' ''1.2.2'' ''stable'' None = Inr (Some sample_artifact)"
proof -
  have "sv_parse toy_semver ''1.2.2'' = Some \<lparr> sv_core = Core 1 2 2, sv_prerelease = [] \<rparr>" by code_simp
  moreover have "resolve_software sample_db None = Inr sample_software" by code_simp
  moreover have "find_platform sample_db ''linux'' = Some sample_platform" by code_simp
  moreover have "find_architecture sample_db ''x64'' = Some sample_architecture" by code_simp
  moreover have "int4_core (Core 1 2 2)" by code_simp
  moreover have "newer_row \<lparr> sv_core = Core 1 2 2, sv_prerelease = [] \<rparr> sample_version" by code_simp
  ultimately show ?thesis
    by (simp add: check_for_update_def sample_targets) (simp add: newest_def sort_desc_def)
qed

lemma sample_api_check:
  "api_check toy_semver (\<lambda>p. p) sample_db sample_request None = Inr (Update_Found
     \<lparr> ub_version = version_text sample_version, ub_codename = None, ub_changelog = Some ''fix'',
       ub_channel = ''stable'', ub_download_url = ''/api/download/a1'', ub_md5 = None, ub_sha1 = None,
       ub_sha256 = Some (replicate 64 (CHR ''a'')), ub_sha512 = None, ub_size_bytes = Some 5,
       ub_published_at = Some 3,
       ub_signed_manifest = Some \<lparr> env_payload = payload_of sample_manifest, env_signature = sample_signature,
         env_key_id = toy_key_id \<rparr> \<rparr>)"
proof -
  have "release_context sample_request =
      Some \<lparr> rc_platform = ''linux'', rc_arch = ''x64'', rc_channel = ''stable'' \<rparr>"
    by code_simp
  moreover have "read_text (js_prop sample_request ''version'') True = JStr ''1.2.2''" by code_simp
  moreover have "sv_valid toy_semver ''1.2.2''" by code_simp
  moreover have "update_body_of (\<lambda>p. p) sample_db None sample_artifact = Inr
      \<lparr> ub_version = version_text sample_version, ub_codename = None, ub_changelog = Some ''fix'',
       ub_channel = ''stable'', ub_download_url = ''/api/download/a1'', ub_md5 = None, ub_sha1 = None,
       ub_sha256 = Some (replicate 64 (CHR ''a'')), ub_sha512 = None, ub_size_bytes = Some 5,
       ub_published_at = Some 3,
       ub_signed_manifest = Some \<lparr> env_payload = payload_of sample_manifest, env_signature = sample_signature,
         env_key_id = toy_key_id \<rparr> \<rparr>"
    unfolding update_body_of_def Let_def sample_envelope
    by (simp add: sample_release download_path_def sample_fields sample_rows)
  ultimately show ?thesis by (simp add: api_check_def sample_check)
qed

lemma api_check_sound_witness:
  "\<exists>c version cur s a v. release_context sample_request = Some c \<and>
     read_text (js_prop sample_request ''version'') True = JStr version \<and> sv_parse toy_semver version = Some cur \<and>
     resolve_software sample_db None = Inr s \<and>
     offered sample_db s (rc_platform c) (rc_arch c) (rc_channel c) a v \<and> newer (core_of v) cur"
  using api_check_sound [OF sample_db_ok sample_api_check] by blast

text \<open>
  The latest release of a target is the newest one a client may be offered; it is reported as an
  update exactly when the client named no version or an older one.
\<close>

theorem api_latest_correct:
  assumes "db_ok d" "semver_ok lib" "versions_nonneg d" "api_latest lib url d inp slug = Inr (Latest_Release b update)"
  shows "\<exists>c s a v. release_context inp = Some c \<and> resolve_software d slug = Inr s \<and>
     offered d s (rc_platform c) (rc_arch c) (rc_channel c) a v \<and>
     (\<forall>a' w. offered d s (rc_platform c) (rc_arch c) (rc_channel c) a' w \<longrightarrow> core_of w \<le> core_of v) \<and>
     rb_id b = art_id a \<and> rb_version b = core_text (core_of v) \<and>
     (update \<longleftrightarrow> js_prop inp ''currentVersion'' \<in> {JUndef, JStr []} \<or>
        (\<exists>t cur. read_text (js_prop inp ''currentVersion'') False = JStr t \<and> sv_parse lib t = Some cur \<and>
           newer (core_of v) cur))"
proof -
  let ?raw = "js_prop inp ''currentVersion''"
  from assms(4) obtain c a where c: "release_context inp = Some c"
    and lat: "get_latest d (rc_platform c) (rc_arch c) (rc_channel c) slug = Inr (Some a)"
    and body: "release_body_of url d slug a = Inr b"
    and upd: "(?raw \<in> {JUndef, JStr []} \<and> update) \<or>
      (?raw \<notin> {JUndef, JStr []} \<and> (\<exists>t. read_text ?raw False = JStr t \<and> sv_valid lib t \<and>
         update = sv_gt lib (rb_version b) t))"
    by (auto simp: api_latest_def Let_def res_simps split: option.splits jsval.splits if_splits sum.splits exn.splits)
  from lat obtain s p h where s: "resolve_software d slug = Inr s"
    and ph: "find_platform d (rc_platform c) = Some p" "find_architecture d (rc_arch c) = Some h"
    and new: "newest (target_rows d s p h (rc_channel c)) = Some a"
    by (auto simp: get_latest_def res_simps split: option.splits)
  obtain v where v: "offered d s (rc_platform c) (rc_arch c) (rc_channel c) a v"
    "\<And>a' w. offered d s (rc_platform c) (rc_arch c) (rc_channel c) a' w \<Longrightarrow> core_of w \<le> core_of v"
    using newest_target [OF assms(1) ph, where P = "\<lambda>_. True" and s = s and a = a and channel = "rc_channel c"] new by auto
  from body obtain w where w: "rel_version (load_release d a) = Some w" "rb_version b = version_text w" "rb_id b = art_id a"
    by (auto simp: release_body_of_def Let_def res_simps)
  have wv: "w = v" using load_release_version [OF assms(1) w(1)] v(1) by (auto simp: offered_def)
  have nn: "core_nonneg (core_of v)"
    using assms(3) v(1) by (auto simp: versions_nonneg_def list_all_iff offered_def)
  have gt: "sv_gt lib (rb_version b) t \<longleftrightarrow> (\<exists>cur. sv_parse lib t = Some cur \<and> newer (core_of v) cur)"
    if "sv_valid lib t" for t
    using assms(2) that w(2) wv nn by (auto simp: semver_ok_def version_text_core)
  have nt: "read_text JUndef False \<noteq> JStr t" "read_text (JStr []) False \<noteq> JStr t" for t
    by (simp_all add: read_text_def trim_def)
  have "update \<longleftrightarrow> ?raw \<in> {JUndef, JStr []} \<or>
        (\<exists>t cur. read_text ?raw False = JStr t \<and> sv_parse lib t = Some cur \<and> newer (core_of v) cur)"
    using upd gt nt by auto
  then show ?thesis using c s v w wv by (auto simp: version_text_core)
qed

lemma sample_release_body:
  "\<exists>b. release_body_of (\<lambda>p. p) sample_db None sample_artifact = Inr b"
  unfolding release_body_of_def Let_def sample_envelope by (simp add: sample_release)

lemma api_latest_correct_witness:
  "\<exists>c s a v. release_context sample_request = Some c \<and> resolve_software sample_db None = Inr s \<and>
     offered sample_db s (rc_platform c) (rc_arch c) (rc_channel c) a v"
proof -
  obtain b where b: "release_body_of (\<lambda>p. p) sample_db None sample_artifact = Inr b"
    using sample_release_body by blast
  have c: "release_context sample_request =
      Some \<lparr> rc_platform = ''linux'', rc_arch = ''x64'', rc_channel = ''stable'' \<rparr>"
    by code_simp
  have n: "js_prop sample_request ''currentVersion'' = JUndef" by code_simp
  have "get_latest sample_db ''linux'' ''x64'' ''stable'' None = Inr (Some sample_artifact)"
  proof -
    have "resolve_software sample_db None = Inr sample_software" by code_simp
    moreover have "find_platform sample_db ''linux'' = Some sample_platform" by code_simp
    moreover have "find_architecture sample_db ''x64'' = Some sample_architecture" by code_simp
    ultimately show ?thesis
      by (simp add: get_latest_def sample_targets) (simp add: newest_def sort_desc_def)
  qed
  then have "api_latest toy_semver (\<lambda>p. p) sample_db sample_request None = Inr (Latest_Release b True)"
    using b by (simp add: api_latest_def Let_def c n)
  moreover have "versions_nonneg sample_db" by code_simp
  ultimately show ?thesis
    using api_latest_correct [OF sample_db_ok toy_semver_ok] by blast
qed

definition sample_uuid :: string where
  "sample_uuid = ''11111111-1111-4111-8111-111111111111''"

definition sample_db2 :: db where
  "sample_db2 = sample_db \<lparr> software := [sample_software\<lparr>sw_require_signed := False\<rparr>],
     artifacts := [sample_draft\<lparr>art_id := sample_uuid, art_is_published := True\<rparr>] \<rparr>"

text \<open>
  A file leaves the download endpoint only for an artifact that is public for the resolved
  product: the stream is the one its provider opened for its storage key, the length header is its
  recorded size, the disposition header is safe, and the database changes at most in the download
  metrics of that artifact.
\<close>

theorem api_download_public:
  assumes "api_download get_stream is_ip record_ok now hid d i ip agent slug = Inr (File_Response f, d')"
  shows "\<exists>s a sp. resolve_software d slug = Inr s \<and> a \<in> set (artifacts d) \<and> art_id a = i \<and>
     public_artifact d (Some (sw_id s)) a \<and> sp \<in> set (providers d) \<and> sp_id sp = art_provider_id a \<and>
     get_stream sp (art_storage_key a) = Inr (fr_stream f) \<and>
     attachment_disposition (map of_char (art_file_name a)) = Some (fr_disposition f) \<and>
     fr_content_length f = map_option int_text (art_size_bytes a) \<and>
     d' = (if record_ok then record_metrics is_ip now hid a ip agent d else d)"
proof -
  from assms obtain a stream where rs: "record_and_stream get_stream is_ip record_ok now hid d i ip agent slug = Inr ((a, stream), d')"
    and f: "attachment_disposition (map of_char (art_file_name a)) = Some (fr_disposition f)"
      "fr_content_length f = map_option int_text (art_size_bytes a)" "fr_stream f = stream"
    by (auto simp: api_download_def res_simps split: if_splits sum.splits exn.splits)
  from rs obtain s a' sp where s: "resolve_software d slug = Inr s"
    and a': "find_public_by_id d i (Some (sw_id s)) = Some a'"
    and sp': "find_by sp_id (art_provider_id a') (ignore_deleted sp_deleted_at (providers d)) = Some sp"
    and st: "(case get_stream sp (art_storage_key a') of Inl e \<Rightarrow> Inl ArtifactStorageError
      | Inr stream \<Rightarrow> Inr ((a', stream), if record_ok then record_metrics is_ip now hid a' ip agent d else d)) =
      Inr ((a, stream), d')"
    unfolding record_and_stream_def bind_res_Inr from_option_Inr by blast
  obtain stream' where st': "get_stream sp (art_storage_key a') = Inr stream'"
    using st by (cases "get_stream sp (art_storage_key a')") auto
  have "((a', stream'), if record_ok then record_metrics is_ip now hid a' ip agent d else d) = ((a, stream), d')"
    using st unfolding st' by (simp only: sum.case sum.inject)
  then have e: "a' = a" and g: "get_stream sp (art_storage_key a) = Inr stream"
    and d': "d' = (if record_ok then record_metrics is_ip now hid a ip agent d else d)"
    using st' by blast+
  have a: "find_public_by_id d i (Some (sw_id s)) = Some a"
    and sp: "find_by sp_id (art_provider_id a) (ignore_deleted sp_deleted_at (providers d)) = Some sp"
    using a' sp' e by simp_all
  from a have "a \<in> set (artifacts d)" "public_artifact d (Some (sw_id s)) a" "art_id a = i"
    by (auto simp: find_public_by_id_def dest: find_by_Some)
  moreover from sp have "sp \<in> set (providers d)" "sp_id sp = art_provider_id a"
    by (auto simp: row_simps dest: find_by_Some)
  ultimately show ?thesis using s g d' f by blast
qed

lemma api_download_public_witness:
  "\<exists>s a. resolve_software sample_db2 None = Inr s \<and> a \<in> set (artifacts sample_db2) \<and>
     art_id a = sample_uuid \<and> public_artifact sample_db2 (Some (sw_id s)) a"
proof -
  let ?r = "api_download (\<lambda>sp key. Inr key) (\<lambda>ip. True) True 5 ''x'' sample_db2 sample_uuid ''::1'' None None"
  have "case ?r of Inr (File_Response f, d') \<Rightarrow> True | _ \<Rightarrow> False" by code_simp
  then have "\<exists>f d'. ?r = Inr (File_Response f, d')" by (auto split: sum.splits prod.splits api_response.splits)
  then show ?thesis using api_download_public by blast
qed

text \<open>
  A page of releases for a target the server does not know ends in an uncaught plain error,
  while the update check of the same target answers 404: the service throws a different error there
  than the one the handler maps.
\<close>

theorem releases_unsupported_uncaught:
  assumes "release_context inp = Some c" "resolve_software d slug = Inr s"
    and "find_platform d (rc_platform c) = None"
    and "positive_integer (js_prop inp ''page'') 1 1000000 = Some page"
    and "positive_integer (js_prop inp ''limit'') 20 100 = Some limit"
    and "read_text (js_prop inp ''version'') True = JStr version" "sv_valid lib version"
    and "sv_parse lib version = Some cur"
  shows "api_releases url d inp slug = Inl (Error ''Platform or architecture not supported.'') \<and>
    api_check lib url d inp slug = Inr (Api_Error 404 ''Platform or architecture not supported.'')"
  using assms
  by (simp add: api_releases_def get_releases_def api_check_def check_for_update_def)

lemma releases_unsupported_uncaught_witness:
  "api_releases (\<lambda>p. p) sample_db [(''platform'', JStr ''haiku''), (''arch'', JStr ''x64''), (''version'', JStr ''1.2.2'')] None =
     Inl (Error ''Platform or architecture not supported.'')"
proof -
  let ?inp = "[(''platform'', JStr ''haiku''), (''arch'', JStr ''x64''), (''version'', JStr ''1.2.2'')]"
  have 1: "release_context ?inp = Some \<lparr> rc_platform = ''haiku'', rc_arch = ''x64'', rc_channel = ''stable'' \<rparr>"
    by code_simp
  have 2: "resolve_software sample_db None = Inr sample_software" by code_simp
  have 3: "find_platform sample_db (rc_platform \<lparr> rc_platform = ''haiku'', rc_arch = ''x64'', rc_channel = ''stable'' \<rparr>) = None"
    by code_simp
  have 4: "positive_integer (js_prop ?inp ''page'') 1 1000000 = Some 1" by code_simp
  have 5: "positive_integer (js_prop ?inp ''limit'') 20 100 = Some 20" by code_simp
  have 6: "read_text (js_prop ?inp ''version'') True = JStr ''1.2.2''" by code_simp
  have 7: "sv_valid toy_semver ''1.2.2''" by code_simp
  have 8: "sv_parse toy_semver ''1.2.2'' = Some \<lparr> sv_core = Core 1 2 2, sv_prerelease = [] \<rparr>" by code_simp
  show ?thesis using releases_unsupported_uncaught [OF 1 2 3 4 5 6 7 8] by blast
qed

end
