(* ===== verification/Managed_Signer.thy ===== *)
theory Managed_Signer
  imports Fixture Download_Headers
begin

text \<open>
  \<open>app/services/managed_signer_service.ts\<close>: the client of the external signer. The HTTPS exchange
  is a parameter that gives the status and the body of a response or fails; the JSON parser of the
  body is a parameter too. What the signer answers is checked against the key and the payload it
  was asked for.
\<close>

record managed_signing_key =
  mk_product :: string
  mk_key_version :: int
  mk_key_id :: string
  mk_public_key :: string

record managed_signing_request =
  mr_key :: managed_signing_key
  mr_id :: string
  mr_payload :: string
  mr_payload_digest :: string
  mr_status :: jsval
  mr_signature :: jsval
  mr_expires_at :: int

definition managed_request_id :: "crypto \<Rightarrow> string \<Rightarrow> string \<Rightarrow> string \<Rightarrow> string" where
  "managed_request_id cr product key_id payload =
     cr_sha256 cr (utf8 ''reeva-signer-v1'' @ [0] @ utf8 product @ [0] @ utf8 key_id @ [0] @
       base64url_decode payload)"

section \<open>The exchange\<close>

record signer_env =
  se_url :: "string option"
  se_ca_file :: "string option"
  se_token_file :: "string option"

text \<open>
  \<open>sx_protocol base path\<close> is the protocol of \<open>new URL(path, base)\<close>; \<open>sx_send\<close> performs the request
  and is \<^const>\<open>None\<close> when the connection fails or times out.
\<close>

record exchange =
  sx_protocol :: "string \<Rightarrow> string \<Rightarrow> string res"
  sx_send :: "string \<Rightarrow> string \<Rightarrow> (string \<times> jsval) list option \<Rightarrow> (nat \<times> string) option"
  sx_parse :: "string \<Rightarrow> jsval option"

definition signer_configured :: "signer_env \<Rightarrow> bool" where
  "signer_configured env \<longleftrightarrow> \<not> no_text (se_url env)"

definition read_response :: "exchange \<Rightarrow> nat \<Rightarrow> string \<Rightarrow> (string \<times> jsval) list option res" where
  "read_response x status body =
     (if length body > 262144 then Inl (Error ''Managed signer response exceeds the size limit.'')
      else if status = 404 then Inr None
      else if status \<noteq> 200 then Inl (Error ''Managed signer unavailable, sealed, or request rejected.'')
      else (case sx_parse x body of
          Some (JObj ps) \<Rightarrow> Inr (Some ps)
        | _ \<Rightarrow> Inl (Error ''Invalid managed signer response.'')))"

definition signer_call ::
  "signer_env \<Rightarrow> exchange \<Rightarrow> string \<Rightarrow> (string \<times> jsval) list option \<Rightarrow> (string \<times> jsval) list option res" where
  "signer_call env x path body =
     (if no_text (se_url env) \<or> no_text (se_ca_file env) \<or> no_text (se_token_file env)
      then Inl (Error ''Managed signer is not configured.'')
      else bind_res (sx_protocol x (the (se_url env)) path) (\<lambda>protocol.
        throw_if (protocol \<noteq> ''https:'') (Error ''Managed signer requires HTTPS.'')
          (case sx_send x (the (se_url env)) path body of
             None \<Rightarrow> Inl (Error ''Managed signer connection failed or timed out.'')
           | Some (status, text) \<Rightarrow> read_response x status text)))"

section \<open>Checking the answers\<close>

definition signer_key ::
  "crypto \<Rightarrow> (string \<times> jsval) list option \<Rightarrow> string \<Rightarrow> managed_signing_key res" where
  "signer_key cr answer product =
     (case answer of
        None \<Rightarrow> Inl (Error ''Invalid managed signing key response.'')
      | Some v \<Rightarrow>
          (case (js_integer (js_prop v ''keyVersion''), js_prop v ''publicKey'') of
             (Some version, JStr pem) \<Rightarrow>
               if js_prop v ''product'' \<noteq> JStr product \<or> version < 1
               then Inl (Error ''Invalid managed signing key response.'')
               else bind_res (validate_ota_public_key cr (JStr pem)) (\<lambda>k.
                 throw_if (js_prop v ''keyId'' \<noteq> JStr (pk_key_id k))
                   (Error ''Managed signing key fingerprint mismatch.'')
                   (Inr \<lparr> mk_product = product, mk_key_version = version,
                          mk_key_id = pk_key_id k, mk_public_key = pk_public_key k \<rparr>))
           | _ \<Rightarrow> Inl (Error ''Invalid managed signing key response.'')))"

text \<open>
  \<open>String(value.status)\<close> where it can be one of the two words: a text, or arrays of one element
  around a text.
\<close>

fun status_text :: "jsval \<Rightarrow> string" where
  "status_text (JStr s) = s"
| "status_text (JArr [v]) = status_text v"
| "status_text _ = []"

definition signing_request ::
  "crypto \<Rightarrow> (string \<times> jsval) list option \<Rightarrow> managed_signing_key \<Rightarrow> string \<Rightarrow> managed_signing_request option res" where
  "signing_request cr answer key payload =
     (case answer of
        None \<Rightarrow> Inr None
      | Some v \<Rightarrow>
          bind_res (signer_key cr answer (mk_product key)) (\<lambda>actual.
          let i = managed_request_id cr (mk_product key) (mk_key_id key) payload;
              digest = cr_sha256 cr (base64url_decode payload)
          in throw_if
              (mk_key_id actual \<noteq> mk_key_id key \<or> mk_key_version actual \<noteq> mk_key_version key \<or>
               js_prop v ''id'' \<noteq> JStr i \<or> js_prop v ''payload'' \<noteq> JStr payload \<or>
               js_prop v ''payloadDigest'' \<noteq> JStr digest \<or>
               status_text (js_prop v ''status'') \<notin> {''pending'', ''signed''} \<or>
               js_safe_integer (js_prop v ''expiresAt'') = None)
              (Error ''Managed signing request does not match this release.'')
            (throw_if
              (js_prop v ''status'' = JStr ''signed'' \<and>
               \<not> verify_ota_release_signature cr payload (js_prop v ''signature'') (mk_public_key key))
              (Error ''Managed signer returned an invalid release signature.'')
            (throw_if (js_prop v ''status'' = JStr ''pending'' \<and> js_prop v ''signature'' \<noteq> JNull)
              (Error ''Invalid pending signing request.'')
              (Inr (Some \<lparr> mr_key = actual, mr_id = i, mr_payload = payload, mr_payload_digest = digest,
                   mr_status = js_prop v ''status'', mr_signature = js_prop v ''signature'',
                   mr_expires_at = the (js_safe_integer (js_prop v ''expiresAt'')) \<rparr>))))))"

section \<open>Operations\<close>

definition product_path :: "string \<Rightarrow> string" where
  "product_path product = ''/v1/products/'' @ the (encode_uri_component (map of_char product)) @ ''/key''"

definition get_key :: "crypto \<Rightarrow> signer_env \<Rightarrow> exchange \<Rightarrow> string \<Rightarrow> managed_signing_key res" where
  "get_key cr env x product =
     bind_res (signer_call env x (product_path product) None) (\<lambda>v. signer_key cr v product)"

definition create_request ::
  "crypto \<Rightarrow> signer_env \<Rightarrow> exchange \<Rightarrow> managed_signing_key \<Rightarrow> string \<Rightarrow> managed_signing_request option res" where
  "create_request cr env x key payload =
     bind_res (signer_call env x ''/v1/requests''
        (Some [(''product'', JStr (mk_product key)), (''keyId'', JStr (mk_key_id key)),
               (''keyVersion'', JNum (Fin (of_int (mk_key_version key)))), (''payload'', JStr payload)]))
       (\<lambda>v. signing_request cr v key payload)"

definition get_request ::
  "crypto \<Rightarrow> signer_env \<Rightarrow> exchange \<Rightarrow> managed_signing_key \<Rightarrow> string \<Rightarrow> managed_signing_request option res" where
  "get_request cr env x key payload =
     bind_res (signer_call env x (''/v1/requests/'' @ managed_request_id cr (mk_product key) (mk_key_id key) payload) None)
       (\<lambda>v. signing_request cr v key payload)"

section \<open>Properties\<close>

lemma signer_key_Inr:
  assumes "signer_key cr answer product = Inr k"
  shows "mk_product k = product \<and> 1 \<le> mk_key_version k \<and>
    (\<exists>pem. cr_key_type cr pem = Some ''ed25519'' \<and> mk_public_key k = cr_spki_pem cr pem \<and>
       mk_key_id k = cr_sha256 cr (cr_spki_der cr pem))"
proof -
  from assms obtain pem pk where "validate_ota_public_key cr (JStr pem) = Inr pk"
    "mk_public_key k = pk_public_key pk" "mk_key_id k = pk_key_id pk" "mk_product k = product" "1 \<le> mk_key_version k"
    by (auto simp: signer_key_def res_simps split: option.splits jsval.splits if_splits)
  then show ?thesis using validated_key by fastforce
qed

text \<open>
  An accepted answer of the signer is about the requested release: its key has the identifier and
  the version of the requested key, that identifier being the fingerprint of the returned key, its
  identifier and digest are those of the payload, and when it says \<open>signed\<close> its signature verifies
  over the payload with the requested key.
\<close>

theorem managed_request_bound:
  assumes "signing_request cr answer key payload = Inr (Some r)"
  shows "mr_payload r = payload \<and>
     mr_id r = managed_request_id cr (mk_product key) (mk_key_id key) payload \<and>
     mr_payload_digest r = cr_sha256 cr (base64url_decode payload) \<and>
     mk_key_id (mr_key r) = mk_key_id key \<and> mk_key_version (mr_key r) = mk_key_version key \<and>
     mk_product (mr_key r) = mk_product key \<and>
     (\<exists>pem. mk_key_id key = cr_sha256 cr (cr_spki_der cr pem)) \<and>
     (mr_status r = JStr ''signed'' \<longrightarrow>
        verify_ota_release_signature cr payload (mr_signature r) (mk_public_key key)) \<and>
     (mr_status r = JStr ''pending'' \<longrightarrow> mr_signature r = JNull)"
proof -
  from assms obtain v where v: "answer = Some v" by (cases answer) (auto simp: signing_request_def)
  with assms obtain actual where k: "signer_key cr answer (mk_product key) = Inr actual"
    and r: "mk_key_id actual = mk_key_id key" "mk_key_version actual = mk_key_version key"
      "r = \<lparr> mr_key = actual, mr_id = managed_request_id cr (mk_product key) (mk_key_id key) payload,
         mr_payload = payload, mr_payload_digest = cr_sha256 cr (base64url_decode payload),
         mr_status = js_prop v ''status'', mr_signature = js_prop v ''signature'',
         mr_expires_at = the (js_safe_integer (js_prop v ''expiresAt'')) \<rparr>"
      "\<not> (js_prop v ''status'' = JStr ''signed'' \<and>
         \<not> verify_ota_release_signature cr payload (js_prop v ''signature'') (mk_public_key key))"
      "\<not> (js_prop v ''status'' = JStr ''pending'' \<and> js_prop v ''signature'' \<noteq> JNull)"
    by (auto simp: signing_request_def res_simps Let_def)
  from signer_key_Inr [OF k] r(1) show ?thesis using r by auto
qed

definition toy_managed_key :: managed_signing_key where
  "toy_managed_key = \<lparr> mk_product = ''app'', mk_key_version = 1, mk_key_id = toy_key_id, mk_public_key = toy_pem \<rparr>"

lemma toy_validated:
  "validate_ota_public_key toy_crypto (JStr toy_pem) = Inr \<lparr> pk_public_key = toy_pem, pk_key_id = toy_key_id \<rparr>"
proof -
  have "trim toy_pem = toy_pem" "starts_with toy_pem ''-----BEGIN PUBLIC KEY-----''" "length toy_pem \<le> 4096"
    by code_simp+
  then show ?thesis
    by (simp add: validate_ota_public_key_def get_public_key_def get_ota_signing_key_id_def toy_crypto_def
        toy_key_id_def)
qed

lemma managed_request_bound_witness:
  "\<exists>r. signing_request toy_crypto
     (Some [(''product'', JStr ''app''), (''keyVersion'', JNum (Fin 1)), (''publicKey'', JStr toy_pem),
        (''keyId'', JStr toy_key_id), (''id'', JStr (managed_request_id toy_crypto ''app'' toy_key_id ''YQ'')),
        (''payload'', JStr ''YQ''), (''payloadDigest'', JStr (toy_digest (base64url_decode ''YQ''))),
        (''status'', JStr ''pending''), (''signature'', JNull), (''expiresAt'', JNum (Fin 7))])
     toy_managed_key ''YQ'' = Inr (Some r) \<and> mr_payload r = ''YQ'' \<and> mr_signature r = JNull"
proof -
  let ?v = "Some [(''product'', JStr ''app''), (''keyVersion'', JNum (Fin 1)), (''publicKey'', JStr toy_pem),
        (''keyId'', JStr toy_key_id), (''id'', JStr (managed_request_id toy_crypto ''app'' toy_key_id ''YQ'')),
        (''payload'', JStr ''YQ''), (''payloadDigest'', JStr (toy_digest (base64url_decode ''YQ''))),
        (''status'', JStr ''pending''), (''signature'', JNull), (''expiresAt'', JNum (Fin 7))]"
  let ?r = "signing_request toy_crypto ?v toy_managed_key ''YQ''"
  have "js_safe_integer (JNum (Fin 7)) = Some 7" by code_simp
  moreover have "signer_key toy_crypto ?v ''app'' = Inr toy_managed_key"
    by (simp add: signer_key_def js_prop_def toy_validated toy_managed_key_def)
  ultimately have "\<exists>r. ?r = Inr (Some r) \<and> mr_status r = JStr ''pending''"
    by (simp add: signing_request_def js_prop_def toy_managed_key_def toy_crypto_def)
  then obtain r where r: "?r = Inr (Some r)" "mr_status r = JStr ''pending''" by blast
  from managed_request_bound [OF r(1)] r show ?thesis by blast
qed

end
