(* ===== verification/Name_Text.thy ===== *)
theory Name_Text
  imports Prelude
begin

text \<open>
  The replacements the services apply to names: runs of characters outside a class become one dash,
  and dashes at the ends are removed.
\<close>

text \<open>\<open>.replace(/[^...]+/g, '-')\<close>, \<open>.replace(/-+$/g, '')\<close> and \<open>.replace(/^-+|-+$/g, '')\<close>\<close>

function dash_runs :: "(char \<Rightarrow> bool) \<Rightarrow> string \<Rightarrow> string" where
  "dash_runs ok [] = []"
| "dash_runs ok (c # s) =
     (if ok c then c # dash_runs ok s
      else CHR ''-'' # dash_runs ok (dropWhile (\<lambda>d. \<not> ok d) s))"
  by pat_completeness auto
termination
  by (relation "measure (\<lambda>(ok, s). length s)") (auto simp: le_imp_less_Suc length_dropWhile_le)

definition strip_end :: "string \<Rightarrow> string" where
  "strip_end s = rev (dropWhile (\<lambda>c. c = CHR ''-'') (rev s))"

definition strip_dashes :: "string \<Rightarrow> string" where
  "strip_dashes s = strip_end (dropWhile (\<lambda>c. c = CHR ''-'') s)"

lemma set_dash_runs: "c \<in> set (dash_runs ok s) \<Longrightarrow> ok c \<or> c = CHR ''-''"
  by (induction ok s rule: dash_runs.induct) (auto split: if_splits)

lemma set_strip_end: "set (strip_end s) \<subseteq> set s"
  unfolding strip_end_def by (auto dest!: set_dropWhileD)

lemma set_strip_dashes: "set (strip_dashes s) \<subseteq> set s"
  unfolding strip_dashes_def using set_strip_end by (auto dest!: subsetD [OF set_strip_end] set_dropWhileD)

lemma length_strip_end: "length (strip_end s) \<le> length s"
  unfolding strip_end_def by (metis length_dropWhile_le length_rev)

end
