(* ===== verification/Software_Service.thy ===== *)
theory Software_Service
  imports Managed_Signer Updater Name_Text
begin

text \<open>
  \<open>app/services/software_service.ts\<close>: products, their slugs, the default product, signing keys and
  the policy that requires signed updates. An operation inside \<open>db.transaction\<close> is one function
  from the database to a result and the new database; nothing is written when it throws.
\<close>

section \<open>Slugs\<close>

definition slug_char :: "char \<Rightarrow> bool" where
  "slug_char c \<longleftrightarrow> is_lower c \<or> is_digit c"

definition max_slug_length :: nat where
  "max_slug_length = 80"

text \<open>\<open>nfkd\<close> stands for \<open>.normalize('NFKD').replace(/\p{M}/gu, '')\<close>.\<close>

definition create_safe_slug :: "(string \<Rightarrow> string) \<Rightarrow> string \<Rightarrow> string" where
  "create_safe_slug nfkd name =
     (let slug = strip_end (take max_slug_length (strip_dashes (dash_runs slug_char (lowercase (nfkd name)))))
      in if slug = [] then ''software'' else slug)"

text \<open>The candidate the loop of \<open>create\<close> tries with a suffix; the first one is the slug itself.\<close>

definition slug_candidate :: "string \<Rightarrow> nat \<Rightarrow> string" where
  "slug_candidate base_slug suffix =
     (if suffix = 1 then base_slug
      else
        (let suffix_text = CHR ''-'' # dec suffix
         in strip_end (take (max_slug_length - length suffix_text) base_slug) @ suffix_text))"

fun allocate_slug :: "nat \<Rightarrow> string list \<Rightarrow> string \<Rightarrow> nat \<Rightarrow> string option" where
  "allocate_slug 0 taken base_slug suffix = None"
| "allocate_slug (Suc fuel) taken base_slug suffix =
     (if slug_candidate base_slug suffix \<in> set taken
      then allocate_slug fuel taken base_slug (suffix + 1)
      else Some (slug_candidate base_slug suffix))"

section \<open>Products\<close>

definition software_name :: "jsval \<Rightarrow> string res" where
  "software_name v =
     (let name = (case v of JStr s \<Rightarrow> trim s | _ \<Rightarrow> [])
      in throw_if (name = [] \<or> length name > 120) (Error ''Name must be between 1 and 120 characters.'') (Inr name))"

definition create_software ::
  "(string \<Rightarrow> string) \<Rightarrow> int \<Rightarrow> string \<Rightarrow> jsval \<Rightarrow> db \<Rightarrow> (software_row \<times> db) res" where
  "create_software nfkd now i name_input d =
     bind_res (software_name name_input) (\<lambda>name.
     bind_res (from_option (Fault ''fuel'')
        (allocate_slug (length (software d) + 2) (map sw_slug (software d)) (create_safe_slug nfkd name) 1)) (\<lambda>slug.
     let row = \<lparr> sw_id = i, sw_name = name, sw_slug = slug, sw_is_active = True,
                 sw_is_default = False, sw_require_signed = False, sw_created_at = now \<rparr>
     in bind_res (checked software_constraints (software d @ [row])) (\<lambda>tbl.
        Inr (row, d\<lparr>software := tbl\<rparr>))))"

definition find_software :: "db \<Rightarrow> string \<Rightarrow> software_row res" where
  "find_software d i = from_option RowNotFound (find_by sw_id i (software d))"

definition save_software :: "(software_row \<Rightarrow> software_row) \<Rightarrow> string \<Rightarrow> db \<Rightarrow> db res" where
  "save_software f i d =
     bind_res (checked software_constraints (modify_by sw_id i f (software d))) (\<lambda>tbl.
     Inr (d\<lparr>software := tbl\<rparr>))"

definition toggle_active :: "string \<Rightarrow> db \<Rightarrow> (software_row \<times> db) res" where
  "toggle_active i d =
     bind_res (from_option (Error ''Software not found.'') (find_by sw_id i (software d))) (\<lambda>s.
     throw_if (sw_is_default s \<and> sw_is_active s)
       (Error ''The default software cannot be deactivated. Choose another default first.'')
       (bind_res (save_software (\<lambda>r. r\<lparr>sw_is_active := \<not> sw_is_active s\<rparr>) i d) (\<lambda>d'.
        bind_res (find_software d' i) (\<lambda>s'. Inr (s', d')))))"

definition update_name :: "string \<Rightarrow> jsval \<Rightarrow> db \<Rightarrow> (software_row \<times> db) res" where
  "update_name i name_input d =
     bind_res (software_name name_input) (\<lambda>name.
     bind_res (find_software d i) (\<lambda>s.
     bind_res (save_software (\<lambda>r. r\<lparr>sw_name := name\<rparr>) i d) (\<lambda>d'.
     Inr (s\<lparr>sw_name := name\<rparr>, d'))))"

definition set_default :: "string \<Rightarrow> db \<Rightarrow> (software_row \<times> db) res" where
  "set_default i d =
     bind_res (from_option (Error ''Only active software can be the default.'')
        (List.find (\<lambda>r. sw_id r = i) (filter sw_is_active (software d)))) (\<lambda>target.
     bind_res (checked software_constraints (map (\<lambda>r. r\<lparr>sw_is_default := False\<rparr>) (software d))) (\<lambda>tbl.
     bind_res (save_software (\<lambda>r. r\<lparr>sw_is_default := True\<rparr>) i (d\<lparr>software := tbl\<rparr>)) (\<lambda>d'.
     bind_res (find_software d' i) (\<lambda>s'. Inr (s', d')))))"

definition get_default :: "db \<Rightarrow> software_row res" where
  "get_default d =
     from_option (Error ''Default software is not configured.'') (List.find sw_is_default (software d))"

definition resolve_public :: "db \<Rightarrow> string option \<Rightarrow> software_row option" where
  "resolve_public d slug =
     (case slug of None \<Rightarrow> find_active_default d
      | Some s \<Rightarrow> if s = [] then find_active_default d else find_active_by_slug d s)"

section \<open>Signing keys\<close>

definition add_signing_key ::
  "crypto \<Rightarrow> int \<Rightarrow> string \<Rightarrow> string \<Rightarrow> jsval \<Rightarrow> db \<Rightarrow> (signing_key_row \<times> db) res" where
  "add_signing_key cr now i software_id key_input d =
     bind_res (find_software d software_id) (\<lambda>s.
     bind_res (validate_ota_public_key cr (JStr (case key_input of JStr t \<Rightarrow> trim t | _ \<Rightarrow> []))) (\<lambda>key.
     case find_by sk_key_id (pk_key_id key) (signing_keys d) of
       Some e \<Rightarrow>
         if sk_software_id e \<noteq> sw_id s
         then Inl (Error ''A signing key must be dedicated to one software product.'')
         else if \<not> sk_is_active e then Inl (Error ''This key was revoked and cannot be reactivated.'')
         else Inl (Error ''This public key is already registered for this software.'')
     | None \<Rightarrow>
         (let row = \<lparr> sk_id = i, sk_software_id = sw_id s, sk_key_id = pk_key_id key,
                      sk_public_key = pk_public_key key, sk_is_active = True, sk_created_at = now \<rparr>
          in bind_res (checked signing_key_constraints (signing_keys d @ [row])) (\<lambda>tbl.
             Inr (row, d\<lparr>signing_keys := tbl\<rparr>)))))"

definition import_managed_signing_key ::
  "crypto \<Rightarrow> signer_env \<Rightarrow> exchange \<Rightarrow> int \<Rightarrow> string \<Rightarrow> string \<Rightarrow> db \<Rightarrow> (signing_key_row \<times> db) res" where
  "import_managed_signing_key cr env x now i software_id d =
     bind_res (find_software d software_id) (\<lambda>s.
     bind_res (get_key cr env x (sw_slug s)) (\<lambda>key.
     add_signing_key cr now i software_id (JStr (mk_public_key key)) d))"

text \<open>
  \<open>Artifact.query().where('isPublished', true).where('isArchived', false).whereHas('version', ...)\<close>;
  the hook of the mixin applies to the artifacts, not inside \<open>whereHas\<close>.
\<close>

definition has_active_version :: "db \<Rightarrow> string \<Rightarrow> artifact_row \<Rightarrow> bool" where
  "has_active_version d software_id a \<longleftrightarrow>
     list_ex (\<lambda>v. ver_id v = art_version_id a \<and> ver_software_id v = software_id \<and> ver_is_active v) (versions d)"

definition published_artifacts :: "db \<Rightarrow> string \<Rightarrow> artifact_row list" where
  "published_artifacts d software_id =
     filter (\<lambda>a. art_is_published a \<and> \<not> art_is_archived a \<and> has_active_version d software_id a)
       (ignore_deleted art_deleted_at (artifacts d))"

definition active_keys :: "db \<Rightarrow> string \<Rightarrow> signing_key_row list" where
  "active_keys d software_id = filter (\<lambda>k. sk_software_id k = software_id \<and> sk_is_active k) (signing_keys d)"

definition release_signed :: "crypto \<Rightarrow> signing_key_row list \<Rightarrow> artifact_row \<Rightarrow> string \<Rightarrow> bool" where
  "release_signed cr keys a payload \<longleftrightarrow>
     \<not> no_text (art_signature a) \<and> \<not> no_text (art_signature_key_id a) \<and>
     (case find_by sk_key_id (the (art_signature_key_id a)) keys of
        None \<Rightarrow> False
      | Some k \<Rightarrow> sk_public_key k \<noteq> [] \<and>
          verify_ota_release_signature cr payload (JStr (the (art_signature a))) (sk_public_key k))"

text \<open>The loop over the published artifacts: the first one that is not signed throws.\<close>

fun all_signed :: "crypto \<Rightarrow> db \<Rightarrow> signing_key_row list \<Rightarrow> artifact_row list \<Rightarrow> unit res" where
  "all_signed cr d keys [] = Inr ()"
| "all_signed cr d keys (a # as) =
     bind_res (create_ota_release_payload (load_release d a)) (\<lambda>payload.
     throw_if (\<not> release_signed cr keys a payload)
       (Error (''Sign and verify every published release before enabling signed updates. Missing or invalid signature: '' @
          art_file_name a @ ''.''))
       (all_signed cr d keys as))"

definition requested :: "jsval \<Rightarrow> bool" where
  "requested v \<longleftrightarrow> v \<in> {JBool True, JStr ''on'', JStr ''true'', JStr ''1''}"

definition set_require_signed_updates ::
  "crypto \<Rightarrow> string \<Rightarrow> jsval \<Rightarrow> db \<Rightarrow> (software_row \<times> db) res" where
  "set_require_signed_updates cr software_id flag d =
     bind_res (find_software d software_id) (\<lambda>s.
     bind_res (if requested flag
        then throw_if (active_keys d (sw_id s) = [])
               (Error ''Add an active Ed25519 public key before enabling signatures.'')
               (all_signed cr d (active_keys d (sw_id s)) (published_artifacts d (sw_id s)))
        else Inr ()) (\<lambda>_.
     bind_res (save_software (\<lambda>r. r\<lparr>sw_require_signed := requested flag\<rparr>) software_id d) (\<lambda>d'.
     Inr (s\<lparr>sw_require_signed := requested flag\<rparr>, d'))))"

text \<open>
  \<open>update({ signature: null, signatureKeyId: null, signatureManifest: null })\<close>; an update through the
  query builder runs no hook, so it reaches soft-deleted rows too.
\<close>

definition clear_signature :: "artifact_row \<Rightarrow> artifact_row" where
  "clear_signature a = a\<lparr>art_signature := None, art_signature_key_id := None, art_signature_manifest := None\<rparr>"

definition revocable_key :: "db \<Rightarrow> string \<Rightarrow> string \<Rightarrow> signing_key_row res" where
  "revocable_key d software_id key_id =
     bind_res (find_software d software_id) (\<lambda>s.
     throw_if (\<not> is_hex64 key_id) (Error ''Invalid signing key identifier.'')
     (bind_res (from_option (Error ''Active signing key not found.'')
        (find_by sk_key_id key_id (active_keys d (sw_id s)))) (\<lambda>key.
     throw_if (sw_require_signed s \<and> length (active_keys d (sw_id s)) \<le> 1)
       (Error ''Register a replacement public key before revoking the last active key.'')
     (throw_if (sw_require_signed s \<and>
         list_ex (\<lambda>a. art_signature_key_id a = Some key_id) (published_artifacts d (sw_id s)))
       (Error ''Re-sign or archive published releases with another active key before revoking this key.'')
       (Inr key)))))"

definition deactivate_key :: "string \<Rightarrow> db \<Rightarrow> db" where
  "deactivate_key i d = d\<lparr>signing_keys := modify_by sk_id i (\<lambda>k. k\<lparr>sk_is_active := False\<rparr>) (signing_keys d)\<rparr>"

definition signed_by :: "db \<Rightarrow> string \<Rightarrow> string \<Rightarrow> artifact_row \<Rightarrow> bool" where
  "signed_by d software_id key_id a \<longleftrightarrow>
     art_signature_key_id a = Some key_id \<and>
     list_ex (\<lambda>v. ver_id v = art_version_id a \<and> ver_software_id v = software_id) (versions d)"

definition clear_signatures_of_key :: "string \<Rightarrow> string \<Rightarrow> db \<Rightarrow> db" where
  "clear_signatures_of_key software_id key_id d =
     d\<lparr>artifacts := update_where (signed_by d software_id key_id) clear_signature (artifacts d)\<rparr>"

definition revoke_signing_key :: "string \<Rightarrow> string \<Rightarrow> db \<Rightarrow> (signing_key_row \<times> db) res" where
  "revoke_signing_key software_id key_id d =
     bind_res (revocable_key d software_id key_id) (\<lambda>key.
     Inr (key\<lparr>sk_is_active := False\<rparr>,
          clear_signatures_of_key software_id key_id (deactivate_key (sk_id key) d)))"

section \<open>Slug allocation\<close>

definition slug_text :: "string \<Rightarrow> bool" where
  "slug_text s \<longleftrightarrow> list_all (\<lambda>c. slug_char c \<or> c = CHR ''-'') s"

lemma create_safe_slug_text:
  "slug_text (create_safe_slug nfkd name)" "length (create_safe_slug nfkd name) \<le> 80"
  "create_safe_slug nfkd name \<noteq> []"
proof -
  let ?s = "strip_end (take max_slug_length (strip_dashes (dash_runs slug_char (lowercase (nfkd name)))))"
  have "slug_text ''software''" by code_simp
  moreover have "set ?s \<subseteq> set (dash_runs slug_char (lowercase (nfkd name)))"
    using set_strip_end by (auto simp: strip_dashes_def dest!: subsetD [OF set_strip_end] in_set_takeD set_dropWhileD)
  then have "slug_text ?s" using set_dash_runs by (auto simp: slug_text_def list_all_iff)
  ultimately show "slug_text (create_safe_slug nfkd name)" by (simp add: create_safe_slug_def Let_def)
  have "length ?s \<le> 80" using length_strip_end [of "take max_slug_length _"]
    by (rule le_trans) (simp add: max_slug_length_def)
  then show "length (create_safe_slug nfkd name) \<le> 80" by (simp add: create_safe_slug_def Let_def)
  show "create_safe_slug nfkd name \<noteq> []" by (simp add: create_safe_slug_def Let_def)
qed

lemma dash_not_digit: "CHR ''-'' \<notin> set (dec n)"
  by (rule dec_no_char) (simp add: is_digit_def char_between_def)

lemma last_segment: "takeWhile (\<lambda>c. c \<noteq> CHR ''-'') (rev (p @ CHR ''-'' # dec n)) = rev (dec n)"
proof -
  have "takeWhile (\<lambda>c. c \<noteq> CHR ''-'') (rev (dec n) @ CHR ''-'' # rev p) = rev (dec n)"
    using dash_not_digit [of n] by (subst takeWhile_append2) auto
  then show ?thesis by simp
qed

lemma slug_candidate_inj:
  assumes "2 \<le> m" "2 \<le> n" "slug_candidate b m = slug_candidate b n"
  shows "m = n"
proof -
  from assms obtain p q where "p @ CHR ''-'' # dec m = q @ CHR ''-'' # dec n"
    by (auto simp: slug_candidate_def Let_def)
  then have "rev (dec m) = rev (dec n)" using last_segment by metis
  then show ?thesis by simp
qed

lemma slug_candidate_text:
  assumes "slug_text b" "length b \<le> 80" "b \<noteq> []" "length (dec n) \<le> 79"
  shows "slug_text (slug_candidate b n)" "length (slug_candidate b n) \<le> 80" "slug_candidate b n \<noteq> []"
proof -
  let ?p = "strip_end (take (max_slug_length - Suc (length (dec n))) b)"
  have p: "set ?p \<subseteq> set b" using set_strip_end by (auto dest!: subsetD [OF set_strip_end] in_set_takeD)
  have "list_all slug_char (dec n)"
    using dec_digits [of n] by (auto simp: list_all_iff slug_char_def)
  then show "slug_text (slug_candidate b n)"
    using assms(1) p by (auto simp: slug_candidate_def Let_def slug_text_def list_all_iff)
  have "length ?p \<le> 80 - Suc (length (dec n))"
    using length_strip_end [of "take (max_slug_length - Suc (length (dec n))) b"]
    by (rule le_trans) (simp add: max_slug_length_def)
  then have "length ?p + length (dec n) \<le> 79" using assms(4) by linarith
  then show "length (slug_candidate b n) \<le> 80"
    using assms(2) by (simp add: slug_candidate_def Let_def)
  show "slug_candidate b n \<noteq> []" using assms(3) by (simp add: slug_candidate_def Let_def)
qed

lemma allocate_slug_None:
  "allocate_slug fuel taken b n = None \<longleftrightarrow> (\<forall>i<fuel. slug_candidate b (n + i) \<in> set taken)"
proof (induction fuel arbitrary: n)
  case (Suc fuel)
  show ?case by (simp add: Suc All_less_Suc2)
qed simp

lemma allocate_slug_Some:
  "allocate_slug fuel taken b n = Some s \<Longrightarrow> \<exists>i<fuel. s = slug_candidate b (n + i) \<and> s \<notin> set taken"
proof (induction fuel arbitrary: n)
  case (Suc fuel)
  show ?case
  proof (cases "slug_candidate b n \<in> set taken")
    case True
    then obtain i where "i < fuel" "s = slug_candidate b (n + 1 + i)" "s \<notin> set taken"
      using Suc.IH [of "n + 1"] Suc.prems by auto
    then show ?thesis by (intro exI [of _ "Suc i"]) simp
  next
    case False
    then show ?thesis using Suc.prems by (intro exI [of _ 0]) auto
  qed
qed simp

lemma allocate_slug_total: "\<exists>s. allocate_slug (length taken + 2) taken b 1 = Some s"
proof (rule ccontr)
  assume "\<not> ?thesis"
  then have "allocate_slug (length taken + 2) taken b 1 = None" by simp
  then have all: "\<forall>i<length taken + 2. slug_candidate b (1 + i) \<in> set taken"
    by (simp only: allocate_slug_None)
  let ?N = "{2..length taken + 2}"
  have "slug_candidate b ` ?N \<subseteq> set taken"
  proof
    fix x assume "x \<in> slug_candidate b ` ?N"
    then obtain n where "x = slug_candidate b n" "2 \<le> n" "n \<le> length taken + 2" by auto
    then show "x \<in> set taken" using all [rule_format, of "n - 1"] by simp
  qed
  then have "card (slug_candidate b ` ?N) \<le> length taken"
    by (meson List.finite_set card_length card_mono le_trans)
  moreover have "inj_on (slug_candidate b) ?N" by (auto simp: inj_on_def dest: slug_candidate_inj)
  then have "card (slug_candidate b ` ?N) = length taken + 1" by (simp add: card_image)
  ultimately show False by simp
qed

lemma allocate_slug_good:
  assumes "length taken + 2 < 10 ^ 79"
  shows "\<exists>s. allocate_slug (length taken + 2) taken (create_safe_slug nfkd name) 1 = Some s \<and>
    s \<notin> set taken \<and> slug_text s \<and> length s \<le> 80 \<and> s \<noteq> []"
proof -
  let ?b = "create_safe_slug nfkd name"
  obtain s where s: "allocate_slug (length taken + 2) taken ?b 1 = Some s"
    using allocate_slug_total by blast
  then obtain i where i: "i < length taken + 2" "s = slug_candidate ?b (1 + i)" "s \<notin> set taken"
    using allocate_slug_Some by blast
  then have "length (dec (1 + i)) \<le> 79" using assms by (intro length_dec_le) linarith+
  then show ?thesis using s i slug_candidate_text [OF create_safe_slug_text, of "1 + i"] by blast
qed

section \<open>Properties of products\<close>



definition one_default :: "db \<Rightarrow> bool" where
  "one_default d \<longleftrightarrow> (case filter sw_is_default (software d) of [s] \<Rightarrow> sw_is_active s | _ \<Rightarrow> False)"

lemma save_software_Inr [res_simps]:
  "save_software f i d = Inr d' \<longleftrightarrow>
     d' = d\<lparr>software := modify_by sw_id i f (software d)\<rparr> \<and>
     satisfies software_constraints (modify_by sw_id i f (software d))"
  by (auto simp: save_software_def res_simps)

lemma find_filter: "List.find P xs = (case filter P xs of [] \<Rightarrow> None | x # _ \<Rightarrow> Some x)"
  by (induction xs) auto

lemma one_default_modify:
  assumes "one_default d" "\<And>r. r \<in> set (software d) \<Longrightarrow> sw_id r = i \<Longrightarrow> sw_is_default (f r) = sw_is_default r"
    and "\<And>r. r \<in> set (software d) \<Longrightarrow> sw_id r = i \<Longrightarrow> sw_is_default r \<Longrightarrow> sw_is_active r \<Longrightarrow> sw_is_active (f r)"
  shows "one_default (d\<lparr>software := modify_by sw_id i f (software d)\<rparr>)"
proof -
  obtain s where s: "filter sw_is_default (software d) = [s]" "sw_is_active s"
    using assms(1) by (auto simp: one_default_def split: list.splits)
  then have m: "s \<in> set (software d)" "sw_is_default s" by (auto simp: filter_eq_Cons_iff)
  have "filter sw_is_default (modify_by sw_id i f tbl) = modify_by sw_id i f (filter sw_is_default tbl)"
    if "set tbl \<subseteq> set (software d)" for tbl
    using that assms(2) by (induction tbl) (auto simp: modify_by_def)
  then have "filter sw_is_default (modify_by sw_id i f (software d)) = [if sw_id s = i then f s else s]"
    using s(1) by (simp add: modify_by_def)
  then show ?thesis using s(2) m assms(3) [of s] by (simp add: one_default_def)
qed

text \<open>
  C21. There is always exactly one default product and it is active: no operation on products loses
  it, duplicates it or deactivates it, and choosing a new default makes exactly that product the
  default.
\<close>

theorem default_kept:
  assumes "one_default d" "db_ok d"
  shows "(create_software nfkd now i v d = Inr (r1, d1) \<longrightarrow> one_default d1) \<and>
    (toggle_active i d = Inr (r2, d2) \<longrightarrow> one_default d2) \<and>
    (update_name i v d = Inr (r3, d3) \<longrightarrow> one_default d3) \<and>
    (set_require_signed_updates cr i v d = Inr (r4, d4) \<longrightarrow> one_default d4) \<and>
    (set_default i d = Inr (r5, d5) \<longrightarrow> one_default d5 \<and> get_default d5 = Inr r5 \<and> sw_id r5 = i)"
proof (intro conjI impI)
  assume "create_software nfkd now i v d = Inr (r1, d1)"
  then show "one_default d1" using assms(1)
    by (auto simp: create_software_def res_simps Let_def one_default_def)
next
  assume "toggle_active i d = Inr (r2, d2)"
  then obtain s where s: "find_by sw_id i (software d) = Some s" "\<not> (sw_is_default s \<and> sw_is_active s)"
    "d2 = d\<lparr>software := modify_by sw_id i (\<lambda>r. r\<lparr>sw_is_active := \<not> sw_is_active s\<rparr>) (software d)\<rparr>"
    by (auto simp: toggle_active_def res_simps)
  have "r = s" if "r \<in> set (software d)" "sw_id r = i" for r
    using find_by_Some [OF s(1)] software_unique [OF assms(2)] that by metis
  then show "one_default d2" unfolding s(3) using assms(1) s(2)
    by (intro one_default_modify) auto
next
  assume "update_name i v d = Inr (r3, d3)"
  then obtain name where "d3 = d\<lparr>software := modify_by sw_id i (\<lambda>r. r\<lparr>sw_name := name\<rparr>) (software d)\<rparr>"
    by (auto simp: update_name_def res_simps)
  then show "one_default d3" using one_default_modify [OF assms(1), of i "\<lambda>r. r\<lparr>sw_name := name\<rparr>"] by simp
next
  assume "set_require_signed_updates cr i v d = Inr (r4, d4)"
  then have "d4 = d\<lparr>software := modify_by sw_id i (\<lambda>r. r\<lparr>sw_require_signed := requested v\<rparr>) (software d)\<rparr>"
    by (auto simp: set_require_signed_updates_def res_simps)
  then show "one_default d4"
    using one_default_modify [OF assms(1), of i "\<lambda>r. r\<lparr>sw_require_signed := requested v\<rparr>"] by simp
next
  assume a: "set_default i d = Inr (r5, d5)"
  let ?clear = "map (\<lambda>r. r\<lparr>sw_is_default := False\<rparr>) (software d)"
  from a obtain t where t: "t \<in> set (software d)" "sw_id t = i" "sw_is_active t"
    and d5: "d5 = d\<lparr>software := modify_by sw_id i (\<lambda>r. r\<lparr>sw_is_default := True\<rparr>) ?clear\<rparr>"
    and r5: "find_by sw_id i (software d5) = Some r5"
    by (auto simp: set_default_def res_simps find_software_def dest!: find_Some_mem)
  have dist: "distinct (map sw_id (software d))"
    using assms(2) by (simp add: db_ok_def software_constraints_def unique_on_total)
  have "filter sw_is_default (modify_by sw_id i (\<lambda>r. r\<lparr>sw_is_default := True\<rparr>) (map (\<lambda>r. r\<lparr>sw_is_default := False\<rparr>) tbl)) =
      (if i \<in> sw_id ` set tbl then [the (find_by sw_id i tbl)\<lparr>sw_is_default := True\<rparr>] else [])"
    if "distinct (map sw_id tbl)" for tbl
    using that by (induction tbl) (auto simp: modify_by_def find_by_def)
  from this [OF dist] have f: "filter sw_is_default (software d5) = [t\<lparr>sw_is_default := True\<rparr>]"
    using t find_by_distinct [OF dist t(1)] unfolding d5 by auto
  then show "one_default d5" using t(3) by (simp add: one_default_def)
  have "List.find sw_is_default (software d5) = Some (t\<lparr>sw_is_default := True\<rparr>)"
    unfolding find_filter f by simp
  moreover have "r5 = t\<lparr>sw_is_default := True\<rparr>"
  proof -
    have "map sw_id (software d5) = map sw_id (software d)" unfolding d5 by (simp add: modify_by_def)
    then have "distinct (map sw_id (software d5))" using dist by simp
    moreover have "t\<lparr>sw_is_default := True\<rparr> \<in> set (software d5)"
      using f by (auto simp: filter_eq_Cons_iff)
    ultimately have "find_by sw_id (sw_id (t\<lparr>sw_is_default := True\<rparr>)) (software d5) = Some (t\<lparr>sw_is_default := True\<rparr>)"
      by (rule find_by_distinct)
    then show ?thesis using r5 t(2) by simp
  qed
  ultimately show "get_default d5 = Inr r5" by (simp add: get_default_def)
  show "sw_id r5 = i" using find_by_Some [OF r5] by simp
qed

lemma default_kept_witness:
  "\<exists>r d'. set_default ''s1'' sample_db = Inr (r, d') \<and> one_default d' \<and> get_default d' = Inr r"
proof -
  have "case set_default ''s1'' sample_db of Inr _ \<Rightarrow> True | _ \<Rightarrow> False" by code_simp
  then obtain r d' where r: "set_default ''s1'' sample_db = Inr (r, d')" by (auto split: sum.splits)
  have "one_default sample_db" by code_simp
  from default_kept [OF this sample_db_ok, where i = "''s1''"] r show ?thesis by blast
qed

section \<open>Properties of keys\<close>

text \<open>Every registered key is an Ed25519 key stored under the fingerprint of its own text.\<close>

definition keys_ok :: "crypto \<Rightarrow> db \<Rightarrow> bool" where
  "keys_ok cr d \<longleftrightarrow>
     (\<forall>k\<in>set (signing_keys d). get_ota_signing_key_id cr (sk_public_key k) = Inr (sk_key_id k))"

lemma add_signing_key_Inr:
  assumes "add_signing_key cr now i software_id v d = Inr (k, d')"
  obtains s key where "find_software d software_id = Inr s"
    "validate_ota_public_key cr (JStr (case v of JStr t \<Rightarrow> trim t | _ \<Rightarrow> [])) = Inr key"
    "find_by sk_key_id (pk_key_id key) (signing_keys d) = None"
    "k = \<lparr> sk_id = i, sk_software_id = sw_id s, sk_key_id = pk_key_id key,
           sk_public_key = pk_public_key key, sk_is_active = True, sk_created_at = now \<rparr>"
    "d' = d\<lparr>signing_keys := signing_keys d @ [k]\<rparr>"
    "satisfies signing_key_constraints (signing_keys d @ [k])"
  using assms that
  by (auto simp: add_signing_key_def res_simps Let_def split: option.splits if_splits)

text \<open>
  A key is registered once and for one product only: whatever its state, a key whose fingerprint
  is known cannot be added again, so a revoked key never comes back and no key serves two products;
  an added key is stored under the fingerprint of the text that is stored.
\<close>

theorem signing_key_added:
  assumes "crypto_ok cr" "keys_ok cr d" "add_signing_key cr now i software_id v d = Inr (k, d')"
  shows "keys_ok cr d' \<and> (\<forall>e\<in>set (signing_keys d). sk_key_id e \<noteq> sk_key_id k) \<and>
    signing_keys d' = signing_keys d @ [k] \<and> sk_is_active k \<and> sk_software_id k = software_id \<and>
    is_hex64 (sk_key_id k)"
proof -
  from assms(3) obtain s key where *: "find_software d software_id = Inr s"
    "validate_ota_public_key cr (JStr (case v of JStr t \<Rightarrow> trim t | _ \<Rightarrow> [])) = Inr key"
    "find_by sk_key_id (pk_key_id key) (signing_keys d) = None"
    "k = \<lparr> sk_id = i, sk_software_id = sw_id s, sk_key_id = pk_key_id key,
           sk_public_key = pk_public_key key, sk_is_active = True, sk_created_at = now \<rparr>"
    "d' = d\<lparr>signing_keys := signing_keys d @ [k]\<rparr>"
    by (rule add_signing_key_Inr)
  obtain pem where pem: "cr_key_type cr pem = Some ''ed25519''" "pk_public_key key = cr_spki_pem cr pem"
    "pk_key_id key = cr_sha256 cr (cr_spki_der cr pem)"
    using validated_key [OF *(2)] by blast
  have "get_ota_signing_key_id cr (sk_public_key k) = Inr (sk_key_id k)"
    using assms(1) pem *(4)
    by (auto simp: crypto_ok_def get_ota_signing_key_id_def get_public_key_def)
  moreover have "sw_id s = software_id"
    using *(1) by (auto simp: find_software_def res_simps dest: find_by_Some)
  ultimately show ?thesis
    using assms(1,2) * pem(3) by (auto simp: keys_ok_def row_simps crypto_ok_def image_iff)
qed

lemma sample_keys_ok: "keys_ok toy_crypto sample_db"
proof -
  have "starts_with toy_pem ''-----BEGIN PUBLIC KEY-----''" by code_simp
  then show ?thesis
    by (simp add: keys_ok_def sample_tables sample_rows get_ota_signing_key_id_def get_public_key_def
        toy_crypto_def toy_key_id_def)
qed

lemma signing_key_added_witness:
  "\<exists>k d'. add_signing_key toy_crypto 5 ''k2'' ''s1'' (JStr toy_pem) (sample_db\<lparr>signing_keys := []\<rparr>) = Inr (k, d') \<and>
     keys_ok toy_crypto d'"
proof -
  let ?d = "sample_db\<lparr>signing_keys := []\<rparr>"
  have t: "trim toy_pem = toy_pem" by code_simp
  have f: "find_software ?d ''s1'' = Inr sample_software"
    by (simp add: find_software_def find_by_def sample_tables sample_rows)
  have "\<exists>k d'. add_signing_key toy_crypto 5 ''k2'' ''s1'' (JStr toy_pem) ?d = Inr (k, d')"
    unfolding add_signing_key_def f
    by (simp add: t toy_validated find_by_def signing_key_constraints_def unique_on_def map_filter_def Let_def)
  moreover have "keys_ok toy_crypto ?d" by (simp add: keys_ok_def)
  ultimately show ?thesis using signing_key_added [OF toy_crypto_ok] by blast
qed

lemma all_signed_Inr:
  "all_signed cr d keys as = Inr () \<longleftrightarrow>
     (\<forall>a\<in>set as. \<exists>p. create_ota_release_payload (load_release d a) = Inr p \<and> release_signed cr keys a p)"
  by (induction "as") (auto simp: res_simps)

text \<open>
  Signatures can be made mandatory only when the product has an active key and every published
  release of an active version carries a signature that one of the active keys verifies over the
  release's current payload.
\<close>

theorem enabling_requires_signatures:
  assumes "set_require_signed_updates cr i flag d = Inr (s, d')" "requested flag"
  shows "sw_require_signed s \<and> active_keys d i \<noteq> [] \<and>
    (\<forall>a\<in>set (published_artifacts d i). \<exists>p sig k. create_ota_release_payload (load_release d a) = Inr p \<and>
       art_signature a = Some sig \<and> k \<in> set (active_keys d i) \<and> art_signature_key_id a = Some (sk_key_id k) \<and>
       verify_ota_release_signature cr p (JStr sig) (sk_public_key k))"
proof -
  from assms obtain s0 where s0: "find_software d i = Inr s0" "active_keys d (sw_id s0) \<noteq> []"
    "all_signed cr d (active_keys d (sw_id s0)) (published_artifacts d (sw_id s0)) = Inr ()"
    "s = s0\<lparr>sw_require_signed := True\<rparr>"
    by (auto simp: set_require_signed_updates_def res_simps)
  have i: "sw_id s0 = i" using s0(1) by (auto simp: find_software_def res_simps dest: find_by_Some)
  have "\<exists>sig k. art_signature a = Some sig \<and> k \<in> set ks \<and> art_signature_key_id a = Some (sk_key_id k) \<and>
       verify_ota_release_signature cr p (JStr sig) (sk_public_key k)" if "release_signed cr ks a p" for ks a p
    using that by (auto simp: release_signed_def no_text_def split: option.splits dest!: find_by_Some)
  then show ?thesis using s0 i unfolding all_signed_Inr by (simp, blast)
qed

text \<open>What a revocation leaves of an artifact and of the list of keys.\<close>

lemma revoke_Inr:
  assumes "revoke_signing_key i key_id d = Inr (k, d')"
  shows "\<exists>s key. find_software d i = Inr s \<and> is_hex64 key_id \<and> key \<in> set (signing_keys d) \<and>
     sk_software_id key = i \<and> sk_key_id key = key_id \<and> sk_is_active key \<and> k = key\<lparr>sk_is_active := False\<rparr> \<and>
     (sw_require_signed s \<longrightarrow> 1 < length (active_keys d i) \<and>
        (\<forall>a\<in>set (published_artifacts d i). art_signature_key_id a \<noteq> Some key_id)) \<and>
     d' = d\<lparr>signing_keys := modify_by sk_id (sk_id key) (\<lambda>k. k\<lparr>sk_is_active := False\<rparr>) (signing_keys d),
            artifacts := update_where (signed_by d i key_id) clear_signature (artifacts d)\<rparr>"
proof -
  from assms obtain key where key: "revocable_key d i key_id = Inr key" "k = key\<lparr>sk_is_active := False\<rparr>"
    "d' = clear_signatures_of_key i key_id (deactivate_key (sk_id key) d)"
    by (auto simp: revoke_signing_key_def res_simps)
  from key(1) obtain s where s: "find_software d i = Inr s" "is_hex64 key_id"
    "find_by sk_key_id key_id (active_keys d (sw_id s)) = Some key"
    "sw_require_signed s \<longrightarrow> 1 < length (active_keys d (sw_id s)) \<and>
       (\<forall>a\<in>set (published_artifacts d (sw_id s)). art_signature_key_id a \<noteq> Some key_id)"
    unfolding revocable_key_def bind_res_Inr throw_if_Inr from_option_Inr
    by (auto simp: list_ex_iff not_le)
  have i: "sw_id s = i" using s(1) by (auto simp: find_software_def res_simps dest: find_by_Some)
  have "key \<in> set (signing_keys d) \<and> sk_software_id key = i \<and> sk_key_id key = key_id \<and> sk_is_active key"
    using s(3) i by (auto simp: active_keys_def dest!: find_by_Some)
  moreover have "signed_by (d\<lparr>signing_keys := x\<rparr>) = signed_by d" for x
    by (simp add: fun_eq_iff signed_by_def)
  ultimately show ?thesis using s i key
    by (intro exI [of _ s] exI [of _ key]) (simp add: clear_signatures_of_key_def deactivate_key_def)
qed

lemma clear_signature_simps [simp]:
  "art_id (clear_signature a) = art_id a" "art_version_id (clear_signature a) = art_version_id a"
  "art_platform_id (clear_signature a) = art_platform_id a"
  "art_architecture_id (clear_signature a) = art_architecture_id a"
  "art_provider_id (clear_signature a) = art_provider_id a" "art_channel (clear_signature a) = art_channel a"
  "art_deleted_at (clear_signature a) = art_deleted_at a" "art_is_published (clear_signature a) = art_is_published a"
  "art_is_archived (clear_signature a) = art_is_archived a" "art_signature (clear_signature a) = None"
  "art_signature_key_id (clear_signature a) = None" "art_signature_manifest (clear_signature a) = None"
  by (simp_all add: clear_signature_def)

text \<open>
  C10. Revoking a key takes effect without taking a release away: afterwards the key is inactive and no
  artifact of the product refers to it, while every release that clients could see, of any product,
  is still visible.
\<close>

theorem revocation_safe:
  assumes "db_ok d" "revoke_signing_key i key_id d = Inr (k, d')"
  shows "\<not> sk_is_active k \<and> (\<forall>e\<in>set (active_keys d' i). sk_key_id e \<noteq> key_id) \<and>
    (\<forall>a\<in>set (artifacts d'). \<not> signed_by d' i key_id a) \<and>
    (\<forall>a\<in>set (public_query d sid). \<exists>a'\<in>set (public_query d' sid). art_id a' = art_id a)"
proof -
  obtain s0 key where f: "find_software d i = Inr s0" and key: "key \<in> set (signing_keys d)"
      "sk_software_id key = i" "sk_key_id key = key_id" "sk_is_active key" "k = key\<lparr>sk_is_active := False\<rparr>"
    and req: "sw_require_signed s0 \<Longrightarrow> \<forall>a\<in>set (published_artifacts d i). art_signature_key_id a \<noteq> Some key_id"
    and d': "d' = d\<lparr>signing_keys := modify_by sk_id (sk_id key) (\<lambda>k. k\<lparr>sk_is_active := False\<rparr>) (signing_keys d),
            artifacts := update_where (signed_by d i key_id) clear_signature (artifacts d)\<rparr>"
    using revoke_Inr [OF assms(2)] by blast
  have ids: "distinct (map sk_id (signing_keys d))" "distinct (map sk_key_id (signing_keys d))"
    using assms(1) by (simp_all add: db_ok_def signing_key_constraints_def unique_on_total)
  have s0: "s0 \<in> set (software d)" "sw_id s0 = i"
    using f by (auto simp: find_software_def res_simps dest: find_by_Some)
  have inactive: "\<forall>e\<in>set (active_keys d' i). sk_key_id e \<noteq> key_id"
  proof
    fix e assume "e \<in> set (active_keys d' i)"
    then obtain e0 where e0: "e0 \<in> set (signing_keys d)" "e = (if sk_id e0 = sk_id key then e0\<lparr>sk_is_active := False\<rparr> else e0)"
      "sk_is_active e" by (auto simp: active_keys_def d' mem_modify_by)
    then have "sk_id e0 \<noteq> sk_id key" "e = e0" by (auto split: if_splits)
    then show "sk_key_id e \<noteq> key_id" using distinct_map_inj [OF ids(2) e0(1) key(1)] key(3) by auto
  qed
  have same: "signed_by d' i key_id = signed_by d i key_id" by (simp add: fun_eq_iff signed_by_def d')
  have cleared: "\<not> signed_by d i key_id (clear_signature a)" for a by (simp add: signed_by_def)
  have gone: "\<forall>a\<in>set (artifacts d'). \<not> signed_by d' i key_id a"
  proof
    fix a assume "a \<in> set (artifacts d')"
    then obtain b where "a = (if signed_by d i key_id b then clear_signature b else b)"
      by (auto simp: d' mem_update_where)
    then show "\<not> signed_by d' i key_id a" unfolding same using cleared by simp
  qed
  have keep: "\<exists>a'\<in>set (public_query d' sid). art_id a' = art_id a" if a: "a \<in> set (public_query d sid)" for a
  proof -
    let ?a = "if signed_by d i key_id a then clear_signature a else a"
    from a have aa: "a \<in> set (artifacts d)" and pub: "public_artifact d sid a" by simp_all
    from pub obtain v s where v: "v \<in> set (versions d)" "ver_id v = art_version_id a" "ver_deleted_at v = None"
      "ver_is_active v" and s: "s \<in> set (software d)" "sw_id s = ver_software_id v" "sw_is_active s"
      and el: "sw_require_signed s \<Longrightarrow> eligible_signature d s v a"
      and sid: "\<And>j. sid = Some j \<Longrightarrow> j \<noteq> [] \<Longrightarrow> sw_id s = j"
      by (rule public_artifact_obtain) blast
    have key_used: "art_signature_key_id a \<noteq> Some key_id" if "sw_require_signed s" "sw_id s = i"
    proof -
      have "s = s0" using software_unique [OF assms(1) s(1) s0(1)] that(2) s0(2) by simp
      moreover have "a \<in> set (published_artifacts d i)"
        using pub aa v s(2) that(2)
        by (auto simp: published_artifacts_def row_simps public_artifact_def has_active_version_def list_ex_iff)
      ultimately show ?thesis using req that(1) by blast
    qed
    have not_signed: "\<not> signed_by d i key_id a" if "sw_require_signed s"
    proof
      assume "signed_by d i key_id a"
      then obtain w where "w \<in> set (versions d)" "ver_id w = art_version_id a" "ver_software_id w = i"
        "art_signature_key_id a = Some key_id" by (auto simp: signed_by_def list_ex_iff)
      then show False
        using key_used [OF that] public_version_unique [OF assms(1) v(1)] v(2) s(2) by metis
    qed
    have el': "eligible_signature d' s v a" if rs: "sw_require_signed s"
    proof -
      from el [OF rs] obtain e where e: "e \<in> set (signing_keys d)" "sk_software_id e = sw_id s"
        "art_signature_key_id a = Some (sk_key_id e)" "sk_is_active e"
        and rest: "art_signature a \<noteq> None" "case art_signature_manifest a of None \<Rightarrow> False
          | Some snapshot \<Rightarrow> jsonb_eq snapshot (sql_manifest d s v a)"
        by (auto simp: eligible_signature_def list_ex_iff)
      have "sk_id e \<noteq> sk_id key"
      proof
        assume "sk_id e = sk_id key"
        then have "e = key" using distinct_map_inj [OF ids(1) e(1) key(1)] by simp
        then show False using key_used [OF rs] e key by simp
      qed
      then have "e \<in> set (signing_keys d')" using e(1) by (auto simp: d' mem_modify_by)
      moreover have sm: "sql_manifest d' s v a = sql_manifest d s v a" by (simp add: d' sql_manifest_def)
      ultimately show ?thesis using e rest unfolding eligible_signature_def list_ex_iff sm by blast
    qed
    have "eligible_version d' sid ?a"
    proof -
      have "\<not> sw_require_signed s \<or> eligible_signature d' s v ?a" using el' not_signed by auto
      moreover have "case sid of None \<Rightarrow> True | Some j \<Rightarrow> j = [] \<or> sw_id s = j"
        using sid by (auto split: option.splits)
      moreover have "versions d' = versions d" "software d' = software d" "art_version_id ?a = art_version_id a"
        by (simp_all add: d')
      ultimately show ?thesis
        unfolding eligible_version_def list_ex_iff
        by (intro bexI [of _ v] conjI bexI [of _ s]) (simp_all only: v s)
    qed
    then have "public_artifact d' sid ?a" using pub by (auto simp: public_artifact_def d')
    moreover have "?a \<in> set (artifacts d')" using aa by (auto simp: d' mem_update_where)
    ultimately show ?thesis by (intro bexI [of _ ?a]) auto
  qed
  show ?thesis using inactive gone keep key(5) by simp
qed

lemma revocation_safe_witness:
  "\<exists>k d'. revoke_signing_key ''s1'' toy_key_id (sample_db\<lparr>software := [sample_software\<lparr>sw_require_signed := False\<rparr>]\<rparr>) = Inr (k, d') \<and>
     \<not> sk_is_active k"
proof -
  let ?d = "sample_db\<lparr>software := [sample_software\<lparr>sw_require_signed := False\<rparr>]\<rparr>"
  have "db_ok ?d" by code_simp
  moreover have "\<exists>k d'. revoke_signing_key ''s1'' toy_key_id ?d = Inr (k, d')"
    by (simp add: revoke_signing_key_def revocable_key_def find_software_def active_keys_def find_by_def
        sample_tables sample_rows sample_software_def toy_digest_hex64 toy_key_id_def)
  ultimately show ?thesis using revocation_safe by blast
qed

lemma sample_published: "published_artifacts sample_db ''s1'' = [sample_artifact]"
proof -
  have "\<not> art_is_published sample_draft" by (simp add: sample_draft_def)
  then show ?thesis
    by (simp add: published_artifacts_def ignore_deleted_def has_active_version_def sample_tables sample_fields sample_rows)
qed

lemma sample_active_keys: "active_keys sample_db ''s1'' = [sample_key]"
  by (simp add: active_keys_def sample_tables sample_rows)

lemma enabling_requires_signatures_witness:
  "\<exists>s d'. set_require_signed_updates toy_crypto ''s1'' (JStr ''on'') sample_db = Inr (s, d') \<and>
     sw_require_signed s"
proof -
  have t: "toy_pem \<noteq> []" by (simp add: toy_pem_def)
  have "release_signed toy_crypto [sample_key] sample_artifact (payload_of sample_manifest)"
    using sample_signature_nonempty toy_key_id_nonempty sample_verified t
    by (simp add: release_signed_def sample_fields no_text_def find_by_def sample_rows)
  then have "all_signed toy_crypto sample_db [sample_key] [sample_artifact] = Inr ()"
    by (simp add: create_ota_release_payload_def sample_built)
  moreover have "find_software sample_db ''s1'' = Inr sample_software"
    by (simp add: find_software_def find_by_def sample_tables sample_rows)
  moreover have "satisfies software_constraints
      (modify_by sw_id ''s1'' (\<lambda>r. r\<lparr>sw_require_signed := True\<rparr>) (software sample_db))"
    by code_simp
  moreover have r: "requested (JStr ''on'')" by (simp add: requested_def)
  ultimately have "\<exists>s d'. set_require_signed_updates toy_crypto ''s1'' (JStr ''on'') sample_db = Inr (s, d')"
    by (simp add: set_require_signed_updates_def sample_rows sample_active_keys sample_published
        save_software_def checked_satisfies)
  then show ?thesis using r enabling_requires_signatures by blast
qed

end
