(* ===== verification/Sql_Text.thy ===== *)
theory Sql_Text
  imports Prelude
begin

text \<open>
  Pattern matching of SQL as the filters of the services use it: \<open>LIKE\<close> with the wildcards \<open>%\<close> and
  \<open>_\<close> and the escape character backslash, and \<open>ILIKE\<close>, the same on lower-case texts.
\<close>

fun like :: "string \<Rightarrow> string \<Rightarrow> bool" where
  "like [] s \<longleftrightarrow> s = []"
| "like (p # ps) [] \<longleftrightarrow> p = CHR ''%'' \<and> like ps []"
| "like (p # ps) (c # s) \<longleftrightarrow>
     (if p = CHR ''%'' then like ps (c # s) \<or> like (p # ps) s
      else if p = CHR ''_'' then like ps s
      else if p = CHR 0x5C then (case ps of [] \<Rightarrow> False | q # qs \<Rightarrow> c = q \<and> like qs s)
      else c = p \<and> like ps s)"

definition ilike :: "string \<Rightarrow> string \<Rightarrow> bool" where
  "ilike pattern s \<longleftrightarrow> like (lowercase pattern) (lowercase s)"

text \<open>The pattern of the filters, \<open>`%${keyword}%`\<close>.\<close>

definition contains_pattern :: "string \<Rightarrow> string" where
  "contains_pattern keyword = CHR ''%'' # keyword @ ''%''"

definition plain_text :: "string \<Rightarrow> bool" where
  "plain_text s \<longleftrightarrow> list_all (\<lambda>c. c \<notin> {CHR ''%'', CHR ''_'', CHR 0x5C}) s"

lemma like_percent: "like ''%'' s"
  by (induction s) simp_all

lemma like_prefix: "plain_text k \<Longrightarrow> like (k @ ''%'') s \<longleftrightarrow> starts_with s k"
proof (induction k arbitrary: s)
  case Nil
  then show ?case by (simp add: like_percent starts_with_def)
next
  case (Cons c k)
  then have "plain_text k" "c \<noteq> CHR ''%''" "c \<noteq> CHR ''_''" "c \<noteq> CHR 0x5C"
    by (simp_all add: plain_text_def)
  then show ?case using Cons.IH by (cases s) (auto simp: starts_with_def)
qed

lemma like_contains: "plain_text k \<Longrightarrow> like (contains_pattern k) s \<longleftrightarrow> str_includes s k"
proof (induction s)
  case Nil
  then show ?case by (auto simp: contains_pattern_def like_prefix starts_with_def)
next
  case (Cons c s)
  then show ?case by (simp add: contains_pattern_def like_prefix)
qed

end
