(* ===== verification/Version_Service.thy ===== *)
theory Version_Service
  imports Software_Service Sql_Text
begin

text \<open>
  \<open>app/services/version_service.ts\<close>: the semantic version filter, the listing, and creating,
  updating, toggling and deleting versions. The date parsing of \<open>luxon\<close> is a parameter.
\<close>

section \<open>The semantic version filter\<close>

datatype comparison = Ge | Gt | Le | Lt | Eq

datatype semver_filter = Wildcard int "int option" | Compare comparison core_version

text \<open>
  The groups of \<open>/^([<>]=?|==)?\s*(\d+)(?:\.(\d+))?(?:\.(\d+))?(\*)?$/\<close>: operator, the three numbers
  (the last two may be absent) and the star.
\<close>

definition filter_operator :: "string \<Rightarrow> comparison option \<times> string" where
  "filter_operator s =
     (if starts_with s ''>='' then (Some Ge, drop 2 s)
      else if starts_with s ''>'' then (Some Gt, drop 1 s)
      else if starts_with s ''<='' then (Some Le, drop 2 s)
      else if starts_with s ''<'' then (Some Lt, drop 1 s)
      else if starts_with s ''=='' then (Some Eq, drop 2 s)
      else (None, s))"

definition dotted_number :: "string \<Rightarrow> string option \<times> string" where
  "dotted_number s =
     (case s of
        c # t \<Rightarrow> if c = CHR ''.'' \<and> takeWhile is_digit t \<noteq> []
          then (Some (takeWhile is_digit t), dropWhile is_digit t) else (None, s)
      | [] \<Rightarrow> (None, s))"

definition match_filter ::
  "string \<Rightarrow> (comparison option \<times> string \<times> string option \<times> string option \<times> bool) option" where
  "match_filter s =
     (let (operator, r0) = filter_operator s;
          r1 = dropWhile is_space r0;
          major_text = takeWhile is_digit r1;
          (minor_text, r2) = dotted_number (dropWhile is_digit r1);
          (patch_text, r3) = dotted_number r2
      in if major_text = [] \<or> (r3 \<noteq> [] \<and> r3 \<noteq> ''*'') then None
         else Some (operator, major_text, minor_text, patch_text, r3 = ''*''))"

definition part_value :: "string option \<Rightarrow> int" where
  "part_value x = (case x of None \<Rightarrow> 0 | Some t \<Rightarrow> int (undec t))"

definition parse_semver_filter :: "string \<Rightarrow> semver_filter res" where
  "parse_semver_filter input =
     (case match_filter (trim input) of
        None \<Rightarrow> Inl (Error ''Invalid semantic version filter.'')
      | Some (operator, ma, mi, pa, star) \<Rightarrow>
          (let c = Core (int (undec ma)) (part_value mi) (part_value pa);
               oper = (case operator of None \<Rightarrow> Eq | Some x \<Rightarrow> x)
           in if list_ex (\<lambda>t. length t > 9) (ma # List.map_filter id [mi, pa]) \<or>
                 \<not> (is_safe_integer (major c) \<and> is_safe_integer (minor c) \<and> is_safe_integer (patch c)) \<or>
                 (star \<and> oper \<noteq> Eq)
              then Inl (Error ''Invalid semantic version filter.'')
              else if star then Inr (Wildcard (major c) (if mi = None then None else Some (minor c)))
              else Inr (Compare oper c)))"

text \<open>The conditions the code adds to the query, clause by clause.\<close>

fun filter_matches :: "semver_filter \<Rightarrow> version_row \<Rightarrow> bool" where
  "filter_matches (Wildcard ma None) v \<longleftrightarrow> ver_major v = ma"
| "filter_matches (Wildcard ma (Some mi)) v \<longleftrightarrow> ver_major v = ma \<and> ver_minor v = mi"
| "filter_matches (Compare Ge (Core ma mi pa)) v \<longleftrightarrow>
     ver_major v > ma \<or> (ver_major v = ma \<and> ver_minor v > mi) \<or>
     (ver_major v = ma \<and> ver_minor v = mi \<and> ver_patch v \<ge> pa)"
| "filter_matches (Compare Gt (Core ma mi pa)) v \<longleftrightarrow>
     ver_major v > ma \<or> (ver_major v = ma \<and> ver_minor v > mi) \<or>
     (ver_major v = ma \<and> ver_minor v = mi \<and> ver_patch v > pa)"
| "filter_matches (Compare Le (Core ma mi pa)) v \<longleftrightarrow>
     ver_major v < ma \<or> (ver_major v = ma \<and> ver_minor v < mi) \<or>
     (ver_major v = ma \<and> ver_minor v = mi \<and> ver_patch v \<le> pa)"
| "filter_matches (Compare Lt (Core ma mi pa)) v \<longleftrightarrow>
     ver_major v < ma \<or> (ver_major v = ma \<and> ver_minor v < mi) \<or>
     (ver_major v = ma \<and> ver_minor v = mi \<and> ver_patch v < pa)"
| "filter_matches (Compare Eq (Core ma mi pa)) v \<longleftrightarrow>
     ver_major v = ma \<and> ver_minor v = mi \<and> ver_patch v = pa"

section \<open>Listing\<close>

record version_filters =
  vf_software_id :: jsval
  vf_version_number :: jsval
  vf_codename :: jsval
  vf_is_active :: jsval
  vf_date_from :: jsval
  vf_date_to :: jsval

text \<open>
  \<open>sql_date s\<close> is \<open>toSQLDate()\<close> of the day \<open>luxon\<close> reads from \<open>s\<close>, \<^const>\<open>None\<close> when it is not valid;
  \<open>sees\<close> says which rows the hooks of the model leave to a paginated query.
\<close>

definition date_filter :: "(string \<Rightarrow> string option) \<Rightarrow> string \<Rightarrow> jsval \<Rightarrow> string option res" where
  "date_filter sql_date message v =
     (if \<not> truthy v then Inr None
      else (case v of
          JStr s \<Rightarrow> (case sql_date s of None \<Rightarrow> Inl (Error message) | Some x \<Rightarrow> Inr (Some x))
        | _ \<Rightarrow> Inl (Error message)))"

definition filtered_versions ::
  "(string \<Rightarrow> string option) \<Rightarrow> (version_row \<Rightarrow> bool) \<Rightarrow> db \<Rightarrow> version_filters \<Rightarrow> version_row list res" where
  "filtered_versions sql_date sees d f =
     (case vf_software_id f of
        JStr software_id \<Rightarrow>
          bind_res (if \<not> truthy (vf_version_number f) then Inr None
             else (case vf_version_number f of
                 JStr s \<Rightarrow> if length s > 50 then Inl (Error ''Invalid semantic version filter.'')
                   else bind_res (parse_semver_filter s) (\<lambda>x. Inr (Some x))
               | _ \<Rightarrow> Inl (Error ''Invalid semantic version filter.''))) (\<lambda>number.
          bind_res (if \<not> truthy (vf_codename f) then Inr None
             else (case vf_codename f of
                 JStr s \<Rightarrow> if length s > 100 then Inl (Error ''Codename filter must be 100 characters or fewer.'')
                   else Inr (Some s)
               | _ \<Rightarrow> Inl (Error ''Codename filter must be 100 characters or fewer.''))) (\<lambda>codename.
          bind_res (date_filter sql_date ''Invalid start date.'' (vf_date_from f)) (\<lambda>date_from.
          bind_res (date_filter sql_date ''Invalid end date.'' (vf_date_to f)) (\<lambda>date_to.
          Inr (sort_desc ver_created_at
            (filter (\<lambda>v. sees v \<and> ver_software_id v = software_id \<and>
               (case number of None \<Rightarrow> True | Some x \<Rightarrow> filter_matches x v) \<and>
               (case codename of None \<Rightarrow> True | Some k \<Rightarrow>
                  (case ver_codename v of None \<Rightarrow> False
                   | Some c \<Rightarrow> like (contains_pattern (lowercase k)) (lowercase c))) \<and>
               (if vf_is_active f = JUndef \<or> vf_is_active f = JStr [] then True
                else ver_is_active v = (vf_is_active f = JStr ''1'' \<or> vf_is_active f = JBool True)) \<and>
               (case date_from of None \<Rightarrow> True | Some x \<Rightarrow>
                  (case ver_release_date v of None \<Rightarrow> False | Some r \<Rightarrow> x \<le> r)) \<and>
               (case date_to of None \<Rightarrow> True | Some x \<Rightarrow>
                  (case ver_release_date v of None \<Rightarrow> False | Some r \<Rightarrow> r \<le> x)))
              (versions d)))))))
      | _ \<Rightarrow> Inl (Error ''A software product is required.''))"

section \<open>Input of a version\<close>

definition parse_part :: "jsval \<Rightarrow> int option" where
  "parse_part v =
     (case digits_text v of
        None \<Rightarrow> None | Some t \<Rightarrow> if length t \<le> 9 then Some (int (undec t)) else None)"

definition parse_version_parts :: "(string \<times> jsval) list \<Rightarrow> core_version res" where
  "parse_version_parts data =
     (case (parse_part (js_prop data ''major''), parse_part (js_prop data ''minor''),
            parse_part (js_prop data ''patch'')) of
        (Some a, Some b, Some c) \<Rightarrow> Inr (Core a b c)
      | _ \<Rightarrow> Inl (Error ''Version parts must be non-negative whole numbers with at most nine digits.''))"

definition parse_codename :: "jsval \<Rightarrow> string option res" where
  "parse_codename v =
     (if js_absent v then Inr None
      else (case v of
          JStr s \<Rightarrow> if length s > 100 then Inl (Error ''Codename must be 100 characters or fewer.'')
            else Inr (if trim s = [] then None else Some (trim s))
        | _ \<Rightarrow> Inl (Error ''Codename must be 100 characters or fewer.'')))"

definition parse_changelog :: "jsval \<Rightarrow> string option res" where
  "parse_changelog v =
     (if js_absent v then Inr None
      else (case v of
          JStr s \<Rightarrow> if length s > 20000 then Inl (Error ''Changelog must be 20,000 characters or fewer.'')
            else Inr (Some s)
        | _ \<Rightarrow> Inl (Error ''Changelog must be 20,000 characters or fewer.'')))"

text \<open>\<open>iso_day s\<close>: \<open>DateTime.fromISO(s)\<close> is valid and \<open>toISODate()\<close> gives \<open>s\<close> back.\<close>

definition parse_release_date :: "(string \<Rightarrow> bool) \<Rightarrow> jsval \<Rightarrow> string option res" where
  "parse_release_date iso_day v =
     (if js_absent v then Inr None
      else (case v of
          JStr s \<Rightarrow> if iso_day s then Inr (Some s) else Inl (Error ''Release date must use YYYY-MM-DD format.'')
        | _ \<Rightarrow> Inl (Error ''Release date is invalid.'')))"

definition validate_and_check_duplicate ::
  "semver_lib \<Rightarrow> db \<Rightarrow> core_version \<Rightarrow> string \<Rightarrow> string option \<Rightarrow> unit res" where
  "validate_and_check_duplicate lib d c software_id exclude =
     throw_if (\<not> sv_valid lib (core_text c)) (Error (''Invalid semantic version number: '' @ core_text c @ ''.''))
     (throw_if
        (list_ex (\<lambda>v. core_of v = c \<and> ver_software_id v = software_id \<and>
             (exclude = None \<or> exclude = Some [] \<or> exclude \<noteq> Some (ver_id v)))
           (ignore_deleted ver_deleted_at (versions d)))
        (Error (''Version '' @ core_text c @ '' already exists.'')) (Inr ()))"

section \<open>Operations\<close>

definition find_version :: "db \<Rightarrow> string \<Rightarrow> version_row res" where
  "find_version d i =
     from_option RowNotFound (find_by ver_id i (ignore_deleted ver_deleted_at (versions d)))"

definition create_version ::
  "semver_lib \<Rightarrow> (string \<Rightarrow> bool) \<Rightarrow> int \<Rightarrow> string \<Rightarrow> (string \<times> jsval) list \<Rightarrow> db \<Rightarrow> (version_row \<times> db) res" where
  "create_version lib iso_day now i data d =
     (case js_prop data ''softwareId'' of
        JStr software_id \<Rightarrow>
          bind_res (find_software d software_id) (\<lambda>s.
          throw_if (\<not> sw_is_active s) (Error ''Cannot add versions to inactive software.'')
          (bind_res (parse_version_parts data) (\<lambda>c.
           bind_res (validate_and_check_duplicate lib d c (sw_id s) None) (\<lambda>_.
           bind_res (parse_codename (js_prop data ''codename'')) (\<lambda>codename.
           bind_res (parse_changelog (js_or (js_prop data ''changelogs'') (js_prop data ''changelog''))) (\<lambda>changelog.
           bind_res (parse_release_date iso_day (js_prop data ''releaseDate'')) (\<lambda>date.
           let row = \<lparr> ver_id = i, ver_software_id = sw_id s, ver_major = major c, ver_minor = minor c,
                 ver_patch = patch c, ver_codename = codename, ver_changelog = changelog,
                 ver_release_date = date, ver_is_active = (js_prop data ''isActive'' = JStr ''on''),
                 ver_created_at = now, ver_deleted_at = None \<rparr>
           in bind_res (checked version_constraints (versions d @ [row])) (\<lambda>tbl.
              Inr (row, d\<lparr>versions := tbl\<rparr>)))))))))
      | _ \<Rightarrow> Inl (Error ''A software product is required.''))"

text \<open>
  \<open>updateVersion\<close> in its three stages: what it computes from the version it loaded, the save, and
  the update of the artifacts, which the code issues only when signed metadata changed.
\<close>

record version_change =
  vc_core :: core_version
  vc_codename :: "string option"
  vc_changelog :: "string option"
  vc_is_active :: bool
  vc_release_date :: "string option"

definition plan_update ::
  "semver_lib \<Rightarrow> (string \<Rightarrow> bool) \<Rightarrow> version_row \<Rightarrow> (string \<times> jsval) list \<Rightarrow> db \<Rightarrow> version_change res" where
  "plan_update lib iso_day v data d =
     bind_res (parse_version_parts data) (\<lambda>c.
     bind_res (validate_and_check_duplicate lib d c (ver_software_id v) (Some (ver_id v))) (\<lambda>_.
     bind_res (parse_codename (js_prop data ''codename'')) (\<lambda>codename.
     bind_res (parse_changelog (js_or (js_prop data ''changelogs'') (js_prop data ''changelog''))) (\<lambda>changelog.
     bind_res (parse_release_date iso_day (js_prop data ''releaseDate'')) (\<lambda>date.
     Inr \<lparr> vc_core = c, vc_codename = codename, vc_changelog = changelog,
           vc_is_active = (js_prop data ''isActive'' \<in> {JStr ''on'', JBool True}), vc_release_date = date \<rparr>)))))"

definition signed_metadata_changed :: "version_row \<Rightarrow> version_change \<Rightarrow> bool" where
  "signed_metadata_changed v c \<longleftrightarrow>
     ver_major v \<noteq> major (vc_core c) \<or> ver_minor v \<noteq> minor (vc_core c) \<or> ver_patch v \<noteq> patch (vc_core c) \<or>
     ver_codename v \<noteq> vc_codename c \<or> ver_changelog v \<noteq> vc_changelog c"

definition apply_change :: "version_change \<Rightarrow> version_row \<Rightarrow> version_row" where
  "apply_change c v = v\<lparr>ver_major := major (vc_core c), ver_minor := minor (vc_core c),
     ver_patch := patch (vc_core c), ver_codename := vc_codename c, ver_changelog := vc_changelog c,
     ver_is_active := vc_is_active c, ver_release_date := vc_release_date c\<rparr>"

definition save_version :: "(version_row \<Rightarrow> version_row) \<Rightarrow> string \<Rightarrow> db \<Rightarrow> db res" where
  "save_version f i d =
     bind_res (checked version_constraints (modify_by ver_id i f (versions d))) (\<lambda>tbl.
     Inr (d\<lparr>versions := tbl\<rparr>))"

definition clear_version_signatures :: "string \<Rightarrow> db \<Rightarrow> db" where
  "clear_version_signatures i d =
     d\<lparr>artifacts := update_where (\<lambda>a. art_version_id a = i) clear_signature (artifacts d)\<rparr>"

definition update_version ::
  "semver_lib \<Rightarrow> (string \<Rightarrow> bool) \<Rightarrow> string \<Rightarrow> (string \<times> jsval) list \<Rightarrow> db \<Rightarrow> (version_row \<times> db) res" where
  "update_version lib iso_day i data d =
     bind_res (find_version d i) (\<lambda>v.
     bind_res (plan_update lib iso_day v data d) (\<lambda>c.
     bind_res (save_version (apply_change c) (ver_id v) d) (\<lambda>d'.
     Inr (apply_change c v,
          if signed_metadata_changed v c then clear_version_signatures (ver_id v) d' else d'))))"

definition toggle_version :: "string \<Rightarrow> db \<Rightarrow> (version_row \<times> db) res" where
  "toggle_version i d =
     bind_res (find_version d i) (\<lambda>v.
     bind_res (save_version (\<lambda>r. r\<lparr>ver_is_active := \<not> ver_is_active v\<rparr>) i d) (\<lambda>d'.
     Inr (v\<lparr>ver_is_active := \<not> ver_is_active v\<rparr>, d')))"

definition delete_version :: "int \<Rightarrow> string \<Rightarrow> db \<Rightarrow> (version_row \<times> db) res" where
  "delete_version now i d =
     bind_res (find_version d i) (\<lambda>v.
     throw_if (find_by_version_id d (ver_id v) \<noteq> None)
       (Error ''Cannot delete version because it has associated artifacts. Delete the artifacts first.'')
       (Inr (set_ver_deleted (Some now) v,
             d\<lparr>versions := soft_delete ver_id set_ver_deleted now (ver_id v) (versions d)\<rparr>)))"

section \<open>The filter\<close>

fun holds :: "comparison \<Rightarrow> core_version \<Rightarrow> core_version \<Rightarrow> bool" where
  "holds Ge a b \<longleftrightarrow> b \<le> a"
| "holds Gt a b \<longleftrightarrow> b < a"
| "holds Le a b \<longleftrightarrow> a \<le> b"
| "holds Lt a b \<longleftrightarrow> a < b"
| "holds Eq a b \<longleftrightarrow> a = b"

text \<open>How a filter is written: \<open>1\<close>, \<open>>=1.2\<close>, \<open><1.2.3\<close>.\<close>

fun operator_text :: "comparison option \<Rightarrow> string" where
  "operator_text None = []"
| "operator_text (Some Ge) = ''>=''"
| "operator_text (Some Gt) = ''>''"
| "operator_text (Some Le) = ''<=''"
| "operator_text (Some Lt) = ''<''"
| "operator_text (Some Eq) = ''==''"

definition part_text :: "nat option \<Rightarrow> string" where
  "part_text x = (case x of None \<Rightarrow> [] | Some n \<Rightarrow> CHR ''.'' # dec n)"

definition part_number :: "nat option \<Rightarrow> int" where
  "part_number x = (case x of None \<Rightarrow> 0 | Some n \<Rightarrow> int n)"

definition nine_digits :: "nat option \<Rightarrow> bool" where
  "nine_digits x = (case x of None \<Rightarrow> True | Some n \<Rightarrow> n < 10 ^ 9)"

lemma filter_matches_holds: "filter_matches (Compare oper c) v \<longleftrightarrow> holds oper (core_of v) c"
  by (cases oper; cases c) (auto simp: core_of_def less_eq_core_version_def less_core_version_def)

lemma takeWhile_digits: "r = [] \<or> \<not> is_digit (hd r) \<Longrightarrow> takeWhile is_digit (dec n @ r) = dec n \<and> dropWhile is_digit (dec n @ r) = r"
proof -
  assume r: "r = [] \<or> \<not> is_digit (hd r)"
  have d: "\<forall>c\<in>set (dec n). is_digit c" using dec_digits by (simp add: list_all_iff)
  have "takeWhile is_digit (dec n @ r) = dec n @ takeWhile is_digit r"
    using d by (intro takeWhile_append2) auto
  moreover have "dropWhile is_digit (dec n @ r) = dropWhile is_digit r"
    using d by (intro dropWhile_append2) auto
  moreover have "takeWhile is_digit r = []" "dropWhile is_digit r = r" using r by (cases r; auto)+
  ultimately show ?thesis by simp
qed

lemma dotted_number_part:
  assumes "r = [] \<or> \<not> is_digit (hd r)" "x = None \<Longrightarrow> r = [] \<or> hd r \<noteq> CHR ''.''"
  shows "dotted_number (part_text x @ r) = (map_option dec x, r)"
proof (cases x)
  case None
  then show ?thesis using assms(2) by (cases r) (auto simp: part_text_def dotted_number_def)
next
  case (Some n)
  then show ?thesis using takeWhile_digits [OF assms(1), of n] by (simp add: part_text_def dotted_number_def)
qed

lemma dec_hd: "\<exists>c t. dec n = c # t \<and> is_digit c"
  using dec_digits [of n] by (cases "dec n") auto

lemma filter_operator_text: "filter_operator (operator_text oper @ dec n @ r) = (oper, dec n @ r)"
proof -
  obtain c t where c: "dec n = c # t" "is_digit c" using dec_hd by blast
  then have "c \<noteq> CHR ''<''" "c \<noteq> CHR ''>''" "c \<noteq> CHR ''=''"
    by (auto simp: is_digit_def char_between_def)
  then show ?thesis
    by (cases oper rule: operator_text.cases) (simp_all add: filter_operator_def starts_with_def c(1))
qed

lemma match_filter_text:
  assumes "mi = None \<Longrightarrow> pa = None"
  shows "match_filter (operator_text oper @ dec ma @ part_text mi @ part_text pa) =
    Some (oper, dec ma, map_option dec mi, map_option dec pa, False)"
proof -
  obtain c t where c: "dec ma = c # t" "is_digit c" using dec_hd by blast
  then have "\<not> is_space c" by (auto simp: is_space_def is_digit_def char_between_def)
  then have sp: "dropWhile is_space (dec ma @ r) = dec ma @ r" for r using c(1) by simp
  have "part_text x = [] \<or> (hd (part_text x) = CHR ''.'' \<and> \<not> is_digit (hd (part_text x)))" for x
    by (auto simp: part_text_def is_digit_def char_between_def split: option.split)
  then have nd: "part_text mi @ part_text pa = [] \<or> \<not> is_digit (hd (part_text mi @ part_text pa))"
    and nd': "part_text pa = [] \<or> \<not> is_digit (hd (part_text pa))"
    by (metis append_self_conv2 hd_append2)+
  have d1: "dotted_number (part_text mi @ part_text pa) = (map_option dec mi, part_text pa)"
    by (rule dotted_number_part [OF nd']) (simp add: assms part_text_def)
  have d2: "dotted_number (part_text pa) = (map_option dec pa, [])"
    using dotted_number_part [of "[]" pa] by simp
  show ?thesis
    unfolding match_filter_def filter_operator_text
    by (simp add: sp takeWhile_digits [OF nd] d1 d2)
qed

lemma trim_filter_text:
  "trim (operator_text oper @ dec ma @ part_text mi @ part_text pa) =
     operator_text oper @ dec ma @ part_text mi @ part_text pa" (is "trim ?s = ?s")
proof (rule trim_id)
  have digit: "\<not> is_space c" if "is_digit c" for c
    using that by (auto simp: is_space_def is_digit_def char_between_def)
  have last: "is_digit (last (dec n))" for n
    using dec_digits [of n] by (simp add: list_all_iff)
  obtain c t where c: "dec ma = c # t" "is_digit c" using dec_hd by blast
  show "\<not> is_space (hd ?s)"
    using c digit [OF c(2)]
    by (cases oper rule: operator_text.cases) (auto simp: is_space_def char_between_def)
  show "\<not> is_space (last ?s)"
    by (rule digit) (auto simp: part_text_def last split: option.split)
qed

lemma length_dec_nine: "n < 10 ^ 9 \<Longrightarrow> length (dec n) \<le> 9"
  by (rule length_dec_le) simp_all

text \<open>
  A semantic version filter selects by precedence. The text of an operator (or none, which is
  equality) and up to three numbers of at most nine digits is accepted, and the conditions on the
  three columns that the code builds for it hold of exactly the versions whose core stands in that
  relation to the written core (missing parts are 0) in the order of precedence.
\<close>

theorem semver_filter_order:
  assumes "mi = None \<longrightarrow> pa = None" and "ma < 10 ^ 9" and "nine_digits mi" and "nine_digits pa"
  shows "\<exists>f. parse_semver_filter (operator_text oper @ dec ma @ part_text mi @ part_text pa) = Inr f \<and>
    (\<forall>v. filter_matches f v \<longleftrightarrow>
       holds (case oper of None \<Rightarrow> Eq | Some x \<Rightarrow> x) (core_of v)
         (Core (int ma) (part_number mi) (part_number pa)))"
proof -
  have v: "part_value (map_option dec x) = part_number x" for x
    by (cases x) (simp_all add: part_value_def part_number_def)
  have len: "nine_digits x \<Longrightarrow> map_option dec x = Some t \<Longrightarrow> length t \<le> 9" for x t
    by (cases x) (auto simp: nine_digits_def length_dec_nine)
  have safe: "nine_digits x \<Longrightarrow> is_safe_integer (part_number x)" for x
    by (cases x) (auto simp: nine_digits_def part_number_def is_safe_integer_def max_safe_integer_def)
  have m: "match_filter (trim (operator_text oper @ dec ma @ part_text mi @ part_text pa)) =
      Some (oper, dec ma, map_option dec mi, map_option dec pa, False)"
    unfolding trim_filter_text using assms(1) by (intro match_filter_text) simp
  have "\<not> list_ex (\<lambda>t. length t > 9) (dec ma # List.map_filter id [map_option dec mi, map_option dec pa])"
    using assms(2-4) len [of mi] len [of pa] length_dec_nine [of ma]
    by (auto simp: map_filter_def split: option.splits)
  moreover have "is_safe_integer (int ma)" using safe [of "Some ma"] assms(2)
    by (simp add: nine_digits_def part_number_def)
  ultimately have "parse_semver_filter (operator_text oper @ dec ma @ part_text mi @ part_text pa) =
      Inr (Compare (case oper of None \<Rightarrow> Eq | Some x \<Rightarrow> x)
        (Core (int ma) (part_number mi) (part_number pa)))"
    using assms(3,4) by (simp add: parse_semver_filter_def m v safe Let_def)
  then show ?thesis by (simp add: filter_matches_holds)
qed

lemma semver_filter_order_witness:
  "\<exists>f. parse_semver_filter ''>=1.2'' = Inr f \<and>
    (\<forall>v. filter_matches f v \<longleftrightarrow> holds Ge (core_of v) (Core 1 2 0))"
proof -
  have t: "operator_text (Some Ge) @ dec 1 @ part_text (Some 2) @ part_text None = ''>=1.2''"
    by code_simp
  show ?thesis
    using semver_filter_order [of "Some 2" None 1 "Some Ge", unfolded t]
    by (simp add: nine_digits_def part_number_def)
qed

section \<open>Creating versions\<close>

lemma parse_part_bounds: "parse_part v = Some n \<Longrightarrow> 0 \<le> n \<and> n < 10 ^ 9"
proof -
  assume "parse_part v = Some n"
  then obtain t where t: "digits_text v = Some t" "length t \<le> 9" "n = int (undec t)"
    by (auto simp: parse_part_def split: option.splits if_splits)
  then have "undec t < 10 ^ length t"
    using undec_bound digits_text_all_digits [OF t(1)] by (auto simp: all_digits_def)
  also have "(10::nat) ^ length t \<le> 10 ^ 9" using t(2) by (intro power_increasing) simp_all
  finally have "int (undec t) < int (10 ^ 9)" by (simp only: of_nat_less_iff)
  then show ?thesis using t(3) by simp
qed

lemma version_parts_bounds:
  "parse_version_parts data = Inr c \<Longrightarrow> core_nonneg c \<and> major c < 10 ^ 9 \<and> minor c < 10 ^ 9 \<and> patch c < 10 ^ 9"
  by (auto simp: parse_version_parts_def core_nonneg_def dest!: parse_part_bounds split: option.splits)

lemma create_version_Inr:
  assumes "create_version lib iso_day now i data d = Inr (v, d')"
  obtains s c where "find_software d (ver_software_id v) = Inr s" "sw_is_active s"
    "js_prop data ''softwareId'' = JStr (ver_software_id v)"
    "parse_version_parts data = Inr c" "core_of v = c" "ver_id v = i" "ver_deleted_at v = None"
    "d' = d\<lparr>versions := versions d @ [v]\<rparr>" "satisfies version_constraints (versions d @ [v])"
proof -
  from assms obtain sid where sid: "js_prop data ''softwareId'' = JStr sid"
    by (auto simp: create_version_def split: jsval.splits)
  from assms obtain s c where *: "find_software d sid = Inr s" "sw_is_active s" "parse_version_parts data = Inr c"
      "core_of v = c" "ver_id v = i" "ver_software_id v = sw_id s" "ver_deleted_at v = None"
      "d' = d\<lparr>versions := versions d @ [v]\<rparr>" "satisfies version_constraints (versions d @ [v])"
    unfolding create_version_def sid
    by (auto simp: res_simps Let_def core_of_def)
  then have "sw_id s = sid" by (auto simp: find_software_def res_simps dest: find_by_Some)
  then show thesis using that [of s c] * sid by simp
qed

text \<open>
  A version that is created belongs to an active product and keeps what the update checks rely
  on: the constraints of the database, non-negative cores below one billion in each part, and no
  version of the product, deleted or not, with the same core; nothing else in the database changes
  and the new version is found under its identifier.
\<close>

theorem version_created:
  assumes "db_ok d" "versions_nonneg d" "create_version lib iso_day now i data d = Inr (v, d')"
  shows "db_ok d' \<and> versions_nonneg d' \<and> d' = d\<lparr>versions := versions d @ [v]\<rparr> \<and>
    (\<exists>s\<in>set (software d). sw_id s = ver_software_id v \<and> sw_is_active s) \<and>
    (\<forall>w\<in>set (versions d). ver_software_id w = ver_software_id v \<longrightarrow> core_of w \<noteq> core_of v) \<and>
    major (core_of v) < 10 ^ 9 \<and> minor (core_of v) < 10 ^ 9 \<and> patch (core_of v) < 10 ^ 9 \<and>
    find_version d' i = Inr v"
proof -
  obtain s c where *: "find_software d (ver_software_id v) = Inr s" "sw_is_active s"
    "parse_version_parts data = Inr c" "core_of v = c" "ver_id v = i" "ver_deleted_at v = None"
    "d' = d\<lparr>versions := versions d @ [v]\<rparr>" "satisfies version_constraints (versions d @ [v])"
    by (rule create_version_Inr [OF assms(3)])
  note b = version_parts_bounds [OF *(3)]
  have s: "s \<in> set (software d)" "sw_id s = ver_software_id v"
    using *(1) by (auto simp: find_software_def res_simps dest: find_by_Some)
  have ids: "distinct (map ver_id (versions d @ [v]))"
    and keys: "distinct (map (\<lambda>r. (ver_software_id r, ver_major r, ver_minor r, ver_patch r)) (versions d @ [v]))"
    using *(8) by (simp_all add: version_constraints_def unique_on_total)
  have "find_version d' i = Inr v"
    using find_by_distinct [OF distinct_map_filter' [OF ids], of v "\<lambda>r. ver_deleted_at r = None"] *(5,6,7)
    by (simp add: find_version_def ignore_deleted_def)
  moreover have "\<forall>w\<in>set (versions d). ver_software_id w = ver_software_id v \<longrightarrow> core_of w \<noteq> core_of v"
    using keys by (auto simp: core_of_def image_iff)
  ultimately show ?thesis
    using assms(1,2) * b s by (auto simp: db_ok_def versions_nonneg_def)
qed

definition sample_input :: "(string \<times> jsval) list" where
  "sample_input = [(''softwareId'', JStr ''s1''), (''major'', JStr ''2''), (''minor'', JStr ''0''),
     (''patch'', JNum (Fin 1)), (''isActive'', JStr ''on'')]"

lemma sample_nonneg: "versions_nonneg sample_db"
  by code_simp

lemma version_created_witness:
  "\<exists>v d'. create_version toy_semver (\<lambda>_. True) 9 ''v3'' sample_input sample_db = Inr (v, d') \<and>
     core_of v = Core 2 0 1 \<and> db_ok d' \<and> find_version d' ''v3'' = Inr v"
proof -
  let ?r = "create_version toy_semver (\<lambda>_. True) 9 ''v3'' sample_input sample_db"
  have "case ?r of Inl _ \<Rightarrow> False | Inr (v, _) \<Rightarrow> core_of v = Core 2 0 1" by code_simp
  then obtain v d' where r: "?r = Inr (v, d')" "core_of v = Core 2 0 1" by (auto split: sum.splits prod.splits)
  show ?thesis using version_created [OF sample_db_ok sample_nonneg r(1)] r by blast
qed

section \<open>Deleting versions\<close>

lemma delete_version_Inr:
  assumes "delete_version now i d = Inr (v, d')"
  obtains w where "w \<in> set (versions d)" "ver_id w = i" "ver_deleted_at w = None"
    "v = set_ver_deleted (Some now) w" "find_by_version_id d i = None"
    "d' = d\<lparr>versions := soft_delete ver_id set_ver_deleted now i (versions d)\<rparr>"
  using assms that
  by (auto simp: delete_version_def find_version_def res_simps row_simps dest!: find_by_Some)

text \<open>
  Deleting a version takes it from every later lookup, leaves the constraints, the artifacts and
  the other versions as they were, and is refused while an artifact that is not deleted belongs to
  it. But the row keeps its place in the unique index of the core, so creating the same version of
  that product again always ends in an exception.
\<close>

theorem deleted_version_blocks_core:
  assumes "db_ok d" "delete_version now i d = Inr (v, d')"
  shows "db_ok d' \<and> artifacts d' = artifacts d \<and> find_version d' i = Inl RowNotFound \<and>
    (\<forall>j. j \<noteq> i \<longrightarrow> find_version d' j = find_version d j) \<and>
    (\<forall>a\<in>set (artifacts d). art_version_id a = i \<longrightarrow> art_deleted_at a \<noteq> None) \<and>
    (\<forall>data c. js_prop data ''softwareId'' = JStr (ver_software_id v) \<longrightarrow>
       parse_version_parts data = Inr c \<longrightarrow> c = core_of v \<longrightarrow>
       (\<exists>e. create_version lib iso_day later k data d' = Inl e))"
proof -
  obtain w where w: "w \<in> set (versions d)" "ver_id w = i" "ver_deleted_at w = None"
    "v = set_ver_deleted (Some now) w" "find_by_version_id d i = None"
    "d' = d\<lparr>versions := soft_delete ver_id set_ver_deleted now i (versions d)\<rparr>"
    by (rule delete_version_Inr [OF assms(2)])
  have "map (\<lambda>r. (ver_id r, ver_software_id r, ver_major r, ver_minor r, ver_patch r)) (versions d') =
      map (\<lambda>r. (ver_id r, ver_software_id r, ver_major r, ver_minor r, ver_patch r)) (versions d)"
    by (simp add: w(6) soft_delete_def row_simps set_ver_deleted_def)
  then have "map ver_id (versions d') = map ver_id (versions d) \<and>
      map (\<lambda>r. (ver_software_id r, ver_major r, ver_minor r, ver_patch r)) (versions d') =
      map (\<lambda>r. (ver_software_id r, ver_major r, ver_minor r, ver_patch r)) (versions d)"
    by (simp add: w(6) soft_delete_def row_simps set_ver_deleted_def)
  then have ok: "db_ok d'"
    using assms(1) w(6) by (auto simp: db_ok_def version_constraints_def unique_on_total)
  have vin: "v \<in> set (versions d')" using w by (auto simp: soft_delete_def mem_modify_by)
  have blocked: "\<exists>e. create_version lib iso_day later k data d' = Inl e"
    if "js_prop data ''softwareId'' = JStr (ver_software_id v)" "parse_version_parts data = Inr (core_of v)" for data
  proof (rule ccontr)
    assume "\<nexists>e. create_version lib iso_day later k data d' = Inl e"
    then obtain x d'' where r: "create_version lib iso_day later k data d' = Inr (x, d'')"
      by (cases "create_version lib iso_day later k data d'") auto
    obtain c where "js_prop data ''softwareId'' = JStr (ver_software_id x)" "parse_version_parts data = Inr c"
      "core_of x = c" "satisfies version_constraints (versions d' @ [x])"
      by (rule create_version_Inr [OF r]) blast
    then show False using that vin
      by (auto simp: version_constraints_def unique_on_total core_of_def image_iff)
  qed
  have "find_version d' j = find_version d j" if "j \<noteq> i" for j
    using ver_sd.others_found [OF that] by (simp add: find_version_def w(6))
  moreover have "find_version d' i = Inl RowNotFound"
    using ver_sd.deleted_not_found by (simp add: find_version_def w(6))
  moreover have "art_deleted_at a \<noteq> None" if "a \<in> set (artifacts d)" "art_version_id a = i" for a
    using w(5) that by (auto simp: find_by_version_id_def row_simps image_iff)
  ultimately show ?thesis using ok blocked w(6) by auto
qed

lemma deleted_version_blocks_core_witness:
  "\<exists>v d'. delete_version 9 ''v2'' (sample_db\<lparr>artifacts := [sample_artifact]\<rparr>) = Inr (v, d') \<and>
     find_version d' ''v2'' = Inl RowNotFound \<and>
     (\<exists>e. create_version toy_semver (\<lambda>_. True) 10 ''v4''
        [(''softwareId'', JStr ''s1''), (''major'', JStr ''1''), (''minor'', JStr ''3''), (''patch'', JStr ''0'')] d' = Inl e)"
proof -
  let ?d = "sample_db\<lparr>artifacts := [sample_artifact]\<rparr>"
  have "db_ok ?d" using sample_db_ok by (auto simp: db_ok_def sample_tables artifact_constraints_def unique_on_total)
  moreover have "delete_version 9 ''v2'' ?d = Inr (sample_version2\<lparr>ver_deleted_at := Some 9\<rparr>,
      ?d\<lparr>versions := [sample_version, sample_version2\<lparr>ver_deleted_at := Some 9\<rparr>]\<rparr>)"
    by (simp add: delete_version_def find_version_def find_by_def ignore_deleted_def sample_tables sample_rows
        sample_fields find_by_version_id_def soft_delete_def modify_by_def set_ver_deleted_def sample_version2_def)
  moreover have "parse_version_parts [(''softwareId'', JStr ''s1''), (''major'', JStr ''1''), (''minor'', JStr ''3''),
      (''patch'', JStr ''0'')] = Inr (core_of (sample_version2\<lparr>ver_deleted_at := Some 9\<rparr>))" by code_simp
  moreover have "js_prop [(''softwareId'', JStr ''s1''), (''major'', JStr ''1''), (''minor'', JStr ''3''),
      (''patch'', JStr ''0'')] ''softwareId'' = JStr (ver_software_id (sample_version2\<lparr>ver_deleted_at := Some 9\<rparr>))" by code_simp
  ultimately show ?thesis using deleted_version_blocks_core [of ?d 9 "''v2''"] by blast
qed

section \<open>Updating versions\<close>

lemma plan_update_Inr:
  assumes "plan_update lib iso_day v data d = Inr c"
  shows "core_nonneg (vc_core c) \<and> parse_version_parts data = Inr (vc_core c)"
  using assms version_parts_bounds by (auto simp: plan_update_def res_simps)

lemma update_version_Inr:
  assumes "update_version lib iso_day i data d = Inr (v, d')"
  obtains w c where "w \<in> set (versions d)" "ver_id w = i" "plan_update lib iso_day w data d = Inr c"
    "v = apply_change c w" "satisfies version_constraints (modify_by ver_id i (apply_change c) (versions d))"
    "d' = (let e = d\<lparr>versions := modify_by ver_id i (apply_change c) (versions d)\<rparr>
           in if signed_metadata_changed w c then clear_version_signatures i e else e)"
proof -
  from assms obtain w c where *: "find_version d i = Inr w" "plan_update lib iso_day w data d = Inr c"
    "v = apply_change c w" "satisfies version_constraints (modify_by ver_id (ver_id w) (apply_change c) (versions d))"
    "d' = (let e = d\<lparr>versions := modify_by ver_id (ver_id w) (apply_change c) (versions d)\<rparr>
           in if signed_metadata_changed w c then clear_version_signatures (ver_id w) e else e)"
    by (auto simp: update_version_def save_version_def res_simps Let_def)
  have "w \<in> set (versions d) \<and> ver_id w = i"
    using *(1) by (auto simp: find_version_def res_simps row_simps dest!: find_by_Some)
  then have "w \<in> set (versions d)" and i: "ver_id w = i" by simp_all
  then show thesis using *(2,3) *(4,5) [unfolded i] by (intro that [of w c])
qed

lemma artifact_constraints_same:
  assumes "map (\<lambda>r. (art_id r, art_version_id r, art_platform_id r, art_architecture_id r, art_channel r)) xs =
           map (\<lambda>r. (art_id r, art_version_id r, art_platform_id r, art_architecture_id r, art_channel r)) ys"
  shows "satisfies artifact_constraints xs = satisfies artifact_constraints ys"
proof -
  have "map art_id xs = map art_id ys"
    using arg_cong [OF assms, of "map fst"] by (simp add: comp_def)
  moreover have "map (\<lambda>r. (art_version_id r, art_platform_id r, art_architecture_id r, art_channel r)) xs =
      map (\<lambda>r. (art_version_id r, art_platform_id r, art_architecture_id r, art_channel r)) ys"
    using arg_cong [OF assms, of "map snd"] by (simp add: comp_def)
  ultimately show ?thesis by (simp only: artifact_constraints_def satisfies_Cons satisfies_Nil unique_on_total)
qed

lemma clear_signatures_constraints:
  "satisfies artifact_constraints (update_where P clear_signature xs) = satisfies artifact_constraints xs"
  by (rule artifact_constraints_same) (rule map_update_where, simp)

text \<open>The release of an artifact after its version was changed without touching signed metadata.\<close>

lemma apply_change_manifest:
  assumes "\<not> signed_metadata_changed w c"
  shows "version_text (apply_change c w) = version_text w \<and> ver_codename (apply_change c w) = ver_codename w \<and>
    ver_changelog (apply_change c w) = ver_changelog w \<and> ver_software_id (apply_change c w) = ver_software_id w"
  using assms by (simp add: apply_change_def signed_metadata_changed_def version_text_def)

lemma find_changed_version:
  assumes "ver_id (apply_change c w) = i \<longleftrightarrow> ver_id w = i"
  shows "find_by ver_id j (ignore_deleted ver_deleted_at (modify_by ver_id i (apply_change c) vs)) =
    map_option (\<lambda>v. if ver_id v = i then apply_change c v else v)
      (find_by ver_id j (ignore_deleted ver_deleted_at vs))"
  by (induction vs) (auto simp: find_by_def ignore_deleted_def modify_by_def apply_change_def)

lemma unchanged_manifest:
  assumes "distinct (map ver_id (versions d))" "w \<in> set (versions d)" "\<not> signed_metadata_changed w c"
  shows "build_ota_release_manifest
      (load_release (d\<lparr>versions := modify_by ver_id (ver_id w) (apply_change c) (versions d)\<rparr>) a) =
    build_ota_release_manifest (load_release d a)"
proof -
  let ?d = "d\<lparr>versions := modify_by ver_id (ver_id w) (apply_change c) (versions d)\<rparr>"
  have f: "find_by ver_id j (ignore_deleted ver_deleted_at (versions ?d)) =
      map_option (\<lambda>v. if ver_id v = ver_id w then apply_change c v else v)
        (find_by ver_id j (ignore_deleted ver_deleted_at (versions d)))" for j
    using find_changed_version [of c w "ver_id w" j "versions d"] by (simp add: apply_change_def)
  show ?thesis
  proof (cases "find_by ver_id (art_version_id a) (ignore_deleted ver_deleted_at (versions d))")
    case None
    then show ?thesis using f [of "art_version_id a"]
      by (simp add: build_ota_release_manifest_def load_release_def Let_def)
  next
    case (Some v)
    then have "v \<in> set (versions d)" by (auto dest!: find_by_Some simp: row_simps)
    then have "ver_id v = ver_id w \<Longrightarrow> v = w" using assms(1,2) by (auto dest: distinct_map_inj)
    then obtain v' where v': "(if ver_id v = ver_id w then apply_change c v else v) = v'"
      "version_text v' = version_text v" "ver_codename v' = ver_codename v"
      "ver_changelog v' = ver_changelog v" "ver_software_id v' = ver_software_id v"
      using apply_change_manifest [OF assms(3)] by (cases "ver_id v = ver_id w") simp_all
    have "find_by ver_id (art_version_id a) (ignore_deleted ver_deleted_at (versions ?d)) = Some v'"
      using f [of "art_version_id a"] Some v'(1) by simp
    then show ?thesis using Some v'(2-)
      by (simp add: build_ota_release_manifest_def load_release_def Let_def split: option.splits)
  qed
qed

lemma update_version_artifacts:
  assumes ids: "distinct (map ver_id (versions d))" and w: "w \<in> set (versions d)"
    and d': "d' = (let e = d\<lparr>versions := modify_by ver_id (ver_id w) (apply_change c) (versions d)\<rparr>
           in if signed_metadata_changed w c then clear_version_signatures (ver_id w) e else e)"
    and a: "a' \<in> set (artifacts d')"
  shows "\<exists>a\<in>set (artifacts d). (a' = a \<and> (art_version_id a = ver_id w \<longrightarrow>
       build_ota_release_manifest (load_release d' a) = build_ota_release_manifest (load_release d a))) \<or>
     (art_version_id a = ver_id w \<and> a' = clear_signature a)"
proof (cases "signed_metadata_changed w c")
  case True
  then obtain b where b: "b \<in> set (artifacts d)" "a' = (if art_version_id b = ver_id w then clear_signature b else b)"
    using a by (auto simp: d' clear_version_signatures_def mem_update_where Let_def)
  then show ?thesis by (intro bexI [of _ b]) auto
next
  case False
  then show ?thesis using a unchanged_manifest [OF ids w False] by (auto simp: d' Let_def)
qed

text \<open>
  C16. No signature outlives the metadata it covers. After a version is updated, the database keeps its
  constraints and its non-negative cores, and every artifact of the version either lost its signature,
  key id and signed manifest, or still has exactly the manifest it had before; artifacts of other
  versions are untouched.
\<close>

theorem version_update_invalidates:
  assumes "db_ok d" "versions_nonneg d" "update_version lib iso_day i data d = Inr (v, d')"
  shows "db_ok d' \<and> versions_nonneg d' \<and> ver_id v = i \<and> v \<in> set (versions d') \<and>
    (\<forall>a'\<in>set (artifacts d'). \<exists>a\<in>set (artifacts d).
       (a' = a \<and> (art_version_id a = i \<longrightarrow>
          build_ota_release_manifest (load_release d' a) = build_ota_release_manifest (load_release d a))) \<or>
       (art_version_id a = i \<and> a' = clear_signature a))"
proof -
  obtain w c where w: "w \<in> set (versions d)" "ver_id w = i" "plan_update lib iso_day w data d = Inr c"
    "v = apply_change c w" "satisfies version_constraints (modify_by ver_id i (apply_change c) (versions d))"
    "d' = (let e = d\<lparr>versions := modify_by ver_id i (apply_change c) (versions d)\<rparr>
           in if signed_metadata_changed w c then clear_version_signatures i e else e)"
    by (rule update_version_Inr [OF assms(3)])
  have ids: "distinct (map ver_id (versions d))"
    using assms(1) by (simp add: db_ok_def version_constraints_def unique_on_total)
  have vs: "versions d' = modify_by ver_id i (apply_change c) (versions d)"
    by (simp add: w(6) Let_def clear_version_signatures_def)
  have "satisfies artifact_constraints (artifacts d')"
    using assms(1) by (simp add: w(6) Let_def clear_version_signatures_def clear_signatures_constraints db_ok_def)
  then have "db_ok d'" using assms(1) w(5,6) by (simp add: db_ok_def Let_def clear_version_signatures_def)
  moreover have "versions_nonneg d'"
    using assms(2) plan_update_Inr [OF w(3)]
    by (auto simp: versions_nonneg_def vs list_all_iff mem_modify_by core_of_def apply_change_def core_nonneg_def)
  moreover have "v \<in> set (versions d')" "ver_id v = i" using w(1,2,4) by (auto simp: vs mem_modify_by apply_change_def)
  ultimately show ?thesis
    using update_version_artifacts [OF ids w(1) w(6) [folded w(2)]] unfolding w(2) by blast
qed

definition sample_update :: "(string \<times> jsval) list" where
  "sample_update = [(''major'', JStr ''1''), (''minor'', JStr ''2''), (''patch'', JStr ''4''),
     (''changelog'', JStr ''fix''), (''isActive'', JStr ''on'')]"

lemma version_update_invalidates_witness:
  "\<exists>v d'. update_version toy_semver (\<lambda>_. True) ''v1'' sample_update sample_db = Inr (v, d') \<and>
     core_of v = Core 1 2 4 \<and> db_ok d' \<and> v \<in> set (versions d')"
proof -
  let ?r = "update_version toy_semver (\<lambda>_. True) ''v1'' sample_update sample_db"
  have "plan_update toy_semver (\<lambda>_. True) sample_version sample_update sample_db =
      Inr \<lparr> vc_core = Core 1 2 4, vc_codename = None, vc_changelog = Some ''fix'', vc_is_active = True, vc_release_date = None \<rparr>"
    by code_simp
  moreover have "find_version sample_db ''v1'' = Inr sample_version" by code_simp
  moreover have "case save_version (apply_change \<lparr> vc_core = Core 1 2 4, vc_codename = None, vc_changelog = Some ''fix'',
      vc_is_active = True, vc_release_date = None \<rparr>) ''v1'' sample_db of Inl _ \<Rightarrow> False | Inr _ \<Rightarrow> True" by code_simp
  ultimately obtain v d' where r: "?r = Inr (v, d')" "core_of v = Core 1 2 4"
    by (auto simp: update_version_def apply_change_def core_of_def sample_rows split: sum.splits)
  show ?thesis using version_update_invalidates [OF sample_db_ok sample_nonneg r(1)] r
    by (intro exI [of _ v] exI [of _ d']) simp
qed

end
