(* ===== verification/Object_Storage.thy ===== *)
theory Object_Storage
  imports Encoding JS_Values
begin

text \<open>
  \<open>app/services/storage/base_storage_provider.ts\<close>: the interface of a storage backend, as the record
  of its operations on a state of the backend, and the contract the artifact service relies on.
\<close>

text \<open>
  An operation returns its result (or the exception it throws) and the state it leaves. The file an
  upload streams is a parameter: its bytes, or the error that ends the stream.
\<close>

record 's storage =
  so_upload :: "string \<Rightarrow> bytes res \<Rightarrow> 's \<Rightarrow> string res \<times> 's"
  so_get :: "string \<Rightarrow> 's \<Rightarrow> bytes res"
  so_delete :: "string \<Rightarrow> 's \<Rightarrow> unit res \<times> 's"

text \<open>
  The contract, over the objects a state holds under the keys in use: a successful upload stores the
  bytes under the key it was given, which was free; a failed one stores nothing; deleting removes
  the object or reports an error, also when there was none; other keys are left alone.
\<close>

locale object_storage =
  fixes st :: "'s storage"
    and content :: "'s \<Rightarrow> string \<Rightarrow> bytes option"
    and good :: "'s \<Rightarrow> bool"
    and usable :: "string \<Rightarrow> bool"
  assumes good_upload: "good s \<Longrightarrow> usable k \<Longrightarrow> good (snd (so_upload st k b s))"
    and good_delete: "good s \<Longrightarrow> usable k \<Longrightarrow> good (snd (so_delete st k s))"
    and upload_stores: "good s \<Longrightarrow> usable k \<Longrightarrow> so_upload st k b s = (Inr k', s') \<Longrightarrow>
      k' = k \<and> content s k = None \<and> (\<exists>x. b = Inr x \<and> content s' = (content s)(k \<mapsto> x))"
    and upload_fails: "good s \<Longrightarrow> usable k \<Longrightarrow> content s k = None \<Longrightarrow> so_upload st k b s = (Inl e, s') \<Longrightarrow>
      content s' = content s"
    and delete_removes: "good s \<Longrightarrow> usable k \<Longrightarrow> so_delete st k s = (Inr u, s') \<Longrightarrow>
      content s' = (content s)(k := None)"
    and delete_fails: "good s \<Longrightarrow> usable k \<Longrightarrow> so_delete st k s = (Inl e, s') \<Longrightarrow> content s' = content s"
    and get_reads: "good s \<Longrightarrow> usable k \<Longrightarrow> so_get st k s = Inr x \<longleftrightarrow> content s k = Some x"
begin

lemma upload_get:
  assumes "good s" "usable k" "so_upload st k (Inr x) s = (Inr k', s')"
  shows "so_get st k s' = Inr x"
proof -
  have "content s' = (content s)(k \<mapsto> x)" using upload_stores [OF assms] by auto
  moreover have "good s'" using good_upload [OF assms(1,2), of "Inr x"] assms(3) by simp
  ultimately show ?thesis using get_reads [OF _ assms(2)] by simp
qed

lemma delete_get:
  assumes "good s" "usable k" "so_delete st k s = (Inr u, s')"
  shows "\<exists>e. so_get st k s' = Inl e"
proof -
  have "content s' k = None" using delete_removes [OF assms] by simp
  moreover have "good s'" using good_delete [OF assms(1,2)] assms(3) by simp
  ultimately show ?thesis using get_reads [OF _ assms(2)] by (cases "so_get st k s'") auto
qed

lemma undone:
  assumes "good s" "usable k" "so_upload st k b s = (Inr k', s')" "so_delete st k s' = (Inr u, s'')"
  shows "content s'' = content s"
proof -
  have "good s'" using good_upload [OF assms(1,2), of b] assms(3) by simp
  then have "content s'' = (content s')(k := None)" using delete_removes assms(2,4) by blast
  then show ?thesis using upload_stores [OF assms(1-3)] by auto
qed

end

end
