(* ===== verification/Local_Storage.thy ===== *)
theory Local_Storage
  imports Object_Storage "HOL-Library.Sublist"
begin

text \<open>
  \<open>app/services/storage/providers/local_provider.ts\<close>: storage on the local disk. A file system maps
  absolute paths, lists of segments, to directories, regular files and symbolic links; a path is
  the list of its segments. What the provider does between two system calls is not interleaved
  with other processes.
\<close>

datatype node = Dir | Reg bytes | Link "string list"

type_synonym fs = "string list \<Rightarrow> node option"

text \<open>Every node but the root lies in a directory.\<close>

definition fs_ok :: "fs \<Rightarrow> bool" where
  "fs_ok fs \<longleftrightarrow> fs [] = Some Dir \<and> (\<forall>p s. fs (p @ [s]) \<noteq> None \<longrightarrow> fs p = Some Dir)"

section \<open>Paths\<close>

text \<open>\<open>path.resolve(base, ...segments)\<close> and \<open>path.relative(base, p)\<close> on POSIX, by segments.\<close>

definition resolve_step :: "string list \<Rightarrow> string \<Rightarrow> string list" where
  "resolve_step p s = (if s = [] \<or> s = ''.'' then p else if s = ''..'' then butlast p else p @ [s])"

definition resolve_path :: "string list \<Rightarrow> string list \<Rightarrow> string list" where
  "resolve_path base segments = foldl resolve_step base segments"

definition absolute_path :: "string list \<Rightarrow> string \<Rightarrow> string list" where
  "absolute_path cwd s = resolve_path (if starts_with s ''/'' then [] else cwd) (split_on (CHR ''/'') s)"

fun relative_path :: "string list \<Rightarrow> string list \<Rightarrow> string list" where
  "relative_path (a # as) (b # bs) =
     (if a = b then relative_path as bs else replicate (Suc (length as)) ''..'' @ b # bs)"
| "relative_path as bs = replicate (length as) ''..'' @ bs"

text \<open>\<open>fs.realpath\<close>: at most \<open>n\<close> symbolic links are followed.\<close>

fun real_path :: "fs \<Rightarrow> nat \<Rightarrow> string list \<Rightarrow> string list \<Rightarrow> string list res" where
  "real_path fs n p [] = Inr p"
| "real_path fs n p (s # rest) =
     (case fs (p @ [s]) of
        None \<Rightarrow> Inl (Fault ''ENOENT'')
      | Some Dir \<Rightarrow> real_path fs n (p @ [s]) rest
      | Some (Reg b) \<Rightarrow> if rest = [] then Inr (p @ [s]) else Inl (Fault ''ENOTDIR'')
      | Some (Link t) \<Rightarrow>
          (case n of 0 \<Rightarrow> Inl (Fault ''ELOOP'') | Suc k \<Rightarrow> real_path fs k [] (t @ rest)))"

definition max_links :: nat where
  "max_links = 40"

definition realpath :: "fs \<Rightarrow> string list \<Rightarrow> string list res" where
  "realpath fs p = real_path fs max_links [] p"

text \<open>\<open>fs.mkdir(path, { recursive: true })\<close>, on the reversed path; the result is the directory.\<close>

fun mkdir_recursive :: "fs \<Rightarrow> string list \<Rightarrow> string list res \<times> fs" where
  "mkdir_recursive fs [] = (Inr [], fs)"
| "mkdir_recursive fs (s # rp) =
     (case realpath fs (rev (s # rp)) of
        Inr r \<Rightarrow> if fs r = Some Dir then (Inr r, fs) else (Inl (Fault ''EEXIST''), fs)
      | Inl e \<Rightarrow>
          if e \<noteq> Fault ''ENOENT'' then (Inl e, fs)
          else (case mkdir_recursive fs rp of
              (Inl e', fs') \<Rightarrow> (Inl e', fs')
            | (Inr q, fs') \<Rightarrow>
                if fs' (q @ [s]) \<noteq> None then (Inl (Fault ''EEXIST''), fs')
                else (Inr (q @ [s]), fs'(q @ [s] \<mapsto> Dir))))"

section \<open>The provider\<close>

text \<open>\<open>config.root || path.join(process.cwd(), 'storage', 'uploads')\<close>\<close>

definition root_path :: "string list \<Rightarrow> jsval \<Rightarrow> string list res" where
  "root_path cwd base =
     (if truthy base then
        (case base of JStr s \<Rightarrow> Inr (absolute_path cwd s) | _ \<Rightarrow> Inl (Fault ''ERR_INVALID_ARG_TYPE''))
      else Inr (cwd @ [''storage'', ''uploads'']))"

definition get_real_root :: "string list \<Rightarrow> bool \<Rightarrow> fs \<Rightarrow> string list res \<times> fs" where
  "get_real_root base create fs =
     (case (if create then mkdir_recursive fs (rev base) else (Inr [], fs)) of
        (Inl e, fs') \<Rightarrow> (Inl e, fs')
      | (Inr _, fs') \<Rightarrow>
          (bind_res (realpath fs' base) (\<lambda>r.
             throw_if (fs' r \<noteq> Some Dir) (Error ''Local storage root is not a directory.'') (Inr r)), fs'))"

definition assert_contained :: "string list \<Rightarrow> string list \<Rightarrow> unit res" where
  "assert_contained base candidate =
     (let relative = relative_path base candidate
      in throw_if (relative = [] \<or> hd relative = ''..'')
           (Error ''Storage key escapes the configured root.'') (Inr ()))"

definition resolve_key :: "string list \<Rightarrow> string \<Rightarrow> string list res" where
  "resolve_key base key =
     (if key = [] \<or> CHR 0x00 \<in> set key \<or> CHR 0x5C \<in> set key \<or> starts_with key ''/'' \<or>
         list_ex (\<lambda>s. s = [] \<or> s = ''.'' \<or> s = ''..'') (split_on (CHR ''/'') key)
      then Inl (Error ''Invalid storage key.'')
      else (let full = resolve_path base (split_on (CHR ''/'') key)
            in bind_res (assert_contained base full) (\<lambda>_. Inr full)))"

text \<open>The loop of \<open>ensureSafeDirectories\<close> over the segments below the root.\<close>

fun ensure_dirs :: "string list \<Rightarrow> string list \<Rightarrow> string list \<Rightarrow> fs \<Rightarrow> unit res \<times> fs" where
  "ensure_dirs base current [] fs = (Inr (), fs)"
| "ensure_dirs base current (s # rest) fs =
     (let p = current @ [s];
          fs' = (if fs p = None then fs(p \<mapsto> Dir) else fs)
      in if fs' p \<noteq> Some Dir
         then (Inl (Error ''Storage path contains a symlink or non-directory component.''), fs')
         else (case bind_res (realpath fs' p) (assert_contained base) of
             Inl e \<Rightarrow> (Inl e, fs')
           | Inr _ \<Rightarrow> ensure_dirs base p rest fs'))"

definition ensure_safe_directories :: "string list \<Rightarrow> string list \<Rightarrow> fs \<Rightarrow> unit res \<times> fs" where
  "ensure_safe_directories base target fs =
     (let relative = relative_path base target
      in if relative \<noteq> [] \<and> hd relative = ''..''
         then (Inl (Error ''Storage key escapes the configured root.''), fs)
         else ensure_dirs base base relative fs)"

fun no_symlink :: "string list \<Rightarrow> string list \<Rightarrow> fs \<Rightarrow> unit res" where
  "no_symlink current [] fs = Inr ()"
| "no_symlink current (s # rest) fs =
     (case fs (current @ [s]) of
        None \<Rightarrow> Inl (Fault ''ENOENT'')
      | Some (Link t) \<Rightarrow> Inl (Error ''Storage path contains a symlink.'')
      | Some nd \<Rightarrow>
          if rest \<noteq> [] \<and> nd \<noteq> Dir then Inl (Error ''Storage path contains a non-directory component.'')
          else no_symlink (current @ [s]) rest fs)"

definition assert_no_symlink_path :: "string list \<Rightarrow> string list \<Rightarrow> fs \<Rightarrow> unit res" where
  "assert_no_symlink_path base target fs =
     (let relative = relative_path base target
      in if relative \<noteq> [] \<and> hd relative = ''..''
         then Inl (Error ''Storage key escapes the configured root.'')
         else no_symlink base relative fs)"

text \<open>
  The pipeline into \<open>createWriteStream(fullPath, { flags: 'wx' })\<close> fails when the path exists or the
  file stream fails; the handler then unlinks the path, ignoring errors (a directory stays).
\<close>

definition unlink_quiet :: "string list \<Rightarrow> fs \<Rightarrow> fs" where
  "unlink_quiet p fs = (if fs p = Some Dir then fs else fs(p := None))"

definition write_new :: "string list \<Rightarrow> bytes res \<Rightarrow> fs \<Rightarrow> unit res \<times> fs" where
  "write_new p b fs =
     (if fs p \<noteq> None then (Inl (Fault ''EEXIST''), unlink_quiet p fs)
      else (case b of
          Inl e \<Rightarrow> (Inl e, unlink_quiet p (fs(p \<mapsto> Reg [])))
        | Inr x \<Rightarrow> (Inr (), fs(p \<mapsto> Reg x))))"

definition local_upload :: "string list \<Rightarrow> string \<Rightarrow> bytes res \<Rightarrow> fs \<Rightarrow> string res \<times> fs" where
  "local_upload root_cfg key b fs =
     (case get_real_root root_cfg True fs of
        (Inl e, fs1) \<Rightarrow> (Inl e, fs1)
      | (Inr base, fs1) \<Rightarrow>
          (case resolve_key base key of
             Inl e \<Rightarrow> (Inl e, fs1)
           | Inr full \<Rightarrow>
               (case ensure_safe_directories base (butlast full) fs1 of
                  (Inl e, fs2) \<Rightarrow> (Inl e, fs2)
                | (Inr _, fs2) \<Rightarrow>
                    (case write_new full b fs2 of
                       (Inl e, fs3) \<Rightarrow> (Inl e, fs3)
                     | (Inr _, fs3) \<Rightarrow> (Inr key, fs3)))))"

definition open_key :: "string list \<Rightarrow> string \<Rightarrow> fs \<Rightarrow> string list res" where
  "open_key root_cfg key fs =
     bind_res (fst (get_real_root root_cfg False fs)) (\<lambda>base.
     bind_res (resolve_key base key) (\<lambda>full.
     bind_res (assert_no_symlink_path base full fs) (\<lambda>_.
     bind_res (realpath fs full) (\<lambda>canonical.
     bind_res (assert_contained base canonical) (\<lambda>_. Inr canonical)))))"

definition local_get :: "string list \<Rightarrow> string \<Rightarrow> fs \<Rightarrow> bytes res" where
  "local_get root_cfg key fs =
     bind_res (open_key root_cfg key fs) (\<lambda>canonical.
     case fs canonical of
       Some (Reg x) \<Rightarrow> Inr x
     | _ \<Rightarrow> Inl (Error ''Storage key is not a regular file.''))"

definition local_delete :: "string list \<Rightarrow> string \<Rightarrow> fs \<Rightarrow> unit res \<times> fs" where
  "local_delete root_cfg key fs =
     (case open_key root_cfg key fs of
        Inl e \<Rightarrow> (if e = Fault ''ENOENT'' then Inr () else Inl e, fs)
      | Inr canonical \<Rightarrow>
          (case fs canonical of
             Some (Reg x) \<Rightarrow> (Inr (), fs(canonical := None))
           | _ \<Rightarrow> (Inr (), fs)))"

definition local_storage :: "string list \<Rightarrow> fs storage" where
  "local_storage root_cfg = \<lparr> so_upload = local_upload root_cfg, so_get = local_get root_cfg,
     so_delete = local_delete root_cfg \<rparr>"

section \<open>Keys stay below the root\<close>

definition key_ok :: "string \<Rightarrow> bool" where
  "key_ok key \<longleftrightarrow> key \<noteq> [] \<and> CHR 0x00 \<notin> set key \<and> CHR 0x5C \<notin> set key \<and> \<not> starts_with key ''/'' \<and>
     list_all (\<lambda>s. s \<noteq> [] \<and> s \<noteq> ''.'' \<and> s \<noteq> ''..'') (split_on (CHR ''/'') key)"

abbreviation segments :: "string \<Rightarrow> string list" where
  "segments key \<equiv> split_on (CHR ''/'') key"

lemma resolve_path_plain:
  "list_all (\<lambda>s. s \<noteq> [] \<and> s \<noteq> ''.'' \<and> s \<noteq> ''..'') q \<Longrightarrow> resolve_path p q = p @ q"
  by (induction q arbitrary: p) (simp_all add: resolve_path_def resolve_step_def)

lemma relative_path_append [simp]: "relative_path p (p @ q) = q"
  by (induction p) (auto intro: relative_path.elims)

lemma relative_path_inside:
  "relative_path p c = [] \<or> hd (relative_path p c) \<noteq> ''..'' \<Longrightarrow> c = p @ relative_path p c"
proof (induction p arbitrary: c)
  case (Cons a p)
  then show ?case by (cases c) (auto split: if_splits)
qed simp

lemma contained_prefix: "assert_contained p c = Inr () \<Longrightarrow> strict_prefix p c"
  using relative_path_inside [of p c]
  by (auto simp: assert_contained_def Let_def throw_if_def strict_prefix_def prefix_def split: if_splits)

lemma contained_append: "q \<noteq> [] \<Longrightarrow> hd q \<noteq> ''..'' \<Longrightarrow> assert_contained p (p @ q) = Inr ()"
  by (simp add: assert_contained_def)

lemma segments_plain:
  "key_ok key \<Longrightarrow> segments key \<noteq> [] \<and> hd (segments key) \<noteq> ''..'' \<and>
     list_all (\<lambda>s. s \<noteq> [] \<and> s \<noteq> ''.'' \<and> s \<noteq> ''..'') (segments key)"
  using list.set_sel(1) [of "segments key"] by (auto simp: key_ok_def list_all_iff)

lemma resolve_key_iff: "resolve_key base key = Inr p \<longleftrightarrow> key_ok key \<and> p = base @ segments key"
proof (cases "key_ok key")
  case True
  then have "resolve_path base (segments key) = base @ segments key"
    "assert_contained base (base @ segments key) = Inr ()"
    using segments_plain [OF True] by (simp_all add: resolve_path_plain contained_append)
  then show ?thesis using True
    by (auto simp: resolve_key_def key_ok_def list_ex_iff list_all_iff Let_def)
next
  case False
  then show ?thesis by (auto simp: resolve_key_def key_ok_def list_ex_iff list_all_iff)
qed

lemma resolve_key_bad: "\<not> key_ok key \<Longrightarrow> resolve_key base key = Inl (Error ''Invalid storage key.'')"
  by (auto simp: resolve_key_def key_ok_def list_ex_iff list_all_iff)

lemma segments_inject [simp]: "segments k = segments k' \<longleftrightarrow> k = k'"
  by (metis join_split_on)

section \<open>The tree of files\<close>

lemma fs_parent: "fs_ok fs \<Longrightarrow> fs (p @ q) \<noteq> None \<Longrightarrow> q \<noteq> [] \<Longrightarrow> fs p = Some Dir"
proof (induction q rule: rev_induct)
  case (snoc s q)
  then have "fs (p @ q) = Some Dir" unfolding fs_ok_def by (metis append.assoc)
  then show ?case using snoc by (cases "q = []") auto
qed simp

lemma fs_none_below: "fs_ok fs \<Longrightarrow> fs p = None \<Longrightarrow> fs (p @ q) = None"
  using fs_parent [of fs p q] by (cases "q = []"; cases "fs (p @ q)") simp_all

lemma real_path_plain:
  "fs_ok fs \<Longrightarrow> fs (p @ q) = Some nd \<Longrightarrow> (\<And>t. nd \<noteq> Link t) \<Longrightarrow> real_path fs n p q = Inr (p @ q)"
proof (induction q arbitrary: p)
  case (Cons s q)
  show ?case
  proof (cases "q = []")
    case True
    then show ?thesis using Cons.prems by (cases nd) auto
  next
    case False
    then have "fs (p @ [s]) = Some Dir" using fs_parent [of fs "p @ [s]" q] Cons.prems by simp
    then show ?thesis using Cons.IH [of "p @ [s]"] Cons.prems by simp
  qed
qed simp

lemma no_symlink_plain:
  "fs_ok fs \<Longrightarrow> fs (p @ q) = Some nd \<Longrightarrow> (\<And>t. nd \<noteq> Link t) \<Longrightarrow> no_symlink p q fs = Inr ()"
proof (induction q arbitrary: p)
  case (Cons s q)
  show ?case
  proof (cases "q = []")
    case True
    then show ?thesis using Cons.prems by (cases nd) auto
  next
    case False
    then have "fs (p @ [s]) = Some Dir" using fs_parent [of fs "p @ [s]" q] Cons.prems by simp
    then show ?thesis using Cons.IH [of "p @ [s]"] Cons.prems by simp
  qed
qed simp

lemma no_symlink_Inr:
  "no_symlink p q fs = Inr () \<Longrightarrow> q \<noteq> [] \<Longrightarrow> \<exists>nd. fs (p @ q) = Some nd \<and> (\<forall>t. nd \<noteq> Link t)"
proof (induction q arbitrary: p)
  case (Cons s q)
  then have n: "no_symlink (p @ [s]) q fs = Inr ()"
    by (auto split: option.splits node.splits if_splits)
  show ?case
  proof (cases "q = []")
    case True
    then show ?thesis using Cons.prems by (auto split: option.splits node.splits)
  next
    case False
    then show ?thesis using Cons.IH [OF n] by simp
  qed
qed simp

text \<open>\<open>fs'\<close> has the nodes of \<open>fs\<close> and some more directories.\<close>

definition more_dirs :: "fs \<Rightarrow> fs \<Rightarrow> bool" where
  "more_dirs fs fs' \<longleftrightarrow> (\<forall>p. fs' p = fs p \<or> (fs p = None \<and> fs' p = Some Dir))"

lemma more_dirs_refl [simp]: "more_dirs fs fs"
  by (simp add: more_dirs_def)

lemma more_dirs_trans: "more_dirs a b \<Longrightarrow> more_dirs b c \<Longrightarrow> more_dirs a c"
  unfolding more_dirs_def by metis

lemma more_dirs_add: "fs p = None \<Longrightarrow> more_dirs fs (fs(p \<mapsto> Dir))"
  by (simp add: more_dirs_def)

lemma fs_ok_add: "fs_ok fs \<Longrightarrow> fs p = Some Dir \<Longrightarrow> fs (p @ [s]) = None \<Longrightarrow> fs_ok (fs(p @ [s] \<mapsto> nd))"
proof -
  assume a: "fs_ok fs" "fs p = Some Dir" "fs (p @ [s]) = None"
  have "(fs(p @ [s] \<mapsto> nd)) q = Some Dir" if "(fs(p @ [s] \<mapsto> nd)) (q @ [t]) \<noteq> None" for q t
  proof -
    have "q \<noteq> p @ [s]"
    proof
      assume q: "q = p @ [s]"
      then have "fs (q @ [t]) \<noteq> None" using that by (auto split: if_splits)
      then show False using a q unfolding fs_ok_def by (metis option.distinct(1))
    qed
    then show ?thesis using a that unfolding fs_ok_def by (auto split: if_splits)
  qed
  then show ?thesis using a by (auto simp: fs_ok_def)
qed

lemma real_path_mono: "more_dirs fs fs' \<Longrightarrow> real_path fs n p q = Inr r \<Longrightarrow> real_path fs' n p q = Inr r"
proof (induction fs n p q rule: real_path.induct)
  case (2 fs n p s rest)
  have "fs (p @ [s]) \<noteq> None" using 2(4) by (auto split: option.splits)
  then have m: "fs' (p @ [s]) = fs (p @ [s])" using 2(3) unfolding more_dirs_def by metis
  show ?case
  proof (cases "fs (p @ [s])")
    case None
    then show ?thesis using 2(4) by simp
  next
    case (Some nd)
    then show ?thesis using 2 m by (cases nd) (auto split: nat.splits if_splits)
  qed
qed simp

lemma real_path_new:
  "fs_ok fs \<Longrightarrow> more_dirs fs fs' \<Longrightarrow> fs p = None \<Longrightarrow> real_path fs' n p q = Inr r \<Longrightarrow> fs r = None"
proof (induction q arbitrary: p)
  case (Cons s q)
  have n: "fs (p @ [s]) = None" using fs_none_below Cons.prems(1,3) by blast
  then have "fs' (p @ [s]) = None \<or> fs' (p @ [s]) = Some Dir"
    using Cons.prems(2) unfolding more_dirs_def by metis
  then show ?case using Cons.IH [OF Cons.prems(1,2) n] Cons.prems(4) by auto
qed simp

lemma real_path_back:
  "fs_ok fs \<Longrightarrow> more_dirs fs fs' \<Longrightarrow> real_path fs' n p q = Inr r \<Longrightarrow> real_path fs n p q = Inr r \<or> fs r = None"
proof (induction fs' n p q rule: real_path.induct)
  case (2 fs' n p s rest)
  show ?case
  proof (cases "fs (p @ [s]) = fs' (p @ [s])")
    case True
    then show ?thesis using 2 by (auto split: option.splits node.splits nat.splits if_splits)
  next
    case False
    then have f: "fs (p @ [s]) = None" "fs' (p @ [s]) = Some Dir"
      using 2(4) unfolding more_dirs_def by metis+
    then have "real_path fs' n (p @ [s]) rest = Inr r" using 2(5) by simp
    then have "fs r = None" by (rule real_path_new [OF 2(3,4) f(1)])
    then show ?thesis ..
  qed
qed simp

text \<open>A file or a free path does not lie on the way to a directory.\<close>

lemma real_path_other:
  assumes "fs x = None \<or> fs x = Some (Reg b)"
  shows "real_path fs n p q = Inr r \<Longrightarrow> fs r = Some Dir \<Longrightarrow> r \<noteq> x \<Longrightarrow> real_path (fs(x := y)) n p q = Inr r"
  using assms
proof (induction fs n p q rule: real_path.induct)
  case (2 fs n p s rest)
  show ?case
  proof (cases "p @ [s] = x")
    case True
    then show ?thesis using 2(3-6) by (auto split: option.splits node.splits if_splits)
  next
    case False
    then show ?thesis using 2 by (auto split: option.splits node.splits nat.splits if_splits)
  qed
qed simp

lemma mkdir_recursive_dirs:
  "fs_ok fs \<Longrightarrow> mkdir_recursive fs rp = (x, fs') \<Longrightarrow>
     fs_ok fs' \<and> more_dirs fs fs' \<and> (\<forall>r. x = Inr r \<longrightarrow> fs' r = Some Dir)"
proof (induction fs rp arbitrary: x fs' rule: mkdir_recursive.induct)
  case (1 fs)
  then show ?case by (auto simp: fs_ok_def)
next
  case (2 fs s rp)
  show ?case
  proof (cases "realpath fs (rev (s # rp)) = Inl (Fault ''ENOENT'')")
    case False
    then show ?thesis using 2(2,3) by (auto split: sum.splits if_splits)
  next
    case True
    obtain y fs1 where m: "mkdir_recursive fs rp = (y, fs1)" by (cases "mkdir_recursive fs rp")
    have IH: "fs_ok fs1" "more_dirs fs fs1" "\<And>r. y = Inr r \<Longrightarrow> fs1 r = Some Dir"
      using 2(1) [OF True _ 2(2) m] by auto
    show ?thesis
    proof (cases y)
      case (Inl e)
      then show ?thesis using 2(3) True m IH by auto
    next
      case (Inr q)
      have d: "fs1 q = Some Dir" by (rule IH(3) [OF Inr])
      show ?thesis
      proof (cases "fs1 (q @ [s])")
        case None
        then have "x = Inr (q @ [s])" "fs' = fs1(q @ [s] \<mapsto> Dir)" using 2(3) True m Inr by auto
        then have "fs_ok fs'" "more_dirs fs fs'" "fs' (q @ [s]) = Some Dir"
          using fs_ok_add [OF IH(1) d None] more_dirs_trans [OF IH(2) more_dirs_add [of fs1 "q @ [s]"]] None
          by simp_all
        then show ?thesis using \<open>x = Inr (q @ [s])\<close> by simp
      next
        case (Some nd)
        then show ?thesis using 2(3) True m Inr IH by auto
      qed
    qed
  qed
qed

lemma get_real_root_dirs:
  assumes "fs_ok fs" "get_real_root root_cfg create fs = (x, fs')"
  shows "fs_ok fs' \<and> more_dirs fs fs' \<and>
    (\<forall>r. x = Inr r \<longrightarrow> fs' r = Some Dir \<and> realpath fs' root_cfg = Inr r)"
proof (cases create)
  case True
  obtain y fs1 where m: "mkdir_recursive fs (rev root_cfg) = (y, fs1)" by (cases "mkdir_recursive fs (rev root_cfg)")
  then show ?thesis using assms True mkdir_recursive_dirs [OF assms(1) m]
    by (auto simp: get_real_root_def res_simps split: sum.splits)
next
  case False
  then show ?thesis using assms by (auto simp: get_real_root_def res_simps)
qed

lemma strict_prefix_snoc: "strict_prefix (c @ [s]) p \<Longrightarrow> strict_prefix c p"
  by (auto simp: strict_prefix_def prefix_def)

lemma ensure_dirs_dirs:
  "fs_ok fs \<Longrightarrow> fs current = Some Dir \<Longrightarrow> ensure_dirs base current q fs = (x, fs') \<Longrightarrow>
     fs_ok fs' \<and> more_dirs fs fs' \<and> (x = Inr () \<longrightarrow> fs' (current @ q) = Some Dir) \<and>
     (\<forall>p. fs' p \<noteq> fs p \<longrightarrow> strict_prefix current p)"
proof (induction q arbitrary: current fs x fs')
  case (Cons s q)
  let ?p = "current @ [s]"
  define fs1 where "fs1 = (if fs ?p = None then fs(?p \<mapsto> Dir) else fs)"
  have e: "ensure_dirs base current (s # q) fs =
      (if fs1 ?p \<noteq> Some Dir
       then (Inl (Error ''Storage path contains a symlink or non-directory component.''), fs1)
       else (case bind_res (realpath fs1 ?p) (assert_contained base) of
           Inl e \<Rightarrow> (Inl e, fs1) | Inr _ \<Rightarrow> ensure_dirs base ?p q fs1))"
    by (simp only: ensure_dirs.simps Let_def fs1_def)
  have f1: "fs_ok fs1" "more_dirs fs fs1" "\<And>p. fs1 p \<noteq> fs p \<Longrightarrow> p = ?p"
    using Cons.prems fs_ok_add [of fs current s Dir] more_dirs_add [of fs ?p]
    by (auto simp: fs1_def split: if_splits)
  show ?case
  proof (cases "fs1 ?p = Some Dir \<and> bind_res (realpath fs1 ?p) (assert_contained base) = Inr ()")
    case True
    then have "ensure_dirs base ?p q fs1 = (x, fs')"
      using Cons.prems(3) unfolding e by simp
    from Cons.IH [OF f1(1) _ this] True
    have "fs_ok fs' \<and> more_dirs fs1 fs' \<and> (x = Inr () \<longrightarrow> fs' (?p @ q) = Some Dir) \<and>
        (\<forall>p. fs' p \<noteq> fs1 p \<longrightarrow> strict_prefix ?p p)" by blast
    moreover from this have "strict_prefix current p" if "fs' p \<noteq> fs p" for p
      using f1(3) [of p] that strict_prefix_snoc [of current s p]
      by (cases "fs1 p = fs p") (auto simp: strict_prefix_def)
    ultimately show ?thesis using more_dirs_trans [OF f1(2)] by simp
  next
    case False
    then have "x \<noteq> Inr () \<and> fs' = fs1"
      using Cons.prems(3) unfolding e by (auto split: if_splits sum.splits)
    then show ?thesis using f1(1,2) by (auto simp: strict_prefix_def dest!: f1(3))
  qed
qed simp

lemma ensure_safe_directories_below:
  "ensure_safe_directories base (base @ q) fs =
     (if q \<noteq> [] \<and> hd q = ''..'' then (Inl (Error ''Storage key escapes the configured root.''), fs)
      else ensure_dirs base base q fs)"
  by (simp add: ensure_safe_directories_def)

section \<open>The objects of a provider\<close>

definition object_path :: "string list \<Rightarrow> fs \<Rightarrow> string \<Rightarrow> string list option" where
  "object_path root_cfg fs key =
     (case realpath fs root_cfg of
        Inl _ \<Rightarrow> None
      | Inr r \<Rightarrow> if fs r = Some Dir \<and> key_ok key then Some (r @ segments key) else None)"

definition local_content :: "string list \<Rightarrow> fs \<Rightarrow> string \<Rightarrow> bytes option" where
  "local_content root_cfg fs key =
     (case object_path root_cfg fs key of
        None \<Rightarrow> None | Some p \<Rightarrow> (case fs p of Some (Reg x) \<Rightarrow> Some x | _ \<Rightarrow> None))"

text \<open>A tree in which no symbolic link lies below the root (the provider never makes one).\<close>

definition local_ok :: "string list \<Rightarrow> fs \<Rightarrow> bool" where
  "local_ok root_cfg fs \<longleftrightarrow>
     fs_ok fs \<and> (\<forall>r q t. realpath fs root_cfg = Inr r \<longrightarrow> q \<noteq> [] \<longrightarrow> fs (r @ q) \<noteq> Some (Link t))"

lemma local_content_Some:
  "local_content root_cfg fs key = Some x \<longleftrightarrow>
     (\<exists>r. realpath fs root_cfg = Inr r \<and> fs r = Some Dir \<and> key_ok key \<and> fs (r @ segments key) = Some (Reg x))"
  by (auto simp: local_content_def object_path_def split: sum.splits option.splits node.splits if_splits)

lemma local_content_dirs:
  assumes "fs_ok fs" "more_dirs fs fs'"
  shows "local_content root_cfg fs' = local_content root_cfg fs"
proof -
  have "local_content root_cfg fs' k = Some x \<longleftrightarrow> local_content root_cfg fs k = Some x" for k x
  proof
    assume "local_content root_cfg fs' k = Some x"
    then obtain r where r: "realpath fs' root_cfg = Inr r" "fs' r = Some Dir" "key_ok k"
      "fs' (r @ segments k) = Some (Reg x)" by (auto simp: local_content_Some)
    then have f: "fs (r @ segments k) = Some (Reg x)" using assms(2) unfolding more_dirs_def
      by (metis node.distinct(1) option.inject)
    then have "fs r = Some Dir" using fs_parent [OF assms(1)] segments_plain [OF r(3)] by blast
    moreover have "realpath fs root_cfg = Inr r"
      using real_path_back [OF assms r(1) [unfolded realpath_def]] calculation by (auto simp: realpath_def)
    ultimately show "local_content root_cfg fs k = Some x" using r(3) f by (simp add: local_content_Some)
  next
    assume "local_content root_cfg fs k = Some x"
    then obtain r where r: "realpath fs root_cfg = Inr r" "fs r = Some Dir" "key_ok k"
      "fs (r @ segments k) = Some (Reg x)" by (auto simp: local_content_Some)
    moreover have "realpath fs' root_cfg = Inr r"
      using real_path_mono [OF assms(2) r(1) [unfolded realpath_def]] by (simp add: realpath_def)
    moreover have "fs' r = fs r" "fs' (r @ segments k) = fs (r @ segments k)"
      using assms(2) r(2,4) unfolding more_dirs_def by (metis option.distinct(1))+
    ultimately show "local_content root_cfg fs' k = Some x" by (simp add: local_content_Some)
  qed
  then show ?thesis by (intro ext) (metis not_Some_eq)
qed

lemma local_ok_dirs:
  assumes "local_ok root_cfg fs" "more_dirs fs fs'" "fs_ok fs'"
  shows "local_ok root_cfg fs'"
proof -
  have "fs' (r @ q) \<noteq> Some (Link t)" if "realpath fs' root_cfg = Inr r" "q \<noteq> []" for r q t
  proof
    assume l: "fs' (r @ q) = Some (Link t)"
    then have f: "fs (r @ q) = Some (Link t)" using assms(2) unfolding more_dirs_def
      by (metis node.distinct(3) option.inject)
    then have "fs r = Some Dir" using assms(1) fs_parent that(2) unfolding local_ok_def by blast
    then have "realpath fs root_cfg = Inr r"
      using real_path_back [OF _ assms(2) that(1) [unfolded realpath_def]] assms(1)
      by (auto simp: realpath_def local_ok_def)
    then show False using assms(1) f that(2) unfolding local_ok_def by blast
  qed
  then show ?thesis using assms(3) by (simp add: local_ok_def)
qed

text \<open>Writing or removing one file below the root.\<close>

lemma realpath_put:
  assumes "realpath fs root_cfg = Inr r" "fs r = Some Dir" "q \<noteq> []" "fs (r @ q) = None \<or> fs (r @ q) = Some (Reg b)"
  shows "realpath (fs(r @ q := y)) root_cfg = Inr r"
  using assms real_path_other [of fs "r @ q" b max_links "[]" root_cfg r y] by (auto simp: realpath_def)

lemma local_content_put:
  assumes "realpath fs root_cfg = Inr r" "fs r = Some Dir" "key_ok k"
    and "fs (r @ segments k) = None \<or> fs (r @ segments k) = Some (Reg b)"
    and "y = None \<or> y = Some (Reg x)"
  shows "local_content root_cfg (fs(r @ segments k := y)) =
    (local_content root_cfg fs)(k := (case y of Some (Reg z) \<Rightarrow> Some z | _ \<Rightarrow> None))"
proof
  fix k'
  have p: "realpath (fs(r @ segments k := y)) root_cfg = Inr r"
    using realpath_put [OF assms(1,2) _ assms(4)] segments_plain [OF assms(3)] by blast
  then show "local_content root_cfg (fs(r @ segments k := y)) k' =
      ((local_content root_cfg fs)(k := (case y of Some (Reg z) \<Rightarrow> Some z | _ \<Rightarrow> None))) k'"
    using assms(1-3) by (auto simp: local_content_def object_path_def)
qed

lemma local_ok_put:
  assumes "local_ok root_cfg fs" "realpath fs root_cfg = Inr r" "fs r = Some Dir" "q \<noteq> []"
    and "fs (r @ q) = None \<or> fs (r @ q) = Some (Reg b)" and "y = None \<or> y = Some (Reg x)"
    and "fs_ok (fs(r @ q := y))"
  shows "local_ok root_cfg (fs(r @ q := y))"
  using assms realpath_put [OF assms(2-5)] by (auto simp: local_ok_def)

lemma fs_ok_remove: "fs_ok fs \<Longrightarrow> fs p = Some (Reg b) \<Longrightarrow> fs_ok (fs(p := None))"
  unfolding fs_ok_def by (auto split: if_splits) fastforce

section \<open>The contract holds on the local disk\<close>

lemma open_key_object:
  assumes "fs_ok fs" "object_path root_cfg fs key = Some p" "fs p = Some nd" "\<And>t. nd \<noteq> Link t"
  shows "open_key root_cfg key fs = Inr p"
proof -
  from assms(2) obtain r where r: "realpath fs root_cfg = Inr r" "fs r = Some Dir" "key_ok key" "p = r @ segments key"
    by (auto simp: object_path_def split: sum.splits if_splits)
  have "no_symlink r (segments key) fs = Inr ()" using no_symlink_plain [OF assms(1)] assms(3,4) r(4) by simp
  then have "assert_no_symlink_path r p fs = Inr ()"
    using segments_plain [OF r(3)] r(4) by (simp add: assert_no_symlink_path_def)
  moreover have "realpath fs p = Inr p"
    using real_path_plain [OF assms(1), of "[]" p nd max_links] assms(3,4) by (simp add: realpath_def)
  moreover have "assert_contained r p = Inr ()" using segments_plain [OF r(3)] r(4) by (simp add: contained_append)
  ultimately show ?thesis
    using r resolve_key_iff [of r key p] by (simp add: open_key_def get_real_root_def)
qed

lemma get_real_root_existing:
  "fst (get_real_root root_cfg False fs) = Inr r \<longleftrightarrow> realpath fs root_cfg = Inr r \<and> fs r = Some Dir"
  by (auto simp: get_real_root_def throw_if_def bind_res_Inr split: if_splits)

lemma open_key_Inr:
  assumes "fs_ok fs" "open_key root_cfg key fs = Inr p"
  shows "object_path root_cfg fs key = Some p \<and> (\<exists>nd. fs p = Some nd \<and> (\<forall>t. nd \<noteq> Link t))"
proof -
  from assms(2) obtain r full where r: "realpath fs root_cfg = Inr r" "fs r = Some Dir"
    "resolve_key r key = Inr full" "assert_no_symlink_path r full fs = Inr ()" "realpath fs full = Inr p"
    unfolding open_key_def bind_res_Inr get_real_root_existing by auto
  have k: "key_ok key" "full = r @ segments key" using r(3) by (simp_all add: resolve_key_iff)
  have "segments key \<noteq> []" using segments_plain [OF k(1)] by blast
  moreover have "no_symlink r (segments key) fs = Inr ()"
    using r(4) k(2) segments_plain [OF k(1)] by (simp add: assert_no_symlink_path_def)
  ultimately obtain nd where nd: "fs full = Some nd" "\<forall>t. nd \<noteq> Link t"
    using no_symlink_Inr [of r "segments key" fs] k(2) by blast
  then have "realpath fs full = Inr full"
    using real_path_plain [OF assms(1), of "[]" full nd max_links] by (simp add: realpath_def)
  then have "p = full" using r(5) by simp
  moreover have "object_path root_cfg fs key = Some full" using r(1,2) k by (simp add: object_path_def)
  ultimately show ?thesis using nd by blast
qed

lemma local_content_path:
  "local_content root_cfg fs key = Some x \<longleftrightarrow>
     (\<exists>p. object_path root_cfg fs key = Some p \<and> fs p = Some (Reg x))"
  by (auto simp: local_content_def split: option.splits node.splits)

lemma open_key_content:
  "fs_ok fs \<Longrightarrow> local_content root_cfg fs key = Some x \<longleftrightarrow>
     (\<exists>p. open_key root_cfg key fs = Inr p \<and> fs p = Some (Reg x))"
  unfolding local_content_path
  using open_key_object [of fs root_cfg key _ "Reg x"] open_key_Inr [of fs root_cfg key] by blast

lemma read_file: "(case nd of Some (Reg x) \<Rightarrow> Inr x | _ \<Rightarrow> Inl e) = Inr y \<longleftrightarrow> nd = Some (Reg y)"
  by (auto split: option.splits node.splits)

lemma local_get_content: "fs_ok fs \<Longrightarrow> local_get root_cfg key fs = Inr x \<longleftrightarrow> local_content root_cfg fs key = Some x"
  unfolding open_key_content local_get_def bind_res_Inr read_file by blast

lemma local_delete_cases:
  assumes "local_ok root_cfg fs" "local_delete root_cfg key fs = (x, fs')"
  shows "local_ok root_cfg fs' \<and> local_content root_cfg fs' =
      (if x = Inr () then (local_content root_cfg fs)(key := None) else local_content root_cfg fs)"
proof -
  have ok: "fs_ok fs" using assms(1) by (simp add: local_ok_def)
  show ?thesis
  proof (cases "local_content root_cfg fs key")
    case None
    then have "fs' = fs"
      using assms(2) open_key_content [OF ok, of root_cfg key]
      by (auto simp: local_delete_def split: sum.splits option.splits node.splits)
    then show ?thesis using None assms(1) by auto
  next
    case (Some b)
    then obtain r where r: "realpath fs root_cfg = Inr r" "fs r = Some Dir" "key_ok key"
      "fs (r @ segments key) = Some (Reg b)" by (auto simp: local_content_Some)
    then have "open_key root_cfg key fs = Inr (r @ segments key)"
      by (intro open_key_object [OF ok]) (auto simp: object_path_def)
    then have d: "x = Inr ()" "fs' = fs(r @ segments key := None)"
      using assms(2) r(4) by (auto simp: local_delete_def)
    have ne: "segments key \<noteq> []" using segments_plain [OF r(3)] by blast
    have "local_ok root_cfg fs'"
      unfolding d using local_ok_put [OF assms(1) r(1,2) ne _ _ fs_ok_remove [OF ok r(4)]] r(4) by auto
    then show ?thesis using local_content_put [OF r(1-3), of b None] r(4) d by simp
  qed
qed

lemma local_upload_prepared:
  assumes "local_ok root_cfg fs" "key_ok key"
  obtains (failed) e fs1 where "local_upload root_cfg key b fs = (Inl e, fs1)" "fs_ok fs1" "more_dirs fs fs1"
  | (ready) r fs1 where "fs_ok fs1" "more_dirs fs fs1" "realpath fs1 root_cfg = Inr r" "fs1 r = Some Dir"
      "fs1 (butlast (r @ segments key)) = Some Dir"
      "local_upload root_cfg key b fs = (case write_new (r @ segments key) b fs1 of
         (Inl e, fs3) \<Rightarrow> (Inl e, fs3) | (Inr _, fs3) \<Rightarrow> (Inr key, fs3))"
proof -
  have ok: "fs_ok fs" using assms(1) by (simp add: local_ok_def)
  obtain x fs1 where g: "get_real_root root_cfg True fs = (x, fs1)" by (cases "get_real_root root_cfg True fs")
  note d = get_real_root_dirs [OF ok g]
  show thesis
  proof (cases x)
    case (Inl e)
    then show thesis using failed [of e fs1] d g by (simp add: local_upload_def)
  next
    case (Inr r)
    have rk: "resolve_key r key = Inr (r @ segments key)" using assms(2) by (simp add: resolve_key_iff)
    obtain y fs2 where e: "ensure_safe_directories r (butlast (r @ segments key)) fs1 = (y, fs2)"
      by (cases "ensure_safe_directories r (butlast (r @ segments key)) fs1")
    have bl: "butlast (r @ segments key) = r @ butlast (segments key)"
      using segments_plain [OF assms(2)] by (simp add: butlast_append)
    have hd: "butlast (segments key) \<noteq> [] \<Longrightarrow> hd (butlast (segments key)) \<noteq> ''..''"
      using segments_plain [OF assms(2)] by (metis append_butlast_last_id hd_append2)
    then have "ensure_dirs r r (butlast (segments key)) fs1 = (y, fs2)"
      using e unfolding bl ensure_safe_directories_below by (auto split: if_splits)
    from ensure_dirs_dirs [OF _ _ this] d Inr
    have f2: "fs_ok fs2" "more_dirs fs1 fs2" "y = Inr () \<Longrightarrow> fs2 (butlast (r @ segments key)) = Some Dir"
      by (auto simp: bl)
    have m: "more_dirs fs fs2" using d f2(2) more_dirs_trans by blast
    show thesis
    proof (cases y)
      case (Inl e')
      then show thesis using failed [of e' fs2] f2(1) m g rk e Inr by (simp add: local_upload_def)
    next
      case (Inr u)
      have "realpath fs2 root_cfg = Inr r"
        using d \<open>x = Inr r\<close> real_path_mono [OF f2(2)] by (simp add: realpath_def)
      moreover have "fs2 r = Some Dir" using d \<open>x = Inr r\<close> f2(2) unfolding more_dirs_def by (metis option.distinct(1))
      ultimately show thesis using ready [of fs2 r] f2(1,3) m g rk e Inr \<open>x = Inr r\<close> by (simp add: local_upload_def)
    qed
  qed
qed

lemma local_upload_cases:
  assumes "local_ok root_cfg fs" "key_ok key" "local_upload root_cfg key b fs = (x, fs')"
  shows "local_ok root_cfg fs' \<and>
    (case x of
       Inr k' \<Rightarrow> k' = key \<and> local_content root_cfg fs key = None \<and>
         (\<exists>c. b = Inr c \<and> local_content root_cfg fs' = (local_content root_cfg fs)(key \<mapsto> c))
     | Inl e \<Rightarrow> local_content root_cfg fs' = local_content root_cfg fs \<or>
         local_content root_cfg fs' = (local_content root_cfg fs)(key := None))"
  using assms(1,2)
proof (rule local_upload_prepared [of root_cfg fs key b])
  fix e fs1 assume f: "local_upload root_cfg key b fs = (Inl e, fs1)" "fs_ok fs1" "more_dirs fs fs1"
  have "fs_ok fs" using assms(1) by (simp add: local_ok_def)
  then show ?thesis
    using f(1) assms(3) local_ok_dirs [OF assms(1) f(3,2)] local_content_dirs [OF _ f(3)] by auto
next
  fix r fs1 assume f1: "fs_ok fs1" "more_dirs fs fs1" "realpath fs1 root_cfg = Inr r" "fs1 r = Some Dir"
    "fs1 (butlast (r @ segments key)) = Some Dir"
    and up: "local_upload root_cfg key b fs = (case write_new (r @ segments key) b fs1 of
         (Inl e, fs3) \<Rightarrow> (Inl e, fs3) | (Inr _, fs3) \<Rightarrow> (Inr key, fs3))"
  let ?p = "r @ segments key"
  have ne: "segments key \<noteq> []" using segments_plain [OF assms(2)] by blast
  have c: "local_content root_cfg fs1 = local_content root_cfg fs"
    using local_content_dirs f1(2) assms(1) by (simp add: local_ok_def)
  have l: "local_ok root_cfg fs1" using local_ok_dirs [OF assms(1) f1(2,1)] .
  note put = local_content_put [OF f1(3,4) assms(2)]
  show ?thesis
  proof (cases "fs1 ?p")
    case None
    have cn: "local_content root_cfg fs key = None"
      using None f1(3,4) assms(2) by (simp add: c [symmetric] local_content_def object_path_def)
    show ?thesis
    proof (cases b)
      case (Inl e)
      then have "fs' = fs1" "x = Inl e" using up assms(3) None by (auto simp: write_new_def unlink_quiet_def)
      then show ?thesis using l c by simp
    next
      case (Inr z)
      then have x: "fs' = fs1(?p \<mapsto> Reg z)" "x = Inr key" using up assms(3) None by (auto simp: write_new_def)
      have "fs_ok fs'"
        using fs_ok_add [OF f1(1,5), of "last ?p"] None ne unfolding x
        by (metis append_butlast_last_id append_is_Nil_conv)
      then have "local_ok root_cfg fs'"
        unfolding x using local_ok_put [OF l f1(3,4) ne] None by blast
      then show ?thesis using put [of "[]" "Some (Reg z)" z] None cn Inr c x by auto
    qed
  next
    case (Some nd)
    have x: "x = Inl (Fault ''EEXIST'')" "fs' = unlink_quiet ?p fs1"
      using up assms(3) Some by (auto simp: write_new_def)
    have nl: "nd \<noteq> Link t" for t using l f1(3) ne Some unfolding local_ok_def by blast
    show ?thesis
    proof (cases nd)
      case (Reg z)
      then have u: "fs' = fs1(?p := None)" using x Some by (simp add: unlink_quiet_def)
      then have "local_ok root_cfg fs'"
        unfolding u using local_ok_put [OF l f1(3,4) ne _ _ fs_ok_remove [OF f1(1)]] Some Reg by blast
      then show ?thesis using put [of z None] Some Reg u x c by simp
    next
      case Dir
      then show ?thesis using x Some l c by (simp add: unlink_quiet_def)
    next
      case (Link t)
      then show ?thesis using nl by blast
    qed
  qed
qed

interpretation local_disk: object_storage "local_storage root_cfg" "local_content root_cfg" "local_ok root_cfg" key_ok
  for root_cfg
proof
  fix s k b
  assume a: "local_ok root_cfg s" "key_ok k"
  show "local_ok root_cfg (snd (so_upload (local_storage root_cfg) k b s))"
    using local_upload_cases [OF a, of b] by (cases "local_upload root_cfg k b s") (auto simp: local_storage_def)
  show "local_ok root_cfg (snd (so_delete (local_storage root_cfg) k s))"
    using local_delete_cases [OF a(1), of k] by (cases "local_delete root_cfg k s") (auto simp: local_storage_def)
next
  fix s k b k' s'
  assume "local_ok root_cfg s" "key_ok k" "so_upload (local_storage root_cfg) k b s = (Inr k', s')"
  then show "k' = k \<and> local_content root_cfg s k = None \<and>
      (\<exists>x. b = Inr x \<and> local_content root_cfg s' = (local_content root_cfg s)(k \<mapsto> x))"
    using local_upload_cases [of root_cfg s k b "Inr k'" s'] by (simp add: local_storage_def)
next
  fix s k b e s'
  assume "local_ok root_cfg s" "key_ok k" "local_content root_cfg s k = None"
    "so_upload (local_storage root_cfg) k b s = (Inl e, s')"
  then show "local_content root_cfg s' = local_content root_cfg s"
    using local_upload_cases [of root_cfg s k b "Inl e" s'] by (auto simp: local_storage_def)
next
  fix s k u s'
  assume "local_ok root_cfg s" "key_ok k" "so_delete (local_storage root_cfg) k s = (Inr u, s')"
  then show "local_content root_cfg s' = (local_content root_cfg s)(k := None)"
    using local_delete_cases [of root_cfg s k "Inr u" s'] by (simp add: local_storage_def)
next
  fix s k e s'
  assume "local_ok root_cfg s" "key_ok k" "so_delete (local_storage root_cfg) k s = (Inl e, s')"
  then show "local_content root_cfg s' = local_content root_cfg s"
    using local_delete_cases [of root_cfg s k "Inl e" s'] by (simp add: local_storage_def)
next
  fix s k x
  assume "local_ok root_cfg s" "key_ok k"
  then show "so_get (local_storage root_cfg) k s = Inr x \<longleftrightarrow> local_content root_cfg s k = Some x"
    using local_get_content [of s root_cfg k x] by (simp add: local_storage_def local_ok_def)
qed

lemma get_real_root_same:
  assumes "realpath fs root_cfg = Inr r" "fs r = Some Dir"
  shows "get_real_root root_cfg create fs = (Inr r, fs)"
proof -
  have "mkdir_recursive fs (rev root_cfg) = (Inr r, fs)"
    using assms by (cases "rev root_cfg") (simp_all add: realpath_def)
  then show ?thesis using assms by (simp add: get_real_root_def)
qed

lemma ensure_dirs_existing:
  "fs_ok fs \<Longrightarrow> fs (r @ a @ q) = Some Dir \<Longrightarrow> a @ q \<noteq> [] \<longrightarrow> hd (a @ q) \<noteq> ''..'' \<Longrightarrow>
     ensure_dirs r (r @ a) q fs = (Inr (), fs)"
proof (induction q arbitrary: a)
  case (Cons s q)
  have d: "fs (r @ a @ [s]) = Some Dir"
    using fs_parent [OF Cons.prems(1), of "r @ a @ [s]" q] Cons.prems(2) by (cases "q = []") simp_all
  then have "realpath fs (r @ a @ [s]) = Inr (r @ a @ [s])"
    using real_path_plain [OF Cons.prems(1), of "[]" "r @ a @ [s]" Dir max_links] by (simp add: realpath_def)
  moreover have "assert_contained r (r @ a @ [s]) = Inr ()"
    using Cons.prems(3) by (intro contained_append) (cases a; simp)+
  moreover have "ensure_dirs r (r @ a @ [s]) q fs = (Inr (), fs)"
    using Cons.IH [of "a @ [s]"] Cons.prems by simp
  ultimately show ?case using d by simp
qed simp

section \<open>Properties\<close>

text \<open>A file system with an empty directory \<open>/data\<close>.\<close>

definition sample_fs :: fs where
  "sample_fs = (\<lambda>p. if p = [] \<or> p = [''data''] then Some Dir else None)"

lemma sample_fs_ok: "local_ok [''data''] sample_fs"
  by (auto simp: local_ok_def fs_ok_def sample_fs_def)

lemma sample_key_ok: "key_ok ''artifacts/a1/payload''"
  by code_simp

text \<open>
  C18. Storage on disk keeps objects apart and intact: an upload that succeeds stores the bytes under
  exactly the key it was given, reading the key returns them, every other key reads as before, and
  deleting the key afterwards restores the objects there were.
\<close>

theorem local_upload_roundtrip:
  assumes "local_ok root_cfg fs" "key_ok key" "local_upload root_cfg key (Inr x) fs = (Inr k', fs')"
  shows "k' = key \<and> local_ok root_cfg fs' \<and> local_get root_cfg key fs' = Inr x \<and>
    (\<forall>k y. k \<noteq> key \<longrightarrow> key_ok k \<longrightarrow> local_get root_cfg k fs' = Inr y \<longleftrightarrow> local_get root_cfg k fs = Inr y) \<and>
    (\<forall>u fs''. local_delete root_cfg key fs' = (Inr u, fs'') \<longrightarrow>
       local_content root_cfg fs'' = local_content root_cfg fs)"
proof -
  have u: "so_upload (local_storage root_cfg) key (Inr x) fs = (Inr k', fs')"
    using assms(3) by (simp add: local_storage_def)
  have g: "local_ok root_cfg fs'" using local_disk.good_upload [OF assms(1,2), of "Inr x"] u by simp
  have c: "k' = key" "local_content root_cfg fs' = (local_content root_cfg fs)(key \<mapsto> x)"
    using local_disk.upload_stores [OF assms(1,2) u] by auto
  have "local_get root_cfg k fs' = Inr y \<longleftrightarrow> local_get root_cfg k fs = Inr y" if "k \<noteq> key" "key_ok k" for k y
    using local_disk.get_reads [OF g that(2)] local_disk.get_reads [OF assms(1) that(2)] c(2) that(1)
    by (simp add: local_storage_def)
  moreover have "local_content root_cfg fs'' = local_content root_cfg fs"
    if "local_delete root_cfg key fs' = (Inr u, fs'')" for u fs''
    using local_disk.undone [OF assms(1,2) u] that by (simp add: local_storage_def)
  ultimately show ?thesis
    using c g local_disk.upload_get [OF assms(1,2) u] by (simp add: local_storage_def)
qed

lemma local_upload_roundtrip_witness:
  "\<exists>fs'. local_upload [''data''] ''artifacts/a1/payload'' (Inr [1, 2]) sample_fs = (Inr ''artifacts/a1/payload'', fs') \<and>
     local_get [''data''] ''artifacts/a1/payload'' fs' = Inr [1, 2]"
proof -
  have "case local_upload [''data''] ''artifacts/a1/payload'' (Inr [1, 2]) sample_fs of
      (Inl _, _) \<Rightarrow> False | (Inr k, _) \<Rightarrow> True" by code_simp
  then obtain k fs' where u: "local_upload [''data''] ''artifacts/a1/payload'' (Inr [1, 2]) sample_fs = (Inr k, fs')"
    by (auto split: prod.splits sum.splits)
  show ?thesis using local_upload_roundtrip [OF sample_fs_ok sample_key_ok u] u by blast
qed

text \<open>
  C19. The provider stays inside its directory: whatever the key, neither storing nor deleting an object
  changes a node of the file system that is not strictly below the canonical root, and a key that is
  absolute or has an empty, \<open>.\<close> or \<open>..\<close> segment, a backslash or a NUL changes nothing at all.
\<close>

theorem local_storage_confined:
  assumes "fs_ok fs" "realpath fs root_cfg = Inr r" "fs r = Some Dir"
  shows "(\<forall>p. snd (local_upload root_cfg key b fs) p \<noteq> fs p \<longrightarrow> key_ok key \<and> strict_prefix r p) \<and>
    (\<forall>p. snd (local_delete root_cfg key fs) p \<noteq> fs p \<longrightarrow> key_ok key \<and> strict_prefix r p)"
proof -
  note g = get_real_root_same [OF assms(2,3)]
  have up: "key_ok key \<and> strict_prefix r p" if ch: "snd (local_upload root_cfg key b fs) p \<noteq> fs p" for p
  proof (cases "key_ok key")
    case False
    then show ?thesis using ch by (simp add: local_upload_def g resolve_key_bad)
  next
    case True
    let ?q = "segments key"
    have rk: "resolve_key r key = Inr (r @ ?q)" and ne: "?q \<noteq> []"
      using True segments_plain [OF True] by (simp_all add: resolve_key_iff)
    have bl: "butlast (r @ ?q) = r @ butlast ?q" using ne by (simp add: butlast_append)
    obtain y fs1 where e: "ensure_safe_directories r (butlast (r @ ?q)) fs = (y, fs1)"
      by (cases "ensure_safe_directories r (butlast (r @ ?q)) fs")
    have d: "strict_prefix r p" if "fs1 p \<noteq> fs p" for p
      using e that ensure_dirs_dirs [OF assms(1,3), of r "butlast ?q" y fs1]
      unfolding bl ensure_safe_directories_below by (auto split: if_splits)
    have "p = r @ ?q \<or> fs1 p \<noteq> fs p"
      using ch by (auto simp: local_upload_def g rk e write_new_def unlink_quiet_def split: sum.splits if_splits)
    moreover have "strict_prefix r (r @ ?q)" using ne by (simp add: strict_prefix_def)
    ultimately show ?thesis using True d by blast
  qed
  have "key_ok key \<and> strict_prefix r p" if ch: "snd (local_delete root_cfg key fs) p \<noteq> fs p" for p
  proof -
    from ch have o: "open_key root_cfg key fs = Inr p"
      by (auto simp: local_delete_def split: sum.splits option.splits node.splits if_splits)
    from open_key_Inr [OF assms(1) o] show ?thesis
      using assms(2) segments_plain [of key] by (auto simp: object_path_def strict_prefix_def split: if_splits)
  qed
  then show ?thesis using up by blast
qed

lemma local_storage_confined_witness:
  "snd (local_upload [''data''] ''../etc/passwd'' (Inr [1]) sample_fs) [''etc'', ''passwd''] = None \<and>
   snd (local_delete [''data''] ''../data'' sample_fs) [''data''] = Some Dir"
proof -
  have "fs_ok sample_fs" "realpath sample_fs [''data''] = Inr [''data'']" "sample_fs [''data''] = Some Dir"
    using sample_fs_ok by (simp_all add: local_ok_def realpath_def sample_fs_def)
  note c = local_storage_confined [OF this]
  have "\<not> strict_prefix [''data''] [''etc'', ''passwd'']" "\<not> strict_prefix [''data''] [''data'']" by simp_all
  then have "snd (local_upload [''data''] ''../etc/passwd'' (Inr [1]) sample_fs) [''etc'', ''passwd''] =
      sample_fs [''etc'', ''passwd'']"
    "snd (local_delete [''data''] ''../data'' sample_fs) [''data''] = sample_fs [''data'']"
    using c by blast+
  then show ?thesis by (simp add: sample_fs_def)
qed

text \<open>
  The cleanup of a failed upload does not distinguish its reasons: uploading to a key that already
  holds an object ends with \<open>EEXIST\<close>, and the object that was there is gone.
\<close>

theorem existing_object_lost:
  assumes "local_ok root_cfg fs" "local_content root_cfg fs key = Some x"
  shows "\<exists>fs'. local_upload root_cfg key b fs = (Inl (Fault ''EEXIST''), fs') \<and>
    local_content root_cfg fs' = (local_content root_cfg fs)(key := None)"
proof -
  from assms(2) obtain r where r: "realpath fs root_cfg = Inr r" "fs r = Some Dir" "key_ok key"
    "fs (r @ segments key) = Some (Reg x)" by (auto simp: local_content_Some)
  have ok: "fs_ok fs" using assms(1) by (simp add: local_ok_def)
  let ?p = "r @ segments key"
  have ne: "segments key \<noteq> []" using segments_plain [OF r(3)] by blast
  have bl: "butlast ?p = r @ butlast (segments key)" using ne by (simp add: butlast_append)
  have hd: "butlast (segments key) \<noteq> [] \<longrightarrow> hd (butlast (segments key)) \<noteq> ''..''"
    using segments_plain [OF r(3)] by (metis append_butlast_last_id hd_append2)
  have "fs (butlast ?p) = Some Dir"
    using fs_parent [OF ok, of "butlast ?p" "[last ?p]"] r(4) ne append_butlast_last_id [of ?p] by auto
  then have "ensure_safe_directories r (butlast ?p) fs = (Inr (), fs)"
    using ensure_dirs_existing [OF ok, of r "[]" "butlast (segments key)"] hd
    unfolding bl ensure_safe_directories_below by auto
  then have u: "local_upload root_cfg key b fs = (Inl (Fault ''EEXIST''), fs(?p := None))"
    using get_real_root_same [OF r(1,2)] r(3,4) resolve_key_iff [of r key ?p]
    by (simp add: local_upload_def write_new_def unlink_quiet_def)
  then show ?thesis using local_content_put [OF r(1-3), of x None] r(4) by auto
qed

lemma existing_object_lost_witness:
  "\<exists>fs fs'. local_content [''data''] fs ''a'' = Some [1] \<and>
     local_upload [''data''] ''a'' (Inr [2]) fs = (Inl (Fault ''EEXIST''), fs') \<and>
     local_content [''data''] fs' ''a'' = None"
proof -
  let ?fs = "sample_fs([''data'', ''a''] \<mapsto> Reg [1])"
  have "local_ok [''data''] ?fs"
    by (auto simp: local_ok_def fs_ok_def sample_fs_def)
  moreover have c: "local_content [''data''] ?fs ''a'' = Some [1]" by code_simp
  ultimately show ?thesis using existing_object_lost [of "[''data'']" ?fs "''a''" "[1]" "Inr [2]"] by fastforce
qed

end
