(* ===== verification/Artifact_Upload.thy ===== *)
theory Artifact_Upload
  imports Version_Service Local_Storage
begin

text \<open>
  \<open>app/services/artifact_service.ts\<close>, the upload of an artifact: the checks of the request, the file
  name, the reservation of quota, the cleanup of expired reservations, the transfer to a storage
  backend, and the transaction that turns a reservation into an artifact or compensates.
\<close>

section \<open>Names\<close>

definition file_char :: "char \<Rightarrow> bool" where
  "file_char c \<longleftrightarrow> is_alnum c \<or> c \<in> set ''._-''"

text \<open>\<open>nfkd\<close> is \<open>.normalize('NFKD')\<close>; the replaced class is \<open>[^A-Za-z0-9._-]\<close>.\<close>

definition safe_file_part :: "(string \<Rightarrow> string) \<Rightarrow> string \<Rightarrow> string" where
  "safe_file_part nfkd value' =
     (let s = take 100 (strip_dashes (dash_runs file_char (nfkd value')))
      in if s = [] then ''release'' else s)"

definition version_label :: "(string \<Rightarrow> string) \<Rightarrow> version_row \<Rightarrow> string" where
  "version_label nfkd v =
     ''v'' @ int_text (ver_major v) @ ''.'' @ int_text (ver_minor v) @ ''.'' @ int_text (ver_patch v) @
     (if no_text (ver_codename v) then [] else CHR ''-'' # safe_file_part nfkd (the (ver_codename v)))"

definition build_file_name :: "(string \<Rightarrow> string) \<Rightarrow> string \<Rightarrow> string \<Rightarrow> string \<Rightarrow> version_row \<Rightarrow> string \<Rightarrow> string" where
  "build_file_name nfkd product platform architecture v extension =
     safe_file_part nfkd product @ ''_'' @ safe_file_part nfkd platform @ ''_'' @
     safe_file_part nfkd architecture @ ''_'' @ version_label nfkd v @ ''.'' @
     safe_file_part nfkd extension"

text \<open>\<open>name.split('.').pop()\<close>\<close>

definition last_part :: "string \<Rightarrow> string" where
  "last_part s = last (split_on (CHR ''.'') s)"

section \<open>The request\<close>

definition channels :: "string list" where
  "channels = [''dev'', ''staging'', ''beta'', ''stable'']"

text \<open>
  \<open>String(v)\<close> where it can be one of the channels: an array of one element prints as its element, of
  more with a comma, and a number, a boolean, \<open>null\<close> or an object never prints as a channel.
\<close>

fun channel_word :: "jsval \<Rightarrow> string option" where
  "channel_word (JStr s) = Some s"
| "channel_word (JArr []) = Some []"
| "channel_word (JArr [v]) = (if v = JUndef \<or> v = JNull then Some [] else channel_word v)"
| "channel_word _ = None"

definition supported_channel :: "jsval \<Rightarrow> bool" where
  "supported_channel v = (case channel_word v of None \<Rightarrow> False | Some s \<Rightarrow> s \<in> set channels)"

definition uuid_value :: "jsval \<Rightarrow> bool" where
  "uuid_value v = (case v of JStr s \<Rightarrow> is_uuid s | _ \<Rightarrow> False)"

definition uuid_keys :: "string list" where
  "uuid_keys = [''versionId'', ''platformId'', ''architectureId'', ''storageProviderId'']"

definition assert_upload_metadata :: "(string \<times> jsval) list \<Rightarrow> unit res" where
  "assert_upload_metadata data =
     (case List.find (\<lambda>k. \<not> uuid_value (js_prop data k)) uuid_keys of
        Some k \<Rightarrow> Inl (Error (''A valid '' @ k @ '' is required.''))
      | None \<Rightarrow>
          throw_if (js_prop data ''channel'' \<noteq> JUndef \<and> js_prop data ''channel'' \<noteq> JStr [] \<and>
              \<not> supported_channel (js_prop data ''channel''))
            (Error ''Unsupported release channel.'') (Inr ()))"

definition text_input :: "(string \<times> jsval) list \<Rightarrow> string \<Rightarrow> string" where
  "text_input data k = (case js_prop data k of JStr s \<Rightarrow> s | _ \<Rightarrow> [])"

definition checked_box :: "jsval \<Rightarrow> bool" where
  "checked_box v \<longleftrightarrow> v = JStr ''on'' \<or> v = JBool True"

definition android_conflict :: "platform_row \<Rightarrow> architecture_row \<Rightarrow> bool" where
  "android_conflict p h \<longleftrightarrow> lowercase (plat_name p) = ''android'' \<and>
     (str_includes (lowercase (arch_name h)) ''x86'' \<or> str_includes (lowercase (arch_name h)) ''x64'')"

definition valid_extension :: "string \<Rightarrow> string \<Rightarrow> bool" where
  "valid_extension p_name ext =
     (if str_includes p_name ''windows'' then ext \<in> {''exe'', ''zip'', ''msi'', ''nupkg''}
      else if str_includes p_name ''mac'' then ext \<in> {''dmg'', ''pkg'', ''zip'', ''app''}
      else if p_name = ''android'' then ext \<in> {''apk'', ''aab''}
      else if p_name \<in> {''linux'', ''ubuntu'', ''debian'', ''linux_mint'', ''fedora'', ''rhel'', ''centos'', ''opensuse''}
        then ext \<in> {''appimage'', ''deb'', ''rpm'', ''tar'', ''gz'', ''zip''}
      else True)"

definition find_platform_row :: "db \<Rightarrow> string \<Rightarrow> platform_row res" where
  "find_platform_row d i =
     from_option RowNotFound (find_by plat_id i (ignore_deleted plat_deleted_at (platforms d)))"

definition find_architecture_row :: "db \<Rightarrow> string \<Rightarrow> architecture_row res" where
  "find_architecture_row d i =
     from_option RowNotFound (find_by arch_id i (ignore_deleted arch_deleted_at (architectures d)))"

definition find_provider_row :: "db \<Rightarrow> string \<Rightarrow> provider_row res" where
  "find_provider_row d i =
     from_option RowNotFound (find_by sp_id i (ignore_deleted sp_deleted_at (providers d)))"

text \<open>
  The uploaded file: whether it has a temporary path, its size, \<open>extname\<close>, the name the client gave,
  and what reading it yields.
\<close>

record upload_file =
  uf_tmp_path :: bool
  uf_size :: jsval
  uf_extname :: "string option"
  uf_client_name :: string
  uf_bytes :: "bytes res"

definition file_extension :: "upload_file \<Rightarrow> string" where
  "file_extension f =
     lowercase (if no_text (uf_extname f) then last_part (uf_client_name f) else the (uf_extname f))"

record upload_plan =
  pl_version :: version_row
  pl_platform :: platform_row
  pl_architecture :: architecture_row
  pl_provider :: provider_row
  pl_file_name :: string
  pl_size :: int

definition plan_upload ::
  "(string \<Rightarrow> string) \<Rightarrow> upload_file \<Rightarrow> (string \<times> jsval) list \<Rightarrow> db \<Rightarrow> upload_plan res" where
  "plan_upload nfkd f data d =
     bind_res (assert_upload_metadata data) (\<lambda>_.
     bind_res (case js_safe_integer (uf_size f) of
         Some n \<Rightarrow> if uf_tmp_path f \<and> 0 < n then Inr n
           else Inl (Error ''The uploaded file is empty or unavailable.'')
       | None \<Rightarrow> Inl (Error ''The uploaded file is empty or unavailable.'')) (\<lambda>size'.
     bind_res (find_version d (text_input data ''versionId'')) (\<lambda>v.
     bind_res (find_platform_row d (text_input data ''platformId'')) (\<lambda>p.
     bind_res (find_architecture_row d (text_input data ''architectureId'')) (\<lambda>h.
     bind_res (find_provider_row d (text_input data ''storageProviderId'')) (\<lambda>sp.
     throw_if (\<not> sp_is_active sp)
       (Error ''The selected storage provider is not active or completely configured.'')
     (throw_if (android_conflict p h)
       (Error ''Android does not support x86 or x64 architecture in this configuration.'')
     (throw_if (\<not> valid_extension (lowercase (plat_name p)) (file_extension f))
       (Error (''Invalid file extension (.'' @ file_extension f @ '') for platform '' @ plat_display_name p @ ''.''))
     (case find_by sw_id (ver_software_id v) (software d) of
        None \<Rightarrow> Inl (Error ''Cannot upload an artifact for inactive software.'')
      | Some s \<Rightarrow>
          throw_if (\<not> sw_is_active s) (Error ''Cannot upload an artifact for inactive software.'')
          (throw_if (checked_box (js_prop data ''isPublished'') \<and> sw_require_signed s)
             (Error ''Upload this artifact as a draft, sign its release manifest, then publish it.'')
          (Inr \<lparr> pl_version = v, pl_platform = p, pl_architecture = h, pl_provider = sp,
                 pl_file_name = build_file_name nfkd (sw_name s) (plat_name p) (arch_name h) v (file_extension f),
                 pl_size = size' \<rparr>)))))))))))"

section \<open>Quota\<close>

definition artifact_usage :: "db \<Rightarrow> string \<Rightarrow> int" where
  "artifact_usage d p =
     sum_list (map (\<lambda>a. case art_size_bytes a of None \<Rightarrow> 0 | Some n \<Rightarrow> n)
       (filter (\<lambda>a. art_provider_id a = p) (artifacts d)))"

definition reserved_usage :: "db \<Rightarrow> string \<Rightarrow> int \<Rightarrow> int" where
  "reserved_usage d p now =
     sum_list (map rv_size_bytes
       (filter (\<lambda>r. rv_provider_id r = p \<and> now < rv_expires_at r) (reservations d)))"

text \<open>\<open>Number(total || 0)\<close> of a sum, and \<open>(a / b) * 100\<close> of two numbers.\<close>

definition number_of_sum :: "int \<Rightarrow> rat" where
  "number_of_sum n = fl (of_int n)"

definition percent_of :: "rat \<Rightarrow> rat \<Rightarrow> rat" where
  "percent_of a b = fl (fl (a / b) * 100)"

definition quota_number :: "provider_row \<Rightarrow> rat" where
  "quota_number sp = (case sp_quota_bytes sp of None \<Rightarrow> 0 | Some q \<Rightarrow> fl (of_int q))"

definition check_quota :: "rat \<Rightarrow> rat \<Rightarrow> int \<Rightarrow> unit res" where
  "check_quota current_usage quota size' =
     (if 0 < quota then
        throw_if (95 \<le> percent_of current_usage quota)
          (Error (''Storage quota exceeded ('' @ to_fixed 1 (percent_of current_usage quota) @ ''%). Artifact upload blocked.''))
        (throw_if (quota < fl (current_usage + of_int size'))
          (Error (''This file ('' @ to_fixed 2 (fl (fl (of_int size' / 1024) / 1024)) @ '' MB) would exceed your remaining storage.''))
          (Inr ()))
      else Inr ())"

definition day :: int where
  "day = 86400000"

definition reservation_constraints :: "(string \<times> (reservation_row list \<Rightarrow> bool)) list" where
  "reservation_constraints = [(''storage_upload_reservations_pkey'', unique_on (\<lambda>r. Some (rv_id r)))]"

definition reserve_quota :: "int \<Rightarrow> string \<Rightarrow> string \<Rightarrow> int \<Rightarrow> db \<Rightarrow> db res" where
  "reserve_quota now i provider_id size' d =
     bind_res (find_provider_row d provider_id) (\<lambda>sp.
     throw_if (\<not> sp_is_active sp) (Error ''The selected storage provider is not active.'')
     (bind_res (check_quota
        (fl (number_of_sum (artifact_usage d provider_id) + number_of_sum (reserved_usage d provider_id now)))
        (quota_number sp) size') (\<lambda>_.
      bind_res (checked reservation_constraints
        (reservations d @ [\<lparr> rv_id = i, rv_provider_id = provider_id, rv_size_bytes = size',
           rv_expires_at = now + 7 * day, rv_created_at = now \<rparr>])) (\<lambda>tbl.
      Inr (d\<lparr>reservations := tbl\<rparr>)))))"

section \<open>Expired reservations\<close>

definition payload_key :: "string \<Rightarrow> string" where
  "payload_key i = ''artifacts/'' @ i @ ''/payload''"

fun delete_keys :: "'s storage \<Rightarrow> string list \<Rightarrow> 's \<Rightarrow> unit res \<times> 's" where
  "delete_keys st [] s = (Inr (), s)"
| "delete_keys st (k # ks) s =
     (case so_delete st k s of (Inl e, s') \<Rightarrow> (Inl e, s') | (Inr _, s') \<Rightarrow> delete_keys st ks s')"

definition expired_at :: "string \<Rightarrow> int \<Rightarrow> reservation_row \<Rightarrow> bool" where
  "expired_at p now r \<longleftrightarrow> rv_provider_id r = p \<and> rv_expires_at r \<le> now"

definition expired_batch :: "string \<Rightarrow> int \<Rightarrow> reservation_row list \<Rightarrow> reservation_row list" where
  "expired_batch p now rs = take 100 (sort_key rv_expires_at (filter (expired_at p now) rs))"

function cleanup_expired ::
  "'s storage \<Rightarrow> string \<Rightarrow> int \<Rightarrow> reservation_row list \<Rightarrow> 's \<Rightarrow> unit res \<times> reservation_row list \<times> 's" where
  "cleanup_expired st p now rs s =
     (let batch = expired_batch p now rs in
      if batch = [] then (Inr (), rs, s)
      else (case delete_keys st (map (\<lambda>r. payload_key (rv_id r)) batch) s of
          (Inl e, s') \<Rightarrow> (Inl e, rs, s')
        | (Inr _, s') \<Rightarrow>
            cleanup_expired st p now
              (delete_where (\<lambda>r. expired_at p now r \<and> rv_id r \<in> rv_id ` set batch) rs) s'))"
  by pat_completeness auto

lemma set_expired_batch: "set (expired_batch p now rs) \<subseteq> {r \<in> set rs. expired_at p now r}"
  unfolding expired_batch_def by (auto dest!: in_set_takeD)

lemma expired_batch_Nil: "expired_batch p now rs = [] \<longleftrightarrow> (\<forall>r\<in>set rs. \<not> expired_at p now r)"
proof -
  have "sort_key f xs = [] \<longleftrightarrow> xs = []" for f :: "reservation_row \<Rightarrow> int" and xs
    by (metis set_empty set_sort)
  then show ?thesis by (simp add: expired_batch_def filter_empty_conv)
qed

lemma batch_shrinks:
  assumes "expired_batch p now rs \<noteq> []"
  shows "length (delete_where (\<lambda>r. expired_at p now r \<and> rv_id r \<in> rv_id ` set (expired_batch p now rs)) rs) < length rs"
proof -
  let ?r = "hd (expired_batch p now rs)"
  have "?r \<in> set (expired_batch p now rs)" using assms by simp
  then have "?r \<in> set rs" "expired_at p now ?r \<and> rv_id ?r \<in> rv_id ` set (expired_batch p now rs)"
    using set_expired_batch by blast+
  then show ?thesis unfolding delete_where_def by (intro length_filter_less [of ?r]) auto
qed

termination cleanup_expired
  by (relation "measure (\<lambda>(st, p, now, rs, s). length rs)") (simp_all add: batch_shrinks)

declare cleanup_expired.simps [simp del]

section \<open>The transfer\<close>

record checksums =
  ck_md5 :: string
  ck_sha1 :: string
  ck_sha256 :: string
  ck_sha512 :: string

text \<open>The digests of a stream are those of its bytes, however they are chunked.\<close>

definition compute_checksums :: "crypto \<Rightarrow> bytes \<Rightarrow> checksums" where
  "compute_checksums cr b = \<lparr> ck_md5 = cr_md5 cr b, ck_sha1 = cr_sha1 cr b,
     ck_sha256 = cr_sha256 cr b, ck_sha512 = cr_sha512 cr b \<rparr>"

text \<open>
  The statements of the \<open>try\<close> block before the transaction: the checksums, the upload, and the check
  of the key. The flag tells whether \<open>objectStored\<close> was set.
\<close>

definition transfer :: "crypto \<Rightarrow> 's storage \<Rightarrow> string \<Rightarrow> bytes res \<Rightarrow> 's \<Rightarrow> checksums res \<times> bool \<times> 's" where
  "transfer cr st key b s =
     (case b of
        Inl e \<Rightarrow> (Inl e, False, s)
      | Inr x \<Rightarrow>
          (case so_upload st key b s of
             (Inl e, s') \<Rightarrow> (Inl e, False, s')
           | (Inr k, s') \<Rightarrow>
               if k \<noteq> key then (Inl (Error ''Storage provider changed the assigned object key.''), True, s')
               else (Inr (compute_checksums cr x), True, s')))"

text \<open>\<open>pg_text\<close> is the text PostgreSQL stores for a channel that is an array.\<close>

definition stored_channel :: "(jsval \<Rightarrow> string) \<Rightarrow> jsval \<Rightarrow> string" where
  "stored_channel pg_text v =
     (if truthy v then (case v of JStr s \<Rightarrow> s | _ \<Rightarrow> pg_text v) else ''dev'')"

definition new_artifact ::
  "(jsval \<Rightarrow> string) \<Rightarrow> int \<Rightarrow> string \<Rightarrow> upload_plan \<Rightarrow> (string \<times> jsval) list \<Rightarrow> checksums \<Rightarrow> artifact_row" where
  "new_artifact pg_text now i pl data h = \<lparr>
     art_id = i, art_version_id = ver_id (pl_version pl), art_platform_id = plat_id (pl_platform pl),
     art_architecture_id = arch_id (pl_architecture pl), art_provider_id = sp_id (pl_provider pl),
     art_file_name = pl_file_name pl, art_mime_type = Some ''application/octet-stream'',
     art_size_bytes = Some (pl_size pl), art_storage_key = payload_key i,
     art_channel = stored_channel pg_text (js_prop data ''channel''), art_download_count = 0,
     art_is_archived = False, art_is_published = checked_box (js_prop data ''isPublished''),
     art_published_at = (if checked_box (js_prop data ''isPublished'') then Some now else None),
     art_checksum = Some (ck_sha256 h), art_md5 = Some (ck_md5 h), art_sha1 = Some (ck_sha1 h),
     art_sha256 = Some (ck_sha256 h), art_sha512 = Some (ck_sha512 h), art_signature = None,
     art_signature_key_id = None, art_signature_manifest = None, art_created_at = now,
     art_deleted_at = None \<rparr>"

text \<open>The transaction: the row is inserted and the reservation deleted, both or neither.\<close>

definition release_reservation :: "string \<Rightarrow> db \<Rightarrow> db" where
  "release_reservation i d = d\<lparr>reservations := delete_where (\<lambda>r. rv_id r = i) (reservations d)\<rparr>"

definition commit_upload :: "artifact_row \<Rightarrow> db \<Rightarrow> db res" where
  "commit_upload a d =
     bind_res (checked artifact_constraints (artifacts d @ [a])) (\<lambda>tbl.
     Inr (release_reservation (art_id a) (d\<lparr>artifacts := tbl\<rparr>)))"

text \<open>
  The \<open>catch\<close> block: a stored object is deleted, and the reservation goes only when no object can be
  left; its deletion may itself fail silently, for which \<open>db_up\<close> stands.
\<close>

definition compensate :: "'s storage \<Rightarrow> bool \<Rightarrow> string \<Rightarrow> bool \<Rightarrow> 's \<Rightarrow> db \<Rightarrow> 's \<times> db" where
  "compensate st db_up i object_stored s d =
     (let (cleanup_succeeded, s') =
          (if object_stored then (case so_delete st (payload_key i) s of
              (Inl e, s') \<Rightarrow> (False, s') | (Inr _, s') \<Rightarrow> (True, s'))
           else (True, s))
      in (s', if cleanup_succeeded \<and> db_up then release_reservation i d else d))"

text \<open>
  \<open>uploadArtifact\<close>. The environment gives the clock, the identifier \<open>randomUUID()\<close>, the backend
  \<open>StorageManager.resolve\<close> finds, and whether the database answers in the transaction (\<open>up_fault\<close>) and
  in the compensation.
\<close>

record 's upload_env =
  ue_crypto :: crypto
  ue_nfkd :: "string \<Rightarrow> string"
  ue_pg_text :: "jsval \<Rightarrow> string"
  ue_now :: int
  ue_id :: string
  ue_resolve :: "provider_row \<Rightarrow> 's storage res"
  ue_fault :: "exn option"
  ue_db_up :: bool

definition upload_artifact ::
  "'s upload_env \<Rightarrow> upload_file \<Rightarrow> (string \<times> jsval) list \<Rightarrow> 's \<times> db \<Rightarrow> artifact_row res \<times> 's \<times> db" where
  "upload_artifact env f data w =
     (let (s, d) = w in
      case bind_res (plan_upload (ue_nfkd env) f data d) (\<lambda>pl.
             bind_res (ue_resolve env (pl_provider pl)) (\<lambda>st. Inr (pl, st))) of
        Inl e \<Rightarrow> (Inl e, s, d)
      | Inr (pl, st) \<Rightarrow>
          (case cleanup_expired st (sp_id (pl_provider pl)) (ue_now env) (reservations d) s of
             (Inl e, rs, s1) \<Rightarrow> (Inl e, s1, d\<lparr>reservations := rs\<rparr>)
           | (Inr _, rs, s1) \<Rightarrow>
               (let d1 = d\<lparr>reservations := rs\<rparr>; i = ue_id env in
                case reserve_quota (ue_now env) i (sp_id (pl_provider pl)) (pl_size pl) d1 of
                  Inl e \<Rightarrow> (Inl e, s1, d1)
                | Inr d2 \<Rightarrow>
                    (case transfer (ue_crypto env) st (payload_key i) (uf_bytes f) s1 of
                       (Inl e, stored, s2) \<Rightarrow> (Inl e, compensate st (ue_db_up env) i stored s2 d2)
                     | (Inr h, stored, s2) \<Rightarrow>
                         (let a = new_artifact (ue_pg_text env) (ue_now env) i pl data h in
                          case (case ue_fault env of Some e \<Rightarrow> Inl e | None \<Rightarrow> commit_upload a d2) of
                            Inl e \<Rightarrow> (Inl e, compensate st (ue_db_up env) i stored s2 d2)
                          | Inr d3 \<Rightarrow> (Inr a, s2, d3))))))"

section \<open>File names\<close>

lemma safe_file_part_chars: "c \<in> set (safe_file_part nfkd x) \<Longrightarrow> file_char c"
proof -
  have d: "file_char (CHR ''-'')" "\<forall>c\<in>set ''release''. file_char c" by code_simp+
  have "set (take 100 (strip_dashes (dash_runs file_char (nfkd x)))) \<subseteq> set (dash_runs file_char (nfkd x))"
    by (rule order_trans [OF set_take_subset set_strip_dashes])
  then show "c \<in> set (safe_file_part nfkd x) \<Longrightarrow> file_char c"
    using d set_dash_runs [of c file_char "nfkd x"]
    by (auto simp: safe_file_part_def Let_def split: if_splits)
qed

lemma safe_file_part_length: "safe_file_part nfkd x \<noteq> [] \<and> length (safe_file_part nfkd x) \<le> 100"
  by (simp add: safe_file_part_def Let_def)

lemma int_text_chars: "c \<in> set (int_text n) \<Longrightarrow> file_char c"
proof -
  have "\<forall>c\<in>set (dec m). file_char c" for m
    using dec_digits [of m] by (auto simp: list_all_iff file_char_def is_alnum_def)
  moreover have "file_char (CHR ''-'')" by code_simp
  ultimately show "c \<in> set (int_text n) \<Longrightarrow> file_char c" by (auto simp: int_text_def split: if_splits)
qed

lemma split_on_join: "split_on d (x @ d # q) = split_on d x @ split_on d q"
  by (induction x) (auto split: list.splits)

text \<open>
  A built file name is harmless wherever it goes (a header, a manifest, a path): it is not empty,
  consists of letters, digits, dot, underscore and dash, so it has no separator, quote or control
  character, and its extension is the sanitised extension it was built from.
\<close>

theorem file_name_safe:
  "list_all file_char (build_file_name nfkd s p h v ext) \<and> build_file_name nfkd s p h v ext \<noteq> [] \<and>
   (CHR ''.'' \<notin> set (safe_file_part nfkd ext) \<longrightarrow>
      last_part (build_file_name nfkd s p h v ext) = safe_file_part nfkd ext)"
proof -
  have f: "file_char (CHR ''_'')" "file_char (CHR ''.'')" "file_char (CHR ''-'')" "file_char (CHR ''v'')"
    by code_simp+
  have all: "list_all file_char (build_file_name nfkd s p h v ext)"
    using f safe_file_part_chars int_text_chars
    by (auto simp: list_all_iff build_file_name_def version_label_def)
  have split: "CHR ''.'' \<notin> set q \<Longrightarrow> last_part (x @ CHR ''.'' # q) = q" for x q
    by (simp add: last_part_def split_on_join split_on_single)
  have "build_file_name nfkd s p h v ext =
     (safe_file_part nfkd s @ ''_'' @ safe_file_part nfkd p @ ''_'' @ safe_file_part nfkd h @ ''_'' @
      version_label nfkd v) @ CHR ''.'' # safe_file_part nfkd ext"
    by (simp add: build_file_name_def)
  then show ?thesis using all split by (metis append_is_Nil_conv list.distinct(1))
qed

lemma file_name_safe_witness:
  "last_part (build_file_name (\<lambda>s. s) ''My App!'' ''linux'' ''x64'' sample_version ''zip'') = ''zip''"
proof -
  have "safe_file_part (\<lambda>s. s) ''zip'' = ''zip''" by code_simp
  then show ?thesis using file_name_safe [where nfkd = "\<lambda>s. s" and ext = "''zip''"] by simp
qed

section \<open>Quota\<close>

lemma fl_of_int_nonneg: "0 \<le> n \<Longrightarrow> n < 2 ^ 53 \<Longrightarrow> fl (of_int n) = of_int n"
  using fl_of_nat [of "nat n"] by (simp add: nat_less_iff)

lemma fl_ge_int:
  assumes "0 < n" "n < 2 ^ 53" "of_int n \<le> x"
  shows "of_int n \<le> fl x"
  using fl_mono_pos [of "of_int n" x] assms fl_of_int_nonneg [of n] by simp

lemma check_quota_sound:
  assumes "0 \<le> a" "0 \<le> r" "0 \<le> size'" "0 < q" "q + 1 < 2 ^ 53"
    and "check_quota (fl (number_of_sum a + number_of_sum r)) (fl (of_int q)) size' = Inr u"
  shows "a + r + size' \<le> q"
proof (rule ccontr)
  assume neg: "\<not> a + r + size' \<le> q"
  let ?u = "fl (number_of_sum a + number_of_sum r)"
  have q: "fl (of_int q) = of_int q" using fl_of_int_nonneg assms(4,5) by simp
  then have le: "fl (?u + of_int size') \<le> of_int q"
    using assms(4,6) by (auto simp: check_quota_def throw_if_def split: if_splits)
  have big: "of_int (q + 1) \<le> fl x" if "of_int (q + 1) \<le> x" for x
    using fl_ge_int [of "q + 1" x] assms(4,5) that by simp
  have n: "0 \<le> number_of_sum a" "0 \<le> number_of_sum r"
    using assms(1,2) fl_nonneg by (simp_all add: number_of_sum_def)
  have "of_int (q + 1) \<le> ?u + of_int size'"
  proof (cases "a + r \<le> q")
    case True
    then have "number_of_sum a = of_int a" "number_of_sum r = of_int r"
      using assms by (auto simp: number_of_sum_def intro: fl_of_int_nonneg)
    then have "?u = of_int (a + r)" using fl_of_int_nonneg [of "a + r"] assms True by simp
    moreover have "q + 1 \<le> a + r + size'" using neg by simp
    ultimately show ?thesis by (metis of_int_add of_int_le_iff)
  next
    case False
    have "of_int (q + 1) \<le> number_of_sum a + number_of_sum r"
    proof (cases "a \<le> q \<and> r \<le> q")
      case True
      then have "number_of_sum a = of_int a" "number_of_sum r = of_int r"
        using assms by (auto simp: number_of_sum_def intro: fl_of_int_nonneg)
      moreover have "q + 1 \<le> a + r" using False by simp
      ultimately show ?thesis by (metis of_int_add of_int_le_iff)
    next
      case F: False
      then have "of_int (q + 1) \<le> (of_int a :: rat) \<or> of_int (q + 1) \<le> (of_int r :: rat)"
        by (auto simp only: of_int_le_iff)
      then have "of_int (q + 1) \<le> number_of_sum a \<or> of_int (q + 1) \<le> number_of_sum r"
        using big by (auto simp: number_of_sum_def)
      then show ?thesis using n by linarith
    qed
    then have "of_int (q + 1) \<le> ?u" by (rule big)
    then show ?thesis using assms(3) by (metis add_increasing2 of_int_0_le_iff)
  qed
  then have "of_int (q + 1) \<le> fl (?u + of_int size')" by (rule big)
  then have "(of_int (q + 1) :: rat) \<le> of_int q" using le by (rule order_trans)
  then show False by (simp only: of_int_le_iff)
qed

lemma reserve_quota_Inr:
  assumes "reserve_quota now i p n d = Inr d'"
  obtains sp where "sp \<in> set (providers d)" "sp_id sp = p" "sp_deleted_at sp = None" "sp_is_active sp"
    "check_quota (fl (number_of_sum (artifact_usage d p) + number_of_sum (reserved_usage d p now))) (quota_number sp) n = Inr ()"
    "i \<notin> rv_id ` set (reservations d)" "distinct (map rv_id (reservations d))"
    "d' = d\<lparr>reservations := reservations d @ [\<lparr> rv_id = i, rv_provider_id = p, rv_size_bytes = n,
       rv_expires_at = now + 7 * day, rv_created_at = now \<rparr>]\<rparr>"
proof -
  from assms obtain sp tbl where *: "find_provider_row d p = Inr sp" "sp_is_active sp"
    "check_quota (fl (number_of_sum (artifact_usage d p) + number_of_sum (reserved_usage d p now))) (quota_number sp) n = Inr ()"
    "checked reservation_constraints (reservations d @ [\<lparr> rv_id = i, rv_provider_id = p, rv_size_bytes = n,
       rv_expires_at = now + 7 * day, rv_created_at = now \<rparr>]) = Inr tbl" "d' = d\<lparr>reservations := tbl\<rparr>"
    unfolding reserve_quota_def bind_res_Inr throw_if_Inr by auto
  have "sp \<in> set (providers d) \<and> sp_id sp = p \<and> sp_deleted_at sp = None"
    using *(1) by (auto simp: find_provider_row_def res_simps row_simps dest!: find_by_Some)
  moreover have "tbl = reservations d @ [\<lparr> rv_id = i, rv_provider_id = p, rv_size_bytes = n,
       rv_expires_at = now + 7 * day, rv_created_at = now \<rparr>]" "distinct (map rv_id tbl)"
    using *(4) unfolding checked_Inr by (simp_all add: reservation_constraints_def unique_on_total)
  ultimately show thesis using that [of sp] *(2,3,5) by auto
qed

section \<open>What an accepted request is\<close>

lemma ex_unit: "(\<exists>x. P (x :: unit)) \<longleftrightarrow> P ()"
  by (metis old.unit.exhaust)

lemma plan_upload_Inr:
  assumes "plan_upload nfkd f data d = Inr pl"
  obtains s where "assert_upload_metadata data = Inr ()" "js_safe_integer (uf_size f) = Some (pl_size pl)"
    "0 < pl_size pl" "find_version d (text_input data ''versionId'') = Inr (pl_version pl)"
    "find_platform_row d (text_input data ''platformId'') = Inr (pl_platform pl)"
    "find_architecture_row d (text_input data ''architectureId'') = Inr (pl_architecture pl)"
    "find_provider_row d (text_input data ''storageProviderId'') = Inr (pl_provider pl)"
    "sp_is_active (pl_provider pl)" "\<not> android_conflict (pl_platform pl) (pl_architecture pl)"
    "valid_extension (lowercase (plat_name (pl_platform pl))) (file_extension f)"
    "find_by sw_id (ver_software_id (pl_version pl)) (software d) = Some s" "sw_is_active s"
    "\<not> (checked_box (js_prop data ''isPublished'') \<and> sw_require_signed s)"
    "pl_file_name pl = build_file_name nfkd (sw_name s) (plat_name (pl_platform pl)) (arch_name (pl_architecture pl))
       (pl_version pl) (file_extension f)"
proof -
  from assms obtain n v p h sp where *: "assert_upload_metadata data = Inr ()"
    "(case js_safe_integer (uf_size f) of
         Some n \<Rightarrow> if uf_tmp_path f \<and> 0 < n then Inr n
           else Inl (Error ''The uploaded file is empty or unavailable.'')
       | None \<Rightarrow> Inl (Error ''The uploaded file is empty or unavailable.'')) = Inr n"
    "find_version d (text_input data ''versionId'') = Inr v"
    "find_platform_row d (text_input data ''platformId'') = Inr p"
    "find_architecture_row d (text_input data ''architectureId'') = Inr h"
    "find_provider_row d (text_input data ''storageProviderId'') = Inr sp"
    "sp_is_active sp" "\<not> android_conflict p h" "valid_extension (lowercase (plat_name p)) (file_extension f)"
    and r: "(case find_by sw_id (ver_software_id v) (software d) of
        None \<Rightarrow> Inl (Error ''Cannot upload an artifact for inactive software.'')
      | Some s \<Rightarrow>
          throw_if (\<not> sw_is_active s) (Error ''Cannot upload an artifact for inactive software.'')
          (throw_if (checked_box (js_prop data ''isPublished'') \<and> sw_require_signed s)
             (Error ''Upload this artifact as a draft, sign its release manifest, then publish it.'')
          (Inr \<lparr> pl_version = v, pl_platform = p, pl_architecture = h, pl_provider = sp,
                 pl_file_name = build_file_name nfkd (sw_name s) (plat_name p) (arch_name h) v (file_extension f),
                 pl_size = n \<rparr>))) = Inr pl"
    unfolding plan_upload_def bind_res_Inr throw_if_Inr ex_unit not_not by blast
  have n: "js_safe_integer (uf_size f) = Some n" "0 < n" using *(2) by (auto split: option.splits if_splits)
  from r obtain s where s: "find_by sw_id (ver_software_id v) (software d) = Some s" "sw_is_active s"
    "\<not> (checked_box (js_prop data ''isPublished'') \<and> sw_require_signed s)"
    "pl = \<lparr> pl_version = v, pl_platform = p, pl_architecture = h, pl_provider = sp,
                 pl_file_name = build_file_name nfkd (sw_name s) (plat_name p) (arch_name h) v (file_extension f),
                 pl_size = n \<rparr>"
    by (auto simp: throw_if_Inr split: option.splits)
  show thesis by (rule that [of s]) (use * n s in simp_all)
qed

lemma plan_provider: "plan_upload nfkd f data d = Inr pl \<Longrightarrow> sp_id (pl_provider pl) = text_input data ''storageProviderId''"
  by (erule plan_upload_Inr) (auto simp: find_provider_row_def from_option_Inr dest!: find_by_Some)

section \<open>Objects and reservations\<close>

text \<open>
  What holds of a provider \<open>p\<close> between operations: every object it holds belongs to an artifact or to a
  reservation of the provider, every artifact of the provider has its object, and no artifact uses
  the key of a reservation.
\<close>

definition objects_ok :: "string \<Rightarrow> (string \<Rightarrow> bytes option) \<Rightarrow> artifact_row list \<Rightarrow> reservation_row list \<Rightarrow> bool" where
  "objects_ok p objects arts rs \<longleftrightarrow>
     (\<forall>k. objects k \<noteq> None \<longrightarrow>
        (\<exists>a\<in>set arts. art_provider_id a = p \<and> art_storage_key a = k) \<or>
        (\<exists>r\<in>set rs. rv_provider_id r = p \<and> payload_key (rv_id r) = k)) \<and>
     (\<forall>a\<in>set arts. art_provider_id a = p \<longrightarrow> objects (art_storage_key a) \<noteq> None) \<and>
     (\<forall>a\<in>set arts. \<forall>r\<in>set rs. art_storage_key a \<noteq> payload_key (rv_id r)) \<and>
     distinct (map rv_id rs)"

lemma payload_key_inject [simp]: "payload_key i = payload_key j \<longleftrightarrow> i = j"
  by (simp add: payload_key_def)

lemma objects_okI:
  assumes "\<And>k. objects k \<noteq> None \<Longrightarrow> (\<exists>a\<in>set arts. art_provider_id a = p \<and> art_storage_key a = k) \<or>
        (\<exists>r\<in>set rs. rv_provider_id r = p \<and> payload_key (rv_id r) = k)"
    and "\<And>a. a \<in> set arts \<Longrightarrow> art_provider_id a = p \<Longrightarrow> objects (art_storage_key a) \<noteq> None"
    and "\<And>a r. a \<in> set arts \<Longrightarrow> r \<in> set rs \<Longrightarrow> art_storage_key a \<noteq> payload_key (rv_id r)"
    and "distinct (map rv_id rs)"
  shows "objects_ok p objects arts rs"
  using assms by (simp add: objects_ok_def)

text \<open>Reserving, and dropping reservations whose objects are gone.\<close>

lemma objects_ok_reserve:
  assumes "objects_ok p objects arts rs" "rv_id r \<notin> rv_id ` set rs" "payload_key (rv_id r) \<notin> art_storage_key ` set arts"
  shows "objects_ok p objects arts (rs @ [r])"
  using assms by (intro objects_okI) (auto simp: objects_ok_def, metis image_eqI)

lemma objects_ok_drop:
  assumes "objects_ok p objects arts rs" "distinct (map rv_id rs')" "set rs' \<subseteq> set rs"
    and "\<And>r. r \<in> set rs \<Longrightarrow> r \<notin> set rs' \<Longrightarrow> rv_provider_id r = p \<Longrightarrow> objects' (payload_key (rv_id r)) = None"
    and "\<And>k. objects' k = objects k \<or> (objects' k = None \<and> k \<in> (payload_key \<circ> rv_id) ` set rs)"
  shows "objects_ok p objects' arts rs'"
proof (rule objects_okI)
  fix k assume k: "objects' k \<noteq> None"
  then have "objects k \<noteq> None" using assms(5) [of k] by auto
  then consider (a) "\<exists>a\<in>set arts. art_provider_id a = p \<and> art_storage_key a = k"
    | (r) r where "r \<in> set rs" "rv_provider_id r = p" "payload_key (rv_id r) = k"
    using assms(1) unfolding objects_ok_def by blast
  then show "(\<exists>a\<in>set arts. art_provider_id a = p \<and> art_storage_key a = k) \<or>
      (\<exists>r\<in>set rs'. rv_provider_id r = p \<and> payload_key (rv_id r) = k)"
  proof cases
    case r
    then show ?thesis using assms(4) [of r] k by auto
  qed simp
next
  fix a assume a: "a \<in> set arts" "art_provider_id a = p"
  then have "art_storage_key a \<notin> (payload_key \<circ> rv_id) ` set rs" "objects (art_storage_key a) \<noteq> None"
    using assms(1) by (auto simp: objects_ok_def)
  then show "objects' (art_storage_key a) \<noteq> None" using assms(5) [of "art_storage_key a"] by auto
next
  fix a r assume "a \<in> set arts" "r \<in> set rs'"
  then show "art_storage_key a \<noteq> payload_key (rv_id r)" using assms(1,3) by (auto simp: objects_ok_def)
qed (rule assms(2))

lemma distinct_delete_where: "distinct (map f xs) \<Longrightarrow> distinct (map f (delete_where P xs))"
  by (simp add: delete_where_def distinct_map_filter')

lemma objects_ok_release:
  assumes "objects_ok p objects arts rs" "i \<in> rv_id ` set rs"
  shows "objects_ok p (objects(payload_key i := None)) arts rs \<and>
    objects_ok p (objects(payload_key i := None)) arts (delete_where (\<lambda>r. rv_id r = i) rs)"
proof -
  have "objects_ok p (objects(payload_key i := None)) arts rs'"
    if "distinct (map rv_id rs')" "set rs' \<subseteq> set rs" "\<And>r. r \<in> set rs \<Longrightarrow> r \<notin> set rs' \<Longrightarrow> rv_id r = i" for rs'
    using that assms(2) by (intro objects_ok_drop [OF assms(1)]) auto
  note * = this
  have "distinct (map rv_id rs)" using assms(1) by (simp add: objects_ok_def)
  then show ?thesis by (intro conjI *) (auto simp: row_simps intro: distinct_delete_where)
qed

lemma cleanup_subset:
  "cleanup_expired st p now rs s = (x, rs', s') \<Longrightarrow> set rs' \<subseteq> set rs"
proof (induction rs arbitrary: s rule: measure_induct_rule [where f = length])
  case (less rs s)
  show ?case
  proof (cases "expired_batch p now rs = []")
    case True
    then show ?thesis using less.prems by (subst (asm) cleanup_expired.simps) simp
  next
    case False
    let ?rest = "delete_where (\<lambda>r. expired_at p now r \<and> rv_id r \<in> rv_id ` set (expired_batch p now rs)) rs"
    have "set ?rest \<subseteq> set rs" by (auto simp: row_simps)
    moreover have "rs' = rs \<or> (\<exists>s1. cleanup_expired st p now ?rest s1 = (x, rs', s'))"
      using less.prems False
      by (simp add: cleanup_expired.simps [of st p now rs s] Let_def split: prod.splits sum.splits) blast
    ultimately show ?thesis using less.IH [OF batch_shrinks [OF False]] by blast
  qed
qed

text \<open>What the upload has reached when it starts to transfer.\<close>

lemma upload_cases:
  assumes "upload_artifact env f data (s, d) = (x, s', d')"
    and "\<And>sp st'. ue_resolve env sp = Inr st' \<Longrightarrow> st' = st"
  obtains (rejected) e where "x = Inl e" "s' = s" "d' = d"
  | (prepared) pl y rs s1 where "plan_upload (ue_nfkd env) f data d = Inr pl"
      "cleanup_expired st (sp_id (pl_provider pl)) (ue_now env) (reservations d) s = (y, rs, s1)"
      "(\<exists>e. x = Inl e) \<and> s' = s1 \<and> d' = d\<lparr>reservations := rs\<rparr>"
  | (transferred) pl rs s1 d2 z stored s2 where "plan_upload (ue_nfkd env) f data d = Inr pl"
      "cleanup_expired st (sp_id (pl_provider pl)) (ue_now env) (reservations d) s = (Inr (), rs, s1)"
      "reserve_quota (ue_now env) (ue_id env) (sp_id (pl_provider pl)) (pl_size pl) (d\<lparr>reservations := rs\<rparr>) = Inr d2"
      "transfer (ue_crypto env) st (payload_key (ue_id env)) (uf_bytes f) s1 = (z, stored, s2)"
      "(\<exists>e. x = Inl e \<and> compensate st (ue_db_up env) (ue_id env) stored s2 d2 = (s', d')) \<or>
       (\<exists>h a. z = Inr h \<and> x = Inr a \<and> s' = s2 \<and>
          a = new_artifact (ue_pg_text env) (ue_now env) (ue_id env) pl data h \<and> commit_upload a d2 = Inr d')"
proof (cases "bind_res (plan_upload (ue_nfkd env) f data d) (\<lambda>pl.
             bind_res (ue_resolve env (pl_provider pl)) (\<lambda>st. Inr (pl, st)))")
  case (Inl e)
  then show thesis using assms(1) by (intro rejected [of e]) (auto simp: upload_artifact_def)
next
  case (Inr q)
  then obtain pl where q: "plan_upload (ue_nfkd env) f data d = Inr pl" "q = (pl, st)"
    using assms(2) by (auto simp: bind_res_Inr)
  obtain y rs s1 where c: "cleanup_expired st (sp_id (pl_provider pl)) (ue_now env) (reservations d) s = (y, rs, s1)"
    by (cases "cleanup_expired st (sp_id (pl_provider pl)) (ue_now env) (reservations d) s")
  show thesis
  proof (cases "y = Inr () \<and> (\<exists>d2. reserve_quota (ue_now env) (ue_id env) (sp_id (pl_provider pl)) (pl_size pl)
      (d\<lparr>reservations := rs\<rparr>) = Inr d2)")
    case False
    then have "(\<exists>e. x = Inl e) \<and> s' = s1 \<and> d' = d\<lparr>reservations := rs\<rparr>"
      using assms(1) Inr q(2) c by (auto simp: upload_artifact_def Let_def split: sum.splits)
    then show thesis by (rule prepared [OF q(1) c])
  next
    case True
    then obtain d2 where r: "y = Inr ()" "reserve_quota (ue_now env) (ue_id env) (sp_id (pl_provider pl)) (pl_size pl)
      (d\<lparr>reservations := rs\<rparr>) = Inr d2" by blast
    obtain z stored s2 where t: "transfer (ue_crypto env) st (payload_key (ue_id env)) (uf_bytes f) s1 = (z, stored, s2)"
      by (cases "transfer (ue_crypto env) st (payload_key (ue_id env)) (uf_bytes f) s1")
    show thesis
    proof (rule transferred [OF q(1) c [unfolded r(1)] r(2) t])
      show "(\<exists>e. x = Inl e \<and> compensate st (ue_db_up env) (ue_id env) stored s2 d2 = (s', d')) \<or>
       (\<exists>h a. z = Inr h \<and> x = Inr a \<and> s' = s2 \<and>
          a = new_artifact (ue_pg_text env) (ue_now env) (ue_id env) pl data h \<and> commit_upload a d2 = Inr d')"
        using assms(1) Inr q(2) c r t
        by (auto simp: upload_artifact_def Let_def split: sum.splits option.splits)
    qed
  qed
qed

context object_storage
begin

lemma delete_keys_content:
  assumes "good s" "\<forall>k\<in>set ks. usable k" "delete_keys st ks s = (x, s')"
  shows "good s' \<and> (\<forall>k. content s' k = content s k \<or> (content s' k = None \<and> k \<in> set ks)) \<and>
    (x = Inr () \<longrightarrow> (\<forall>k\<in>set ks. content s' k = None))"
  using assms
proof (induction ks arbitrary: s)
  case (Cons k ks)
  obtain y s1 where d: "so_delete st k s = (y, s1)" by (cases "so_delete st k s")
  have u: "usable k" using Cons.prems by simp
  have g: "good s1" using good_delete [OF Cons.prems(1) u] d by simp
  show ?case
  proof (cases y)
    case (Inl e)
    then show ?thesis using Cons.prems(3) d g delete_fails [OF Cons.prems(1) u] by auto
  next
    case (Inr v)
    then have c: "content s1 = (content s)(k := None)" using delete_removes [OF Cons.prems(1) u] d by simp
    have "delete_keys st ks s1 = (x, s')" using Cons.prems(3) d Inr by simp
    note IH = Cons.IH [OF g _ this]
    show ?thesis using IH Cons.prems(2) c by (auto split: if_splits)
  qed
qed simp

lemma cleanup_content:
  assumes "good s" "\<forall>r\<in>set rs. usable (payload_key (rv_id r))" "cleanup_expired st p now rs s = (x, rs', s')"
  shows "good s' \<and> set rs' \<subseteq> set rs \<and> (distinct (map rv_id rs) \<longrightarrow> distinct (map rv_id rs')) \<and>
    (\<forall>r\<in>set rs. \<not> expired_at p now r \<longrightarrow> r \<in> set rs') \<and>
    (\<forall>r\<in>set rs. r \<notin> set rs' \<longrightarrow> content s' (payload_key (rv_id r)) = None) \<and>
    (\<forall>k. content s' k = content s k \<or>
       (content s' k = None \<and> (\<exists>r\<in>set rs. expired_at p now r \<and> k = payload_key (rv_id r)))) \<and>
    (x = Inr () \<longrightarrow> (\<forall>r\<in>set rs'. \<not> expired_at p now r))"
  using assms
proof (induction rs arbitrary: s rule: measure_induct_rule [where f = length])
  case (less rs s)
  let ?b = "expired_batch p now rs"
  let ?ks = "map (\<lambda>r. payload_key (rv_id r)) ?b"
  let ?rest = "delete_where (\<lambda>r. expired_at p now r \<and> rv_id r \<in> rv_id ` set ?b) rs"
  show ?case
  proof (cases "?b = []")
    case True
    then show ?thesis using less.prems expired_batch_Nil [of p now rs]
      by (subst (asm) cleanup_expired.simps) auto
  next
    case False
    obtain y s1 where d: "delete_keys st ?ks s = (y, s1)" by (cases "delete_keys st ?ks s")
    have b: "\<And>r. r \<in> set ?b \<Longrightarrow> r \<in> set rs \<and> expired_at p now r" using set_expired_batch by blast
    have u: "\<forall>k\<in>set ?ks. usable k" using b less.prems(2) by auto
    note dk = delete_keys_content [OF less.prems(1) u d]
    have c1: "content s1 k = content s k \<or>
        (content s1 k = None \<and> (\<exists>r\<in>set rs. expired_at p now r \<and> k = payload_key (rv_id r)))" for k
    proof (cases "content s1 k = content s k")
      case F: False
      then have "content s1 k = None" "k \<in> set ?ks" using dk by metis+
      then show ?thesis using b by auto
    qed simp
    show ?thesis
    proof (cases y)
      case (Inl e)
      then have "x = Inl e" "rs' = rs" "s' = s1" using less.prems(3) False d
        by (simp_all add: cleanup_expired.simps [of st p now rs s] Let_def)
      then show ?thesis using dk c1 by simp
    next
      case (Inr v)
      then have r: "cleanup_expired st p now ?rest s1 = (x, rs', s')" using less.prems(3) False d
        by (simp add: cleanup_expired.simps [of st p now rs s] Let_def)
      have sub: "set ?rest \<subseteq> set rs" by (auto simp: row_simps)
      have g1: "good s1" using dk by blast
      have u1: "\<forall>r\<in>set ?rest. usable (payload_key (rv_id r))" using less.prems(2) sub by blast
      note IH = less.IH [OF batch_shrinks [OF False] g1 u1 r]
      have gone: "content s1 (payload_key (rv_id r)) = None" if "r \<in> set rs" "r \<notin> set ?rest" for r
        using that dk Inr by (auto simp: row_simps)
      have "content s' (payload_key (rv_id r)) = None" if "r \<in> set rs" "r \<notin> set rs'" for r
      proof (cases "r \<in> set ?rest")
        case True
        then show ?thesis using IH that(2) by blast
      next
        case F: False
        then show ?thesis using gone [OF that(1) F] IH by metis
      qed
      moreover have "content s' k = content s k \<or>
          (content s' k = None \<and> (\<exists>r\<in>set rs. expired_at p now r \<and> k = payload_key (rv_id r)))" for k
        using IH c1 [of k] sub by (metis (no_types, lifting) subsetD)
      moreover have "r \<in> set rs'" if "r \<in> set rs" "\<not> expired_at p now r" for r
        using IH that by (simp add: row_simps)
      moreover have "distinct (map rv_id rs')" if "distinct (map rv_id rs)"
        using IH distinct_delete_where [OF that] by blast
      ultimately show ?thesis using IH sub by blast
    qed
  qed
qed

lemma transfer_content:
  assumes "good s" "usable k" "content s k = None" "transfer cr st k b s = (x, stored, s')"
  shows "good s' \<and> (\<forall>j. j \<noteq> k \<longrightarrow> content s' j = content s j) \<and> (\<not> stored \<longrightarrow> content s' = content s) \<and>
    (\<forall>h. x = Inr h \<longrightarrow> stored \<and> (\<exists>c. b = Inr c \<and> h = compute_checksums cr c \<and> content s' k = Some c))"
proof (cases b)
  case (Inl e)
  then show ?thesis using assms by (auto simp: transfer_def)
next
  case (Inr c)
  obtain y s1 where u: "so_upload st k b s = (y, s1)" by (cases "so_upload st k b s")
  have g: "good s1" using good_upload [OF assms(1,2), of b] u by simp
  show ?thesis
  proof (cases y)
    case (Inl e)
    then show ?thesis using assms(4) u g Inr upload_fails [OF assms(1-3)] by (auto simp: transfer_def)
  next
    case (Inr k')
    then have "k' = k" "content s1 = (content s)(k \<mapsto> c)"
      using upload_stores [OF assms(1,2), of b k' s1] u \<open>b = Inr c\<close> by auto
    then show ?thesis using assms(4) u g Inr \<open>b = Inr c\<close> by (auto simp: transfer_def)
  qed
qed

text \<open>
  The catch block: with the reservation still there, the object under its key is gone or the
  reservation stays.
\<close>

lemma compensate_objects:
  assumes "good s" "usable (payload_key i)" "objects_ok p (content s) (artifacts d) (reservations d)"
    and "i \<in> rv_id ` set (reservations d)"
    and "\<not> stored \<longrightarrow> content s (payload_key i) = None"
    and "compensate st db_up i stored s d = (s', d')"
  shows "good s' \<and> objects_ok p (content s') (artifacts d') (reservations d') \<and> artifacts d' = artifacts d"
proof -
  note gone = objects_ok_release [OF assms(3,4)]
  show ?thesis
  proof (cases stored)
    case False
    then have "(content s)(payload_key i := None) = content s" using assms(5) by auto
    then show ?thesis using assms(1,3,6) False gone
      by (auto simp: compensate_def release_reservation_def)
  next
    case True
    obtain y s1 where del: "so_delete st (payload_key i) s = (y, s1)" by (cases "so_delete st (payload_key i) s")
    have g: "good s1" using good_delete [OF assms(1,2)] del by simp
    show ?thesis
    proof (cases y)
      case (Inl e)
      then show ?thesis
        using assms(3,6) True del g delete_fails [OF assms(1,2)] by (auto simp: compensate_def)
    next
      case (Inr u)
      then have "content s1 = (content s)(payload_key i := None)"
        using delete_removes [OF assms(1,2)] del by simp
      then show ?thesis using assms(6) True del g Inr gone
        by (auto simp: compensate_def release_reservation_def)
    qed
  qed
qed

lemma upload_keeps_objects:
  assumes "upload_artifact env f data (s, d) = (x, s', d')"
    and resolve: "\<And>sp st'. ue_resolve env sp = Inr st' \<Longrightarrow> st' = st"
    and "good s" "objects_ok (text_input data ''storageProviderId'') (content s) (artifacts d) (reservations d)"
    and usable: "\<forall>r\<in>set (reservations d). usable (payload_key (rv_id r))" "usable (payload_key (ue_id env))"
    and fresh: "content s (payload_key (ue_id env)) = None" "ue_id env \<notin> rv_id ` set (reservations d)"
      "payload_key (ue_id env) \<notin> art_storage_key ` set (artifacts d)"
  shows "good s' \<and> objects_ok (text_input data ''storageProviderId'') (content s') (artifacts d') (reservations d') \<and>
    (\<forall>a. x = Inr a \<longrightarrow> (\<exists>c. uf_bytes f = Inr c \<and> content s' (art_storage_key a) = Some c))"
  using assms(1) resolve
proof (rule upload_cases)
  fix e assume "x = Inl e" "s' = s" "d' = d"
  then show ?thesis using assms(3,4) by simp
next
  fix pl y rs s1
  assume p: "plan_upload (ue_nfkd env) f data d = Inr pl"
    and c: "cleanup_expired st (sp_id (pl_provider pl)) (ue_now env) (reservations d) s = (y, rs, s1)"
    and r: "(\<exists>e. x = Inl e) \<and> s' = s1 \<and> d' = d\<lparr>reservations := rs\<rparr>"
  note cc = cleanup_content [OF assms(3) usable(1) c]
  have "objects_ok (text_input data ''storageProviderId'') (content s1) (artifacts d) rs"
    using cc assms(4) by (intro objects_ok_drop [OF assms(4)]) (auto simp: objects_ok_def)
  then show ?thesis using r cc by auto
next
  fix pl rs s1 d2 z stored s2
  let ?p = "text_input data ''storageProviderId''" and ?i = "ue_id env"
  assume p: "plan_upload (ue_nfkd env) f data d = Inr pl"
    and c: "cleanup_expired st (sp_id (pl_provider pl)) (ue_now env) (reservations d) s = (Inr (), rs, s1)"
    and q: "reserve_quota (ue_now env) ?i (sp_id (pl_provider pl)) (pl_size pl) (d\<lparr>reservations := rs\<rparr>) = Inr d2"
    and t: "transfer (ue_crypto env) st (payload_key ?i) (uf_bytes f) s1 = (z, stored, s2)"
    and r: "(\<exists>e. x = Inl e \<and> compensate st (ue_db_up env) ?i stored s2 d2 = (s', d')) \<or>
       (\<exists>h a. z = Inr h \<and> x = Inr a \<and> s' = s2 \<and>
          a = new_artifact (ue_pg_text env) (ue_now env) ?i pl data h \<and> commit_upload a d2 = Inr d')"
  note cc = cleanup_content [OF assms(3) usable(1) c]
  have pp: "sp_id (pl_provider pl) = ?p" by (rule plan_provider [OF p])
  have o1: "objects_ok ?p (content s1) (artifacts d) rs"
    using cc assms(4) by (intro objects_ok_drop [OF assms(4)]) (auto simp: objects_ok_def)
  have n1: "content s1 (payload_key ?i) = None" using cc fresh(1) by metis
  let ?rv = "\<lparr> rv_id = ?i, rv_provider_id = ?p, rv_size_bytes = pl_size pl,
       rv_expires_at = ue_now env + 7 * day, rv_created_at = ue_now env \<rparr>"
  have d2: "d2 = d\<lparr>reservations := rs @ [?rv]\<rparr>" "?i \<notin> rv_id ` set rs"
    by (rule reserve_quota_Inr [OF q [unfolded pp]], simp)+
  have o2: "objects_ok ?p (content s1) (artifacts d) (rs @ [?rv])"
    using fresh(3) d2(2) by (intro objects_ok_reserve [OF o1]) simp_all
  have g1: "good s1" using cc by blast
  note tc = transfer_content [OF g1 usable(2) n1 t]
  have o3: "objects_ok ?p (content s2) (artifacts d) (rs @ [?rv])"
  proof (rule objects_okI)
    fix k assume "content s2 k \<noteq> None"
    then consider "k = payload_key ?i" | "content s1 k \<noteq> None" using tc by metis
    then show "(\<exists>a\<in>set (artifacts d). art_provider_id a = ?p \<and> art_storage_key a = k) \<or>
        (\<exists>r\<in>set (rs @ [?rv]). rv_provider_id r = ?p \<and> payload_key (rv_id r) = k)"
    proof cases
      case 1
      then show ?thesis by (intro disjI2 bexI [of _ ?rv]) simp_all
    next
      case 2
      then show ?thesis using o2 unfolding objects_ok_def by blast
    qed
  next
    fix a assume a: "a \<in> set (artifacts d)" "art_provider_id a = ?p"
    then have "art_storage_key a \<noteq> payload_key ?i" using fresh(3) by (metis image_eqI)
    then show "content s2 (art_storage_key a) \<noteq> None" using a o2 tc unfolding objects_ok_def by metis
  qed (use o2 in \<open>auto simp: objects_ok_def\<close>)
  from r show ?thesis
  proof (elim disjE exE conjE)
    fix e assume e: "x = Inl e" and comp: "compensate st (ue_db_up env) ?i stored s2 d2 = (s', d')"
    have g2: "good s2" and n2: "\<not> stored \<longrightarrow> content s2 (payload_key ?i) = None" using tc n1 by auto
    have o4: "objects_ok ?p (content s2) (artifacts d2) (reservations d2)" "?i \<in> rv_id ` set (reservations d2)"
      using o3 d2(1) by simp_all
    show ?thesis using compensate_objects [OF g2 usable(2) o4 n2 comp] e by blast
  next
    fix h a
    assume h: "z = Inr h" "x = Inr a" "s' = s2" and a: "a = new_artifact (ue_pg_text env) (ue_now env) ?i pl data h"
      and com: "commit_upload a d2 = Inr d'"
    have k: "art_storage_key a = payload_key ?i" "art_provider_id a = ?p" "art_id a = ?i"
      using pp by (simp_all add: a new_artifact_def)
    obtain c where cont: "uf_bytes f = Inr c" "content s2 (payload_key ?i) = Some c" using tc h(1) by blast
    have d': "artifacts d' = artifacts d @ [a]" "reservations d' = delete_where (\<lambda>r. rv_id r = ?i) (rs @ [?rv])"
      using com k(3) d2(1) by (auto simp: commit_upload_def release_reservation_def bind_res_Inr checked_Inr)
    have dis: "distinct (map rv_id (delete_where (\<lambda>r. rv_id r = ?i) (rs @ [?rv])))"
      using o3 unfolding objects_ok_def by (intro distinct_delete_where) blast
    have "objects_ok ?p (content s2) (artifacts d @ [a]) (delete_where (\<lambda>r. rv_id r = ?i) (rs @ [?rv]))"
    proof (rule objects_okI)
      fix j assume "content s2 j \<noteq> None"
      then show "(\<exists>b\<in>set (artifacts d @ [a]). art_provider_id b = ?p \<and> art_storage_key b = j) \<or>
          (\<exists>r\<in>set (delete_where (\<lambda>r. rv_id r = ?i) (rs @ [?rv])). rv_provider_id r = ?p \<and> payload_key (rv_id r) = j)"
        using o3 k by (cases "j = payload_key ?i") (force simp: objects_ok_def row_simps)+
    next
      fix b r assume "b \<in> set (artifacts d @ [a])" "r \<in> set (delete_where (\<lambda>r. rv_id r = ?i) (rs @ [?rv]))"
      then show "art_storage_key b \<noteq> payload_key (rv_id r)" using o3 k by (auto simp: objects_ok_def row_simps)
    qed (use o3 k cont dis in \<open>auto simp: objects_ok_def\<close>)
    then show ?thesis using tc h d' k cont by simp
  qed
qed

end

section \<open>Keys of objects\<close>

lemma to_lower_hex: "to_lower c \<in> set ''89ab'' \<Longrightarrow> is_hex_i c"
proof -
  assume a: "to_lower c \<in> set ''89ab''"
  show ?thesis
  proof (cases "is_upper c \<or> (192 \<le> code c \<and> code c \<le> 222 \<and> code c \<noteq> 215)")
    case True
    then have "code (to_lower c) = code c + 32"
      by (auto simp: to_lower_def is_upper_def char_between_def)
    moreover have "code (to_lower c) \<in> {56, 57, 97, 98}" using a by auto
    ultimately show ?thesis using True by (auto simp: char_class_defs)
  next
    case False
    then show ?thesis using a by (auto simp: to_lower_def is_hex_i_def is_hex_def is_digit_def char_between_def)
  qed
qed

lemma uuid_text: "is_uuid i \<Longrightarrow> length i = 36 \<and> (\<forall>c\<in>set i. is_hex_i c \<or> c = CHR ''-'')"
proof -
  have each: "\<exists>p\<in>set ps. p c" if "list_all2 (\<lambda>p c. p c) ps s" "c \<in> set s" for ps :: "(char \<Rightarrow> bool) list" and s c
    using that by (induction ps s rule: list_all2_induct) auto
  assume u: "is_uuid i"
  have "length i = 36" using u by (auto simp: is_uuid_def matches_classes_def dest!: list_all2_lengthD)
  moreover have "is_hex_i c \<or> c = CHR ''-''" if "c \<in> set i" for c
  proof -
    from each [OF u [unfolded is_uuid_def matches_classes_def] that]
    have "is_hex_i c \<or> c = CHR ''-'' \<or> char_between 49 56 c \<or> to_lower c \<in> set ''89ab''" by auto
    then show ?thesis using to_lower_hex [of c]
      by (auto simp: is_hex_i_def is_hex_def is_digit_def char_between_def)
  qed
  ultimately show ?thesis by blast
qed

lemma uuid_key_ok: "is_uuid i \<Longrightarrow> key_ok (payload_key i)"
proof -
  assume "is_uuid i"
  then have i: "length i = 36" "\<And>c. c \<in> set i \<Longrightarrow> is_hex_i c \<or> c = CHR ''-''" using uuid_text by blast+
  have no: "CHR ''/'' \<notin> set i" "CHR 0x00 \<notin> set i" "CHR 0x5C \<notin> set i"
    using i(2) [of "CHR ''/''"] i(2) [of "CHR 0x00"] i(2) [of "CHR 0x5C"] by (auto simp: char_class_defs)
  have "payload_key i = ''artifacts'' @ CHR ''/'' # i @ CHR ''/'' # ''payload''" by (simp add: payload_key_def)
  then have "segments (payload_key i) = [''artifacts'', i, ''payload'']"
    using no(1) by (simp add: split_on_append split_on_single)
  moreover have "i \<noteq> []" "i \<noteq> ''.''" "i \<noteq> ''..''" using i(1) by auto
  moreover have "CHR 0x00 \<notin> set (payload_key i)" "CHR 0x5C \<notin> set (payload_key i)"
    using no by (simp_all add: payload_key_def)
  moreover have "\<not> starts_with (payload_key i) ''/''" "payload_key i \<noteq> []"
    by (simp_all add: starts_with_def payload_key_def)
  ultimately show ?thesis by (simp add: key_ok_def)
qed

section \<open>Properties of an upload\<close>

text \<open>
  C11. No upload loses track of an object. Whatever happens (a rejected request, a failing cleanup, an
  exhausted quota, an interrupted file, a failing transaction, a failing compensation), afterwards
  every object of the provider belongs to an artifact or is covered by a reservation, every artifact
  of the provider has its object, and a successful upload returns an artifact whose object holds
  exactly the uploaded bytes. Shown for the local provider.
\<close>

theorem upload_tracks_objects:
  assumes "upload_artifact env f data (s, d) = (x, s', d')"
    and "\<forall>sp st. ue_resolve env sp = Inr st \<longrightarrow> st = local_storage root_cfg"
    and "local_ok root_cfg s" "objects_ok (text_input data ''storageProviderId'') (local_content root_cfg s) (artifacts d) (reservations d)"
    and "\<forall>r\<in>set (reservations d). is_uuid (rv_id r)" "is_uuid (ue_id env)"
    and "local_content root_cfg s (payload_key (ue_id env)) = None" "ue_id env \<notin> rv_id ` set (reservations d)"
    and "payload_key (ue_id env) \<notin> art_storage_key ` set (artifacts d)"
  shows "local_ok root_cfg s' \<and>
    objects_ok (text_input data ''storageProviderId'') (local_content root_cfg s') (artifacts d') (reservations d') \<and>
    (\<forall>a. x = Inr a \<longrightarrow> (\<exists>c. uf_bytes f = Inr c \<and> local_get root_cfg (art_storage_key a) s' = Inr c))"
proof -
  have st: "st' = local_storage root_cfg" if "ue_resolve env sp = Inr st'" for sp st'
    using assms(2) that by blast
  have us: "\<forall>r\<in>set (reservations d). key_ok (payload_key (rv_id r))" "key_ok (payload_key (ue_id env))"
    using assms(5,6) uuid_key_ok by blast+
  have "local_ok root_cfg s' \<and>
      objects_ok (text_input data ''storageProviderId'') (local_content root_cfg s') (artifacts d') (reservations d') \<and>
      (\<forall>a. x = Inr a \<longrightarrow> (\<exists>c. uf_bytes f = Inr c \<and> local_content root_cfg s' (art_storage_key a) = Some c))"
    by (rule local_disk.upload_keeps_objects [OF assms(1) st assms(3,4) us assms(7-9)])
  then show ?thesis using local_get_content [of s' root_cfg] by (auto simp: local_ok_def)
qed

definition uuid_of :: "nat \<Rightarrow> string" where
  "uuid_of n = ''00000000-0000-4000-8000-00000000000'' @ dec n"

definition upload_db :: db where
  "upload_db = empty_db\<lparr>
     software := [sample_software\<lparr>sw_require_signed := False\<rparr>],
     versions := [sample_version\<lparr>ver_id := uuid_of 1\<rparr>],
     platforms := [sample_platform\<lparr>plat_id := uuid_of 2\<rparr>],
     architectures := [sample_architecture\<lparr>arch_id := uuid_of 3\<rparr>],
     providers := [sample_provider\<lparr>sp_id := uuid_of 4\<rparr>]\<rparr>"

definition upload_request :: "(string \<times> jsval) list" where
  "upload_request = [(''versionId'', JStr (uuid_of 1)), (''platformId'', JStr (uuid_of 2)),
     (''architectureId'', JStr (uuid_of 3)), (''storageProviderId'', JStr (uuid_of 4)),
     (''channel'', JStr ''stable''), (''isPublished'', JStr ''on'')]"

definition sample_env :: "fs upload_env" where
  "sample_env = \<lparr> ue_crypto = toy_crypto\<lparr>cr_md5 := (\<lambda>_. ''m''), cr_sha1 := (\<lambda>_. ''1''),
       cr_sha256 := (\<lambda>_. ''2''), cr_sha512 := (\<lambda>_. ''5'')\<rparr>,
     ue_nfkd = (\<lambda>s. s), ue_pg_text = (\<lambda>_. []), ue_now = 1000, ue_id = uuid_of 5,
     ue_resolve = (\<lambda>_. Inr (local_storage [''data''])), ue_fault = None, ue_db_up = True \<rparr>"

definition sample_file :: upload_file where
  "sample_file = \<lparr> uf_tmp_path = True, uf_size = JNum (Fin 2), uf_extname = Some ''zip'',
     uf_client_name = ''App.zip'', uf_bytes = Inr [1, 2] \<rparr>"

lemma sample_upload:
  "\<exists>a s' d'. upload_artifact sample_env sample_file upload_request (sample_fs, upload_db) = (Inr a, s', d')"
proof -
  have "case upload_artifact sample_env sample_file upload_request (sample_fs, upload_db) of
      (Inl _, _) \<Rightarrow> False | (Inr _, _) \<Rightarrow> True" by code_simp
  then show ?thesis by (auto split: prod.splits sum.splits)
qed

lemma upload_tracks_objects_witness:
  "\<exists>a s' d'. upload_artifact sample_env sample_file upload_request (sample_fs, upload_db) = (Inr a, s', d') \<and>
     local_get [''data''] (art_storage_key a) s' = Inr [1, 2]"
proof -
  obtain a s' d' where u: "upload_artifact sample_env sample_file upload_request (sample_fs, upload_db) = (Inr a, s', d')"
    using sample_upload by blast
  have n: "local_content [''data''] sample_fs k = None" for k
    by (auto simp: local_content_def object_path_def sample_fs_def realpath_def split: option.splits)
  have e: "artifacts upload_db = []" "reservations upload_db = []" by (simp_all add: upload_db_def empty_db_def)
  have i: "ue_id sample_env = uuid_of 5" "is_uuid (uuid_of 5)" by (simp add: sample_env_def) code_simp
  have r: "\<forall>sp st. ue_resolve sample_env sp = Inr st \<longrightarrow> st = local_storage [''data'']" by (simp add: sample_env_def)
  have o: "objects_ok (text_input upload_request ''storageProviderId'') (local_content [''data''] sample_fs)
      (artifacts upload_db) (reservations upload_db)" by (simp add: objects_ok_def n e)
  show ?thesis
    using upload_tracks_objects [OF u r sample_fs_ok o] u i n e by (simp add: sample_file_def)
qed

text \<open>
  C17. An artifact that an upload creates is what was uploaded and fits its provider: the row carries
  the size and the four digests of the bytes, belongs to the requested version, platform,
  architecture and provider, is unsigned, is published only when the product does not require
  signatures, and the database keeps its constraints. With a quota \<open>q\<close> the artifacts of the
  provider, deleted ones included, together with all other reservations still running take at most
  \<open>q\<close> bytes.
\<close>

theorem upload_within_quota:
  assumes "upload_artifact env f data (s, d) = (Inr a, s', d')" "db_ok d"
    and "\<forall>sp st'. ue_resolve env sp = Inr st' \<longrightarrow> st' = st"
    and "0 \<le> artifact_usage d (art_provider_id a)" "\<forall>r\<in>set (reservations d). 0 \<le> rv_size_bytes r"
  shows "db_ok d' \<and> artifacts d' = artifacts d @ [a] \<and>
    (\<exists>c. uf_bytes f = Inr c \<and> art_sha256 a = Some (cr_sha256 (ue_crypto env) c) \<and>
       art_sha512 a = Some (cr_sha512 (ue_crypto env) c) \<and> art_md5 a = Some (cr_md5 (ue_crypto env) c) \<and>
       art_sha1 a = Some (cr_sha1 (ue_crypto env) c)) \<and>
    (\<exists>n. art_size_bytes a = Some n \<and> js_safe_integer (uf_size f) = Some n \<and> 0 < n) \<and>
    art_signature a = None \<and>
    (\<exists>v w. find_version d (art_version_id a) = Inr v \<and> find_software d (ver_software_id v) = Inr w \<and>
       sw_is_active w \<and> (art_is_published a \<longrightarrow> \<not> sw_require_signed w)) \<and>
    (\<exists>sp. find_provider_row d (art_provider_id a) = Inr sp \<and> sp_is_active sp \<and>
       (\<forall>q. sp_quota_bytes sp = Some q \<longrightarrow> 0 < q \<longrightarrow> q + 1 < 2 ^ 53 \<longrightarrow>
          artifact_usage d' (art_provider_id a) + reserved_usage d' (art_provider_id a) (ue_now env) \<le> q))"
proof -
  have st: "st' = st" if "ue_resolve env sp = Inr st'" for sp st' using assms(3) that by blast
  obtain pl rs s1 d2 h stored s2 where pl: "plan_upload (ue_nfkd env) f data d = Inr pl"
    and c: "cleanup_expired st (sp_id (pl_provider pl)) (ue_now env) (reservations d) s = (Inr (), rs, s1)"
    and q: "reserve_quota (ue_now env) (ue_id env) (sp_id (pl_provider pl)) (pl_size pl) (d\<lparr>reservations := rs\<rparr>) = Inr d2"
    and t: "transfer (ue_crypto env) st (payload_key (ue_id env)) (uf_bytes f) s1 = (Inr h, stored, s2)"
    and a: "a = new_artifact (ue_pg_text env) (ue_now env) (ue_id env) pl data h"
    and com: "commit_upload a d2 = Inr d'"
    by (rule upload_cases [OF assms(1) st]) auto
  let ?p = "sp_id (pl_provider pl)" and ?i = "ue_id env"
  have d2: "d2 = d\<lparr>reservations := rs @ [\<lparr> rv_id = ?i, rv_provider_id = ?p, rv_size_bytes = pl_size pl,
       rv_expires_at = ue_now env + 7 * day, rv_created_at = ue_now env \<rparr>]\<rparr>" "?i \<notin> rv_id ` set rs"
    by (rule reserve_quota_Inr [OF q], simp)+
  obtain sp where sp: "find_provider_row d ?p = Inr sp" "sp_is_active sp"
    "check_quota (fl (number_of_sum (artifact_usage d ?p) + number_of_sum (reserved_usage (d\<lparr>reservations := rs\<rparr>) ?p (ue_now env))))
       (quota_number sp) (pl_size pl) = Inr ()"
    using q by (auto simp: reserve_quota_def bind_res_Inr throw_if_Inr find_provider_row_def artifact_usage_def)
  have rest: "filter (\<lambda>r. rv_id r \<noteq> ?i) rs = rs" using d2(2) by (auto intro!: filter_True simp: image_iff)
  have aid: "art_id a = ?i" by (simp add: a new_artifact_def)
  have d': "artifacts d' = artifacts d @ [a]" "satisfies artifact_constraints (artifacts d @ [a])"
      "reservations d' = rs" "d' = d\<lparr>artifacts := artifacts d', reservations := rs\<rparr>"
    using com d2(1) rest aid by (auto simp: commit_upload_def release_reservation_def bind_res_Inr checked_Inr
        delete_where_def)
  obtain w where w: "find_version d (text_input data ''versionId'') = Inr (pl_version pl)" "0 < pl_size pl"
    "js_safe_integer (uf_size f) = Some (pl_size pl)"
    "find_by sw_id (ver_software_id (pl_version pl)) (software d) = Some w" "sw_is_active w"
    "\<not> (checked_box (js_prop data ''isPublished'') \<and> sw_require_signed w)"
    by (rule plan_upload_Inr [OF pl])
  have v: "art_version_id a = text_input data ''versionId''"
    using w(1) by (auto simp: a new_artifact_def find_version_def from_option_Inr dest!: find_by_Some)
  have digests: "\<exists>x. uf_bytes f = Inr x \<and> h = compute_checksums (ue_crypto env) x"
    using t by (auto simp: transfer_def split: sum.splits prod.splits if_splits)
  have row: "art_provider_id a = ?p" "art_size_bytes a = Some (pl_size pl)" by (simp_all add: a new_artifact_def)
  have nonneg: "0 \<le> reserved_usage (d\<lparr>reservations := rs\<rparr>) ?p (ue_now env)"
  proof -
    have "\<forall>r\<in>set rs. 0 \<le> rv_size_bytes r" using assms(5) cleanup_subset [OF c] by blast
    then show ?thesis by (auto simp: reserved_usage_def intro!: sum_list_nonneg)
  qed
  have "artifact_usage d' ?p + reserved_usage d' ?p (ue_now env) \<le> k"
    if k: "sp_quota_bytes sp = Some k" "0 < k" "k + 1 < 2 ^ 53" for k
  proof -
    have "artifact_usage d ?p + reserved_usage (d\<lparr>reservations := rs\<rparr>) ?p (ue_now env) + pl_size pl \<le> k"
      using check_quota_sound [OF _ nonneg _ k(2,3)] assms(4) row(1) w(2) sp(3) k(1) by (simp add: quota_number_def)
    moreover have "artifact_usage d' ?p = artifact_usage d ?p + pl_size pl"
      by (simp add: artifact_usage_def d'(1) row)
    moreover have "reserved_usage d' ?p (ue_now env) = reserved_usage (d\<lparr>reservations := rs\<rparr>) ?p (ue_now env)"
      by (simp add: reserved_usage_def d'(3))
    ultimately show ?thesis by simp
  qed
  moreover have "db_ok d'" using assms(2) d'(1,2) by (subst d'(4)) (simp add: db_ok_def)
  moreover have "find_software d (ver_software_id (pl_version pl)) = Inr w" using w(4) by (simp add: find_software_def)
  ultimately show ?thesis
    using d'(1) digests row w sp(1,2) v by (auto simp: a new_artifact_def compute_checksums_def)
qed

lemma upload_within_quota_witness:
  "\<exists>a s' d'. upload_artifact sample_env sample_file upload_request (sample_fs, upload_db) = (Inr a, s', d') \<and>
     db_ok d' \<and> art_sha256 a = Some ''2'' \<and>
     artifact_usage d' (art_provider_id a) + reserved_usage d' (art_provider_id a) 1000 \<le> 1000"
proof -
  obtain a s' d' where u: "upload_artifact sample_env sample_file upload_request (sample_fs, upload_db) = (Inr a, s', d')"
    using sample_upload by blast
  have e: "artifacts upload_db = []" "reservations upload_db = []" by (simp_all add: upload_db_def empty_db_def)
  have r: "\<forall>sp st. ue_resolve sample_env sp = Inr st \<longrightarrow> st = local_storage [''data'']" by (simp add: sample_env_def)
  have k: "db_ok upload_db" by code_simp
  have n: "0 \<le> artifact_usage upload_db (art_provider_id a)" by (simp add: artifact_usage_def e)
  have "sp_quota_bytes sp = Some 1000" if "find_provider_row upload_db p = Inr sp" for p sp
    using that by (auto simp: find_provider_row_def from_option_Inr upload_db_def empty_db_def ignore_deleted_def
        sample_provider_def dest!: find_by_Some)
  then show ?thesis
    using upload_within_quota [OF u k r n] u e by (auto simp: sample_file_def sample_env_def)
qed

end
