(* ===== verification/Artifact_Service.thy ===== *)
theory Artifact_Service
  imports Artifact_Upload
begin

text \<open>
  \<open>app/services/artifact_service.ts\<close> after the upload: what the CMS lists and shows, editing and
  deleting an artifact, submitting a signature, publishing, and the rebuild of all names and
  checksums.
\<close>

section \<open>Listing\<close>

record artifact_filters =
  af_file_name :: "string option"
  af_software_id :: "string option"
  af_version_id :: "string option"
  af_platform_id :: "string option"
  af_architecture_id :: "string option"

text \<open>\<open>if (filter) query.where(column, filter)\<close> for a text.\<close>

definition filter_eq :: "string option \<Rightarrow> string \<Rightarrow> bool" where
  "filter_eq f x \<longleftrightarrow> no_text f \<or> f = Some x"

text \<open>
  The artifacts \<open>getIndexData\<close> pages through, newest first; \<open>sees\<close> says which rows the hooks of the
  model leave to a paginated query. \<open>whereHas\<close> does not exclude deleted versions.
\<close>

definition index_artifacts :: "(artifact_row \<Rightarrow> bool) \<Rightarrow> artifact_filters \<Rightarrow> db \<Rightarrow> artifact_row list" where
  "index_artifacts sees f d =
     sort_desc art_created_at
       (filter (\<lambda>a. sees a \<and>
           (no_text (af_file_name f) \<or> ilike (contains_pattern (the (af_file_name f))) (art_file_name a)) \<and>
           (no_text (af_software_id f) \<or>
              list_ex (\<lambda>v. ver_id v = art_version_id a \<and> Some (ver_software_id v) = af_software_id f) (versions d)) \<and>
           filter_eq (af_version_id f) (art_version_id a) \<and>
           filter_eq (af_platform_id f) (art_platform_id a) \<and>
           filter_eq (af_architecture_id f) (art_architecture_id a))
         (artifacts d))"

text \<open>The versions of the select boxes, newest core first.\<close>

definition versions_by_core :: "db \<Rightarrow> version_row list" where
  "versions_by_core d = sort_desc core_of (ignore_deleted ver_deleted_at (versions d))"

record create_data =
  cd_versions :: "version_row list"
  cd_platforms :: "platform_row list"
  cd_architectures :: "architecture_row list"
  cd_providers :: "provider_row list"
  cd_usage_percentage :: rat

definition default_provider :: "db \<Rightarrow> provider_row option" where
  "default_provider d = List.find sp_is_default (ignore_deleted sp_deleted_at (providers d))"

definition usage_percentage :: "db \<Rightarrow> provider_row \<Rightarrow> rat" where
  "usage_percentage d sp =
     (if 0 < quota_number sp then percent_of (number_of_sum (artifact_usage d (sp_id sp))) (quota_number sp) else 0)"

text \<open>The order by name of the select boxes follows the collation of the database and is left out.\<close>

definition get_create_data :: "db \<Rightarrow> create_data res" where
  "get_create_data d =
     (let vs = filter (\<lambda>v. list_ex (\<lambda>s. sw_id s = ver_software_id v \<and> sw_is_active s) (software d)) (versions_by_core d);
          sps = filter sp_is_active (ignore_deleted sp_deleted_at (providers d));
          percent = (case default_provider d of None \<Rightarrow> 0 | Some sp \<Rightarrow> usage_percentage d sp)
      in throw_if (sps = [])
           (Error ''No configured storage providers found. Please set up a storage provider before uploading artifacts.'')
         (throw_if (95 \<le> percent)
           (Error (''Storage quota is critical ('' @ to_fixed 1 percent @ ''%). Artifact upload is disabled.''))
         (Inr \<lparr> cd_versions = vs, cd_platforms = ignore_deleted plat_deleted_at (platforms d),
                cd_architectures = ignore_deleted arch_deleted_at (architectures d),
                cd_providers = sps, cd_usage_percentage = percent \<rparr>)))"

section \<open>One artifact\<close>

definition find_artifact :: "db \<Rightarrow> string \<Rightarrow> artifact_row res" where
  "find_artifact d i =
     from_option RowNotFound (find_by art_id i (ignore_deleted art_deleted_at (artifacts d)))"

definition save_artifact :: "(artifact_row \<Rightarrow> artifact_row) \<Rightarrow> string \<Rightarrow> db \<Rightarrow> db res" where
  "save_artifact f i d =
     bind_res (checked artifact_constraints (modify_by art_id i f (artifacts d))) (\<lambda>tbl.
     Inr (d\<lparr>artifacts := tbl\<rparr>))"

text \<open>\<open>artifact.version.software\<close>: a missing relation is \<open>null\<close>, and reading a property of it throws.\<close>

definition release_version :: "release \<Rightarrow> version_row res" where
  "release_version r = from_option (Fault ''TypeError'') (rel_version r)"

definition release_software :: "release \<Rightarrow> software_row res" where
  "release_software r = bind_res (release_version r) (\<lambda>_. from_option (Fault ''TypeError'') (rel_software r))"

section \<open>Editing\<close>

definition zero_uuid :: string where
  "zero_uuid = ''00000000-0000-4000-8000-000000000000''"

definition plan_artifact_update ::
  "(string \<Rightarrow> string) \<Rightarrow> string \<Rightarrow> (string \<times> jsval) list \<Rightarrow> db \<Rightarrow> (artifact_row \<times> string) res" where
  "plan_artifact_update nfkd i data d =
     bind_res (assert_upload_metadata
       ((''storageProviderId'', js_or (js_prop data ''storageProviderId'') (JStr zero_uuid)) # data)) (\<lambda>_.
     throw_if (text_input data ''channel'' \<notin> set channels) (Error ''Unsupported release channel.'')
     (bind_res (find_artifact d i) (\<lambda>a.
      bind_res (find_version d (text_input data ''versionId'')) (\<lambda>v.
      bind_res (find_platform_row d (text_input data ''platformId'')) (\<lambda>p.
      bind_res (find_architecture_row d (text_input data ''architectureId'')) (\<lambda>h.
      throw_if (android_conflict p h) (Error ''Android does not support x86 or x64 architecture.'')
      (case find_by sw_id (ver_software_id v) (software d) of
         None \<Rightarrow> Inl (Error ''Cannot assign an artifact to inactive software.'')
       | Some s \<Rightarrow>
           throw_if (\<not> sw_is_active s) (Error ''Cannot assign an artifact to inactive software.'')
           (let ext = last_part (art_file_name a)
            in Inr (a, build_file_name nfkd (sw_name s) (plat_name p) (arch_name h) v
                 (if ext = [] then ''bin'' else ext))))))))))"

definition merge_artifact :: "(string \<times> jsval) list \<Rightarrow> string \<Rightarrow> artifact_row \<Rightarrow> artifact_row" where
  "merge_artifact data file_name a = clear_signature (a\<lparr>
     art_version_id := text_input data ''versionId'', art_platform_id := text_input data ''platformId'',
     art_architecture_id := text_input data ''architectureId'',
     art_is_archived := checked_box (js_prop data ''isArchived''), art_file_name := file_name,
     art_channel := text_input data ''channel''\<rparr>)"

definition update_artifact ::
  "(string \<Rightarrow> string) \<Rightarrow> string \<Rightarrow> (string \<times> jsval) list \<Rightarrow> db \<Rightarrow> (artifact_row \<times> string \<times> db) res" where
  "update_artifact nfkd i data d =
     bind_res (plan_artifact_update nfkd i data d) (\<lambda>(a, file_name).
     bind_res (save_artifact (merge_artifact data file_name) i d) (\<lambda>d'.
     Inr (merge_artifact data file_name a, file_name, d')))"

definition delete_artifact :: "int \<Rightarrow> string \<Rightarrow> db \<Rightarrow> (artifact_row \<times> db) res" where
  "delete_artifact now i d =
     bind_res (find_artifact d i) (\<lambda>a.
     Inr (set_art_deleted (Some now) a,
          d\<lparr>artifacts := soft_delete art_id set_art_deleted now i (artifacts d)\<rparr>))"

section \<open>Signatures\<close>

definition active_key :: "db \<Rightarrow> string \<Rightarrow> string \<Rightarrow> signing_key_row option" where
  "active_key d software_id key_id = find_by sk_key_id key_id (active_keys d software_id)"

definition store_signature :: "string \<Rightarrow> string \<Rightarrow> json_obj \<Rightarrow> artifact_row \<Rightarrow> artifact_row" where
  "store_signature key_id signature manifest a = a\<lparr>art_signature := Some signature,
     art_signature_key_id := Some key_id, art_signature_manifest := Some manifest\<rparr>"

definition trimmed_text :: "jsval \<Rightarrow> string" where
  "trimmed_text v = (case v of JStr s \<Rightarrow> trim s | _ \<Rightarrow> [])"

text \<open>What \<open>setArtifactSignature\<close> accepts: the key id, the signature and the manifest it will store.\<close>

definition accept_signature ::
  "crypto \<Rightarrow> string \<Rightarrow> jsval \<Rightarrow> jsval \<Rightarrow> db \<Rightarrow> (artifact_row \<times> string \<times> string \<times> json_obj) res" where
  "accept_signature cr i key_input signature_input d =
     bind_res (find_artifact d i) (\<lambda>a.
     let r = load_release d a; key_id = trimmed_text key_input; signature = trimmed_text signature_input in
     throw_if (\<not> is_hex64 key_id) (Error ''Invalid signing key identifier.'')
     (bind_res (release_version r) (\<lambda>v.
      bind_res (from_option (Error ''The selected signing key is not active for this software.'')
        (active_key d (ver_software_id v) key_id)) (\<lambda>k.
      bind_res (create_ota_release_payload r) (\<lambda>payload.
      throw_if (\<not> verify_ota_release_signature cr payload (JStr signature) (sk_public_key k))
        (Error ''Signature verification failed. Sign the current manifest payload with the matching Ed25519 private key.'')
      (bind_res (from_option (Fault ''SyntaxError'') (parse_payload payload)) (\<lambda>manifest.
       Inr (a, key_id, signature, manifest))))))))"

definition set_artifact_signature ::
  "crypto \<Rightarrow> string \<Rightarrow> jsval \<Rightarrow> jsval \<Rightarrow> db \<Rightarrow> (artifact_row \<times> db) res" where
  "set_artifact_signature cr i key_input signature_input d =
     bind_res (accept_signature cr i key_input signature_input d) (\<lambda>(a, key_id, signature, manifest).
     bind_res (save_artifact (store_signature key_id signature manifest) i d) (\<lambda>d'.
     Inr (store_signature key_id signature manifest a, d')))"

definition request_managed_signature ::
  "crypto \<Rightarrow> signer_env \<Rightarrow> exchange \<Rightarrow> string \<Rightarrow> db \<Rightarrow> managed_signing_request option res" where
  "request_managed_signature cr env x i d =
     bind_res (find_artifact d i) (\<lambda>a.
     let r = load_release d a in
     bind_res (release_software r) (\<lambda>s.
     bind_res (get_key cr env x (sw_slug s)) (\<lambda>key.
     bind_res (release_version r) (\<lambda>v.
     bind_res (from_option (Error ''Register the managed public key for this software first.'')
       (active_key d (ver_software_id v) (mk_key_id key))) (\<lambda>_.
     bind_res (create_ota_release_payload r) (\<lambda>payload.
     create_request cr env x key payload))))))"

definition import_managed_signature ::
  "crypto \<Rightarrow> signer_env \<Rightarrow> exchange \<Rightarrow> string \<Rightarrow> db \<Rightarrow> (artifact_row \<times> db) res" where
  "import_managed_signature cr env x i d =
     bind_res (find_artifact d i) (\<lambda>a.
     let r = load_release d a in
     bind_res (release_software r) (\<lambda>s.
     bind_res (get_key cr env x (sw_slug s)) (\<lambda>key.
     bind_res (create_ota_release_payload r) (\<lambda>payload.
     bind_res (get_request cr env x key payload) (\<lambda>answer.
     case answer of
       None \<Rightarrow> Inl (Error ''This manifest has not been independently approved and signed.'')
     | Some q \<Rightarrow>
         throw_if (mr_status q \<noteq> JStr ''signed'' \<or> \<not> truthy (mr_signature q))
           (Error ''This manifest has not been independently approved and signed.'')
           (set_artifact_signature cr i (JStr (mk_key_id (mr_key q))) (mr_signature q) d))))))"

section \<open>Publishing\<close>

definition assert_valid_release_signature :: "crypto \<Rightarrow> db \<Rightarrow> release \<Rightarrow> unit res" where
  "assert_valid_release_signature cr d r =
     (let a = rel_artifact r in
      throw_if (no_text (art_signature a) \<or> no_text (art_signature_key_id a))
        (Error ''A valid release signature is required before publishing this artifact.'')
      (bind_res (release_version r) (\<lambda>v.
       case active_key d (ver_software_id v) (the (art_signature_key_id a)) of
         None \<Rightarrow> Inl (Error ''The release signature is invalid or its signing key is inactive.'')
       | Some k \<Rightarrow>
           bind_res (create_ota_release_payload r) (\<lambda>payload.
           throw_if (\<not> verify_ota_release_signature cr payload (JStr (the (art_signature a))) (sk_public_key k))
             (Error ''The release signature is invalid or its signing key is inactive.'') (Inr ())))))"

definition publish_row :: "int \<Rightarrow> artifact_row \<Rightarrow> artifact_row" where
  "publish_row now a = a\<lparr>art_is_published := True, art_published_at := Some now\<rparr>"

definition publish_artifact :: "crypto \<Rightarrow> int \<Rightarrow> string \<Rightarrow> db \<Rightarrow> (artifact_row \<times> db) res" where
  "publish_artifact cr now i d =
     bind_res (find_artifact d i) (\<lambda>a.
     let r = load_release d a in
     throw_if (art_is_published a) (Error ''Artifact is already published.'')
     (throw_if (art_is_archived a)
       (Error ''Archived artifacts cannot be published. Unarchive the artifact first.'')
     (bind_res (release_software r) (\<lambda>s.
      bind_res (if sw_require_signed s then assert_valid_release_signature cr d r else Inr ()) (\<lambda>_.
      bind_res (save_artifact (publish_row now) i d) (\<lambda>d'.
      Inr (publish_row now a, d')))))))"

section \<open>Editing form\<close>

record edit_data =
  ed_artifact :: artifact_row
  ed_signing_keys :: "signing_key_row list"
  ed_signing_payload :: "string option"
  ed_signing_manifest :: "string option"
  ed_signer_configured :: bool
  ed_managed_request :: "managed_signing_request option"
  ed_managed_error :: "string option"

text \<open>\<open>error.message\<close>; every failure of the signer is an \<open>Error\<close>.\<close>

definition error_message :: "exn \<Rightarrow> string" where
  "error_message e = (case e of Error m \<Rightarrow> m | Fault m \<Rightarrow> m | ConstraintViolation m \<Rightarrow> m | _ \<Rightarrow> [])"

definition managed_state ::
  "crypto \<Rightarrow> signer_env \<Rightarrow> exchange \<Rightarrow> signing_key_row list \<Rightarrow> string \<Rightarrow> string \<Rightarrow> managed_signing_request option res" where
  "managed_state cr env x keys slug payload =
     bind_res (get_key cr env x slug) (\<lambda>key.
     throw_if (\<not> list_ex (\<lambda>k. sk_key_id k = mk_key_id key) keys)
       (Error ''Register this product's managed signer public key in Software first.'')
       (get_request cr env x key payload))"

definition get_edit_data :: "crypto \<Rightarrow> signer_env \<Rightarrow> exchange \<Rightarrow> string \<Rightarrow> db \<Rightarrow> edit_data res" where
  "get_edit_data cr env x i d =
     bind_res (find_artifact d i) (\<lambda>a.
     let r = load_release d a in
     bind_res (release_version r) (\<lambda>v.
     let keys = sort_key sk_created_at (active_keys d (ver_software_id v));
         payload = (case create_ota_release_payload r of Inl _ \<Rightarrow> None | Inr p \<Rightarrow> Some p);
         manifest = (case create_ota_release_manifest_json r of Inl _ \<Rightarrow> None | Inr m \<Rightarrow> Some m);
         managed = (if signer_configured env \<and> payload \<noteq> None
            then bind_res (release_software r) (\<lambda>s. managed_state cr env x keys (sw_slug s) (the payload))
            else Inr None)
     in Inr \<lparr> ed_artifact = a, ed_signing_keys = keys, ed_signing_payload = payload,
          ed_signing_manifest = manifest, ed_signer_configured = signer_configured env,
          ed_managed_request = (case managed of Inr q \<Rightarrow> q | Inl _ \<Rightarrow> None),
          ed_managed_error = (case managed of Inl e \<Rightarrow> Some (error_message e) | Inr _ \<Rightarrow> None) \<rparr>))"

section \<open>Details\<close>

text \<open>\<open>artifactDetailsDto\<close>: what the details page is given of an artifact and its relations.\<close>

record version_dto =
  vd_id :: string
  vd_software :: "(string \<times> string) option"
  vd_core :: "int \<times> int \<times> int"
  vd_codename :: "string option"

record details_dto =
  dt_id :: string
  dt_file_name :: string
  dt_mime_type :: "string option"
  dt_size_bytes :: "int option"
  dt_storage_key :: string
  dt_download_count :: nat
  dt_is_archived :: bool
  dt_is_published :: bool
  dt_channel :: string
  dt_published_at :: "int option"
  dt_checksums :: "string option list"
  dt_version :: "version_dto option"
  dt_platform :: "(string \<times> string \<times> string) option"
  dt_architecture :: "(string \<times> string \<times> string) option"
  dt_provider :: "(string \<times> string \<times> string) option"

definition artifact_details_dto :: "release \<Rightarrow> provider_row option \<Rightarrow> details_dto" where
  "artifact_details_dto r sp =
     (let a = rel_artifact r in \<lparr>
        dt_id = art_id a, dt_file_name = art_file_name a, dt_mime_type = art_mime_type a,
        dt_size_bytes = art_size_bytes a, dt_storage_key = art_storage_key a,
        dt_download_count = art_download_count a, dt_is_archived = art_is_archived a,
        dt_is_published = art_is_published a, dt_channel = art_channel a, dt_published_at = art_published_at a,
        dt_checksums = [art_checksum a, art_md5 a, art_sha1 a, art_sha256 a, art_sha512 a],
        dt_version = map_option (\<lambda>v. \<lparr> vd_id = ver_id v,
           vd_software = map_option (\<lambda>s. (sw_name s, sw_slug s)) (rel_software r),
           vd_core = (ver_major v, ver_minor v, ver_patch v), vd_codename = ver_codename v \<rparr>) (rel_version r),
        dt_platform = map_option (\<lambda>p. (plat_id p, plat_name p, plat_display_name p)) (rel_platform r),
        dt_architecture = map_option (\<lambda>h. (arch_id h, arch_name h, arch_display_name h)) (rel_architecture r),
        dt_provider = map_option (\<lambda>s. (sp_id s, sp_name s, sp_type s)) sp \<rparr>)"

text \<open>The artifact, its provider and its download history, newest first, which the code pages by ten.\<close>

definition get_details ::
  "(history_row \<Rightarrow> bool) \<Rightarrow> string \<Rightarrow> db \<Rightarrow> (release \<times> provider_row option \<times> history_row list) res" where
  "get_details sees i d =
     bind_res (find_artifact d i) (\<lambda>a.
     Inr (load_release d a, find_by sp_id (art_provider_id a) (ignore_deleted sp_deleted_at (providers d)),
          sort_desc dh_created_at (filter (\<lambda>h. sees h \<and> dh_artifact_id h = art_id a) (histories d))))"

section \<open>Rebuilding names and checksums\<close>

text \<open>
  One round of the loop: the columns it writes, \<^const>\<open>None\<close> when \<open>needsSave\<close> stays false.
  \<open>read_object\<close> resolves the provider of the artifact and reads its stream; a failure is logged and
  leaves the checksums.
\<close>

definition rebuild_row ::
  "crypto \<Rightarrow> string \<Rightarrow> bytes res \<Rightarrow> artifact_row \<Rightarrow> (artifact_row \<Rightarrow> artifact_row) option" where
  "rebuild_row cr file_name content' a =
     (case content' of
        Inr b \<Rightarrow>
          Some (\<lambda>r. clear_signature (r\<lparr>art_file_name := file_name, art_md5 := Some (cr_md5 cr b),
            art_sha1 := Some (cr_sha1 cr b), art_sha256 := Some (cr_sha256 cr b),
            art_sha512 := Some (cr_sha512 cr b), art_checksum := Some (cr_sha256 cr b)\<rparr>))
      | Inl _ \<Rightarrow>
          if art_file_name a \<noteq> file_name then Some (\<lambda>r. clear_signature (r\<lparr>art_file_name := file_name\<rparr>)) else None)"

definition rebuilt_name :: "(string \<Rightarrow> string) \<Rightarrow> release \<Rightarrow> string res" where
  "rebuilt_name nfkd r =
     bind_res (release_version r) (\<lambda>v.
     bind_res (release_software r) (\<lambda>s.
     bind_res (from_option (Fault ''TypeError'') (rel_platform r)) (\<lambda>p.
     bind_res (from_option (Fault ''TypeError'') (rel_architecture r)) (\<lambda>h.
     let ext = last_part (art_file_name (rel_artifact r))
     in Inr (build_file_name nfkd (sw_name s) (plat_name p) (arch_name h) v (if ext = [] then ''bin'' else ext))))))"

fun rebuild_loop ::
  "crypto \<Rightarrow> (string \<Rightarrow> string) \<Rightarrow> (artifact_row \<Rightarrow> bytes res) \<Rightarrow> db \<Rightarrow> artifact_row list \<Rightarrow> nat \<Rightarrow> db \<Rightarrow> nat res \<times> db" where
  "rebuild_loop cr nfkd read_object d0 [] n d = (Inr n, d)"
| "rebuild_loop cr nfkd read_object d0 (a # as) n d =
     (case rebuilt_name nfkd (load_release d0 a) of
        Inl e \<Rightarrow> (Inl e, d)
      | Inr name \<Rightarrow>
          (case rebuild_row cr name (read_object a) a of
             None \<Rightarrow> rebuild_loop cr nfkd read_object d0 as n d
           | Some columns \<Rightarrow>
               (case save_artifact columns (art_id a) d of
                  Inl e \<Rightarrow> (Inl e, d)
                | Inr d' \<Rightarrow> rebuild_loop cr nfkd read_object d0 as (n + 1) d')))"

definition rebuild_all_names ::
  "crypto \<Rightarrow> (string \<Rightarrow> string) \<Rightarrow> (artifact_row \<Rightarrow> bytes res) \<Rightarrow> db \<Rightarrow> nat res \<times> db" where
  "rebuild_all_names cr nfkd read_object d =
     rebuild_loop cr nfkd read_object d (ignore_deleted art_deleted_at (artifacts d)) 0 d"

section \<open>What the operations do\<close>

lemma find_artifact_Inr: "find_artifact d i = Inr a \<Longrightarrow> a \<in> set (artifacts d) \<and> art_id a = i \<and> art_deleted_at a = None"
  by (auto simp: find_artifact_def from_option_Inr row_simps dest!: find_by_Some)

lemma save_artifact_Inr:
  "save_artifact f i d = Inr d' \<longleftrightarrow> d' = d\<lparr>artifacts := modify_by art_id i f (artifacts d)\<rparr> \<and>
     satisfies artifact_constraints (modify_by art_id i f (artifacts d))"
  by (auto simp: save_artifact_def bind_res_Inr checked_Inr)

lemma load_release_artifacts [simp]: "load_release (d\<lparr>artifacts := t\<rparr>) a = load_release d a"
  by (simp add: load_release_def Let_def split: option.split)

lemma rel_artifact_load [simp]: "rel_artifact (load_release d a) = a"
  by (simp add: load_release_def Let_def)

text \<open>The columns of an artifact its manifest depends on.\<close>

definition signed_columns :: "artifact_row \<Rightarrow> string \<times> string \<times> string \<times> string \<times> string \<times> int option \<times> string option" where
  "signed_columns a = (art_version_id a, art_platform_id a, art_architecture_id a, art_channel a,
     art_file_name a, art_size_bytes a, art_sha256 a)"

lemma manifest_columns:
  "signed_columns a = signed_columns b \<Longrightarrow>
     build_ota_release_manifest (load_release d a) = build_ota_release_manifest (load_release d b)"
  by (auto simp: signed_columns_def build_ota_release_manifest_def load_release_def Let_def split: option.split)

lemma payload_columns:
  "signed_columns a = signed_columns b \<Longrightarrow>
     create_ota_release_payload (load_release d a) = create_ota_release_payload (load_release d b)"
  using manifest_columns [of a b d] by (simp add: create_ota_release_payload_def)

lemma signed_columns_simps [simp]:
  "signed_columns (publish_row now a) = signed_columns a"
  "signed_columns (store_signature k s m a) = signed_columns a"
  "signed_columns (set_art_deleted t a) = signed_columns a"
  by (simp_all add: signed_columns_def publish_row_def store_signature_def set_art_deleted_def)

lemma active_key_Some:
  "active_key d p i = Some k \<Longrightarrow> k \<in> set (active_keys d p) \<and> sk_key_id k = i"
  by (auto simp: active_key_def dest!: find_by_Some)

lemma payload_Inr:
  "create_ota_release_payload r = Inr p \<longleftrightarrow> (\<exists>m. build_ota_release_manifest r = Inr m \<and> p = payload_of m)"
  by (auto simp: create_ota_release_payload_def bind_res_Inr)

lemma accept_signature_Inr:
  assumes "accept_signature cr i key_input signature_input d = Inr (a, key_id, sig, manifest)"
  obtains m k v where "find_artifact d i = Inr a" "rel_version (load_release d a) = Some v"
    "k \<in> set (active_keys d (ver_software_id v))" "sk_key_id k = key_id" "is_hex64 key_id"
    "build_ota_release_manifest (load_release d a) = Inr m" "manifest = manifest_obj m"
    "verify_ota_release_signature cr (payload_of m) (JStr sig) (sk_public_key k)"
    "key_id = trimmed_text key_input" "sig = trimmed_text signature_input"
  using assms
  unfolding accept_signature_def Let_def bind_res_Inr throw_if_Inr release_version_def from_option_Inr payload_Inr
  by (auto simp: parse_payload_of dest!: active_key_Some)

lemma set_artifact_signature_Inr:
  assumes "set_artifact_signature cr i key_input signature_input d = Inr (a, d')"
  obtains a0 key_id sig manifest where
    "accept_signature cr i key_input signature_input d = Inr (a0, key_id, sig, manifest)"
    "a = store_signature key_id sig manifest a0"
    "d' = d\<lparr>artifacts := modify_by art_id i (store_signature key_id sig manifest) (artifacts d)\<rparr>"
    "satisfies artifact_constraints (artifacts d')"
  using assms by (auto simp: set_artifact_signature_def bind_res_Inr save_artifact_Inr)

lemma publish_artifact_Inr:
  assumes "publish_artifact cr now i d = Inr (a, d')"
  obtains a0 s where "find_artifact d i = Inr a0" "\<not> art_is_published a0" "\<not> art_is_archived a0"
    "rel_software (load_release d a0) = Some s" "a = publish_row now a0"
    "sw_require_signed s \<Longrightarrow> assert_valid_release_signature cr d (load_release d a0) = Inr ()"
    "d' = d\<lparr>artifacts := modify_by art_id i (publish_row now) (artifacts d)\<rparr>"
    "satisfies artifact_constraints (artifacts d')"
  using assms
  unfolding publish_artifact_def Let_def bind_res_Inr throw_if_Inr release_software_def from_option_Inr save_artifact_Inr
  by (auto split: if_splits)

lemma valid_signature_Inr:
  assumes "assert_valid_release_signature cr d r = Inr ()"
  obtains v k m sig where "rel_version r = Some v" "k \<in> set (active_keys d (ver_software_id v))"
    "art_signature_key_id (rel_artifact r) = Some (sk_key_id k)" "art_signature (rel_artifact r) = Some sig"
    "build_ota_release_manifest r = Inr m"
    "verify_ota_release_signature cr (payload_of m) (JStr sig) (sk_public_key k)"
proof -
  have t: "\<not> no_text x \<Longrightarrow> x = Some (the x)" for x by (cases x) (auto simp: no_text_def)
  from assms obtain v k m where "\<not> no_text (art_signature (rel_artifact r))"
    "\<not> no_text (art_signature_key_id (rel_artifact r))" "rel_version r = Some v"
    "active_key d (ver_software_id v) (the (art_signature_key_id (rel_artifact r))) = Some k"
    "build_ota_release_manifest r = Inr m"
    "verify_ota_release_signature cr (payload_of m) (JStr (the (art_signature (rel_artifact r)))) (sk_public_key k)"
    unfolding assert_valid_release_signature_def Let_def throw_if_Inr bind_res_Inr release_version_def from_option_Inr
    by (auto split: option.splits simp: throw_if_Inr bind_res_Inr payload_Inr)
  then show thesis using that active_key_Some t by metis
qed

lemma db_ok_artifacts: "db_ok d \<Longrightarrow> satisfies artifact_constraints t \<Longrightarrow> db_ok (d\<lparr>artifacts := t\<rparr>)"
  by (simp add: db_ok_def)

lemma modify_art_mem: "a \<in> set t \<Longrightarrow> art_id a = i \<Longrightarrow> f a \<in> set (modify_by art_id i f t)"
  by (auto simp: mem_modify_by)

text \<open>A release whose three signature columns are of its current manifest is served with its envelope.\<close>

lemma envelope_of_signed:
  assumes "build_ota_release_manifest r = Inr m" "art_signature (rel_artifact r) = Some sig" "sig \<noteq> []"
    and "art_signature_key_id (rel_artifact r) = Some key_id" "key_id \<noteq> []"
    and "art_signature_manifest (rel_artifact r) = Some (manifest_obj m)"
  shows "create_ota_signature_envelope r =
    Inr (Some \<lparr> env_payload = payload_of m, env_signature = sig, env_key_id = key_id \<rparr>)"
proof -
  have "\<not> list_ex (\<lambda>(field, v). map_of (manifest_obj m) field \<noteq> Some v) (manifest_obj m)"
    by (auto simp: list_ex_iff map_of_eq_Some_iff [OF manifest_keys])
  then show ?thesis using assms
    by (simp add: create_ota_signature_envelope_def create_ota_release_payload_def Let_def no_text_def)
qed

lemma verified_signature_nonempty: "verify_ota_release_signature cr p (JStr sig) k \<Longrightarrow> sig \<noteq> []"
  by (auto simp: verify_ota_release_signature_def)

section \<open>Properties of signing and publishing\<close>

text \<open>
  C7. A submitted signature is stored only when an active key of the product verifies it over the
  manifest the release has at that moment, and what is stored is at once what clients are served: the
  envelope of the release carries the payload of that manifest, the signature and the identifier of
  the key. Nothing else about any artifact changes.
\<close>

theorem signature_stored_verified:
  assumes "set_artifact_signature cr i key_input signature_input d = Inr (a, d')" "db_ok d"
  shows "db_ok d' \<and> a \<in> set (artifacts d') \<and> art_id a = i \<and> map signed_columns (artifacts d') = map signed_columns (artifacts d) \<and>
    (\<exists>v k env. rel_version (load_release d' a) = Some v \<and> k \<in> set (active_keys d' (ver_software_id v)) \<and>
       create_ota_signature_envelope (load_release d' a) = Inr (Some env) \<and>
       create_ota_release_payload (load_release d' a) = Inr (env_payload env) \<and>
       env_signature env = trimmed_text signature_input \<and> env_key_id env = sk_key_id k \<and>
       verify_ota_release_signature cr (env_payload env) (JStr (env_signature env)) (sk_public_key k))"
proof -
  obtain a0 key_id sig manifest where acc: "accept_signature cr i key_input signature_input d = Inr (a0, key_id, sig, manifest)"
    and a: "a = store_signature key_id sig manifest a0"
    and d': "d' = d\<lparr>artifacts := modify_by art_id i (store_signature key_id sig manifest) (artifacts d)\<rparr>"
    and ok: "satisfies artifact_constraints (artifacts d')"
    by (rule set_artifact_signature_Inr [OF assms(1)])
  obtain m k v where m: "find_artifact d i = Inr a0" "rel_version (load_release d a0) = Some v"
    "k \<in> set (active_keys d (ver_software_id v))" "sk_key_id k = key_id" "is_hex64 key_id"
    "build_ota_release_manifest (load_release d a0) = Inr m" "manifest = manifest_obj m"
    "verify_ota_release_signature cr (payload_of m) (JStr sig) (sk_public_key k)"
    "sig = trimmed_text signature_input"
    by (rule accept_signature_Inr [OF acc]) blast
  have b: "build_ota_release_manifest (load_release d a) = Inr m" using m(6) manifest_columns [of a a0 d] by (simp add: a)
  have "key_id \<noteq> []" using m(5) by (auto simp: is_hex64_def)
  then have env: "create_ota_signature_envelope (load_release d a) =
      Inr (Some \<lparr> env_payload = payload_of m, env_signature = sig, env_key_id = key_id \<rparr>)"
    using envelope_of_signed [OF b] verified_signature_nonempty [OF m(8)] m(7) by (simp add: a store_signature_def)
  have "rel_version (load_release d a) = Some v" using m(2) by (simp add: a load_release_def store_signature_def Let_def)
  moreover have "a \<in> set (artifacts d')" "art_id a = i"
    using find_artifact_Inr [OF m(1)] modify_art_mem [of a0 "artifacts d" i] by (simp_all add: a d') (simp add: store_signature_def)
  moreover have "map signed_columns (artifacts d') = map signed_columns (artifacts d)"
    unfolding d' by (simp add: modify_by_keys)
  moreover have "active_keys d' = active_keys d" by (simp add: d' active_keys_def fun_eq_iff)
  moreover have "db_ok d'" using db_ok_artifacts [OF assms(2)] ok by (simp add: d')
  ultimately show ?thesis using env m b by (auto simp: d' create_ota_release_payload_def)
qed

text \<open>
  C6. Publishing takes a draft that is not archived and, for a product that requires signatures, only
  one whose stored signature an active key of the product verifies over the manifest it is published
  with. Only the publication columns of that artifact change.
\<close>

theorem publishing_requires_signature:
  assumes "publish_artifact cr now i d = Inr (a, d')" "db_ok d"
  shows "db_ok d' \<and> a \<in> set (artifacts d') \<and> art_is_published a \<and> art_published_at a = Some now \<and> \<not> art_is_archived a \<and>
    (\<exists>a0\<in>set (artifacts d). art_id a0 = i \<and> \<not> art_is_published a0 \<and> a = publish_row now a0) \<and>
    (\<forall>b\<in>set (artifacts d'). art_id b \<noteq> i \<longrightarrow> b \<in> set (artifacts d)) \<and>
    (\<exists>s. rel_software (load_release d' a) = Some s \<and> (sw_require_signed s \<longrightarrow>
       (\<exists>k sig p. k \<in> set (active_keys d' (sw_id s)) \<and> art_signature a = Some sig \<and>
          art_signature_key_id a = Some (sk_key_id k) \<and> create_ota_release_payload (load_release d' a) = Inr p \<and>
          verify_ota_release_signature cr p (JStr sig) (sk_public_key k))))"
proof -
  obtain a0 s where a0: "find_artifact d i = Inr a0" "\<not> art_is_published a0" "\<not> art_is_archived a0"
    "rel_software (load_release d a0) = Some s" "a = publish_row now a0"
    and sig: "sw_require_signed s \<Longrightarrow> assert_valid_release_signature cr d (load_release d a0) = Inr ()"
    and d': "d' = d\<lparr>artifacts := modify_by art_id i (publish_row now) (artifacts d)\<rparr>"
    and ok: "satisfies artifact_constraints (artifacts d')"
    by (rule publish_artifact_Inr [OF assms(1)]) blast
  have s: "rel_software (load_release d a) = Some s" "\<And>v. rel_version (load_release d a0) = Some v \<Longrightarrow> ver_software_id v = sw_id s"
    using a0(4,5) by (auto simp: load_release_def publish_row_def Let_def split: option.splits dest!: find_by_Some)
  have "\<exists>k sig p. k \<in> set (active_keys d' (sw_id s)) \<and> art_signature a = Some sig \<and>
      art_signature_key_id a = Some (sk_key_id k) \<and> create_ota_release_payload (load_release d' a) = Inr p \<and>
      verify_ota_release_signature cr p (JStr sig) (sk_public_key k)" if rs: "sw_require_signed s"
  proof -
    obtain v k m x where "rel_version (load_release d a0) = Some v" "k \<in> set (active_keys d (ver_software_id v))"
      "art_signature_key_id a0 = Some (sk_key_id k)" "art_signature a0 = Some x"
      "build_ota_release_manifest (load_release d a0) = Inr m"
      "verify_ota_release_signature cr (payload_of m) (JStr x) (sk_public_key k)"
      by (rule valid_signature_Inr [OF sig [OF rs]]) simp
    moreover have "build_ota_release_manifest (load_release d a) = build_ota_release_manifest (load_release d a0)"
      by (rule manifest_columns) (simp add: a0(5))
    moreover have "active_keys d' = active_keys d" by (simp add: d' active_keys_def fun_eq_iff)
    ultimately show ?thesis using s(2) by (auto simp: d' a0(5) publish_row_def create_ota_release_payload_def)
  qed
  moreover have "a \<in> set (artifacts d')" "a0 \<in> set (artifacts d)" "art_id a0 = i"
    using find_artifact_Inr [OF a0(1)] modify_art_mem [of a0 "artifacts d" i] by (simp_all add: a0(5) d')
  moreover have "db_ok d'" using db_ok_artifacts [OF assms(2)] ok by (simp add: d')
  moreover have "\<forall>b\<in>set (artifacts d'). art_id b \<noteq> i \<longrightarrow> b \<in> set (artifacts d)"
    by (auto simp: d' mem_modify_by publish_row_def)
  ultimately show ?thesis using a0 s(1) by (auto simp: d' publish_row_def)
qed

section \<open>The rebuild\<close>

text \<open>What a successful rebuild makes of one row: deleted rows are not touched.\<close>

definition rebuilt :: "crypto \<Rightarrow> (string \<Rightarrow> string) \<Rightarrow> (artifact_row \<Rightarrow> bytes res) \<Rightarrow> db \<Rightarrow> artifact_row \<Rightarrow> artifact_row" where
  "rebuilt cr nfkd read_object d a =
     (case rebuilt_name nfkd (load_release d a) of
        Inl _ \<Rightarrow> a
      | Inr name \<Rightarrow> (case rebuild_row cr name (read_object a) a of None \<Rightarrow> a | Some columns \<Rightarrow> columns a))"

lemma rebuild_row_id: "rebuild_row cr name c a = Some g \<Longrightarrow> art_id (g r) = art_id r"
  by (auto simp: rebuild_row_def clear_signature_def split: sum.splits if_splits)

lemma modify_distinct:
  assumes "distinct (map art_id t)" "a \<in> set t"
  shows "modify_by art_id (art_id a) f t = map (\<lambda>r. if r = a then f a else r) t"
proof -
  have "(if art_id r = art_id a then f r else r) = (if r = a then f a else r)" if "r \<in> set t" for r
    using distinct_map_inj [OF assms(1) that assms(2)] by auto
  then show ?thesis by (simp add: modify_by_def)
qed

lemma rebuild_loop_Inr:
  assumes "rebuild_loop cr nfkd rd d0 as n d = (Inr n', d')"
    and "distinct (map art_id as)" "set as \<subseteq> set (artifacts d)" "distinct (map art_id (artifacts d))"
  shows "d' = d\<lparr>artifacts := map (\<lambda>r. if r \<in> set as then rebuilt cr nfkd rd d0 r else r) (artifacts d)\<rparr> \<and>
    (\<forall>a\<in>set as. \<exists>name. rebuilt_name nfkd (load_release d0 a) = Inr name) \<and>
    (satisfies artifact_constraints (artifacts d) \<longrightarrow> satisfies artifact_constraints (artifacts d'))"
  using assms
proof (induction "as" arbitrary: n d)
  case Nil
  then show ?case by simp
next
  case (Cons a "as")
  then obtain name where name: "rebuilt_name nfkd (load_release d0 a) = Inr name" by (auto split: sum.splits)
  have notin: "art_id a \<notin> art_id ` set as" "distinct (map art_id as)" "a \<in> set (artifacts d)" "set as \<subseteq> set (artifacts d)"
    using Cons.prems(2,3) by auto
  show ?case
  proof (cases "rebuild_row cr name (rd a) a")
    case None
    then have same: "rebuilt cr nfkd rd d0 a = a" by (simp add: rebuilt_def name)
    have "rebuild_loop cr nfkd rd d0 as n d = (Inr n', d')" using Cons.prems(1) None name by simp
    from Cons.IH [OF this notin(2,4) Cons.prems(4)]
    have "d' = d\<lparr>artifacts := map (\<lambda>r. if r \<in> set as then rebuilt cr nfkd rd d0 r else r) (artifacts d)\<rparr>"
      "\<forall>a\<in>set as. \<exists>name. rebuilt_name nfkd (load_release d0 a) = Inr name"
      "satisfies artifact_constraints (artifacts d) \<longrightarrow> satisfies artifact_constraints (artifacts d')" by blast+
    moreover have "(if r \<in> set as then rebuilt cr nfkd rd d0 r else r) = (if r \<in> set (a # as) then rebuilt cr nfkd rd d0 r else r)" for r
      using same by auto
    ultimately show ?thesis using name by simp
  next
    case (Some g)
    define a' where "a' = g a"
    then have new: "rebuilt cr nfkd rd d0 a = a'" using Some by (simp add: rebuilt_def name)
    obtain d1 where d1: "save_artifact g (art_id a) d = Inr d1"
      "rebuild_loop cr nfkd rd d0 as (n + 1) d1 = (Inr n', d')"
      using Cons.prems(1) Some name by (auto split: sum.splits)
    have d1': "d1 = d\<lparr>artifacts := map (\<lambda>r. if r = a then a' else r) (artifacts d)\<rparr>"
      "satisfies artifact_constraints (artifacts d1)"
      using d1(1) modify_distinct [OF Cons.prems(4) notin(3)] by (auto simp: save_artifact_Inr a'_def)
    have aid: "art_id a' = art_id a" using rebuild_row_id [OF Some] by (simp add: a'_def)
    have "map art_id (artifacts d1) = map art_id (artifacts d)" by (simp add: d1'(1) aid)
    then have dist: "distinct (map art_id (artifacts d1))" using Cons.prems(4) by simp
    have sub: "set as \<subseteq> set (artifacts d1)"
    proof
      fix r assume r: "r \<in> set as"
      then have "r \<noteq> a" using notin(1) by auto
      then show "r \<in> set (artifacts d1)" using r notin(4) by (auto simp: d1'(1) image_iff)
    qed
    from Cons.IH [OF d1(2) notin(2) sub dist]
    have ih: "d' = d1\<lparr>artifacts := map (\<lambda>r. if r \<in> set as then rebuilt cr nfkd rd d0 r else r) (artifacts d1)\<rparr>"
      "\<forall>a\<in>set as. \<exists>name. rebuilt_name nfkd (load_release d0 a) = Inr name"
      "satisfies artifact_constraints (artifacts d')" using d1'(2) by blast+
    have "a' \<notin> set as" using notin(1) aid by (metis image_eqI)
    then have "map (\<lambda>r. if r \<in> set as then rebuilt cr nfkd rd d0 r else r) (artifacts d1) =
        map (\<lambda>r. if r \<in> set (a # as) then rebuilt cr nfkd rd d0 r else r) (artifacts d)"
      using new by (auto simp: d1'(1))
    then show ?thesis using ih name d1'(1) by simp
  qed
qed

lemma rebuilt_cases:
  assumes "rebuilt_name nfkd (load_release d a) = Inr name"
  obtains "rebuilt cr nfkd rd d a = a" "\<exists>e. rd a = Inl e" "art_file_name a = name"
  | "art_signature (rebuilt cr nfkd rd d a) = None" "art_signature_key_id (rebuilt cr nfkd rd d a) = None"
    "art_signature_manifest (rebuilt cr nfkd rd d a) = None" "art_file_name (rebuilt cr nfkd rd d a) = name"
    "\<And>b. rd a = Inr b \<Longrightarrow> art_sha256 (rebuilt cr nfkd rd d a) = Some (cr_sha256 cr b)"
proof (cases "rd a")
  case (Inl e)
  then show thesis using that assms by (cases "art_file_name a = name") (auto simp: rebuilt_def rebuild_row_def Let_def clear_signature_def)
next
  case (Inr b)
  then show thesis using that(2) assms by (auto simp: rebuilt_def rebuild_row_def Let_def clear_signature_def)
qed

text \<open>
  C8. A rebuild that ends without an exception is one pass over the table: every artifact that is not
  deleted gets the file name of its current metadata and, where its object can be read, the digest of
  the bytes that are stored now, and loses its signature; an artifact keeps its signature only when
  its object could not be read and its name was already right. The constraints are kept.
\<close>

theorem rebuild_resets_signatures:
  assumes "rebuild_all_names cr nfkd rd d = (Inr n, d')" "db_ok d"
  shows "db_ok d' \<and> length (artifacts d') = length (artifacts d) \<and>
    (\<forall>j < length (artifacts d). let a = artifacts d ! j; a' = artifacts d' ! j in
       art_id a' = art_id a \<and> (art_deleted_at a \<noteq> None \<longrightarrow> a' = a) \<and>
       (art_deleted_at a = None \<longrightarrow> (\<exists>name. rebuilt_name nfkd (load_release d a) = Inr name \<and>
          art_file_name a' = name \<and>
          (a' = a \<and> (\<exists>e. rd a = Inl e) \<or>
           art_signature a' = None \<and> art_signature_key_id a' = None \<and> art_signature_manifest a' = None \<and>
           (\<forall>b. rd a = Inr b \<longrightarrow> art_sha256 a' = Some (cr_sha256 cr b))))))"
proof -
  let ?L = "ignore_deleted art_deleted_at (artifacts d)"
  have dist: "distinct (map art_id (artifacts d))"
    using assms(2) by (simp add: db_ok_def artifact_constraints_def unique_on_total)
  have dl: "distinct (map art_id ?L)" using dist by (simp add: ignore_deleted_def distinct_map_filter')
  have sl: "set ?L \<subseteq> set (artifacts d)" by (auto simp: row_simps)
  from rebuild_loop_Inr [OF assms(1) [unfolded rebuild_all_names_def] dl sl dist]
  have d': "d' = d\<lparr>artifacts := map (\<lambda>r. if r \<in> set ?L then rebuilt cr nfkd rd d r else r) (artifacts d)\<rparr>"
    and names: "\<forall>a\<in>set ?L. \<exists>name. rebuilt_name nfkd (load_release d a) = Inr name"
    and ok: "satisfies artifact_constraints (artifacts d')" using assms(2) by (auto simp: db_ok_def)
  have "db_ok d'" using db_ok_artifacts [OF assms(2), of "artifacts d'"] ok d' by simp
  moreover have "let a' = (if a \<in> set ?L then rebuilt cr nfkd rd d a else a) in
       art_id a' = art_id a \<and> (art_deleted_at a \<noteq> None \<longrightarrow> a' = a) \<and>
       (art_deleted_at a = None \<longrightarrow> (\<exists>name. rebuilt_name nfkd (load_release d a) = Inr name \<and>
          art_file_name a' = name \<and>
          (a' = a \<and> (\<exists>e. rd a = Inl e) \<or>
           art_signature a' = None \<and> art_signature_key_id a' = None \<and> art_signature_manifest a' = None \<and>
           (\<forall>b. rd a = Inr b \<longrightarrow> art_sha256 a' = Some (cr_sha256 cr b)))))" if "a \<in> set (artifacts d)" for a
  proof (cases "art_deleted_at a")
    case None
    then have l: "a \<in> set ?L" using that by (simp add: row_simps)
    then obtain name where name: "rebuilt_name nfkd (load_release d a) = Inr name" using names by blast
    have "art_id (rebuilt cr nfkd rd d a) = art_id a"
      using rebuild_row_id by (auto simp: rebuilt_def split: sum.split option.split)
    then show ?thesis using l None name by (auto simp: Let_def intro: rebuilt_cases [OF name, of cr rd])
  next
    case (Some t)
    then have "a \<notin> set ?L" by (simp add: row_simps)
    then show ?thesis using Some by simp
  qed
  ultimately show ?thesis unfolding d' by (simp add: Let_def)
qed

section \<open>Concrete runs\<close>

lemma trim_hex64: "is_hex64 s \<Longrightarrow> trim s = s"
proof (rule trim_no_space)
  have "\<not> is_space c" if "is_hex c" for c using that by (auto simp: char_class_defs)
  then show "is_hex64 s \<Longrightarrow> list_all (\<lambda>c. \<not> is_space c) s" by (auto simp: is_hex64_def list_all_iff)
qed

lemma trim_b64url: "list_all is_b64url s \<Longrightarrow> trim s = s"
proof (rule trim_no_space)
  have "\<not> is_space c" if "is_b64url c" for c
    using that by (auto simp: is_b64url_def char_class_defs)
  then show "list_all is_b64url s \<Longrightarrow> list_all (\<lambda>c. \<not> is_space c) s" by (auto simp: list_all_iff)
qed

definition unsigned_db :: db where
  "unsigned_db = sample_db\<lparr>artifacts := [clear_signature sample_artifact, sample_draft]\<rparr>"

definition signed_draft_db :: db where
  "signed_draft_db = sample_db\<lparr>artifacts := [sample_artifact\<lparr>art_is_published := False\<rparr>]\<rparr>"

lemma sample_relations:
  "rel_version (load_release sample_db sample_artifact) = Some sample_version"
  "rel_software (load_release sample_db sample_artifact) = Some sample_software"
  by code_simp+

lemma release_columns:
  "art_version_id b = art_version_id a \<Longrightarrow> rel_version (load_release d b) = rel_version (load_release d a)"
  "art_version_id b = art_version_id a \<Longrightarrow> rel_software (load_release d b) = rel_software (load_release d a)"
  by (simp_all add: load_release_def Let_def split: option.split)

lemma sample_trimmed:
  "trimmed_text (JStr toy_key_id) = toy_key_id" "trimmed_text (JStr sample_signature) = sample_signature"
  by (simp_all add: trimmed_text_def trim_hex64 toy_key_id_def toy_digest_hex64 trim_b64url sample_signature_def base64url_class)

lemma sample_signed:
  "set_artifact_signature toy_crypto ''a1'' (JStr toy_key_id) (JStr sample_signature) unsigned_db =
     Inr (sample_artifact, sample_db)"
proof -
  let ?a = "clear_signature sample_artifact"
  have f: "find_artifact unsigned_db ''a1'' = Inr ?a"
    by (simp add: find_artifact_def unsigned_db_def find_by_def ignore_deleted_def sample_fields)
  have b: "build_ota_release_manifest (load_release unsigned_db ?a) = Inr sample_manifest"
    using manifest_columns [of ?a sample_artifact sample_db] sample_built
    by (simp add: unsigned_db_def signed_columns_def clear_signature_def)
  have v: "rel_version (load_release unsigned_db ?a) = Some sample_version"
    using release_columns(1) [of ?a sample_artifact sample_db] sample_relations by (simp add: unsigned_db_def)
  have k: "active_key unsigned_db (ver_software_id sample_version) toy_key_id = Some sample_key"
    by (simp add: active_key_def unsigned_db_def active_keys_def sample_tables sample_rows find_by_def)
  have h: "is_hex64 toy_key_id" by (simp add: toy_key_id_def toy_digest_hex64)
  have p: "sk_public_key sample_key = toy_pem" by (simp add: sample_rows)
  have "accept_signature toy_crypto ''a1'' (JStr toy_key_id) (JStr sample_signature) unsigned_db =
      Inr (?a, toy_key_id, sample_signature, manifest_obj sample_manifest)"
    using sample_verified p h
    by (simp add: accept_signature_def f sample_trimmed release_version_def v k create_ota_release_payload_def b parse_payload_of Let_def)
  moreover have "modify_by art_id ''a1'' (store_signature toy_key_id sample_signature (manifest_obj sample_manifest))
      (artifacts unsigned_db) = artifacts sample_db"
  proof -
    have "store_signature toy_key_id sample_signature (manifest_obj sample_manifest) ?a = sample_artifact"
      by (simp add: store_signature_def clear_signature_def sample_artifact_def)
    moreover have "art_id sample_draft = ''a2''" by (simp add: sample_draft_def)
    ultimately show ?thesis by (simp add: unsigned_db_def modify_by_def sample_fields sample_tables)
  qed
  moreover have "store_signature toy_key_id sample_signature (manifest_obj sample_manifest) ?a = sample_artifact"
    by (simp add: store_signature_def clear_signature_def sample_artifact_def)
  moreover have "satisfies artifact_constraints (artifacts sample_db)" using sample_db_ok by (simp add: db_ok_def)
  ultimately show ?thesis
    by (simp add: set_artifact_signature_def save_artifact_def checked_satisfies) (simp add: unsigned_db_def)
qed

lemma unsigned_db_ok: "db_ok unsigned_db"
  by code_simp

lemma signature_stored_verified_witness:
  "\<exists>a d'. set_artifact_signature toy_crypto ''a1'' (JStr toy_key_id) (JStr sample_signature) unsigned_db = Inr (a, d') \<and>
     db_ok d' \<and> (\<exists>env. create_ota_signature_envelope (load_release d' a) = Inr (Some env) \<and>
       env_signature env = sample_signature)"
  using signature_stored_verified [OF sample_signed unsigned_db_ok] sample_signed sample_trimmed by auto

lemma publishing_requires_signature_witness:
  "\<exists>a d'. publish_artifact toy_crypto 9 ''a1'' signed_draft_db = Inr (a, d') \<and> db_ok d' \<and> art_is_published a \<and>
     art_published_at a = Some 9"
proof -
  let ?a = "sample_artifact\<lparr>art_is_published := False\<rparr>"
  have f: "find_artifact signed_draft_db ''a1'' = Inr ?a"
    by (simp add: find_artifact_def signed_draft_db_def find_by_def ignore_deleted_def sample_fields)
  have b: "build_ota_release_manifest (load_release signed_draft_db ?a) = Inr sample_manifest"
    using manifest_columns [of ?a sample_artifact sample_db] sample_built by (simp add: signed_draft_db_def signed_columns_def)
  have v: "rel_version (load_release signed_draft_db ?a) = Some sample_version"
    "rel_software (load_release signed_draft_db ?a) = Some sample_software"
    using release_columns [of ?a sample_artifact sample_db] sample_relations by (simp_all add: signed_draft_db_def)
  have k: "active_key signed_draft_db (ver_software_id sample_version) toy_key_id = Some sample_key"
    by (simp add: active_key_def signed_draft_db_def active_keys_def sample_tables sample_rows find_by_def)
  have p: "sk_public_key sample_key = toy_pem" by (simp add: sample_rows)
  have "assert_valid_release_signature toy_crypto signed_draft_db (load_release signed_draft_db ?a) = Inr ()"
    using sample_verified p sample_signature_nonempty toy_key_id_nonempty
    by (simp add: assert_valid_release_signature_def release_version_def v k create_ota_release_payload_def b
        Let_def sample_fields no_text_def)
  moreover have "satisfies artifact_constraints (modify_by art_id ''a1'' (publish_row 9) (artifacts signed_draft_db))"
    by (simp add: signed_draft_db_def modify_by_def artifact_constraints_def unique_on_def map_filter_def)
  ultimately obtain a d' where s: "publish_artifact toy_crypto 9 ''a1'' signed_draft_db = Inr (a, d')"
    by (simp add: publish_artifact_def f release_software_def release_version_def v Let_def sample_fields
        save_artifact_def checked_satisfies)
  have "db_ok signed_draft_db" by code_simp
  from publishing_requires_signature [OF s this] s show ?thesis by auto
qed

lemma rebuild_resets_signatures_witness:
  "\<exists>n d'. rebuild_all_names toy_crypto (\<lambda>s. s) (\<lambda>_. Inr [1, 2]) sample_db = (Inr n, d') \<and> db_ok d' \<and>
     art_signature (artifacts d' ! 0) = None"
proof -
  have "case fst (rebuild_all_names toy_crypto (\<lambda>s. s) (\<lambda>_. Inr [1, 2]) sample_db) of Inl _ \<Rightarrow> False | Inr _ \<Rightarrow> True"
    by code_simp
  then obtain n d' where r: "rebuild_all_names toy_crypto (\<lambda>s. s) (\<lambda>_. Inr [1, 2]) sample_db = (Inr n, d')"
    by (cases "rebuild_all_names toy_crypto (\<lambda>s. s) (\<lambda>_. Inr [1, 2]) sample_db") (auto split: sum.splits)
  have "art_deleted_at (artifacts sample_db ! 0) = None" "0 < length (artifacts sample_db)"
    by (simp_all add: sample_tables sample_fields)
  then show ?thesis using rebuild_resets_signatures [OF r sample_db_ok] r by (fastforce simp: Let_def)
qed

end
