(* ===== verification/Release_Safety.thy ===== *)
theory Release_Safety
  imports Updater_Api Artifact_Service
begin

text \<open>
  The operations of the software, version and artifact services and of the updater together, as a
  step relation on the database, and the guarantee they give as a whole: whatever was done to the
  database through them, a release that clients can see of a product that requires signatures is
  served with an envelope an active key of the product verifies.
\<close>

section \<open>Steps\<close>

text \<open>
  One step is one operation of a service on behalf of one request, with any input, clock, identifier
  and answer of a collaborator; an operation that throws leaves the database, except the rebuild and
  the upload, whose earlier writes remain.
\<close>

inductive step :: "crypto \<Rightarrow> db \<Rightarrow> db \<Rightarrow> bool" for cr where
  software_created: "create_software nfkd now i v d = Inr (r, d') \<Longrightarrow> step cr d d'"
| software_toggled: "toggle_active i d = Inr (r, d') \<Longrightarrow> step cr d d'"
| software_renamed: "update_name i v d = Inr (r, d') \<Longrightarrow> step cr d d'"
| default_chosen: "set_default i d = Inr (r, d') \<Longrightarrow> step cr d d'"
| policy_set: "set_require_signed_updates cr i v d = Inr (r, d') \<Longrightarrow> step cr d d'"
| key_added: "add_signing_key cr now k i v d = Inr (e, d') \<Longrightarrow> step cr d d'"
| key_imported: "import_managed_signing_key cr env x now k i d = Inr (e, d') \<Longrightarrow> step cr d d'"
| key_revoked: "revoke_signing_key i key_id d = Inr (e, d') \<Longrightarrow> step cr d d'"
| version_created: "create_version lib iso_day now i data d = Inr (w, d') \<Longrightarrow> step cr d d'"
| version_updated: "update_version lib iso_day i data d = Inr (w, d') \<Longrightarrow> step cr d d'"
| version_toggled: "toggle_version i d = Inr (w, d') \<Longrightarrow> step cr d d'"
| version_deleted: "delete_version now i d = Inr (w, d') \<Longrightarrow> step cr d d'"
| artifact_uploaded: "upload_artifact env f data (s :: fs, d) = (y, s', d') \<Longrightarrow>
    \<forall>sp st. ue_resolve env sp = Inr st \<longrightarrow> st = local_storage root_cfg \<Longrightarrow> step cr d d'"
| artifact_updated: "update_artifact nfkd i data d = Inr (a, name, d') \<Longrightarrow> step cr d d'"
| artifact_deleted: "delete_artifact now i d = Inr (a, d') \<Longrightarrow> step cr d d'"
| artifact_signed: "set_artifact_signature cr i key_input signature_input d = Inr (a, d') \<Longrightarrow> step cr d d'"
| signature_imported: "import_managed_signature cr env x i d = Inr (a, d') \<Longrightarrow> step cr d d'"
| artifact_published: "publish_artifact cr now i d = Inr (a, d') \<Longrightarrow> step cr d d'"
| names_rebuilt: "rebuild_all_names cr nfkd read_object d = (n, d') \<Longrightarrow> step cr d d'"
| artifact_downloaded: "record_and_stream (get_stream :: provider_row \<Rightarrow> string \<Rightarrow> bytes res) is_ip record_ok now hid d i ip agent slug = Inr (z, d') \<Longrightarrow> step cr d d'"

definition reachable :: "crypto \<Rightarrow> db \<Rightarrow> db \<Rightarrow> bool" where
  "reachable cr = (step cr)\<^sup>*\<^sup>*"

section \<open>The invariant\<close>

text \<open>
  A stored signed manifest is the manifest of some release, complete with its key id and a signature
  over its payload that a registered key with that id verifies.
\<close>

definition signed_by_key :: "crypto \<Rightarrow> signing_key_row \<Rightarrow> ota_manifest \<Rightarrow> artifact_row \<Rightarrow> bool" where
  "signed_by_key cr k m a \<longleftrightarrow>
     art_signature_manifest a = Some (manifest_obj m) \<and> valid_size (Some (mf_size_bytes m)) \<and> is_hex64 (mf_sha256 m) \<and>
     art_signature_key_id a = Some (sk_key_id k) \<and> is_hex64 (sk_key_id k) \<and>
     (\<exists>sig. art_signature a = Some sig \<and> verify_ota_release_signature cr (payload_of m) (JStr sig) (sk_public_key k))"

definition signature_ok :: "crypto \<Rightarrow> signing_key_row list \<Rightarrow> artifact_row \<Rightarrow> bool" where
  "signature_ok cr keys a \<longleftrightarrow> art_signature_manifest a = None \<or> (\<exists>k\<in>set keys. \<exists>m. signed_by_key cr k m a)"

definition release_inv :: "crypto \<Rightarrow> db \<Rightarrow> bool" where
  "release_inv cr d \<longleftrightarrow> db_ok d \<and> (\<forall>a\<in>set (artifacts d). signature_ok cr (signing_keys d) a)"

text \<open>The part of an artifact and of a key the invariant depends on.\<close>

definition signature_columns :: "artifact_row \<Rightarrow> string option \<times> string option \<times> json_obj option" where
  "signature_columns a = (art_signature a, art_signature_key_id a, art_signature_manifest a)"

definition key_columns :: "signing_key_row \<Rightarrow> string \<times> string" where
  "key_columns k = (sk_key_id k, sk_public_key k)"

definition keys_kept :: "db \<Rightarrow> db \<Rightarrow> bool" where
  "keys_kept d d' \<longleftrightarrow> key_columns ` set (signing_keys d) \<subseteq> key_columns ` set (signing_keys d')"

definition artifact_kept :: "crypto \<Rightarrow> db \<Rightarrow> db \<Rightarrow> artifact_row \<Rightarrow> bool" where
  "artifact_kept cr d d' a \<longleftrightarrow>
     art_signature_manifest a = None \<or> signature_columns a \<in> signature_columns ` set (artifacts d) \<or>
     signature_ok cr (signing_keys d') a"

text \<open>What every operation does to the invariant's data.\<close>

definition preserves :: "crypto \<Rightarrow> db \<Rightarrow> db \<Rightarrow> bool" where
  "preserves cr d d' \<longleftrightarrow> (db_ok d \<longrightarrow> db_ok d' \<and> keys_kept d d' \<and> (\<forall>a\<in>set (artifacts d'). artifact_kept cr d d' a))"

lemma signature_ok_columns:
  assumes "signature_ok cr ks a" "signature_columns a = signature_columns b"
    and "key_columns ` set ks \<subseteq> key_columns ` set ks'"
  shows "signature_ok cr ks' b"
proof (cases "art_signature_manifest b")
  case (Some s)
  then obtain k m where k: "k \<in> set ks" "signed_by_key cr k m a"
    using assms(1,2) by (auto simp: signature_ok_def signature_columns_def)
  then obtain k' where k': "k' \<in> set ks'" "key_columns k = key_columns k'" using assms(3) by blast
  then have "signed_by_key cr k' m b"
    using k(2) assms(2) by (auto simp: signed_by_key_def signature_columns_def key_columns_def)
  then show ?thesis using k'(1) by (auto simp: signature_ok_def)
qed (simp add: signature_ok_def)

lemma preserves_inv: "preserves cr d d' \<Longrightarrow> release_inv cr d \<Longrightarrow> release_inv cr d'"
  unfolding release_inv_def
proof (intro conjI ballI)
  assume p: "preserves cr d d'" and i: "db_ok d \<and> (\<forall>a\<in>set (artifacts d). signature_ok cr (signing_keys d) a)"
  then show "db_ok d'" by (simp add: preserves_def)
  fix a assume "a \<in> set (artifacts d')"
  then consider "art_signature_manifest a = None" | b where "b \<in> set (artifacts d)" "signature_columns b = signature_columns a"
    | "signature_ok cr (signing_keys d') a"
    using p i unfolding preserves_def artifact_kept_def by (metis imageE)
  then show "signature_ok cr (signing_keys d') a"
  proof cases
    case 2
    then show ?thesis using p i by (auto simp: preserves_def keys_kept_def intro: signature_ok_columns)
  qed (simp_all add: signature_ok_def)
qed

lemma preserves_refl: "preserves cr d d"
  by (auto simp: preserves_def keys_kept_def artifact_kept_def)

lemma artifact_kept_trans:
  assumes "artifact_kept cr e f x" "keys_kept e f" "\<forall>y\<in>set (artifacts e). artifact_kept cr d e y"
  shows "artifact_kept cr d f x"
proof -
  have "art_signature_manifest x = None \<or> signature_columns x \<in> signature_columns ` set (artifacts e) \<or>
      signature_ok cr (signing_keys f) x" using assms(1) by (simp only: artifact_kept_def)
  then show ?thesis
  proof (elim disjE)
    assume "signature_columns x \<in> signature_columns ` set (artifacts e)"
    then obtain y where y: "y \<in> set (artifacts e)" "signature_columns x = signature_columns y" by blast
    have "art_signature_manifest y = None \<or> signature_columns y \<in> signature_columns ` set (artifacts d) \<or>
        signature_ok cr (signing_keys e) y" using assms(3) y(1) by (simp only: artifact_kept_def)
    then show ?thesis
    proof (elim disjE)
      assume "art_signature_manifest y = None"
      then have "art_signature_manifest x = None" using y(2) by (simp add: signature_columns_def)
      then show ?thesis by (simp only: artifact_kept_def simp_thms)
    next
      assume "signature_columns y \<in> signature_columns ` set (artifacts d)"
      then show ?thesis unfolding artifact_kept_def y(2) by blast
    next
      assume "signature_ok cr (signing_keys e) y"
      then have "signature_ok cr (signing_keys f) x"
        by (rule signature_ok_columns) (use y(2) assms(2) in \<open>simp_all only: keys_kept_def\<close>)
      then show ?thesis by (simp only: artifact_kept_def simp_thms)
    qed
  qed (simp_all only: artifact_kept_def simp_thms)
qed

lemma preserves_trans: "preserves cr d e \<Longrightarrow> preserves cr e f \<Longrightarrow> preserves cr d f"
proof -
  assume a: "preserves cr d e" "preserves cr e f"
  have "db_ok f \<and> keys_kept d f \<and> (\<forall>x\<in>set (artifacts f). artifact_kept cr d f x)" if "db_ok d"
  proof -
    have k: "db_ok e" "keys_kept d e" "\<forall>y\<in>set (artifacts e). artifact_kept cr d e y"
      using a(1) that by (simp_all add: preserves_def)
    then have f: "db_ok f" "keys_kept e f" "\<forall>x\<in>set (artifacts f). artifact_kept cr e f x"
      using a(2) by (simp_all add: preserves_def)
    have "keys_kept d f" using k(2) f(2) unfolding keys_kept_def by (rule order_trans)
    then show ?thesis using f artifact_kept_trans [OF _ f(2) k(3)] by blast
  qed
  then show ?thesis unfolding preserves_def by blast
qed

section \<open>The operations\<close>

lemma preserves_same:
  assumes "artifacts d' = artifacts d" "signing_keys d' = signing_keys d" "db_ok d \<Longrightarrow> db_ok d'"
  shows "preserves cr d d'"
  using assms by (auto simp: preserves_def keys_kept_def artifact_kept_def)

text \<open>Writes that leave every row of the artifacts its constraint columns and its signature, or clear it.\<close>

definition constraint_columns :: "artifact_row \<Rightarrow> string \<times> string \<times> string \<times> string \<times> string" where
  "constraint_columns r = (art_id r, art_version_id r, art_platform_id r, art_architecture_id r, art_channel r)"

lemma preserves_map:
  assumes "d' = d\<lparr>artifacts := map f (artifacts d)\<rparr>"
    and "\<And>a. a \<in> set (artifacts d) \<Longrightarrow> art_signature_manifest (f a) = None \<or> signature_columns (f a) = signature_columns a \<or>
      signature_ok cr (signing_keys d) (f a)"
    and "satisfies artifact_constraints (map f (artifacts d)) \<or>
      map constraint_columns (map f (artifacts d)) = map constraint_columns (artifacts d)"
  shows "preserves cr d d'"
proof -
  have "satisfies artifact_constraints (map f (artifacts d))" if "db_ok d"
  proof -
    have "satisfies artifact_constraints (artifacts d)" using that by (simp add: db_ok_def)
    then show ?thesis using assms(3) artifact_constraints_same [of "map f (artifacts d)" "artifacts d"]
      by (auto simp: constraint_columns_def [abs_def])
  qed
  then have "db_ok d \<longrightarrow> db_ok d'" using db_ok_artifacts assms(1) by blast
  moreover have "artifact_kept cr d d' (f a)" if "a \<in> set (artifacts d)" for a
    using assms(2) [OF that] that by (auto simp: artifact_kept_def assms(1))
  ultimately show ?thesis by (simp add: preserves_def assms(1) keys_kept_def)
qed

lemma preserves_modify:
  assumes "d' = d\<lparr>artifacts := modify_by art_id i g (artifacts d)\<rparr>"
    and "\<And>a. art_signature_manifest (g a) = None \<or> signature_columns (g a) = signature_columns a \<or>
      signature_ok cr (signing_keys d) (g a)"
    and "satisfies artifact_constraints (artifacts d') \<or> (\<forall>a. constraint_columns (g a) = constraint_columns a)"
  shows "preserves cr d d'"
proof (rule preserves_map [where f = "\<lambda>r. if art_id r = i then g r else r"])
  show "d' = d\<lparr>artifacts := map (\<lambda>r. if art_id r = i then g r else r) (artifacts d)\<rparr>"
    using assms(1) by (simp add: modify_by_def)
qed (use assms in \<open>auto simp: modify_by_def\<close>)

lemma preserves_versions:
  assumes "d' = d\<lparr>versions := t\<rparr>" "db_ok d \<Longrightarrow> satisfies version_constraints t"
  shows "preserves cr d d'"
  using assms by (intro preserves_same) (auto simp: db_ok_def)

lemma preserves_software:
  assumes "d' = d\<lparr>software := t\<rparr>" "satisfies software_constraints t"
  shows "preserves cr d d'"
  using assms by (intro preserves_same) (auto simp: db_ok_def)

lemma software_steps:
  "create_software nfkd now i v d = Inr (r, d') \<Longrightarrow> preserves cr d d'"
  "toggle_active i d = Inr (r, d') \<Longrightarrow> preserves cr d d'"
  "update_name i v d = Inr (r, d') \<Longrightarrow> preserves cr d d'"
  "set_default i d = Inr (r, d') \<Longrightarrow> preserves cr d d'"
  "set_require_signed_updates cr i v d = Inr (r, d') \<Longrightarrow> preserves cr d d'"
  by (auto simp: create_software_def toggle_active_def update_name_def set_default_def set_require_signed_updates_def
      res_simps Let_def intro!: preserves_software)

lemma add_key_step: "add_signing_key cr now k i v d = Inr (e, d') \<Longrightarrow> preserves cr d d'"
  by (auto simp: add_signing_key_def res_simps Let_def preserves_def keys_kept_def artifact_kept_def db_ok_def
      split: option.splits if_splits)

lemma key_steps:
  "add_signing_key cr now k i v d = Inr (e, d') \<Longrightarrow> preserves cr d d'"
  "import_managed_signing_key cr env x now k i d = Inr (e, d') \<Longrightarrow> preserves cr d d'"
  by (auto simp: import_managed_signing_key_def bind_res_Inr intro: add_key_step)

lemma revoked_keys_step:
  assumes d': "d' = d\<lparr>signing_keys := modify_by sk_id i (\<lambda>k. k\<lparr>sk_is_active := False\<rparr>) (signing_keys d),
            artifacts := update_where P clear_signature (artifacts d)\<rparr>"
  shows "preserves cr d d'"
proof -
  let ?ks = "modify_by sk_id i (\<lambda>k. k\<lparr>sk_is_active := False\<rparr>) (signing_keys d)"
  have "map key_columns ?ks = map key_columns (signing_keys d)" by (simp add: modify_by_keys key_columns_def)
  then have img: "key_columns ` set ?ks = key_columns ` set (signing_keys d)" by (metis set_map)
  have c: "map sk_id ?ks = map sk_id (signing_keys d)" "map sk_key_id ?ks = map sk_key_id (signing_keys d)"
    by (simp_all add: modify_by_keys)
  then have "satisfies signing_key_constraints ?ks = satisfies signing_key_constraints (signing_keys d)"
    by (simp add: signing_key_constraints_def unique_on_total)
  then have "preserves cr d (d\<lparr>signing_keys := ?ks\<rparr>)"
    using img by (auto simp: preserves_def keys_kept_def artifact_kept_def db_ok_def)
  moreover have "preserves cr (d\<lparr>signing_keys := ?ks\<rparr>) d'"
    by (rule preserves_map [where f = "\<lambda>r. if P r then clear_signature r else r"])
      (auto simp: d' update_where_def constraint_columns_def)
  ultimately show ?thesis by (rule preserves_trans)
qed

lemma revoke_step: "revoke_signing_key i key_id d = Inr (e, d') \<Longrightarrow> preserves cr d d'"
  by (drule revoke_Inr, elim exE conjE) (rule revoked_keys_step)

lemma version_steps:
  "create_version lib iso_day now i data d = Inr (w, d') \<Longrightarrow> preserves cr d d'"
  "toggle_version i d = Inr (w, d') \<Longrightarrow> preserves cr d d'"
  by (auto simp: create_version_def toggle_version_def save_version_def res_simps Let_def split: jsval.splits
      intro!: preserves_versions)

lemma delete_version_step: "delete_version now i d = Inr (w, d') \<Longrightarrow> preserves cr d d'"
proof -
  assume "delete_version now i d = Inr (w, d')"
  then have "d' = d\<lparr>versions := soft_delete ver_id set_ver_deleted now i (versions d)\<rparr>" by (rule delete_version_Inr)
  moreover have "satisfies version_constraints (soft_delete ver_id set_ver_deleted now i (versions d)) =
      satisfies version_constraints (versions d)"
    by (simp add: version_constraints_def unique_on_total soft_delete_def modify_by_keys set_ver_deleted_def)
  ultimately show ?thesis by (intro preserves_versions) (auto simp: db_ok_def)
qed

lemma update_version_step: "update_version lib iso_day i data d = Inr (w, d') \<Longrightarrow> preserves cr d d'"
proof -
  assume "update_version lib iso_day i data d = Inr (w, d')"
  then obtain w0 c where ok: "satisfies version_constraints (modify_by ver_id i (apply_change c) (versions d))"
    and d': "d' = (let e = d\<lparr>versions := modify_by ver_id i (apply_change c) (versions d)\<rparr>
           in if signed_metadata_changed w0 c then clear_version_signatures i e else e)"
    by (rule update_version_Inr)
  let ?e = "d\<lparr>versions := modify_by ver_id i (apply_change c) (versions d)\<rparr>"
  have "preserves cr d ?e" using ok by (intro preserves_versions) simp_all
  moreover have "preserves cr ?e (clear_version_signatures i ?e)"
    by (rule preserves_map [where f = "\<lambda>r. if art_version_id r = i then clear_signature r else r"])
      (auto simp: clear_version_signatures_def update_where_def constraint_columns_def)
  ultimately show ?thesis using d' preserves_trans by (auto simp: Let_def split: if_splits)
qed

lemma update_artifact_step: "update_artifact nfkd i data d = Inr (a, name, d') \<Longrightarrow> preserves cr d d'"
proof -
  assume "update_artifact nfkd i data d = Inr (a, name, d')"
  then have "d' = d\<lparr>artifacts := modify_by art_id i (merge_artifact data name) (artifacts d)\<rparr>"
    "satisfies artifact_constraints (modify_by art_id i (merge_artifact data name) (artifacts d))"
    by (auto simp: update_artifact_def bind_res_Inr save_artifact_Inr)
  then show ?thesis
    by (intro preserves_modify [of d' i "merge_artifact data name" d]) (auto simp: merge_artifact_def)
qed

lemma delete_artifact_step: "delete_artifact now i d = Inr (a, d') \<Longrightarrow> preserves cr d d'"
proof -
  assume "delete_artifact now i d = Inr (a, d')"
  then have "d' = d\<lparr>artifacts := modify_by art_id i (set_art_deleted (Some now)) (artifacts d)\<rparr>"
    by (auto simp: delete_artifact_def bind_res_Inr soft_delete_def)
  then show ?thesis
    by (intro preserves_modify [of d' i "set_art_deleted (Some now)" d])
      (auto simp: set_art_deleted_def signature_columns_def constraint_columns_def)
qed

lemma set_signature_step:
  "set_artifact_signature cr i key_input signature_input d = Inr (a, d') \<Longrightarrow> preserves cr d d'"
proof -
  assume "set_artifact_signature cr i key_input signature_input d = Inr (a, d')"
  then obtain a0 key_id sig manifest where
      acc: "accept_signature cr i key_input signature_input d = Inr (a0, key_id, sig, manifest)"
    and d': "d' = d\<lparr>artifacts := modify_by art_id i (store_signature key_id sig manifest) (artifacts d)\<rparr>"
    and ok: "satisfies artifact_constraints (artifacts d')"
    by (rule set_artifact_signature_Inr)
  obtain m k v where "find_artifact d i = Inr a0" "rel_version (load_release d a0) = Some v"
    and m: "k \<in> set (active_keys d (ver_software_id v))" "sk_key_id k = key_id" "is_hex64 key_id"
    "build_ota_release_manifest (load_release d a0) = Inr m" "manifest = manifest_obj m"
    "verify_ota_release_signature cr (payload_of m) (JStr sig) (sk_public_key k)"
    "key_id = trimmed_text key_input" "sig = trimmed_text signature_input"
    by (rule accept_signature_Inr [OF acc])
  have k: "k \<in> set (signing_keys d)" using m(1) by (simp add: active_keys_def)
  have "valid_size (Some (mf_size_bytes m))" "is_hex64 (mf_sha256 m)"
    using m(4) by (auto simp: manifest_Inr)
  then have "signed_by_key cr k m (store_signature key_id sig manifest b)" for b
    using m by (simp add: signed_by_key_def store_signature_def)
  then have "signature_ok cr (signing_keys d) (store_signature key_id sig manifest b)" for b
    using k by (auto simp: signature_ok_def)
  then show ?thesis using ok
    by (intro preserves_modify [of d' i "store_signature key_id sig manifest" d]) (auto simp: d')
qed

lemma import_signature_step:
  "import_managed_signature cr env x i d = Inr (a, d') \<Longrightarrow> preserves cr d d'"
  unfolding import_managed_signature_def Let_def bind_res_Inr
  by (auto simp: throw_if_Inr split: option.splits intro: set_signature_step)

lemma publish_step: "publish_artifact cr' now i d = Inr (a, d') \<Longrightarrow> preserves cr d d'"
proof -
  assume "publish_artifact cr' now i d = Inr (a, d')"
  then have "d' = d\<lparr>artifacts := modify_by art_id i (publish_row now) (artifacts d)\<rparr>"
    by (rule publish_artifact_Inr)
  then show ?thesis
    by (intro preserves_modify [of d' i "publish_row now" d])
      (auto simp: publish_row_def signature_columns_def constraint_columns_def)
qed

lemma rebuild_row_cleared: "rebuild_row cr name c a = Some g \<Longrightarrow> art_signature_manifest (g r) = None"
  by (auto simp: rebuild_row_def split: sum.splits if_splits)

lemma rebuild_steps: "rebuild_loop cr nfkd rd d0 as n d = (x, d') \<Longrightarrow> preserves cr' d d'"
proof (induction "as" arbitrary: n d)
  case Nil
  then show ?case by (simp add: preserves_refl)
next
  case (Cons a "as")
  consider (stop) "d' = d" | (skip) "rebuild_loop cr nfkd rd d0 as n d = (x, d')"
    | (save) name g d1 where "rebuild_row cr name (rd a) a = Some g" "save_artifact g (art_id a) d = Inr d1"
        "rebuild_loop cr nfkd rd d0 as (n + 1) d1 = (x, d')"
    using Cons.prems by (auto split: sum.splits option.splits)
  then show ?case
  proof cases
    case save
    then have "preserves cr' d d1"
      using rebuild_row_cleared [OF save(1)]
      by (intro preserves_modify [of d1 "art_id a" g d]) (auto simp: save_artifact_Inr)
    then show ?thesis using Cons.IH [OF save(3)] by (rule preserves_trans)
  qed (use Cons.IH in \<open>auto simp: preserves_refl\<close>)
qed

lemma rebuild_step: "rebuild_all_names cr nfkd rd d = (x, d') \<Longrightarrow> preserves cr' d d'"
  unfolding rebuild_all_names_def by (rule rebuild_steps)

lemma download_step:
  "record_and_stream get_stream is_ip record_ok now hid d i ip agent slug = Inr (z, d') \<Longrightarrow> preserves cr d d'"
proof -
  assume "record_and_stream get_stream is_ip record_ok now hid d i ip agent slug = Inr (z, d')"
  then obtain a sp where "(case get_stream sp (art_storage_key a) of Inl e \<Rightarrow> Inl ArtifactStorageError
      | Inr stream \<Rightarrow> Inr ((a, stream), if record_ok then record_metrics is_ip now hid a ip agent d else d)) = Inr (z, d')"
    unfolding record_and_stream_def bind_res_Inr by blast
  then have "d' = d \<or> (\<exists>a. d' = record_metrics is_ip now hid a ip agent d)"
    by (cases "get_stream sp (art_storage_key a)") (auto split: if_splits)
  moreover have "preserves cr d (record_metrics is_ip now hid a ip agent d)" for a
  proof -
    let ?e = "d\<lparr>artifacts := modify_by art_id (art_id a) (\<lambda>r. r\<lparr>art_download_count := art_download_count r + 1\<rparr>) (artifacts d)\<rparr>"
    have "preserves cr d ?e"
      by (rule preserves_modify [OF refl]) (auto simp: signature_columns_def constraint_columns_def)
    moreover have "preserves cr ?e (record_metrics is_ip now hid a ip agent d)"
      by (rule preserves_same) (simp_all add: record_metrics_def db_ok_def)
    ultimately show ?thesis by (rule preserves_trans)
  qed
  ultimately show ?thesis using preserves_refl by metis
qed

lemma compensate_tables:
  "compensate st up i stored s d = (s', d') \<Longrightarrow> \<exists>rs. d' = d\<lparr>reservations := rs\<rparr>"
  by (cases d) (auto simp: compensate_def release_reservation_def Let_def split: prod.splits if_splits)

lemma upload_step:
  assumes "upload_artifact env f data (s, d) = (x, s', d')"
    and "\<And>sp st'. ue_resolve env sp = Inr st' \<Longrightarrow> st' = st"
  shows "preserves cr d d'"
proof (rule upload_cases [OF assms])
  fix pl rs s1 d2 z stored s2
  assume q: "reserve_quota (ue_now env) (ue_id env) (sp_id (pl_provider pl)) (pl_size pl) (d\<lparr>reservations := rs\<rparr>) = Inr d2"
    and r: "(\<exists>e. x = Inl e \<and> compensate st (ue_db_up env) (ue_id env) stored s2 d2 = (s', d')) \<or>
       (\<exists>h a. z = Inr h \<and> x = Inr a \<and> s' = s2 \<and>
          a = new_artifact (ue_pg_text env) (ue_now env) (ue_id env) pl data h \<and> commit_upload a d2 = Inr d')"
  obtain rs' where d2: "d2 = d\<lparr>reservations := rs'\<rparr>" by (rule reserve_quota_Inr [OF q]) simp
  from r consider rs'' where "d' = d\<lparr>reservations := rs''\<rparr>"
    | rs'' a where "d' = d\<lparr>artifacts := artifacts d @ [a], reservations := rs''\<rparr>" "art_signature_manifest a = None"
        "satisfies artifact_constraints (artifacts d @ [a])"
    by (auto simp: d2 commit_upload_def release_reservation_def bind_res_Inr checked_Inr new_artifact_def
        dest!: compensate_tables)
  then show ?thesis
  proof cases
    case 1
    then show ?thesis by (intro preserves_same) (simp_all add: db_ok_def)
  next
    case 2
    then show ?thesis by (auto simp: preserves_def keys_kept_def artifact_kept_def db_ok_def)
  qed
qed (auto simp: db_ok_def intro: preserves_refl preserves_same)

lemma step_preserves: "step cr d d' \<Longrightarrow> preserves cr d d'"
  by (induction rule: step.induct)
    (auto intro: software_steps key_steps revoke_step version_steps delete_version_step update_version_step
      update_artifact_step delete_artifact_step set_signature_step import_signature_step publish_step
      rebuild_step download_step upload_step)

lemma reachable_inv: "reachable cr d d' \<Longrightarrow> release_inv cr d \<Longrightarrow> release_inv cr d'"
  unfolding reachable_def
  by (induction rule: rtranclp_induct) (auto intro: preserves_inv step_preserves)

section \<open>What clients are served\<close>

lemma nullable_inject:
  "nullable SStr x = SStr y \<longleftrightarrow> x = Some y" "nullable SInt n = SInt k \<longleftrightarrow> n = Some k"
  "nullable (\<lambda>p. SStr (f p)) z = SStr y \<longleftrightarrow> (\<exists>p. z = Some p \<and> f p = y)"
  "opt_text x = SStr y \<longleftrightarrow> x = Some y"
  by (cases x; cases n; cases z; auto simp: nullable_def opt_text_def)+

text \<open>The object of the query is the manifest the code builds from the same rows.\<close>

lemma sql_manifest_built:
  assumes "sql_manifest d s v a = manifest_obj m" "valid_size (Some (mf_size_bytes m))" "is_hex64 (mf_sha256 m)"
    and "rel_version (load_release d a) = Some v" "rel_software (load_release d a) = Some s"
    and "rel_platform (load_release d a) = find_by plat_id (art_platform_id a) (platforms d)"
    and "rel_architecture (load_release d a) = find_by arch_id (art_architecture_id a) (architectures d)"
  shows "build_ota_release_manifest (load_release d a) = Inr m"
proof -
  from assms(1) obtain p h where "find_by plat_id (art_platform_id a) (platforms d) = Some p" "plat_name p = mf_platform m"
    "find_by arch_id (art_architecture_id a) (architectures d) = Some h" "arch_name h = mf_architecture m"
    "art_size_bytes a = Some (mf_size_bytes m)" "art_sha256 a = Some (mf_sha256 m)" "sw_slug s = mf_software m"
    "version_text v = mf_version m" "ver_codename v = mf_codename m" "ver_changelog v = mf_changelog m"
    "art_channel a = mf_channel m" "art_file_name a = mf_file_name m"
    by (auto simp: sql_manifest_def manifest_obj_def nullable_inject nullable_opt_text version_text_def)
  then show ?thesis using assms(2-) by (simp add: manifest_Inr)
qed

lemma find_visible:
  assumes "distinct (map key t)" "list_ex (\<lambda>r. key r = i \<and> del r = None) t"
  shows "find_by key i (ignore_deleted del t) = find_by key i t \<and> (\<exists>r. find_by key i t = Some r)"
proof -
  obtain r where r: "r \<in> set t" "key r = i" "del r = None" using assms(2) by (auto simp: list_ex_iff)
  have "find_by key i t = Some r" using find_by_distinct [OF assms(1) r(1)] r(2) by simp
  moreover have "find_by key i (ignore_deleted del t) = Some r"
    using find_by_distinct [of key "ignore_deleted del t" r] distinct_map_filter' [OF assms(1)] r
    by (simp add: ignore_deleted_def)
  ultimately show ?thesis by simp
qed

lemma public_relations:
  assumes "db_ok d" "public_artifact d sid a"
  obtains v s where "rel_version (load_release d a) = Some v" "rel_software (load_release d a) = Some s"
    "rel_platform (load_release d a) = find_by plat_id (art_platform_id a) (platforms d)"
    "rel_architecture (load_release d a) = find_by arch_id (art_architecture_id a) (architectures d)"
    "sw_require_signed s \<longrightarrow> eligible_signature d s v a" "\<forall>i. sid = Some i \<longrightarrow> i \<noteq> [] \<longrightarrow> sw_id s = i"
proof -
  from assms(2) obtain v s where v: "v \<in> set (versions d)" "ver_id v = art_version_id a" "ver_deleted_at v = None"
    and s: "s \<in> set (software d)" "sw_id s = ver_software_id v" "sw_require_signed s \<Longrightarrow> eligible_signature d s v a"
      "\<And>i. sid = Some i \<Longrightarrow> i \<noteq> [] \<Longrightarrow> sw_id s = i"
    by (rule public_artifact_obtain) blast
  have dist: "distinct (map ver_id (versions d))" "distinct (map sw_id (software d))" "distinct (map plat_id (platforms d))"
    "distinct (map arch_id (architectures d))"
    using assms(1) by (simp_all add: db_ok_def version_constraints_def software_constraints_def platform_constraints_def
        architecture_constraints_def unique_on_total)
  have "find_by ver_id (art_version_id a) (ignore_deleted ver_deleted_at (versions d)) = Some v"
    using find_by_distinct [of ver_id "ignore_deleted ver_deleted_at (versions d)" v] distinct_map_filter' [OF dist(1)] v
    by (simp add: ignore_deleted_def)
  moreover have "find_by sw_id (ver_software_id v) (software d) = Some s"
    using find_by_distinct [OF dist(2) s(1)] s(2) by simp
  moreover have "list_ex (\<lambda>p. plat_id p = art_platform_id a \<and> plat_deleted_at p = None) (platforms d)"
    "list_ex (\<lambda>h. arch_id h = art_architecture_id a \<and> arch_deleted_at h = None) (architectures d)"
    using assms(2) by (simp_all add: public_artifact_def)
  ultimately show thesis
    using find_visible [OF dist(3), of "art_platform_id a" plat_deleted_at]
      find_visible [OF dist(4), of "art_architecture_id a" arch_deleted_at] s(3,4)
    by (intro that [of v s]) (simp_all add: load_release_def Let_def)
qed

lemma visible_release_signed:
  assumes "release_inv cr d" "a \<in> set (public_query d sid)" "rel_software (load_release d a) = Some s" "sw_require_signed s"
  shows "\<exists>k env. k \<in> set (active_keys d (sw_id s)) \<and> create_ota_signature_envelope (load_release d a) = Inr (Some env) \<and>
    create_ota_release_payload (load_release d a) = Inr (env_payload env) \<and> env_key_id env = sk_key_id k \<and>
    verify_ota_release_signature cr (env_payload env) (JStr (env_signature env)) (sk_public_key k)"
proof -
  have ok: "db_ok d" and a: "a \<in> set (artifacts d)" "public_artifact d sid a"
    using assms(1,2) by (simp_all add: release_inv_def)
  obtain v s' where v: "rel_version (load_release d a) = Some v" and s1: "rel_software (load_release d a) = Some s'"
    and ph: "rel_platform (load_release d a) = find_by plat_id (art_platform_id a) (platforms d)"
    "rel_architecture (load_release d a) = find_by arch_id (art_architecture_id a) (architectures d)"
    and s2: "sw_require_signed s' \<longrightarrow> eligible_signature d s' v a"
    and "\<forall>i. sid = Some i \<longrightarrow> i \<noteq> [] \<longrightarrow> sw_id s' = i"
    by (rule public_relations [OF ok a(2)])
  have el: "eligible_signature d s v a" using s1 s2 assms(3,4) by simp
  from el obtain k snapshot where k: "k \<in> set (signing_keys d)" "sk_software_id k = sw_id s"
    "art_signature_key_id a = Some (sk_key_id k)" "sk_is_active k" "art_signature_manifest a = Some snapshot"
    "jsonb_eq snapshot (sql_manifest d s v a)"
    by (auto simp: eligible_signature_def list_ex_iff split: option.splits)
  obtain k' m where k': "k' \<in> set (signing_keys d)" and m: "signed_by_key cr k' m a"
    using assms(1) a(1) k(5) by (auto simp: release_inv_def signature_ok_def)
  have dist: "distinct (map sk_key_id (signing_keys d))"
    using ok by (simp add: db_ok_def signing_key_constraints_def unique_on_total)
  have "sk_key_id k' = sk_key_id k" using m k(3) by (simp add: signed_by_key_def)
  then have same: "k' = k" by (rule distinct_map_inj [OF dist k' k(1)])
  have snap: "snapshot = manifest_obj m" using m k(5) by (simp add: signed_by_key_def)
  have sql: "sql_manifest d s v a = manifest_obj m" using sql_manifest_eq k(6) snap by blast
  have b: "build_ota_release_manifest (load_release d a) = Inr m"
    using m by (intro sql_manifest_built [OF sql _ _ v assms(3) ph]) (simp_all add: signed_by_key_def)
  obtain sig where sig: "art_signature a = Some sig" "verify_ota_release_signature cr (payload_of m) (JStr sig) (sk_public_key k)"
    using m same by (auto simp: signed_by_key_def)
  have "sk_key_id k \<noteq> []" using m same by (auto simp: signed_by_key_def is_hex64_def)
  then have "create_ota_signature_envelope (load_release d a) =
      Inr (Some \<lparr> env_payload = payload_of m, env_signature = sig, env_key_id = sk_key_id k \<rparr>)"
    using envelope_of_signed [OF b] sig verified_signature_nonempty [OF sig(2)] k(3,5) snap by simp
  moreover have "k \<in> set (active_keys d (sw_id s))" using k by (simp add: active_keys_def)
  ultimately show ?thesis using sig(2) b by (auto simp: create_ota_release_payload_def)
qed

text \<open>
  C4. However the database was reached from one in which no artifact carries a signed manifest, every
  release that clients can see of a product that requires signatures has an envelope over the
  manifest it has now, and an active key of the product verifies the signature of the envelope over
  its payload. No sequence of uploads, edits, key changes, renames, rebuilds or failures makes an
  unsigned or wrongly signed release of such a product visible.
\<close>

theorem reachable_releases_verify:
  assumes "reachable cr d0 d" "db_ok d0" "\<forall>a\<in>set (artifacts d0). art_signature_manifest a = None"
    and "a \<in> set (public_query d sid)" "rel_software (load_release d a) = Some s" "sw_require_signed s"
  shows "\<exists>k env. k \<in> set (active_keys d (sw_id s)) \<and> create_ota_signature_envelope (load_release d a) = Inr (Some env) \<and>
    create_ota_release_payload (load_release d a) = Inr (env_payload env) \<and> env_key_id env = sk_key_id k \<and>
    verify_ota_release_signature cr (env_payload env) (JStr (env_signature env)) (sk_public_key k)"
proof -
  have "release_inv cr d0" using assms(2,3) by (simp add: release_inv_def signature_ok_def)
  then show ?thesis using reachable_inv [OF assms(1)] visible_release_signed assms(4-6) by blast
qed

lemma sample_reachable: "reachable toy_crypto unsigned_db sample_db"
  unfolding reachable_def using artifact_signed [OF sample_signed] by (rule r_into_rtranclp)

lemma unsigned_manifests: "\<forall>a\<in>set (artifacts unsigned_db). art_signature_manifest a = None"
  by (simp add: unsigned_db_def sample_draft_def)

lemma sample_requires: "sw_require_signed sample_software" "sw_id sample_software \<noteq> []"
  by (simp_all add: sample_software_def)

lemma reachable_releases_verify_witness:
  "\<exists>k env. k \<in> set (active_keys sample_db ''s1'') \<and>
     create_ota_signature_envelope (load_release sample_db sample_artifact) = Inr (Some env) \<and>
     verify_ota_release_signature toy_crypto (env_payload env) (JStr (env_signature env)) (sk_public_key k)"
proof -
  have "sample_artifact \<in> set (public_query sample_db None)" unfolding sample_public by simp
  from reachable_releases_verify [OF sample_reachable unsigned_db_ok unsigned_manifests this sample_relations(2) sample_requires(1)]
  show ?thesis unfolding sample_rows by blast
qed

text \<open>
  C5. Seen from a client: in every such reachable database, an update that the check endpoint
  announces for a product that requires signatures comes with an envelope whose signature an active
  key of the product verifies, and the payload it signs is that of the announced release.
\<close>

theorem announced_update_verifies:
  assumes "reachable cr d0 d" "db_ok d0" "\<forall>a\<in>set (artifacts d0). art_signature_manifest a = None"
    and "api_check lib url d inp slug = Inr (Update_Found b)" "resolve_software d slug = Inr s" "sw_require_signed s"
    and "sw_id s \<noteq> []"
  shows "\<exists>k env a. ub_signed_manifest b = Some env \<and> k \<in> set (active_keys d (sw_id s)) \<and>
    env_key_id env = sk_key_id k \<and>
    verify_ota_release_signature cr (env_payload env) (JStr (env_signature env)) (sk_public_key k) \<and>
    a \<in> set (public_query d (Some (sw_id s))) \<and> ub_download_url b = url (download_path (art_id a) slug) \<and>
    create_ota_release_payload (load_release d a) = Inr (env_payload env)"
proof -
  have "release_inv cr d0" using assms(2,3) by (simp add: release_inv_def signature_ok_def)
  then have inv: "release_inv cr d" using reachable_inv [OF assms(1)] by blast
  then have ok: "db_ok d" by (simp add: release_inv_def)
  obtain c version cur s0 a v where s0: "release_context inp = Some c" "read_text (js_prop inp ''version'') True = JStr version"
      "sv_parse lib version = Some cur" "resolve_software d slug = Inr s0"
    and a: "offered d s0 (rc_platform c) (rc_arch c) (rc_channel c) a v"
    "ub_download_url b = url (download_path (art_id a) slug)"
    "create_ota_signature_envelope (load_release d a) = Inr (ub_signed_manifest b)"
    by (rule announced_release [OF ok assms(4)])
  have "s0 = s" using s0(4) assms(5) by simp
  note a = a [unfolded this]
  have pub: "a \<in> set (public_query d (Some (sw_id s)))" using a(1) by (simp add: offered_def)
  then have "public_artifact d (Some (sw_id s)) a" by simp
  then obtain v' s' where s': "rel_software (load_release d a) = Some s'" "rel_version (load_release d a) = Some v'"
    and sid: "\<forall>i. Some (sw_id s) = Some i \<longrightarrow> i \<noteq> [] \<longrightarrow> sw_id s' = i"
    by (rule public_relations [OF ok]) blast
  have "s' = s"
    using s'(1) resolve_software_Inr(1) [OF assms(5)] software_unique [OF ok, of s' s] sid assms(7)
    by (auto simp: load_release_def Let_def dest!: find_by_Some split: option.splits)
  then show ?thesis using visible_release_signed [OF inv pub s'(1)] assms(6) a(2,3) pub by auto
qed

lemma announced_update_verifies_witness:
  "\<exists>b k env. api_check toy_semver (\<lambda>p. p) sample_db sample_request None = Inr (Update_Found b) \<and>
     ub_signed_manifest b = Some env \<and>
     verify_ota_release_signature toy_crypto (env_payload env) (JStr (env_signature env)) (sk_public_key (k :: signing_key_row))"
proof -
  have "resolve_software sample_db None = Inr sample_software" by code_simp
  from announced_update_verifies [OF sample_reachable unsigned_db_ok unsigned_manifests sample_api_check this sample_requires]
  show ?thesis using sample_api_check by blast
qed

end
