(* ===== verification/Storage_Config.thy ===== *)
theory Storage_Config
  imports Local_Storage "HOL-Library.Multiset"
begin

text \<open>
  \<open>app/services/storage/s3_compatible_config.ts\<close>, \<open>storage_manager.ts\<close> and
  \<open>providers/s3_compatible_provider.ts\<close>: how the stored configuration of a provider is validated and
  normalised, which backend it resolves to, and the cache of S3 clients. The parser of \<open>new URL\<close> and
  the S3 SDK are parameters.
\<close>

section \<open>URLs\<close>

text \<open>
  A parsed URL. \<open>search\<close> and \<open>hash\<close> are empty both when the part is missing and when it is empty, but
  only a missing one prints nothing.
\<close>

record url =
  url_protocol :: string
  url_username :: string
  url_password :: string
  url_host :: string
  url_pathname :: string
  url_query :: "string option"
  url_fragment :: "string option"

definition url_search :: "url \<Rightarrow> string" where
  "url_search u = (case url_query u of None \<Rightarrow> [] | Some q \<Rightarrow> if q = [] then [] else CHR ''?'' # q)"

definition url_hash :: "url \<Rightarrow> string" where
  "url_hash u = (case url_fragment u of None \<Rightarrow> [] | Some f \<Rightarrow> if f = [] then [] else CHR ''#'' # f)"

text \<open>\<open>toString\<close> of a URL without credentials.\<close>

definition url_text :: "url \<Rightarrow> string" where
  "url_text u = url_protocol u @ ''//'' @ url_host u @ url_pathname u @
     (case url_query u of None \<Rightarrow> [] | Some q \<Rightarrow> CHR ''?'' # q) @
     (case url_fragment u of None \<Rightarrow> [] | Some f \<Rightarrow> CHR ''#'' # f)"

definition strip_slashes :: "string \<Rightarrow> string" where
  "strip_slashes s = rev (dropWhile (\<lambda>c. c = CHR ''/'') (rev s))"

text \<open>\<open>.replace(/\/$/, '')\<close>\<close>

definition strip_slash :: "string \<Rightarrow> string" where
  "strip_slash s = (if s \<noteq> [] \<and> last s = CHR ''/'' then butlast s else s)"

text \<open>\<open>endpoint.pathname = endpoint.pathname.replace(/\/+$/, '')\<close>: an HTTP URL always has a path.\<close>

definition trim_path :: "url \<Rightarrow> url" where
  "trim_path u = u\<lparr>url_pathname := (let p = strip_slashes (url_pathname u) in if p = [] then ''/'' else p)\<rparr>"

section \<open>Normalisation\<close>

type_synonym props = "(string \<times> jsval) list"

text \<open>\<open>asRecord\<close> and \<open>asConfig\<close> differ only in their message.\<close>

definition as_record :: "string \<Rightarrow> jsval \<Rightarrow> props res" where
  "as_record message v = (case v of JObj ps \<Rightarrow> Inr ps | _ \<Rightarrow> Inl (Error message))"

definition as_optional_string :: "jsval \<Rightarrow> string \<Rightarrow> string option res" where
  "as_optional_string v name =
     (if js_absent v then Inr None
      else (case v of
          JStr s \<Rightarrow> if trim s = [] then Inl (Error (name @ '' must be a non-empty string when configured.''))
            else Inr (Some (trim s))
        | _ \<Rightarrow> Inl (Error (name @ '' must be a non-empty string when configured.''))))"

definition as_positive_integer :: "jsval \<Rightarrow> int \<Rightarrow> string \<Rightarrow> int \<Rightarrow> int res" where
  "as_positive_integer v fallback name upper =
     (if js_absent v then Inr fallback
      else (case js_integer (JNum (to_number v)) of
          Some n \<Rightarrow> if 1 \<le> n \<and> n \<le> upper then Inr n
            else Inl (Error (name @ '' must be an integer between 1 and '' @ int_text upper @ ''.''))
        | None \<Rightarrow> Inl (Error (name @ '' must be an integer between 1 and '' @ int_text upper @ ''.''))))"

text \<open>\<open>/^[a-z][a-z\d+.-]*:\/\//i\<close>\<close>

definition scheme_char :: "char \<Rightarrow> bool" where
  "scheme_char c \<longleftrightarrow> is_alnum c \<or> c \<in> set ''+.-''"

definition has_scheme :: "string \<Rightarrow> bool" where
  "has_scheme s \<longleftrightarrow> s \<noteq> [] \<and> (is_lower (hd s) \<or> is_upper (hd s)) \<and>
     starts_with (dropWhile scheme_char s) ''://''"

definition legacy_driver :: "string \<Rightarrow> bool" where
  "legacy_driver driver \<longleftrightarrow> driver = ''minio'' \<or> driver = ''seaweedfs''"

definition js_true :: "jsval \<Rightarrow> bool" where
  "js_true v \<longleftrightarrow> v = JBool True \<or> v = JStr ''true''"

text \<open>
  \<open>String(port)\<close> where it is an acceptable port, \<^const>\<open>None\<close> where there is none; \<open>0\<close> prints as a
  text, so it is rejected. The digits may have leading zeros.
\<close>

definition endpoint_port :: "jsval \<Rightarrow> string option res" where
  "endpoint_port v =
     (if (case v of JNum _ \<Rightarrow> False | JStr s \<Rightarrow> s = [] | _ \<Rightarrow> True) then Inr None
      else (case digits_text v of
          None \<Rightarrow> Inl (Error ''Storage endpoint port must be an integer between 1 and 65535.'')
        | Some t \<Rightarrow> if undec t < 1 \<or> 65535 < undec t
            then Inl (Error ''Storage endpoint port must be an integer between 1 and 65535.'') else Inr (Some t)))"

definition legacy_endpoint :: "string \<Rightarrow> props \<Rightarrow> string \<Rightarrow> string res" where
  "legacy_endpoint driver ps s =
     (if legacy_driver driver \<and> \<not> has_scheme s then
        bind_res (endpoint_port (js_prop ps ''port'')) (\<lambda>port.
        Inr ((if js_true (js_prop ps ''useSSL'') then ''https'' else ''http'') @ ''://'' @ s @
             (case port of None \<Rightarrow> [] | Some p \<Rightarrow> CHR '':'' # p)))
      else Inr s)"

definition normalize_endpoint ::
  "(string \<Rightarrow> url option) \<Rightarrow> string \<Rightarrow> props \<Rightarrow> string option \<Rightarrow> string option res" where
  "normalize_endpoint parse_url driver ps v =
     (case v of
        None \<Rightarrow> Inr None
      | Some s \<Rightarrow>
          bind_res (legacy_endpoint driver ps s) (\<lambda>text.
          bind_res (from_option (Error ''S3_ENDPOINT must be a valid HTTP or HTTPS URL.'') (parse_url text)) (\<lambda>u.
          throw_if (url_protocol u \<notin> {''http:'', ''https:''} \<or> url_username u \<noteq> [] \<or> url_password u \<noteq> [] \<or>
              url_search u \<noteq> [] \<or> url_hash u \<noteq> [])
            (Error ''S3_ENDPOINT must use HTTP or HTTPS without credentials, query, or fragment.'')
            (Inr (Some (strip_slash (url_text (trim_path u))))))))"

definition parse_path_style :: "jsval \<Rightarrow> string option \<Rightarrow> string \<Rightarrow> bool res" where
  "parse_path_style v endpoint driver =
     (if js_true v then Inr True
      else if v = JBool False \<or> v = JStr ''false'' then Inr False
      else if js_absent v \<or> v = JStr ''auto'' then Inr (legacy_driver driver \<or> endpoint \<noteq> None)
      else Inl (Error ''S3_FORCE_PATH_STYLE must be one of auto, true, or false.''))"

record s3_config =
  s3_bucket :: string
  s3_region :: string
  s3_endpoint :: "string option"
  s3_access_key_id :: "string option"
  s3_secret_access_key :: "string option"
  s3_session_token :: "string option"
  s3_force_path_style :: bool
  s3_max_attempts :: int
  s3_connection_timeout_ms :: int
  s3_socket_timeout_ms :: int
  s3_download_url_ttl_seconds :: int

definition valid_bucket :: "string option \<Rightarrow> bool" where
  "valid_bucket b = (case b of None \<Rightarrow> False | Some s \<Rightarrow>
     s \<noteq> [] \<and> CHR ''/'' \<notin> set s \<and> CHR 0x5C \<notin> set s \<and> \<not> list_ex is_space s)"

definition normalize_s3_compatible_config ::
  "(string \<Rightarrow> url option) \<Rightarrow> jsval \<Rightarrow> string \<Rightarrow> s3_config res" where
  "normalize_s3_compatible_config parse_url input driver =
     bind_res (as_record ''S3 storage configuration must be an object.'' input) (\<lambda>ps.
     bind_res (as_optional_string (js_prop ps ''bucket'') ''S3_BUCKET'') (\<lambda>bucket.
     throw_if (\<not> valid_bucket bucket)
       (Error ''S3_BUCKET is required and cannot contain path separators or whitespace.'')
     (bind_res (as_optional_string (js_prop ps ''endpoint'') ''S3_ENDPOINT'') (\<lambda>endpoint_value.
      bind_res (normalize_endpoint parse_url driver ps endpoint_value) (\<lambda>endpoint.
      bind_res (as_optional_string (js_nullish (js_prop ps ''accessKeyId'') (js_prop ps ''accessKey'')) ''S3_ACCESS_KEY_ID'') (\<lambda>access.
      bind_res (as_optional_string (js_nullish (js_prop ps ''secretAccessKey'') (js_prop ps ''secretKey'')) ''S3_SECRET_ACCESS_KEY'') (\<lambda>secret.
      bind_res (as_optional_string (js_prop ps ''sessionToken'') ''S3_SESSION_TOKEN'') (\<lambda>token.
      throw_if ((access = None) \<noteq> (secret = None))
        (Error ''S3_ACCESS_KEY_ID and S3_SECRET_ACCESS_KEY must be configured together.'')
      (throw_if (token \<noteq> None \<and> access = None)
        (Error ''S3_SESSION_TOKEN requires S3_ACCESS_KEY_ID and S3_SECRET_ACCESS_KEY.'')
      (bind_res (as_optional_string (js_prop ps ''region'') ''S3_REGION'') (\<lambda>region.
       bind_res (as_positive_integer (js_prop ps ''maxAttempts'') 3 ''S3_MAX_ATTEMPTS'' 10) (\<lambda>attempts.
       bind_res (as_positive_integer (js_prop ps ''connectionTimeoutMs'') 10000 ''S3_CONNECTION_TIMEOUT_MS'' 120000) (\<lambda>connection.
       bind_res (as_positive_integer (js_prop ps ''socketTimeoutMs'') 120000 ''S3_SOCKET_TIMEOUT_MS'' 600000) (\<lambda>socket.
       bind_res (as_positive_integer (js_prop ps ''downloadUrlTtlSeconds'') 3600 ''S3_DOWNLOAD_URL_TTL_SECONDS'' 604800) (\<lambda>ttl.
       bind_res (parse_path_style (js_prop ps ''forcePathStyle'') endpoint driver) (\<lambda>path_style.
       Inr \<lparr> s3_bucket = the bucket, s3_region = (case region of None \<Rightarrow> ''us-east-1'' | Some r \<Rightarrow> r),
             s3_endpoint = endpoint, s3_access_key_id = access, s3_secret_access_key = secret,
             s3_session_token = token, s3_force_path_style = path_style, s3_max_attempts = attempts,
             s3_connection_timeout_ms = connection, s3_socket_timeout_ms = socket,
             s3_download_url_ttl_seconds = ttl \<rparr>))))))))))))))))"

text \<open>The returned object as a JavaScript value; an absent part is a property with value \<open>undefined\<close>.\<close>

definition opt_str :: "string option \<Rightarrow> jsval" where
  "opt_str x = (case x of None \<Rightarrow> JUndef | Some s \<Rightarrow> JStr s)"

definition js_int :: "int \<Rightarrow> jsval" where
  "js_int n = JNum (Fin (of_int n))"

definition s3_props :: "s3_config \<Rightarrow> props" where
  "s3_props c =
     [(''bucket'', JStr (s3_bucket c)), (''region'', JStr (s3_region c)), (''endpoint'', opt_str (s3_endpoint c)),
      (''accessKeyId'', opt_str (s3_access_key_id c)), (''secretAccessKey'', opt_str (s3_secret_access_key c)),
      (''sessionToken'', opt_str (s3_session_token c)), (''forcePathStyle'', JBool (s3_force_path_style c)),
      (''maxAttempts'', js_int (s3_max_attempts c)), (''connectionTimeoutMs'', js_int (s3_connection_timeout_ms c)),
      (''socketTimeoutMs'', js_int (s3_socket_timeout_ms c)),
      (''downloadUrlTtlSeconds'', js_int (s3_download_url_ttl_seconds c))]"

section \<open>Resolving a provider\<close>

definition s3_drivers :: "string list" where
  "s3_drivers = [''s3'', ''minio'', ''seaweedfs'', ''oci'', ''r2'']"

text \<open>\<open>configuredDriver\<close> if it is a text with more than blanks, otherwise the type of the provider.\<close>

definition driver_name :: "jsval \<Rightarrow> string \<Rightarrow> string" where
  "driver_name configured sp_type' =
     (case configured of
        JStr s \<Rightarrow> if trim s \<noteq> [] then lowercase (trim s) else lowercase sp_type'
      | _ \<Rightarrow> lowercase sp_type')"

text \<open>
  What \<open>resolve\<close> constructs: a local provider on a root path, or an S3 provider, whose constructor
  normalises the configuration it was given once more.
\<close>

datatype backend = Local_Backend "string list" | S3_Backend s3_config

definition new_s3_provider :: "(string \<Rightarrow> url option) \<Rightarrow> jsval \<Rightarrow> s3_config res" where
  "new_s3_provider parse_url config = normalize_s3_compatible_config parse_url config ''s3''"

definition resolve_backend ::
  "(string \<Rightarrow> url option) \<Rightarrow> string list \<Rightarrow> jsval \<Rightarrow> string \<Rightarrow> backend res" where
  "resolve_backend parse_url cwd config sp_type' =
     bind_res (as_record ''Storage provider configuration must be an object.'' config) (\<lambda>ps.
     let driver = driver_name (js_prop ps ''driver'') sp_type' in
     if driver = ''local'' then bind_res (root_path cwd (js_prop ps ''root'')) (\<lambda>r. Inr (Local_Backend r))
     else if driver \<in> set s3_drivers then
       bind_res (normalize_s3_compatible_config parse_url config driver) (\<lambda>c.
       bind_res (new_s3_provider parse_url (JObj (s3_props c))) (\<lambda>c'. Inr (S3_Backend c')))
     else Inl (Error (''Unsupported storage provider driver: '' @ driver)))"

section \<open>Clients\<close>

text \<open>
  \<open>getS3Client\<close>: a map from fingerprints to clients in the order of insertion, and the clients that
  were destroyed. A client is the number of its creation; \<open>fingerprint\<close> is the SHA-256 of the
  configuration as JSON.
\<close>

record client_cache =
  cc_clients :: "(string \<times> nat) list"
  cc_next :: nat
  cc_destroyed :: "nat list"

definition max_cached_clients :: nat where
  "max_cached_clients = 32"

definition get_s3_client :: "string \<Rightarrow> client_cache \<Rightarrow> nat \<times> client_cache" where
  "get_s3_client fingerprint m =
     (case map_of (cc_clients m) fingerprint of
        Some c \<Rightarrow> (c, m\<lparr>cc_clients := filter (\<lambda>(f, _). f \<noteq> fingerprint) (cc_clients m) @ [(fingerprint, c)]\<rparr>)
      | None \<Rightarrow>
          (let c = cc_next m; clients = cc_clients m @ [(fingerprint, c)] in
           (c, if length clients \<le> max_cached_clients then m\<lparr>cc_clients := clients, cc_next := c + 1\<rparr>
               else m\<lparr>cc_clients := tl clients, cc_next := c + 1,
                      cc_destroyed := cc_destroyed m @ [snd (hd clients)]\<rparr>)))"

definition shutdown_s3_compatible_clients :: "client_cache \<Rightarrow> client_cache" where
  "shutdown_s3_compatible_clients m = m\<lparr>cc_clients := [], cc_destroyed := cc_destroyed m @ map snd (cc_clients m)\<rparr>"

text \<open>
  The operations of the provider: one command to the object store each. \<open>send\<close> is the SDK; a command
  names the bucket and the key.
\<close>

datatype s3_command = Put_Object string string "bytes res" | Get_Object string string | Delete_Object string string

datatype s3_answer = S3_Done | S3_Body bytes | S3_No_Body

definition s3_storage :: "(s3_command \<Rightarrow> 's \<Rightarrow> s3_answer res \<times> 's) \<Rightarrow> s3_config \<Rightarrow> 's storage" where
  "s3_storage send c = \<lparr>
     so_upload = (\<lambda>key body s.
       (case send (Put_Object (s3_bucket c) key body) s of (Inl e, s') \<Rightarrow> (Inl e, s') | (Inr _, s') \<Rightarrow> (Inr key, s'))),
     so_get = (\<lambda>key s.
       (case fst (send (Get_Object (s3_bucket c) key) s) of
          Inl e \<Rightarrow> Inl e
        | Inr (S3_Body b) \<Rightarrow> Inr b
        | Inr _ \<Rightarrow> Inl (Error ''S3-compatible storage returned no readable object body.''))),
     so_delete = (\<lambda>key s.
       (case send (Delete_Object (s3_bucket c) key) s of (Inl e, s') \<Rightarrow> (Inl e, s') | (Inr _, s') \<Rightarrow> (Inr (), s'))) \<rparr>"

text \<open>\<open>getSignedUrl\<close> presigns the same request for the configured time.\<close>

definition s3_download_url :: "(s3_command \<Rightarrow> int \<Rightarrow> string res) \<Rightarrow> s3_config \<Rightarrow> string \<Rightarrow> string res" where
  "s3_download_url presign c key = presign (Get_Object (s3_bucket c) key) (s3_download_url_ttl_seconds c)"

section \<open>Normalised configurations\<close>

text \<open>
  The behaviour of \<open>new URL\<close> the code relies on: an HTTP URL without credentials, query and fragment
  prints without blanks and reads back as itself, also without the slash of an empty path.
\<close>

definition plain_http :: "url \<Rightarrow> bool" where
  "plain_http u \<longleftrightarrow> url_protocol u \<in> {''http:'', ''https:''} \<and> url_username u = [] \<and> url_password u = [] \<and>
     url_search u = [] \<and> url_hash u = []"

definition url_ok :: "(string \<Rightarrow> url option) \<Rightarrow> bool" where
  "url_ok parse_url \<longleftrightarrow> (\<forall>s u. parse_url s = Some u \<longrightarrow> plain_http u \<longrightarrow>
     list_all (\<lambda>c. \<not> is_space c) (url_text (trim_path u)) \<and>
     parse_url (strip_slash (url_text (trim_path u))) = Some (trim_path u))"

definition normal_text :: "string option \<Rightarrow> bool" where
  "normal_text x = (case x of None \<Rightarrow> True | Some s \<Rightarrow> s \<noteq> [] \<and> trim s = s)"

definition normal_endpoint :: "(string \<Rightarrow> url option) \<Rightarrow> string option \<Rightarrow> bool" where
  "normal_endpoint parse_url e = (case e of None \<Rightarrow> True | Some s \<Rightarrow>
     (\<exists>u. parse_url s = Some u \<and> plain_http u \<and> trim_path u = u \<and> s = strip_slash (url_text u) \<and>
        list_all (\<lambda>c. \<not> is_space c) (url_text u)))"

definition normal_config :: "(string \<Rightarrow> url option) \<Rightarrow> s3_config \<Rightarrow> bool" where
  "normal_config parse_url c \<longleftrightarrow>
     valid_bucket (Some (s3_bucket c)) \<and> normal_text (Some (s3_bucket c)) \<and> normal_text (Some (s3_region c)) \<and>
     normal_endpoint parse_url (s3_endpoint c) \<and> normal_text (s3_access_key_id c) \<and>
     normal_text (s3_secret_access_key c) \<and> normal_text (s3_session_token c) \<and>
     (s3_access_key_id c = None) = (s3_secret_access_key c = None) \<and>
     (s3_session_token c \<noteq> None \<longrightarrow> s3_access_key_id c \<noteq> None) \<and>
     s3_max_attempts c \<in> {1..10} \<and> s3_connection_timeout_ms c \<in> {1..120000} \<and>
     s3_socket_timeout_ms c \<in> {1..600000} \<and> s3_download_url_ttl_seconds c \<in> {1..604800}"

lemma optional_string_normal: "as_optional_string v name = Inr x \<Longrightarrow> normal_text x"
  by (auto simp: as_optional_string_def normal_text_def split: if_splits jsval.splits)

lemma optional_string_id: "normal_text x \<Longrightarrow> as_optional_string (opt_str x) name = Inr x"
  by (cases x) (auto simp: as_optional_string_def normal_text_def opt_str_def js_absent_def)

lemma positive_integer_bounds: "as_positive_integer v f name n = Inr k \<Longrightarrow> f \<in> {1..n} \<Longrightarrow> k \<in> {1..n}"
  by (auto simp: as_positive_integer_def split: if_splits option.splits)

lemma positive_integer_id: "k \<in> {1..n} \<Longrightarrow> as_positive_integer (js_int k) f name n = Inr k"
  by (simp add: as_positive_integer_def js_int_def js_absent_def)

lemma trim_path_idem [simp]: "trim_path (trim_path u) = trim_path u"
proof -
  have "strip_slashes (strip_slashes s) = strip_slashes s" for s by (simp add: strip_slashes_def)
  moreover have "strip_slashes ''/'' = []" by (simp add: strip_slashes_def)
  ultimately show ?thesis by (simp add: trim_path_def Let_def)
qed

lemma plain_http_trim [simp]: "plain_http (trim_path u) = plain_http u"
  by (simp add: plain_http_def trim_path_def url_search_def url_hash_def Let_def)

lemma normalize_endpoint_normal:
  assumes "url_ok parse_url" "normalize_endpoint parse_url driver ps v = Inr e"
  shows "normal_endpoint parse_url e"
proof (cases v)
  case None
  then show ?thesis using assms(2) by (simp add: normalize_endpoint_def normal_endpoint_def)
next
  case (Some s)
  then obtain t u where "parse_url t = Some u" "plain_http u" "e = Some (strip_slash (url_text (trim_path u)))"
    using assms(2) by (auto simp: normalize_endpoint_def bind_res_Inr throw_if_Inr from_option_Inr plain_http_def)
  then show ?thesis using assms(1) by (auto simp: url_ok_def normal_endpoint_def)
qed

lemma normalized_normal:
  assumes "url_ok parse_url" "normalize_s3_compatible_config parse_url input driver = Inr c"
  shows "normal_config parse_url c"
proof -
  from assms(2) obtain ps bucket ev endpoint access secret token region a t1 t2 ttl style where
    b: "as_optional_string (js_prop ps ''bucket'') ''S3_BUCKET'' = Inr bucket" "valid_bucket bucket"
    and e: "normalize_endpoint parse_url driver ps ev = Inr endpoint"
    and k: "as_optional_string (js_nullish (js_prop ps ''accessKeyId'') (js_prop ps ''accessKey'')) ''S3_ACCESS_KEY_ID'' = Inr access"
      "as_optional_string (js_nullish (js_prop ps ''secretAccessKey'') (js_prop ps ''secretKey'')) ''S3_SECRET_ACCESS_KEY'' = Inr secret"
      "as_optional_string (js_prop ps ''sessionToken'') ''S3_SESSION_TOKEN'' = Inr token"
      "(access = None) = (secret = None)" "token \<noteq> None \<longrightarrow> access \<noteq> None"
    and r: "as_optional_string (js_prop ps ''region'') ''S3_REGION'' = Inr region"
    and n: "as_positive_integer (js_prop ps ''maxAttempts'') 3 ''S3_MAX_ATTEMPTS'' 10 = Inr a"
      "as_positive_integer (js_prop ps ''connectionTimeoutMs'') 10000 ''S3_CONNECTION_TIMEOUT_MS'' 120000 = Inr t1"
      "as_positive_integer (js_prop ps ''socketTimeoutMs'') 120000 ''S3_SOCKET_TIMEOUT_MS'' 600000 = Inr t2"
      "as_positive_integer (js_prop ps ''downloadUrlTtlSeconds'') 3600 ''S3_DOWNLOAD_URL_TTL_SECONDS'' 604800 = Inr ttl"
    and c: "c = \<lparr> s3_bucket = the bucket, s3_region = (case region of None \<Rightarrow> ''us-east-1'' | Some r \<Rightarrow> r),
             s3_endpoint = endpoint, s3_access_key_id = access, s3_secret_access_key = secret,
             s3_session_token = token, s3_force_path_style = style, s3_max_attempts = a,
             s3_connection_timeout_ms = t1, s3_socket_timeout_ms = t2, s3_download_url_ttl_seconds = ttl \<rparr>"
    unfolding normalize_s3_compatible_config_def bind_res_Inr throw_if_Inr by blast
  have "bucket = Some (the bucket)" using b(2) by (auto simp: valid_bucket_def split: option.splits)
  moreover have "trim ''us-east-1'' = ''us-east-1''" by code_simp
  then have "normal_text (Some (s3_region c))" using optional_string_normal [OF r] by (auto simp: c normal_text_def split: option.splits)
  moreover have "a \<in> {1..10}" "t1 \<in> {1..120000}" "t2 \<in> {1..600000}" "ttl \<in> {1..604800}"
    using positive_integer_bounds [OF n(1)] positive_integer_bounds [OF n(2)] positive_integer_bounds [OF n(3)]
      positive_integer_bounds [OF n(4)] by simp_all
  ultimately show ?thesis
    using b(2) k(4,5) normalize_endpoint_normal [OF assms(1) e] optional_string_normal [OF b(1)]
      optional_string_normal [OF k(1)] optional_string_normal [OF k(2)] optional_string_normal [OF k(3)]
    by (simp add: normal_config_def c)
qed

lemma has_scheme_http:
  assumes "plain_http u" "url_pathname u \<noteq> []"
  shows "has_scheme (strip_slash (url_text u))"
proof -
  have p: "url_protocol u \<in> {''http:'', ''https:''}" using assms(1) by (simp add: plain_http_def)
  obtain t where t: "url_text u = url_protocol u @ ''//'' @ t" "t \<noteq> []" using assms(2) by (simp add: url_text_def)
  have "strip_slash (p @ t) = p @ strip_slash t" if "t \<noteq> []" for p t
    using that by (simp add: strip_slash_def butlast_append)
  then have "strip_slash (url_text u) = url_protocol u @ ''//'' @ strip_slash t" using t by (metis append.assoc)
  moreover have "scheme_char (CHR ''h'')" "scheme_char (CHR ''t'')" "scheme_char (CHR ''p'')" "scheme_char (CHR ''s'')"
    "\<not> scheme_char (CHR '':'')" "is_lower (CHR ''h'')" by code_simp+
  ultimately show ?thesis using p by (auto simp: has_scheme_def starts_with_def)
qed

lemma trimmed_path_nonempty: "trim_path u = u \<Longrightarrow> url_pathname u \<noteq> []"
proof -
  have "url_pathname (trim_path u) \<noteq> []" by (simp add: trim_path_def Let_def)
  moreover assume "trim_path u = u"
  ultimately show "url_pathname u \<noteq> []" by simp
qed

lemma normalize_endpoint_id:
  assumes "normal_endpoint parse_url e"
  shows "normalize_endpoint parse_url driver ps e = Inr e"
proof (cases e)
  case (Some s)
  then obtain u where u: "parse_url s = Some u" "plain_http u" "trim_path u = u" "s = strip_slash (url_text u)"
    using assms by (auto simp: normal_endpoint_def)
  have "has_scheme s" unfolding u(4) by (rule has_scheme_http [OF u(2) trimmed_path_nonempty [OF u(3)]])
  then have "legacy_endpoint driver ps s = Inr s" by (simp add: legacy_endpoint_def)
  moreover have "throw_if (url_protocol u \<notin> {''http:'', ''https:''} \<or> url_username u \<noteq> [] \<or> url_password u \<noteq> [] \<or>
      url_search u \<noteq> [] \<or> url_hash u \<noteq> []) x r = r" for x and r :: "string option res"
    using u(2) unfolding plain_http_def throw_if_def by auto
  ultimately show ?thesis
    unfolding normalize_endpoint_def Some option.case using u(1) by (simp only: bind_res.simps from_option_simps u(3,4))
qed (simp add: normalize_endpoint_def)

lemma normal_endpoint_text: "normal_endpoint parse_url e \<Longrightarrow> normal_text e"
proof (cases e)
  case (Some s)
  assume "normal_endpoint parse_url e"
  then obtain u where u: "plain_http u" "trim_path u = u" "s = strip_slash (url_text u)" "list_all (\<lambda>c. \<not> is_space c) (url_text u)"
    using Some by (auto simp: normal_endpoint_def)
  have "has_scheme s" unfolding u(3) by (rule has_scheme_http [OF u(1) trimmed_path_nonempty [OF u(2)]])
  then have "s \<noteq> []" by (simp add: has_scheme_def)
  moreover have "list_all (\<lambda>c. \<not> is_space c) s"
    using u(4) by (auto simp: u(3) strip_slash_def list_all_iff dest: in_set_butlastD)
  ultimately show ?thesis using Some by (simp add: normal_text_def trim_no_space)
qed (simp add: normal_text_def)

text \<open>The properties of an object that the normalisation reads, as the normal configuration has them.\<close>

definition denotes :: "props \<Rightarrow> s3_config \<Rightarrow> bool" where
  "denotes ps c \<longleftrightarrow> list_all (\<lambda>k. js_prop ps k = js_prop (s3_props c) k)
     [''bucket'', ''region'', ''endpoint'', ''accessKeyId'', ''secretAccessKey'', ''sessionToken'', ''forcePathStyle'',
      ''maxAttempts'', ''connectionTimeoutMs'', ''socketTimeoutMs'', ''downloadUrlTtlSeconds'', ''accessKey'', ''secretKey'']"

lemma denotes_props:
  assumes "denotes ps c"
  shows "js_prop ps ''bucket'' = JStr (s3_bucket c)" "js_prop ps ''region'' = JStr (s3_region c)"
    "js_prop ps ''endpoint'' = opt_str (s3_endpoint c)" "js_prop ps ''accessKeyId'' = opt_str (s3_access_key_id c)"
    "js_prop ps ''secretAccessKey'' = opt_str (s3_secret_access_key c)" "js_prop ps ''sessionToken'' = opt_str (s3_session_token c)"
    "js_prop ps ''forcePathStyle'' = JBool (s3_force_path_style c)" "js_prop ps ''maxAttempts'' = js_int (s3_max_attempts c)"
    "js_prop ps ''connectionTimeoutMs'' = js_int (s3_connection_timeout_ms c)"
    "js_prop ps ''socketTimeoutMs'' = js_int (s3_socket_timeout_ms c)"
    "js_prop ps ''downloadUrlTtlSeconds'' = js_int (s3_download_url_ttl_seconds c)"
    "js_prop ps ''accessKey'' = JUndef" "js_prop ps ''secretKey'' = JUndef"
  using assms by (simp_all add: denotes_def s3_props_def js_prop_def)

lemma normalize_normal:
  assumes "normal_config parse_url c" "denotes ps c"
  shows "normalize_s3_compatible_config parse_url (JObj ps) driver = Inr c"
proof -
  have n: "js_nullish (opt_str x) JUndef = opt_str x" for x by (cases x) (simp_all add: js_nullish_def opt_str_def)
  have some: "as_optional_string (JStr s) name = Inr (Some s)" if "normal_text (Some s)" for s name
    using optional_string_id [OF that] by (simp add: opt_str_def)
  have style: "parse_path_style (JBool b) e driver = Inr b" for b e by (cases b) (simp_all add: parse_path_style_def js_true_def)
  have c: "valid_bucket (Some (s3_bucket c))" "normal_text (Some (s3_bucket c))" "normal_text (Some (s3_region c))"
    "normal_endpoint parse_url (s3_endpoint c)" "normal_text (s3_access_key_id c)"
    "normal_text (s3_secret_access_key c)" "normal_text (s3_session_token c)"
    "((s3_access_key_id c = None) \<noteq> (s3_secret_access_key c = None)) = False"
    "(s3_session_token c \<noteq> None \<and> s3_access_key_id c = None) = False"
    "s3_max_attempts c \<in> {1..10}" "s3_connection_timeout_ms c \<in> {1..120000}"
    "s3_socket_timeout_ms c \<in> {1..600000}" "s3_download_url_ttl_seconds c \<in> {1..604800}"
    using assms(1) unfolding normal_config_def by blast+
  show ?thesis
    unfolding normalize_s3_compatible_config_def as_record_def jsval.case bind_res.simps denotes_props [OF assms(2)] n
      some [OF c(2)] some [OF c(3)] optional_string_id [OF normal_endpoint_text [OF c(4)]] normalize_endpoint_id [OF c(4)]
      optional_string_id [OF c(5)] optional_string_id [OF c(6)] optional_string_id [OF c(7)] c(8,9)
      positive_integer_id [OF c(10)] positive_integer_id [OF c(11)] positive_integer_id [OF c(12)]
      positive_integer_id [OF c(13)] style throw_if_simps
    using c(1) by simp
qed

lemma denotes_s3_props: "denotes (s3_props c) c"
  by (simp add: denotes_def)

section \<open>Properties of the configuration\<close>

text \<open>
  Normalising a second time changes nothing: the S3 provider that a stored configuration resolves to
  works with exactly the configuration its driver normalises to, whatever legacy form it was stored
  in, although the constructor normalises again under another driver. What it works with is within
  the documented bounds, has a bucket without separators or blanks, and credentials that are
  complete or absent.
\<close>

theorem resolved_once:
  assumes "url_ok parse_url"
  shows "resolve_backend parse_url cwd config sp_type' =
      bind_res (as_record ''Storage provider configuration must be an object.'' config) (\<lambda>ps.
      let driver = driver_name (js_prop ps ''driver'') sp_type' in
      if driver = ''local'' then bind_res (root_path cwd (js_prop ps ''root'')) (\<lambda>r. Inr (Local_Backend r))
      else if driver \<in> set s3_drivers then
        bind_res (normalize_s3_compatible_config parse_url config driver) (\<lambda>c. Inr (S3_Backend c))
      else Inl (Error (''Unsupported storage provider driver: '' @ driver))) \<and>
    (\<forall>c. resolve_backend parse_url cwd config sp_type' = Inr (S3_Backend c) \<longrightarrow>
       normal_config parse_url c \<and> (\<forall>driver. normalize_s3_compatible_config parse_url (JObj (s3_props c)) driver = Inr c))"
proof -
  have again: "normalize_s3_compatible_config parse_url (JObj (s3_props c)) driver' = Inr c \<and> normal_config parse_url c"
    if "normalize_s3_compatible_config parse_url v driver = Inr c" for v driver c driver'
    using normalize_normal [OF normalized_normal [OF assms that] denotes_s3_props] normalized_normal [OF assms that] by simp
  have step: "bind_res (normalize_s3_compatible_config parse_url v driver) (\<lambda>c.
       bind_res (new_s3_provider parse_url (JObj (s3_props c))) (\<lambda>c'. Inr (S3_Backend c'))) =
      bind_res (normalize_s3_compatible_config parse_url v driver) (\<lambda>c. Inr (S3_Backend c))" for v driver
    by (rule bind_res_cong [OF refl]) (use again in \<open>simp add: new_s3_provider_def\<close>)
  show ?thesis
  proof (intro conjI allI impI)
    fix c assume "resolve_backend parse_url cwd config sp_type' = Inr (S3_Backend c)"
    then obtain driver where "normalize_s3_compatible_config parse_url config driver = Inr c"
      by (auto simp: resolve_backend_def step Let_def bind_res_Inr split: if_splits)
    then show "normal_config parse_url c"
      and "normalize_s3_compatible_config parse_url (JObj (s3_props c)) driver' = Inr c" for driver'
      using again by blast+
  qed (unfold resolve_backend_def step, rule refl)
qed

text \<open>A parser of the URLs \<open>http://host/path\<close> and \<open>https://host/path\<close>.\<close>

definition url_char :: "char \<Rightarrow> bool" where
  "url_char c \<longleftrightarrow> \<not> is_space c \<and> c \<notin> set ''?#@''"

definition toy_url :: "string \<Rightarrow> url option" where
  "toy_url s =
     (let proto = takeWhile (\<lambda>c. c \<noteq> CHR ''/'') s; rest = drop 2 (dropWhile (\<lambda>c. c \<noteq> CHR ''/'') s);
          host = takeWhile (\<lambda>c. c \<noteq> CHR ''/'') rest; path = dropWhile (\<lambda>c. c \<noteq> CHR ''/'') rest
      in if proto \<in> {''http:'', ''https:''} \<and> list_all url_char s
            \<and> take 2 (dropWhile (\<lambda>c. c \<noteq> CHR ''/'') s) = ''//'' \<and> host \<noteq> []
         then Some \<lparr> url_protocol = proto, url_username = [], url_password = [], url_host = host,
           url_pathname = (if path = [] then ''/'' else path), url_query = None, url_fragment = None \<rparr>
         else None)"

lemma url_char_slash: "url_char (CHR ''/'')"
  by code_simp

lemma toy_url_text:
  assumes "proto \<in> {''http:'', ''https:''}" "host \<noteq> []" "p = [] \<or> hd p = CHR ''/''"
    and "list_all (\<lambda>c. url_char c \<and> c \<noteq> CHR ''/'') host" "list_all url_char p"
  shows "toy_url (proto @ ''//'' @ host @ p) = Some \<lparr> url_protocol = proto, url_username = [], url_password = [],
     url_host = host, url_pathname = (if p = [] then ''/'' else p), url_query = None, url_fragment = None \<rparr>"
proof -
  let ?P = "\<lambda>c. c \<noteq> CHR ''/''"
  have "\<forall>proto\<in>{''http:'', ''https:''}. (\<forall>c\<in>set proto. ?P c) \<and> list_all url_char proto" by code_simp
  then have pr: "\<forall>c\<in>set proto. ?P c" "list_all url_char proto" using assms(1) by blast+
  have ho: "\<forall>c\<in>set host. ?P c" using assms(4) by (auto simp: list_all_iff)
  have "takeWhile ?P (proto @ ''//'' @ t) = proto" "dropWhile ?P (proto @ ''//'' @ t) = ''//'' @ t" for t
    using pr(1) by (simp_all add: takeWhile_append2 dropWhile_append2)
  moreover have "takeWhile ?P (host @ p) = host" "dropWhile ?P (host @ p) = p"
    using ho assms(3) by (cases p; simp add: takeWhile_append2 dropWhile_append2)+
  moreover have "list_all url_char (proto @ ''//'' @ host @ p)"
    using pr(2) assms(4,5) url_char_slash by (auto simp: list_all_iff)
  ultimately show ?thesis using assms(1,2) by (simp add: toy_url_def Let_def)
qed

lemma some_if: "(if P then Some r else None) = Some u \<Longrightarrow> P \<and> u = r"
  by (simp split: if_splits)

lemma toy_url_Some:
  assumes "toy_url s = Some u"
  obtains proto host p where "proto \<in> {''http:'', ''https:''}" "host \<noteq> []" "p \<noteq> []" "hd p = CHR ''/''"
    "list_all (\<lambda>c. url_char c \<and> c \<noteq> CHR ''/'') host" "list_all url_char p"
    "u = \<lparr> url_protocol = proto, url_username = [], url_password = [], url_host = host, url_pathname = p,
       url_query = None, url_fragment = None \<rparr>"
proof -
  let ?P = "\<lambda>c. c \<noteq> CHR ''/''"
  let ?rest = "drop 2 (dropWhile ?P s)"
  let ?host = "takeWhile ?P ?rest" and ?path = "dropWhile ?P ?rest"
  have s: "takeWhile ?P s \<in> {''http:'', ''https:''}" "list_all url_char s" "?host \<noteq> []"
    "u = \<lparr> url_protocol = takeWhile ?P s, url_username = [], url_password = [], url_host = ?host,
       url_pathname = (if ?path = [] then ''/'' else ?path), url_query = None, url_fragment = None \<rparr>"
    using some_if [OF assms [unfolded toy_url_def Let_def]] by blast+
  have rest: "list_all url_char ?rest"
    using s(2) by (auto simp: list_all_iff dest!: in_set_dropD set_dropWhileD)
  have h: "list_all (\<lambda>c. url_char c \<and> c \<noteq> CHR ''/'') ?host"
    using rest by (auto simp: list_all_iff dest!: set_takeWhileD)
  have p: "list_all url_char (if ?path = [] then ''/'' else ?path)"
  proof -
    have "list_all url_char ?path" using rest by (auto simp: list_all_iff dest: set_dropWhileD)
    then show ?thesis using url_char_slash by (cases "?path = []") (simp_all only: if_True if_False list.pred_inject simp_thms)
  qed
  have ne: "(if ?path = [] then ''/'' else ?path) \<noteq> []" by simp
  have hd: "hd (if ?path = [] then ''/'' else ?path) = CHR ''/''"
  proof (cases "?path = []")
    case False
    then show ?thesis using hd_dropWhile [of ?P ?rest] by (simp only: if_False not_not not_False_eq_True simp_thms)
  next
    case True
    show ?thesis unfolding True by simp
  qed
  show thesis by (rule that [OF s(1,3) ne hd h p s(4)])
qed

lemma toy_url_ok: "url_ok toy_url"
  unfolding url_ok_def
proof (intro allI impI)
  fix s u assume "toy_url s = Some u"
  then obtain proto host p where u: "proto \<in> {''http:'', ''https:''}" "host \<noteq> []" "p \<noteq> []" "hd p = CHR ''/''"
    "list_all (\<lambda>c. url_char c \<and> c \<noteq> CHR ''/'') host" "list_all url_char p"
    "u = \<lparr> url_protocol = proto, url_username = [], url_password = [], url_host = host, url_pathname = p,
       url_query = None, url_fragment = None \<rparr>" by (rule toy_url_Some)
  define q where "q = strip_slashes p"
  obtain w where w: "p = q @ w" "\<forall>c\<in>set w. c = CHR ''/''"
  proof -
    have "p = q @ rev (takeWhile (\<lambda>c. c = CHR ''/'') (rev p))"
      unfolding q_def strip_slashes_def by (metis rev_append rev_rev_ident takeWhile_dropWhile_id)
    then show thesis by (rule that) (auto dest: set_takeWhileD)
  qed
  have q: "list_all url_char q" "q = [] \<or> hd q = CHR ''/''"
    using u(4,6) w by (auto simp: hd_append split: if_splits)
  have lq: "q \<noteq> [] \<Longrightarrow> last q \<noteq> CHR ''/''"
    unfolding q_def strip_slashes_def using hd_dropWhile [of "\<lambda>c. c = CHR ''/''" "rev p"] by (simp add: last_rev)
  let ?t = "proto @ ''//'' @ host @ (if q = [] then ''/'' else q)"
  have t: "url_text (trim_path u) = ?t" by (simp add: u(7) url_text_def trim_path_def q_def Let_def)
  have st: "strip_slash ?t = proto @ ''//'' @ host @ q"
    using lq u(2) by (auto simp: strip_slash_def butlast_append)
  have "\<forall>proto\<in>{''http:'', ''https:''}. list_all url_char proto" by code_simp
  then have "list_all url_char proto" using u(1) by blast
  moreover have "list_all url_char host" using u(5) by (simp add: list_all_iff)
  ultimately have "list_all url_char ?t" using q(1) url_char_slash by simp
  then have "list_all (\<lambda>c. \<not> is_space c) ?t" by (auto simp: list_all_iff url_char_def)
  moreover have "toy_url (strip_slash ?t) = Some (trim_path u)"
    unfolding st using toy_url_text [OF u(1,2) q(2) u(5) q(1)] by (simp add: u(7) trim_path_def q_def Let_def)
  ultimately show "list_all (\<lambda>c. \<not> is_space c) (url_text (trim_path u)) \<and>
     toy_url (strip_slash (url_text (trim_path u))) = Some (trim_path u)" unfolding t by blast
qed

definition minio_config :: jsval where
  "minio_config = JObj [(''driver'', JStr ''MinIO''), (''bucket'', JStr '' files ''), (''endpoint'', JStr ''minio.local''),
     (''port'', JStr ''9000''), (''useSSL'', JStr ''true''), (''accessKey'', JStr ''id''), (''secretKey'', JStr ''key''),
     (''maxAttempts'', JNum (Fin 5))]"

lemma resolved_once_witness:
  "\<exists>c. resolve_backend toy_url [] minio_config ''self-hosted'' = Inr (S3_Backend c) \<and>
     s3_endpoint c = Some ''https://minio.local:9000'' \<and> s3_max_attempts c = 5 \<and> s3_force_path_style c \<and>
     normal_config toy_url c"
proof -
  have "case normalize_s3_compatible_config toy_url minio_config ''minio'' of
      Inl _ \<Rightarrow> False | Inr c \<Rightarrow> s3_endpoint c = Some ''https://minio.local:9000'' \<and> s3_max_attempts c = 5 \<and> s3_force_path_style c"
    by code_simp
  then obtain c where c: "normalize_s3_compatible_config toy_url minio_config ''minio'' = Inr c"
    "s3_endpoint c = Some ''https://minio.local:9000''" "s3_max_attempts c = 5" "s3_force_path_style c"
    by (auto split: sum.splits)
  moreover have "driver_name (JStr ''MinIO'') ''self-hosted'' = ''minio''" by code_simp
  ultimately have "resolve_backend toy_url [] minio_config ''self-hosted'' = Inr (S3_Backend c)"
    using resolved_once [OF toy_url_ok, of "[]" minio_config "''self-hosted''"]
    by (simp add: minio_config_def as_record_def js_prop_def s3_drivers_def)
  then show ?thesis using resolved_once [OF toy_url_ok, of "[]" minio_config "''self-hosted''"] c by blast
qed

section \<open>The cache of clients\<close>

text \<open>
  What the cache is meant to be: the 32 most recently used configurations, and every client alive
  exactly while it is cached.
\<close>

fun recency :: "string list \<Rightarrow> string list" where
  "recency [] = []"
| "recency (f # fs) = f # filter (\<lambda>g. g \<noteq> f) (recency fs)"

fun use_clients :: "string list \<Rightarrow> client_cache \<Rightarrow> client_cache" where
  "use_clients [] m = m"
| "use_clients (f # fs) m = use_clients fs (snd (get_s3_client f m))"

definition no_clients :: client_cache where
  "no_clients = \<lparr> cc_clients = [], cc_next = 0, cc_destroyed = [] \<rparr>"

definition cache_ok :: "client_cache \<Rightarrow> bool" where
  "cache_ok m \<longleftrightarrow> distinct (map fst (cc_clients m)) \<and> length (cc_clients m) \<le> max_cached_clients \<and>
     distinct (cc_destroyed m @ map snd (cc_clients m)) \<and>
     set (cc_destroyed m) \<union> snd ` set (cc_clients m) = {..<cc_next m}"

lemma recency_set [simp]: "set (recency fs) = set fs"
  by (induction fs) auto

lemma recency_distinct [simp]: "distinct (recency fs)"
  by (induction fs) auto

lemma filter_fst_map: "map fst (filter (\<lambda>(f, _). f \<noteq> g) xs) = filter (\<lambda>f. f \<noteq> g) (map fst xs)"
  by (induction xs) auto

lemma take_filter_other:
  "distinct xs \<Longrightarrow> f \<in> set (take n xs) \<Longrightarrow> take (n - 1) (filter (\<lambda>g. g \<noteq> f) xs) = filter (\<lambda>g. g \<noteq> f) (take n xs)"
proof (induction xs arbitrary: n)
  case (Cons x xs)
  then obtain k where n: "n = Suc k" by (cases n) auto
  show ?case
  proof (cases "x = f")
    case True
    then have "f \<notin> set xs" using Cons.prems(1) by simp
    then have "filter (\<lambda>g. g \<noteq> f) xs = xs" "filter (\<lambda>g. g \<noteq> f) (take k xs) = take k xs"
      by (auto intro!: filter_True dest: in_set_takeD)
    then show ?thesis using n True by simp
  next
    case False
    then have "f \<in> set (take k xs)" using Cons.prems(2) n by simp
    moreover from this obtain j where "k = Suc j" by (cases k) auto
    ultimately show ?thesis using Cons.IH [of k] Cons.prems(1) n False by simp
  qed
qed simp

lemma take_filter_new:
  assumes "f \<notin> set (take n xs)"
  shows "take n (filter (\<lambda>g. g \<noteq> f) xs) = take n xs"
proof -
  have "filter (\<lambda>g. g \<noteq> f) (take n xs) = take n xs" using assms by (auto intro!: filter_True)
  moreover have "xs = take n xs @ drop n xs" by simp
  ultimately have "filter (\<lambda>g. g \<noteq> f) xs = take n xs @ filter (\<lambda>g. g \<noteq> f) (drop n xs)"
    by (metis filter_append)
  then show ?thesis by (cases "n \<le> length xs") (simp_all add: min_def)
qed

lemma tl_rev_butlast: "tl (rev xs @ ys) = (if xs = [] then tl ys else rev (butlast xs) @ ys)"
  by (cases xs rule: rev_cases) simp_all

lemma get_client_recent:
  assumes "map fst (cc_clients m) = rev (take max_cached_clients r)" "distinct r"
  shows "map fst (cc_clients (snd (get_s3_client f m))) = rev (take max_cached_clients (f # filter (\<lambda>g. g \<noteq> f) r))"
proof -
  let ?n = "max_cached_clients"
  have n: "?n = Suc (?n - 1)" by (simp add: max_cached_clients_def)
  have mem: "map_of (cc_clients m) f = None \<longleftrightarrow> f \<notin> set (take ?n r)"
    using arg_cong [OF assms(1), of set] by (simp add: map_of_eq_None_iff)
  have len: "length (cc_clients m) = min ?n (length r)" using arg_cong [OF assms(1), of length] by simp
  show ?thesis
  proof (cases "map_of (cc_clients m) f")
    case (Some c)
    then have "f \<in> set (take ?n r)" using mem by simp
    then have "take (?n - 1) (filter (\<lambda>g. g \<noteq> f) r) = filter (\<lambda>g. g \<noteq> f) (take ?n r)" by (rule take_filter_other [OF assms(2)])
    then have "take ?n (f # filter (\<lambda>g. g \<noteq> f) r) = f # filter (\<lambda>g. g \<noteq> f) (take ?n r)" by (subst n) simp
    then show ?thesis using Some assms(1) by (simp add: get_s3_client_def filter_fst_map rev_filter)
  next
    case None
    then have f: "f \<notin> set (take ?n r)" using mem by simp
    show ?thesis
    proof (cases "length r < ?n")
      case True
      then have "filter (\<lambda>g. g \<noteq> f) r = r" using f by (auto intro!: filter_True)
      then show ?thesis using True None len assms(1) by (simp add: get_s3_client_def Let_def)
    next
      case False
      have "f \<notin> set (take (?n - 1) r)" using f set_take_subset_set_take [of "?n - 1" ?n r] by (metis diff_le_self subsetD)
      then have "take ?n (f # filter (\<lambda>g. g \<noteq> f) r) = f # take (?n - 1) r" by (subst n) (simp add: take_filter_new)
      moreover have ne: "take ?n r \<noteq> []" using False n by (cases r) auto
      have "tl (map fst (cc_clients m) @ [f]) = rev (butlast (take ?n r)) @ [f]"
        using ne by (simp add: assms(1) tl_rev_butlast)
      moreover have "butlast (take ?n r) = take (?n - 1) r" using False by (simp add: butlast_take)
      moreover have "\<not> length (cc_clients m @ [(f, cc_next m)]) \<le> ?n" using False len by simp
      then have "cc_clients (snd (get_s3_client f m)) = tl (cc_clients m @ [(f, cc_next m)])"
        using None by (simp add: get_s3_client_def Let_def)
      ultimately show ?thesis by (simp add: map_tl)
    qed
  qed
qed

lemma get_client_ok:
  assumes "cache_ok m"
  shows "cache_ok (snd (get_s3_client f m)) \<and> (f, fst (get_s3_client f m)) \<in> set (cc_clients (snd (get_s3_client f m)))"
proof (cases "map_of (cc_clients m) f")
  case (Some c)
  then have fc: "(f, c) \<in> set (cc_clients m)" by (rule map_of_SomeD)
  let ?xs = "filter (\<lambda>(g, _). g \<noteq> f) (cc_clients m) @ [(f, c)]"
  have d: "distinct (map fst (cc_clients m))" "length (cc_clients m) \<le> max_cached_clients"
    "distinct (cc_destroyed m @ map snd (cc_clients m))" "set (cc_destroyed m) \<union> snd ` set (cc_clients m) = {..<cc_next m}"
    using assms by (simp_all add: cache_ok_def)
  have s: "set ?xs = set (cc_clients m)"
    using fc d(1) by (auto dest: map_of_is_SomeI simp: Some)
  have dx: "distinct (map fst ?xs)" using d(1) by (auto simp: filter_fst_map)
  have "length ?xs = length (cc_clients m)"
    using distinct_card [OF dx] distinct_card [OF d(1)] s by (metis length_map list.set_map)
  moreover have "mset ?xs = mset (cc_clients m)"
    using s dx d(1) by (metis distinct_map set_eq_iff_mset_eq_distinct)
  then have "mset (map snd ?xs) = mset (map snd (cc_clients m))" by (metis mset_map)
  then have "distinct (map snd ?xs)" using d(3) by (metis distinct_append mset_eq_imp_distinct_iff)
  ultimately show ?thesis using Some s d dx by (auto simp: get_s3_client_def cache_ok_def simp del: map_append filter_append)
next
  case None
  define xs where "xs = cc_clients m @ [(f, cc_next m)]"
  have d: "distinct (map fst (cc_clients m))" "length (cc_clients m) \<le> max_cached_clients"
    "distinct (cc_destroyed m @ map snd (cc_clients m))" "set (cc_destroyed m) \<union> snd ` set (cc_clients m) = {..<cc_next m}"
    using assms by (simp_all add: cache_ok_def)
  have old: "\<forall>c\<in>set (cc_destroyed m) \<union> snd ` set (cc_clients m). c < cc_next m" unfolding d(4) by simp
  have x: "distinct (map fst xs)" "distinct (cc_destroyed m @ map snd xs)" "set (cc_destroyed m) \<union> snd ` set xs = {..<Suc (cc_next m)}"
    using d None old by (auto simp: xs_def map_of_eq_None_iff lessThan_Suc)
  obtain y ys where ys: "xs = y # ys" by (cases xs) (auto simp: xs_def)
  show ?thesis
  proof (cases "length xs \<le> max_cached_clients")
    case True
    then have "get_s3_client f m = (cc_next m, m\<lparr>cc_clients := xs, cc_next := cc_next m + 1\<rparr>)"
      using None by (simp add: get_s3_client_def xs_def Let_def)
    then show ?thesis using True x by (simp add: cache_ok_def) (simp add: xs_def)
  next
    case False
    then have g: "get_s3_client f m = (cc_next m, m\<lparr>cc_clients := ys, cc_next := cc_next m + 1,
        cc_destroyed := cc_destroyed m @ [snd y]\<rparr>)"
      unfolding get_s3_client_def None option.case Let_def xs_def [symmetric] using False ys by simp
    have "cc_clients m \<noteq> []" using False by (auto simp: xs_def max_cached_clients_def)
    then have "(f, cc_next m) \<in> set ys" using ys by (cases "cc_clients m") (auto simp: xs_def)
    moreover have "length ys \<le> max_cached_clients" using d(2) arg_cong [OF ys, of length] by (simp add: xs_def)
    ultimately show ?thesis using x ys by (auto simp: g cache_ok_def)
  qed
qed

lemma cache_ok_no_clients: "cache_ok no_clients"
  by (simp add: cache_ok_def no_clients_def)

lemma use_clients_ok:
  "cache_ok m \<Longrightarrow> distinct r \<Longrightarrow> map fst (cc_clients m) = rev (take max_cached_clients r) \<Longrightarrow>
     cache_ok (use_clients fs m) \<and>
     map fst (cc_clients (use_clients fs m)) =
       rev (take max_cached_clients (recency (rev fs) @ filter (\<lambda>g. g \<notin> set fs) r))"
proof (induction fs arbitrary: m r)
  case (Cons f fs)
  let ?m = "snd (get_s3_client f m)" and ?r = "f # filter (\<lambda>g. g \<noteq> f) r"
  have "recency (xs @ [f]) = recency xs @ (if f \<in> set xs then [] else [f])" for xs
    by (induction xs) auto
  then have "recency (rev (f # fs)) @ filter (\<lambda>g. g \<notin> set (f # fs)) r = recency (rev fs) @ filter (\<lambda>g. g \<notin> set fs) ?r"
    by (auto intro: filter_cong)
  then show ?case
    using Cons.IH [of ?m ?r] get_client_ok [OF Cons.prems(1), of f] get_client_recent [OF Cons.prems(3,2), of f] Cons.prems(2)
    by simp
qed simp

text \<open>
  The cache of S3 clients is a least-recently-used cache of 32 configurations: after any sequence of
  requests it holds exactly the 32 most recently used ones, in order; every client ever created is
  either cached or destroyed, never both and never twice, so no connection pool leaks; and the
  client a request gets is alive.
\<close>

theorem client_cache_lru:
  "let m = use_clients fs no_clients; (c, m') = get_s3_client f m in
     map fst (cc_clients m) = rev (take 32 (recency (rev fs))) \<and>
     distinct (cc_destroyed m @ map snd (cc_clients m)) \<and>
     set (cc_destroyed m) \<union> snd ` set (cc_clients m) = {..<cc_next m} \<and>
     (f, c) \<in> set (cc_clients m') \<and> c \<notin> set (cc_destroyed m')"
proof -
  define m where "m = use_clients fs no_clients"
  have ok: "cache_ok m" "map fst (cc_clients m) = rev (take 32 (recency (rev fs)))"
    using use_clients_ok [OF cache_ok_no_clients, of "[]" fs] by (simp_all add: m_def no_clients_def max_cached_clients_def)
  obtain c m' where g: "get_s3_client f m = (c, m')" by (cases "get_s3_client f m")
  have c: "cache_ok m'" "(f, c) \<in> set (cc_clients m')" using get_client_ok [OF ok(1), of f] g by simp_all
  have "c \<in> snd ` set (cc_clients m')" using c(2) by (metis image_eqI snd_conv)
  then show ?thesis using ok c g by (auto simp: cache_ok_def m_def [symmetric])
qed

end
