(* ===== verification/Provider_Service.thy ===== *)
theory Provider_Service
  imports Storage_Config Artifact_Service
begin

text \<open>
  \<open>app/services/storage_provider_service.ts\<close>, \<open>app/services/storage/storage_provider_config_crypto.ts\<close>
  and the column \<open>config\<close> of \<open>app/models/storage_provider.ts\<close>: storage providers, the validation of
  what operators enter, the encrypted form in the database, and the choice of the default provider.
\<close>

section \<open>Encrypted configurations\<close>

text \<open>
  The parameters: \<open>encryption.encrypt\<close> and \<open>encryption.decrypt\<close> under the purpose of the module, which
  gives \<open>null\<close> for a text it did not produce, and \<open>JSON.stringify\<close>, \<open>JSON.parse\<close> of the column.
\<close>

record vault =
  vt_encrypt :: "jsval \<Rightarrow> string"
  vt_decrypt :: "string \<Rightarrow> jsval option"
  vt_stringify :: "jsval \<Rightarrow> string"
  vt_parse :: "string \<Rightarrow> jsval option"

definition envelope_key :: string where
  "envelope_key = ''__reevaStorageProviderConfig''"

definition is_encrypted :: "jsval \<Rightarrow> string option" where
  "is_encrypted v =
     (case v of
        JObj ps \<Rightarrow>
          (case js_prop ps ''payload'' of
             JStr s \<Rightarrow> if js_prop ps envelope_key = JNum (Fin 1) then Some s else None
           | _ \<Rightarrow> None)
      | _ \<Rightarrow> None)"

definition encrypt_config :: "vault \<Rightarrow> jsval \<Rightarrow> jsval" where
  "encrypt_config vt v = JObj [(envelope_key, JNum (Fin 1)), (''payload'', JStr (vt_encrypt vt v))]"

definition decrypt_config :: "vault \<Rightarrow> jsval \<Rightarrow> jsval res" where
  "decrypt_config vt v =
     (case is_encrypted v of
        None \<Rightarrow> (case v of JObj ps \<Rightarrow> Inr v
          | _ \<Rightarrow> Inl (Error ''Storage provider configuration in the database is invalid.''))
      | Some payload \<Rightarrow>
          (case vt_decrypt vt payload of
             Some (JObj ps) \<Rightarrow> Inr (JObj ps)
           | _ \<Rightarrow> Inl (Error ''Cannot decrypt storage provider configuration. Check APP_KEY consistency across Reeva instances.'')))"

text \<open>The hooks of the column: what is written, and what a model reads.\<close>

definition prepare_config :: "vault \<Rightarrow> jsval \<Rightarrow> string res" where
  "prepare_config vt v =
     bind_res (case v of
         JStr s \<Rightarrow> from_option (Error ''Storage provider config must be a JSON object.'') (vt_parse vt s)
       | _ \<Rightarrow> Inr v) (\<lambda>config.
     case config of
       JObj ps \<Rightarrow> Inr (vt_stringify vt (if is_encrypted config \<noteq> None then config else encrypt_config vt config))
     | _ \<Rightarrow> Inl (Error ''Storage provider config must be a JSON object.''))"

definition consume_config :: "vault \<Rightarrow> jsval \<Rightarrow> jsval res" where
  "consume_config vt v =
     (case v of
        JStr s \<Rightarrow>
          bind_res (from_option (Error ''Storage provider config in the database is not valid JSON.'') (vt_parse vt s))
            (decrypt_config vt)
      | _ \<Rightarrow> decrypt_config vt v)"

section \<open>Input\<close>

definition input_string :: "jsval \<Rightarrow> string \<Rightarrow> nat \<Rightarrow> string res" where
  "input_string v label max_length =
     (if js_absent v then Inr []
      else (case v of
          JStr s \<Rightarrow> if length s > max_length
            then Inl (Error (label @ '' must be a string of '' @ dec max_length @ '' characters or fewer.''))
            else Inr (trim s)
        | _ \<Rightarrow> Inl (Error (label @ '' must be a string of '' @ dec max_length @ '' characters or fewer.''))))"

definition is_checked :: "jsval \<Rightarrow> bool" where
  "is_checked v \<longleftrightarrow> v \<in> {JBool True, JStr ''true'', JStr ''1'', JStr ''on''}"

definition validate_provider_name :: "jsval \<Rightarrow> string res" where
  "validate_provider_name v =
     (case v of
        JStr s \<Rightarrow> if trim s = [] \<or> length (trim s) > 100
          then Inl (Error ''Provider name is required and must be 100 characters or fewer.'') else Inr (trim s)
      | _ \<Rightarrow> Inl (Error ''Provider name is required and must be 100 characters or fewer.''))"

definition gb_in_bytes :: int where
  "gb_in_bytes = 1073741824"

text \<open>\<open>Math.round\<close> of a non-negative double.\<close>

definition math_round :: "rat \<Rightarrow> int" where
  "math_round x = \<lfloor>x + 1 / 2\<rfloor>"

definition quota_in_bytes :: "jsval \<Rightarrow> int res" where
  "quota_in_bytes v =
     (case to_number v of
        Fin q \<Rightarrow> if q < 0 \<or> 1000000 < q then Inl (Error ''Storage quota must be a non-negative finite GB value.'')
          else Inr (math_round (fl (q * of_int gb_in_bytes)))
      | _ \<Rightarrow> Inl (Error ''Storage quota must be a non-negative finite GB value.''))"

definition config_props :: "jsval \<Rightarrow> props" where
  "config_props v = (case v of JObj ps \<Rightarrow> ps | _ \<Rightarrow> [])"

definition provider_driver :: "provider_row \<Rightarrow> string" where
  "provider_driver sp = driver_name (js_prop (config_props (sp_config sp)) ''driver'') (sp_type sp)"

definition is_absolute :: "string \<Rightarrow> bool" where
  "is_absolute s \<longleftrightarrow> starts_with s ''/''"

text \<open>
  The credentials part of \<open>normalizedProviderConfig\<close>: what the operator entered, or else what is stored
  under its current or its legacy name, unless it is cleared.
\<close>

definition kept_secret :: "bool \<Rightarrow> string \<Rightarrow> jsval \<Rightarrow> jsval" where
  "kept_secret cleared entered stored = (if cleared then JUndef else js_or (JStr entered) stored)"

text \<open>\<open>(input.key ?? existing?.key)\<close>\<close>

definition entered_or :: "props \<Rightarrow> props \<Rightarrow> string \<Rightarrow> jsval" where
  "entered_or inp existing k = js_nullish (js_prop inp k) (js_prop existing k)"

definition str_or :: "string \<Rightarrow> jsval \<Rightarrow> jsval" where
  "str_or s v = (if s = [] then v else JStr s)"

definition normalized_provider_config ::
  "(string \<Rightarrow> url option) \<Rightarrow> string \<Rightarrow> props \<Rightarrow> props \<Rightarrow> props res" where
  "normalized_provider_config parse_url driver inp existing =
     (if driver = ''local'' then
        bind_res (input_string (entered_or inp existing ''root'') ''Storage root'' 2048) (\<lambda>root.
        throw_if (root = [] \<or> \<not> is_absolute root) (Error ''Local storage root must be an absolute path.'')
          (Inr [(''driver'', JStr ''local''), (''root'', JStr root)]))
      else throw_if (driver \<notin> set s3_drivers) (Error ''Unsupported storage provider driver.'')
       (bind_res (input_string (js_prop inp ''accessKeyId'') ''Access key ID'' 512) (\<lambda>access.
        bind_res (input_string (js_prop inp ''secretAccessKey'') ''Secret access key'' 4096) (\<lambda>secret.
        let clear = is_checked (js_prop inp ''clearCredentials''); clear_token = is_checked (js_prop inp ''clearSessionToken'') in
        throw_if (clear \<and> (access \<noteq> [] \<or> secret \<noteq> []))
          (Error ''Leave credential fields empty when clearing stored credentials.'')
       (throw_if (\<not> clear \<and> (access = []) \<noteq> (secret = []))
          (Error ''Enter both access key ID and secret access key to replace credentials.'')
       (bind_res (input_string (entered_or inp existing ''bucket'') ''Bucket name'' 255) (\<lambda>bucket.
        bind_res (input_string (entered_or inp existing ''region'') ''Region'' 100) (\<lambda>region.
        bind_res (input_string (entered_or inp existing ''endpoint'') ''Endpoint'' 2048) (\<lambda>endpoint.
        bind_res (input_string (entered_or inp existing ''forcePathStyle'') ''Path style'' 16) (\<lambda>style.
        bind_res (input_string (js_prop inp ''sessionToken'') ''Session token'' 4096) (\<lambda>token.
        let config = [(''driver'', JStr driver), (''bucket'', JStr bucket), (''region'', str_or region (JStr ''us-east-1'')),
              (''endpoint'', str_or endpoint JUndef), (''forcePathStyle'', str_or style (JStr ''auto'')),
              (''maxAttempts'', entered_or inp existing ''maxAttempts''),
              (''connectionTimeoutMs'', entered_or inp existing ''connectionTimeoutMs''),
              (''socketTimeoutMs'', entered_or inp existing ''socketTimeoutMs''),
              (''downloadUrlTtlSeconds'', entered_or inp existing ''downloadUrlTtlSeconds''),
              (''accessKeyId'', kept_secret clear access (js_or (js_prop existing ''accessKeyId'') (js_prop existing ''accessKey''))),
              (''secretAccessKey'', kept_secret clear secret (js_or (js_prop existing ''secretAccessKey'') (js_prop existing ''secretKey''))),
              (''sessionToken'', kept_secret (clear \<or> clear_token) token (js_prop existing ''sessionToken''))] in
        bind_res (normalize_s3_compatible_config parse_url (JObj config) driver) (\<lambda>c.
        Inr ((''driver'', JStr driver) # s3_props c)))))))))))))"

section \<open>Operations\<close>

text \<open>\<open>getPaginatedProviders\<close> pages through this list; \<open>sees\<close> are the rows the hooks leave.\<close>

definition listed_providers :: "(provider_row \<Rightarrow> bool) \<Rightarrow> db \<Rightarrow> provider_row list" where
  "listed_providers sees d =
     sort_desc sp_is_default (sort_desc sp_created_at (filter sees (providers d)))"

definition get_usage_stats :: "db \<Rightarrow> provider_row \<Rightarrow> rat \<times> rat" where
  "get_usage_stats d sp =
     (number_of_sum (artifact_usage d (sp_id sp)), min (usage_percentage d sp) 100)"

definition save_provider :: "provider_row list \<Rightarrow> db \<Rightarrow> db res" where
  "save_provider tbl d = bind_res (checked provider_constraints tbl) (\<lambda>t. Inr (d\<lparr>providers := t\<rparr>))"

definition activatable :: "(string \<Rightarrow> url option) \<Rightarrow> provider_row \<Rightarrow> unit res" where
  "activatable parse_url sp =
     (let driver = provider_driver sp in
      if driver = ''local'' then
        throw_if (case js_prop (config_props (sp_config sp)) ''root'' of JStr s \<Rightarrow> \<not> is_absolute s | _ \<Rightarrow> True)
          (Error ''Configure a valid absolute local storage root before activating this provider.'') (Inr ())
      else throw_if (driver \<notin> set s3_drivers) (Error ''Unsupported storage provider driver.'')
        (bind_res (normalize_s3_compatible_config parse_url (sp_config sp) driver) (\<lambda>_. Inr ())))"

text \<open>
  The transaction. The update of all rows runs no hook, so it reaches deleted providers too; and the
  model was read before it, so saving the model writes only the columns that differ from what it read.
\<close>

definition make_default :: "provider_row \<Rightarrow> provider_row \<Rightarrow> provider_row" where
  "make_default sp r =
     r\<lparr>sp_is_active := (if sp_is_active sp then sp_is_active r else True),
       sp_is_default := (if sp_is_default sp then sp_is_default r else True)\<rparr>"

definition activate_provider :: "(string \<Rightarrow> url option) \<Rightarrow> string \<Rightarrow> db \<Rightarrow> db res" where
  "activate_provider parse_url i d =
     bind_res (find_provider_row d i) (\<lambda>sp.
     bind_res (activatable parse_url sp) (\<lambda>_.
     bind_res (checked provider_constraints (map (\<lambda>r. r\<lparr>sp_is_default := False\<rparr>) (providers d))) (\<lambda>tbl.
     save_provider (modify_by sp_id i (make_default sp) tbl) d)))"

definition provider_type :: "string \<Rightarrow> string" where
  "provider_type driver = (if driver = ''local'' then ''local'' else if legacy_driver driver then ''self-hosted'' else ''cloud'')"

definition create_provider ::
  "(string \<Rightarrow> url option) \<Rightarrow> int \<Rightarrow> string \<Rightarrow> props \<Rightarrow> db \<Rightarrow> (provider_row \<times> db) res" where
  "create_provider parse_url now i inp d =
     bind_res (validate_provider_name (js_prop inp ''name'')) (\<lambda>name.
     bind_res (input_string (js_prop inp ''driver'') ''Provider driver'' 32) (\<lambda>entered.
     let driver = lowercase entered in
     throw_if (driver \<noteq> ''local'' \<and> driver \<notin> set s3_drivers)
       (Error ''Choose a supported local or S3-compatible storage provider.'')
     (bind_res (normalized_provider_config parse_url driver inp []) (\<lambda>config.
      bind_res (quota_in_bytes (js_nullish (js_prop inp ''quotaGb'') (JNum (Fin 10)))) (\<lambda>quota.
      let row = \<lparr> sp_id = i, sp_name = name, sp_type = provider_type driver, sp_config = JObj config,
                  sp_is_default = False, sp_is_active = True, sp_quota_bytes = Some quota,
                  sp_created_at = now, sp_deleted_at = None \<rparr>
      in bind_res (save_provider (providers d @ [row]) d) (\<lambda>d'. Inr (row, d')))))))"

definition merge_provider :: "string \<Rightarrow> props \<Rightarrow> int \<Rightarrow> provider_row \<Rightarrow> provider_row" where
  "merge_provider name config quota r = r\<lparr>sp_name := name, sp_config := JObj config, sp_quota_bytes := Some quota\<rparr>"

definition update_provider ::
  "(string \<Rightarrow> url option) \<Rightarrow> string \<Rightarrow> props \<Rightarrow> db \<Rightarrow> (provider_row \<times> db) res" where
  "update_provider parse_url i inp d =
     bind_res (find_provider_row d i) (\<lambda>sp.
     bind_res (validate_provider_name (js_prop inp ''name'')) (\<lambda>name.
     bind_res (normalized_provider_config parse_url (provider_driver sp) inp (config_props (sp_config sp))) (\<lambda>config.
     bind_res (quota_in_bytes (js_prop inp ''quotaGb'')) (\<lambda>quota.
     bind_res (save_provider (modify_by sp_id i (merge_provider name config quota) (providers d)) d) (\<lambda>d'.
     Inr (merge_provider name config quota sp, d'))))))"

section \<open>The edit view\<close>

text \<open>
  \<open>safeProviderConfig\<close>: what the edit page shows. Secrets are reduced to whether they are configured.
  \<open>num_text\<close> prints a number.
\<close>

record provider_view =
  pv_driver :: string
  pv_root :: string
  pv_endpoint :: string
  pv_bucket :: string
  pv_region :: string
  pv_force_path_style :: jsval
  pv_max_attempts :: jsval
  pv_connection_timeout_ms :: jsval
  pv_socket_timeout_ms :: jsval
  pv_download_url_ttl_seconds :: jsval
  pv_credentials_configured :: bool
  pv_session_token_configured :: bool

definition text_of :: "jsval \<Rightarrow> string \<Rightarrow> string" where
  "text_of v fallback = (case v of JStr s \<Rightarrow> s | _ \<Rightarrow> fallback)"

definition view_endpoint :: "(jsnum \<Rightarrow> string) \<Rightarrow> props \<Rightarrow> string" where
  "view_endpoint num_text ps =
     (let endpoint = text_of (js_prop ps ''endpoint'') [] in
      if endpoint \<noteq> [] \<and> \<not> has_scheme endpoint then
        (if js_true (js_prop ps ''useSSL'') then ''https'' else ''http'') @ ''://'' @ endpoint @
        (case js_prop ps ''port'' of JNum n \<Rightarrow> CHR '':'' # num_text n | JStr s \<Rightarrow> CHR '':'' # s | _ \<Rightarrow> [])
      else endpoint)"

definition safe_provider_config :: "(jsnum \<Rightarrow> string) \<Rightarrow> provider_row \<Rightarrow> provider_view" where
  "safe_provider_config num_text sp =
     (let ps = config_props (sp_config sp) in
      \<lparr> pv_driver = provider_driver sp, pv_root = text_of (js_prop ps ''root'') [],
        pv_endpoint = view_endpoint num_text ps, pv_bucket = text_of (js_prop ps ''bucket'') [],
        pv_region = text_of (js_prop ps ''region'') ''us-east-1'',
        pv_force_path_style = (case js_prop ps ''forcePathStyle'' of JBool b \<Rightarrow> JBool b | JStr s \<Rightarrow> JStr s | _ \<Rightarrow> JStr ''auto''),
        pv_max_attempts = js_nullish (js_prop ps ''maxAttempts'') (js_int 3),
        pv_connection_timeout_ms = js_nullish (js_prop ps ''connectionTimeoutMs'') (js_int 10000),
        pv_socket_timeout_ms = js_nullish (js_prop ps ''socketTimeoutMs'') (js_int 120000),
        pv_download_url_ttl_seconds = js_nullish (js_prop ps ''downloadUrlTtlSeconds'') (js_int 3600),
        pv_credentials_configured =
          (truthy (js_or (js_prop ps ''accessKeyId'') (js_prop ps ''accessKey'')) \<and>
           truthy (js_or (js_prop ps ''secretAccessKey'') (js_prop ps ''secretKey''))),
        pv_session_token_configured = truthy (js_prop ps ''sessionToken'') \<rparr>)"

definition provider_edit_view :: "(jsnum \<Rightarrow> string) \<Rightarrow> provider_row \<Rightarrow> string \<times> string \<times> string \<times> rat \<times> provider_view" where
  "provider_edit_view num_text sp =
     (sp_id sp, sp_name sp, sp_type sp, fl (quota_number sp / of_int gb_in_bytes), safe_provider_config num_text sp)"

section \<open>Properties\<close>

text \<open>
  What the code relies on: a text that was encrypted under the purpose decrypts to the object that was
  encrypted, as JSON, which drops the properties that are \<open>undefined\<close>; and the stored envelope reads
  back. Only objects whose values are texts, booleans and integers matter.
\<close>

definition json_props :: "props \<Rightarrow> props" where
  "json_props ps = filter (\<lambda>(k, v). v \<noteq> JUndef) ps"

definition flat_value :: "jsval \<Rightarrow> bool" where
  "flat_value v = (case v of JObj _ \<Rightarrow> False | JArr _ \<Rightarrow> False | JNum n \<Rightarrow> num_is_integer n | _ \<Rightarrow> True)"

definition flat_props :: "props \<Rightarrow> bool" where
  "flat_props ps \<longleftrightarrow> distinct (map fst ps) \<and> list_all (\<lambda>(k, v). flat_value v) ps"

definition vault_ok :: "vault \<Rightarrow> bool" where
  "vault_ok vt \<longleftrightarrow>
     (\<forall>ps. flat_props ps \<longrightarrow>
        vt_decrypt vt (vt_encrypt vt (JObj ps)) = Some (JObj (json_props ps))) \<and>
     (\<forall>s. let e = JObj [(envelope_key, JNum (Fin 1)), (''payload'', JStr s)] in vt_parse vt (vt_stringify vt e) = Some e)"

lemma js_prop_json: "distinct (map fst ps) \<Longrightarrow> js_prop (json_props ps) k = js_prop ps k"
proof (induction ps)
  case (Cons p ps)
  obtain i v where p: "p = (i, v)" by (cases p)
  have "map_of (json_props ps) i = None" if "i \<notin> fst ` set ps"
    using that by (auto simp: map_of_eq_None_iff json_props_def)
  then show ?case using Cons p by (auto simp: js_prop_def json_props_def split: if_splits)
qed (simp add: json_props_def)

text \<open>A configuration that the validation produced.\<close>

definition produced_config :: "(string \<Rightarrow> url option) \<Rightarrow> string \<Rightarrow> props \<Rightarrow> bool" where
  "produced_config parse_url driver config \<longleftrightarrow>
     (\<exists>root. driver = ''local'' \<and> config = [(''driver'', JStr ''local''), (''root'', JStr root)] \<and> is_absolute root) \<or>
     (\<exists>c. driver \<in> set s3_drivers \<and> normal_config parse_url c \<and> config = (''driver'', JStr driver) # s3_props c)"

lemma normalized_produced:
  "url_ok parse_url \<Longrightarrow> normalized_provider_config parse_url driver inp existing = Inr config \<Longrightarrow>
     produced_config parse_url driver config"
  by (auto simp: normalized_provider_config_def produced_config_def bind_res_Inr throw_if_Inr Let_def
      split: if_splits intro: normalized_normal)

lemma produced_flat:
  assumes "produced_config parse_url driver config"
  shows "flat_props config"
  using assms by (auto simp: produced_config_def flat_props_def flat_value_def s3_props_def js_int_def opt_str_def split: option.splits)

lemma produced_driver: "produced_config parse_url driver config \<Longrightarrow> js_prop config ''driver'' = JStr driver"
  by (auto simp: produced_config_def js_prop_def)

lemma driver_name_known: "driver \<in> set (''local'' # s3_drivers) \<Longrightarrow> driver_name (JStr driver) t = driver"
proof -
  have "\<forall>x\<in>set (''local'' # s3_drivers). trim x \<noteq> [] \<and> lowercase (trim x) = x" by code_simp
  then show "driver \<in> set (''local'' # s3_drivers) \<Longrightarrow> driver_name (JStr driver) t = driver"
    unfolding driver_name_def by auto
qed

lemma produced_resolves:
  assumes "produced_config parse_url driver config"
  shows "\<exists>b. resolve_backend parse_url cwd (JObj config) t = Inr b \<and>
     resolve_backend parse_url cwd (JObj (json_props config)) t = Inr b"
proof -
  have same: "js_prop (json_props config) k = js_prop config k" for k
    using produced_flat [OF assms] by (intro js_prop_json) (simp add: flat_props_def)
  consider root where "driver = ''local''" "config = [(''driver'', JStr ''local''), (''root'', JStr root)]" "is_absolute root"
    | c where "driver \<in> set s3_drivers" "normal_config parse_url c" "config = (''driver'', JStr driver) # s3_props c"
    using assms unfolding produced_config_def by blast
  then show ?thesis
  proof cases
    case 1
    then have "root \<noteq> []" by (auto simp: is_absolute_def starts_with_def)
    moreover have "driver_name (JStr ''local'') t = ''local''" by (rule driver_name_known) simp
    moreover have "json_props config = config" by (simp add: 1(2) json_props_def)
    ultimately show ?thesis using 1 by (simp add: resolve_backend_def as_record_def js_prop_def root_path_def)
  next
    case 2
    have "denotes config c" unfolding 2(3) by (simp add: denotes_def js_prop_def)
    then have "denotes config c" "denotes (json_props config) c" by (simp_all add: denotes_def same)
    then have n: "normalize_s3_compatible_config parse_url (JObj config) driver = Inr c"
      "normalize_s3_compatible_config parse_url (JObj (json_props config)) driver = Inr c"
      using normalize_normal [OF 2(2)] by blast+
    have r: "new_s3_provider parse_url (JObj (s3_props c)) = Inr c"
      unfolding new_s3_provider_def by (rule normalize_normal [OF 2(2) denotes_s3_props])
    have "driver_name (JStr driver) t = driver" "driver \<noteq> ''local''"
      using 2(1) by (auto simp: s3_drivers_def intro!: driver_name_known)
    then show ?thesis using 2(1) produced_driver [OF assms]
      by (simp add: resolve_backend_def as_record_def same n r)
  qed
qed

lemma activatable_resolves:
  assumes "url_ok parse_url" "activatable parse_url sp = Inr ()"
  shows "\<exists>b. resolve_backend parse_url cwd (sp_config sp) (sp_type sp) = Inr b"
proof (cases "provider_driver sp = ''local''")
  case True
  then obtain s where s: "js_prop (config_props (sp_config sp)) ''root'' = JStr s" "is_absolute s"
    using assms(2) by (auto simp: activatable_def Let_def throw_if_def split: jsval.splits if_splits)
  then obtain ps where ps: "sp_config sp = JObj ps" by (cases "sp_config sp") (auto simp: config_props_def js_prop_def)
  have "s \<noteq> []" using s(2) by (auto simp: is_absolute_def starts_with_def)
  then show ?thesis using True s(1) ps
    by (simp add: resolve_backend_def as_record_def provider_driver_def config_props_def root_path_def)
next
  case False
  then obtain c where c: "provider_driver sp \<in> set s3_drivers"
    "normalize_s3_compatible_config parse_url (sp_config sp) (provider_driver sp) = Inr c"
    using assms(2) by (auto simp: activatable_def Let_def throw_if_Inr bind_res_Inr)
  then obtain ps where ps: "sp_config sp = JObj ps"
    by (auto simp: normalize_s3_compatible_config_def as_record_def split: jsval.splits)
  have "new_s3_provider parse_url (JObj (s3_props c)) = Inr c"
    unfolding new_s3_provider_def by (rule normalize_normal [OF normalized_normal [OF assms(1) c(2)] denotes_s3_props])
  then show ?thesis using False c ps by (simp add: resolve_backend_def as_record_def provider_driver_def config_props_def)
qed

lemma stored_config_back:
  assumes "vault_ok vt" "produced_config parse_url driver config"
  shows "\<exists>t. prepare_config vt (JObj config) = Inr t \<and> consume_config vt (JStr t) = Inr (JObj (json_props config))"
proof -
  have "js_prop config envelope_key = JUndef"
    using assms(2) by (auto simp: produced_config_def js_prop_def envelope_key_def s3_props_def)
  then have n: "is_encrypted (JObj config) = None" by (simp add: is_encrypted_def split: jsval.split)
  have e: "is_encrypted (encrypt_config vt v) = Some (vt_encrypt vt v)" for v
    by (simp add: is_encrypted_def encrypt_config_def js_prop_def envelope_key_def)
  have d: "vt_decrypt vt (vt_encrypt vt (JObj config)) = Some (JObj (json_props config))"
    using assms(1) produced_flat [OF assms(2)] by (simp add: vault_ok_def)
  have b: "vt_parse vt (vt_stringify vt (encrypt_config vt v)) = Some (encrypt_config vt v)" for v
    using assms(1) by (simp add: vault_ok_def encrypt_config_def Let_def)
  have "prepare_config vt (JObj config) = Inr (vt_stringify vt (encrypt_config vt (JObj config)))"
    by (simp add: prepare_config_def n)
  moreover have "consume_config vt (JStr (vt_stringify vt (encrypt_config vt (JObj config)))) = Inr (JObj (json_props config))"
    by (simp add: consume_config_def b decrypt_config_def e d)
  ultimately show ?thesis by blast
qed

lemma math_round_of_int: "math_round (of_int n) = n"
  unfolding math_round_def by (rule floor_unique) simp_all

lemma saved_provider:
  assumes "create_provider parse_url now i inp d = Inr (row, d') \<or> update_provider parse_url i inp d = Inr (row, d')"
  shows "\<exists>driver inp' existing config v quota. normalized_provider_config parse_url driver inp' existing = Inr config \<and>
    sp_config row = JObj config \<and> sp_quota_bytes row = Some quota \<and> quota_in_bytes v = Inr quota"
  using assms
proof
  assume "create_provider parse_url now i inp d = Inr (row, d')"
  then show ?thesis unfolding create_provider_def bind_res_Inr throw_if_Inr Let_def
    by (elim exE conjE) (intro exI conjI, assumption, auto)
next
  assume "update_provider parse_url i inp d = Inr (row, d')"
  then show ?thesis unfolding update_provider_def bind_res_Inr
    by (elim exE conjE) (intro exI conjI, assumption, auto simp: merge_provider_def)
qed


lemma activation_effect:
  assumes "db_ok d" "activate_provider parse_url i d = Inr d'"
  shows "\<exists>sp. find_provider_row d i = Inr sp \<and> sp \<in> set (providers d) \<and> sp_id sp = i \<and> sp_deleted_at sp = None \<and>
     activatable parse_url sp = Inr () \<and> db_ok d' \<and>
     filter sp_is_default (providers d') = (if sp_is_default sp then [] else [sp\<lparr>sp_is_active := True, sp_is_default := True\<rparr>])"
proof -
  let ?clear = "\<lambda>r. r\<lparr>sp_is_default := False\<rparr>"
  from assms(2) obtain sp where sp: "find_provider_row d i = Inr sp" "activatable parse_url sp = Inr ()"
    and d': "d' = d\<lparr>providers := modify_by sp_id i (make_default sp) (map ?clear (providers d))\<rparr>"
    and ok: "satisfies provider_constraints (modify_by sp_id i (make_default sp) (map ?clear (providers d)))"
    by (auto simp: activate_provider_def save_provider_def bind_res_Inr checked_Inr)
  have s: "sp \<in> set (providers d)" "sp_id sp = i" "sp_deleted_at sp = None"
    using sp(1) by (auto simp: find_provider_row_def from_option_Inr row_simps dest!: find_by_Some)
  have dist: "distinct (map sp_id (providers d))"
    using assms(1) by (simp add: db_ok_def provider_constraints_def unique_on_total)
  have "filter sp_is_default (modify_by sp_id i (make_default sp) (map ?clear t)) =
      (if i \<in> sp_id ` set t \<and> \<not> sp_is_default sp then [make_default sp (?clear (the (find_by sp_id i t)))] else [])"
    if "distinct (map sp_id t)" for t
    using that by (induction t) (auto simp: modify_by_def find_by_def make_default_def)
  from this [OF dist] have "filter sp_is_default (providers d') =
      (if sp_is_default sp then [] else [sp\<lparr>sp_is_active := True, sp_is_default := True\<rparr>])"
    using s find_by_distinct [OF dist s(1)] by (auto simp: d' make_default_def)
  then show ?thesis using sp s ok assms(1) by (auto simp: d' db_ok_def)
qed

lemma default_of_filter:
  "default_provider d = List.find (\<lambda>r. sp_deleted_at r = None) (filter sp_is_default (providers d))"
  by (simp add: default_provider_def find_filter ignore_deleted_def conj_commute)

text \<open>
  Activating a provider that is not the default makes exactly it the default: afterwards it is
  active, not deleted, the one that uploads and the dashboard find, and it resolves to a backend; no
  other provider, deleted ones included, is still a default, and the constraints hold.
\<close>

theorem activation_selects_default:
  assumes "url_ok parse_url" "db_ok d" "activate_provider parse_url i d = Inr d'"
    and "\<forall>sp. find_provider_row d i = Inr sp \<longrightarrow> \<not> sp_is_default sp"
  shows "db_ok d' \<and> (\<exists>sp b. default_provider d' = Some sp \<and> sp_id sp = i \<and> sp_is_active sp \<and> sp_deleted_at sp = None \<and>
    filter sp_is_default (providers d') = [sp] \<and> resolve_backend parse_url cwd (sp_config sp) (sp_type sp) = Inr b)"
proof -
  obtain sp where sp: "find_provider_row d i = Inr sp" "sp_id sp = i" "sp_deleted_at sp = None"
    "activatable parse_url sp = Inr ()" "db_ok d'"
    "filter sp_is_default (providers d') = (if sp_is_default sp then [] else [sp\<lparr>sp_is_active := True, sp_is_default := True\<rparr>])"
    using activation_effect [OF assms(2,3)] by blast
  let ?sp = "sp\<lparr>sp_is_active := True, sp_is_default := True\<rparr>"
  have f: "filter sp_is_default (providers d') = [?sp]" using sp(6) assms(4) sp(1) by simp
  moreover have "default_provider d' = Some ?sp" unfolding default_of_filter f using sp(3) by simp
  moreover have "\<exists>b. resolve_backend parse_url cwd (sp_config ?sp) (sp_type ?sp) = Inr b"
    using activatable_resolves [OF assms(1) sp(4), of cwd] by simp
  ultimately show ?thesis using sp(2,3,5) by auto
qed

text \<open>
  Activating the provider that is already the default, as a repeated request does, takes the default
  away: the transaction clears every row and the model, read as the default, writes nothing. No
  provider is a default afterwards, and uploads find none.
\<close>

theorem reactivation_drops_default:
  assumes "db_ok d" "activate_provider parse_url i d = Inr d'" "find_provider_row d i = Inr sp" "sp_is_default sp"
  shows "default_provider d' = None \<and> filter sp_is_default (providers d') = []"
proof -
  have "filter sp_is_default (providers d') = []"
    using activation_effect [OF assms(1,2)] assms(3,4) by auto
  then show ?thesis by (simp add: default_of_filter)
qed

text \<open>Two configurations that differ only in the values of the credentials that are configured.\<close>

definition secret_keys :: "string list" where
  "secret_keys = [''accessKeyId'', ''accessKey'', ''secretAccessKey'', ''secretKey'', ''sessionToken'']"

definition same_but_secrets :: "jsval \<Rightarrow> jsval \<Rightarrow> bool" where
  "same_but_secrets v w \<longleftrightarrow>
     (\<forall>k. if k \<in> set secret_keys then truthy (js_prop (config_props v) k) = truthy (js_prop (config_props w) k)
          else js_prop (config_props v) k = js_prop (config_props w) k)"

text \<open>
  The edit page of a provider shows no secret: what it is given is the same for any two providers
  that differ only in the values of their stored credentials and session token, as long as the same
  ones are configured.
\<close>

theorem edit_view_hides_secrets:
  assumes "same_but_secrets (sp_config sp) config"
  shows "provider_edit_view num_text (sp\<lparr>sp_config := config\<rparr>) = provider_edit_view num_text sp"
proof -
  let ?p = "config_props (sp_config sp)" and ?q = "config_props config"
  have same: "js_prop ?q k = js_prop ?p k" if "k \<notin> set secret_keys" for k
    using assms that by (simp add: same_but_secrets_def)
  have keys: "js_prop ?q ''driver'' = js_prop ?p ''driver''" "js_prop ?q ''root'' = js_prop ?p ''root''"
    "js_prop ?q ''endpoint'' = js_prop ?p ''endpoint''" "js_prop ?q ''port'' = js_prop ?p ''port''"
    "js_prop ?q ''useSSL'' = js_prop ?p ''useSSL''" "js_prop ?q ''bucket'' = js_prop ?p ''bucket''"
    "js_prop ?q ''region'' = js_prop ?p ''region''" "js_prop ?q ''forcePathStyle'' = js_prop ?p ''forcePathStyle''"
    "js_prop ?q ''maxAttempts'' = js_prop ?p ''maxAttempts''"
    "js_prop ?q ''connectionTimeoutMs'' = js_prop ?p ''connectionTimeoutMs''"
    "js_prop ?q ''socketTimeoutMs'' = js_prop ?p ''socketTimeoutMs''"
    "js_prop ?q ''downloadUrlTtlSeconds'' = js_prop ?p ''downloadUrlTtlSeconds''"
    by (rule same, simp add: secret_keys_def)+
  have t: "truthy (js_prop ?q k) = truthy (js_prop ?p k)" if "k \<in> set secret_keys" for k
    using assms that by (simp add: same_but_secrets_def)
  have secrets: "truthy (js_prop ?q ''accessKeyId'') = truthy (js_prop ?p ''accessKeyId'')"
    "truthy (js_prop ?q ''accessKey'') = truthy (js_prop ?p ''accessKey'')"
    "truthy (js_prop ?q ''secretAccessKey'') = truthy (js_prop ?p ''secretAccessKey'')"
    "truthy (js_prop ?q ''secretKey'') = truthy (js_prop ?p ''secretKey'')"
    "truthy (js_prop ?q ''sessionToken'') = truthy (js_prop ?p ''sessionToken'')"
    by (rule t, simp add: secret_keys_def)+
  have or: "truthy (js_or a b) \<longleftrightarrow> truthy a \<or> truthy b" for a b by (simp add: js_or_def)
  show ?thesis
    by (simp add: provider_edit_view_def safe_provider_config_def view_endpoint_def provider_driver_def
        quota_number_def keys secrets or Let_def)
qed

text \<open>
  An edit of an S3 provider must say the bucket addressing: the stored configuration has it as a
  boolean, and falling back to it fails because the fallback is validated as a text.
\<close>

theorem path_style_not_kept:
  assumes "normalized_provider_config parse_url driver inp existing = Inr config" "driver \<noteq> ''local''"
    and "js_prop later ''forcePathStyle'' \<in> {JUndef, JNull}"
  shows "\<exists>e. normalized_provider_config parse_url driver later config = Inl e"
proof (rule ccontr)
  assume "\<nexists>e. normalized_provider_config parse_url driver later config = Inl e"
  then obtain c2 where "normalized_provider_config parse_url driver later config = Inr c2"
    by (cases "normalized_provider_config parse_url driver later config") auto
  then obtain st where "input_string (entered_or later config ''forcePathStyle'') ''Path style'' 16 = Inr st"
    using assms(2) unfolding normalized_provider_config_def Let_def bind_res_Inr throw_if_Inr
    by (auto simp: bind_res_Inr throw_if_Inr)
  moreover obtain b where "js_prop config ''forcePathStyle'' = JBool b"
    using assms(1,2) by (auto simp: normalized_provider_config_def Let_def bind_res_Inr throw_if_Inr js_prop_def s3_props_def)
  ultimately show False using assms(3) by (auto simp: entered_or_def js_nullish_def input_string_def js_absent_def)
qed

section \<open>Concrete runs\<close>

text \<open>
  A vault without secrecy: the configuration as a flat JSON object, its texts marked to tell them from
  the booleans.
\<close>

definition toy_scalar :: "jsval \<Rightarrow> scalar" where
  "toy_scalar v =
     (case v of JStr s \<Rightarrow> SStr (CHR ''s'' # s) | JBool b \<Rightarrow> SStr (if b then ''t'' else ''f'')
      | JNum (Fin q) \<Rightarrow> SInt \<lfloor>q\<rfloor> | _ \<Rightarrow> SNull)"

definition toy_value :: "scalar \<Rightarrow> jsval" where
  "toy_value x =
     (case x of SNull \<Rightarrow> JNull | SInt n \<Rightarrow> JNum (Fin (of_int n))
      | SStr s \<Rightarrow> if s \<noteq> [] \<and> hd s = CHR ''s'' then JStr (tl s) else JBool (s = ''t''))"

definition toy_text :: "jsval \<Rightarrow> string" where
  "toy_text v = json_object (map (\<lambda>(k, x). (k, toy_scalar x)) (json_props (config_props v)))"

definition toy_read :: "string \<Rightarrow> jsval option" where
  "toy_read s = map_option (\<lambda>ps. JObj (map (\<lambda>(k, x). (k, toy_value x)) ps)) (json_parse s)"

definition toy_vault :: vault where
  "toy_vault = \<lparr> vt_encrypt = toy_text, vt_decrypt = toy_read, vt_stringify = toy_text, vt_parse = toy_read \<rparr>"

lemma toy_value_scalar: "flat_value v \<Longrightarrow> v \<noteq> JUndef \<Longrightarrow> toy_value (toy_scalar v) = v"
  by (auto simp: flat_value_def toy_value_def toy_scalar_def split: jsval.splits jsnum.splits)

lemma toy_read_text:
  assumes "flat_props ps"
  shows "toy_read (toy_text (JObj ps)) = Some (JObj (json_props ps))"
proof -
  have "distinct (map fst (json_props ps))"
    using assms by (auto simp: flat_props_def json_props_def distinct_map intro: inj_on_subset)
  then have d: "distinct (map fst (map (\<lambda>(k, x). (k, toy_scalar x)) (json_props ps)))"
    by (simp add: comp_def case_prod_beta')
  have "map ((\<lambda>(k, x). (k, toy_value x)) \<circ> (\<lambda>(k, x). (k, toy_scalar x))) (json_props ps) = json_props ps"
    using assms by (intro map_idI) (auto simp: flat_props_def json_props_def list_all_iff toy_value_scalar)
  then show ?thesis using json_roundtrip [OF d] by (simp add: toy_read_def toy_text_def config_props_def)
qed

lemma toy_vault_ok: "vault_ok toy_vault"
proof -
  have "flat_props [(envelope_key, JNum (Fin 1)), (''payload'', JStr s)]" for s
    by (simp add: flat_props_def flat_value_def envelope_key_def)
  from toy_read_text [OF this] show ?thesis
    by (simp add: vault_ok_def toy_vault_def toy_read_text json_props_def Let_def)
qed

definition s3_input :: props where
  "s3_input = [(''name'', JStr '' Files ''), (''driver'', JStr ''R2''), (''bucket'', JStr ''files''),
     (''endpoint'', JStr ''https://r2.example/''), (''forcePathStyle'', JStr ''auto''), (''accessKeyId'', JStr ''id''),
     (''secretAccessKey'', JStr ''key''), (''quotaGb'', JNum (Fin 2))]"

lemma sample_created: "\<exists>row d'. create_provider toy_url 9 ''sp2'' s3_input sample_db = Inr (row, d')"
proof -
  have "case create_provider toy_url 9 ''sp2'' s3_input sample_db of Inl _ \<Rightarrow> False | Inr _ \<Rightarrow> True" by code_simp
  then show ?thesis by (auto split: sum.splits)
qed


lemma edit_view_hides_secrets_witness:
  "provider_edit_view (\<lambda>_. ''1'') (sample_provider\<lparr>sp_config := JObj [(''secretAccessKey'', JStr ''a'')]\<rparr>) =
   provider_edit_view (\<lambda>_. ''1'') (sample_provider\<lparr>sp_config := JObj [(''secretAccessKey'', JStr ''b'')]\<rparr>)"
proof -
  have "same_but_secrets (JObj [(''secretAccessKey'', JStr ''b'')]) (JObj [(''secretAccessKey'', JStr ''a'')])"
    by (auto simp: same_but_secrets_def config_props_def js_prop_def secret_keys_def)
  then show ?thesis
    using edit_view_hides_secrets [of "sample_provider\<lparr>sp_config := JObj [(''secretAccessKey'', JStr ''b'')]\<rparr>"
      "JObj [(''secretAccessKey'', JStr ''a'')]" "\<lambda>_. ''1''"] by simp
qed

lemma path_style_not_kept_witness:
  "\<exists>config e. normalized_provider_config toy_url ''r2'' s3_input [] = Inr config \<and>
     normalized_provider_config toy_url ''r2'' [(''bucket'', JStr ''other'')] config = Inl e"
proof -
  have "case normalized_provider_config toy_url ''r2'' s3_input [] of Inl _ \<Rightarrow> False | Inr _ \<Rightarrow> True" by code_simp
  then obtain config where c: "normalized_provider_config toy_url ''r2'' s3_input [] = Inr config" by (auto split: sum.splits)
  then show ?thesis using path_style_not_kept [OF c, of "[(''bucket'', JStr ''other'')]"] by (auto simp: js_prop_def)
qed

text \<open>A second provider beside the default one.\<close>

definition two_providers :: db where
  "two_providers = sample_db\<lparr>providers := [sample_provider, sample_provider\<lparr>sp_id := ''sp2'', sp_is_default := False\<rparr>]\<rparr>"

lemma two_providers_ok: "db_ok two_providers"
  using sample_db_ok by (auto simp: db_ok_def two_providers_def provider_constraints_def sample_provider_def unique_on_def)

lemma activation_selects_default_witness:
  "\<exists>d' sp. activate_provider toy_url ''sp2'' two_providers = Inr d' \<and> default_provider d' = Some sp \<and> sp_id sp = ''sp2''"
proof -
  have "case activate_provider toy_url ''sp2'' two_providers of Inl _ \<Rightarrow> False | Inr _ \<Rightarrow> True" by code_simp
  then obtain d' where d': "activate_provider toy_url ''sp2'' two_providers = Inr d'" by (auto split: sum.splits)
  have "case find_provider_row two_providers ''sp2'' of Inl _ \<Rightarrow> False | Inr sp \<Rightarrow> \<not> sp_is_default sp" by code_simp
  then have "\<forall>sp. find_provider_row two_providers ''sp2'' = Inr sp \<longrightarrow> \<not> sp_is_default sp" by (auto split: sum.splits)
  then show ?thesis using activation_selects_default [OF toy_url_ok two_providers_ok d', of "[]"] d' by blast
qed

lemma reactivation_drops_default_witness:
  "\<exists>d'. activate_provider toy_url ''sp1'' two_providers = Inr d' \<and> default_provider two_providers \<noteq> None \<and>
     default_provider d' = None"
proof -
  have "case activate_provider toy_url ''sp1'' two_providers of Inl _ \<Rightarrow> False | Inr _ \<Rightarrow> True" by code_simp
  then obtain d' where d': "activate_provider toy_url ''sp1'' two_providers = Inr d'" by (auto split: sum.splits)
  have "case find_provider_row two_providers ''sp1'' of Inl _ \<Rightarrow> False | Inr sp \<Rightarrow> sp_is_default sp" by code_simp
  then obtain sp where "find_provider_row two_providers ''sp1'' = Inr sp" "sp_is_default sp" by (auto split: sum.splits)
  moreover have "default_provider two_providers \<noteq> None" by code_simp
  ultimately show ?thesis using reactivation_drops_default [OF two_providers_ok d'] d' by blast
qed

end
