(* ===== verification/Setting_Service.thy ===== *)
theory Setting_Service
  imports Schema
begin

text \<open>
  \<open>app/services/setting_service.ts\<close> over the table \<open>settings\<close>: key and value pairs that administrators
  maintain. The same table holds the keys that sign license tokens. A removed row is only marked as
  deleted, but the unique index on the key still counts it.
\<close>

section \<open>Columns\<close>

text \<open>What PostgreSQL checks of a value that is written: \<open>varchar(n)\<close>, \<open>integer\<close> and \<open>NOT NULL\<close>.\<close>

definition varchar :: "nat \<Rightarrow> string \<Rightarrow> string res" where
  "varchar n s = throw_if (length s > n) (Fault ''value too long for type character varying'') (Inr s)"

definition varchar_null :: "nat \<Rightarrow> string option \<Rightarrow> string option res" where
  "varchar_null n v = (case v of None \<Rightarrow> Inr None | Some s \<Rightarrow> bind_res (varchar n s) (\<lambda>t. Inr (Some t)))"

definition int4 :: "int \<Rightarrow> int res" where
  "int4 n = throw_if (n < -2147483648 \<or> 2147483647 < n) (Fault ''integer out of range'') (Inr n)"

definition not_null :: "'a option \<Rightarrow> 'a res" where
  "not_null v = from_option (Fault ''null value violates not-null constraint'') v"

lemma varchar_Inr [res_simps]: "varchar n s = Inr t \<longleftrightarrow> t = s \<and> length s \<le> n"
  by (auto simp: varchar_def throw_if_def)

lemma int4_Inr [res_simps]: "int4 n = Inr k \<longleftrightarrow> k = n \<and> -2147483648 \<le> n \<and> n \<le> 2147483647"
  by (auto simp: int4_def throw_if_def)

lemma not_null_Inr [res_simps]: "not_null v = Inr x \<longleftrightarrow> v = Some x"
  by (simp add: not_null_def from_option_Inr)

section \<open>Validation\<close>

text \<open>\<open>/^[A-Za-z][A-Za-z0-9._-]{0,99}$/\<close>\<close>

definition valid_setting_key :: "jsval \<Rightarrow> bool" where
  "valid_setting_key v =
     (case v of
        JStr s \<Rightarrow> s \<noteq> [] \<and> length s \<le> 100 \<and> (is_upper (hd s) \<or> is_lower (hd s)) \<and>
          list_all (\<lambda>c. is_alnum c \<or> c \<in> set ''._-'') (tl s)
      | _ \<Rightarrow> False)"

definition setting_value :: "jsval \<Rightarrow> string res" where
  "setting_value v =
     (case v of
        JStr s \<Rightarrow> throw_if (length s > 2000)
          (Error ''Setting value must be text and 2,000 characters or fewer.'') (Inr s)
      | _ \<Rightarrow> Inl (Error ''Setting value must be text and 2,000 characters or fewer.''))"

definition text_value :: "jsval \<Rightarrow> string" where
  "text_value v = (case v of JStr s \<Rightarrow> s | _ \<Rightarrow> [])"

text \<open>\<open>validate\<close> returns nothing; here it returns the two texts.\<close>

definition validate_setting :: "jsval \<Rightarrow> jsval \<Rightarrow> (string \<times> string) res" where
  "validate_setting k v =
     (if \<not> valid_setting_key k
      then Inl (Error ''Setting key must start with a letter and contain at most 100 safe characters.'')
      else bind_res (setting_value v) (\<lambda>s. Inr (text_value k, s)))"

section \<open>Operations\<close>

definition find_setting :: "db \<Rightarrow> string \<Rightarrow> setting_row option" where
  "find_setting d k = find_by st_key k (ignore_deleted st_deleted_at (settings d))"

definition find_setting_row :: "db \<Rightarrow> string \<Rightarrow> setting_row res" where
  "find_setting_row d i = from_option RowNotFound (find_by st_id i (ignore_deleted st_deleted_at (settings d)))"

definition save_settings :: "setting_row list \<Rightarrow> db \<Rightarrow> db res" where
  "save_settings tbl d = bind_res (checked setting_constraints tbl) (\<lambda>t. Inr (d\<lparr>settings := t\<rparr>))"

text \<open>\<open>collate\<close> is the order of texts in the database.\<close>

definition get_all_settings :: "(string \<Rightarrow> 'k::linorder) \<Rightarrow> db \<Rightarrow> setting_row list" where
  "get_all_settings collate d =
     sort_key (\<lambda>r. collate (st_key r))
       (filter (\<lambda>r. st_key r \<noteq> ''appName'') (ignore_deleted st_deleted_at (settings d)))"

definition new_setting :: "string \<Rightarrow> string \<Rightarrow> string \<Rightarrow> db \<Rightarrow> (setting_row \<times> db) res" where
  "new_setting i k s d =
     bind_res (varchar 255 s) (\<lambda>s'.
     let r = \<lparr> st_id = i, st_key = k, st_value = Some s', st_deleted_at = None \<rparr>
     in bind_res (save_settings (settings d @ [r]) d) (\<lambda>d'. Inr (r, d')))"

definition create_setting :: "string \<Rightarrow> jsval \<Rightarrow> jsval \<Rightarrow> db \<Rightarrow> (setting_row \<times> db) res" where
  "create_setting i k v d =
     bind_res (validate_setting k v) (\<lambda>(key, s).
     throw_if (key = ''appName'') (Error ''Manage software product names from Software settings.'')
     (throw_if (find_setting d key \<noteq> None) (Error (''Setting key \"'' @ key @ ''\" already exists.''))
      (new_setting i key s d)))"

definition set_st_value :: "string option \<Rightarrow> setting_row \<Rightarrow> setting_row" where
  "set_st_value v r = r\<lparr>st_value := v\<rparr>"

definition update_setting :: "string \<Rightarrow> jsval \<Rightarrow> db \<Rightarrow> (setting_row \<times> db) res" where
  "update_setting i v d =
     bind_res (setting_value v) (\<lambda>s.
     bind_res (find_setting_row d i) (\<lambda>r.
     throw_if (st_key r = ''appName'') (Error ''Manage software product names from Software settings.'')
     (bind_res (varchar 255 s) (\<lambda>s'.
      bind_res (save_settings (modify_by st_id i (set_st_value (Some s')) (settings d)) d) (\<lambda>d'.
      Inr (set_st_value (Some s') r, d'))))))"

definition delete_setting :: "int \<Rightarrow> string \<Rightarrow> db \<Rightarrow> (setting_row \<times> db) res" where
  "delete_setting now i d =
     bind_res (find_setting_row d i) (\<lambda>r.
     throw_if (st_key r = ''appName'') (Error ''The legacy appName setting is retained for migration history.'')
     (bind_res (save_settings (soft_delete st_id set_st_deleted now i (settings d)) d) (\<lambda>d'.
      Inr (set_st_deleted (Some now) r, d'))))"

section \<open>What the operations keep\<close>

lemma save_settings_Inr [res_simps]:
  "save_settings tbl d = Inr d' \<longleftrightarrow> satisfies setting_constraints tbl \<and> d' = d\<lparr>settings := tbl\<rparr>"
  by (auto simp: save_settings_def res_simps)

lemma find_setting_Some:
  "find_setting d k = Some r \<Longrightarrow> r \<in> set (settings d) \<and> st_key r = k \<and> st_deleted_at r = None"
  by (auto simp: find_setting_def row_simps dest!: find_by_Some)

lemma find_setting_append:
  "find_setting (d\<lparr>settings := settings d @ [r]\<rparr>) k =
     (case find_setting d k of Some x \<Rightarrow> Some x | None \<Rightarrow> if st_key r = k \<and> st_deleted_at r = None then Some r else None)"
proof -
  have "find_by st_key k (ignore_deleted st_deleted_at (t @ [r])) =
      (case find_by st_key k (ignore_deleted st_deleted_at t) of Some x \<Rightarrow> Some x
       | None \<Rightarrow> if st_key r = k \<and> st_deleted_at r = None then Some r else None)" for t
    by (induction t) (auto simp: find_by_def ignore_deleted_def)
  then show ?thesis by (simp add: find_setting_def)
qed

lemma new_setting_Inr:
  "new_setting i k s d = Inr (r, d') \<longleftrightarrow>
     r = \<lparr> st_id = i, st_key = k, st_value = Some s, st_deleted_at = None \<rparr> \<and> length s \<le> 255 \<and>
     satisfies setting_constraints (settings d @ [r]) \<and> d' = d\<lparr>settings := settings d @ [r]\<rparr>"
  by (auto simp: new_setting_def res_simps Let_def)

text \<open>A key whose row is marked as deleted cannot be created again.\<close>

lemma deleted_key_taken:
  assumes "r \<in> set (settings d)"
  shows "\<exists>e. new_setting i (st_key r) s d = Inl e"
proof (rule ccontr)
  assume "\<nexists>e. new_setting i (st_key r) s d = Inl e"
  then obtain r' d' where "new_setting i (st_key r) s d = Inr (r', d')"
    by (cases "new_setting i (st_key r) s d") auto
  then have "distinct (map st_key (settings d @ [r']))" "st_key r' = st_key r"
    by (auto simp: new_setting_Inr setting_constraints_def unique_on_total)
  then show False using assms by (auto simp: image_iff)
qed

section \<open>A store of keys and values\<close>

text \<open>
  What a service that keeps values under keys relies on: reading returns what was put last and putting
  one key leaves the others alone.
\<close>

locale key_value =
  fixes stored :: "'d \<Rightarrow> string \<Rightarrow> string option"
    and put :: "string \<Rightarrow> string \<Rightarrow> string \<Rightarrow> 'd \<Rightarrow> 'd res"
  assumes put_same: "put i k v d = Inr d' \<Longrightarrow> stored d' k = Some v"
    and put_other: "put i k v d = Inr d' \<Longrightarrow> k' \<noteq> k \<Longrightarrow> stored d' k' = stored d k'"
begin

lemma put_two:
  "put i k v d = Inr d1 \<Longrightarrow> put j k' v' d1 = Inr d2 \<Longrightarrow> k' \<noteq> k \<Longrightarrow>
     stored d2 k = Some v \<and> stored d2 k' = Some v'"
  by (metis put_same put_other)

lemma put_again: "put i k v d = Inr d1 \<Longrightarrow> put j k v' d1 = Inr d2 \<Longrightarrow> stored d2 k = Some v'"
  by (rule put_same)

end

text \<open>\<open>Setting.updateOrCreate({ key }, { value })\<close>\<close>

definition put_setting :: "string \<Rightarrow> string \<Rightarrow> string \<Rightarrow> db \<Rightarrow> db res" where
  "put_setting i k s d =
     (case find_setting d k of
        None \<Rightarrow> bind_res (new_setting i k s d) (\<lambda>(_, d'). Inr d')
      | Some r \<Rightarrow> bind_res (varchar 255 s) (\<lambda>s'. save_settings (modify_by st_id (st_id r) (set_st_value (Some s')) (settings d)) d))"

definition stored_setting :: "db \<Rightarrow> string \<Rightarrow> string option" where
  "stored_setting d k = (case find_setting d k of None \<Rightarrow> None | Some r \<Rightarrow> st_value r)"

lemma find_setting_modify:
  assumes "distinct (map st_id (settings d))" "find_setting d k = Some r"
  shows "find_setting (d\<lparr>settings := modify_by st_id (st_id r) (set_st_value v) (settings d)\<rparr>) k' =
    (if k' = k then Some (set_st_value v r) else find_setting d k')"
proof -
  have "find_by st_key k' (ignore_deleted st_deleted_at (modify_by st_id (st_id r) (set_st_value v) t)) =
      (if k' = k then Some (set_st_value v r) else find_by st_key k' (ignore_deleted st_deleted_at t))"
    if "distinct (map st_id t)" "find_by st_key k (ignore_deleted st_deleted_at t) = Some r" for t
    using that
  proof (induction t)
    case (Cons x t)
    have one: "find_by st_key k' (ignore_deleted st_deleted_at (y # ys)) =
        (if st_deleted_at y = None \<and> st_key y = k' then Some y else find_by st_key k' (ignore_deleted st_deleted_at ys))"
      for y ys k' by (simp add: find_by_def ignore_deleted_def)
    have m: "modify_by st_id i f (y # ys) = (if st_id y = i then f y else y) # modify_by st_id i f ys" for i f y ys
      by (simp add: modify_by_def)
    show ?case
    proof (cases "st_deleted_at x = None \<and> st_key x = k")
      case True
      then have "x = r" using Cons.prems(2) by (simp add: one)
      moreover from this have "modify_by st_id (st_id r) (set_st_value v) t = t"
        using Cons.prems(1) by (auto simp: modify_by_def image_iff intro!: map_idI)
      ultimately show ?thesis using True by (simp add: one m) (simp add: set_st_value_def)
    next
      case False
      then have f: "find_by st_key k (ignore_deleted st_deleted_at t) = Some r" using Cons.prems(2) by (simp add: one split: if_splits)
      then have "r \<in> set t" by (auto simp: row_simps dest!: find_by_Some)
      then have "st_id x \<noteq> st_id r" using Cons.prems(1) by auto
      then show ?thesis using Cons.IH [OF _ f] Cons.prems(1) False by (auto simp: one m)
    qed
  qed (simp add: find_by_def ignore_deleted_def)
  from this [OF assms(1)] show ?thesis using assms(2) by (simp add: find_setting_def)
qed

interpretation setting_store: key_value stored_setting put_setting
proof unfold_locales
  have both: "stored_setting d' k' = (if k' = k then Some v else stored_setting d k')"
    if "put_setting i k v d = Inr d'" for i k v d d' k'
  proof (cases "find_setting d k")
    case None
    then show ?thesis using that
      by (auto simp: put_setting_def res_simps new_setting_Inr stored_setting_def find_setting_append split: option.splits)
  next
    case (Some r)
    then have "distinct (map st_id (settings d))" "d' = d\<lparr>settings := modify_by st_id (st_id r) (set_st_value (Some v)) (settings d)\<rparr>"
      using that by (auto simp: put_setting_def res_simps setting_constraints_def unique_on_total set_st_value_def
          modify_by_keys)
    then show ?thesis using find_setting_modify [OF _ Some] by (simp add: stored_setting_def set_st_value_def)
  qed
  show "put_setting i k v d = Inr d' \<Longrightarrow> stored_setting d' k = Some v" for i k v d d'
    by (simp add: both)
  show "put_setting i k v d = Inr d' \<Longrightarrow> k' \<noteq> k \<Longrightarrow> stored_setting d' k' = stored_setting d k'" for i k v d d' k'
    by (simp add: both)
qed

lemma settings_only:
  "create_setting i kv v d = Inr (r, d') \<Longrightarrow> \<exists>t. d' = d\<lparr>settings := t\<rparr>"
  "update_setting i v d = Inr (r, d') \<Longrightarrow> \<exists>t. d' = d\<lparr>settings := t\<rparr>"
  "delete_setting now i d = Inr (r, d') \<Longrightarrow> \<exists>t. d' = d\<lparr>settings := t\<rparr>"
  "put_setting i k s d = Inr d' \<Longrightarrow> \<exists>t. d' = d\<lparr>settings := t\<rparr>"
  "new_setting i k s d = Inr (r, d') \<Longrightarrow> \<exists>t. d' = d\<lparr>settings := t\<rparr>"
  by (auto simp: create_setting_def update_setting_def delete_setting_def put_setting_def res_simps new_setting_Inr
      split: option.splits)

end
