(* ===== verification/License_Service.thy ===== *)
theory License_Service
  imports Setting_Service Sql_Text Core_Version
begin

text \<open>
  \<open>app/services/license_service.ts\<close> and \<open>app/models/license.ts\<close>: licenses, the activation of machines
  and the signed activation tokens. The key pair that signs them lives in the table of settings.
\<close>

section \<open>Parameters\<close>

text \<open>
  \<open>String(v)\<close> of a value that is not a text; the text the database driver sends for one;
  \<open>DateTime.fromISO\<close>, \<^const>\<open>None\<close> for an invalid date; the PEM texts of the private and the public key of a
  generated Ed25519 pair; signing with the key a PEM text holds, \<^const>\<open>None\<close> where it holds none; and
  verification with a public key.
\<close>

record license_env =
  le_to_text :: "jsval \<Rightarrow> string"
  le_column :: "jsval \<Rightarrow> string"
  le_from_iso :: "string \<Rightarrow> int option"
  le_keygen :: "nat \<Rightarrow> string \<times> string"
  le_sign :: "string \<Rightarrow> bytes \<Rightarrow> bytes option"
  le_verify :: "string \<Rightarrow> bytes \<Rightarrow> bytes \<Rightarrow> bool"

text \<open>The fields of a submitted form.\<close>

type_synonym form = "(string \<times> jsval) list"

section \<open>Conversions\<close>

definition js_text :: "license_env \<Rightarrow> jsval \<Rightarrow> string" where
  "js_text env v = (case v of JStr s \<Rightarrow> s | _ \<Rightarrow> le_to_text env v)"

definition column_text :: "license_env \<Rightarrow> jsval \<Rightarrow> string option" where
  "column_text env v =
     (case v of JUndef \<Rightarrow> None | JNull \<Rightarrow> None | JStr s \<Rightarrow> Some s | _ \<Rightarrow> Some (le_column env v))"

text \<open>A column that is \<open>undefined\<close> in the merged values is left out of the update.\<close>

definition merged_text :: "license_env \<Rightarrow> jsval \<Rightarrow> string option \<Rightarrow> string option" where
  "merged_text env v old = (if v = JUndef then old else column_text env v)"

text \<open>\<open>Number.parseInt\<close> of a text, \<^const>\<open>None\<close> for \<open>NaN\<close>.\<close>

definition hex_number :: "string \<Rightarrow> int" where
  "hex_number s = foldl (\<lambda>a c. a * 16 + int (case hex_val c of None \<Rightarrow> 0 | Some n \<Rightarrow> n)) 0 s"

definition parse_int :: "string \<Rightarrow> int option" where
  "parse_int s =
     (let t = dropWhile is_space s;
          negative = (t \<noteq> [] \<and> hd t = CHR ''-'');
          u = (if t \<noteq> [] \<and> hd t \<in> set ''+-'' then tl t else t);
          hexadecimal = (starts_with u ''0x'' \<or> starts_with u ''0X'');
          ds = (if hexadecimal then takeWhile is_hex_i (drop 2 u) else takeWhile is_digit u);
          n = (if hexadecimal then hex_number ds else int (undec ds))
      in if ds = [] then None else Some (if negative then - n else n))"

definition activation_limit :: "license_env \<Rightarrow> jsval \<Rightarrow> int \<Rightarrow> int" where
  "activation_limit env v fallback =
     (if truthy v then (case parse_int (js_text env v) of None \<Rightarrow> fallback | Some n \<Rightarrow> n) else fallback)"

text \<open>\<open>data.expiresAt ? DateTime.fromISO(data.expiresAt) : null\<close>, and what writing an invalid date throws.\<close>

definition expiry :: "license_env \<Rightarrow> jsval \<Rightarrow> int option res" where
  "expiry env v =
     (if truthy v then
        (case le_from_iso env (js_text env v) of
           None \<Rightarrow> Inl (Fault ''E_INVALID_DATE_COLUMN_VALUE'')
         | Some t \<Rightarrow> Inr (Some t))
      else Inr None)"

text \<open>\<open>toString('base64')\<close>: the other alphabet, and padded.\<close>

definition base64 :: "bytes \<Rightarrow> string" where
  "base64 bs =
     map (\<lambda>c. if c = CHR ''-'' then CHR ''+'' else if c = CHR ''_'' then CHR ''/'' else c) (base64url bs) @
     replicate ((3 - length bs mod 3) mod 3) (CHR ''='')"

definition to_upper :: "char \<Rightarrow> char" where
  "to_upper c = (if is_lower c then char_of (code c - 32) else c)"

text \<open>The hook \<open>generateLicenseKey\<close>: the first four characters of three UUIDs.\<close>

definition generate_license_key :: "string \<times> string \<times> string \<Rightarrow> string" where
  "generate_license_key uuids =
     (case uuids of (a, b, c) \<Rightarrow>
        ''REEVA-'' @ map to_upper (take 4 a) @ ''-'' @ map to_upper (take 4 b) @ ''-'' @ map to_upper (take 4 c))"

section \<open>Licenses\<close>

text \<open>
  The filters. \<open>ilike\<close> is \<^const>\<open>ilike\<close>; a customer matches by name or by address. \<open>sees\<close> are the
  rows the hooks leave.
\<close>

definition text_filter :: "license_env \<Rightarrow> jsval \<Rightarrow> string option \<Rightarrow> bool" where
  "text_filter env v column \<longleftrightarrow>
     (case column of None \<Rightarrow> False | Some s \<Rightarrow> ilike (contains_pattern (js_text env v)) s)"

definition license_filters :: "license_env \<Rightarrow> form \<Rightarrow> license_row \<Rightarrow> bool" where
  "license_filters env filters r \<longleftrightarrow>
     (truthy (js_prop filters ''licenseKey'') \<longrightarrow> text_filter env (js_prop filters ''licenseKey'') (Some (lic_license_key r))) \<and>
     (truthy (js_prop filters ''customer'') \<longrightarrow>
        text_filter env (js_prop filters ''customer'') (lic_customer_name r) \<or>
        text_filter env (js_prop filters ''customer'') (lic_customer_email r)) \<and>
     (truthy (js_prop filters ''productName'') \<longrightarrow> text_filter env (js_prop filters ''productName'') (Some (lic_product_name r))) \<and>
     (truthy (js_prop filters ''status'') \<longrightarrow> column_text env (js_prop filters ''status'') = Some (lic_status r))"

definition filtered_licenses :: "license_env \<Rightarrow> (license_row \<Rightarrow> bool) \<Rightarrow> form \<Rightarrow> db \<Rightarrow> license_row list" where
  "filtered_licenses env sees filters d =
     sort_desc lic_created_at (filter (\<lambda>r. sees r \<and> license_filters env filters r) (licenses d))"

definition find_license :: "db \<Rightarrow> string \<Rightarrow> license_row res" where
  "find_license d i = from_option RowNotFound (find_by lic_id i (ignore_deleted lic_deleted_at (licenses d)))"

definition save_licenses :: "license_row list \<Rightarrow> db \<Rightarrow> db res" where
  "save_licenses tbl d = bind_res (checked license_constraints tbl) (\<lambda>t. Inr (d\<lparr>licenses := t\<rparr>))"

definition create_license ::
  "license_env \<Rightarrow> int \<Rightarrow> string \<Rightarrow> string \<times> string \<times> string \<Rightarrow> form \<Rightarrow> db \<Rightarrow> (license_row \<times> db) res" where
  "create_license env now i uuids data d =
     bind_res (expiry env (js_prop data ''expiresAt'')) (\<lambda>expires.
     bind_res (int4 (activation_limit env (js_prop data ''maxActivations'') 1)) (\<lambda>limit.
     bind_res (varchar 255 (if truthy (js_prop data ''licenseKey'')
         then the (column_text env (js_prop data ''licenseKey'')) else generate_license_key uuids)) (\<lambda>key.
     bind_res (bind_res (not_null (column_text env (js_prop data ''productName''))) (varchar 255)) (\<lambda>product.
     bind_res (varchar_null 255 (column_text env (js_prop data ''customerName''))) (\<lambda>customer.
     bind_res (varchar_null 255 (column_text env (js_prop data ''customerEmail''))) (\<lambda>email.
     bind_res (varchar 50 (the (column_text env (js_or (js_prop data ''status'') (JStr ''active''))))) (\<lambda>status.
     let row = \<lparr> lic_id = i, lic_license_key = key, lic_product_name = product, lic_customer_name = customer,
                 lic_customer_email = email, lic_status = status, lic_max_activations = limit,
                 lic_activation_count = 0, lic_expires_at = expires, lic_revoked_at = None,
                 lic_created_at = now, lic_deleted_at = None \<rparr>
     in bind_res (save_licenses (licenses d @ [row]) d) (\<lambda>d'. Inr (row, d')))))))))"

text \<open>The date of revocation: kept, set now, or cleared by any other status.\<close>

definition revocation :: "int \<Rightarrow> jsval \<Rightarrow> int option \<Rightarrow> int option" where
  "revocation now status old =
     (if status = JStr ''revoked'' then (case old of None \<Rightarrow> Some now | Some t \<Rightarrow> Some t) else None)"

definition merge_license :: "license_env \<Rightarrow> int \<Rightarrow> form \<Rightarrow> license_row \<Rightarrow> license_row res" where
  "merge_license env now data r =
     bind_res (expiry env (js_prop data ''expiresAt'')) (\<lambda>expires.
     bind_res (int4 (activation_limit env (js_prop data ''maxActivations'') (lic_max_activations r))) (\<lambda>limit.
     bind_res (bind_res (not_null (merged_text env (js_prop data ''licenseKey'') (Some (lic_license_key r)))) (varchar 255)) (\<lambda>key.
     bind_res (bind_res (not_null (merged_text env (js_prop data ''productName'') (Some (lic_product_name r)))) (varchar 255)) (\<lambda>product.
     bind_res (varchar_null 255 (merged_text env (js_prop data ''customerName'') (lic_customer_name r))) (\<lambda>customer.
     bind_res (varchar_null 255 (merged_text env (js_prop data ''customerEmail'') (lic_customer_email r))) (\<lambda>email.
     bind_res (bind_res (not_null (merged_text env (js_prop data ''status'') (Some (lic_status r)))) (varchar 50)) (\<lambda>status.
     Inr (r\<lparr> lic_license_key := key, lic_product_name := product, lic_customer_name := customer,
             lic_customer_email := email, lic_status := status, lic_max_activations := limit,
             lic_expires_at := expires, lic_revoked_at := revocation now (js_prop data ''status'') (lic_revoked_at r) \<rparr>))))))))"

definition update_license :: "license_env \<Rightarrow> int \<Rightarrow> string \<Rightarrow> form \<Rightarrow> db \<Rightarrow> (license_row \<times> db) res" where
  "update_license env now i data d =
     bind_res (find_license d i) (\<lambda>r.
     bind_res (merge_license env now data r) (\<lambda>r'.
     bind_res (save_licenses (modify_by lic_id i (\<lambda>_. r') (licenses d)) d) (\<lambda>d'. Inr (r', d'))))"

definition toggle_status :: "license_row \<Rightarrow> license_row" where
  "toggle_status r = r\<lparr>lic_status := (if lic_status r = ''active'' then ''inactive'' else ''active'')\<rparr>"

definition toggle_license :: "string \<Rightarrow> db \<Rightarrow> (license_row \<times> db) res" where
  "toggle_license i d =
     bind_res (find_license d i) (\<lambda>r.
     bind_res (save_licenses (modify_by lic_id i toggle_status (licenses d)) d) (\<lambda>d'. Inr (toggle_status r, d')))"

definition delete_license :: "int \<Rightarrow> string \<Rightarrow> db \<Rightarrow> (license_row \<times> db) res" where
  "delete_license now i d =
     bind_res (find_license d i) (\<lambda>r.
     bind_res (save_licenses (soft_delete lic_id set_lic_deleted now i (licenses d)) d) (\<lambda>d'.
     Inr (set_lic_deleted (Some now) r, d')))"

section \<open>Activations\<close>

definition activations_of :: "db \<Rightarrow> string \<Rightarrow> activation_row list" where
  "activations_of d i = filter (\<lambda>r. la_license_id r = i) (activations d)"

definition get_activations :: "db \<Rightarrow> string \<Rightarrow> activation_row list" where
  "get_activations d i = sort_desc la_created_at (activations_of d i)"

definition machine_id :: "jsval \<Rightarrow> string res" where
  "machine_id v =
     (case v of
        JStr s \<Rightarrow> throw_if (trim s = [] \<or> length s > 255)
          (Error ''Machine ID is required and must be 255 characters or fewer'') (Inr (trim s))
      | _ \<Rightarrow> Inl (Error ''Machine ID is required and must be 255 characters or fewer''))"

text \<open>
  \<open>getPrivateKey\<close>: the stored key, or a new pair whose halves become two settings. \<open>ids\<close> are the
  identifiers of new rows and \<open>seed\<close> the randomness of the pair.
\<close>

definition get_private_key :: "license_env \<Rightarrow> nat \<Rightarrow> string \<times> string \<Rightarrow> db \<Rightarrow> (string \<times> db) res" where
  "get_private_key env seed ids d =
     (case find_setting d ''license_private_key'' of
        Some r \<Rightarrow> bind_res (from_option (Fault ''invalid private key'') (st_value r)) (\<lambda>k. Inr (k, d))
      | None \<Rightarrow>
          bind_res (new_setting (fst ids) ''license_private_key'' (fst (le_keygen env seed)) d) (\<lambda>(_, d1).
          bind_res (put_setting (snd ids) ''license_public_key'' (snd (le_keygen env seed)) d1) (\<lambda>d2.
          Inr (fst (le_keygen env seed), d2))))"

definition activation_payload :: "license_row \<Rightarrow> string \<Rightarrow> int \<Rightarrow> json_obj" where
  "activation_payload r machine now =
     [(''lid'', SStr (lic_id r)), (''key'', SStr (lic_license_key r)), (''hid'', SStr machine),
      (''prod'', SStr (lic_product_name r)),
      (''exp'', (case lic_expires_at r of None \<Rightarrow> SNull | Some t \<Rightarrow> SInt t)), (''iat'', SInt now)]"

definition activation_token :: "string \<Rightarrow> bytes \<Rightarrow> string" where
  "activation_token payload signature =
     base64 (utf8 (''{'' @ json_string ''p'' @ '':'' @ payload @ '','' @ json_string ''s'' @ '':'' @
       json_string (base64 signature) @ ''}''))"

definition activation_constraints :: "(string \<times> (activation_row list \<Rightarrow> bool)) list" where
  "activation_constraints = [(''license_activations_pkey'', unique_on (\<lambda>r. Some (la_id r)))]"

definition save_activations :: "activation_row list \<Rightarrow> db \<Rightarrow> db res" where
  "save_activations tbl d = bind_res (checked activation_constraints tbl) (\<lambda>t. Inr (d\<lparr>activations := t\<rparr>))"

definition set_count :: "nat \<Rightarrow> license_row \<Rightarrow> license_row" where
  "set_count n r = r\<lparr>lic_activation_count := int n\<rparr>"

definition activatable_license :: "int \<Rightarrow> string \<Rightarrow> license_row \<Rightarrow> activation_row list \<Rightarrow> unit res" where
  "activatable_license now machine r acts =
     throw_if (lic_status r \<noteq> ''active'') (Error ''License is not active'')
     (throw_if (case lic_expires_at r of None \<Rightarrow> False | Some t \<Rightarrow> t \<le> now) (Error ''License has expired'')
     (throw_if (list_ex (\<lambda>a. la_machine_id a = machine) acts) (Error ''This machine is already activated for this license'')
     (throw_if (lic_max_activations r \<le> int (length acts)) (Error ''Activation limit reached'') (Inr ()))))"

definition issue_activation_token ::
  "license_env \<Rightarrow> int \<Rightarrow> nat \<Rightarrow> string \<times> string \<times> string \<Rightarrow> string \<Rightarrow> jsval \<Rightarrow> db \<Rightarrow> (string \<times> db) res" where
  "issue_activation_token env now seed ids i machine_input d =
     bind_res (machine_id machine_input) (\<lambda>machine.
     bind_res (find_license d i) (\<lambda>r.
     bind_res (activatable_license now machine r (activations_of d i)) (\<lambda>_.
     let payload = json_object (activation_payload r machine now) in
     bind_res (get_private_key env seed (snd ids) d) (\<lambda>(k, d1).
     bind_res (from_option (Fault ''invalid private key'') (le_sign env k (utf8 payload))) (\<lambda>signature.
     let a = \<lparr> la_id = fst ids, la_license_id = i, la_machine_id = machine, la_created_at = now \<rparr> in
     bind_res (save_activations (activations d1 @ [a]) d1) (\<lambda>d2.
     bind_res (save_licenses (modify_by lic_id i (set_count (length (activations_of d i) + 1)) (licenses d2)) d2) (\<lambda>d3.
     Inr (activation_token payload signature, d3))))))))"

definition remove_activation :: "string \<Rightarrow> string \<Rightarrow> db \<Rightarrow> db res" where
  "remove_activation i activation d =
     bind_res (find_license d i) (\<lambda>r.
     bind_res (from_option RowNotFound (find_by la_id activation (activations_of d i))) (\<lambda>a.
     let d1 = d\<lparr>activations := delete_where (\<lambda>x. la_id x = la_id a) (activations d)\<rparr> in
     save_licenses (modify_by lic_id i (set_count (length (activations_of d1 i))) (licenses d1)) d1))"

section \<open>Key pairs\<close>

definition signer_ok :: "license_env \<Rightarrow> bool" where
  "signer_ok env \<longleftrightarrow>
     (\<forall>seed m. \<exists>s. le_sign env (fst (le_keygen env seed)) m = Some s \<and> le_verify env (snd (le_keygen env seed)) m s)"

text \<open>The stored keys are the halves of one generated pair, or there is no private key yet.\<close>

definition keys_ok :: "license_env \<Rightarrow> db \<Rightarrow> bool" where
  "keys_ok env d \<longleftrightarrow> find_setting d ''license_private_key'' = None \<or>
     (\<exists>seed. stored_setting d ''license_private_key'' = Some (fst (le_keygen env seed)) \<and>
        stored_setting d ''license_public_key'' = Some (snd (le_keygen env seed)))"

lemma private_key_pair:
  assumes "get_private_key env seed ids d = Inr (k, d')" "keys_ok env d"
  shows "\<exists>seed'. k = fst (le_keygen env seed') \<and> stored_setting d' ''license_private_key'' = Some k \<and>
     stored_setting d' ''license_public_key'' = Some (snd (le_keygen env seed')) \<and> (\<exists>t. d' = d\<lparr>settings := t\<rparr>)"
proof (cases "find_setting d ''license_private_key''")
  case (Some r)
  then have "st_value r = Some k" "d' = d" using assms(1) by (auto simp: get_private_key_def res_simps)
  moreover have "\<exists>t. d = d\<lparr>settings := t\<rparr>" by (rule exI [of _ "settings d"]) simp
  ultimately show ?thesis using assms(2) Some by (auto simp: keys_ok_def stored_setting_def)
next
  case None
  then obtain r d1 where d1: "new_setting (fst ids) ''license_private_key'' (fst (le_keygen env seed)) d = Inr (r, d1)"
    and d2: "put_setting (snd ids) ''license_public_key'' (snd (le_keygen env seed)) d1 = Inr d'"
    and k: "k = fst (le_keygen env seed)"
    using assms(1) by (auto simp: get_private_key_def res_simps)
  have "put_setting (fst ids) ''license_private_key'' (fst (le_keygen env seed)) d = Inr d1"
    using d1 None by (simp add: put_setting_def)
  from setting_store.put_two [OF this d2] have "stored_setting d' ''license_private_key'' = Some k"
    "stored_setting d' ''license_public_key'' = Some (snd (le_keygen env seed))" by (simp_all add: k)
  moreover obtain t t' where "d1 = d\<lparr>settings := t\<rparr>" "d' = d1\<lparr>settings := t'\<rparr>"
    using settings_only(5) [OF d1] settings_only(4) [OF d2] by blast
  then have "\<exists>t. d' = d\<lparr>settings := t\<rparr>" by auto
  ultimately show ?thesis using k by blast
qed

section \<open>Properties\<close>

lemma find_license_Inr:
  "find_license d i = Inr r \<Longrightarrow> r \<in> set (licenses d) \<and> lic_id r = i \<and> lic_deleted_at r = None"
  by (auto simp: find_license_def from_option_Inr row_simps dest!: find_by_Some)

lemma save_licenses_Inr [res_simps]:
  "save_licenses tbl d = Inr d' \<longleftrightarrow> satisfies license_constraints tbl \<and> d' = d\<lparr>licenses := tbl\<rparr>"
  by (auto simp: save_licenses_def res_simps)

lemma save_activations_Inr [res_simps]:
  "save_activations tbl d = Inr d' \<longleftrightarrow> satisfies activation_constraints tbl \<and> d' = d\<lparr>activations := tbl\<rparr>"
  by (auto simp: save_activations_def res_simps)

text \<open>What a successful activation did.\<close>

lemma issued:
  assumes "issue_activation_token env now seed ids i v d = Inr (token, d')"
  obtains machine r k d1 signature where
    "machine_id v = Inr machine" "find_license d i = Inr r"
    "activatable_license now machine r (activations_of d i) = Inr ()"
    "get_private_key env seed (snd ids) d = Inr (k, d1)"
    "le_sign env k (utf8 (json_object (activation_payload r machine now))) = Some signature"
    "token = activation_token (json_object (activation_payload r machine now)) signature"
    "satisfies activation_constraints (activations d @ [\<lparr> la_id = fst ids, la_license_id = i, la_machine_id = machine, la_created_at = now \<rparr>])"
    "d' = d1\<lparr>activations := activations d @ [\<lparr> la_id = fst ids, la_license_id = i, la_machine_id = machine, la_created_at = now \<rparr>],
       licenses := modify_by lic_id i (set_count (length (activations_of d i) + 1)) (licenses d)\<rparr>"
proof -
  from assms obtain machine r k d1 signature where
    a: "machine_id v = Inr machine" "find_license d i = Inr r"
    "activatable_license now machine r (activations_of d i) = Inr ()"
    and k: "get_private_key env seed (snd ids) d = Inr (k, d1)"
    and b: "le_sign env k (utf8 (json_object (activation_payload r machine now))) = Some signature"
    "token = activation_token (json_object (activation_payload r machine now)) signature"
    "satisfies activation_constraints (activations d1 @ [\<lparr> la_id = fst ids, la_license_id = i, la_machine_id = machine, la_created_at = now \<rparr>])"
    "d' = d1\<lparr>activations := activations d1 @ [\<lparr> la_id = fst ids, la_license_id = i, la_machine_id = machine, la_created_at = now \<rparr>],
       licenses := modify_by lic_id i (set_count (length (activations_of d i) + 1)) (licenses d1)\<rparr>"
    by (auto simp: issue_activation_token_def res_simps Let_def)
  have "activations d1 = activations d \<and> licenses d1 = licenses d"
    using k by (auto simp: get_private_key_def res_simps split: option.splits dest!: settings_only(4,5))
  then show thesis using that [OF a k b(1,2)] b(3,4) by simp
qed

text \<open>
  C28. An activation token is issued only for a license that is found, active and not expired, for a machine
  that holds no seat of it yet, while a seat is free. The token carries the license and the trimmed
  machine identifier under a signature that verifies with the public key that is stored afterwards,
  and exactly one activation is added.
\<close>

theorem activation_token_sound:
  assumes "signer_ok env" "keys_ok env d"
    and "issue_activation_token env now seed ids i v d = Inr (token, d')"
  shows "\<exists>machine r signature pem. machine_id v = Inr machine \<and> find_license d i = Inr r \<and> lic_status r = ''active'' \<and>
     (\<forall>t. lic_expires_at r = Some t \<longrightarrow> now < t) \<and> machine \<notin> la_machine_id ` set (activations_of d i) \<and>
     int (length (activations_of d i)) < lic_max_activations r \<and>
     token = activation_token (json_object (activation_payload r machine now)) signature \<and>
     stored_setting d' ''license_public_key'' = Some pem \<and>
     le_verify env pem (utf8 (json_object (activation_payload r machine now))) signature \<and> keys_ok env d' \<and>
     activations d' = activations d @ [\<lparr> la_id = fst ids, la_license_id = i, la_machine_id = machine, la_created_at = now \<rparr>]"
proof -
  from issued [OF assms(3)] obtain machine r k d1 signature where
    a: "machine_id v = Inr machine" "find_license d i = Inr r"
    and free: "activatable_license now machine r (activations_of d i) = Inr ()"
    and key: "get_private_key env seed (snd ids) d = Inr (k, d1)"
    and sig: "le_sign env k (utf8 (json_object (activation_payload r machine now))) = Some signature"
    and token: "token = activation_token (json_object (activation_payload r machine now)) signature"
    and d': "d' = d1\<lparr>activations := activations d @ [\<lparr> la_id = fst ids, la_license_id = i, la_machine_id = machine, la_created_at = now \<rparr>],
       licenses := modify_by lic_id i (set_count (length (activations_of d i) + 1)) (licenses d)\<rparr>"
    by metis
  obtain seed' where k: "k = fst (le_keygen env seed')" "stored_setting d1 ''license_private_key'' = Some k"
    "stored_setting d1 ''license_public_key'' = Some (snd (le_keygen env seed'))"
    using private_key_pair [OF key assms(2)] by blast
  have same: "find_setting d' x = find_setting d1 x" for x by (simp add: d' find_setting_def)
  then have "stored_setting d' x = stored_setting d1 x" for x by (simp add: stored_setting_def)
  then have st: "stored_setting d' ''license_private_key'' = Some k"
    "stored_setting d' ''license_public_key'' = Some (snd (le_keygen env seed'))" by (simp_all add: k)
  then have "keys_ok env d'" using k(1) by (auto simp: keys_ok_def)
  moreover have "le_verify env (snd (le_keygen env seed')) (utf8 (json_object (activation_payload r machine now))) signature"
    using assms(1) sig unfolding signer_ok_def k(1) by (metis option.inject)
  moreover have "lic_status r = ''active''" "\<forall>t. lic_expires_at r = Some t \<longrightarrow> now < t"
    "machine \<notin> la_machine_id ` set (activations_of d i)" "int (length (activations_of d i)) < lic_max_activations r"
    using free by (auto simp: activatable_license_def res_simps list_ex_iff)
  ultimately show ?thesis using a token st(2) by (auto simp: d')
qed

subsection \<open>Seats\<close>

text \<open>Everything that happens to licenses and settings, in any order.\<close>

inductive license_step :: "license_env \<Rightarrow> db \<Rightarrow> db \<Rightarrow> bool" for env where
  created: "create_license env now i uuids data d = Inr (r, d') \<Longrightarrow> license_step env d d'"
| updated: "update_license env now i data d = Inr (r, d') \<Longrightarrow> license_step env d d'"
| toggled: "toggle_license i d = Inr (r, d') \<Longrightarrow> license_step env d d'"
| deleted: "delete_license now i d = Inr (r, d') \<Longrightarrow> license_step env d d'"
| activated: "issue_activation_token env now seed ids i v d = Inr (token, d') \<Longrightarrow> license_step env d d'"
| freed: "remove_activation i a d = Inr d' \<Longrightarrow> license_step env d d'"
| setting_created: "create_setting j k v d = Inr (s, d') \<Longrightarrow> license_step env d d'"
| setting_updated: "update_setting j v d = Inr (s, d') \<Longrightarrow> license_step env d d'"
| setting_deleted: "delete_setting now j d = Inr (s, d') \<Longrightarrow> license_step env d d'"

definition seats_ok :: "db \<Rightarrow> bool" where
  "seats_ok d \<longleftrightarrow>
     distinct (map lic_id (licenses d)) \<and> distinct (map la_id (activations d)) \<and>
     la_license_id ` set (activations d) \<subseteq> lic_id ` set (licenses d) \<and>
     (\<forall>r\<in>set (licenses d). lic_activation_count r = int (length (activations_of d (lic_id r))) \<and>
        distinct (map la_machine_id (activations_of d (lic_id r))))"

definition seat_columns :: "license_row \<Rightarrow> string \<times> int" where
  "seat_columns r = (lic_id r, lic_activation_count r)"

lemma seats_ok_columns:
  assumes "map seat_columns (licenses d') = map seat_columns (licenses d)" "activations d' = activations d"
  shows "seats_ok d' \<longleftrightarrow> seats_ok d"
proof -
  have "map fst (map seat_columns t) = map lic_id t" for t by (simp add: seat_columns_def comp_def)
  then have ids: "map lic_id (licenses d') = map lic_id (licenses d)" by (metis assms(1))
  have "seats_ok e \<longleftrightarrow> distinct (map lic_id (licenses e)) \<and> distinct (map la_id (activations e)) \<and>
     la_license_id ` set (activations e) \<subseteq> set (map lic_id (licenses e)) \<and>
     (\<forall>(i, n)\<in>set (map seat_columns (licenses e)). n = int (length (filter (\<lambda>r. la_license_id r = i) (activations e))) \<and>
        distinct (map la_machine_id (filter (\<lambda>r. la_license_id r = i) (activations e))))" for e
    by (auto simp: seats_ok_def seat_columns_def activations_of_def)
  then show ?thesis by (simp only: assms ids)
qed

lemma seats_ok_settings [simp]: "seats_ok (d\<lparr>settings := t\<rparr>) = seats_ok d"
  by (rule seats_ok_columns) simp_all

lemma map_modify_by:
  "(\<And>x. x \<in> set t \<Longrightarrow> key x = k \<Longrightarrow> g (f x) = g x) \<Longrightarrow> map g (modify_by key k f t) = map g t"
  by (auto simp: modify_by_def)

text \<open>Where the count of one license and its activations change together.\<close>

lemma seats_ok_counted:
  assumes "seats_ok d" "distinct (map la_id acts)" "la_license_id ` set acts \<subseteq> lic_id ` set (licenses d)"
    and "\<And>j. j \<noteq> i \<Longrightarrow> filter (\<lambda>r. la_license_id r = j) acts = activations_of d j"
    and "distinct (map la_machine_id (filter (\<lambda>r. la_license_id r = i) acts))"
    and "n = length (filter (\<lambda>r. la_license_id r = i) acts)"
  shows "seats_ok (d\<lparr>activations := acts, licenses := modify_by lic_id i (set_count n) (licenses d)\<rparr>)"
proof -
  have "map lic_id (modify_by lic_id i (set_count n) (licenses d)) = map lic_id (licenses d)"
    by (rule map_modify_by) (simp add: set_count_def)
  moreover from this have "lic_id ` set (modify_by lic_id i (set_count n) (licenses d)) = lic_id ` set (licenses d)"
    by (metis list.set_map)
  moreover have "lic_activation_count r = int (length (filter (\<lambda>a. la_license_id a = lic_id r) acts)) \<and>
      distinct (map la_machine_id (filter (\<lambda>a. la_license_id a = lic_id r) acts))"
    if "r \<in> set (modify_by lic_id i (set_count n) (licenses d))" for r
  proof -
    from that obtain s where s: "s \<in> set (licenses d)" "r = (if lic_id s = i then set_count n s else s)"
      by (auto simp: modify_by_def)
    show ?thesis
    proof (cases "lic_id s = i")
      case True
      then show ?thesis using s assms(5,6) by (simp add: set_count_def)
    next
      case False
      then show ?thesis using s assms(1) assms(4) [OF False] by (simp add: seats_ok_def)
    qed
  qed
  ultimately show ?thesis using assms(1-3) by (simp add: seats_ok_def activations_of_def)
qed

lemma license_step_seats:
  assumes "license_step env d d'" "seats_ok d"
  shows "seats_ok d'"
  using assms(1)
proof cases
  case (created now i uuids data r)
  then have l: "licenses d' = licenses d @ [r]" "activations d' = activations d" "lic_activation_count r = 0"
    "distinct (map lic_id (licenses d @ [r]))"
    by (auto simp: create_license_def res_simps Let_def license_constraints_def unique_on_total)
  have fk: "la_license_id a \<in> lic_id ` set (licenses d)" if "a \<in> set (activations d)" for a
    using that assms(2) unfolding seats_ok_def by blast
  have "lic_id r \<notin> lic_id ` set (licenses d)" using l(4) by simp
  then have "activations_of d (lic_id r) = []" unfolding activations_of_def filter_empty_conv using fk by metis
  then show ?thesis using l assms(2) by (auto simp: seats_ok_def activations_of_def)
next
  case (updated now i data r)
  then obtain r0 where r0: "find_license d i = Inr r0" "merge_license env now data r0 = Inr r"
    "d' = d\<lparr>licenses := modify_by lic_id i (\<lambda>_. r) (licenses d)\<rparr>" by (auto simp: update_license_def res_simps)
  have "seat_columns r = seat_columns r0" using r0(2) by (auto simp: merge_license_def res_simps seat_columns_def)
  moreover have "x = r0" if "x \<in> set (licenses d)" "lic_id x = i" for x
    using that find_license_Inr [OF r0(1)] assms(2) by (auto simp: seats_ok_def dest: distinct_map_inj)
  ultimately have "map seat_columns (modify_by lic_id i (\<lambda>_. r) (licenses d)) = map seat_columns (licenses d)"
    by (intro map_modify_by) auto
  then show ?thesis using assms(2) seats_ok_columns [of d' d] by (simp add: r0(3))
next
  case (toggled i r)
  have "map seat_columns (modify_by lic_id i toggle_status t) = map seat_columns t" for t
    by (rule map_modify_by) (simp add: toggle_status_def seat_columns_def)
  then show ?thesis using toggled assms(2) seats_ok_columns [of d' d] by (auto simp: toggle_license_def res_simps)
next
  case (deleted now i r)
  have "map seat_columns (soft_delete lic_id set_lic_deleted now i t) = map seat_columns t" for t
    unfolding soft_delete_def by (rule map_modify_by) (simp add: set_lic_deleted_def seat_columns_def)
  then show ?thesis using deleted assms(2) seats_ok_columns [of d' d] by (auto simp: delete_license_def res_simps)
next
  case (activated now seed ids i v token)
  from issued [OF this] obtain machine r k d1 signature where
    r: "find_license d i = Inr r" "activatable_license now machine r (activations_of d i) = Inr ()"
    and key: "get_private_key env seed (snd ids) d = Inr (k, d1)"
    and new: "satisfies activation_constraints (activations d @ [\<lparr> la_id = fst ids, la_license_id = i, la_machine_id = machine, la_created_at = now \<rparr>])"
    and d': "d' = d1\<lparr>activations := activations d @ [\<lparr> la_id = fst ids, la_license_id = i, la_machine_id = machine, la_created_at = now \<rparr>],
       licenses := modify_by lic_id i (set_count (length (activations_of d i) + 1)) (licenses d)\<rparr>"
    by metis
  let ?a = "\<lparr> la_id = fst ids, la_license_id = i, la_machine_id = machine, la_created_at = now \<rparr>"
  have m: "machine \<notin> la_machine_id ` set (activations_of d i)"
    using r(2) by (auto simp: activatable_license_def res_simps list_ex_iff)
  have f: "filter (\<lambda>r. la_license_id r = j) (activations d @ [?a]) = activations_of d j @ (if j = i then [?a] else [])" for j
    by (simp add: activations_of_def)
  have "seats_ok (d\<lparr>activations := activations d @ [?a],
      licenses := modify_by lic_id i (set_count (length (activations_of d i) + 1)) (licenses d)\<rparr>)"
  proof (rule seats_ok_counted [OF assms(2)])
    show "distinct (map la_id (activations d @ [?a]))" using new by (simp add: activation_constraints_def unique_on_total)
    show "la_license_id ` set (activations d @ [?a]) \<subseteq> lic_id ` set (licenses d)"
      using assms(2) find_license_Inr [OF r(1)] by (auto simp: seats_ok_def)
    show "distinct (map la_machine_id (filter (\<lambda>r. la_license_id r = i) (activations d @ [?a])))"
      using assms(2) find_license_Inr [OF r(1)] m unfolding f by (auto simp: seats_ok_def)
  qed (simp_all add: activations_of_def)
  then show ?thesis unfolding d' seats_ok_def activations_of_def by simp
next
  case (freed i a)
  then obtain r x where r: "find_license d i = Inr r" "find_by la_id a (activations_of d i) = Some x"
    and d': "d' = d\<lparr>activations := delete_where (\<lambda>y. la_id y = la_id x) (activations d),
       licenses := modify_by lic_id i (set_count (length (activations_of (d\<lparr>activations := delete_where (\<lambda>y. la_id y = la_id x) (activations d)\<rparr>) i))) (licenses d)\<rparr>"
    by (auto simp: remove_activation_def res_simps Let_def)
  let ?acts = "delete_where (\<lambda>y. la_id y = la_id x) (activations d)"
  have x: "x \<in> set (activations d)" "la_license_id x = i"
    using r(2) by (auto simp: activations_of_def dest!: find_by_Some)
  show ?thesis unfolding d'
  proof (rule seats_ok_counted [OF assms(2)])
    show "distinct (map la_id ?acts)" using assms(2) by (simp add: seats_ok_def delete_where_def distinct_map_filter')
    show "la_license_id ` set ?acts \<subseteq> lic_id ` set (licenses d)" using assms(2) by (auto simp: seats_ok_def delete_where_def)
    have sub: "filter (\<lambda>r. la_license_id r = i) ?acts = filter (\<lambda>y. la_id y \<noteq> la_id x) (activations_of d i)"
      by (simp add: delete_where_def activations_of_def conj_commute)
    show "distinct (map la_machine_id (filter (\<lambda>r. la_license_id r = i) ?acts))"
      unfolding sub using assms(2) find_license_Inr [OF r(1)] by (auto simp: seats_ok_def intro!: distinct_map_filter')
    have "y = x" if "y \<in> set (activations d)" "la_id y = la_id x" for y
      using that x assms(2) by (auto simp: seats_ok_def dest: distinct_map_inj)
    then show "filter (\<lambda>r. la_license_id r = j) ?acts = activations_of d j" if "j \<noteq> i" for j
      using that x(2) by (auto simp: delete_where_def activations_of_def intro!: filter_cong)
  qed (simp add: activations_of_def)
qed (use assms(2) in \<open>auto dest!: settings_only(1,2,3)\<close>)

text \<open>
  C29. Whatever happens to licenses and settings, the activation count of every license is the number of its
  activations, no machine holds two seats of a license, and every activation belongs to a license.
\<close>

theorem seats_counted:
  assumes "(license_step env)\<^sup>*\<^sup>* d d'" "seats_ok d"
  shows "(\<forall>r\<in>set (licenses d'). lic_activation_count r = int (length (activations_of d' (lic_id r))) \<and>
      distinct (map la_machine_id (activations_of d' (lic_id r)))) \<and>
    la_license_id ` set (activations d') \<subseteq> lic_id ` set (licenses d')"
proof -
  have "seats_ok d'" using assms by (induction rule: rtranclp_induct) (auto intro: license_step_seats)
  then show ?thesis by (simp add: seats_ok_def)
qed

subsection \<open>Failures\<close>

text \<open>
  Toggling a revoked license makes it active again although its date of revocation stays, and machines
  can be activated for it as for any other license.
\<close>

theorem revoked_license_reactivated:
  assumes "find_license d i = Inr r" "lic_status r = ''revoked''" "toggle_license i d = Inr (r', d')"
    and "lic_expires_at r = None" "int (length (activations_of d i)) < lic_max_activations r"
    and "machine \<notin> la_machine_id ` set (activations_of d i)"
  shows "lic_status r' = ''active'' \<and> lic_revoked_at r' = lic_revoked_at r \<and> find_license d' i = Inr r' \<and>
     activatable_license now machine r' (activations_of d' i) = Inr ()"
proof -
  have d': "d' = d\<lparr>licenses := modify_by lic_id i toggle_status (licenses d)\<rparr>" "r' = toggle_status r"
    using assms(1,3) by (auto simp: toggle_license_def res_simps)
  have "find_by lic_id i (ignore_deleted lic_deleted_at (modify_by lic_id i toggle_status t)) =
      map_option toggle_status (find_by lic_id i (ignore_deleted lic_deleted_at t))" for t
    by (induction t) (auto simp: find_by_def ignore_deleted_def modify_by_def toggle_status_def)
  then have "find_license d' i = Inr r'" using assms(1) by (simp add: find_license_def d' from_option_Inr)
  moreover have "\<not> list_ex (\<lambda>a. la_machine_id a = machine) (activations_of d i)"
    using assms(6) by (auto simp: list_ex_iff)
  ultimately show ?thesis using assms(2,4,5)
    by (simp add: d' toggle_status_def activatable_license_def activations_of_def)
qed

text \<open>The keys of settings are unique, and the row of the private key is marked as deleted.\<close>

definition key_lost :: "db \<Rightarrow> bool" where
  "key_lost d \<longleftrightarrow> distinct (map st_key (settings d)) \<and>
     (\<exists>r\<in>set (settings d). st_key r = ''license_private_key'' \<and> st_deleted_at r \<noteq> None)"

lemma key_lost_find: "key_lost d \<Longrightarrow> find_setting d ''license_private_key'' = None"
  by (cases "find_setting d ''license_private_key''") (auto simp: key_lost_def dest!: find_setting_Some dest: distinct_map_inj)

lemma key_lost_fails:
  assumes "key_lost d"
  shows "\<exists>e. get_private_key env seed ids d = Inl e"
proof -
  obtain r where "r \<in> set (settings d)" "st_key r = ''license_private_key''" using assms by (auto simp: key_lost_def)
  then obtain e where "new_setting (fst ids) ''license_private_key'' (fst (le_keygen env seed)) d = Inl e"
    by (metis deleted_key_taken)
  then show ?thesis using key_lost_find [OF assms] by (simp add: get_private_key_def)
qed

lemma key_lost_issue: "key_lost d \<Longrightarrow> \<exists>e. issue_activation_token env now seed ids i v d = Inl e"
  by (cases "issue_activation_token env now seed ids i v d")
    (auto elim!: issued dest!: key_lost_fails [of _ env seed "snd ids"])

lemma key_lost_settings:
  assumes "key_lost d" "satisfies setting_constraints t"
    and "\<And>r. r \<in> set (settings d) \<Longrightarrow> st_deleted_at r \<noteq> None \<Longrightarrow>
      \<exists>r'\<in>set t. st_key r' = st_key r \<and> st_deleted_at r' \<noteq> None"
  shows "key_lost (d\<lparr>settings := t\<rparr>)"
  using assms by (fastforce simp: key_lost_def setting_constraints_def unique_on_total)

lemma key_lost_modify:
  assumes "key_lost d" "satisfies setting_constraints (modify_by st_id j f (settings d))"
    and "\<And>r. st_key (f r) = st_key r" "\<And>r. st_deleted_at r \<noteq> None \<Longrightarrow> st_deleted_at (f r) \<noteq> None"
  shows "key_lost (d\<lparr>settings := modify_by st_id j f (settings d)\<rparr>)"
proof (rule key_lost_settings [OF assms(1,2)])
  fix r assume r: "r \<in> set (settings d)" "st_deleted_at r \<noteq> None"
  let ?r = "if st_id r = j then f r else r"
  have "?r \<in> set (modify_by st_id j f (settings d))" using r(1) by (auto simp: modify_by_def)
  moreover have "st_key ?r = st_key r \<and> st_deleted_at ?r \<noteq> None" using r(2) assms(3,4) by simp
  ultimately show "\<exists>r'\<in>set (modify_by st_id j f (settings d)). st_key r' = st_key r \<and> st_deleted_at r' \<noteq> None" by blast
qed

lemma license_step_key_lost:
  assumes "license_step env d d'" "key_lost d"
  shows "key_lost d'"
  using assms(1)
proof cases
  case (activated now seed ids i v token)
  then show ?thesis using key_lost_issue [OF assms(2), of env now seed ids i v] by simp
next
  case (setting_created j k v s)
  then obtain t where "satisfies setting_constraints (settings d @ [t])" "d' = d\<lparr>settings := settings d @ [t]\<rparr>"
    by (auto simp: create_setting_def res_simps new_setting_Inr split: prod.splits)
  then show ?thesis using key_lost_settings [OF assms(2), of "settings d @ [t]"] by auto
next
  case (setting_updated j v s)
  then obtain x where "satisfies setting_constraints (modify_by st_id j (set_st_value x) (settings d))"
    "d' = d\<lparr>settings := modify_by st_id j (set_st_value x) (settings d)\<rparr>"
    by (auto simp: update_setting_def res_simps)
  then show ?thesis using key_lost_modify [OF assms(2), of j "set_st_value x"] by (simp add: set_st_value_def)
next
  case (setting_deleted now j s)
  then have "satisfies setting_constraints (modify_by st_id j (set_st_deleted (Some now)) (settings d))"
    "d' = d\<lparr>settings := modify_by st_id j (set_st_deleted (Some now)) (settings d)\<rparr>"
    by (auto simp: delete_setting_def res_simps soft_delete_def)
  then show ?thesis using key_lost_modify [OF assms(2), of j "set_st_deleted (Some now)"] by (simp add: set_st_deleted_def)
qed (use assms(2) in \<open>auto simp: key_lost_def create_license_def update_license_def toggle_license_def delete_license_def
    remove_activation_def res_simps Let_def\<close>)

text \<open>
  The page of settings can remove the private key of license tokens, and this cannot be undone: from
  then on, whatever else happens to licenses and settings, no activation token is issued, because
  the key that is generated anew takes the name of the removed row.
\<close>

theorem deleted_key_blocks_activation:
  assumes "delete_setting now j d = Inr (s, d1)" "st_key s = ''license_private_key''" "(license_step env)\<^sup>*\<^sup>* d1 d2"
  shows "\<exists>e. issue_activation_token env later seed ids i v d2 = Inl e"
proof -
  have "key_lost d1"
  proof -
    from assms(1) obtain r where r: "find_setting_row d j = Inr r" "s = set_st_deleted (Some now) r"
      "satisfies setting_constraints (soft_delete st_id set_st_deleted now j (settings d))"
      "d1 = d\<lparr>settings := soft_delete st_id set_st_deleted now j (settings d)\<rparr>"
      by (auto simp: delete_setting_def res_simps)
    then have "r \<in> set (settings d)" "st_id r = j" by (auto simp: find_setting_row_def from_option_Inr row_simps dest!: find_by_Some)
    then have "s \<in> set (settings d1)" using r by (auto simp: soft_delete_def modify_by_def)
    moreover have "st_deleted_at s \<noteq> None" by (simp add: r(2) set_st_deleted_def)
    moreover have "distinct (map st_key (settings d1))" using r(3,4) by (simp add: setting_constraints_def unique_on_total)
    ultimately show ?thesis using assms(2) by (auto simp: key_lost_def)
  qed
  with assms(3) have "key_lost d2" by (induction rule: rtranclp_induct) (auto intro: license_step_key_lost)
  then show ?thesis by (rule key_lost_issue)
qed

section \<open>Concrete runs\<close>

text \<open>An environment whose signatures are the message itself, and a database with one license of one seat.\<close>

definition toy_env :: license_env where
  "toy_env = \<lparr> le_to_text = (\<lambda>_. []), le_column = (\<lambda>_. []), le_from_iso = (\<lambda>_. None), le_keygen = (\<lambda>_. (''priv'', ''pub'')),
     le_sign = (\<lambda>k m. if k = ''priv'' then Some m else None), le_verify = (\<lambda>p m s. p = ''pub'' \<and> s = m) \<rparr>"

definition sample_license :: license_row where
  "sample_license = \<lparr> lic_id = ''l1'', lic_license_key = ''REEVA-1-2-3'', lic_product_name = ''app'', lic_customer_name = None,
     lic_customer_email = None, lic_status = ''active'', lic_max_activations = 1, lic_activation_count = 0,
     lic_expires_at = None, lic_revoked_at = None, lic_created_at = 1, lic_deleted_at = None \<rparr>"

definition licensed_db :: db where
  "licensed_db = empty_db\<lparr>licenses := [sample_license]\<rparr>"

abbreviation sample_issue :: "(string \<times> db) res" where
  "sample_issue \<equiv> issue_activation_token toy_env 5 0 (''a1'', ''t1'', ''t2'') ''l1'' (JStr '' host '') licensed_db"

lemma licensed_ok: "signer_ok toy_env" "keys_ok toy_env licensed_db" "seats_ok licensed_db"
  by (auto simp: signer_ok_def toy_env_def keys_ok_def find_setting_def find_by_def ignore_deleted_def seats_ok_def
      licensed_db_def empty_db_def sample_license_def activations_of_def)

lemma sample_issued: obtains token d' where "sample_issue = Inr (token, d')"
proof -
  have machine: "machine_id (JStr '' host '') = Inr ''host''" by code_simp
  have r: "find_license licensed_db ''l1'' = Inr sample_license" by code_simp
  have free: "activatable_license 5 ''host'' sample_license (activations_of licensed_db ''l1'') = Inr ()" by code_simp
  have key: "get_private_key toy_env 0 (''t1'', ''t2'') licensed_db =
      Inr (''priv'', licensed_db\<lparr>settings := [\<lparr> st_id = ''t1'', st_key = ''license_private_key'', st_value = Some ''priv'', st_deleted_at = None \<rparr>,
        \<lparr> st_id = ''t2'', st_key = ''license_public_key'', st_value = Some ''pub'', st_deleted_at = None \<rparr>]\<rparr>)" by code_simp
  have "le_sign toy_env ''priv'' m = Some m" for m by (simp add: toy_env_def)
  then have "\<exists>token d'. sample_issue = Inr (token, d')"
    using machine r free key
    by (simp add: issue_activation_token_def Let_def save_activations_def activation_constraints_def save_licenses_def
        license_constraints_def unique_on_total licensed_db_def empty_db_def modify_by_def)
  then show thesis using that by blast
qed

lemma activation_token_sound_witness:
  "\<exists>token d' pem. sample_issue = Inr (token, d') \<and> stored_setting d' ''license_public_key'' = Some pem \<and> keys_ok toy_env d'"
proof -
  obtain token d' where i: "sample_issue = Inr (token, d')" by (rule sample_issued)
  from activation_token_sound [OF licensed_ok(1,2) i] show ?thesis using i by blast
qed

lemma seats_counted_witness:
  "\<exists>token d'. sample_issue = Inr (token, d') \<and> (\<forall>r\<in>set (licenses d'). lic_activation_count r = int (length (activations_of d' (lic_id r))))"
proof -
  obtain token d' where i: "sample_issue = Inr (token, d')" by (rule sample_issued)
  then have "(license_step toy_env)\<^sup>*\<^sup>* licensed_db d'" by (intro r_into_rtranclp) (rule activated)
  from seats_counted [OF this licensed_ok(3)] show ?thesis using i by blast
qed

lemma revoked_license_reactivated_witness:
  "\<exists>r' d'. toggle_license ''l1'' (licensed_db\<lparr>licenses := [sample_license\<lparr>lic_status := ''revoked'', lic_revoked_at := Some 3\<rparr>]\<rparr>) = Inr (r', d') \<and>
     lic_status r' = ''active'' \<and> lic_revoked_at r' = Some 3"
proof -
  let ?r = "sample_license\<lparr>lic_status := ''revoked'', lic_revoked_at := Some 3\<rparr>"
  let ?d = "licensed_db\<lparr>licenses := [?r]\<rparr>"
  have "case toggle_license ''l1'' ?d of Inl _ \<Rightarrow> False | Inr _ \<Rightarrow> True" by code_simp
  then obtain r' d' where t: "toggle_license ''l1'' ?d = Inr (r', d')" by (auto split: sum.splits)
  have f: "find_license ?d ''l1'' = Inr ?r"
    by (simp add: find_license_def find_by_def ignore_deleted_def sample_license_def)
  have "activations_of ?d ''l1'' = []" by (simp add: activations_of_def licensed_db_def empty_db_def)
  with revoked_license_reactivated [OF f _ t, of "''m''" 5] show ?thesis using t by (simp add: sample_license_def)
qed

lemma deleted_key_blocks_activation_witness:
  "\<exists>s d1 e. delete_setting 6 ''t1'' (licensed_db\<lparr>settings := [\<lparr> st_id = ''t1'', st_key = ''license_private_key'', st_value = Some ''priv'', st_deleted_at = None \<rparr>]\<rparr>) = Inr (s, d1) \<and>
     issue_activation_token toy_env 7 0 (''a1'', ''t3'', ''t4'') ''l1'' (JStr ''host'') d1 = Inl e"
proof -
  let ?d = "licensed_db\<lparr>settings := [\<lparr> st_id = ''t1'', st_key = ''license_private_key'', st_value = Some ''priv'', st_deleted_at = None \<rparr>]\<rparr>"
  have "case delete_setting 6 ''t1'' ?d of Inl _ \<Rightarrow> False | Inr (s, _) \<Rightarrow> st_key s = ''license_private_key''" by code_simp
  then obtain s d1 where "delete_setting 6 ''t1'' ?d = Inr (s, d1)" "st_key s = ''license_private_key''" by (auto split: sum.splits)
  with deleted_key_blocks_activation [OF this rtranclp.rtrancl_refl] show ?thesis by blast
qed

end
