(* ===== verification/Account_Service.thy ===== *)
theory Account_Service
  imports Setting_Service
begin

text \<open>
  \<open>app/services/auth_service.ts\<close>, \<open>app/services/user_service.ts\<close>, \<open>app/controllers/session_controller.ts\<close> and
  the middleware of sessions: operators, their passwords and reset links, the throttling of sign-in
  requests, and which sessions a request may continue with.
\<close>

section \<open>Parameters\<close>

text \<open>
  SHA-256 in hexadecimal of a text; the password hash of the framework, with its salt as an argument,
  and its verification.
\<close>

record account_env =
  ac_sha256 :: "string \<Rightarrow> string"
  ac_hash :: "nat \<Rightarrow> string \<Rightarrow> string"
  ac_verify :: "string \<Rightarrow> string \<Rightarrow> bool"

section \<open>Users\<close>

definition find_user :: "db \<Rightarrow> string \<Rightarrow> user_row res" where
  "find_user d i = from_option RowNotFound (find_by us_id i (ignore_deleted us_deleted_at (users d)))"

definition find_user_by_email :: "db \<Rightarrow> string \<Rightarrow> user_row option" where
  "find_user_by_email d email = find_by us_email email (ignore_deleted us_deleted_at (users d))"

definition save_users :: "user_row list \<Rightarrow> db \<Rightarrow> db res" where
  "save_users tbl d = bind_res (checked user_constraints tbl) (\<lambda>t. Inr (d\<lparr>users := t\<rparr>))"

text \<open>
  The hook of \<open>AuthFinder\<close>: a password that differs from what the column holds is hashed when the
  model is saved.
\<close>

definition set_password :: "account_env \<Rightarrow> nat \<Rightarrow> string \<Rightarrow> user_row \<Rightarrow> user_row" where
  "set_password env salt password u =
     u\<lparr>us_password_hash := (if password = us_password_hash u then us_password_hash u else ac_hash env salt password)\<rparr>"

definition next_version :: "user_row \<Rightarrow> user_row" where
  "next_version u = u\<lparr>us_auth_version := us_auth_version u + 1\<rparr>"

text \<open>\<open>/^[^\s@]+@[^\s@]+\.[^\s@]+$/\<close>\<close>

definition email_format :: "string \<Rightarrow> bool" where
  "email_format s \<longleftrightarrow> list_all (\<lambda>c. \<not> is_space c) s \<and>
     (case split_on (CHR ''@'') s of
        [a, b] \<Rightarrow> a \<noteq> [] \<and> b \<noteq> [] \<and> CHR ''.'' \<in> set (butlast (tl b))
      | _ \<Rightarrow> False)"

definition full_name :: "jsval \<Rightarrow> string option res" where
  "full_name v =
     (case v of
        JNull \<Rightarrow> Inr None
      | JStr s \<Rightarrow> throw_if (length s > 255) (Error ''Name must be 255 characters or fewer.'') (Inr (Some s))
      | _ \<Rightarrow> Inl (Error ''Name must be 255 characters or fewer.''))"

text \<open>\<open>paginateUsers\<close> pages through this list; \<open>sees\<close> are the rows the hooks leave.\<close>

definition listed_users :: "(user_row \<Rightarrow> bool) \<Rightarrow> db \<Rightarrow> user_row list" where
  "listed_users sees d = sort_key us_created_at (filter sees (users d))"

definition create_user ::
  "account_env \<Rightarrow> int \<Rightarrow> string \<Rightarrow> nat \<Rightarrow> string \<Rightarrow> jsval \<Rightarrow> jsval \<Rightarrow> db \<Rightarrow> ((string \<times> string) \<times> db) res" where
  "create_user env now i salt random_password email_input name_input d =
     bind_res (case email_input of
         JStr s \<Rightarrow> throw_if (\<not> email_format s \<or> length s > 255) (Error ''Please enter a valid email address.'') (Inr s)
       | _ \<Rightarrow> Inl (Error ''Please enter a valid email address.'')) (\<lambda>entered.
     bind_res (full_name name_input) (\<lambda>name.
     let email = lowercase (trim entered) in
     throw_if (find_user_by_email d email \<noteq> None) (Error ''A user with this email already exists.'')
     (let u = \<lparr> us_id = i, us_email = email, us_full_name = name, us_password_hash = ac_hash env salt random_password,
                us_is_active = True, us_is_root = False, us_auth_version = 0, us_theme = ''system'',
                us_accent_color = 0, us_created_at = now, us_deleted_at = None \<rparr>
      in bind_res (save_users (users d @ [u]) d) (\<lambda>d'. Inr ((email, random_password), d')))))"

definition set_name :: "string option \<Rightarrow> user_row \<Rightarrow> user_row" where
  "set_name name u = u\<lparr>us_full_name := name\<rparr>"

text \<open>\<open>updateUser\<close> and \<open>updateProfile\<close> are the same.\<close>

definition update_user :: "string \<Rightarrow> jsval \<Rightarrow> db \<Rightarrow> (user_row \<times> db) res" where
  "update_user i name_input d =
     bind_res (full_name name_input) (\<lambda>name.
     bind_res (find_user d i) (\<lambda>u.
     bind_res (save_users (modify_by us_id i (set_name name) (users d)) d) (\<lambda>d'. Inr (set_name name u, d'))))"

text \<open>The transaction that follows a change of the password: its links and remembered sessions are dropped.\<close>

definition drop_tokens :: "user_row \<Rightarrow> db \<Rightarrow> db" where
  "drop_tokens u d =
     d\<lparr>remember_tokens := delete_where (\<lambda>r. rm_tokenable_id r = us_id u) (remember_tokens d),
       reset_tokens := delete_where (\<lambda>r. rt_email r = us_email u) (reset_tokens d)\<rparr>"

definition new_password :: "account_env \<Rightarrow> nat \<Rightarrow> string \<Rightarrow> user_row \<Rightarrow> db \<Rightarrow> (user_row \<times> db) res" where
  "new_password env salt password u d =
     (let f = (\<lambda>r. next_version (set_password env salt password r)) in
      bind_res (save_users (modify_by us_id (us_id u) f (users d)) d) (\<lambda>d'. Inr (f u, drop_tokens u d')))"

definition reset_password ::
  "account_env \<Rightarrow> nat \<Rightarrow> string \<Rightarrow> string \<Rightarrow> string \<Rightarrow> db \<Rightarrow> ((string \<times> string) \<times> db) res" where
  "reset_password env salt random_password i current d =
     bind_res (find_user d i) (\<lambda>u.
     throw_if (us_id u = current) (Error ''You cannot reset your own password from here. Use your Profile page.'')
     (throw_if (us_is_root u) (Error ''Root user password cannot be reset from here.'')
      (bind_res (new_password env salt random_password u d) (\<lambda>(_, d'). Inr ((us_email u, random_password), d')))))"

definition flip_active :: "user_row \<Rightarrow> user_row" where
  "flip_active u = next_version (u\<lparr>us_is_active := \<not> us_is_active u\<rparr>)"

definition toggle_active_user :: "string \<Rightarrow> string \<Rightarrow> db \<Rightarrow> ((string \<times> bool) \<times> db) res" where
  "toggle_active_user i current d =
     bind_res (find_user d i) (\<lambda>u.
     throw_if (us_is_root u) (Error ''Root user cannot be disabled/enabled.'')
     (throw_if (us_id u = current) (Error ''You cannot toggle your own active status.'')
      (bind_res (save_users (modify_by us_id i flip_active (users d)) d) (\<lambda>d'.
       Inr ((us_email u, \<not> us_is_active u), d')))))"

definition valid_password :: "jsval \<Rightarrow> string option" where
  "valid_password v = (case v of JStr s \<Rightarrow> if 12 \<le> length s \<and> length s \<le> 128 then Some s else None | _ \<Rightarrow> None)"

definition change_password ::
  "account_env \<Rightarrow> nat \<Rightarrow> string \<Rightarrow> string \<Rightarrow> jsval \<Rightarrow> db \<Rightarrow> (user_row \<times> db) res" where
  "change_password env salt i current_password password_input d =
     bind_res (from_option (Error ''New password must be between 12 and 128 characters.'') (valid_password password_input)) (\<lambda>password.
     bind_res (find_user d i) (\<lambda>u.
     throw_if (\<not> ac_verify env (us_password_hash u) current_password) (Error ''Current password is incorrect.'')
     (new_password env salt password u d)))"

definition set_appearance :: "string \<Rightarrow> int \<Rightarrow> user_row \<Rightarrow> user_row" where
  "set_appearance theme color u = u\<lparr>us_theme := theme, us_accent_color := color\<rparr>"

definition update_appearance :: "string \<Rightarrow> string \<Rightarrow> jsval \<Rightarrow> db \<Rightarrow> (user_row \<times> db) res" where
  "update_appearance i theme color_input d =
     bind_res (find_user d i) (\<lambda>u.
     throw_if (theme \<notin> {''light'', ''dark'', ''system''}) (Error ''Unsupported appearance theme.'')
     (case js_integer color_input of
        None \<Rightarrow> Inl (Error ''Unsupported accent color.'')
      | Some color \<Rightarrow> throw_if (color < 0 \<or> 6 < color) (Error ''Unsupported accent color.'')
         (bind_res (save_users (modify_by us_id i (set_appearance theme color) (users d)) d) (\<lambda>d'.
          Inr (set_appearance theme color u, d')))))"

section \<open>Reset links\<close>

definition hash_reset_token :: "account_env \<Rightarrow> string \<Rightarrow> string" where
  "hash_reset_token env token = ac_sha256 env token"

text \<open>
  The mail that is sent, with the plain token, and the row that holds its hash for an hour. \<open>rid\<close> is the
  next number of the table.
\<close>

definition send_password_reset_link ::
  "account_env \<Rightarrow> bool \<Rightarrow> int \<Rightarrow> nat \<Rightarrow> string \<Rightarrow> string \<Rightarrow> db \<Rightarrow> ((user_row \<times> string) option \<times> db) res" where
  "send_password_reset_link env mail_enabled now rid token email d =
     (if \<not> mail_enabled then Inr (None, d)
      else (case find_user_by_email d (trim email) of
          None \<Rightarrow> Inr (None, d)
        | Some u \<Rightarrow>
            if \<not> us_is_active u then Inr (None, d)
            else (let r = \<lparr> rt_id = rid, rt_email = us_email u, rt_token = hash_reset_token env token, rt_expires_at = now + 3600000 \<rparr> in
              bind_res (checked reset_token_constraints
                  (delete_where (\<lambda>x. rt_email x = us_email u) (reset_tokens d) @ [r])) (\<lambda>t.
              Inr (Some (u, token), d\<lparr>reset_tokens := t\<rparr>)))))"

definition live_token :: "int \<Rightarrow> string \<Rightarrow> db \<Rightarrow> reset_token_row option" where
  "live_token now token d = List.find (\<lambda>r. rt_token r = token \<and> now < rt_expires_at r) (reset_tokens d)"

text \<open>First by the hash, then, for links of older versions, by the text itself.\<close>

definition verify_reset_token :: "account_env \<Rightarrow> int \<Rightarrow> string \<Rightarrow> db \<Rightarrow> reset_token_row option" where
  "verify_reset_token env now token d =
     (case live_token now (hash_reset_token env token) d of
        Some r \<Rightarrow> Some r
      | None \<Rightarrow> live_token now token d)"

definition update_password_by_token ::
  "account_env \<Rightarrow> int \<Rightarrow> nat \<Rightarrow> string \<Rightarrow> string \<Rightarrow> db \<Rightarrow> (user_row \<times> db) res" where
  "update_password_by_token env now salt token password d =
     bind_res (from_option (Error ''Invalid token or expired.'') (verify_reset_token env now token d)) (\<lambda>r.
     throw_if (length (filter (\<lambda>x. rt_id x = rt_id r) (reset_tokens d)) \<noteq> 1) (Error ''Invalid token or expired.'')
     (let d1 = d\<lparr>reset_tokens := delete_where (\<lambda>x. rt_id x = rt_id r) (reset_tokens d)\<rparr> in
      bind_res (from_option RowNotFound (find_user_by_email d1 (rt_email r))) (\<lambda>u.
      throw_if (\<not> us_is_active u) (Error ''Invalid token or expired.'')
      (new_password env salt password u d1))))"

section \<open>Throttling\<close>

datatype auth_action = Login | Password_Reset

definition action_name :: "auth_action \<Rightarrow> string" where
  "action_name a = (case a of Login \<Rightarrow> ''login'' | Password_Reset \<Rightarrow> ''password-reset'')"

definition ip_limit :: "auth_action \<Rightarrow> nat" where
  "ip_limit a = (case a of Login \<Rightarrow> 30 | Password_Reset \<Rightarrow> 20)"

definition identity_limit :: "auth_action \<Rightarrow> nat" where
  "identity_limit a = (case a of Login \<Rightarrow> 8 | Password_Reset \<Rightarrow> 5)"

definition rate_limit_key :: "account_env \<Rightarrow> string \<Rightarrow> string \<Rightarrow> string \<Rightarrow> string" where
  "rate_limit_key env action subject v = ac_sha256 env (action @ '':'' @ subject @ '':'' @ v)"

definition identity_of :: "string \<Rightarrow> string" where
  "identity_of identity = (let s = lowercase (trim identity) in if s = [] then ''missing'' else s)"

definition ip_key :: "account_env \<Rightarrow> auth_action \<Rightarrow> string \<Rightarrow> string" where
  "ip_key env a ip = rate_limit_key env (action_name a) ''ip'' ip"

definition identity_key :: "account_env \<Rightarrow> auth_action \<Rightarrow> string \<Rightarrow> string" where
  "identity_key env a identity = rate_limit_key env (action_name a) ''identity'' (identity_of identity)"

text \<open>The upsert of a counter: a window that has ended starts anew.\<close>

definition bump :: "int \<Rightarrow> rate_limit_row \<Rightarrow> rate_limit_row" where
  "bump now r =
     (if rl_window_ends_at r \<le> now then r\<lparr>rl_attempts := 1, rl_window_ends_at := now + 60000\<rparr>
      else r\<lparr>rl_attempts := rl_attempts r + 1\<rparr>)"

definition increment_counter :: "int \<Rightarrow> string \<Rightarrow> rate_limit_row list \<Rightarrow> nat \<times> rate_limit_row list" where
  "increment_counter now k t =
     (case find_by rl_key k t of
        None \<Rightarrow> (1, t @ [\<lparr> rl_key = k, rl_attempts = 1, rl_window_ends_at = now + 60000 \<rparr>])
      | Some r \<Rightarrow> (rl_attempts (bump now r), modify_by rl_key k (bump now) t))"

definition drop_ended :: "int \<Rightarrow> rate_limit_row list \<Rightarrow> rate_limit_row list" where
  "drop_ended now t = delete_where (\<lambda>r. rl_window_ends_at r \<le> now) t"

definition is_auth_request_throttled ::
  "account_env \<Rightarrow> auth_action \<Rightarrow> int \<Rightarrow> string \<Rightarrow> string \<Rightarrow> db \<Rightarrow> bool \<times> db" where
  "is_auth_request_throttled env a now ip identity d =
     (let (ip_attempts, t1) = increment_counter now (ip_key env a ip) (rate_limits d) in
      if ip_limit a < ip_attempts then (True, d\<lparr>rate_limits := drop_ended now t1\<rparr>)
      else (let (identity_attempts, t2) = increment_counter now (identity_key env a identity) t1 in
            (identity_limit a < identity_attempts, d\<lparr>rate_limits := drop_ended now t2\<rparr>)))"

definition clear_login_attempts :: "account_env \<Rightarrow> string \<Rightarrow> string \<Rightarrow> db \<Rightarrow> db" where
  "clear_login_attempts env ip identity d =
     d\<lparr>rate_limits := delete_where (\<lambda>r. rl_key r \<in> {ip_key env Login ip, identity_key env Login identity}) (rate_limits d)\<rparr>"

section \<open>Sessions\<close>

record session =
  se_user :: "string option"
  se_auth_version :: "int option"

definition no_session :: session where
  "no_session = \<lparr> se_user = None, se_auth_version = None \<rparr>"

text \<open>
  \<open>AuthMiddleware\<close>: the guard reads the user of the session; a request without one is sent to the
  sign-in page, and a session that is no longer valid is signed out.
\<close>

datatype auth_answer = To_Login | Signed_Out string | Continue user_row

definition auth_middleware :: "db \<Rightarrow> session \<Rightarrow> auth_answer" where
  "auth_middleware d se =
     (case se_user se of
        None \<Rightarrow> To_Login
      | Some i \<Rightarrow>
          (case find_user d i of
             Inl _ \<Rightarrow> To_Login
           | Inr u \<Rightarrow>
               if se_auth_version se \<noteq> Some (us_auth_version u)
               then Signed_Out ''Your session is no longer valid. Please sign in again.''
               else if \<not> us_is_active u
               then Signed_Out ''Your session was terminated because your account has been disabled.''
               else Continue u))"

definition root_middleware :: "auth_answer \<Rightarrow> bool" where
  "root_middleware a = (case a of Continue u \<Rightarrow> us_is_root u | _ \<Rightarrow> False)"

text \<open>\<open>RealIpMiddleware\<close>\<close>

definition normalize_ip :: "string \<Rightarrow> string" where
  "normalize_ip ip =
     (if ip = ''::1'' then ''127.0.0.1'' else if starts_with ip ''::ffff:'' then drop 7 ip else ip)"

text \<open>\<open>SilentAuthMiddleware\<close>, for a session that was restored from a remembered sign-in of the user.\<close>

definition silent_auth :: "user_row option \<Rightarrow> session \<Rightarrow> session" where
  "silent_auth via_remember se =
     (case via_remember of None \<Rightarrow> se | Some u \<Rightarrow> se\<lparr>se_user := Some (us_id u), se_auth_version := Some (us_auth_version u)\<rparr>)"

text \<open>
  \<open>SessionController.store\<close>. A failure flashes a message and leaves the session alone; a success puts the
  user and the version into it. \<open>rm\<close> is the row of a remembered sign-in.
\<close>

definition short_text :: "nat \<Rightarrow> jsval \<Rightarrow> string option" where
  "short_text n v = (case v of JStr s \<Rightarrow> if length s \<le> n then Some s else None | _ \<Rightarrow> None)"

definition verify_credentials :: "account_env \<Rightarrow> db \<Rightarrow> string \<Rightarrow> string \<Rightarrow> user_row option" where
  "verify_credentials env d email password =
     (case find_user_by_email d email of
        None \<Rightarrow> None
      | Some u \<Rightarrow> if ac_verify env (us_password_hash u) password then Some u else None)"

definition remember :: "jsval \<Rightarrow> user_row \<Rightarrow> remember_token_row \<Rightarrow> db \<Rightarrow> db" where
  "remember v u rm d =
     (if v = JStr ''on'' \<or> v = JBool True then d\<lparr>remember_tokens := remember_tokens d @ [rm\<lparr>rm_tokenable_id := us_id u\<rparr>]\<rparr> else d)"

definition store_session ::
  "account_env \<Rightarrow> int \<Rightarrow> string \<Rightarrow> remember_token_row \<Rightarrow> jsval \<Rightarrow> jsval \<Rightarrow> jsval \<Rightarrow> session \<Rightarrow> db \<Rightarrow> user_row res \<times> session \<times> db" where
  "store_session env now ip rm email_input password_input remember_me se d =
     (case (short_text 255 email_input, short_text 1024 password_input) of
        (Some email, Some password) \<Rightarrow>
          (let (throttled, d1) = is_auth_request_throttled env Login now ip email d in
           if throttled then (Inl (Error ''Too many attempts. Try again in one minute.''), se, d1)
           else (case verify_credentials env d1 (trim email) password of
               None \<Rightarrow> (Inl (Error ''Invalid email or password.''), se, d1)
             | Some u \<Rightarrow>
                 if \<not> us_is_active u then (Inl (Error ''Invalid email or password.''), se, d1)
                 else (Inr u, se\<lparr>se_user := Some (us_id u), se_auth_version := Some (us_auth_version u)\<rparr>,
                       clear_login_attempts env ip email (remember remember_me u rm d1))))
      | _ \<Rightarrow> (Inl (Error ''Invalid email or password.''), se, d))"

definition destroy_session :: "session \<Rightarrow> session" where
  "destroy_session se = no_session"

text \<open>\<open>/^[0-9a-f]{64}$/i\<close>\<close>

definition token_format :: "jsval \<Rightarrow> string option" where
  "token_format v = (case v of JStr s \<Rightarrow> if length s = 64 \<and> list_all is_hex_i s then Some s else None | _ \<Rightarrow> None)"

definition send_reset_link ::
  "account_env \<Rightarrow> bool \<Rightarrow> int \<Rightarrow> nat \<Rightarrow> string \<Rightarrow> string \<Rightarrow> jsval \<Rightarrow> db \<Rightarrow> ((user_row \<times> string) option \<times> db) res" where
  "send_reset_link env mail_enabled now rid token ip email_input d =
     (if \<not> mail_enabled
      then Inl (Error ''Password reset email delivery is temporarily disabled. Contact your administrator.'')
      else (let (throttled, d1) = is_auth_request_throttled env Password_Reset now ip (text_value email_input) d in
            if throttled then Inr (None, d1)
            else (case short_text 255 email_input of
                Some email \<Rightarrow> if email_format email then send_password_reset_link env mail_enabled now rid token email d1 else Inr (None, d1)
              | None \<Rightarrow> Inr (None, d1))))"

definition show_reset_page :: "account_env \<Rightarrow> int \<Rightarrow> jsval \<Rightarrow> db \<Rightarrow> bool" where
  "show_reset_page env now v d =
     (case token_format v of None \<Rightarrow> False | Some token \<Rightarrow> verify_reset_token env now token d \<noteq> None)"

text \<open>\<open>SessionController.updatePassword\<close>: any failure of the service becomes the same message.\<close>

definition update_password ::
  "account_env \<Rightarrow> int \<Rightarrow> nat \<Rightarrow> string \<Rightarrow> jsval \<Rightarrow> jsval \<Rightarrow> jsval \<Rightarrow> db \<Rightarrow> user_row res \<times> db" where
  "update_password env now salt ip token_input password_input confirmation d =
     (case (token_format token_input, valid_password password_input) of
        (Some token, Some password) \<Rightarrow>
          if password_input \<noteq> confirmation then (Inl (Error ''Passwords do not match.''), d)
          else (let (throttled, d1) = is_auth_request_throttled env Password_Reset now ip token d in
            if throttled then (Inl (Error ''Too many attempts. Try again in one minute.''), d1)
            else (case update_password_by_token env now salt token password d1 of
                Inl _ \<Rightarrow> (Inl (Error ''The reset link is invalid or has expired.''), d1)
              | Inr (u, d2) \<Rightarrow> (Inr u, d2)))
      | _ \<Rightarrow> (Inl (Error ''Use a valid reset link and a password between 12 and 128 characters.''), d))"

section \<open>Throttling holds\<close>

text \<open>Which requests of a sequence pass. A request has a time, an address and an identity.\<close>

fun passed :: "account_env \<Rightarrow> auth_action \<Rightarrow> (int \<times> string \<times> string) list \<Rightarrow> db \<Rightarrow> bool list" where
  "passed env a [] d = []"
| "passed env a ((now, ip, identity) # rs) d =
     (let (throttled, d') = is_auth_request_throttled env a now ip identity d in (\<not> throttled) # passed env a rs d')"

text \<open>The attempts counted under a key; and its window, if any, is open until \<open>t\<close>.\<close>

definition attempts :: "string \<Rightarrow> rate_limit_row list \<Rightarrow> nat" where
  "attempts k t = (case find_by rl_key k t of None \<Rightarrow> 0 | Some r \<Rightarrow> rl_attempts r)"

definition open_until :: "int \<Rightarrow> string \<Rightarrow> rate_limit_row list \<Rightarrow> bool" where
  "open_until e k t \<longleftrightarrow> (\<forall>r. find_by rl_key k t = Some r \<longrightarrow> e \<le> rl_window_ends_at r)"

lemma find_by_append: "find_by key k (t @ [r]) = (case find_by key k t of None \<Rightarrow> if key r = k then Some r else None | Some x \<Rightarrow> Some x)"
  by (induction t) (auto simp: find_by_def)

lemma bump_key [simp]: "rl_key (bump now r) = rl_key r"
  by (simp add: bump_def)

lemma increment_counter_effect:
  assumes "increment_counter now k' t = (n, t')" "open_until e k t" "now < e" "e \<le> now + 60000"
  shows "open_until e k t' \<and> attempts k t' = attempts k t + (if k' = k then 1 else 0) \<and> (k' = k \<longrightarrow> n = attempts k t')"
proof (cases "find_by rl_key k' t")
  case None
  then have "n = 1" "t' = t @ [\<lparr> rl_key = k', rl_attempts = 1, rl_window_ends_at = now + 60000 \<rparr>]"
    using assms(1) by (auto simp: increment_counter_def)
  then show ?thesis using assms(2,4) None by (auto simp: open_until_def attempts_def find_by_append split: option.splits)
next
  case (Some r)
  then have n: "n = rl_attempts (bump now r)" "t' = modify_by rl_key k' (bump now) t"
    using assms(1) by (auto simp: increment_counter_def)
  show ?thesis
  proof (cases "k' = k")
    case True
    then have "find_by rl_key k t' = Some (bump now r)" using Some by (simp add: n find_by_modify_by_same)
    moreover have "e \<le> rl_window_ends_at r" using assms(2) Some True by (simp add: open_until_def)
    ultimately show ?thesis using assms(3) Some True n(1) by (simp add: open_until_def attempts_def bump_def)
  next
    case False
    then have "find_by rl_key k t' = find_by rl_key k t" by (simp add: n find_by_modify_by_other)
    then show ?thesis using assms(2) False by (simp add: open_until_def attempts_def)
  qed
qed

lemma drop_ended_find:
  "open_until e k t \<Longrightarrow> now < e \<Longrightarrow> find_by rl_key k (drop_ended now t) = find_by rl_key k t"
  by (induction t) (auto simp: open_until_def find_by_def drop_ended_def delete_where_def split: if_splits)

lemma drop_ended_effect:
  "open_until e k t \<Longrightarrow> now < e \<Longrightarrow> open_until e k (drop_ended now t) \<and> attempts k (drop_ended now t) = attempts k t"
  by (simp add: open_until_def attempts_def drop_ended_find [unfolded open_until_def])

text \<open>One request: a counter never loses attempts, and a request that passes is counted within the limits.\<close>

lemma throttled_step:
  assumes "is_auth_request_throttled env a now ip identity d = (throttled, d')"
    and "open_until e k (rate_limits d)" "now < e" "e \<le> now + 60000"
  shows "open_until e k (rate_limits d')" "attempts k (rate_limits d) \<le> attempts k (rate_limits d')"
    and "\<not> throttled \<Longrightarrow> k = ip_key env a ip \<Longrightarrow> attempts k (rate_limits d) < ip_limit a"
    and "\<not> throttled \<Longrightarrow> k = identity_key env a identity \<Longrightarrow>
      attempts k (rate_limits d) < attempts k (rate_limits d') \<and> attempts k (rate_limits d') \<le> identity_limit a"
    and "\<not> throttled \<Longrightarrow> k = ip_key env a ip \<Longrightarrow> attempts k (rate_limits d) < attempts k (rate_limits d')"
proof -
  obtain n1 t1 where 1: "increment_counter now (ip_key env a ip) (rate_limits d) = (n1, t1)" by (metis surj_pair)
  obtain n2 t2 where 2: "increment_counter now (identity_key env a identity) t1 = (n2, t2)" by (metis surj_pair)
  note s1 = increment_counter_effect [OF 1 assms(2-4)]
  note s2 = increment_counter_effect [OF 2 conjunct1 [OF s1] assms(3,4)]
  have d1: "open_until e k (drop_ended now t1) \<and> attempts k (drop_ended now t1) = attempts k t1"
    using s1 assms(3) by (intro drop_ended_effect) auto
  have d2: "open_until e k (drop_ended now t2) \<and> attempts k (drop_ended now t2) = attempts k t2"
    using s2 assms(3) by (intro drop_ended_effect) auto
  show "open_until e k (rate_limits d')" "attempts k (rate_limits d) \<le> attempts k (rate_limits d')"
    "\<not> throttled \<Longrightarrow> k = ip_key env a ip \<Longrightarrow> attempts k (rate_limits d) < ip_limit a"
    "\<not> throttled \<Longrightarrow> k = identity_key env a identity \<Longrightarrow>
      attempts k (rate_limits d) < attempts k (rate_limits d') \<and> attempts k (rate_limits d') \<le> identity_limit a"
    "\<not> throttled \<Longrightarrow> k = ip_key env a ip \<Longrightarrow> attempts k (rate_limits d) < attempts k (rate_limits d')"
    using assms(1) s1 s2 d1 d2 by (auto simp: is_auth_request_throttled_def 1 2 split: if_splits)
qed

text \<open>The number of requests that pass, for a counter that bounds each of them.\<close>

lemma passed_bound:
  assumes "open_until e k (rate_limits d)" "\<forall>(now, ip, identity)\<in>set rs. now < e \<and> e \<le> now + 60000"
    and "\<And>now ip identity d d'. (now, ip, identity) \<in> set rs \<Longrightarrow> open_until e k (rate_limits d) \<Longrightarrow>
      is_auth_request_throttled env a now ip identity d = (False, d') \<Longrightarrow>
      attempts k (rate_limits d) < attempts k (rate_limits d') \<and> attempts k (rate_limits d) < limit"
  shows "count_list (passed env a rs d) True \<le> limit - attempts k (rate_limits d)"
  using assms
proof (induction rs arbitrary: d)
  case (Cons r rs)
  obtain now ip identity where r: "r = (now, ip, identity)" by (cases r)
  obtain throttled d' where s: "is_auth_request_throttled env a now ip identity d = (throttled, d')" by (metis surj_pair)
  have now: "now < e" "e \<le> now + 60000" using Cons.prems(2) r by auto
  note step = throttled_step [OF s Cons.prems(1) now]
  have IH: "count_list (passed env a rs d') True \<le> limit - attempts k (rate_limits d')"
  proof (rule Cons.IH [OF step(1)])
    show "\<forall>(now, ip, identity)\<in>set rs. now < e \<and> e \<le> now + 60000" using Cons.prems(2) by auto
  qed (rule Cons.prems(3) [OF list.set_intros(2)])
  show ?case
  proof (cases throttled)
    case True
    then show ?thesis using IH step(2) by (simp add: r s)
  next
    case False
    then have "attempts k (rate_limits d) < attempts k (rate_limits d') \<and> attempts k (rate_limits d) < limit"
      using Cons.prems(3) [of now ip identity d d'] Cons.prems(1) s r by simp
    then show ?thesis using IH False by (auto simp: r s)
  qed
qed simp


section \<open>Accounts over time\<close>

text \<open>Everything that writes users, tokens and counters, in any order.\<close>

inductive account_step :: "account_env \<Rightarrow> db \<Rightarrow> db \<Rightarrow> bool" for env where
  user_created: "create_user env now i salt pw e v d = Inr (x, d') \<Longrightarrow> account_step env d d'"
| user_updated: "update_user i v d = Inr (u, d') \<Longrightarrow> account_step env d d'"
| password_reset: "reset_password env salt pw i current d = Inr (x, d') \<Longrightarrow> account_step env d d'"
| active_toggled: "toggle_active_user i current d = Inr (y, d') \<Longrightarrow> account_step env d d'"
| password_changed: "change_password env salt i cur v d = Inr (u, d') \<Longrightarrow> account_step env d d'"
| appearance: "update_appearance i theme v d = Inr (u, d') \<Longrightarrow> account_step env d d'"
| signed_in: "store_session env now ip rm e v w se d = (r, se', d') \<Longrightarrow> account_step env d d'"
| link_sent: "send_reset_link env mail now rid token ip e d = Inr (z, d') \<Longrightarrow> account_step env d d'"
| password_updated: "update_password env now salt ip tv v w d = (r, d') \<Longrightarrow> account_step env d d'"

text \<open>What every operation keeps of a user.\<close>

definition grows :: "user_row \<Rightarrow> user_row \<Rightarrow> bool" where
  "grows u u' \<longleftrightarrow> us_id u' = us_id u \<and> us_is_root u' = us_is_root u \<and> us_deleted_at u' = us_deleted_at u \<and>
     us_auth_version u \<le> us_auth_version u' \<and> (us_is_root u \<longrightarrow> us_is_active u \<longrightarrow> us_is_active u')"

definition users_grow :: "user_row list \<Rightarrow> user_row list \<Rightarrow> bool" where
  "users_grow t t' \<longleftrightarrow> (\<exists>new. list_all2 grows t (take (length t) t') \<and> t' = take (length t) t' @ new \<and> list_all (\<lambda>u. \<not> us_is_root u) new)"

lemma grows_refl [simp]: "grows u u"
  by (simp add: grows_def)

lemma grows_trans: "grows u v \<Longrightarrow> grows v w \<Longrightarrow> grows u w"
  by (auto simp: grows_def)

lemma users_growI: "list_all2 grows t s \<Longrightarrow> list_all (\<lambda>u. \<not> us_is_root u) new \<Longrightarrow> users_grow t (s @ new)"
  using list_all2_lengthD [of grows t s] by (auto simp: users_grow_def)

lemma users_growE:
  assumes "users_grow t t'"
  obtains s new where "list_all2 grows t s" "t' = s @ new" "list_all (\<lambda>u. \<not> us_is_root u) new"
  using assms by (auto simp: users_grow_def)

lemma users_grow_refl [simp]: "users_grow t t"
  using users_growI [of t t "[]"] by (simp add: list_all2_refl)

lemma users_grow_trans: "users_grow t1 t2 \<Longrightarrow> users_grow t2 t3 \<Longrightarrow> users_grow t1 t3"
proof -
  assume "users_grow t1 t2" "users_grow t2 t3"
  then obtain s1 n1 s2 n2 where s: "list_all2 grows t1 s1" "t2 = s1 @ n1" "list_all (\<lambda>u. \<not> us_is_root u) n1"
    "list_all2 grows t2 s2" "t3 = s2 @ n2" "list_all (\<lambda>u. \<not> us_is_root u) n2" by (metis users_growE)
  from s(2,4) obtain a b where ab: "s2 = a @ b" "list_all2 grows s1 a" "list_all2 grows n1 b" by (auto simp: list_all2_append1)
  have "list_all2 grows t1 a" using list_all2_trans [OF grows_trans s(1) ab(2)] .
  moreover have "list_all (\<lambda>u. \<not> us_is_root u) (b @ n2)"
    using s(3,6) ab(3) by (auto simp: list_all_length list_all2_conv_all_nth grows_def nth_append)
  ultimately show "users_grow t1 t3" unfolding s(5) ab(1) append_assoc by (rule users_growI)
qed

lemma users_grow_modify: "(\<And>u. u \<in> set t \<Longrightarrow> us_id u = i \<Longrightarrow> grows u (f u)) \<Longrightarrow> users_grow t (modify_by us_id i f t)"
proof -
  assume "\<And>u. u \<in> set t \<Longrightarrow> us_id u = i \<Longrightarrow> grows u (f u)"
  then have "list_all2 grows t (modify_by us_id i f t)"
    by (auto simp: modify_by_def list_all2_map2 intro!: list_all2_all_nthI)
  from users_growI [OF this, of "[]"] show ?thesis by simp
qed

lemma save_users_Inr [res_simps]:
  "save_users tbl d = Inr d' \<longleftrightarrow> satisfies user_constraints tbl \<and> d' = d\<lparr>users := tbl\<rparr>"
  by (auto simp: save_users_def res_simps)

lemma throttled_users [simp]:
  "is_auth_request_throttled env a now ip identity d = (b, d') \<Longrightarrow> users d' = users d"
  by (auto simp: is_auth_request_throttled_def split: prod.splits if_splits)

lemma new_password_effect:
  "new_password env salt password u d = Inr (u', d') \<Longrightarrow>
     users d' = modify_by us_id (us_id u) (\<lambda>r. next_version (set_password env salt password r)) (users d) \<and>
     satisfies user_constraints (users d')"
  by (auto simp: new_password_def res_simps drop_tokens_def Let_def)

lemma new_password_grows: "new_password env salt password u d = Inr (u', d') \<Longrightarrow> users_grow (users d) (users d')"
  by (auto dest!: new_password_effect intro!: users_grow_modify simp: grows_def next_version_def set_password_def)

lemma find_user_Inr: "find_user d i = Inr u \<Longrightarrow> u \<in> set (users d) \<and> us_id u = i \<and> us_deleted_at u = None"
  by (auto simp: find_user_def from_option_Inr row_simps dest!: find_by_Some)

lemma token_password:
  assumes "update_password_by_token env now salt token password d = Inr (u, d')"
  obtains d1 u0 where "users d1 = users d" "us_is_active u0" "us_deleted_at u0 = None" "u0 \<in> set (users d)"
    "new_password env salt password u0 d1 = Inr (u, d')"
proof -
  let ?d = "\<lambda>r. d\<lparr>reset_tokens := delete_where (\<lambda>x. rt_id x = rt_id r) (reset_tokens d)\<rparr>"
  obtain r where r: "verify_reset_token env now token d = Some r"
    using assms by (auto simp: update_password_by_token_def res_simps)
  then have "\<exists>u0. find_user_by_email (?d r) (rt_email r) = Some u0 \<and> us_is_active u0 \<and>
      new_password env salt password u0 (?d r) = Inr (u, d')"
    using assms by (auto simp: update_password_by_token_def res_simps Let_def)
  then obtain u0 where "find_user_by_email (?d r) (rt_email r) = Some u0" "us_is_active u0"
    "new_password env salt password u0 (?d r) = Inr (u, d')" by blast
  then show thesis using that [of "?d r" u0] by (auto simp: find_user_by_email_def row_simps dest!: find_by_Some)
qed

lemma token_password_grows:
  assumes "update_password_by_token env now salt token password d = Inr (u, d')"
  shows "users_grow (users d) (users d') \<and> satisfies user_constraints (users d')"
proof -
  obtain d1 u0 where "users d1 = users d" "new_password env salt password u0 d1 = Inr (u, d')"
    using assms by (rule token_password)
  then show ?thesis using new_password_grows [of env salt password u0 d1 u d'] new_password_effect [of env salt password u0 d1 u d'] by metis
qed

lemma account_step_grows:
  assumes "account_step env d d'" "satisfies user_constraints (users d)"
  shows "users_grow (users d) (users d') \<and> satisfies user_constraints (users d')"
  using assms(1)
proof cases
  case (user_created now i salt pw e v x)
  then obtain u where "users d' = users d @ [u]" "\<not> us_is_root u" "satisfies user_constraints (users d')"
    by (auto simp: create_user_def res_simps Let_def)
  then show ?thesis using users_growI [of "users d" "users d" "[u]"] by (simp add: list_all2_refl)
next
  case (user_updated i v u)
  then show ?thesis by (auto simp: update_user_def res_simps set_name_def grows_def intro!: users_grow_modify)
next
  case (password_reset salt pw i current x)
  then show ?thesis by (auto simp: reset_password_def res_simps dest: new_password_grows new_password_effect)
next
  case (active_toggled i current y)
  then obtain u where u: "find_user d i = Inr u" "\<not> us_is_root u" "users d' = modify_by us_id i flip_active (users d)"
    "satisfies user_constraints (users d')" by (auto simp: toggle_active_user_def res_simps)
  have "x = u" if "x \<in> set (users d)" "us_id x = i" for x
    using that find_user_Inr [OF u(1)] assms(2) by (auto simp: user_constraints_def unique_on_total dest: distinct_map_inj)
  then have "users_grow (users d) (users d')" unfolding u(3)
    by (intro users_grow_modify) (use u(2) in \<open>auto simp: grows_def flip_active_def next_version_def\<close>)
  then show ?thesis using u(4) by simp
next
  case (password_changed salt i cur v u)
  then show ?thesis by (auto simp: change_password_def res_simps dest: new_password_grows new_password_effect)
next
  case (appearance i theme v u)
  then show ?thesis
    by (auto simp: update_appearance_def res_simps set_appearance_def grows_def split: option.splits intro!: users_grow_modify)
next
  case (signed_in now ip rm e v w se r se')
  then have "users d' = users d"
    by (auto simp: store_session_def clear_login_attempts_def remember_def split: option.splits prod.splits if_splits)
  then show ?thesis using assms(2) by simp
next
  case (link_sent mail now rid token ip e z)
  then have "users d' = users d"
    by (auto simp: send_reset_link_def send_password_reset_link_def res_simps Let_def split: option.splits prod.splits if_splits)
  then show ?thesis using assms(2) by simp
next
  case (password_updated now salt ip tv v w r)
  then have "users d' = users d \<or> (users_grow (users d) (users d') \<and> satisfies user_constraints (users d'))"
    by (auto simp: update_password_def split: option.splits prod.splits if_splits sum.splits dest!: token_password_grows)
  then show ?thesis using assms(2) by auto
qed

lemma account_steps_grow:
  "(account_step env)\<^sup>*\<^sup>* d d' \<Longrightarrow> satisfies user_constraints (users d) \<Longrightarrow>
     users_grow (users d) (users d') \<and> satisfies user_constraints (users d')"
  by (induction rule: rtranclp_induct) (auto dest: account_step_grows intro: users_grow_trans)

lemma users_grow_mem:
  assumes "users_grow t t'" "u \<in> set t"
  obtains u' where "u' \<in> set t'" "grows u u'"
proof -
  obtain s new where s: "list_all2 grows t s" "t' = s @ new" using assms(1) by (rule users_growE)
  then show thesis using assms(2) that by (auto simp: list_all2_conv_all_nth in_set_conv_nth nth_append) (metis length_append nth_append trans_less_add1)
qed

lemma find_user_mem:
  assumes "satisfies user_constraints (users d)" "u \<in> set (users d)" "us_deleted_at u = None"
  shows "find_user d (us_id u) = Inr u"
proof -
  have "distinct (map us_id (ignore_deleted us_deleted_at (users d)))"
    using assms(1) by (simp add: user_constraints_def unique_on_total ignore_deleted_def distinct_map_filter')
  then have "find_by us_id (us_id u) (ignore_deleted us_deleted_at (users d)) = Some u"
    by (rule find_by_distinct) (use assms(2,3) in \<open>simp add: ignore_deleted_def\<close>)
  then show ?thesis by (simp add: find_user_def)
qed

text \<open>The operations that must end the sessions of a user.\<close>

inductive credential_change :: "account_env \<Rightarrow> string \<Rightarrow> db \<Rightarrow> db \<Rightarrow> bool" for env i where
  "reset_password env salt pw i current d = Inr (x, d') \<Longrightarrow> credential_change env i d d'"
| "toggle_active_user i current d = Inr (y, d') \<Longrightarrow> credential_change env i d d'"
| "change_password env salt i cur v d = Inr (u, d') \<Longrightarrow> credential_change env i d d'"
| "update_password_by_token env now salt token password d = Inr (u, d') \<Longrightarrow> us_id u = i \<Longrightarrow> credential_change env i d d'"

lemma modify_version:
  assumes "u \<in> set t" "us_id u = i" "us_auth_version (f u) = us_auth_version u + 1" "us_id (f u) = us_id u"
  shows "\<exists>u'\<in>set (modify_by us_id i f t). us_id u' = i \<and> us_auth_version u < us_auth_version u'"
  using assms by (intro bexI [of _ "f u"]) (auto simp: modify_by_def)

lemma new_password_version:
  assumes "new_password env salt password u0 d = Inr (u', d')" "u \<in> set (users d)" "us_id u = us_id u0"
  shows "us_id u' = us_id u0 \<and> (\<exists>w\<in>set (users d'). us_id w = us_id u0 \<and> us_auth_version u < us_auth_version w)"
proof -
  have "us_id u' = us_id u0" using assms(1) by (auto simp: new_password_def res_simps Let_def next_version_def set_password_def)
  then show ?thesis using new_password_effect [OF assms(1)]
      modify_version [OF assms(2,3), of "\<lambda>r. next_version (set_password env salt password r)"]
    by (simp add: next_version_def set_password_def)
qed

lemma credential_change_effect:
  assumes "credential_change env i d d'" "satisfies user_constraints (users d)" "u \<in> set (users d)" "us_id u = i"
  shows "satisfies user_constraints (users d') \<and> (\<exists>w\<in>set (users d'). us_id w = i \<and> us_auth_version u < us_auth_version w)"
  using assms(1)
proof cases
  case (1 salt pw current x)
  then obtain u0 u' where "us_id u0 = i" "new_password env salt pw u0 d = Inr (u', d')"
    by (auto simp: reset_password_def res_simps dest!: find_user_Inr)
  then show ?thesis using new_password_version new_password_effect assms(3,4) by metis
next
  case (2 current y)
  then have "satisfies user_constraints (users d')" "users d' = modify_by us_id i flip_active (users d)"
    by (auto simp: toggle_active_user_def res_simps)
  then show ?thesis using modify_version [OF assms(3,4), of flip_active] by (simp add: flip_active_def next_version_def)
next
  case (3 salt cur v u')
  then obtain u0 pw where "us_id u0 = i" "new_password env salt pw u0 d = Inr (u', d')"
    by (auto simp: change_password_def res_simps dest!: find_user_Inr)
  then show ?thesis using new_password_version new_password_effect assms(3,4) by metis
next
  case (4 now salt token password u')
  obtain d1 u0 where d1: "users d1 = users d" "new_password env salt password u0 d1 = Inr (u', d')"
    using 4(1) by (rule token_password)
  then have "us_id u' = us_id u0" by (auto simp: new_password_def res_simps Let_def next_version_def set_password_def)
  then show ?thesis using new_password_version [OF d1(2), of u] new_password_effect [OF d1(2)] assms(3,4) 4(2) d1(1) by auto
qed

text \<open>
  C22. A session that a user held before the password was changed or reset, or before the account was
  enabled or disabled, is never accepted again, whatever else happens before and afterwards.
\<close>

theorem old_sessions_rejected:
  assumes "satisfies user_constraints (users d0)" "find_user d0 i = Inr u0"
    and "se_user se = Some i" "se_auth_version se = Some v" "v \<le> us_auth_version u0"
    and "(account_step env)\<^sup>*\<^sup>* d0 d1" "credential_change env i d1 d2" "(account_step env)\<^sup>*\<^sup>* d2 d3"
  shows "auth_middleware d3 se \<noteq> Continue u"
proof
  assume "auth_middleware d3 se = Continue u"
  then have f: "find_user d3 i = Inr u" "v = us_auth_version u"
    using assms(3,4) by (auto simp: auth_middleware_def split: sum.splits if_splits)
  note g1 = account_steps_grow [OF assms(6,1)]
  obtain u1 where u1: "u1 \<in> set (users d1)" "grows u0 u1"
    using users_grow_mem [OF conjunct1 [OF g1]] find_user_Inr [OF assms(2)] by metis
  then have "us_id u1 = i" "v \<le> us_auth_version u1" using find_user_Inr [OF assms(2)] assms(5) by (auto simp: grows_def)
  then obtain u2 where u2: "satisfies user_constraints (users d2)" "u2 \<in> set (users d2)" "us_id u2 = i" "v < us_auth_version u2"
    using credential_change_effect [OF assms(7) conjunct2 [OF g1] u1(1)] by auto
  note g3 = account_steps_grow [OF assms(8) u2(1)]
  obtain u3 where "u3 \<in> set (users d3)" "grows u2 u3" using users_grow_mem [OF conjunct1 [OF g3] u2(2)] by metis
  then have "u3 \<in> set (users d3)" "us_id u3 = i" "v < us_auth_version u3" using u2(3,4) by (auto simp: grows_def)
  moreover have "u \<in> set (users d3)" "us_id u = i" using find_user_Inr [OF f(1)] by simp_all
  ultimately have "u3 = u" using g3 by (auto simp: user_constraints_def unique_on_total dest: distinct_map_inj)
  with \<open>v < us_auth_version u3\<close> f(2) show False by simp
qed

text \<open>
  C26. No sequence of requests makes anyone a root user or takes the role away, and no root user is ever
  disabled or locked out: an enabled root user is found and enabled afterwards.
\<close>

theorem roots_kept:
  assumes "(account_step env)\<^sup>*\<^sup>* d d'" "satisfies user_constraints (users d)"
  shows "us_id ` set (filter us_is_root (users d')) = us_id ` set (filter us_is_root (users d)) \<and>
     (\<forall>i u. find_user d i = Inr u \<longrightarrow> us_is_root u \<longrightarrow> us_is_active u \<longrightarrow>
        (\<exists>u'. find_user d' i = Inr u' \<and> us_is_root u' \<and> us_is_active u'))"
proof (intro conjI allI impI)
  note g = account_steps_grow [OF assms]
  obtain s new where s: "list_all2 grows (users d) s" "users d' = s @ new" "list_all (\<lambda>u. \<not> us_is_root u) new"
    using g by (metis users_growE)
  have "map us_id (filter us_is_root s) = map us_id (filter us_is_root (users d))"
    using s(1) by (induction rule: list_all2_induct) (auto simp: grows_def)
  moreover have "filter us_is_root new = []" using s(3) by (auto simp: filter_empty_conv list_all_iff)
  ultimately show "us_id ` set (filter us_is_root (users d')) = us_id ` set (filter us_is_root (users d))"
    unfolding s(2) filter_append by (metis append_Nil2 list.set_map)
  fix i u assume u: "find_user d i = Inr u" "us_is_root u" "us_is_active u"
  then obtain u' where u': "u' \<in> set (users d')" "grows u u'"
    using users_grow_mem [OF conjunct1 [OF g]] find_user_Inr [OF u(1)] by metis
  then have "us_id u' = i" "us_deleted_at u' = None" "us_is_root u'" "us_is_active u'"
    using u find_user_Inr [OF u(1)] by (auto simp: grows_def)
  moreover from this have "find_user d' i = Inr u'" using find_user_mem [OF conjunct2 [OF g] u'(1)] by auto
  ultimately show "\<exists>u'. find_user d' i = Inr u' \<and> us_is_root u' \<and> us_is_active u'" by blast
qed

section \<open>Reset links and signing in\<close>

definition hashes_ok :: "account_env \<Rightarrow> bool" where
  "hashes_ok env \<longleftrightarrow> (\<forall>salt p. ac_verify env (ac_hash env salt p) p)"

lemma live_token_Some: "live_token now token d = Some r \<Longrightarrow> r \<in> set (reset_tokens d) \<and> rt_token r = token \<and> now < rt_expires_at r"
  unfolding live_token_def by (drule find_Some_mem) simp

lemma verified_token:
  "verify_reset_token env now token d = Some r \<Longrightarrow>
     r \<in> set (reset_tokens d) \<and> rt_token r \<in> {hash_reset_token env token, token} \<and> now < rt_expires_at r"
  by (auto simp: verify_reset_token_def split: option.splits dest!: live_token_Some)

text \<open>
  C24. A reset link is used up by setting a password: the link was stored and not expired, it belonged to
  the enabled user whose password is now the new one, the version of the user moved on by one, and
  neither a reset link nor a remembered session of the user is left.
\<close>

theorem reset_link_once:
  assumes "hashes_ok env" "satisfies user_constraints (users d)"
    and "update_password_by_token env now salt token password d = Inr (u, d')"
  shows "\<exists>r u0. r \<in> set (reset_tokens d) \<and> rt_token r \<in> {hash_reset_token env token, token} \<and> now < rt_expires_at r \<and>
     rt_email r = us_email u \<and> find_user d (us_id u) = Inr u0 \<and> us_is_active u0 \<and> find_user d' (us_id u) = Inr u \<and>
     us_auth_version u = us_auth_version u0 + 1 \<and>
     (password \<noteq> us_password_hash u0 \<longrightarrow> ac_verify env (us_password_hash u) password) \<and>
     us_email u \<notin> rt_email ` set (reset_tokens d') \<and> us_id u \<notin> rm_tokenable_id ` set (remember_tokens d')"
proof -
  let ?d = "\<lambda>r. d\<lparr>reset_tokens := delete_where (\<lambda>x. rt_id x = rt_id r) (reset_tokens d)\<rparr>"
  obtain r where r: "verify_reset_token env now token d = Some r"
    using assms(3) by (auto simp: update_password_by_token_def res_simps)
  have "\<exists>u0. find_user_by_email (?d r) (rt_email r) = Some u0 \<and> us_is_active u0 \<and>
      new_password env salt password u0 (?d r) = Inr (u, d')"
    using assms(3) r by (auto simp: update_password_by_token_def res_simps Let_def)
  then obtain u0 where u0: "find_user_by_email (?d r) (rt_email r) = Some u0" "us_is_active u0"
    and n: "new_password env salt password u0 (?d r) = Inr (u, d')" by blast
  have m: "u0 \<in> set (users d)" "us_email u0 = rt_email r" "us_deleted_at u0 = None"
    using u0(1) by (auto simp: find_user_by_email_def row_simps dest!: find_by_Some)
  have u: "u = next_version (set_password env salt password u0)"
    "reset_tokens d' = delete_where (\<lambda>r. rt_email r = us_email u0) (reset_tokens (?d r))"
    "remember_tokens d' = delete_where (\<lambda>r. rm_tokenable_id r = us_id u0) (remember_tokens d)"
    using n by (auto simp: new_password_def res_simps Let_def drop_tokens_def)
  have same: "us_id u = us_id u0" "us_email u = us_email u0" "us_deleted_at u = us_deleted_at u0"
    "us_auth_version u = us_auth_version u0 + 1" by (simp_all add: u(1) next_version_def set_password_def)
  have e: "users d' = modify_by us_id (us_id u0) (\<lambda>r. next_version (set_password env salt password r)) (users d)"
    using conjunct1 [OF new_password_effect [OF n]] by simp
  have e2: "satisfies user_constraints (users d')" by (rule conjunct2 [OF new_password_effect [OF n]])
  have "u \<in> set (users d')" unfolding e u(1) using m(1) by (auto simp: modify_by_def)
  then have "find_user d' (us_id u) = Inr u" using find_user_mem [OF e2] m(3) same(3) by simp
  moreover have "password \<noteq> us_password_hash u0 \<longrightarrow> ac_verify env (us_password_hash u) password"
    using assms(1) by (simp add: u(1) next_version_def set_password_def hashes_ok_def)
  ultimately show ?thesis using verified_token [OF r] u0(2) m(2) same find_user_mem [OF assms(2) m(1,3)]
    by (intro exI [of _ r] exI [of _ u0]) (auto simp: u(2,3) delete_where_def)
qed

text \<open>
  Whoever reads the stored hash of a reset link can use the hash itself as the link: the second look-up,
  meant for links of older versions, compares the text that is presented with the stored hash.
\<close>

theorem stored_hash_accepted:
  assumes "satisfies user_constraints (users d)" "satisfies reset_token_constraints (reset_tokens d)"
    and "r \<in> set (reset_tokens d)" "now < rt_expires_at r" "rt_token r = hash_reset_token env token"
    and "live_token now (hash_reset_token env (rt_token r)) d = None"
    and "find_user_by_email d (rt_email r) = Some u0" "us_is_active u0"
  shows "\<exists>u d'. update_password_by_token env now salt (rt_token r) password d = Inr (u, d') \<and> us_id u = us_id u0"
proof -
  have dist: "distinct (map rt_token (reset_tokens d))" "distinct (map rt_id (reset_tokens d))"
    using assms(2) by (simp_all add: reset_token_constraints_def unique_on_total)
  have "live_token now (rt_token r) d = Some r"
    unfolding live_token_def by (rule find_unique) (use assms(3,4) dist(1) in \<open>auto dest: distinct_map_inj\<close>)
  then have v: "verify_reset_token env now (rt_token r) d = Some r" by (simp add: verify_reset_token_def assms(6))
  have "filter (\<lambda>x. rt_id x = rt_id r) t = [r]" if "r \<in> set t" "distinct (map rt_id t)" for t
    using that by (induction t) (auto simp: filter_empty_conv image_iff)
  from this [OF assms(3) dist(2)] have one: "filter (\<lambda>x. rt_id x = rt_id r) (reset_tokens d) = [r]" .
  let ?d = "d\<lparr>reset_tokens := delete_where (\<lambda>x. rt_id x = rt_id r) (reset_tokens d)\<rparr>"
  let ?f = "\<lambda>r. next_version (set_password env salt password r)"
  have "map us_id (modify_by us_id (us_id u0) ?f (users d)) = map us_id (users d)"
    "map us_email (modify_by us_id (us_id u0) ?f (users d)) = map us_email (users d)"
    by (auto simp: modify_by_def next_version_def set_password_def)
  then have c: "satisfies user_constraints (modify_by us_id (us_id u0) ?f (users d))"
    using assms(1) by (simp add: user_constraints_def unique_on_total)
  then have "new_password env salt password u0 ?d = Inr (?f u0, drop_tokens u0 (?d\<lparr>users := modify_by us_id (us_id u0) ?f (users d)\<rparr>))"
    by (simp add: new_password_def Let_def save_users_def checked_satisfies)
  moreover have "find_user_by_email ?d (rt_email r) = Some u0" using assms(7) by (simp add: find_user_by_email_def)
  ultimately have "update_password_by_token env now salt (rt_token r) password d =
      Inr (?f u0, drop_tokens u0 (?d\<lparr>users := modify_by us_id (us_id u0) ?f (users d)\<rparr>))"
    using v one assms(8) by (simp add: update_password_by_token_def Let_def)
  then show ?thesis by (simp add: next_version_def set_password_def)
qed

text \<open>
  Signing in succeeds only for an enabled user whose password verifies and whose request is not
  throttled; the session it leaves is accepted as that user, and the attempts of the address and of
  the identity are forgotten.
\<close>

theorem sign_in_sound:
  assumes "satisfies user_constraints (users d)"
    and "store_session env now ip rm e v w se d = (Inr u, se', d')"
  shows "\<exists>email password. e = JStr email \<and> v = JStr password \<and> find_user_by_email d (trim email) = Some u \<and>
     ac_verify env (us_password_hash u) password \<and> us_is_active u \<and>
     \<not> fst (is_auth_request_throttled env Login now ip email d) \<and> auth_middleware d' se' = Continue u \<and>
     {ip_key env Login ip, identity_key env Login email} \<inter> rl_key ` set (rate_limits d') = {}"
proof -
  obtain email password where e: "short_text 255 e = Some email" "short_text 1024 v = Some password"
    using assms(2) by (auto simp: store_session_def split: option.splits)
  obtain throttled d1 where t: "is_auth_request_throttled env Login now ip email d = (throttled, d1)" by (metis surj_pair)
  have u1: "users d1 = users d" using t by (rule throttled_users)
  have s: "\<not> throttled" "verify_credentials env d1 (trim email) password = Some u" "us_is_active u"
    "se' = se\<lparr>se_user := Some (us_id u), se_auth_version := Some (us_auth_version u)\<rparr>"
    "d' = clear_login_attempts env ip email (remember w u rm d1)"
    using assms(2) e t by (auto simp: store_session_def split: option.splits if_splits)
  have f: "find_user_by_email d (trim email) = Some u" "ac_verify env (us_password_hash u) password"
    using s(2) u1 by (auto simp: verify_credentials_def find_user_by_email_def split: option.splits if_splits)
  have "u \<in> set (users d)" "us_deleted_at u = None"
    using f(1) by (auto simp: find_user_by_email_def row_simps dest!: find_by_Some)
  then have "find_user d (us_id u) = Inr u" by (rule find_user_mem [OF assms(1)])
  moreover have "users d' = users d" using u1 by (simp add: s(5) clear_login_attempts_def remember_def)
  ultimately have "find_user d' (us_id u) = Inr u" by (simp add: find_user_def)
  then have "auth_middleware d' se' = Continue u" using s(3) by (simp add: auth_middleware_def s(4))
  moreover have "{ip_key env Login ip, identity_key env Login email} \<inter> rl_key ` set (rate_limits d') = {}"
    by (auto simp: s(5) clear_login_attempts_def delete_where_def)
  moreover have "e = JStr email" "v = JStr password" using e by (auto simp: short_text_def split: jsval.splits if_splits)
  ultimately show ?thesis using f s(1,3) t by auto
qed

section \<open>Concrete runs\<close>

definition toy_account :: account_env where
  "toy_account = \<lparr> ac_sha256 = (\<lambda>s. CHR ''h'' # s), ac_hash = (\<lambda>_ p. CHR ''#'' # p), ac_verify = (\<lambda>h p. h = CHR ''#'' # p) \<rparr>"

definition sample_user :: user_row where
  "sample_user = \<lparr> us_id = ''u1'', us_email = ''a@b.c'', us_full_name = None, us_password_hash = ''#old'', us_is_active = True,
     us_is_root = False, us_auth_version = 0, us_theme = ''system'', us_accent_color = 0, us_created_at = 1, us_deleted_at = None \<rparr>"

definition sample_root :: user_row where
  "sample_root = sample_user\<lparr>us_id := ''r1'', us_email := ''root@b.c'', us_is_root := True\<rparr>"

definition sample_link :: reset_token_row where
  "sample_link = \<lparr> rt_id = 1, rt_email = ''a@b.c'', rt_token = ''htoken'', rt_expires_at = 100 \<rparr>"

definition account_db :: db where
  "account_db = empty_db\<lparr>users := [sample_root, sample_user], reset_tokens := [sample_link]\<rparr>"

lemma account_ok: "satisfies user_constraints (users account_db)" "satisfies reset_token_constraints (reset_tokens account_db)"
  "hashes_ok toy_account"
  by (simp_all add: account_db_def sample_root_def sample_user_def user_constraints_def reset_token_constraints_def
      unique_on_total hashes_ok_def toy_account_def)


lemma sample_toggle: obtains x d' where "toggle_active_user ''u1'' ''r1'' account_db = Inr (x, d')"
proof -
  have "case toggle_active_user ''u1'' ''r1'' account_db of Inl _ \<Rightarrow> False | Inr _ \<Rightarrow> True" by code_simp
  then show thesis using that by (auto split: sum.splits)
qed

lemma old_sessions_rejected_witness:
  "\<exists>x d'. toggle_active_user ''u1'' ''r1'' account_db = Inr (x, d') \<and>
     auth_middleware account_db \<lparr> se_user = Some ''u1'', se_auth_version = Some 0 \<rparr> = Continue sample_user \<and>
     auth_middleware d' \<lparr> se_user = Some ''u1'', se_auth_version = Some 0 \<rparr> \<noteq> Continue sample_user"
proof -
  obtain x d' where t: "toggle_active_user ''u1'' ''r1'' account_db = Inr (x, d')" by (rule sample_toggle)
  have f: "find_user account_db ''u1'' = Inr sample_user"
    by (simp add: find_user_def find_by_def ignore_deleted_def account_db_def sample_root_def sample_user_def)
  have "auth_middleware d' \<lparr> se_user = Some ''u1'', se_auth_version = Some 0 \<rparr> \<noteq> Continue sample_user"
    by (rule old_sessions_rejected [where env = toy_account and v = 0, OF account_ok(1) f _ _ _ rtranclp.rtrancl_refl
          credential_change.intros(2) [OF t] rtranclp.rtrancl_refl]) (simp_all add: sample_user_def)
  moreover have "auth_middleware account_db \<lparr> se_user = Some ''u1'', se_auth_version = Some 0 \<rparr> = Continue sample_user"
    by (simp add: auth_middleware_def f) (simp add: sample_user_def)
  ultimately show ?thesis using t by blast
qed

lemma roots_kept_witness:
  "\<exists>x d' u. toggle_active_user ''u1'' ''r1'' account_db = Inr (x, d') \<and> find_user d' ''r1'' = Inr u \<and> us_is_root u \<and> us_is_active u"
proof -
  obtain x d' where t: "toggle_active_user ''u1'' ''r1'' account_db = Inr (x, d')" by (rule sample_toggle)
  have f: "find_user account_db ''r1'' = Inr sample_root"
    by (simp add: find_user_def find_by_def ignore_deleted_def account_db_def sample_root_def sample_user_def)
  have "us_is_root sample_root" "us_is_active sample_root" by (simp_all add: sample_root_def sample_user_def)
  moreover have "(account_step toy_account)\<^sup>*\<^sup>* account_db d'" by (rule r_into_rtranclp) (rule active_toggled [OF t])
  ultimately show ?thesis using roots_kept [of toy_account account_db d'] account_ok(1) f t by blast
qed

lemma reset_link_once_witness:
  "\<exists>u d'. update_password_by_token toy_account 50 0 ''token'' ''new password'' account_db = Inr (u, d') \<and>
     us_email u \<notin> rt_email ` set (reset_tokens d')"
proof -
  have "case update_password_by_token toy_account 50 0 ''token'' ''new password'' account_db of Inl _ \<Rightarrow> False | Inr _ \<Rightarrow> True" by code_simp
  then obtain u d' where u: "update_password_by_token toy_account 50 0 ''token'' ''new password'' account_db = Inr (u, d')"
    by (auto split: sum.splits)
  then show ?thesis using reset_link_once [OF account_ok(3,1) u] by blast
qed

lemma stored_hash_accepted_witness:
  "\<exists>u d'. update_password_by_token toy_account 50 0 ''htoken'' ''new password'' account_db = Inr (u, d') \<and> us_id u = ''u1''"
proof -
  have l: "sample_link \<in> set (reset_tokens account_db)" "50 < rt_expires_at sample_link" "rt_token sample_link = ''htoken''"
    "rt_token sample_link = hash_reset_token toy_account ''token''" "rt_email sample_link = ''a@b.c''"
    by (simp_all add: account_db_def sample_link_def hash_reset_token_def toy_account_def)
  have n: "live_token 50 (hash_reset_token toy_account (rt_token sample_link)) account_db = None"
    by (simp add: live_token_def hash_reset_token_def toy_account_def account_db_def sample_link_def)
  have f: "find_user_by_email account_db (rt_email sample_link) = Some sample_user"
    by (simp add: find_user_by_email_def find_by_def ignore_deleted_def account_db_def sample_root_def sample_user_def sample_link_def)
  have a: "us_is_active sample_user" "us_id sample_user = ''u1''" by (simp_all add: sample_user_def)
  show ?thesis using stored_hash_accepted [OF account_ok(1,2) l(1,2,4) n f a(1), of 0 "''new password''"] l(3) a(2) by simp
qed

lemma sign_in_sound_witness:
  "\<exists>u se' d'. store_session toy_account 5 ''1.1.1.1'' \<lparr> rm_id = 1, rm_tokenable_id = [], rm_hash = ''x'', rm_expires_at = 9 \<rparr>
     (JStr '' a@b.c '') (JStr ''old'') JUndef no_session account_db = (Inr u, se', d') \<and> auth_middleware d' se' = Continue u"
proof -
  let ?s = "store_session toy_account 5 ''1.1.1.1'' \<lparr> rm_id = 1, rm_tokenable_id = [], rm_hash = ''x'', rm_expires_at = 9 \<rparr>
     (JStr '' a@b.c '') (JStr ''old'') JUndef no_session account_db"
  have "case ?s of (Inr _, _) \<Rightarrow> True | _ \<Rightarrow> False" by code_simp
  then obtain u se' d' where "?s = (Inr u, se', d')" by (cases ?s) (auto split: sum.splits)
  then show ?thesis using sign_in_sound [OF account_ok(1), of toy_account 5 "''1.1.1.1''"] by blast
qed

end
