(* ===== verification/Http_Routes.thy ===== *)
theory Http_Routes
  imports Account_Service Updater_Api Storage_Config
begin

text \<open>
  \<open>start/routes.ts\<close> with \<open>start/kernel.ts\<close>: the routes with their middleware in the order they are
  registered, which request reaches which handler, and the route that serves files of local storage.
\<close>

section \<open>Routes\<close>

datatype segment = Lit string | Param string | Wildcard

datatype http_method = GET | POST

datatype named_middleware = Guest | Auth | Root

datatype handler = Controller string string | Closure string

record route =
  ro_method :: http_method
  ro_pattern :: "segment list"
  ro_handler :: handler
  ro_middleware :: "named_middleware list"

text \<open>A pattern as the router reads it: the parts between slashes, empty ones left out.\<close>

definition segments :: "string \<Rightarrow> string list" where
  "segments path = filter (\<lambda>s. s \<noteq> []) (split_on (CHR ''/'') path)"

definition segment_of :: "string \<Rightarrow> segment" where
  "segment_of s = (if s = ''*'' then Wildcard else if starts_with s '':'' then Param (tl s) else Lit s)"

definition get_to :: "string \<Rightarrow> handler \<Rightarrow> route" where
  "get_to path h = \<lparr> ro_method = GET, ro_pattern = map segment_of (segments path), ro_handler = h, ro_middleware = [] \<rparr>"

definition post_to :: "string \<Rightarrow> handler \<Rightarrow> route" where
  "post_to path h = \<lparr> ro_method = POST, ro_pattern = map segment_of (segments path), ro_handler = h, ro_middleware = [] \<rparr>"

text \<open>\<open>group(...).prefix(p)\<close> and \<open>group(...).use(m)\<close>; the middleware of an outer group runs first.\<close>

definition with_prefix :: "string \<Rightarrow> route list \<Rightarrow> route list" where
  "with_prefix path rs = map (\<lambda>r. r\<lparr>ro_pattern := map segment_of (segments path) @ ro_pattern r\<rparr>) rs"

definition with_middleware :: "named_middleware \<Rightarrow> route list \<Rightarrow> route list" where
  "with_middleware m rs = map (\<lambda>r. r\<lparr>ro_middleware := m # ro_middleware r\<rparr>) rs"

definition docs_routes :: "route list" where
  "docs_routes = [get_to ''/swagger.json'' (Closure ''swagger''), get_to ''/docs'' (Closure ''docs'')]"

definition session_routes :: "route list" where
  "session_routes = with_middleware Guest
    [get_to ''login'' (Controller ''Session'' ''create''),
     post_to ''login'' (Controller ''Session'' ''store''),
     get_to ''forgot-password'' (Controller ''Session'' ''forgotPassword''),
     post_to ''forgot-password'' (Controller ''Session'' ''sendResetLink''),
     get_to ''reset-password/:token'' (Controller ''Session'' ''resetPassword''),
     post_to ''reset-password'' (Controller ''Session'' ''updatePassword'')]"

definition version_routes :: "route list" where
  "version_routes =
    [get_to ''/versions'' (Controller ''Versions'' ''index''),
     get_to ''/versions/create'' (Controller ''Versions'' ''create''),
     post_to ''/versions'' (Controller ''Versions'' ''store''),
     get_to ''/versions/:id/edit'' (Controller ''Versions'' ''edit''),
     post_to ''/versions/:id'' (Controller ''Versions'' ''update''),
     post_to ''/versions/:id/toggle'' (Controller ''Versions'' ''toggle''),
     get_to ''/versions/:id/delete'' (Controller ''Versions'' ''destroy'')]"

definition license_routes :: "route list" where
  "license_routes =
    [get_to ''/licenses'' (Controller ''Licenses'' ''index''),
     get_to ''/licenses/create'' (Controller ''Licenses'' ''create''),
     post_to ''/licenses'' (Controller ''Licenses'' ''store''),
     get_to ''/licenses/:id/edit'' (Controller ''Licenses'' ''edit''),
     post_to ''/licenses/:id'' (Controller ''Licenses'' ''update''),
     post_to ''/licenses/:id/activate'' (Controller ''Licenses'' ''activate''),
     post_to ''/licenses/:id/activations/:activationId/delete'' (Controller ''Licenses'' ''destroyActivation''),
     post_to ''/licenses/:id/toggle'' (Controller ''Licenses'' ''toggle''),
     post_to ''/licenses/:id/delete'' (Controller ''Licenses'' ''destroy'')]"

definition artifact_routes :: "route list" where
  "artifact_routes =
    [get_to ''/artifacts'' (Controller ''Artifacts'' ''index''),
     get_to ''/artifacts/create'' (Controller ''Artifacts'' ''create''),
     post_to ''/artifacts'' (Controller ''Artifacts'' ''store''),
     get_to ''/artifacts/:id/details'' (Controller ''Artifacts'' ''details''),
     post_to ''/artifacts/rebuild-all'' (Controller ''Artifacts'' ''rebuildAllNames''),
     get_to ''/artifacts/:id/edit'' (Controller ''Artifacts'' ''edit''),
     post_to ''/artifacts/:id'' (Controller ''Artifacts'' ''update''),
     post_to ''/artifacts/:id/delete'' (Controller ''Artifacts'' ''destroy''),
     post_to ''/artifacts/:id/publish'' (Controller ''Artifacts'' ''publish''),
     post_to ''/artifacts/:id/signature'' (Controller ''Artifacts'' ''sign''),
     post_to ''/artifacts/:id/managed-signature/request'' (Controller ''Artifacts'' ''requestManagedSignature''),
     post_to ''/artifacts/:id/managed-signature/import'' (Controller ''Artifacts'' ''importManagedSignature'')]"

definition root_routes :: "route list" where
  "root_routes = with_middleware Root
    [get_to ''/software'' (Controller ''Software'' ''index''),
     post_to ''/software'' (Controller ''Software'' ''store''),
     post_to ''/software/:id'' (Controller ''Software'' ''update''),
     post_to ''/software/:id/signing-keys'' (Controller ''Software'' ''addSigningKey''),
     post_to ''/software/:id/managed-signing-key'' (Controller ''Software'' ''importManagedSigningKey''),
     post_to ''/software/:id/signing-keys/:keyId/revoke'' (Controller ''Software'' ''revokeSigningKey''),
     post_to ''/software/:id/signed-updates'' (Controller ''Software'' ''setSignedUpdates''),
     post_to ''/software/:id/toggle'' (Controller ''Software'' ''toggle''),
     post_to ''/software/:id/default'' (Controller ''Software'' ''setDefault''),
     get_to ''/storage'' (Controller ''StorageProviders'' ''index''),
     get_to ''/storage/create'' (Controller ''StorageProviders'' ''create''),
     post_to ''/storage'' (Controller ''StorageProviders'' ''store''),
     post_to ''/storage/:id/activate'' (Controller ''StorageProviders'' ''activate''),
     get_to ''/storage/:id/edit'' (Controller ''StorageProviders'' ''edit''),
     post_to ''/storage/:id'' (Controller ''StorageProviders'' ''update''),
     get_to ''/settings'' (Controller ''Settings'' ''index''),
     post_to ''/settings'' (Controller ''Settings'' ''store''),
     post_to ''/settings/:id'' (Controller ''Settings'' ''update''),
     post_to ''/settings/:id/delete'' (Controller ''Settings'' ''destroy''),
     get_to ''/users'' (Controller ''Users'' ''index''),
     get_to ''/users/create'' (Controller ''Users'' ''create''),
     post_to ''/users'' (Controller ''Users'' ''store''),
     get_to ''/users/:id/edit'' (Controller ''Users'' ''edit''),
     post_to ''/users/:id'' (Controller ''Users'' ''update''),
     post_to ''/users/:id/reset-password'' (Controller ''Users'' ''resetPassword''),
     post_to ''/users/:id/toggle'' (Controller ''Users'' ''toggleActive'')]"

definition profile_routes :: "route list" where
  "profile_routes =
    [get_to ''/profile'' (Controller ''Profiles'' ''index''),
     post_to ''/profile'' (Controller ''Profiles'' ''update''),
     post_to ''/profile/password'' (Controller ''Profiles'' ''changePassword''),
     post_to ''/profile/appearance'' (Controller ''Profiles'' ''updateAppearance'')]"

definition signed_in_routes :: "route list" where
  "signed_in_routes = with_middleware Auth
    ([get_to ''/'' (Closure ''home''), post_to ''logout'' (Controller ''Session'' ''destroy'')] @
     with_prefix ''/cms''
       ([get_to ''/'' (Controller ''Dashboards'' ''index''), get_to ''/dashboard/health'' (Controller ''Dashboards'' ''health'')] @
        version_routes @ license_routes @ artifact_routes @ root_routes @ profile_routes))"

definition api_routes :: "route list" where
  "api_routes = with_prefix ''/api''
    [get_to ''/check'' (Controller ''Updater'' ''check''),
     get_to ''/latest'' (Controller ''Updater'' ''latest''),
     get_to ''/releases'' (Controller ''Updater'' ''releases''),
     get_to ''/download/:id'' (Controller ''Updater'' ''download''),
     get_to ''/software/:slug/check'' (Controller ''Updater'' ''check''),
     get_to ''/software/:slug/latest'' (Controller ''Updater'' ''latest''),
     get_to ''/software/:slug/releases'' (Controller ''Updater'' ''releases''),
     get_to ''/software/:slug/download/:id'' (Controller ''Updater'' ''download'')]"

definition file_routes :: "route list" where
  "file_routes = [get_to ''/storage/files/*'' (Closure ''files'')]"

definition routes :: "route list" where
  "routes = docs_routes @ session_routes @ signed_in_routes @ api_routes @ file_routes"

section \<open>Dispatch\<close>

text \<open>A wildcard takes all that is left, at least one segment.\<close>

fun match_segments :: "segment list \<Rightarrow> string list \<Rightarrow> (string \<times> string list) list option" where
  "match_segments [] [] = Some []"
| "match_segments [] (x # xs) = None"
| "match_segments (Wildcard # ps) xs = (if ps = [] \<and> xs \<noteq> [] then Some [(''*'', xs)] else None)"
| "match_segments (Lit s # ps) [] = None"
| "match_segments (Lit s # ps) (x # xs) = (if x = s then match_segments ps xs else None)"
| "match_segments (Param p # ps) [] = None"
| "match_segments (Param p # ps) (x # xs) = map_option ((#) (p, [x])) (match_segments ps xs)"

fun first_match :: "route list \<Rightarrow> http_method \<Rightarrow> string list \<Rightarrow> (route \<times> (string \<times> string list) list) option" where
  "first_match [] m xs = None"
| "first_match (r # rs) m xs =
     (if ro_method r = m then
        (case match_segments (ro_pattern r) xs of Some b \<Rightarrow> Some (r, b) | None \<Rightarrow> first_match rs m xs)
      else first_match rs m xs)"

definition dispatch :: "http_method \<Rightarrow> string \<Rightarrow> (route \<times> (string \<times> string list) list) option" where
  "dispatch m path = first_match routes m (segments path)"

section \<open>Middleware\<close>

text \<open>The user of a session, whatever version it carries, as \<open>auth.user\<close> and \<open>auth.check()\<close> see it.\<close>

definition session_user :: "db \<Rightarrow> session \<Rightarrow> user_row option" where
  "session_user d se =
     (case se_user se of None \<Rightarrow> None | Some i \<Rightarrow> (case find_user d i of Inl _ \<Rightarrow> None | Inr u \<Rightarrow> Some u))"

datatype passage = Through | Home | Sign_In | Forbidden

definition pass_one :: "db \<Rightarrow> session \<Rightarrow> named_middleware \<Rightarrow> passage" where
  "pass_one d se m =
     (case m of
        Guest \<Rightarrow> (if session_user d se = None then Through else Home)
      | Auth \<Rightarrow> (case auth_middleware d se of Continue _ \<Rightarrow> Through | _ \<Rightarrow> Sign_In)
      | Root \<Rightarrow> (case session_user d se of None \<Rightarrow> Forbidden | Some u \<Rightarrow> if us_is_root u then Through else Forbidden))"

fun pass_all :: "db \<Rightarrow> session \<Rightarrow> named_middleware list \<Rightarrow> passage" where
  "pass_all d se [] = Through"
| "pass_all d se (m # ms) = (case pass_one d se m of Through \<Rightarrow> pass_all d se ms | p \<Rightarrow> p)"

text \<open>The handler that a request runs, with the parameters of its path.\<close>

definition runs :: "db \<Rightarrow> session \<Rightarrow> http_method \<Rightarrow> string \<Rightarrow> (handler \<times> (string \<times> string list) list) option" where
  "runs d se m path =
     (case dispatch m path of
        None \<Rightarrow> None
      | Some (r, b) \<Rightarrow> if pass_all d se (ro_middleware r) = Through then Some (ro_handler r, b) else None)"

section \<open>Files of local storage\<close>

text \<open>
  The closure of \<open>/storage/files/*\<close>. \<open>open_stream\<close> is \<open>getStream\<close> of the backend the provider resolves to;
  whatever fails after the artifact is found answers 503.
\<close>

definition join_key :: "string list \<Rightarrow> string" where
  "join_key parts = join_with ''/'' parts"

definition serve_file ::
  "(backend \<Rightarrow> string \<Rightarrow> 'stream res) \<Rightarrow> (string \<Rightarrow> url option) \<Rightarrow> string list \<Rightarrow> db \<Rightarrow> string list \<Rightarrow> 'stream api_response" where
  "serve_file open_stream parse_url cwd d parts =
     (case find_public_by_storage_key d (join_key parts) of
        None \<Rightarrow> Api_Error 404 ''Not Found''
      | Some a \<Rightarrow>
          (case find_by sp_id (art_provider_id a) (ignore_deleted sp_deleted_at (providers d)) of
             None \<Rightarrow> Api_Error 404 ''Not Found''
           | Some sp \<Rightarrow>
               if sp_type sp \<noteq> ''local'' then Api_Error 404 ''Not Found''
               else (case bind_res (resolve_backend parse_url cwd (sp_config sp) (sp_type sp)) (\<lambda>b. open_stream b (art_storage_key a)) of
                   Inl _ \<Rightarrow> Api_Error 503 ''Storage is temporarily unavailable.''
                 | Inr stream \<Rightarrow>
                     (case attachment_disposition (map of_char (art_file_name a)) of
                        None \<Rightarrow> Api_Error 503 ''Storage is temporarily unavailable.''
                      | Some disposition \<Rightarrow>
                          File_Response \<lparr> fr_content_type = ''application/octet-stream'', fr_nosniff = ''nosniff'',
                            fr_disposition = disposition, fr_content_length = map_option int_text (art_size_bytes a),
                            fr_stream = stream \<rparr>))))"

section \<open>Properties\<close>

definition cms_controllers :: "string list" where
  "cms_controllers = [''Dashboards'', ''Versions'', ''Licenses'', ''Artifacts'', ''Software'', ''StorageProviders'', ''Settings'', ''Users'', ''Profiles'']"

definition root_controllers :: "string list" where
  "root_controllers = [''Software'', ''StorageProviders'', ''Settings'', ''Users'']"

lemma first_match_mem: "first_match rs m xs = Some (r, b) \<Longrightarrow> r \<in> set rs \<and> ro_method r = m \<and> match_segments (ro_pattern r) xs = Some b"
  by (induction rs) (auto split: if_splits option.splits)

lemma pass_all_Through: "pass_all d se ms = Through \<longleftrightarrow> (\<forall>m\<in>set ms. pass_one d se m = Through)"
  by (induction ms) (auto split: passage.splits)

lemma pass_auth: "pass_one d se Auth = Through \<longleftrightarrow> (\<exists>u. auth_middleware d se = Continue u)"
  by (auto simp: pass_one_def split: auth_answer.splits)

lemma continue_user: "auth_middleware d se = Continue u \<Longrightarrow> session_user d se = Some u \<and> us_is_active u \<and> se_auth_version se = Some (us_auth_version u)"
  by (auto simp: auth_middleware_def session_user_def split: option.splits sum.splits if_splits)

text \<open>What the table of routes says of every controller of the administration.\<close>

lemma cms_guarded:
  "list_all (\<lambda>r. case ro_handler r of
       Controller c _ \<Rightarrow> (c \<in> set cms_controllers \<longrightarrow> Auth \<in> set (ro_middleware r)) \<and>
         (c \<in> set root_controllers \<longrightarrow> Root \<in> set (ro_middleware r))
     | Closure _ \<Rightarrow> True) routes"
  by code_simp

lemma request_user:
  assumes "runs d se m path = Some (Controller c action, b)" "c \<in> set cms_controllers"
  obtains u where "auth_middleware d se = Continue u" "us_is_active u" "se_auth_version se = Some (us_auth_version u)"
    "c \<in> set root_controllers \<longrightarrow> us_is_root u"
proof -
  obtain r where r: "dispatch m path = Some (r, b)" "pass_all d se (ro_middleware r) = Through" "ro_handler r = Controller c action"
    using assms(1) by (auto simp: runs_def split: option.splits if_splits)
  have "r \<in> set routes" using r(1) first_match_mem by (auto simp: dispatch_def)
  then have g: "Auth \<in> set (ro_middleware r)" "c \<in> set root_controllers \<longrightarrow> Root \<in> set (ro_middleware r)"
    using cms_guarded assms(2) r(3) by (auto simp: list_all_iff)
  then obtain u where u: "auth_middleware d se = Continue u" using r(2) pass_auth unfolding pass_all_Through by blast
  moreover have "c \<in> set root_controllers \<longrightarrow> us_is_root u"
    using g(2) r(2) continue_user [OF u] unfolding pass_all_Through by (auto simp: pass_one_def split: if_splits)
  ultimately show thesis using continue_user [OF u] that by blast
qed

text \<open>
  C25. No request runs a handler of the administration without a session that is accepted as an enabled
  user, and products, storage, settings and users are open to root users only, whatever the path of
  the request.
\<close>

theorem cms_access:
  assumes "runs d se m path = Some (Controller c action, b)" "c \<in> set cms_controllers"
  shows "\<exists>u. auth_middleware d se = Continue u \<and> us_is_active u \<and> se_auth_version se = Some (us_auth_version u) \<and>
     (c \<in> set root_controllers \<longrightarrow> us_is_root u)"
  using request_user [OF assms] by blast

text \<open>
  The route of local files serves only the object of a published artifact that is visible to clients,
  from an enabled provider of the type \<open>local\<close>, under the name and size of that artifact.
\<close>

theorem file_route_public:
  assumes "serve_file open_stream parse_url cwd d parts = File_Response f"
  shows "\<exists>a sp b. a \<in> set (artifacts d) \<and> public_artifact d None a \<and> art_storage_key a = join_key parts \<and>
     sp \<in> set (providers d) \<and> sp_id sp = art_provider_id a \<and> sp_type sp = ''local'' \<and> sp_deleted_at sp = None \<and>
     resolve_backend parse_url cwd (sp_config sp) (sp_type sp) = Inr b \<and>
     open_stream b (art_storage_key a) = Inr (fr_stream f) \<and>
     attachment_disposition (map of_char (art_file_name a)) = Some (fr_disposition f) \<and>
     fr_content_length f = map_option int_text (art_size_bytes a)"
proof -
  from assms obtain a where a: "find_public_by_storage_key d (join_key parts) = Some a"
    by (auto simp: serve_file_def split: option.splits)
  with assms obtain sp where sp: "find_by sp_id (art_provider_id a) (ignore_deleted sp_deleted_at (providers d)) = Some sp"
    by (auto simp: serve_file_def split: option.splits)
  have t: "sp_type sp = ''local''" using assms by (simp add: serve_file_def a sp split: if_splits)
  then obtain stream where s: "bind_res (resolve_backend parse_url cwd (sp_config sp) (sp_type sp)) (\<lambda>b. open_stream b (art_storage_key a)) = Inr stream"
    using assms by (auto simp: serve_file_def a sp split: sum.splits)
  then obtain b where b: "resolve_backend parse_url cwd (sp_config sp) (sp_type sp) = Inr b" "open_stream b (art_storage_key a) = Inr stream"
    by (auto simp: bind_res_Inr)
  have f: "attachment_disposition (map of_char (art_file_name a)) = Some (fr_disposition f) \<and> fr_stream f = stream \<and>
      fr_content_length f = map_option int_text (art_size_bytes a)"
    using assms by (auto simp: serve_file_def a sp t s [unfolded t] split: option.splits)
  have "a \<in> set (artifacts d)" "public_artifact d None a" "art_storage_key a = join_key parts"
    using a by (auto simp: find_public_by_storage_key_def public_query_def row_simps dest!: find_by_Some)
  moreover have "sp \<in> set (providers d)" "sp_id sp = art_provider_id a" "sp_deleted_at sp = None"
    using sp by (auto simp: row_simps dest!: find_by_Some)
  ultimately show ?thesis using b f t by blast
qed

text \<open>
  The requests that change something by \<open>GET\<close>, which the protection against forged requests does not
  cover: only the deletion of a version.
\<close>

definition changing_actions :: "string list" where
  "changing_actions = [''store'', ''update'', ''toggle'', ''destroy'', ''activate'', ''destroyActivation'', ''rebuildAllNames'', ''publish'',
     ''sign'', ''requestManagedSignature'', ''importManagedSignature'', ''addSigningKey'', ''importManagedSigningKey'', ''revokeSigningKey'',
     ''setSignedUpdates'', ''setDefault'', ''resetPassword'', ''toggleActive'', ''changePassword'', ''updateAppearance'']"

lemma version_deleted_by_get:
  "filter (\<lambda>r. ro_method r = GET \<and> (case ro_handler r of Controller c a \<Rightarrow> c \<in> set cms_controllers \<and> a \<in> set changing_actions | _ \<Rightarrow> False)) routes =
     [\<lparr> ro_method = GET, ro_pattern = [Lit ''cms'', Lit ''versions'', Param ''id'', Lit ''delete''],
        ro_handler = Controller ''Versions'' ''destroy'', ro_middleware = [Auth] \<rparr>]"
  by code_simp

section \<open>Concrete runs\<close>

lemma cms_access_witness:
  "\<exists>u. runs account_db \<lparr> se_user = Some ''r1'', se_auth_version = Some 0 \<rparr> POST ''/cms/users/u1/toggle'' =
       Some (Controller ''Users'' ''toggleActive'', [(''id'', [''u1''])]) \<and>
     auth_middleware account_db \<lparr> se_user = Some ''r1'', se_auth_version = Some 0 \<rparr> = Continue u \<and> us_is_root u"
proof -
  have r: "runs account_db \<lparr> se_user = Some ''r1'', se_auth_version = Some 0 \<rparr> POST ''/cms/users/u1/toggle'' =
      Some (Controller ''Users'' ''toggleActive'', [(''id'', [''u1''])])" by code_simp
  moreover have "''Users'' \<in> set cms_controllers" "''Users'' \<in> set root_controllers" by code_simp+
  ultimately show ?thesis using cms_access [OF r] by blast
qed

definition toy_open :: "backend \<Rightarrow> string \<Rightarrow> nat res" where
  "toy_open b key = Inr (length key)"

lemma file_route_public_witness:
  "\<exists>f a. serve_file toy_open (\<lambda>_. None) [] sample_db [''artifacts'', ''a1'', ''payload''] = File_Response f \<and>
     public_artifact sample_db None a \<and> art_storage_key a = ''artifacts/a1/payload''"
proof -
  have "case serve_file toy_open (\<lambda>_. None) [] sample_db [''artifacts'', ''a1'', ''payload''] of File_Response _ \<Rightarrow> True | _ \<Rightarrow> False"
    by code_simp
  then obtain f where f: "serve_file toy_open (\<lambda>_. None) [] sample_db [''artifacts'', ''a1'', ''payload''] = File_Response f"
    by (cases "serve_file toy_open (\<lambda>_. None) [] sample_db [''artifacts'', ''a1'', ''payload'']") auto
  moreover have "join_key [''artifacts'', ''a1'', ''payload''] = ''artifacts/a1/payload''" by code_simp
  ultimately show ?thesis using file_route_public [OF f] by metis
qed

end
