(* ===== verification/Dashboard_Service.thy ===== *)
theory Dashboard_Service
  imports Provider_Service
begin

text \<open>
  \<open>app/services/dashboard_service.ts\<close>: the figures of the dashboard. What the process reports about
  itself, whether the database answers, and the names of the months are parameters.
\<close>

section \<open>Health\<close>

record storage_stats =
  ss_name :: string
  ss_used :: rat
  ss_quota :: rat
  ss_percentage :: rat
  ss_status :: string

definition no_stats :: "string \<Rightarrow> string \<Rightarrow> storage_stats" where
  "no_stats name status = \<lparr> ss_name = name, ss_used = 0, ss_quota = 0, ss_percentage = 0, ss_status = status \<rparr>"

definition get_storage_stats :: "db \<Rightarrow> storage_stats" where
  "get_storage_stats d =
     (case default_provider d of
        None \<Rightarrow> no_stats ''None'' ''none''
      | Some sp \<Rightarrow>
          \<lparr> ss_name = sp_name sp, ss_used = number_of_sum (artifact_usage d (sp_id sp)), ss_quota = quota_number sp,
            ss_percentage = min (usage_percentage d sp) 100,
            ss_status = (if sp_is_active sp then ''healthy'' else ''inactive'') \<rparr>)"

record health =
  he_db :: string
  he_storage :: storage_stats
  he_memory :: int
  he_uptime :: int

text \<open>\<open>users_up\<close> and \<open>storage_up\<close>: whether the two queries succeed; \<open>rss\<close> in bytes, \<open>uptime\<close> in seconds.\<close>

definition get_health_status :: "bool \<Rightarrow> bool \<Rightarrow> rat \<Rightarrow> rat \<Rightarrow> db \<Rightarrow> health" where
  "get_health_status users_up storage_up rss uptime d =
     \<lparr> he_db = (if users_up then ''healthy'' else ''error''),
       he_storage = (if storage_up then get_storage_stats d else no_stats ''Unknown'' ''error''),
       he_memory = math_round (fl (fl (rss / 1024) / 1024)), he_uptime = math_round uptime \<rparr>"

section \<open>Figures\<close>

abbreviation day_ms :: int where "day_ms \<equiv> 86400000"

abbreviation hour_ms :: int where "hour_ms \<equiv> 3600000"

text \<open>\<open>startOf('day')\<close> in UTC.\<close>

definition start_of_day :: "int \<Rightarrow> int" where
  "start_of_day t = t - t mod day_ms"

definition downloads_since :: "int \<Rightarrow> db \<Rightarrow> history_row list" where
  "downloads_since t d = filter (\<lambda>h. t \<le> dh_created_at h) (ignore_deleted dh_deleted_at (histories d))"

text \<open>
  \<open>groupByRaw(bucket)\<close> with \<open>count\<close>, ordered by the bucket. The text of a bucket sorts like the time it
  starts at.
\<close>

definition buckets :: "int \<Rightarrow> history_row list \<Rightarrow> (int \<times> nat) list" where
  "buckets width hs =
     map (\<lambda>b. (b, length (filter (\<lambda>h. dh_created_at h - dh_created_at h mod width = b) hs)))
       (sort (remdups (map (\<lambda>h. dh_created_at h - dh_created_at h mod width) hs)))"

definition two_digits :: "nat \<Rightarrow> string" where
  "two_digits n = (if n < 10 then CHR ''0'' # dec n else dec n)"

definition hour_label :: "int \<Rightarrow> string" where
  "hour_label t = two_digits (nat (t mod day_ms div hour_ms)) @ '':00''"

record dashboard_data =
  da_versions :: nat
  da_software :: nat
  da_artifacts :: nat
  da_storage_providers :: nat
  da_downloads :: nat
  da_today :: nat
  da_week :: nat
  da_month :: nat
  da_chart_today :: "(string \<times> nat) list"
  da_chart_week :: "(string \<times> nat) list"
  da_chart_month :: "(string \<times> nat) list"
  da_recent_artifacts :: "artifact_row list"

definition get_dashboard_data :: "(int \<Rightarrow> string) \<Rightarrow> int \<Rightarrow> db \<Rightarrow> dashboard_data" where
  "get_dashboard_data date_label now d =
     (let today = start_of_day now; week = start_of_day (now - 7 * day_ms); month = start_of_day (now - 30 * day_ms) in
      \<lparr> da_versions = length (ignore_deleted ver_deleted_at (versions d)),
        da_software = length (software d),
        da_artifacts = length (ignore_deleted art_deleted_at (artifacts d)),
        da_storage_providers = length (ignore_deleted sp_deleted_at (providers d)),
        da_downloads = sum_list (map art_download_count (artifacts d)),
        da_today = length (downloads_since today d),
        da_week = length (downloads_since week d),
        da_month = length (downloads_since month d),
        da_chart_today = map (\<lambda>(b, n). (hour_label b, n)) (buckets hour_ms (downloads_since (now - 24 * hour_ms) d)),
        da_chart_week = map (\<lambda>(b, n). (date_label b, n)) (buckets day_ms (downloads_since week d)),
        da_chart_month = map (\<lambda>(b, n). (date_label b, n)) (buckets day_ms (downloads_since month d)),
        da_recent_artifacts = take 5 (sort_desc art_created_at (ignore_deleted art_deleted_at (artifacts d))) \<rparr>)"

section \<open>Properties\<close>

lemma bucket_total:
  "set (map f xs) \<subseteq> set bs \<Longrightarrow> distinct bs \<Longrightarrow> sum_list (map (\<lambda>b. length (filter (\<lambda>x. f x = b) xs)) bs) = length xs"
proof (induction xs)
  case (Cons x xs)
  have "sum_list (map (\<lambda>b. length (filter (\<lambda>y. f y = b) (x # xs))) bs) =
      sum_list (map (\<lambda>b. (if f x = b then 1 else 0) + length (filter (\<lambda>y. f y = b) xs)) bs)"
    by (intro arg_cong [where f = sum_list] map_cong) auto
  also have "\<dots> = sum_list (map (\<lambda>b. if f x = b then 1 else 0) bs) + length xs"
    using Cons by (simp add: sum_list_addf)
  also have "sum_list (map (\<lambda>b. if f x = b then 1 else 0) bs) = (1 :: nat)"
    using Cons.prems by (simp add: sum_list_distinct_conv_sum_set)
  finally show ?case by simp
qed simp

lemma buckets_total: "sum_list (map snd (buckets w hs)) = length hs"
  using bucket_total [of "\<lambda>h. dh_created_at h - dh_created_at h mod w" hs
      "sort (remdups (map (\<lambda>h. dh_created_at h - dh_created_at h mod w) hs))"]
  by (simp add: buckets_def comp_def)

lemma buckets_sorted: "sorted (map fst (buckets w hs)) \<and> distinct (map fst (buckets w hs))"
  by (simp add: buckets_def comp_def)

lemma start_of_day_mono: "a \<le> b \<Longrightarrow> start_of_day a \<le> start_of_day b"
proof -
  assume "a \<le> b"
  then have "a div day_ms * day_ms \<le> b div day_ms * day_ms" by (intro mult_right_mono zdiv_mono1) simp_all
  then show ?thesis by (simp add: start_of_day_def minus_mod_eq_div_mult)
qed

lemma length_filter_weaker: "(\<And>x. P x \<Longrightarrow> Q x) \<Longrightarrow> length (filter P xs) \<le> length (filter Q xs)"
  by (induction xs) (auto intro: le_SucI)

text \<open>
  The figures agree with each other: the charts of the week and of the month add up to the numbers of
  downloads beside them, days are not repeated, and today is part of the week, which is part of the
  month.
\<close>

theorem dashboard_figures_agree:
  "let r = get_dashboard_data date_label now d in
     sum_list (map snd (da_chart_week r)) = da_week r \<and> sum_list (map snd (da_chart_month r)) = da_month r \<and>
     da_today r \<le> da_week r \<and> da_week r \<le> da_month r \<and> length (da_recent_artifacts r) \<le> 5"
proof -
  have "length (downloads_since b d) \<le> length (downloads_since a d)" if "a \<le> b" for a b
    unfolding downloads_since_def using that by (intro length_filter_weaker) simp
  moreover have "map snd (map (\<lambda>(b, n). (g b, n)) xs) = map snd xs" for g :: "int \<Rightarrow> string" and xs :: "(int \<times> nat) list"
    by (simp add: comp_def case_prod_beta')
  ultimately show ?thesis using buckets_total start_of_day_mono
    by (simp add: get_dashboard_data_def Let_def del: map_map)
qed

text \<open>Whatever fails, the health of the service is reported, and the used share is at most all of the quota.\<close>

lemma health_bounded:
  "ss_percentage (he_storage (get_health_status users_up storage_up rss uptime d)) \<le> 100"
  by (simp add: get_health_status_def get_storage_stats_def no_stats_def split: option.split)

end
