(* ===== verification/Cms_Answers.thy ===== *)
theory Cms_Answers
  imports Release_Safety License_Service Provider_Service Http_Routes Dashboard_Service
begin

text \<open>
  What the handlers of the administration (\<open>app/controllers/cms/\<close>) share: the request they read, the
  answer they give with the messages they leave in the session, what they take from collaborators, and
  the two ways a handler calls a service, inside \<open>try\<close> and outside.
\<close>

section \<open>Requests and answers\<close>

text \<open>
  \<open>params\<close>, \<open>request.all()\<close> (and \<open>request.input\<close>), \<open>request.file('file')\<close> with the messages of what is
  wrong with the file, and \<open>auth.user\<close>.
\<close>

record request =
  rq_params :: "(string \<times> string list) list"
  rq_input :: form
  rq_file :: "(upload_file \<times> string list) option"

definition param :: "request \<Rightarrow> string \<Rightarrow> string" where
  "param rq k = (case map_of (rq_params rq) k of Some [x] \<Rightarrow> x | _ \<Rightarrow> [])"

definition input :: "request \<Rightarrow> string \<Rightarrow> jsval" where
  "input rq k = js_prop (rq_input rq) k"

text \<open>The rows of one page and how many there are in all.\<close>

type_synonym 'r listing = "'r list \<times> nat"

definition listing :: "int \<Rightarrow> int \<Rightarrow> 'r list \<Rightarrow> 'r listing" where
  "listing page limit rows = (page_slice page limit rows, length rows)"

text \<open>What a view is given.\<close>

datatype page_data =
    No_Data
  | Artifacts_Data "artifact_row listing" artifact_filters "version_row list" "platform_row list"
      "architecture_row list" "software_row list" string
  | Artifact_Form create_data
  | Artifact_Editor edit_data
  | Versions_Data "version_row listing" version_filters "software_row list" string
  | Version_Form "software_row list" string
  | Version_Editor version_row
  | Software_Data "(software_row \<times> signing_key_row list) listing" bool
  | Providers_Data "provider_row listing" "provider_row option" rat rat string
  | Provider_Editor "string \<times> string \<times> string \<times> rat \<times> provider_view"
  | Licenses_Data "license_row listing" form
  | License_Editor license_row "activation_row list"
  | Users_Data "user_row listing"
  | User_Editor user_row
  | Settings_Data "setting_row list"
  | Dashboard_Data dashboard_data

text \<open>
  \<open>view.render\<close>; \<open>redirect().back()\<close>, \<open>toRoute\<close> and \<open>toPath\<close>; \<open>status(n).send(text)\<close>; and the JSON answers.
\<close>

datatype answer =
    Render string page_data
  | Back
  | To_Route string
  | To_Path string
  | Refused nat string
  | Details_Json details_dto "history_row listing"
  | Error_Json nat string
  | Appearance_Json nat "string option"
  | Health_Json health

text \<open>
  \<open>session.flash(key, message)\<close> in order, whether \<open>session.flashAll()\<close> kept the input for the form, and
  \<open>session.put('authVersion', n)\<close>.
\<close>

record outcome =
  oc_answer :: answer
  oc_flash :: "(string \<times> string) list"
  oc_old_input :: bool
  oc_auth_version :: "int option"

definition plain :: "answer \<Rightarrow> outcome" where
  "plain a = \<lparr> oc_answer = a, oc_flash = [], oc_old_input = False, oc_auth_version = None \<rparr>"

definition flashing :: "string \<Rightarrow> string \<Rightarrow> answer \<Rightarrow> outcome" where
  "flashing k m a = (plain a)\<lparr>oc_flash := [(k, m)]\<rparr>"

definition with_old_input :: "outcome \<Rightarrow> outcome" where
  "with_old_input oc = oc\<lparr>oc_old_input := True\<rparr>"

section \<open>Collaborators\<close>

text \<open>
  What one request takes from outside: the environment of the upload (with cryptography, clock and the
  identifier of a new row), the managed signer, the packages, the license and account environments with
  their random values, the contents of stored objects, the rows that the hooks of the models leave to
  a paginated query, and texts: the order of the database, dates, numbers, the text of values and of the
  messages of errors that are not the code's own.
\<close>

record 's cms_env =
  ce_upload :: "'s upload_env"
  ce_read_object :: "artifact_row \<Rightarrow> bytes res"
  ce_signer :: signer_env
  ce_exchange :: exchange
  ce_semver :: semver_lib
  ce_iso_day :: "string \<Rightarrow> bool"
  ce_sql_date :: "string \<Rightarrow> string option"
  ce_parse_url :: "string \<Rightarrow> url option"
  ce_license :: license_env
  ce_seed :: nat
  ce_row_ids :: "string \<times> string \<times> string"
  ce_account :: account_env
  ce_salt :: nat
  ce_password :: string
  ce_sees_artifact :: "artifact_row \<Rightarrow> bool"
  ce_sees_version :: "version_row \<Rightarrow> bool"
  ce_sees_provider :: "provider_row \<Rightarrow> bool"
  ce_sees_license :: "license_row \<Rightarrow> bool"
  ce_sees_user :: "user_row \<Rightarrow> bool"
  ce_sees_history :: "history_row \<Rightarrow> bool"
  ce_unchecked_page :: "jsval \<Rightarrow> int option"
  ce_filter_text :: "jsval \<Rightarrow> string option"
  ce_collate :: "string \<Rightarrow> string"
  ce_date_label :: "int \<Rightarrow> string"
  ce_num_text :: "jsnum \<Rightarrow> string"
  ce_message :: "exn \<Rightarrow> string"
  ce_coded :: "exn \<Rightarrow> bool"
  ce_health :: "bool \<times> bool \<times> rat \<times> rat"

abbreviation ce_crypto :: "'s cms_env \<Rightarrow> crypto" where
  "ce_crypto env \<equiv> ue_crypto (ce_upload env)"

abbreviation ce_nfkd :: "'s cms_env \<Rightarrow> string \<Rightarrow> string" where
  "ce_nfkd env \<equiv> ue_nfkd (ce_upload env)"

abbreviation ce_now :: "'s cms_env \<Rightarrow> int" where
  "ce_now env \<equiv> ue_now (ce_upload env)"

abbreviation ce_id :: "'s cms_env \<Rightarrow> string" where
  "ce_id env \<equiv> ue_id (ce_upload env)"

text \<open>\<open>error.message\<close>: the code's own text, Lucid's for a missing row, or that of the collaborator.\<close>

definition message_of :: "'s cms_env \<Rightarrow> exn \<Rightarrow> string" where
  "message_of env e =
     (case e of Error m \<Rightarrow> m | RowNotFound \<Rightarrow> ''Row not found'' | _ \<Rightarrow> ce_message env e)"

text \<open>Whether the error has a property \<open>code\<close>, as those of Lucid and of the database have.\<close>

definition has_code :: "'s cms_env \<Rightarrow> exn \<Rightarrow> bool" where
  "has_code env e =
     (case e of Error m \<Rightarrow> False | RowNotFound \<Rightarrow> True | ConstraintViolation c \<Rightarrow> True | _ \<Rightarrow> ce_coded env e)"

text \<open>\<open>String(value)\<close> and a filter that is not checked.\<close>

definition value_text :: "'s cms_env \<Rightarrow> jsval \<Rightarrow> string" where
  "value_text env v = js_text (ce_license env) v"

definition filter_text :: "'s cms_env \<Rightarrow> jsval \<Rightarrow> string option" where
  "filter_text env v =
     (case v of JUndef \<Rightarrow> None | JNull \<Rightarrow> None | JStr s \<Rightarrow> Some s | _ \<Rightarrow> ce_filter_text env v)"

section \<open>Calling a service\<close>

text \<open>
  A service operation inside \<open>try\<close>: its failure becomes an answer and leaves the database as it was. Outside
  \<open>try\<close> the failure leaves the handler as well.
\<close>

definition attempt :: "('a \<times> db) res \<Rightarrow> db \<Rightarrow> (exn \<Rightarrow> outcome) \<Rightarrow> ('a \<Rightarrow> outcome) \<Rightarrow> outcome res \<times> db" where
  "attempt r d failed done' =
     (case r of Inl e \<Rightarrow> (Inr (failed e), d) | Inr (x, d') \<Rightarrow> (Inr (done' x), d'))"

definition uncaught :: "('a \<times> db) res \<Rightarrow> db \<Rightarrow> ('a \<Rightarrow> outcome) \<Rightarrow> outcome res \<times> db" where
  "uncaught r d done' =
     (case r of Inl e \<Rightarrow> (Inl e, d) | Inr (x, d') \<Rightarrow> (Inr (done' x), d'))"

text \<open>A handler that only reads.\<close>

definition reading :: "'a res \<Rightarrow> db \<Rightarrow> ('a \<Rightarrow> outcome) \<Rightarrow> outcome res \<times> db" where
  "reading r d done' = (bind_res r (\<lambda>x. Inr (done' x)), d)"

text \<open>An operation that returns only the database.\<close>

definition unit_res :: "db res \<Rightarrow> (unit \<times> db) res" where
  "unit_res r = bind_res r (\<lambda>d. Inr ((), d))"

text \<open>\<open>session.flash('error', error.message)\<close> and \<open>redirect().back()\<close>.\<close>

definition fail_back :: "'s cms_env \<Rightarrow> exn \<Rightarrow> outcome" where
  "fail_back env e = flashing ''error'' (message_of env e) Back"

text \<open>\<open>if (!page) return response.status(400).send('Invalid page.')\<close>\<close>

definition paged :: "request \<Rightarrow> db \<Rightarrow> (int \<Rightarrow> outcome res \<times> db) \<Rightarrow> outcome res \<times> db" where
  "paged rq d k =
     (case parse_page (input rq ''page'') 1 1000000 of
        None \<Rightarrow> (Inr (plain (Refused 400 ''Invalid page.'')), d)
      | Some page \<Rightarrow> k page)"

text \<open>\<open>softwareService.getAll()\<close>, and whether a product of a list has the identifier a request names.\<close>

definition all_software :: "'s cms_env \<Rightarrow> db \<Rightarrow> software_row list" where
  "all_software env d = sort_desc sw_is_default (sort_key (\<lambda>s. ce_collate env (sw_name s)) (software d))"

definition selected_among :: "software_row list \<Rightarrow> jsval \<Rightarrow> string option" where
  "selected_among ss v =
     (case v of JStr i \<Rightarrow> if list_ex (\<lambda>s. sw_id s = i) ss then Some i else None | _ \<Rightarrow> None)"

definition quoted :: "string \<Rightarrow> string" where
  "quoted s = CHR 34 # s @ [CHR 34]"

section \<open>What a call leaves\<close>

text \<open>A call changes nothing, or it is the effect of the operation, and then the handler reports success.\<close>

lemma attempt_cases:
  "attempt r d failed done' = (x, d') \<longleftrightarrow>
     (\<exists>e. r = Inl e \<and> x = Inr (failed e) \<and> d' = d) \<or> (\<exists>y. r = Inr (y, d') \<and> x = Inr (done' y))"
  by (auto simp: attempt_def split: sum.splits)

lemma uncaught_cases:
  "uncaught r d done' = (x, d') \<longleftrightarrow>
     (\<exists>e. r = Inl e \<and> x = Inl e \<and> d' = d) \<or> (\<exists>y. r = Inr (y, d') \<and> x = Inr (done' y))"
  by (auto simp: uncaught_def split: sum.splits)

lemma reading_db [simp]: "snd (reading r d done') = d"
  by (simp add: reading_def)

lemma unit_res_Inr [res_simps]: "unit_res r = Inr (u, d) \<longleftrightarrow> r = Inr d"
  by (auto simp: unit_res_def bind_res_Inr)

lemma paged_db: "(\<And>page. snd (k page) = d) \<Longrightarrow> snd (paged rq d k) = d"
  by (auto simp: paged_def split: option.splits)

lemma outcome_simps [simp]:
  "oc_answer (plain a) = a" "oc_flash (plain a) = []" "oc_auth_version (plain a) = None"
  "oc_answer (flashing k m a) = a" "oc_flash (flashing k m a) = [(k, m)]" "oc_auth_version (flashing k m a) = None"
  "oc_answer (with_old_input oc) = oc_answer oc" "oc_flash (with_old_input oc) = oc_flash oc"
  "oc_auth_version (with_old_input oc) = oc_auth_version oc"
  by (simp_all add: plain_def flashing_def with_old_input_def)

end
