(* ===== verification/Cms_Release_Pages.thy ===== *)
theory Cms_Release_Pages
  imports Cms_Answers
begin

text \<open>
  The handlers of \<open>app/controllers/cms/artifacts_controller.ts\<close>, \<open>versions_controller.ts\<close> and
  \<open>software_controller.ts\<close>, in the order of the files: what each reads of the request, which operation
  of a service it calls, and what it answers on every branch.
\<close>

section \<open>Artifacts\<close>

definition cms_artifacts_details :: "'s cms_env \<Rightarrow> request \<Rightarrow> db \<Rightarrow> outcome res \<times> db" where
  "cms_artifacts_details env rq d =
     (case parse_page (input rq ''page'') 1 1000000 of
        None \<Rightarrow> (Inr (plain (Error_Json 400 ''Invalid page.'')), d)
      | Some page \<Rightarrow>
          reading (get_details (ce_sees_history env) (param rq ''id'') d) d (\<lambda>(r, sp, hs).
            plain (Details_Json (artifact_details_dto r sp) (listing page 10 hs))))"

definition cms_artifacts_rebuild_all_names :: "'s cms_env \<Rightarrow> request \<Rightarrow> db \<Rightarrow> outcome res \<times> db" where
  "cms_artifacts_rebuild_all_names env rq d =
     (case rebuild_all_names (ce_crypto env) (ce_nfkd env) (ce_read_object env) d of
        (Inl e, d') \<Rightarrow> (Inl e, d')
      | (Inr n, d') \<Rightarrow> (Inr (flashing ''success''
          (''Successfully synchronized '' @ dec n @ '' artifacts (filenames and multi-algorithm checksums).'') Back), d'))"

text \<open>
  \<open>index\<close>: the product of the page is the one the request names, or the default one, and has to exist.
\<close>

definition artifact_filters_of :: "'s cms_env \<Rightarrow> request \<Rightarrow> string \<Rightarrow> artifact_filters" where
  "artifact_filters_of env rq software_id =
     \<lparr> af_file_name = filter_text env (input rq ''fileName''), af_software_id = Some software_id,
       af_version_id = filter_text env (input rq ''versionId''), af_platform_id = filter_text env (input rq ''platformId''),
       af_architecture_id = filter_text env (input rq ''architectureId'') \<rparr>"

definition cms_artifacts_index :: "'s cms_env \<Rightarrow> request \<Rightarrow> db \<Rightarrow> outcome res \<times> db" where
  "cms_artifacts_index env rq d =
     paged rq d (\<lambda>page.
       reading (get_default d) d (\<lambda>s.
         case selected_among (all_software env d) (js_or (input rq ''softwareId'') (JStr (sw_id s))) of
           None \<Rightarrow> plain (Refused 400 ''Invalid software selection.'')
         | Some i \<Rightarrow>
             let f = artifact_filters_of env rq i in
             plain (Render ''pages/cms/artifacts/index''
               (Artifacts_Data (listing page 10 (index_artifacts (ce_sees_artifact env) f d)) f (versions_by_core d)
                 (sort_key (\<lambda>p. ce_collate env (plat_name p)) (ignore_deleted plat_deleted_at (platforms d)))
                 (sort_key (\<lambda>h. ce_collate env (arch_name h)) (ignore_deleted arch_deleted_at (architectures d)))
                 (all_software env d) i))))"

definition cms_artifacts_create :: "'s cms_env \<Rightarrow> request \<Rightarrow> db \<Rightarrow> outcome res \<times> db" where
  "cms_artifacts_create env rq d =
     (case get_create_data d of
        Inl e \<Rightarrow> (Inr (flashing ''error'' (message_of env e) (To_Route ''cms.artifacts.index'')), d)
      | Inr data \<Rightarrow> (Inr (plain (Render ''pages/cms/artifacts/create'' (Artifact_Form data))), d))"

text \<open>The field a message of the upload belongs to.\<close>

definition upload_error_key :: "string \<Rightarrow> string" where
  "upload_error_key m =
     (if str_includes m ''extension'' then ''errors.file''
      else if str_includes m ''architecture'' then ''errors.architectureId'' else ''error'')"

definition cms_artifacts_store :: "'s cms_env \<Rightarrow> request \<Rightarrow> 's \<times> db \<Rightarrow> outcome res \<times> 's \<times> db" where
  "cms_artifacts_store env rq w =
     (case rq_file rq of
        None \<Rightarrow> (Inr (flashing ''errors.file'' ''Artifact file is required.'' Back), w)
      | Some (f, errors) \<Rightarrow>
          if errors \<noteq> [] then (Inr (flashing ''errors.file'' (join_with '', '' errors) Back), w)
          else (case upload_artifact (ce_upload env) f (rq_input rq) w of
              (Inl e, w') \<Rightarrow> (Inr (flashing (upload_error_key (message_of env e)) (message_of env e) Back), w')
            | (Inr a, w') \<Rightarrow> (Inr (flashing ''success'' ''Artifact uploaded successfully.'' (To_Route ''cms.artifacts.index'')), w')))"

definition cms_artifacts_edit :: "'s cms_env \<Rightarrow> request \<Rightarrow> db \<Rightarrow> outcome res \<times> db" where
  "cms_artifacts_edit env rq d =
     reading (get_edit_data (ce_crypto env) (ce_signer env) (ce_exchange env) (param rq ''id'') d) d (\<lambda>e.
       plain (Render ''pages/cms/artifacts/edit'' (Artifact_Editor e)))"

definition cms_artifacts_update :: "'s cms_env \<Rightarrow> request \<Rightarrow> db \<Rightarrow> outcome res \<times> db" where
  "cms_artifacts_update env rq d =
     attempt (bind_res (update_artifact (ce_nfkd env) (param rq ''id'') (rq_input rq) d) (\<lambda>(a, name, d'). Inr (name, d'))) d
       (fail_back env)
       (\<lambda>name. flashing ''success'' (''Artifact updated and filename synchronized: '' @ name) (To_Route ''cms.artifacts.index''))"

definition cms_artifacts_destroy :: "'s cms_env \<Rightarrow> request \<Rightarrow> db \<Rightarrow> outcome res \<times> db" where
  "cms_artifacts_destroy env rq d =
     attempt (delete_artifact (ce_now env) (param rq ''id'') d) d (fail_back env)
       (\<lambda>_. flashing ''success'' ''Artifact deleted successfully.'' (To_Route ''cms.artifacts.index''))"

definition cms_artifacts_publish :: "'s cms_env \<Rightarrow> request \<Rightarrow> db \<Rightarrow> outcome res \<times> db" where
  "cms_artifacts_publish env rq d =
     attempt (publish_artifact (ce_crypto env) (ce_now env) (param rq ''id'') d) d
       (\<lambda>e. flashing ''info'' (message_of env e) Back)
       (\<lambda>a. flashing ''success''
         (''Artifact '' @ art_file_name a @ '' has been published and is now visible to the API.'') Back)"

definition cms_artifacts_sign :: "'s cms_env \<Rightarrow> request \<Rightarrow> db \<Rightarrow> outcome res \<times> db" where
  "cms_artifacts_sign env rq d =
     attempt (set_artifact_signature (ce_crypto env) (param rq ''id'') (input rq ''keyId'') (input rq ''signature'') d) d
       (fail_back env) (\<lambda>_. flashing ''success'' ''Release signature verified and saved.'' Back)"

text \<open>The request goes to the signer; the database stays as it is.\<close>

definition cms_artifacts_request_managed_signature :: "'s cms_env \<Rightarrow> request \<Rightarrow> db \<Rightarrow> outcome res \<times> db" where
  "cms_artifacts_request_managed_signature env rq d =
     (case request_managed_signature (ce_crypto env) (ce_signer env) (ce_exchange env) (param rq ''id'') d of
        Inl e \<Rightarrow> (Inr (fail_back env e), d)
      | Inr q \<Rightarrow> (Inr (flashing ''success'' (''Signing request '' @ (case q of None \<Rightarrow> ''undefined'' | Some r \<Rightarrow> mr_id r) @
          '' created. An independent approver must review and sign it outside Reeva.'') Back), d))"

definition cms_artifacts_import_managed_signature :: "'s cms_env \<Rightarrow> request \<Rightarrow> db \<Rightarrow> outcome res \<times> db" where
  "cms_artifacts_import_managed_signature env rq d =
     attempt (import_managed_signature (ce_crypto env) (ce_signer env) (ce_exchange env) (param rq ''id'') d) d
       (fail_back env)
       (\<lambda>_. flashing ''success''
         ''Approved managed signature verified and saved. The release can now be published.'' Back)"

section \<open>Versions\<close>

definition version_filters_of :: "request \<Rightarrow> jsval \<Rightarrow> version_filters" where
  "version_filters_of rq software_id =
     \<lparr> vf_software_id = software_id, vf_version_number = input rq ''versionNumber'', vf_codename = input rq ''codename'',
       vf_is_active = input rq ''isActive'', vf_date_from = js_or (input rq ''dateFrom'') JNull,
       vf_date_to = js_or (input rq ''dateTo'') JNull \<rparr>"

definition cms_versions_index :: "'s cms_env \<Rightarrow> request \<Rightarrow> db \<Rightarrow> outcome res \<times> db" where
  "cms_versions_index env rq d =
     paged rq d (\<lambda>page.
       reading (get_default d) d (\<lambda>s.
         case selected_among (all_software env d) (js_or (input rq ''softwareId'') (JStr (sw_id s))) of
           None \<Rightarrow> plain (Refused 400 ''Invalid software selection.'')
         | Some i \<Rightarrow>
             let f = version_filters_of rq (JStr i) in
             (case filtered_versions (ce_sql_date env) (ce_sees_version env) d f of
                Inl e \<Rightarrow> plain (Refused 400 (message_of env e))
              | Inr vs \<Rightarrow> plain (Render ''pages/cms/versions/index''
                  (Versions_Data (listing page 10 vs) f (all_software env d) i)))))"

definition cms_versions_create :: "'s cms_env \<Rightarrow> request \<Rightarrow> db \<Rightarrow> outcome res \<times> db" where
  "cms_versions_create env rq d =
     (let ss = filter sw_is_active (all_software env d) in
      reading (get_default d) d (\<lambda>s.
        case selected_among ss (js_or (input rq ''softwareId'') (JStr (sw_id s))) of
          None \<Rightarrow> plain (Refused 400 ''Invalid or inactive software selection.'')
        | Some i \<Rightarrow> plain (Render ''pages/cms/versions/create'' (Version_Form ss i))))"

text \<open>\<open>encodeURIComponent\<close>: the bytes of UTF-8 outside the unreserved characters as \<open>%XX\<close>.\<close>

definition unreserved :: "char \<Rightarrow> bool" where
  "unreserved c \<longleftrightarrow> is_alnum c \<or> c \<in> set ''-_.!~*()'' \<or> c = CHR 39"

definition hex_upper :: "nat \<Rightarrow> char" where
  "hex_upper n = (if n < 10 then char_of (48 + n) else char_of (55 + n))"

definition encode_uri_component :: "string \<Rightarrow> string" where
  "encode_uri_component s =
     concat (map (\<lambda>c. if unreserved c then [c]
       else concat (map (\<lambda>b. [CHR ''%'', hex_upper (unat b div 16), hex_upper (unat b mod 16)]) (utf8 [c]))) s)"

definition versions_path :: "'s cms_env \<Rightarrow> request \<Rightarrow> string" where
  "versions_path env rq =
     ''/cms/versions?softwareId='' @
     encode_uri_component (value_text env (js_or (input rq ''softwareId'') (JStr [])))"

definition cms_versions_store :: "'s cms_env \<Rightarrow> request \<Rightarrow> db \<Rightarrow> outcome res \<times> db" where
  "cms_versions_store env rq d =
     attempt (create_version (ce_semver env) (ce_iso_day env) (ce_now env) (ce_id env) (rq_input rq) d) d
       (\<lambda>e. with_old_input (fail_back env e))
       (\<lambda>_. flashing ''success'' ''Version created successfully.'' (To_Path (versions_path env rq)))"

definition cms_versions_edit :: "request \<Rightarrow> db \<Rightarrow> outcome res \<times> db" where
  "cms_versions_edit rq d =
     reading (find_version d (param rq ''id'')) d (\<lambda>v. plain (Render ''pages/cms/versions/edit'' (Version_Editor v)))"

definition cms_versions_update :: "'s cms_env \<Rightarrow> request \<Rightarrow> db \<Rightarrow> outcome res \<times> db" where
  "cms_versions_update env rq d =
     attempt (update_version (ce_semver env) (ce_iso_day env) (param rq ''id'') (rq_input rq) d) d
       (\<lambda>e. with_old_input (fail_back env e))
       (\<lambda>_. flashing ''success'' ''Version updated successfully.'' (To_Path (versions_path env rq)))"

definition cms_versions_toggle :: "request \<Rightarrow> db \<Rightarrow> outcome res \<times> db" where
  "cms_versions_toggle rq d =
     uncaught (toggle_version (param rq ''id'') d) d
       (\<lambda>v. flashing ''success''
         (''Version '' @ (if ver_is_active v then ''activated'' else ''deactivated'') @ '' successfully.'') Back)"

definition cms_versions_destroy :: "'s cms_env \<Rightarrow> request \<Rightarrow> db \<Rightarrow> outcome res \<times> db" where
  "cms_versions_destroy env rq d =
     attempt (delete_version (ce_now env) (param rq ''id'') d) d (fail_back env)
       (\<lambda>_. flashing ''success'' ''Version deleted successfully.'' (To_Route ''cms.versions.index''))"

section \<open>Software\<close>

text \<open>\<open>getAllWithSigningKeys(keyword, page)\<close>: pages of 20; a keyword that is not a text has no \<open>trim\<close>.\<close>

definition software_matching :: "'s cms_env \<Rightarrow> jsval \<Rightarrow> db \<Rightarrow> software_row list res" where
  "software_matching env keyword d =
     (if \<not> truthy keyword then Inr (all_software env d)
      else (case keyword of
          JStr s \<Rightarrow> Inr (filter (\<lambda>r. ilike (contains_pattern (lowercase (trim s))) (sw_name r)) (all_software env d))
        | _ \<Rightarrow> Inl (Fault ''TypeError'')))"

definition keys_of :: "db \<Rightarrow> software_row \<Rightarrow> signing_key_row list" where
  "keys_of d s = sort_key sk_created_at (filter (\<lambda>k. sk_software_id k = sw_id s) (signing_keys d))"

definition cms_software_index :: "'s cms_env \<Rightarrow> request \<Rightarrow> db \<Rightarrow> outcome res \<times> db" where
  "cms_software_index env rq d =
     (let page = (case parse_page (input rq ''page'') 1 1000000 of None \<Rightarrow> 1 | Some n \<Rightarrow> n) in
      reading (software_matching env (input rq ''keyword'') d) d (\<lambda>ss.
        plain (Render ''pages/cms/software/index''
          (Software_Data (listing page 20 (map (\<lambda>s. (s, keys_of d s)) ss)) (signer_configured (ce_signer env))))))"

definition cms_software_store :: "'s cms_env \<Rightarrow> request \<Rightarrow> db \<Rightarrow> outcome res \<times> db" where
  "cms_software_store env rq d =
     attempt (create_software (ce_nfkd env) (ce_now env) (ce_id env) (input rq ''name'') d) d
       (\<lambda>e. with_old_input (fail_back env e)) (\<lambda>_. flashing ''success'' ''Software added successfully.'' Back)"

definition cms_software_toggle :: "'s cms_env \<Rightarrow> request \<Rightarrow> db \<Rightarrow> outcome res \<times> db" where
  "cms_software_toggle env rq d =
     attempt (toggle_active (param rq ''id'') d) d (fail_back env)
       (\<lambda>s. flashing ''success'' (sw_name s @ '' is now '' @ (if sw_is_active s then ''active'' else ''inactive'') @ ''.'') Back)"

definition cms_software_update :: "'s cms_env \<Rightarrow> request \<Rightarrow> db \<Rightarrow> outcome res \<times> db" where
  "cms_software_update env rq d =
     attempt (update_name (param rq ''id'') (input rq ''name'') d) d (fail_back env)
       (\<lambda>s. flashing ''success''
         (sw_name s @ '' was updated. Use Sync All Names on Artifacts to refresh existing filenames.'') Back)"

definition cms_software_set_default :: "'s cms_env \<Rightarrow> request \<Rightarrow> db \<Rightarrow> outcome res \<times> db" where
  "cms_software_set_default env rq d =
     attempt (set_default (param rq ''id'') d) d (fail_back env)
       (\<lambda>s. flashing ''success'' (sw_name s @ '' is now the default for legacy OTA clients.'') Back)"

definition cms_software_add_signing_key :: "'s cms_env \<Rightarrow> request \<Rightarrow> db \<Rightarrow> outcome res \<times> db" where
  "cms_software_add_signing_key env rq d =
     attempt (add_signing_key (ce_crypto env) (ce_now env) (ce_id env) (param rq ''id'') (input rq ''publicKey'') d) d
       (fail_back env)
       (\<lambda>k. flashing ''success''
         (''Ed25519 public key '' @ sk_key_id k @ '' added. Keep its private key outside Reeva.'') Back)"

definition cms_software_revoke_signing_key :: "'s cms_env \<Rightarrow> request \<Rightarrow> db \<Rightarrow> outcome res \<times> db" where
  "cms_software_revoke_signing_key env rq d =
     attempt (revoke_signing_key (param rq ''id'') (param rq ''keyId'') d) d (fail_back env)
       (\<lambda>_. flashing ''success'' ''Signing key revoked. Releases signed by it are no longer eligible.'' Back)"

definition cms_software_import_managed_signing_key :: "'s cms_env \<Rightarrow> request \<Rightarrow> db \<Rightarrow> outcome res \<times> db" where
  "cms_software_import_managed_signing_key env rq d =
     attempt (import_managed_signing_key (ce_crypto env) (ce_signer env) (ce_exchange env) (ce_now env) (ce_id env)
         (param rq ''id'') d) d
       (fail_back env)
       (\<lambda>_. flashing ''success''
         ''Managed signer public key registered. Pin it in your client before requiring signatures.'' Back)"

definition cms_software_set_signed_updates :: "'s cms_env \<Rightarrow> request \<Rightarrow> db \<Rightarrow> outcome res \<times> db" where
  "cms_software_set_signed_updates env rq d =
     attempt (set_require_signed_updates (ce_crypto env) (param rq ''id'') (input rq ''requireSignedUpdates'') d) d
       (fail_back env)
       (\<lambda>s. flashing ''success''
         (''Signed updates are now '' @ (if sw_require_signed s then ''required'' else ''optional'') @ '' for '' @ sw_name s @ ''.'') Back)"

end
