(* ===== verification/Cms_Admin_Pages.thy ===== *)
theory Cms_Admin_Pages
  imports Cms_Answers
begin

text \<open>
  The handlers of the other controllers of \<open>app/controllers/cms/\<close>: storage providers, licenses, users,
  the own profile, settings and the dashboard.
\<close>

section \<open>Storage providers\<close>

text \<open>
  \<open>`${Number.parseFloat(x.toFixed(2))}`\<close>: two decimals without the zeros at their end. Division by 1024
  is exact on doubles.
\<close>

definition strip_zeros :: "string \<Rightarrow> string" where
  "strip_zeros s =
     (let t = rev (dropWhile (\<lambda>c. c = CHR ''0'') (rev s)) in
      if t \<noteq> [] \<and> last t = CHR ''.'' then butlast t else t)"

definition amount :: "rat \<Rightarrow> string \<Rightarrow> string" where
  "amount x unit' = strip_zeros (to_fixed 2 x) @ CHR '' '' # unit'"

definition usage_label :: "rat \<Rightarrow> string" where
  "usage_label usage =
     (if usage \<le> 0 then ''0 KB''
      else let kb = usage / 1024; mb = kb / 1024; gb = mb / 1024; tb = gb / 1024 in
        if kb \<le> 1000 then amount kb ''KB'' else if mb \<le> 1000 then amount mb ''MB''
        else if gb \<le> 1000 then amount gb ''GB'' else amount tb ''TB'')"

definition cms_storage_index :: "'s cms_env \<Rightarrow> request \<Rightarrow> db \<Rightarrow> outcome res \<times> db" where
  "cms_storage_index env rq d =
     paged rq d (\<lambda>page.
       let sp = default_provider d;
           (usage, percentage) = (case sp of None \<Rightarrow> (0, 0) | Some p \<Rightarrow> get_usage_stats d p)
       in (Inr (plain (Render ''pages/cms/storage/index''
            (Providers_Data (listing page 10 (listed_providers (ce_sees_provider env) d)) sp usage percentage (usage_label usage)))), d))"

definition cms_storage_activate :: "'s cms_env \<Rightarrow> request \<Rightarrow> db \<Rightarrow> outcome res \<times> db" where
  "cms_storage_activate env rq d =
     attempt (unit_res (activate_provider (ce_parse_url env) (param rq ''id'') d)) d (fail_back env)
       (\<lambda>_. flashing ''success'' ''Storage provider activated successfully.'' Back)"

definition cms_storage_edit :: "'s cms_env \<Rightarrow> request \<Rightarrow> db \<Rightarrow> outcome res \<times> db" where
  "cms_storage_edit env rq d =
     reading (find_provider_row d (param rq ''id'')) d (\<lambda>sp.
       plain (Render ''pages/cms/storage/edit'' (Provider_Editor (provider_edit_view (ce_num_text env) sp))))"

definition cms_storage_create :: "db \<Rightarrow> outcome res \<times> db" where
  "cms_storage_create d = (Inr (plain (Render ''pages/cms/storage/create'' No_Data)), d)"

text \<open>
  The message of a failed save: an error of the database or of the model, which has a code, is replaced
  by a text of the controller.
\<close>

definition provider_message :: "'s cms_env \<Rightarrow> string \<Rightarrow> exn \<Rightarrow> string" where
  "provider_message env own e = (if has_code env e then own else message_of env e)"

definition cms_storage_store :: "'s cms_env \<Rightarrow> request \<Rightarrow> db \<Rightarrow> outcome res \<times> db" where
  "cms_storage_store env rq d =
     attempt (create_provider (ce_parse_url env) (ce_now env) (ce_id env) (rq_input rq) d) d
       (\<lambda>e. flashing ''error''
         (provider_message env ''Could not save the storage provider. Check its settings and try again.'' e) Back)
       (\<lambda>_. flashing ''success'' ''Storage provider created. Activate it when you are ready to use it.''
         (To_Route ''cms.storage.index''))"

definition cms_storage_update :: "'s cms_env \<Rightarrow> request \<Rightarrow> db \<Rightarrow> outcome res \<times> db" where
  "cms_storage_update env rq d =
     attempt (update_provider (ce_parse_url env) (param rq ''id'') (rq_input rq) d) d
       (\<lambda>e. flashing ''error''
         (provider_message env ''Could not update the storage provider. Check its settings and try again.'' e) Back)
       (\<lambda>_. flashing ''success'' ''Storage provider configuration updated.'' (To_Route ''cms.storage.index''))"

section \<open>Licenses\<close>

text \<open>
  \<open>index\<close> passes the page on as it is; what the query builder makes of it is \<^const>\<open>ce_unchecked_page\<close>,
  \<^const>\<open>None\<close> where the query fails.
\<close>

definition license_filter_keys :: "string list" where
  "license_filter_keys = [''licenseKey'', ''customer'', ''productName'', ''status'']"

definition cms_licenses_index :: "'s cms_env \<Rightarrow> request \<Rightarrow> db \<Rightarrow> outcome res \<times> db" where
  "cms_licenses_index env rq d =
     (let filters = map (\<lambda>k. (k, input rq k)) license_filter_keys;
          wanted = (if input rq ''page'' = JUndef then JNum (Fin 1) else input rq ''page'') in
      reading (from_option (Fault ''invalid page'') (ce_unchecked_page env wanted)) d (\<lambda>page.
        plain (Render ''pages/cms/licenses/index''
          (Licenses_Data (listing page 10 (filtered_licenses (ce_license env) (ce_sees_license env) filters d)) filters))))"

definition cms_licenses_create :: "db \<Rightarrow> outcome res \<times> db" where
  "cms_licenses_create d = (Inr (plain (Render ''pages/cms/licenses/create'' No_Data)), d)"

definition cms_licenses_store :: "'s cms_env \<Rightarrow> request \<Rightarrow> db \<Rightarrow> outcome res \<times> db" where
  "cms_licenses_store env rq d =
     attempt (create_license (ce_license env) (ce_now env) (ce_id env) (ce_row_ids env) (rq_input rq) d) d
       (\<lambda>e. with_old_input (fail_back env e))
       (\<lambda>_. flashing ''success'' ''License created successfully.'' (To_Route ''cms.licenses.index''))"

definition cms_licenses_edit :: "request \<Rightarrow> db \<Rightarrow> outcome res \<times> db" where
  "cms_licenses_edit rq d =
     reading (find_license d (param rq ''id'')) d (\<lambda>r.
       plain (Render ''pages/cms/licenses/edit'' (License_Editor r (get_activations d (param rq ''id'')))))"

definition cms_licenses_update :: "'s cms_env \<Rightarrow> request \<Rightarrow> db \<Rightarrow> outcome res \<times> db" where
  "cms_licenses_update env rq d =
     attempt (update_license (ce_license env) (ce_now env) (param rq ''id'') (rq_input rq) d) d
       (\<lambda>e. with_old_input (fail_back env e))
       (\<lambda>_. flashing ''success'' ''License updated successfully.'' (To_Route ''cms.licenses.index''))"

definition cms_licenses_activate :: "'s cms_env \<Rightarrow> request \<Rightarrow> db \<Rightarrow> outcome res \<times> db" where
  "cms_licenses_activate env rq d =
     attempt (issue_activation_token (ce_license env) (ce_now env) (ce_seed env) (ce_row_ids env) (param rq ''id'')
         (input rq ''machineId'') d) d
       (fail_back env)
       (\<lambda>token. (plain Back)\<lparr>oc_flash := [(''success'', ''Device activated successfully.''), (''activationToken'', token)]\<rparr>)"

definition cms_licenses_destroy_activation :: "'s cms_env \<Rightarrow> request \<Rightarrow> db \<Rightarrow> outcome res \<times> db" where
  "cms_licenses_destroy_activation env rq d =
     attempt (unit_res (remove_activation (param rq ''id'') (param rq ''activationId'') d)) d (fail_back env)
       (\<lambda>_. flashing ''success'' ''Activation removed successfully.'' Back)"

definition cms_licenses_toggle :: "request \<Rightarrow> db \<Rightarrow> outcome res \<times> db" where
  "cms_licenses_toggle rq d =
     uncaught (toggle_license (param rq ''id'') d) d
       (\<lambda>r. flashing ''success'' (''License status updated to '' @ lic_status r @ '' successfully.'') Back)"

definition cms_licenses_destroy :: "'s cms_env \<Rightarrow> request \<Rightarrow> db \<Rightarrow> outcome res \<times> db" where
  "cms_licenses_destroy env rq d =
     attempt (delete_license (ce_now env) (param rq ''id'') d) d (fail_back env)
       (\<lambda>_. flashing ''success'' ''License deleted successfully.'' (To_Route ''cms.licenses.index''))"

section \<open>Users\<close>

definition cms_users_index :: "'s cms_env \<Rightarrow> request \<Rightarrow> db \<Rightarrow> outcome res \<times> db" where
  "cms_users_index env rq d =
     paged rq d (\<lambda>page.
       (Inr (plain (Render ''pages/cms/users/index'' (Users_Data (listing page 10 (listed_users (ce_sees_user env) d))))), d))"

definition cms_users_create :: "db \<Rightarrow> outcome res \<times> db" where
  "cms_users_create d = (Inr (plain (Render ''pages/cms/users/create'' No_Data)), d)"

text \<open>\<open>typeof fullName === 'string' ? fullName.trim() || null : null\<close>\<close>

definition trimmed_name :: "jsval \<Rightarrow> jsval" where
  "trimmed_name v = (case v of JStr s \<Rightarrow> if trim s = [] then JNull else JStr (trim s) | _ \<Rightarrow> JNull)"

text \<open>The password is shown once, with the address as it was entered.\<close>

definition temporary_password :: "string \<Rightarrow> string \<Rightarrow> string \<Rightarrow> outcome" where
  "temporary_password message password email =
     (plain (To_Route ''cms.users.index''))\<lparr>oc_flash := [(''success'', message), (''tempPassword'', password), (''tempEmail'', email)]\<rparr>"

definition cms_users_store :: "'s cms_env \<Rightarrow> request \<Rightarrow> db \<Rightarrow> outcome res \<times> db" where
  "cms_users_store env rq d =
     (case input rq ''email'' of
        JStr email \<Rightarrow>
          if length email > 255 \<or> \<not> email_format email
          then (Inr (flashing ''error'' ''Please enter a valid email address.'' Back), d)
          else attempt (create_user (ce_account env) (ce_now env) (ce_id env) (ce_salt env) (ce_password env) (JStr email)
              (trimmed_name (input rq ''full_name'')) d) d
            (fail_back env) (\<lambda>(e, password). temporary_password ''User created successfully.'' password email)
      | _ \<Rightarrow> (Inr (flashing ''error'' ''Please enter a valid email address.'' Back), d))"

definition cms_users_edit :: "request \<Rightarrow> db \<Rightarrow> outcome res \<times> db" where
  "cms_users_edit rq d =
     reading (find_user d (param rq ''id'')) d (\<lambda>u. plain (Render ''pages/cms/users/edit'' (User_Editor u)))"

definition cms_users_update :: "request \<Rightarrow> db \<Rightarrow> outcome res \<times> db" where
  "cms_users_update rq d =
     (if (case input rq ''full_name'' of JUndef \<Rightarrow> False | JStr _ \<Rightarrow> False | _ \<Rightarrow> True)
      then (Inr (flashing ''error'' ''Name must be text.'' Back), d)
      else uncaught (update_user (param rq ''id'') (trimmed_name (input rq ''full_name'')) d) d
        (\<lambda>u. flashing ''success'' (''User '' @ quoted (us_email u) @ '' updated successfully.'') (To_Route ''cms.users.index'')))"

definition cms_users_reset_password :: "'s cms_env \<Rightarrow> user_row \<Rightarrow> request \<Rightarrow> db \<Rightarrow> outcome res \<times> db" where
  "cms_users_reset_password env me rq d =
     attempt (reset_password (ce_account env) (ce_salt env) (ce_password env) (param rq ''id'') (us_id me) d) d
       (fail_back env) (\<lambda>(email, password). temporary_password ''Password reset successfully.'' password email)"

definition cms_users_toggle_active :: "'s cms_env \<Rightarrow> user_row \<Rightarrow> request \<Rightarrow> db \<Rightarrow> outcome res \<times> db" where
  "cms_users_toggle_active env me rq d =
     attempt (toggle_active_user (param rq ''id'') (us_id me) d) d (fail_back env)
       (\<lambda>(email, active). flashing ''success''
         (''User '' @ quoted email @ '' has been '' @ (if active then ''enabled'' else ''disabled'') @ ''.'')
         (To_Route ''cms.users.index''))"

section \<open>The own profile\<close>

definition cms_profiles_index :: "db \<Rightarrow> outcome res \<times> db" where
  "cms_profiles_index d = (Inr (plain (Render ''pages/cms/profile/index'' No_Data)), d)"

definition cms_profiles_update :: "'s cms_env \<Rightarrow> user_row \<Rightarrow> request \<Rightarrow> db \<Rightarrow> outcome res \<times> db" where
  "cms_profiles_update env me rq d =
     (case input rq ''fullName'' of
        JStr name \<Rightarrow> attempt (update_user (us_id me) (JStr name) d) d (fail_back env)
          (\<lambda>_. flashing ''success'' ''Profile updated successfully.'' Back)
      | _ \<Rightarrow> (Inr (flashing ''error'' ''Name must be text.'' Back), d))"

text \<open>The session of the request goes on with the new version; all others end with the old one.\<close>

definition cms_profiles_change_password :: "'s cms_env \<Rightarrow> user_row \<Rightarrow> request \<Rightarrow> db \<Rightarrow> outcome res \<times> db" where
  "cms_profiles_change_password env me rq d =
     (case (input rq ''currentPassword'', valid_password (input rq ''newPassword'')) of
        (JStr current, Some password) \<Rightarrow>
          attempt (change_password (ce_account env) (ce_salt env) (us_id me) current (JStr password) d) d (fail_back env)
            (\<lambda>u. (flashing ''success'' ''Password changed successfully.'' Back)\<lparr>oc_auth_version := Some (us_auth_version u)\<rparr>)
      | _ \<Rightarrow> (Inr (flashing ''error'' ''New password must be between 12 and 128 characters.'' Back), d))"

definition accent_number :: "jsval \<Rightarrow> jsval" where
  "accent_number v = (case v of JStr s \<Rightarrow> JNum (number_of_string s) | _ \<Rightarrow> v)"

definition cms_profiles_update_appearance :: "'s cms_env \<Rightarrow> user_row \<Rightarrow> request \<Rightarrow> db \<Rightarrow> outcome res \<times> db" where
  "cms_profiles_update_appearance env me rq d =
     (let color = accent_number (input rq ''accentColor'') in
      case input rq ''theme'' of
        JStr theme \<Rightarrow>
          if js_integer color = None
          then (Inr (plain (Appearance_Json 422 (Some ''Invalid appearance settings.''))), d)
          else attempt (update_appearance (us_id me) theme color d) d
            (\<lambda>e. plain (Appearance_Json 422 (Some (message_of env e)))) (\<lambda>_. plain (Appearance_Json 200 None))
      | _ \<Rightarrow> (Inr (plain (Appearance_Json 422 (Some ''Invalid appearance settings.''))), d))"

section \<open>Settings\<close>

definition cms_settings_index :: "'s cms_env \<Rightarrow> db \<Rightarrow> outcome res \<times> db" where
  "cms_settings_index env d =
     (Inr (plain (Render ''pages/cms/settings/index'' (Settings_Data (get_all_settings (ce_collate env) d)))), d)"

definition cms_settings_store :: "'s cms_env \<Rightarrow> request \<Rightarrow> db \<Rightarrow> outcome res \<times> db" where
  "cms_settings_store env rq d =
     attempt (create_setting (ce_id env) (input rq ''key'') (input rq ''value'') d) d (fail_back env)
       (\<lambda>_. flashing ''success'' ''Setting created successfully.'' Back)"

definition cms_settings_update :: "'s cms_env \<Rightarrow> request \<Rightarrow> db \<Rightarrow> outcome res \<times> db" where
  "cms_settings_update env rq d =
     attempt (update_setting (param rq ''id'') (input rq ''value'') d) d (fail_back env)
       (\<lambda>r. flashing ''success'' (''Setting '' @ quoted (st_key r) @ '' updated.'') Back)"

definition cms_settings_destroy :: "'s cms_env \<Rightarrow> request \<Rightarrow> db \<Rightarrow> outcome res \<times> db" where
  "cms_settings_destroy env rq d =
     attempt (delete_setting (ce_now env) (param rq ''id'') d) d (fail_back env)
       (\<lambda>_. flashing ''success'' ''Setting deleted successfully.'' Back)"

section \<open>Dashboard\<close>

definition cms_dashboards_health :: "'s cms_env \<Rightarrow> db \<Rightarrow> outcome res \<times> db" where
  "cms_dashboards_health env d =
     (case ce_health env of (users_up, storage_up, rss, uptime) \<Rightarrow>
        (Inr (plain (Health_Json (get_health_status users_up storage_up rss uptime d))), d))"

definition cms_dashboards_index :: "'s cms_env \<Rightarrow> db \<Rightarrow> outcome res \<times> db" where
  "cms_dashboards_index env d =
     (Inr (plain (Render ''pages/cms/dashboard'' (Dashboard_Data (get_dashboard_data (ce_date_label env) (ce_now env) d)))), d)"

end
