(* ===== verification/Cms_Requests.thy ===== *)
theory Cms_Requests
  imports Cms_Release_Pages Cms_Admin_Pages
begin

text \<open>
  The administration as a whole: the handler of every route of \<open>/cms\<close>, the request that runs through the
  router and the middleware into it, and what a sequence of requests does to the database.
\<close>

section \<open>The table of handlers\<close>

text \<open>Every method of the controllers that has only the database as its state; the upload has the storage too.\<close>

definition release_actions :: "'s cms_env \<Rightarrow> ((string \<times> string) \<times> (request \<Rightarrow> db \<Rightarrow> outcome res \<times> db)) list" where
  "release_actions env =
    [((''Artifacts'', ''details''), cms_artifacts_details env),
     ((''Artifacts'', ''rebuildAllNames''), cms_artifacts_rebuild_all_names env),
     ((''Artifacts'', ''index''), cms_artifacts_index env),
     ((''Artifacts'', ''create''), cms_artifacts_create env),
     ((''Artifacts'', ''edit''), cms_artifacts_edit env),
     ((''Artifacts'', ''update''), cms_artifacts_update env),
     ((''Artifacts'', ''destroy''), cms_artifacts_destroy env),
     ((''Artifacts'', ''publish''), cms_artifacts_publish env),
     ((''Artifacts'', ''sign''), cms_artifacts_sign env),
     ((''Artifacts'', ''requestManagedSignature''), cms_artifacts_request_managed_signature env),
     ((''Artifacts'', ''importManagedSignature''), cms_artifacts_import_managed_signature env),
     ((''Versions'', ''index''), cms_versions_index env),
     ((''Versions'', ''create''), cms_versions_create env),
     ((''Versions'', ''store''), cms_versions_store env),
     ((''Versions'', ''edit''), cms_versions_edit),
     ((''Versions'', ''update''), cms_versions_update env),
     ((''Versions'', ''toggle''), cms_versions_toggle),
     ((''Versions'', ''destroy''), cms_versions_destroy env),
     ((''Software'', ''index''), cms_software_index env),
     ((''Software'', ''store''), cms_software_store env),
     ((''Software'', ''toggle''), cms_software_toggle env),
     ((''Software'', ''update''), cms_software_update env),
     ((''Software'', ''setDefault''), cms_software_set_default env),
     ((''Software'', ''addSigningKey''), cms_software_add_signing_key env),
     ((''Software'', ''revokeSigningKey''), cms_software_revoke_signing_key env),
     ((''Software'', ''importManagedSigningKey''), cms_software_import_managed_signing_key env),
     ((''Software'', ''setSignedUpdates''), cms_software_set_signed_updates env)]"

definition admin_actions ::
  "'s cms_env \<Rightarrow> user_row \<Rightarrow> ((string \<times> string) \<times> (request \<Rightarrow> db \<Rightarrow> outcome res \<times> db)) list" where
  "admin_actions env me =
    [((''StorageProviders'', ''index''), cms_storage_index env),
     ((''StorageProviders'', ''activate''), cms_storage_activate env),
     ((''StorageProviders'', ''edit''), cms_storage_edit env),
     ((''StorageProviders'', ''create''), \<lambda>_. cms_storage_create),
     ((''StorageProviders'', ''store''), cms_storage_store env),
     ((''StorageProviders'', ''update''), cms_storage_update env),
     ((''Licenses'', ''index''), cms_licenses_index env),
     ((''Licenses'', ''create''), \<lambda>_. cms_licenses_create),
     ((''Licenses'', ''store''), cms_licenses_store env),
     ((''Licenses'', ''edit''), cms_licenses_edit),
     ((''Licenses'', ''update''), cms_licenses_update env),
     ((''Licenses'', ''activate''), cms_licenses_activate env),
     ((''Licenses'', ''destroyActivation''), cms_licenses_destroy_activation env),
     ((''Licenses'', ''toggle''), cms_licenses_toggle),
     ((''Licenses'', ''destroy''), cms_licenses_destroy env),
     ((''Users'', ''index''), cms_users_index env),
     ((''Users'', ''create''), \<lambda>_. cms_users_create),
     ((''Users'', ''store''), cms_users_store env),
     ((''Users'', ''edit''), cms_users_edit),
     ((''Users'', ''update''), cms_users_update),
     ((''Users'', ''resetPassword''), cms_users_reset_password env me),
     ((''Users'', ''toggleActive''), cms_users_toggle_active env me),
     ((''Profiles'', ''index''), \<lambda>_. cms_profiles_index),
     ((''Profiles'', ''update''), cms_profiles_update env me),
     ((''Profiles'', ''changePassword''), cms_profiles_change_password env me),
     ((''Profiles'', ''updateAppearance''), cms_profiles_update_appearance env me),
     ((''Settings'', ''index''), \<lambda>_. cms_settings_index env),
     ((''Settings'', ''store''), cms_settings_store env),
     ((''Settings'', ''update''), cms_settings_update env),
     ((''Settings'', ''destroy''), cms_settings_destroy env),
     ((''Dashboards'', ''health''), \<lambda>_. cms_dashboards_health env),
     ((''Dashboards'', ''index''), \<lambda>_. cms_dashboards_index env)]"

definition db_action :: "'s cms_env \<Rightarrow> user_row \<Rightarrow> string \<times> string \<Rightarrow> (request \<Rightarrow> db \<Rightarrow> outcome res \<times> db) option" where
  "db_action env me ca = map_of (release_actions env @ admin_actions env me) ca"

definition act ::
  "'s cms_env \<Rightarrow> user_row \<Rightarrow> string \<times> string \<Rightarrow> request \<Rightarrow> 's \<times> db \<Rightarrow> outcome res \<times> 's \<times> db" where
  "act env me ca rq w =
     (if ca = (''Artifacts'', ''store'') then cms_artifacts_store env rq w
      else (case db_action env me ca of
          None \<Rightarrow> (Inl (Fault ''no handler''), w)
        | Some h \<Rightarrow> (case h rq (snd w) of (x, d') \<Rightarrow> (x, fst w, d'))))"

text \<open>
  A request: \<^const>\<open>None\<close> where no handler of the administration runs, because another route or none
  matches or the middleware answers. The handler reads \<open>auth.user\<close>, and what it puts into the session
  is what later requests of the session bring.
\<close>

definition session_after :: "session \<Rightarrow> outcome res \<Rightarrow> session" where
  "session_after se x =
     (case x of
        Inr oc \<Rightarrow> (case oc_auth_version oc of None \<Rightarrow> se | Some n \<Rightarrow> se\<lparr>se_auth_version := Some n\<rparr>)
      | Inl e \<Rightarrow> se)"

definition cms_respond ::
  "'s cms_env \<Rightarrow> session \<Rightarrow> http_method \<Rightarrow> string \<Rightarrow> request \<Rightarrow> 's \<times> db \<Rightarrow> (outcome res) option \<times> session \<times> 's \<times> db" where
  "cms_respond env se m path rq w =
     (case (runs (snd w) se m path, auth_middleware (snd w) se) of
        (Some (Controller c a, b), Continue me) \<Rightarrow>
          if c \<in> set cms_controllers then
            (case act env me (c, a) (rq\<lparr>rq_params := b\<rparr>) w of (x, w') \<Rightarrow> (Some x, session_after se x, w'))
          else (None, se, w)
      | _ \<Rightarrow> (None, se, w))"

text \<open>Every route of the administration has its handler.\<close>

lemma routes_handled:
  "list_all (\<lambda>r. case ro_handler r of
       Controller c a \<Rightarrow> c \<in> set cms_controllers \<longrightarrow>
         (c, a) = (''Artifacts'', ''store'') \<or> (c, a) \<in> set (map fst (release_actions env @ admin_actions env me))
     | Closure _ \<Rightarrow> True) routes"
proof -
  have "map fst (release_actions env @ admin_actions env me) =
      map fst (release_actions (undefined :: unit cms_env) @ admin_actions (undefined :: unit cms_env) (undefined :: user_row))"
    by (simp add: release_actions_def admin_actions_def)
  moreover have "list_all (\<lambda>r. case ro_handler r of
       Controller c a \<Rightarrow> c \<in> set cms_controllers \<longrightarrow>
         (c, a) = (''Artifacts'', ''store'') \<or> (c, a) \<in> set (map fst (release_actions (undefined :: unit cms_env) @ admin_actions (undefined :: unit cms_env) (undefined :: user_row)))
     | Closure _ \<Rightarrow> True) routes" by code_simp
  ultimately show ?thesis by (simp only:)
qed

end
