(* ===== verification/System_Steps.thy ===== *)
theory System_Steps
  imports Cms_Requests
begin

text \<open>
  The services together: every operation that writes the database, as one step relation, and what all
  of them keep: the constraints of the tables and the invariant of the releases.
\<close>

section \<open>Steps\<close>

inductive provider_step :: "(string \<Rightarrow> url option) \<Rightarrow> db \<Rightarrow> db \<Rightarrow> bool" for parse_url where
  provider_created: "create_provider parse_url now i v d = Inr (r, d') \<Longrightarrow> provider_step parse_url d d'"
| provider_updated: "update_provider parse_url i v d = Inr (r, d') \<Longrightarrow> provider_step parse_url d d'"
| provider_activated: "activate_provider parse_url i d = Inr d' \<Longrightarrow> provider_step parse_url d d'"

text \<open>The collaborators that stay the same over time.\<close>

record platform_env =
  pe_crypto :: crypto
  pe_account :: account_env
  pe_license :: license_env
  pe_parse_url :: "string \<Rightarrow> url option"

inductive system_step :: "platform_env \<Rightarrow> db \<Rightarrow> db \<Rightarrow> bool" for pe where
  release_step: "step (pe_crypto pe) d d' \<Longrightarrow> system_step pe d d'"
| accounts_step: "account_step (pe_account pe) d d' \<Longrightarrow> system_step pe d d'"
| licenses_step: "license_step (pe_license pe) d d' \<Longrightarrow> system_step pe d d'"
| providers_step: "provider_step (pe_parse_url pe) d d' \<Longrightarrow> system_step pe d d'"

section \<open>What the other services leave\<close>

text \<open>A write elsewhere: the releases and their keys stay, and the constraints go on to hold.\<close>

definition frame :: "db \<Rightarrow> db \<Rightarrow> bool" where
  "frame d d' \<longleftrightarrow> artifacts d' = artifacts d \<and> signing_keys d' = signing_keys d \<and> software d' = software d \<and>
     versions d' = versions d \<and> (db_ok d \<longrightarrow> db_ok d')"

lemma frame_preserves: "frame d d' \<Longrightarrow> preserves cr d d'"
  by (intro preserves_same) (simp_all add: frame_def)

lemma frame_refl [simp]: "frame d d"
  by (simp add: frame_def)

lemma frame_trans: "frame d e \<Longrightarrow> frame e f \<Longrightarrow> frame d f"
  by (simp add: frame_def)

lemma frame_users: "satisfies user_constraints t \<Longrightarrow> frame d (d\<lparr>users := t\<rparr>)"
  by (simp add: frame_def db_ok_def)

lemma frame_licenses: "satisfies license_constraints t \<Longrightarrow> frame d (d\<lparr>licenses := t\<rparr>)"
  by (simp add: frame_def db_ok_def)

lemma frame_settings: "satisfies setting_constraints t \<Longrightarrow> frame d (d\<lparr>settings := t\<rparr>)"
  by (simp add: frame_def db_ok_def)

lemma frame_providers: "satisfies provider_constraints t \<Longrightarrow> frame d (d\<lparr>providers := t\<rparr>)"
  by (simp add: frame_def db_ok_def)

lemma frame_activations: "frame d (d\<lparr>activations := t\<rparr>)"
  by (simp add: frame_def db_ok_def)

lemma frame_remember_tokens: "frame d (d\<lparr>remember_tokens := t\<rparr>)"
  by (simp add: frame_def db_ok_def)

lemma unique_on_filter: "unique_on key t \<Longrightarrow> unique_on key (filter P t)"
proof (induction t)
  case (Cons x t)
  have "set (List.map_filter key (filter P t)) \<subseteq> set (List.map_filter key t)"
    by (auto simp: List.map_filter_def)
  then show ?case using Cons by (auto simp: unique_on_def List.map_filter_simps split: option.splits)
qed simp

lemma frame_reset_tokens: "frame d (d\<lparr>reset_tokens := delete_where P (reset_tokens d)\<rparr>)"
  by (simp add: frame_def db_ok_def delete_where_def reset_token_constraints_def unique_on_filter)

lemma frame_rate_limits: "(distinct (map rl_key (rate_limits d)) \<Longrightarrow> distinct (map rl_key t)) \<Longrightarrow> frame d (d\<lparr>rate_limits := t\<rparr>)"
  by (simp add: frame_def db_ok_def rate_limit_constraints_def unique_on_total)

lemmas frames = frame_users frame_licenses frame_settings frame_providers frame_activations frame_remember_tokens
  frame_reset_tokens

lemma provider_frame: "provider_step parse_url d d' \<Longrightarrow> frame d d'"
  by (induction rule: provider_step.induct)
    (auto simp: create_provider_def update_provider_def activate_provider_def save_provider_def res_simps Let_def
      intro!: frame_providers split: if_splits)

lemma put_setting_frame: "put_setting i k v d = Inr d' \<Longrightarrow> frame d d'"
  by (auto simp: put_setting_def res_simps new_setting_Inr split: option.splits intro!: frame_settings)

lemma private_key_frame: "get_private_key env seed ids d = Inr (k, d') \<Longrightarrow> frame d d'"
  by (auto simp: get_private_key_def res_simps new_setting_Inr split: option.splits
      intro!: frame_trans [OF frame_settings put_setting_frame])

lemma save_licenses_frame: "save_licenses t d = Inr d' \<Longrightarrow> frame d d'"
  by (auto simp: save_licenses_def res_simps intro: frame_licenses)

lemma save_activations_frame: "save_activations t d = Inr d' \<Longrightarrow> frame d d'"
  by (auto simp: save_activations_def res_simps intro: frame_activations)

lemma issue_frame: "issue_activation_token env now seed ids i v d = Inr (token, d') \<Longrightarrow> frame d d'"
  unfolding issue_activation_token_def Let_def bind_res_Inr
  by (auto simp: bind_res_Inr dest!: private_key_frame save_licenses_frame save_activations_frame intro: frame_trans)

lemma remove_activation_frame: "remove_activation i a d = Inr d' \<Longrightarrow> frame d d'"
  unfolding remove_activation_def Let_def bind_res_Inr
  by (elim exE conjE) (rule frame_trans [OF frame_activations save_licenses_frame])

lemma license_frame: "license_step env d d' \<Longrightarrow> frame d d'"
proof (induction rule: license_step.induct)
  case (created now i uuids data d r d')
  then show ?case by (auto simp: create_license_def bind_res_Inr Let_def dest: save_licenses_frame)
next
  case (updated now i data d r d')
  then show ?case by (auto simp: update_license_def bind_res_Inr dest: save_licenses_frame)
next
  case (toggled i d r d')
  then show ?case by (auto simp: toggle_license_def bind_res_Inr dest: save_licenses_frame)
next
  case (deleted now i d r d')
  then show ?case by (auto simp: delete_license_def bind_res_Inr dest: save_licenses_frame)
qed (auto simp: create_setting_def update_setting_def delete_setting_def res_simps new_setting_Inr
    intro: issue_frame remove_activation_frame intro!: frame_settings)

lemma save_users_frame: "save_users t d = Inr d' \<Longrightarrow> frame d d'"
  by (auto simp: save_users_def res_simps intro: frame_users)

lemma drop_tokens_frame: "frame d (drop_tokens u d)"
proof -
  have "frame d (d\<lparr>remember_tokens := delete_where (\<lambda>r. rm_tokenable_id r = us_id u) (remember_tokens d)\<rparr>)" (is "frame d ?e")
    by (rule frame_remember_tokens)
  from frame_trans [OF this frame_reset_tokens [of ?e "\<lambda>r. rt_email r = us_email u"]]
  show ?thesis by (simp add: drop_tokens_def)
qed

lemma new_password_frame: "new_password env salt password u d = Inr (u', d') \<Longrightarrow> frame d d'"
  unfolding new_password_def Let_def bind_res_Inr
  by (auto dest!: save_users_frame intro: frame_trans drop_tokens_frame)

lemma increment_distinct:
  "increment_counter now k t = (n, t') \<Longrightarrow> distinct (map rl_key t) \<Longrightarrow> distinct (map rl_key t')"
  by (auto simp: increment_counter_def row_simps modify_by_keys split: option.splits)

lemma throttled_frame: "is_auth_request_throttled env a now ip identity d = (b, d') \<Longrightarrow> frame d d'"
  by (auto simp: is_auth_request_throttled_def drop_ended_def delete_where_def distinct_map_filter split: prod.splits if_splits
      intro!: frame_rate_limits dest: increment_distinct)

lemma clear_attempts_frame: "frame d (clear_login_attempts env ip identity d)"
  unfolding clear_login_attempts_def
  by (rule frame_rate_limits) (simp add: delete_where_def distinct_map_filter)

lemma remember_frame: "frame d (remember v u rm d)"
  by (auto simp: remember_def intro: frame_remember_tokens)

lemma signed_in_frame: "store_session env now ip rm e v w se d = (r, se', d') \<Longrightarrow> frame d d'"
  by (auto simp: store_session_def split: option.splits prod.splits if_splits dest!: throttled_frame
      intro: frame_trans frame_trans [OF remember_frame clear_attempts_frame])

lemma link_frame: "send_reset_link env mail now rid token ip e d = Inr (z, d') \<Longrightarrow> frame d d'"
proof -
  have "frame f g" if "send_password_reset_link env mail now rid token email f = Inr (z, g)" for email f g
    using that by (auto simp: send_password_reset_link_def res_simps Let_def frame_def db_ok_def split: option.splits if_splits)
  then show "send_reset_link env mail now rid token ip e d = Inr (z, d') \<Longrightarrow> frame d d'"
    by (auto simp: send_reset_link_def split: option.splits prod.splits if_splits dest!: throttled_frame intro: frame_trans)
qed

lemma token_password_frame: "update_password_by_token env now salt token password d = Inr (u, d') \<Longrightarrow> frame d d'"
  unfolding update_password_by_token_def Let_def
  by (auto simp: res_simps dest!: new_password_frame intro: frame_trans [OF frame_reset_tokens])

lemma account_frame: "account_step env d d' \<Longrightarrow> frame d d'"
proof (induction rule: account_step.induct)
  case (signed_in now ip rm e v w se d r se' d')
  then show ?case by (rule signed_in_frame)
next
  case (link_sent mail now rid token ip e d z d')
  then show ?case by (rule link_frame)
next
  case (password_updated now salt ip tv v w d r d')
  then show ?case
    by (auto simp: update_password_def split: option.splits prod.splits if_splits sum.splits
        dest!: throttled_frame token_password_frame intro: frame_trans)
qed (auto simp: create_user_def update_user_def reset_password_def toggle_active_user_def change_password_def
    update_appearance_def bind_res_Inr throw_if_Inr Let_def split: option.splits
    dest: save_users_frame new_password_frame)

theorem system_step_preserves: "system_step pe d d' \<Longrightarrow> preserves (pe_crypto pe) d d'"
  by (induction rule: system_step.induct)
    (auto intro: step_preserves frame_preserves account_frame license_frame provider_frame)

lemma system_inv: "(system_step pe)\<^sup>*\<^sup>* d d' \<Longrightarrow> release_inv (pe_crypto pe) d \<Longrightarrow> release_inv (pe_crypto pe) d'"
  by (induction rule: rtranclp_induct) (auto intro: preserves_inv system_step_preserves)

lemma system_db_ok: "(system_step pe)\<^sup>*\<^sup>* d d' \<Longrightarrow> db_ok d \<Longrightarrow> db_ok d'"
  by (induction rule: rtranclp_induct) (auto dest: system_step_preserves simp: preserves_def)

end
