(* ===== verification/Cms_Safety.thy ===== *)
theory Cms_Safety
  imports System_Steps
begin

text \<open>
  What requests to the administration do: each is one step of the services or nothing, and a request
  that does not report success changes nothing. From this follow the guarantees over sequences of
  requests.
\<close>

section \<open>One request\<close>

text \<open>An environment of a request on a platform: the collaborators that do not change, and one backend.\<close>

definition serves :: "platform_env \<Rightarrow> fs cms_env \<Rightarrow> bool" where
  "serves pe env \<longleftrightarrow> ce_crypto env = pe_crypto pe \<and> ce_account env = pe_account pe \<and>
     ce_license env = pe_license pe \<and> ce_parse_url env = pe_parse_url pe \<and>
     (\<exists>root_cfg. \<forall>sp st. ue_resolve (ce_upload env) sp = Inr st \<longrightarrow> st = local_storage root_cfg)"

definition reports_success :: "outcome res \<Rightarrow> bool" where
  "reports_success x \<longleftrightarrow>
     (case x of Inl _ \<Rightarrow> False
      | Inr oc \<Rightarrow> ''success'' \<in> fst ` set (oc_flash oc) \<or> oc_answer oc = Appearance_Json 200 None)"

lemma reports_success_simps [simp]:
  "reports_success (Inl e) = False"
  "reports_success (Inr (flashing k m a)) \<longleftrightarrow> k = ''success'' \<or> a = Appearance_Json 200 None"
  "reports_success (Inr ((flashing k m a)\<lparr>oc_auth_version := n\<rparr>)) \<longleftrightarrow> k = ''success'' \<or> a = Appearance_Json 200 None"
  "reports_success (Inr ((plain a)\<lparr>oc_flash := ps\<rparr>)) \<longleftrightarrow> ''success'' \<in> fst ` set ps \<or> a = Appearance_Json 200 None"
  "reports_success (Inr (plain a)) \<longleftrightarrow> a = Appearance_Json 200 None"
  by (auto simp: reports_success_def flashing_def plain_def)

lemma temporary_password_success [simp]: "reports_success (Inr (temporary_password m p e))"
  by (simp add: temporary_password_def)

text \<open>The effect of a handler on the database.\<close>

definition effect :: "platform_env \<Rightarrow> db \<Rightarrow> outcome res \<times> db \<Rightarrow> bool" where
  "effect pe d r \<longleftrightarrow> snd r = d \<or> (system_step pe d (snd r) \<and> reports_success (fst r))"

named_theorems effects "rules for the effect of a handler"

lemma effect_same [effects]: "effect pe d (x, d)"
  by (simp add: effect_def)

lemma effect_reading [effects]: "effect pe d (reading r d done')"
  by (simp add: effect_def)

lemma effect_paged [effects]: "(\<And>page. effect pe d (k page)) \<Longrightarrow> effect pe d (paged rq d k)"
  by (auto simp: paged_def effect_def split: option.splits)

lemma effect_attempt [effects]:
  "(\<And>y d'. r = Inr (y, d') \<Longrightarrow> system_step pe d d') \<Longrightarrow> (\<And>y. reports_success (Inr (done' y))) \<Longrightarrow>
     effect pe d (attempt r d failed done')"
  by (auto simp: effect_def attempt_def split: sum.splits)

lemma effect_uncaught [effects]:
  "(\<And>y d'. r = Inr (y, d') \<Longrightarrow> system_step pe d d') \<Longrightarrow> (\<And>y. reports_success (Inr (done' y))) \<Longrightarrow>
     effect pe d (uncaught r d done')"
  by (auto simp: effect_def uncaught_def split: sum.splits)

lemmas release_page_defs = cms_artifacts_details_def cms_artifacts_index_def cms_artifacts_create_def
  cms_artifacts_edit_def cms_artifacts_update_def cms_artifacts_destroy_def cms_artifacts_publish_def
  cms_artifacts_sign_def cms_artifacts_request_managed_signature_def cms_artifacts_import_managed_signature_def
  cms_versions_index_def cms_versions_create_def cms_versions_store_def cms_versions_edit_def cms_versions_update_def
  cms_versions_toggle_def cms_versions_destroy_def cms_software_index_def cms_software_store_def cms_software_toggle_def
  cms_software_update_def cms_software_set_default_def cms_software_add_signing_key_def
  cms_software_revoke_signing_key_def cms_software_import_managed_signing_key_def cms_software_set_signed_updates_def

lemmas admin_page_defs = cms_storage_index_def cms_storage_activate_def cms_storage_edit_def cms_storage_create_def
  cms_storage_store_def cms_storage_update_def cms_licenses_index_def cms_licenses_create_def cms_licenses_store_def
  cms_licenses_edit_def cms_licenses_update_def cms_licenses_activate_def cms_licenses_destroy_activation_def
  cms_licenses_toggle_def cms_licenses_destroy_def cms_users_index_def cms_users_create_def cms_users_store_def
  cms_users_edit_def cms_users_update_def cms_users_reset_password_def cms_users_toggle_active_def
  cms_profiles_index_def cms_profiles_update_def cms_profiles_change_password_def cms_profiles_update_appearance_def
  cms_settings_index_def cms_settings_store_def cms_settings_update_def cms_settings_destroy_def
  cms_dashboards_health_def cms_dashboards_index_def

text \<open>Every operation as a step of the system.\<close>

lemmas release_ops = step.intros [THEN release_step]
lemmas account_ops = account_step.intros [THEN accounts_step]
lemmas license_ops = license_step.intros [THEN licenses_step]
lemmas provider_ops = provider_step.intros [THEN providers_step]

lemma release_reads:
  "effect pe d (cms_artifacts_details env rq d)" "effect pe d (cms_artifacts_index env rq d)"
  "effect pe d (cms_artifacts_create env rq d)" "effect pe d (cms_artifacts_edit env rq d)"
  "effect pe d (cms_artifacts_request_managed_signature env rq d)" "effect pe d (cms_versions_index env rq d)"
  "effect pe d (cms_versions_create env rq d)" "effect pe d (cms_versions_edit rq d)" "effect pe d (cms_software_index env rq d)"
  unfolding release_page_defs Let_def
  by (intro effects | auto split: option.splits sum.splits intro!: effects)+

lemma artifact_writes:
  assumes "ce_crypto env = pe_crypto pe"
  shows "effect pe d (cms_artifacts_destroy env rq d)"
    "effect pe d (cms_artifacts_publish env rq d)" "effect pe d (cms_artifacts_sign env rq d)"
    "effect pe d (cms_artifacts_import_managed_signature env rq d)"
  unfolding release_page_defs assms by (rule effects; (erule release_ops)?; simp)+

lemma artifact_edit_written: "effect pe d (cms_artifacts_update env rq d)"
  unfolding release_page_defs by (rule effects; auto simp: bind_res_Inr intro: release_ops)

lemma version_writes:
  "effect pe d (cms_versions_store env rq d)" "effect pe d (cms_versions_update env rq d)"
  "effect pe d (cms_versions_toggle rq d)" "effect pe d (cms_versions_destroy env rq d)"
  unfolding release_page_defs by (rule effects; (erule release_ops)?; simp)+

lemma software_writes:
  assumes "ce_crypto env = pe_crypto pe"
  shows "effect pe d (cms_software_store env rq d)" "effect pe d (cms_software_toggle env rq d)"
    "effect pe d (cms_software_update env rq d)" "effect pe d (cms_software_set_default env rq d)"
    "effect pe d (cms_software_add_signing_key env rq d)" "effect pe d (cms_software_revoke_signing_key env rq d)"
    "effect pe d (cms_software_import_managed_signing_key env rq d)" "effect pe d (cms_software_set_signed_updates env rq d)"
  unfolding release_page_defs assms by (rule effects; (erule release_ops)?; simp)+

lemma release_handlers:
  assumes "serves pe env" "(ca, h) \<in> set (release_actions env)" "ca \<noteq> (''Artifacts'', ''rebuildAllNames'')"
  shows "effect pe d (h rq d)"
proof -
  have "ce_crypto env = pe_crypto pe" using assms(1) by (simp add: serves_def)
  note writes = artifact_writes [OF this] artifact_edit_written version_writes software_writes [OF this]
  have "\<forall>(ca, h)\<in>set (release_actions env). ca \<noteq> (''Artifacts'', ''rebuildAllNames'') \<longrightarrow> effect pe d (h rq d)"
    by (simp add: release_actions_def release_reads writes)
  then show ?thesis using assms(2,3) by blast
qed

lemma admin_handlers:
  assumes "serves pe env" "(ca, h) \<in> set (admin_actions env me)"
  shows "effect pe d (h rq d)"
proof -
  have ev: "ce_account env = pe_account pe" "ce_license env = pe_license pe" "ce_parse_url env = pe_parse_url pe"
    using assms(1) by (simp_all add: serves_def)
  from assms(2) show ?thesis
    unfolding admin_actions_def
    by (auto simp: admin_page_defs ev unit_res_Inr Let_def split: option.splits sum.splits jsval.splits prod.splits if_splits
        intro!: effects) (erule account_ops license_ops provider_ops)+
qed

section \<open>Requests\<close>

lemma act_cases:
  assumes "serves pe env" "act env me ca rq (s, d) = (x, s', d')"
  shows "d' = d \<or> (system_step pe d d' \<and>
    (reports_success x \<or> ca = (''Artifacts'', ''store'') \<or> ca = (''Artifacts'', ''rebuildAllNames'')))"
proof -
  have cr: "ce_crypto env = pe_crypto pe" using assms(1) by (simp add: serves_def)
  obtain root_cfg where st: "\<forall>sp st. ue_resolve (ce_upload env) sp = Inr st \<longrightarrow> st = local_storage root_cfg"
    using assms(1) by (auto simp: serves_def)
  consider (store) "ca = (''Artifacts'', ''store'')" | (rebuild) "ca = (''Artifacts'', ''rebuildAllNames'')"
    | (other) "ca \<noteq> (''Artifacts'', ''store'')" "ca \<noteq> (''Artifacts'', ''rebuildAllNames'')" by blast
  then show ?thesis
  proof cases
    case store
    then have "d' = d \<or> (\<exists>f y. upload_artifact (ce_upload env) f (rq_input rq) (s, d) = (y, s', d'))"
      using assms(2) by (auto simp: act_def cms_artifacts_store_def split: option.splits if_splits prod.splits sum.splits)
    then show ?thesis using artifact_uploaded [OF _ st] release_step store by blast
  next
    case rebuild
    then have "db_action env me ca = Some (cms_artifacts_rebuild_all_names env)"
      by (simp add: db_action_def release_actions_def)
    then have "\<exists>n. rebuild_all_names (pe_crypto pe) (ce_nfkd env) (ce_read_object env) d = (n, d')"
      using assms(2) rebuild by (auto simp: act_def cms_artifacts_rebuild_all_names_def cr split: prod.splits sum.splits)
    then show ?thesis using names_rebuilt release_step rebuild by blast
  next
    case other
    show ?thesis
    proof (cases "db_action env me ca")
      case None
      then show ?thesis using assms(2) other(1) by (simp add: act_def)
    next
      case (Some h)
      then have "h rq d = (x, d')" using assms(2) other(1) by (auto simp: act_def split: prod.splits)
      moreover have "(ca, h) \<in> set (release_actions env) \<or> (ca, h) \<in> set (admin_actions env me)"
        using Some map_of_SomeD by (force simp: db_action_def)
      ultimately have "effect pe d (x, d')"
        using release_handlers [OF assms(1) _ other(2)] admin_handlers [OF assms(1)] by metis
      then show ?thesis by (auto simp: effect_def)
    qed
  qed
qed

lemma cms_respond_cases:
  assumes "cms_respond env se m path rq w = (y, se', w')"
  obtains (none) "y = None" "se' = se" "w' = w"
  | (handled) c a b me x where "runs (snd w) se m path = Some (Controller c a, b)" "c \<in> set cms_controllers"
      "auth_middleware (snd w) se = Continue me" "act env me (c, a) (rq\<lparr>rq_params := b\<rparr>) w = (x, w')"
      "y = Some x" "se' = session_after se x"
  using assms
  by (auto simp: cms_respond_def split: option.splits prod.splits auth_answer.splits handler.splits if_splits)

text \<open>Which handlers only read.\<close>

lemma reading_handlers:
  assumes "(ca, h) \<in> set (release_actions env @ admin_actions env me)" "snd ca \<notin> set changing_actions"
  shows "snd (h rq d) = d"
proof -
  have r: "snd (paged rq d (\<lambda>page. reading (r page) d (f page))) = d" for r :: "int \<Rightarrow> 'b res" and f
    by (rule paged_db) simp
  have "\<forall>(ca, h)\<in>set (release_actions env @ admin_actions env me). snd ca \<notin> set changing_actions \<longrightarrow> snd (h rq d) = d"
    unfolding release_actions_def admin_actions_def
    by (simp add: changing_actions_def)
      (simp add: release_page_defs admin_page_defs Let_def paged_db r split: option.splits sum.splits prod.splits)
  then show ?thesis using assms by blast
qed

end
