(* ===== verification/Cms_Fixture.thy ===== *)
theory Cms_Fixture
  imports Cms_Safety
begin

text \<open>A platform, an environment of a request and the requests that the concrete runs of the administration use.\<close>

definition toy_platform :: platform_env where
  "toy_platform = \<lparr> pe_crypto = toy_crypto, pe_account = toy_account, pe_license = toy_env, pe_parse_url = toy_url \<rparr>"

definition toy_cms_env :: "fs cms_env" where
  "toy_cms_env = \<lparr>
     ce_upload = sample_env\<lparr>ue_crypto := toy_crypto\<rparr>, ce_read_object = (\<lambda>_. Inr [1, 2]),
     ce_signer = \<lparr> se_url = None, se_ca_file = None, se_token_file = None \<rparr>,
     ce_exchange = \<lparr> sx_protocol = (\<lambda>_ _. Inr ''https:''), sx_send = (\<lambda>_ _ _. None), sx_parse = (\<lambda>_. None) \<rparr>,
     ce_semver = toy_semver, ce_iso_day = (\<lambda>_. True), ce_sql_date = Some, ce_parse_url = toy_url,
     ce_license = toy_env, ce_seed = 0, ce_row_ids = (''i1'', ''i2'', ''i3''),
     ce_account = toy_account, ce_salt = 0, ce_password = ''generated'',
     ce_sees_artifact = (\<lambda>_. True), ce_sees_version = (\<lambda>_. True), ce_sees_provider = (\<lambda>_. True),
     ce_sees_license = (\<lambda>_. True), ce_sees_user = (\<lambda>_. True), ce_sees_history = (\<lambda>_. True),
     ce_unchecked_page = (\<lambda>_. Some 1), ce_filter_text = (\<lambda>_. None), ce_collate = (\<lambda>s. s),
     ce_date_label = (\<lambda>_. []), ce_num_text = (\<lambda>_. []), ce_message = (\<lambda>_. ''failed''), ce_coded = (\<lambda>_. False),
     ce_health = (True, True, 0, 0) \<rparr>"

lemma toy_serves: "serves toy_platform toy_cms_env"
  by (auto simp: serves_def toy_platform_def toy_cms_env_def sample_env_def split: if_splits)

definition root_session :: session where
  "root_session = \<lparr> se_user = Some ''r1'', se_auth_version = Some 0 \<rparr>"

definition user_session :: session where
  "user_session = \<lparr> se_user = Some ''u1'', se_auth_version = Some 0 \<rparr>"

definition form_request :: "form \<Rightarrow> request" where
  "form_request ps = \<lparr> rq_params = [], rq_input = ps, rq_file = None \<rparr>"

lemma account_db_ok: "db_ok account_db"
  by code_simp

lemma found_users: "find_user account_db ''r1'' = Inr sample_root" "find_user account_db ''u1'' = Inr sample_user"
  by (simp_all add: find_user_def find_by_def ignore_deleted_def account_db_def sample_root_def sample_user_def)

lemma signed_in_users:
  "auth_middleware account_db root_session = Continue sample_root" "auth_middleware account_db user_session = Continue sample_user"
  by (simp_all add: auth_middleware_def found_users root_session_def user_session_def)
    (simp_all add: sample_root_def sample_user_def)

text \<open>Answers of requests whose handler is known.\<close>

lemma respond_to:
  assumes "runs d se m path = Some (Controller c a, b)" "auth_middleware d se = Continue me" "c \<in> set cms_controllers"
    and "db_action env me (c, a) = Some h" "(c, a) \<noteq> (''Artifacts'', ''store'')" "h (rq\<lparr>rq_params := b\<rparr>) d = (x, d')"
  shows "cms_respond env se m path rq (s, d) = (Some x, session_after se x, s, d')"
  using assms by (auto simp: cms_respond_def act_def)

lemma routed:
  "runs account_db root_session POST ''/cms/users/u1/toggle'' = Some (Controller ''Users'' ''toggleActive'', [(''id'', [''u1''])])"
  "runs account_db root_session POST ''/cms/users/r1/toggle'' = Some (Controller ''Users'' ''toggleActive'', [(''id'', [''r1''])])"
  "runs account_db user_session POST ''/cms/profile/password'' = Some (Controller ''Profiles'' ''changePassword'', [])"
  by code_simp+

lemma users_handled:
  "''Users'' \<in> set cms_controllers" "''Profiles'' \<in> set cms_controllers"
  "db_action env me (''Users'', ''toggleActive'') = Some (cms_users_toggle_active env me)"
  "db_action env me (''Profiles'', ''changePassword'') = Some (cms_profiles_change_password env me)"
  by (simp_all add: cms_controllers_def db_action_def release_actions_def admin_actions_def)

lemma user_disabled:
  obtains d' x where "cms_respond toy_cms_env root_session POST ''/cms/users/u1/toggle'' (form_request []) (st, account_db) =
      (Some x, session_after root_session x, st, d')" "d' \<noteq> account_db" "reports_success x"
proof -
  obtain y d' where t: "toggle_active_user ''u1'' ''r1'' account_db = Inr (y, d')" by (rule sample_toggle)
  then have u: "users d' = modify_by us_id ''u1'' flip_active (users account_db)"
    by (auto simp: toggle_active_user_def res_simps)
  have n: "d' \<noteq> account_db"
  proof
    assume "d' = account_db"
    then have "users account_db = modify_by us_id ''u1'' flip_active (users account_db)" using u by simp
    then show False
      by (simp add: account_db_def modify_by_def sample_root_def sample_user_def flip_active_def next_version_def)
  qed
  have i: "us_id sample_root = ''r1''" by (simp add: sample_root_def)
  let ?rq = "(form_request [])\<lparr>rq_params := [(''id'', [''u1''])]\<rparr>"
  obtain x where h: "cms_users_toggle_active toy_cms_env sample_root ?rq account_db = (x, d')" "reports_success x"
    using t by (auto simp: cms_users_toggle_active_def attempt_def param_def form_request_def i split: prod.splits)
  then show thesis
    using that [OF respond_to [OF routed(1) signed_in_users(1) users_handled(1,3) _ h(1)] n h(2)] by simp
qed

lemma root_kept:
  obtains x where "cms_respond toy_cms_env root_session POST ''/cms/users/r1/toggle'' (form_request []) (st, account_db) =
      (Some x, session_after root_session x, st, account_db)" "\<not> reports_success x"
proof -
  let ?rq = "(form_request [])\<lparr>rq_params := [(''id'', [''r1''])]\<rparr>"
  have i: "us_id sample_root = ''r1''" "us_is_root sample_root" by (simp_all add: sample_root_def)
  then have "toggle_active_user ''r1'' ''r1'' account_db = Inl (Error ''Root user cannot be disabled/enabled.'')"
    by (simp add: toggle_active_user_def found_users)
  then obtain x where h: "cms_users_toggle_active toy_cms_env sample_root ?rq account_db = (x, account_db)" "\<not> reports_success x"
    by (simp add: cms_users_toggle_active_def attempt_def param_def form_request_def i fail_back_def)
  then show thesis
    using that [OF respond_to [OF routed(2) signed_in_users(1) users_handled(1,3) _ h(1)] h(2)] by simp
qed

definition password_form :: form where
  "password_form = [(''currentPassword'', JStr ''old''), (''newPassword'', JStr ''a longer password'')]"

lemma own_password_changed:
  obtains d' x where "cms_respond toy_cms_env user_session POST ''/cms/profile/password'' (form_request password_form) (st, account_db) =
      (Some x, session_after user_session x, st, d')" "reports_success x"
proof -
  have "case change_password toy_account 0 ''u1'' ''old'' (JStr ''a longer password'') account_db of Inl _ \<Rightarrow> False | Inr _ \<Rightarrow> True"
    by code_simp
  then obtain u d' where c: "change_password toy_account 0 ''u1'' ''old'' (JStr ''a longer password'') account_db = Inr (u, d')"
    by (auto split: sum.splits)
  let ?rq = "(form_request password_form)\<lparr>rq_params := []\<rparr>"
  have i: "us_id sample_user = ''u1''" "ce_account toy_cms_env = toy_account" "ce_salt toy_cms_env = 0"
    by (simp_all add: sample_user_def toy_cms_env_def)
  have "input ?rq ''currentPassword'' = JStr ''old''" "input ?rq ''newPassword'' = JStr ''a longer password''"
    by (simp_all add: input_def js_prop_def form_request_def password_form_def)
  then obtain x where h: "cms_profiles_change_password toy_cms_env sample_user ?rq account_db = (x, d')" "reports_success x"
    using c by (simp add: cms_profiles_change_password_def valid_password_def attempt_def i)
  then show thesis
    using that [OF respond_to [OF routed(3) signed_in_users(2) users_handled(2,4) _ h(1)] h(2)] by simp
qed

text \<open>The signed artifact of the sample as a draft that is not signed yet.\<close>

definition draft_db :: db where
  "draft_db = sample_db\<lparr>artifacts := [clear_signature (sample_artifact\<lparr>art_is_published := False\<rparr>)]\<rparr>"

lemma draft_db_ok: "db_ok draft_db"
  by code_simp

definition sign_request :: request where
  "sign_request = \<lparr> rq_params = [(''id'', [''a1''])],
     rq_input = [(''keyId'', JStr toy_key_id), (''signature'', JStr sample_signature)], rq_file = None \<rparr>"

end
