(* ===== verification/Cms_Guarantees.thy ===== *)
theory Cms_Guarantees
  imports Cms_Fixture
begin

text \<open>
  What the administration promises as a whole, over the requests of \<open>Cms_Requests\<close>: who changes the
  database and how, what a refused request leaves, what holds after any sequence of requests, and two
  things that always stay possible: to bring a signed draft to the clients and to keep working after a
  change of the own password.
\<close>

section \<open>Safety\<close>

text \<open>
  C2. A request to the administration changes the database only as one operation of a service, on
  behalf of an enabled user whose session is current, and of a root user where products, storage,
  settings or users are concerned.
\<close>

theorem cms_request_refines:
  assumes "serves pe env" "cms_respond env se m path rq (s, d) = (y, se', s', d')" "d' \<noteq> d"
  shows "system_step pe d d' \<and>
     (\<exists>c a b u. runs d se m path = Some (Controller c a, b) \<and> a \<in> set changing_actions \<and>
        auth_middleware d se = Continue u \<and> us_is_active u \<and> (c \<in> set root_controllers \<longrightarrow> us_is_root u))"
proof -
  from assms(2) obtain c a b me x where r: "runs d se m path = Some (Controller c a, b)" "c \<in> set cms_controllers"
      "auth_middleware d se = Continue me" "act env me (c, a) (rq\<lparr>rq_params := b\<rparr>) (s, d) = (x, s', d')"
    by (rule cms_respond_cases) (use assms(3) in auto)
  have "a \<in> set changing_actions"
  proof (rule ccontr)
    assume a: "a \<notin> set changing_actions"
    then have n: "(c, a) \<noteq> (''Artifacts'', ''store'')" by (auto simp: changing_actions_def)
    show False
    proof (cases "db_action env me (c, a)")
      case None
      then show False using r(4) n assms(3) by (auto simp: act_def split: if_splits)
    next
      case (Some h)
      then have "((c, a), h) \<in> set (release_actions env @ admin_actions env me)"
        unfolding db_action_def by (rule map_of_SomeD)
      then have "snd (h (rq\<lparr>rq_params := b\<rparr>) d) = d" using a by (intro reading_handlers) auto
      then show False using r(4) n assms(3) Some by (auto simp: act_def split: prod.splits)
    qed
  qed
  moreover have "system_step pe d d'" using act_cases [OF assms(1) r(4)] assms(3) by blast
  moreover have "us_is_active me \<and> (c \<in> set root_controllers \<longrightarrow> us_is_root me)"
    using request_user [OF r(1,2)] r(3) by (metis auth_answer.inject(2))
  ultimately show ?thesis using r by blast
qed


section \<open>Sequences of requests\<close>

text \<open>Any requests, each with its own session, clock, fresh identifiers and answers of collaborators.\<close>

type_synonym cms_call = "fs cms_env \<times> session \<times> http_method \<times> string \<times> request"

fun cms_run :: "cms_call list \<Rightarrow> fs \<times> db \<Rightarrow> fs \<times> db" where
  "cms_run [] w = w"
| "cms_run ((env, se, m, path, rq) # calls) w =
     (case cms_respond env se m path rq w of (y, se', w') \<Rightarrow> cms_run calls w')"

lemma cms_run_steps:
  assumes "\<forall>call\<in>set calls. serves pe (fst call)"
  shows "(system_step pe)\<^sup>*\<^sup>* (snd w) (snd (cms_run calls w))"
  using assms
proof (induction calls arbitrary: w)
  case (Cons call calls)
  obtain env se m path rq where call: "call = (env, se, m, path, rq)" by (cases call)
  obtain y se' w' where r: "cms_respond env se m path rq w = (y, se', w')" by (cases "cms_respond env se m path rq w")
  have "serves pe env" using Cons.prems call by simp
  from r have "snd w' = snd w \<or> system_step pe (snd w) (snd w')"
    by (rule cms_respond_cases) (use act_cases [OF \<open>serves pe env\<close>] in \<open>metis prod.collapse\<close>)+
  then have "(system_step pe)\<^sup>*\<^sup>* (snd w) (snd w')" by auto
  also have "(system_step pe)\<^sup>*\<^sup>* (snd w') (snd (cms_run calls w'))" using Cons by simp
  finally show ?case by (simp add: call r)
qed simp

text \<open>
  C1. No sequence of requests to the administration takes the tables out of their constraints, nor the
  releases out of their invariant: every signed manifest that is stored is complete, with a signature
  over its payload that a registered key of its identifier verifies.
\<close>

theorem cms_keeps_types:
  assumes "\<forall>call\<in>set calls. serves pe (fst call)" "db_ok d"
  shows "db_ok (snd (cms_run calls (s, d))) \<and>
     ((\<forall>a\<in>set (artifacts d). signature_ok (pe_crypto pe) (signing_keys d) a) \<longrightarrow>
        (\<forall>a\<in>set (artifacts (snd (cms_run calls (s, d)))).
           signature_ok (pe_crypto pe) (signing_keys (snd (cms_run calls (s, d)))) a))"
proof -
  have r: "(system_step pe)\<^sup>*\<^sup>* d (snd (cms_run calls (s, d)))" using cms_run_steps [OF assms(1), of "(s, d)"] by simp
  show ?thesis using system_db_ok [OF r assms(2)] system_inv [OF r] assms(2) by (auto simp: release_inv_def)
qed

section \<open>The own password\<close>

lemma changed_password:
  assumes "change_password env salt i current v d = Inr (u', d')" "satisfies user_constraints (users d)"
  obtains u where "find_user d i = Inr u" "find_user d' i = Inr u'" "us_auth_version u' = us_auth_version u + 1"
    "us_is_active u' = us_is_active u"
proof -
  obtain password u where u: "find_user d i = Inr u" and n: "new_password env salt password u d = Inr (u', d')"
    using assms(1) by (auto simp: change_password_def res_simps)
  have i: "us_id u = i" "u \<in> set (users d)" "us_deleted_at u = None" using find_user_Inr [OF u] by auto
  let ?f = "\<lambda>r. next_version (set_password env salt password r)"
  have u': "u' = ?f u" using n by (auto simp: new_password_def res_simps Let_def)
  have us: "users d' = modify_by us_id i ?f (users d)" "satisfies user_constraints (users d')"
    using new_password_effect [OF n] i(1) by blast+
  have "u' \<in> set (users d')" "us_id u' = i" "us_deleted_at u' = None"
    using i by (auto simp: us u' modify_by_def next_version_def set_password_def)
  then have "find_user d' i = Inr u'" using find_user_mem [OF us(2)] by metis
  then show thesis using that u by (simp add: u' next_version_def set_password_def)
qed

text \<open>
  A user who changes the own password goes on working and nobody else does: the session of the
  request is accepted afterwards as the same user, and every session of the user that was accepted
  before is rejected, the old state of this one included.
\<close>

theorem password_change_keeps_session:
  assumes "db_ok d" "runs d se m path = Some (Controller ''Profiles'' ''changePassword'', b)"
    and "cms_respond env se m path rq (s, d) = (Some x, se', s', d')" "reports_success x"
  shows "\<exists>u. auth_middleware d' se' = Continue u \<and> se_user se' = se_user se \<and> se_user se = Some (us_id u) \<and>
     (\<forall>other v. se_user other = se_user se \<and> auth_middleware d other = Continue v \<longrightarrow>
        auth_middleware d' other = Signed_Out ''Your session is no longer valid. Please sign in again.'')"
proof -
  from assms(3) obtain me where me: "auth_middleware d se = Continue me"
      and a: "act env me (''Profiles'', ''changePassword'') (rq\<lparr>rq_params := b\<rparr>) (s, d) = (x, s', d')"
      and se': "se' = session_after se x"
    by (rule cms_respond_cases) (use assms(2) in auto)
  have "db_action env me (''Profiles'', ''changePassword'') = Some (cms_profiles_change_password env me)"
    by (simp add: db_action_def release_actions_def admin_actions_def)
  then have "cms_profiles_change_password env me (rq\<lparr>rq_params := b\<rparr>) d = (x, d')"
    using a by (simp add: act_def split: prod.splits)
  then obtain current v u' where c: "change_password (ce_account env) (ce_salt env) (us_id me) current v d = Inr (u', d')"
      and x: "x = Inr ((flashing ''success'' ''Password changed successfully.'' Back)\<lparr>oc_auth_version := Some (us_auth_version u')\<rparr>)"
    using assms(4)
    by (auto simp: cms_profiles_change_password_def attempt_cases fail_back_def split: jsval.splits option.splits)
  have "satisfies user_constraints (users d)" using assms(1) by (simp add: db_ok_def)
  from c this obtain u where u: "find_user d (us_id me) = Inr u" "find_user d' (us_id me) = Inr u'"
    "us_auth_version u' = us_auth_version u + 1" "us_is_active u' = us_is_active u"
    by (rule changed_password)
  have s: "se_user se = Some (us_id me)" "us_is_active me"
    using me by (auto simp: auth_middleware_def dest!: find_user_Inr split: option.splits sum.splits if_splits)
  then have "u = me" using me u(1) by (auto simp: auth_middleware_def split: if_splits)
  moreover have "us_id u' = us_id me" using find_user_Inr [OF u(2)] by simp
  ultimately have "auth_middleware d' se' = Continue u' \<and> se_user se' = se_user se \<and> se_user se = Some (us_id u')"
    using s u by (simp add: se' x session_after_def auth_middleware_def)
  moreover have "auth_middleware d' other = Signed_Out ''Your session is no longer valid. Please sign in again.''"
    if "se_user other = se_user se" "auth_middleware d other = Continue v" for other v
    using that s(1) u by (auto simp: auth_middleware_def split: if_splits)
  ultimately show ?thesis by blast
qed

section \<open>Concrete runs\<close>

lemma cms_request_refines_witness:
  "\<exists>x se' d'. cms_respond toy_cms_env root_session POST ''/cms/users/u1/toggle'' (form_request []) (Map.empty, account_db) =
      (Some x, se', Map.empty, d') \<and> d' \<noteq> account_db \<and> system_step toy_platform account_db d' \<and>
      (\<exists>u. auth_middleware account_db root_session = Continue u \<and> us_is_root u)"
proof -
  obtain d' x where r: "cms_respond toy_cms_env root_session POST ''/cms/users/u1/toggle'' (form_request []) (Map.empty, account_db) =
      (Some x, session_after root_session x, Map.empty, d')" "d' \<noteq> account_db" "reports_success x" by (rule user_disabled)
  have "''Users'' \<in> set root_controllers" by code_simp
  then show ?thesis using cms_request_refines [OF toy_serves r(1,2)] r routed(1) by auto
qed


lemma cms_keeps_types_witness:
  "\<exists>w. cms_run [(toy_cms_env, root_session, POST, ''/cms/users/u1/toggle'', form_request [])] (Map.empty, account_db) = w \<and>
     snd w \<noteq> account_db \<and> db_ok (snd w)"
proof -
  let ?calls = "[(toy_cms_env, root_session, POST, ''/cms/users/u1/toggle'', form_request [])]"
  obtain d' x where "cms_respond toy_cms_env root_session POST ''/cms/users/u1/toggle'' (form_request []) (Map.empty, account_db) =
      (Some x, session_after root_session x, Map.empty, d')" "d' \<noteq> account_db" "reports_success x" by (rule user_disabled)
  then have "snd (cms_run ?calls (Map.empty, account_db)) \<noteq> account_db" by simp
  moreover have "db_ok (snd (cms_run ?calls (Map.empty, account_db)))"
    by (rule cms_keeps_types [where pe = toy_platform, THEN conjunct1]) (simp_all add: toy_serves account_db_ok)
  ultimately show ?thesis by blast
qed

lemma password_change_keeps_session_witness:
  "\<exists>x se' d' u. cms_respond toy_cms_env user_session POST ''/cms/profile/password'' (form_request password_form) (Map.empty, account_db) =
      (Some x, se', Map.empty, d') \<and> auth_middleware d' se' = Continue u \<and>
      auth_middleware d' user_session = Signed_Out ''Your session is no longer valid. Please sign in again.''"
proof -
  obtain d' x where r: "cms_respond toy_cms_env user_session POST ''/cms/profile/password'' (form_request password_form) (Map.empty, account_db) =
      (Some x, session_after user_session x, Map.empty, d')" "reports_success x" by (rule own_password_changed)
  show ?thesis using password_change_keeps_session [OF account_db_ok routed(3) r] r signed_in_users(2) by blast
qed

end
