(* ===== verification/Cms_Liveness.thy ===== *)
theory Cms_Liveness
  imports Cms_Fixture
begin

text \<open>
  What always stays possible: a draft whose signature an active key verifies can be signed and published
  by two requests, whatever else happens in the answers of collaborators, and is then what clients are
  served.
\<close>

section \<open>Writes that keep what the constraints see\<close>

lemma ignore_deleted_modify:
  "(\<And>r. key r = k \<Longrightarrow> del (f r) = del r) \<Longrightarrow>
     ignore_deleted del (modify_by key k f t) = modify_by key k f (ignore_deleted del t)"
  by (induction t) (auto simp: ignore_deleted_def modify_by_def)

definition harmless :: "(artifact_row \<Rightarrow> artifact_row) \<Rightarrow> bool" where
  "harmless g \<longleftrightarrow> (\<forall>r. constraint_columns (g r) = constraint_columns r \<and> art_deleted_at (g r) = art_deleted_at r)"

lemma harmless_writes [simp]: "harmless (store_signature k s m)" "harmless (publish_row now)"
  by (simp_all add: harmless_def constraint_columns_def store_signature_def publish_row_def)

lemma harmless_save:
  assumes "harmless g" "db_ok d" "find_artifact d i = Inr a"
  obtains d' where "save_artifact g i d = Inr d'" "d' = d\<lparr>artifacts := modify_by art_id i g (artifacts d)\<rparr>"
    "db_ok d'" "find_artifact d' i = Inr (g a)" "g a \<in> set (artifacts d')"
proof -
  let ?t = "modify_by art_id i g (artifacts d)"
  have "map constraint_columns ?t = map constraint_columns (artifacts d)"
    using assms(1) by (auto simp: modify_by_def harmless_def)
  then have ok: "satisfies artifact_constraints ?t"
    using assms(2) artifact_constraints_same [of ?t "artifacts d"] by (simp add: db_ok_def constraint_columns_def [abs_def])
  have i: "art_id (g r) = art_id r" for r using assms(1) unfolding harmless_def constraint_columns_def by (metis prod.inject)
  have "find_by art_id i (ignore_deleted art_deleted_at ?t) = map_option g (find_by art_id i (ignore_deleted art_deleted_at (artifacts d)))"
    using assms(1) i by (simp add: ignore_deleted_modify harmless_def find_by_modify_by_same)
  then have "find_artifact (d\<lparr>artifacts := ?t\<rparr>) i = Inr (g a)"
    using assms(3) by (simp add: find_artifact_def from_option_Inr)
  moreover from this have "g a \<in> set ?t" using find_artifact_Inr by force
  ultimately show thesis using ok db_ok_artifacts [OF assms(2) ok] that by (simp add: save_artifact_Inr)
qed

section \<open>The two operations succeed\<close>

lemma active_key_found:
  assumes "db_ok d" "k \<in> set (active_keys d p)"
  shows "active_key d p (sk_key_id k) = Some k"
proof -
  have "distinct (map sk_key_id (signing_keys d))"
    using assms(1) by (simp add: db_ok_def signing_key_constraints_def unique_on_total)
  then have "distinct (map sk_key_id (active_keys d p))" by (simp add: active_keys_def distinct_map_filter)
  then show ?thesis using assms(2) unfolding active_key_def by (rule find_by_distinct)
qed

lemma signing_succeeds:
  assumes "db_ok d" "find_artifact d i = Inr a" "rel_version (load_release d a) = Some v"
    and "build_ota_release_manifest (load_release d a) = Inr m"
    and "k \<in> set (active_keys d (ver_software_id v))" "is_hex64 (sk_key_id k)"
    and "verify_ota_release_signature cr (payload_of m) (JStr sig) (sk_public_key k)"
  obtains d' a' where "set_artifact_signature cr i (JStr (sk_key_id k)) (JStr sig) d = Inr (a', d')"
    "a' = store_signature (sk_key_id k) sig (manifest_obj m) a"
    "d' = d\<lparr>artifacts := modify_by art_id i (store_signature (sk_key_id k) sig (manifest_obj m)) (artifacts d)\<rparr>"
    "db_ok d'" "find_artifact d' i = Inr a'"
proof -
  have "list_all is_b64url sig" using assms(7) by (auto simp: verify_ota_release_signature_def split: if_splits)
  then have t: "trimmed_text (JStr sig) = sig" "trimmed_text (JStr (sk_key_id k)) = sk_key_id k"
    using assms(6) by (simp_all add: trimmed_text_def trim_b64url trim_hex64)
  have acc: "accept_signature cr i (JStr (sk_key_id k)) (JStr sig) d = Inr (a, sk_key_id k, sig, manifest_obj m)"
    using assms(6,7) active_key_found [OF assms(1,5)]
    by (simp add: accept_signature_def assms(2,3,4) t release_version_def create_ota_release_payload_def parse_payload_of Let_def)
  obtain d' where "save_artifact (store_signature (sk_key_id k) sig (manifest_obj m)) i d = Inr d'"
    "d' = d\<lparr>artifacts := modify_by art_id i (store_signature (sk_key_id k) sig (manifest_obj m)) (artifacts d)\<rparr>"
    "db_ok d'" "find_artifact d' i = Inr (store_signature (sk_key_id k) sig (manifest_obj m) a)"
    by (rule harmless_save [OF harmless_writes(1) assms(1,2)]) blast
  then show thesis using that acc by (simp add: set_artifact_signature_def)
qed

lemma publishing_succeeds:
  assumes "db_ok d" "find_artifact d i = Inr a" "\<not> art_is_published a" "\<not> art_is_archived a"
    and "rel_version (load_release d a) = Some v" "rel_software (load_release d a) = Some s"
    and "build_ota_release_manifest (load_release d a) = Inr m"
    and "k \<in> set (active_keys d (ver_software_id v))" "sk_key_id k \<noteq> []"
    and "verify_ota_release_signature cr (payload_of m) (JStr sig) (sk_public_key k)"
    and "art_signature a = Some sig" "art_signature_key_id a = Some (sk_key_id k)"
  obtains d' where "publish_artifact cr now i d = Inr (publish_row now a, d')"
    "d' = d\<lparr>artifacts := modify_by art_id i (publish_row now) (artifacts d)\<rparr>"
    "db_ok d'" "find_artifact d' i = Inr (publish_row now a)" "publish_row now a \<in> set (artifacts d')"
proof -
  have "assert_valid_release_signature cr d (load_release d a) = Inr ()"
    using assms(9-12) active_key_found [OF assms(1,8)] verified_signature_nonempty [OF assms(10)]
    by (simp add: assert_valid_release_signature_def release_version_def assms(5) create_ota_release_payload_def assms(7)
        no_text_def Let_def)
  moreover obtain d' where "save_artifact (publish_row now) i d = Inr d'"
    "d' = d\<lparr>artifacts := modify_by art_id i (publish_row now) (artifacts d)\<rparr>"
    "db_ok d'" "find_artifact d' i = Inr (publish_row now a)" "publish_row now a \<in> set (artifacts d')"
    by (rule harmless_save [OF harmless_writes(2) assms(1,2)]) blast
  ultimately show thesis using that assms(3,4)
    by (simp add: publish_artifact_def assms(2) release_software_def release_version_def assms(5,6) Let_def)
qed

section \<open>What is published is served\<close>

text \<open>The manifest the code builds is the object of the query.\<close>

lemma built_sql_manifest:
  assumes "build_ota_release_manifest (load_release d a) = Inr m" "db_ok d"
    and "rel_version (load_release d a) = Some v" "rel_software (load_release d a) = Some s"
  shows "sql_manifest d s v a = manifest_obj m"
proof -
  have *: "find_by key i t = Some r" if "find_by key i (ignore_deleted del t) = Some r" "distinct (map key t)"
    for key :: "'r \<Rightarrow> string" and i t r and del :: "'r \<Rightarrow> int option"
    using find_by_Some [OF that(1)] find_by_distinct [OF that(2)] by (auto simp: row_simps)
  from assms(1) obtain p h n c where p: "rel_platform (load_release d a) = Some p" "rel_architecture (load_release d a) = Some h"
    and n: "art_size_bytes a = Some n" "art_sha256 a = Some c"
    and m: "m = \<lparr> mf_software = sw_slug s, mf_version = version_text v, mf_codename = ver_codename v,
      mf_changelog = ver_changelog v, mf_channel = art_channel a, mf_platform = plat_name p, mf_architecture = arch_name h,
      mf_file_name = art_file_name a, mf_size_bytes = n, mf_sha256 = c \<rparr>"
    unfolding manifest_Inr assms(3,4) rel_artifact_load by blast
  have u: "distinct (map plat_id (platforms d))" "distinct (map arch_id (architectures d))"
    using assms(2) by (simp_all add: db_ok_def platform_constraints_def architecture_constraints_def unique_on_total)
  have "find_by plat_id (art_platform_id a) (platforms d) = Some p"
    by (rule * [OF _ u(1)]) (use p(1) in \<open>simp add: load_release_def Let_def\<close>)
  moreover have "find_by arch_id (art_architecture_id a) (architectures d) = Some h"
    by (rule * [OF _ u(2)]) (use p(2) in \<open>simp add: load_release_def Let_def\<close>)
  ultimately show ?thesis
    by (simp add: sql_manifest_def manifest_obj_def m n version_text_def nullable_opt_text) (simp add: nullable_def opt_text_def)
qed

lemma relations_visible:
  assumes "build_ota_release_manifest (load_release d a) = Inr m"
  shows "list_ex (\<lambda>p. plat_id p = art_platform_id a \<and> plat_deleted_at p = None) (platforms d)"
    "list_ex (\<lambda>h. arch_id h = art_architecture_id a \<and> arch_deleted_at h = None) (architectures d)"
  using assms by (auto simp: manifest_Inr load_release_def Let_def list_ex_iff row_simps dest!: find_by_Some)

lemma published_visible:
  assumes "db_ok d" "find_artifact d i = Inr a" "art_is_published a" "\<not> art_is_archived a"
    and "rel_version (load_release d a) = Some v" "rel_software (load_release d a) = Some s"
    and "ver_is_active v" "sw_is_active s" "build_ota_release_manifest (load_release d a) = Inr m"
    and "find_by sp_id (art_provider_id a) (ignore_deleted sp_deleted_at (providers d)) = Some sp" "sp_is_active sp"
    and "k \<in> set (active_keys d (sw_id s))" "art_signature a = Some sig" "art_signature_key_id a = Some (sk_key_id k)"
    and "art_signature_manifest a = Some (manifest_obj m)"
  shows "find_public_by_id d i (Some (sw_id s)) = Some a"
proof -
  have a: "a \<in> set (artifacts d)" "art_id a = i" "art_deleted_at a = None" using find_artifact_Inr [OF assms(2)] by simp_all
  have v: "v \<in> set (versions d)" "ver_id v = art_version_id a" "ver_deleted_at v = None"
    and s: "s \<in> set (software d)" "sw_id s = ver_software_id v"
    using assms(5,6) by (auto simp: load_release_def Let_def row_simps dest!: find_by_Some)
  have "eligible_signature d s v a"
    using assms(12-15) built_sql_manifest [OF assms(9,1,5,6)]
    by (auto simp: eligible_signature_def list_ex_iff active_keys_def jsonb_eq_iff)
  then have "eligible_version d (Some (sw_id s)) a"
    using v s assms(7,8) by (auto simp: eligible_version_def list_ex_iff)
  moreover have "list_ex (\<lambda>sp. sp_id sp = art_provider_id a \<and> sp_deleted_at sp = None \<and> sp_is_active sp) (providers d)"
    using assms(10,11) by (auto simp: list_ex_iff row_simps dest!: find_by_Some)
  ultimately have "a \<in> set (public_query d (Some (sw_id s)))"
    using a assms(3,4) relations_visible [OF assms(9)] by (simp add: public_artifact_def)
  moreover have "distinct (map art_id (public_query d (Some (sw_id s))))"
    using assms(1) by (simp add: public_query_def ignore_deleted_def distinct_map_filter db_ok_def artifact_constraints_def unique_on_total)
  ultimately show ?thesis using a(2) find_by_distinct by (fastforce simp: find_public_by_id_def)
qed

section \<open>From a draft to the clients\<close>

lemma act_release:
  assumes "db_action env me ca = Some h" "ca \<noteq> (''Artifacts'', ''store'')" "h rq d = (x, d')"
  shows "act env me ca rq (st, d) = (x, st, d')"
  using assms by (auto simp: act_def)

text \<open>
  C3. Whoever holds a signature that an active key of the product verifies over the manifest of a draft can
  bring it to the clients: the request that submits the signature succeeds, then the request that
  publishes succeeds, and afterwards the public query finds the artifact, with an envelope that
  carries exactly this payload, signature and key. The draft has to be one of an active version of an active
  product, not archived, on an enabled provider; nothing else of the database matters, nor any other input.
\<close>

theorem signed_draft_goes_live:
  assumes "db_ok d" "find_artifact d i = Inr a" "\<not> art_is_published a" "\<not> art_is_archived a"
    and "rel_version (load_release d a) = Some v" "rel_software (load_release d a) = Some s"
    and "ver_is_active v" "sw_is_active s"
    and "find_by sp_id (art_provider_id a) (ignore_deleted sp_deleted_at (providers d)) = Some sp" "sp_is_active sp"
    and "create_ota_release_payload (load_release d a) = Inr payload"
    and "k \<in> set (active_keys d (sw_id s))" "is_hex64 (sk_key_id k)"
    and "verify_ota_release_signature (ce_crypto env) payload (JStr sig) (sk_public_key k)" "ce_crypto env' = ce_crypto env"
    and "param rq ''id'' = i" "input rq ''keyId'' = JStr (sk_key_id k)" "input rq ''signature'' = JStr sig" "param rq' ''id'' = i"
  shows "\<exists>x x' d1 d2 b. act env me (''Artifacts'', ''sign'') rq (st, d) = (x, st, d1) \<and> reports_success x \<and>
     act env' me' (''Artifacts'', ''publish'') rq' (st, d1) = (x', st, d2) \<and> reports_success x' \<and>
     find_public_by_id d2 i (Some (sw_id s)) = Some b \<and>
     create_ota_signature_envelope (load_release d2 b) =
       Inr (Some \<lparr> env_payload = payload, env_signature = sig, env_key_id = sk_key_id k \<rparr>)"
proof -
  obtain m where m: "build_ota_release_manifest (load_release d a) = Inr m" "payload = payload_of m"
    using assms(11) by (auto simp: payload_Inr)
  have vs: "ver_software_id v = sw_id s"
    using assms(5,6) by (auto simp: load_release_def Let_def dest!: find_by_Some)
  note verified = assms(14) [unfolded m(2)]
  obtain d1 a1 where d1: "set_artifact_signature (ce_crypto env) i (JStr (sk_key_id k)) (JStr sig) d = Inr (a1, d1)"
    and a1: "a1 = store_signature (sk_key_id k) sig (manifest_obj m) a"
    and e1: "d1 = d\<lparr>artifacts := modify_by art_id i (store_signature (sk_key_id k) sig (manifest_obj m)) (artifacts d)\<rparr>"
    and ok1: "db_ok d1" and f1: "find_artifact d1 i = Inr a1"
    by (rule signing_succeeds [OF assms(1,2,5) m(1) _ assms(13) verified]) (use assms(12) vs in auto)
  have ids: "art_version_id a1 = art_version_id a" "art_provider_id a1 = art_provider_id a"
    by (simp_all add: a1 store_signature_def)
  have r1: "rel_version (load_release d1 a1) = Some v" "rel_software (load_release d1 a1) = Some s"
    "build_ota_release_manifest (load_release d1 a1) = Inr m"
    using release_columns [OF ids(1), of d] manifest_columns [of a1 a d] assms(5,6) m(1) by (simp_all add: e1) (simp add: a1)
  have k1: "active_keys d1 = active_keys d" by (simp add: e1 active_keys_def fun_eq_iff)
  have k0: "sk_key_id k \<noteq> []" using assms(13) by (auto simp: is_hex64_def)
  let ?b = "publish_row (ce_now env') a1"
  obtain d2 where d2: "publish_artifact (ce_crypto env) (ce_now env') i d1 = Inr (?b, d2)"
    and e2: "d2 = d1\<lparr>artifacts := modify_by art_id i (publish_row (ce_now env')) (artifacts d1)\<rparr>"
    and ok2: "db_ok d2" and f2: "find_artifact d2 i = Inr ?b"
    by (rule publishing_succeeds [OF ok1 f1 _ _ r1 _ k0 verified])
      (use assms(3,4,12) vs in \<open>auto simp: a1 store_signature_def k1\<close>)
  have b: "art_version_id ?b = art_version_id a" "art_provider_id ?b = art_provider_id a" "art_is_published ?b"
    "\<not> art_is_archived ?b" "art_signature ?b = Some sig" "art_signature_key_id ?b = Some (sk_key_id k)"
    "art_signature_manifest ?b = Some (manifest_obj m)"
    using assms(4) by (simp_all add: a1 store_signature_def publish_row_def)
  have l2: "load_release d2 ?b = load_release d ?b" by (simp add: e1 e2)
  have r2: "rel_version (load_release d2 ?b) = Some v" "rel_software (load_release d2 ?b) = Some s"
    "build_ota_release_manifest (load_release d2 ?b) = Inr m"
    using release_columns [OF b(1), of d] manifest_columns [of ?b a d] assms(5,6) m(1) by (simp_all add: l2) (simp add: a1)
  have p2: "providers d2 = providers d" "active_keys d2 = active_keys d" by (simp_all add: e1 e2 active_keys_def fun_eq_iff)
  have "find_public_by_id d2 i (Some (sw_id s)) = Some ?b"
    by (rule published_visible [OF ok2 f2 b(3,4) r2(1,2) assms(7,8) r2(3) _ assms(10) _ b(5,6,7)]) (use assms(9,12) b(2) p2 in auto)
  moreover have "create_ota_signature_envelope (load_release d2 ?b) =
      Inr (Some \<lparr> env_payload = payload, env_signature = sig, env_key_id = sk_key_id k \<rparr>)"
    using envelope_of_signed [OF r2(3)] b verified_signature_nonempty [OF verified] k0 by (simp add: m(2))
  moreover have "db_action env me (''Artifacts'', ''sign'') = Some (cms_artifacts_sign env)"
    "db_action env' me' (''Artifacts'', ''publish'') = Some (cms_artifacts_publish env')"
    by (simp_all add: db_action_def release_actions_def)
  then have "\<exists>x. act env me (''Artifacts'', ''sign'') rq (st, d) = (x, st, d1) \<and> reports_success x"
    "\<exists>x. act env' me' (''Artifacts'', ''publish'') rq' (st, d1) = (x, st, d2) \<and> reports_success x"
    using d1 d2 assms(15-19)
    by (simp_all add: act_def cms_artifacts_sign_def cms_artifacts_publish_def attempt_def)
  ultimately show ?thesis by blast
qed

lemma signed_draft_goes_live_witness:
  "\<exists>x x' d1 d2 b. act toy_cms_env sample_root (''Artifacts'', ''sign'') sign_request (Map.empty, draft_db) = (x, Map.empty, d1) \<and>
     act toy_cms_env sample_root (''Artifacts'', ''publish'') sign_request (Map.empty, d1) = (x', Map.empty, d2) \<and> reports_success x' \<and>
     find_public_by_id d2 ''a1'' (Some ''s1'') = Some b"
proof -
  let ?a = "clear_signature (sample_artifact\<lparr>art_is_published := False\<rparr>)"
  have c: "art_version_id ?a = art_version_id sample_artifact" "signed_columns ?a = signed_columns sample_artifact"
    by (simp_all add: clear_signature_def signed_columns_def)
  have t: "versions draft_db = versions sample_db" "software draft_db = software sample_db" "providers draft_db = providers sample_db"
    "load_release draft_db = load_release sample_db" "active_keys draft_db = active_keys sample_db"
    by (simp_all add: draft_db_def active_keys_def fun_eq_iff)
  have f: "find_artifact draft_db ''a1'' = Inr ?a" "\<not> art_is_published ?a" "\<not> art_is_archived ?a"
    by (simp_all add: find_artifact_def draft_db_def find_by_def ignore_deleted_def sample_fields clear_signature_def)
  have v: "rel_version (load_release draft_db ?a) = Some sample_version" "rel_software (load_release draft_db ?a) = Some sample_software"
    using release_columns [OF c(1), of sample_db] sample_relations by (simp_all add: t)
  have p: "create_ota_release_payload (load_release draft_db ?a) = Inr (payload_of sample_manifest)"
    using manifest_columns [OF c(2), of sample_db] sample_built by (simp add: create_ota_release_payload_def t)
  have sp: "find_by sp_id (art_provider_id ?a) (ignore_deleted sp_deleted_at (providers draft_db)) = Some sample_provider"
    by (simp add: t clear_signature_def find_by_def ignore_deleted_def sample_tables sample_fields sample_rows)
  have k: "sample_key \<in> set (active_keys draft_db (sw_id sample_software))" "is_hex64 (sk_key_id sample_key)"
    by (simp_all add: t active_keys_def sample_tables sample_rows toy_key_id_def toy_digest_hex64)
  have s: "ver_is_active sample_version" "sw_is_active sample_software" "sp_is_active sample_provider"
    by (simp_all add: sample_version_def sample_software_def sample_provider_def)
  have e: "ce_crypto toy_cms_env = toy_crypto" by (simp add: toy_cms_env_def)
  have g: "verify_ota_release_signature (ce_crypto toy_cms_env) (payload_of sample_manifest) (JStr sample_signature) (sk_public_key sample_key)"
    using sample_verified by (simp add: e sample_rows)
  have q: "param sign_request ''id'' = ''a1''" "input sign_request ''keyId'' = JStr (sk_key_id sample_key)"
    "input sign_request ''signature'' = JStr sample_signature"
    by (simp_all add: sign_request_def param_def input_def js_prop_def sample_rows)
  show ?thesis
    using signed_draft_goes_live [OF draft_db_ok f v s(1,2) sp s(3) p k g refl q q(1), where st = Map.empty and me = sample_root and me' = sample_root]
    by (simp add: sample_rows) blast
qed

end
