(* ===== verification/Migration_Store.thy ===== *)
theory Migration_Store
  imports Schema JS_Values
begin

text \<open>
  The database the migrations of \<open>database/migrations\<close> change: tables with typed columns, defaults, indexes,
  foreign keys, checks, triggers and rows, and the statements of Lucid's schema builder on PostgreSQL that
  the migrations use. A statement checks what PostgreSQL checks of existing rows before it changes a table.
\<close>

section \<open>Tables\<close>

datatype pg_value =
    Pg_Null
  | Pg_Text string
  | Pg_Int int
  | Pg_Bool bool
  | Pg_Time int
  | Pg_Uuid string
  | Pg_Json jsval
  | Pg_Double rat

datatype pg_type = Uuid | Varchar nat | Text | Integer | Big_Integer | Boolean | Timestamp | Jsonb | Double | Serial

fun has_type :: "pg_type \<Rightarrow> pg_value \<Rightarrow> bool" where
  "has_type Uuid (Pg_Uuid u) = True"
| "has_type (Varchar n) (Pg_Text s) = (length s \<le> n)"
| "has_type Text (Pg_Text s) = True"
| "has_type Integer (Pg_Int i) = (- (2 ^ 31) \<le> i \<and> i < 2 ^ 31)"
| "has_type Serial (Pg_Int i) = (- (2 ^ 31) \<le> i \<and> i < 2 ^ 31)"
| "has_type Big_Integer (Pg_Int i) = (- (2 ^ 63) \<le> i \<and> i < 2 ^ 63)"
| "has_type Boolean (Pg_Bool b) = True"
| "has_type Timestamp (Pg_Time t) = True"
| "has_type Jsonb (Pg_Json v) = True"
| "has_type Double (Pg_Double q) = True"
| "has_type _ _ = False"

text \<open>\<open>defaultTo(value)\<close>, \<open>defaultTo(this.now())\<close>, \<open>defaultTo(this.raw('gen_random_uuid()'))\<close> and \<open>increments\<close>.\<close>

datatype column_default = Value pg_value | Now | Random_Uuid | Next_Serial

record column =
  co_name :: string
  co_type :: pg_type
  co_not_null :: bool
  co_default :: "column_default option"

text \<open>
  An index: a constraint of the table (\<open>PRIMARY KEY\<close>, \<open>UNIQUE\<close>) or an index of its own, unique or not,
  and the cells a row has to have to be in a partial one (\<^const>\<open>Pg_Null\<close> for \<open>IS NULL\<close>).
\<close>

datatype index_kind = Primary_Key | Unique_Constraint | Unique_Index | Plain_Index

record index =
  ix_name :: string
  ix_kind :: index_kind
  ix_columns :: "string list"
  ix_where :: "(string \<times> pg_value) list"

datatype on_delete = No_Action | Cascade | Restrict

text \<open>A foreign key to the column \<open>id\<close> of a table.\<close>

record foreign =
  fk_name :: string
  fk_column :: string
  fk_table :: string
  fk_on_delete :: on_delete

text \<open>\<open>CHECK (NOT a OR b)\<close>\<close>

record check =
  ck_name :: string
  ck_if :: string
  ck_then :: string

type_synonym row = "(string \<times> pg_value) list"

text \<open>The triggers are those that set \<open>updated_at\<close> before an update.\<close>

record pg_table =
  tb_columns :: "column list"
  tb_indexes :: "index list"
  tb_foreign :: "foreign list"
  tb_checks :: "check list"
  tb_triggers :: "string list"
  tb_rows :: "row list"

record store =
  st_tables :: "(string \<times> pg_table) list"
  st_functions :: "string list"

definition new_table :: pg_table where
  "new_table = \<lparr> tb_columns = [], tb_indexes = [], tb_foreign = [], tb_checks = [], tb_triggers = [], tb_rows = [] \<rparr>"

definition empty_store :: store where
  "empty_store = \<lparr> st_tables = [], st_functions = [] \<rparr>"

definition table_of :: "store \<Rightarrow> string \<Rightarrow> pg_table option" where
  "table_of s t = map_of (st_tables s) t"

definition put_table :: "string \<Rightarrow> pg_table \<Rightarrow> store \<Rightarrow> store" where
  "put_table t tb s = s\<lparr>st_tables := map (\<lambda>(n, x). if n = t then (n, tb) else (n, x)) (st_tables s)\<rparr>"

definition cell :: "row \<Rightarrow> string \<Rightarrow> pg_value" where
  "cell r c = (case map_of r c of None \<Rightarrow> Pg_Null | Some v \<Rightarrow> v)"

definition rows_of :: "store \<Rightarrow> string \<Rightarrow> row list" where
  "rows_of s t = (case table_of s t of None \<Rightarrow> [] | Some tb \<Rightarrow> tb_rows tb)"

section \<open>What PostgreSQL guarantees\<close>

definition fits :: "column \<Rightarrow> pg_value \<Rightarrow> bool" where
  "fits c v \<longleftrightarrow> (if v = Pg_Null then \<not> co_not_null c else has_type (co_type c) v)"

definition row_ok :: "column list \<Rightarrow> row \<Rightarrow> bool" where
  "row_ok cs r \<longleftrightarrow> list_all2 (\<lambda>c x. fst x = co_name c \<and> fits c (snd x)) cs r"

definition row_matches :: "(string \<times> pg_value) list \<Rightarrow> row \<Rightarrow> bool" where
  "row_matches ps r \<longleftrightarrow> list_all (\<lambda>(c, v). cell r c = v) ps"

text \<open>Rows with a null in a key are never duplicates.\<close>

definition index_ok :: "index \<Rightarrow> row list \<Rightarrow> bool" where
  "index_ok ix rows \<longleftrightarrow> ix_kind ix = Plain_Index \<or>
     distinct (filter (\<lambda>k. Pg_Null \<notin> set k)
       (map (\<lambda>r. map (cell r) (ix_columns ix)) (filter (row_matches (ix_where ix)) rows)))"

definition index_uses :: "index \<Rightarrow> string set" where
  "index_uses ix = set (ix_columns ix) \<union> fst ` set (ix_where ix)"

definition check_ok :: "check \<Rightarrow> row list \<Rightarrow> bool" where
  "check_ok ck rows \<longleftrightarrow> list_all (\<lambda>r. \<not> (cell r (ck_if ck) = Pg_Bool True \<and> cell r (ck_then ck) = Pg_Bool False)) rows"

definition table_ok :: "pg_table \<Rightarrow> bool" where
  "table_ok tb \<longleftrightarrow>
     distinct (map co_name (tb_columns tb)) \<and>
     list_all (row_ok (tb_columns tb)) (tb_rows tb) \<and>
     list_all (\<lambda>ix. index_uses ix \<subseteq> set (map co_name (tb_columns tb)) \<and> index_ok ix (tb_rows tb)) (tb_indexes tb) \<and>
     list_all (\<lambda>ck. {ck_if ck, ck_then ck} \<subseteq> set (map co_name (tb_columns tb)) \<and> check_ok ck (tb_rows tb)) (tb_checks tb) \<and>
     list_all (\<lambda>fk. fk_column fk \<in> set (map co_name (tb_columns tb))) (tb_foreign tb)"

definition link_ok :: "store \<Rightarrow> foreign \<Rightarrow> row list \<Rightarrow> bool" where
  "link_ok s fk rows \<longleftrightarrow>
     (case table_of s (fk_table fk) of
        None \<Rightarrow> False
      | Some target \<Rightarrow> list_all (\<lambda>r. cell r (fk_column fk) = Pg_Null \<or>
          list_ex (\<lambda>r'. cell r' ''id'' = cell r (fk_column fk)) (tb_rows target)) rows)"

definition links_ok :: "store \<Rightarrow> bool" where
  "links_ok s \<longleftrightarrow> list_all (\<lambda>(t, tb). list_all (\<lambda>fk. link_ok s fk (tb_rows tb)) (tb_foreign tb)) (st_tables s)"

definition store_ok :: "store \<Rightarrow> bool" where
  "store_ok s \<longleftrightarrow> distinct (map fst (st_tables s)) \<and> list_all (\<lambda>(t, tb). table_ok tb) (st_tables s) \<and> links_ok s"

section \<open>Statements\<close>

datatype modifier =
    Not_Nullable
  | Nullable
  | Default_To column_default
  | Primary
  | Unique_Column
  | Index_Column
  | References string on_delete

datatype table_op =
    Column string pg_type "modifier list"
  | Alter_Not_Null string
  | Drop_Column string
  | Unique "string list" string
  | Drop_Unique string
  | Index "string list" string
  | Drop_Index string
  | Drop_Foreign string

text \<open>What a deferred function does with the query builder, and the rows it is given.\<close>

datatype pg_write =
    Insert string row
  | Update string "row \<Rightarrow> bool" row
  | Delete string "row \<Rightarrow> bool"

datatype statement =
    Create_Table string "table_op list"
  | Alter_Table string "table_op list"
  | Drop_Table string
  | Drop_Named_Index string
  | Create_Unique_Index string string "string list" "(string \<times> pg_value) list"
  | Add_Check string string string string
  | Drop_Check string string
  | Create_Function string
  | Create_Trigger string string string
  | Defer "store \<Rightarrow> pg_write list res"

text \<open>The clock, identifiers that the database makes, and \<open>randomUUID()\<close>.\<close>

record migration_env =
  me_now :: int
  me_gen_uuid :: "nat \<Rightarrow> string"
  me_random_uuid :: string

definition default_value :: "migration_env \<Rightarrow> nat \<Rightarrow> column_default option \<Rightarrow> pg_value" where
  "default_value env n v =
     (case v of
        None \<Rightarrow> Pg_Null
      | Some (Value x) \<Rightarrow> x
      | Some Now \<Rightarrow> Pg_Time (me_now env)
      | Some Random_Uuid \<Rightarrow> Pg_Uuid (me_gen_uuid env n)
      | Some Next_Serial \<Rightarrow> Pg_Int (int n + 1))"

definition has_table :: "store \<Rightarrow> string \<Rightarrow> bool" where
  "has_table s t \<longleftrightarrow> table_of s t \<noteq> None"

definition referenced :: "store \<Rightarrow> string \<Rightarrow> bool" where
  "referenced s t \<longleftrightarrow> list_ex (\<lambda>(n, tb). n \<noteq> t \<and> list_ex (\<lambda>fk. fk_table fk = t) (tb_foreign tb)) (st_tables s)"

definition self_referenced :: "store \<Rightarrow> string \<Rightarrow> bool" where
  "self_referenced s t \<longleftrightarrow> list_ex (\<lambda>(n, tb). list_ex (\<lambda>fk. fk_table fk = t) (tb_foreign tb)) (st_tables s)"

definition with_table :: "store \<Rightarrow> string \<Rightarrow> (pg_table \<Rightarrow> pg_table res) \<Rightarrow> store res" where
  "with_table s t f =
     bind_res (from_option (Fault ''undefined_table'') (table_of s t)) (\<lambda>tb.
     bind_res (f tb) (\<lambda>tb'. Inr (put_table t tb' s)))"

definition has_column :: "pg_table \<Rightarrow> string \<Rightarrow> bool" where
  "has_column tb c \<longleftrightarrow> c \<in> set (map co_name (tb_columns tb))"

text \<open>\<open>ADD COLUMN\<close> fills the new column of every row with the default.\<close>

definition make_column :: "string \<Rightarrow> pg_type \<Rightarrow> modifier list \<Rightarrow> column" where
  "make_column c ty ms =
     \<lparr> co_name = c, co_type = ty, co_not_null = (Not_Nullable \<in> set ms \<or> Primary \<in> set ms \<or> ty = Serial),
       co_default = (if ty = Serial then Some Next_Serial else
         (case List.find (\<lambda>m. case m of Default_To v \<Rightarrow> True | _ \<Rightarrow> False) ms of
            Some (Default_To v) \<Rightarrow> Some v | _ \<Rightarrow> None)) \<rparr>"

definition add_column :: "migration_env \<Rightarrow> column \<Rightarrow> pg_table \<Rightarrow> pg_table res" where
  "add_column env c tb =
     (let rows = map (\<lambda>(n, r). r @ [(co_name c, default_value env n (co_default c))]) (enumerate 0 (tb_rows tb)) in
      throw_if (has_column tb (co_name c)) (Fault ''duplicate_column'')
      (throw_if (\<not> list_all (\<lambda>r. fits c (cell r (co_name c))) rows) (ConstraintViolation (co_name c))
        (Inr (tb\<lparr>tb_columns := tb_columns tb @ [c], tb_rows := rows\<rparr>))))"

text \<open>Names of indexes are unique in the schema.\<close>

definition index_names :: "store \<Rightarrow> string list" where
  "index_names s = concat (map (\<lambda>(t, tb). map ix_name (tb_indexes tb)) (st_tables s))"

definition add_index :: "index \<Rightarrow> string \<Rightarrow> store \<Rightarrow> store res" where
  "add_index ix t s =
     throw_if (ix_name ix \<in> set (index_names s)) (Fault ''duplicate_table'')
      (with_table s t (\<lambda>tb.
         throw_if (\<not> (list_all (has_column tb) (ix_columns ix) \<and> list_all (\<lambda>(c, v). has_column tb c) (ix_where ix)))
           (Fault ''undefined_column'')
         (throw_if (\<not> index_ok ix (tb_rows tb)) (ConstraintViolation (ix_name ix))
           (Inr (tb\<lparr>tb_indexes := tb_indexes tb @ [ix]\<rparr>)))))"

definition add_foreign :: "foreign \<Rightarrow> string \<Rightarrow> store \<Rightarrow> store res" where
  "add_foreign fk t s =
     with_table s t (\<lambda>tb.
       throw_if (\<not> has_column tb (fk_column fk)) (Fault ''undefined_column'')
       (throw_if (\<not> has_table s (fk_table fk)) (Fault ''undefined_table'')
       (throw_if (\<not> link_ok s fk (tb_rows tb)) (ConstraintViolation (fk_name fk))
         (Inr (tb\<lparr>tb_foreign := tb_foreign tb @ [fk]\<rparr>)))))"

definition default_name :: "string \<Rightarrow> string \<Rightarrow> string \<Rightarrow> string" where
  "default_name t c suffix = t @ ''_'' @ c @ ''_'' @ suffix"

fun add_modifier :: "string \<Rightarrow> string \<Rightarrow> modifier \<Rightarrow> store \<Rightarrow> store res" where
  "add_modifier t c Primary s =
     add_index \<lparr> ix_name = t @ ''_pkey'', ix_kind = Primary_Key, ix_columns = [c], ix_where = [] \<rparr> t s"
| "add_modifier t c Unique_Column s =
     add_index \<lparr> ix_name = default_name t c ''unique'', ix_kind = Unique_Constraint, ix_columns = [c], ix_where = [] \<rparr> t s"
| "add_modifier t c Index_Column s =
     add_index \<lparr> ix_name = default_name t c ''index'', ix_kind = Plain_Index, ix_columns = [c], ix_where = [] \<rparr> t s"
| "add_modifier t c (References target del) s =
     add_foreign \<lparr> fk_name = default_name t c ''foreign'', fk_column = c, fk_table = target, fk_on_delete = del \<rparr> t s"
| "add_modifier t c _ s = Inr s"

text \<open>
  \<open>DROP COLUMN\<close> takes the indexes, foreign keys and checks of the table along that use the column; a column
  that other tables refer to stays.
\<close>

definition drop_column :: "string \<Rightarrow> pg_table \<Rightarrow> pg_table res" where
  "drop_column c tb =
     throw_if (\<not> has_column tb c) (Fault ''undefined_column'')
      (Inr (tb\<lparr>tb_columns := filter (\<lambda>k. co_name k \<noteq> c) (tb_columns tb),
          tb_indexes := filter (\<lambda>ix. c \<notin> index_uses ix) (tb_indexes tb),
          tb_foreign := filter (\<lambda>fk. fk_column fk \<noteq> c) (tb_foreign tb),
          tb_checks := filter (\<lambda>ck. c \<notin> {ck_if ck, ck_then ck}) (tb_checks tb),
          tb_rows := map (filter (\<lambda>(n, v). n \<noteq> c)) (tb_rows tb)\<rparr>))"

definition alter_not_null :: "string \<Rightarrow> pg_table \<Rightarrow> pg_table res" where
  "alter_not_null c tb =
     throw_if (\<not> has_column tb c) (Fault ''undefined_column'')
      (throw_if (\<not> list_all (\<lambda>r. cell r c \<noteq> Pg_Null) (tb_rows tb)) (ConstraintViolation c)
        (Inr (tb\<lparr>tb_columns := map (\<lambda>k. if co_name k = c then k\<lparr>co_not_null := True\<rparr> else k) (tb_columns tb)\<rparr>)))"

definition drop_index :: "(index_kind \<Rightarrow> bool) \<Rightarrow> string \<Rightarrow> pg_table \<Rightarrow> pg_table res" where
  "drop_index kind name tb =
     throw_if (\<not> list_ex (\<lambda>ix. ix_name ix = name \<and> kind (ix_kind ix)) (tb_indexes tb)) (Fault ''undefined_object'')
      (Inr (tb\<lparr>tb_indexes := filter (\<lambda>ix. ix_name ix \<noteq> name) (tb_indexes tb)\<rparr>))"

text \<open>\<open>DROP INDEX\<close> finds the table by the name of the index.\<close>

definition plain_kind :: "index_kind \<Rightarrow> bool" where
  "plain_kind k \<longleftrightarrow> k = Plain_Index \<or> k = Unique_Index"

definition drop_named_index :: "string \<Rightarrow> store \<Rightarrow> store res" where
  "drop_named_index name s =
     bind_res (from_option (Fault ''undefined_object'')
       (List.find (\<lambda>(t, tb). list_ex (\<lambda>ix. ix_name ix = name) (tb_indexes tb)) (st_tables s))) (\<lambda>(t, tb).
     with_table s t (drop_index plain_kind name))"

definition drop_foreign :: "string \<Rightarrow> pg_table \<Rightarrow> pg_table res" where
  "drop_foreign name tb =
     throw_if (\<not> list_ex (\<lambda>fk. fk_name fk = name) (tb_foreign tb)) (Fault ''undefined_object'')
      (Inr (tb\<lparr>tb_foreign := filter (\<lambda>fk. fk_name fk \<noteq> name) (tb_foreign tb)\<rparr>))"

fun run_all :: "('a \<Rightarrow> 's \<Rightarrow> 's res) \<Rightarrow> 'a list \<Rightarrow> 's \<Rightarrow> 's res" where
  "run_all f [] s = Inr s"
| "run_all f (x # xs) s = bind_res (f x s) (run_all f xs)"

fun table_op_step :: "migration_env \<Rightarrow> string \<Rightarrow> table_op \<Rightarrow> store \<Rightarrow> store res" where
  "table_op_step env t (Column c ty ms) s =
     bind_res (with_table s t (add_column env (make_column c ty ms)))
       (run_all (add_modifier t c) ((if ty = Serial then [Primary] else []) @ ms))"
| "table_op_step env t (Alter_Not_Null c) s = with_table s t (alter_not_null c)"
| "table_op_step env t (Drop_Column c) s =
     throw_if (c = ''id'' \<and> self_referenced s t) (Fault ''dependent_objects_still_exist'') (with_table s t (drop_column c))"
| "table_op_step env t (Unique cs name) s =
     add_index \<lparr> ix_name = name, ix_kind = Unique_Constraint, ix_columns = cs, ix_where = [] \<rparr> t s"
| "table_op_step env t (Drop_Unique name) s = with_table s t (drop_index (\<lambda>k. k = Unique_Constraint) name)"
| "table_op_step env t (Index cs name) s =
     add_index \<lparr> ix_name = name, ix_kind = Plain_Index, ix_columns = cs, ix_where = [] \<rparr> t s"
| "table_op_step env t (Drop_Index name) s = drop_named_index name s"
| "table_op_step env t (Drop_Foreign c) s = with_table s t (drop_foreign (default_name t c ''foreign''))"

text \<open>Writes of the query builder: all constraints hold afterwards or the statement fails.\<close>

definition write_rows :: "string \<Rightarrow> (pg_table \<Rightarrow> row list) \<Rightarrow> store \<Rightarrow> store res" where
  "write_rows t f s =
     bind_res (from_option (Fault ''undefined_table'') (table_of s t)) (\<lambda>tb.
     let tb' = tb\<lparr>tb_rows := f tb\<rparr>; s' = put_table t tb' s in
     throw_if (\<not> (table_ok tb' \<and> links_ok s')) (ConstraintViolation t) (Inr s'))"

definition set_cell :: "string \<times> pg_value \<Rightarrow> row \<Rightarrow> row" where
  "set_cell x r = map (\<lambda>(n, v). if n = fst x then x else (n, v)) r"

definition touched :: "migration_env \<Rightarrow> pg_table \<Rightarrow> row \<Rightarrow> row" where
  "touched env tb r = (if tb_triggers tb = [] then r else set_cell (''updated_at'', Pg_Time (me_now env)) r)"

definition inserted_row :: "migration_env \<Rightarrow> pg_table \<Rightarrow> row \<Rightarrow> row" where
  "inserted_row env tb vals =
     map (\<lambda>c. (co_name c, case map_of vals (co_name c) of
       Some v \<Rightarrow> v | None \<Rightarrow> default_value env (length (tb_rows tb)) (co_default c))) (tb_columns tb)"

fun write_step :: "migration_env \<Rightarrow> pg_write \<Rightarrow> store \<Rightarrow> store res" where
  "write_step env (Insert t vals) s = write_rows t (\<lambda>tb. tb_rows tb @ [inserted_row env tb vals]) s"
| "write_step env (Update t P vals) s =
     write_rows t (\<lambda>tb. map (\<lambda>r. if P r then touched env tb (fold set_cell vals r) else r) (tb_rows tb)) s"
| "write_step env (Delete t P) s = write_rows t (\<lambda>tb. filter (\<lambda>r. \<not> P r) (tb_rows tb)) s"

fun statement_step :: "migration_env \<Rightarrow> statement \<Rightarrow> store \<Rightarrow> store res" where
  "statement_step env (Create_Table t ops) s =
     throw_if (has_table s t) (Fault ''duplicate_table'')
       (run_all (table_op_step env t) ops (s\<lparr>st_tables := st_tables s @ [(t, new_table)]\<rparr>))"
| "statement_step env (Alter_Table t ops) s = run_all (table_op_step env t) ops s"
| "statement_step env (Drop_Table t) s =
     throw_if (\<not> has_table s t) (Fault ''undefined_table'')
      (throw_if (referenced s t) (Fault ''dependent_objects_still_exist'')
        (Inr (s\<lparr>st_tables := filter (\<lambda>(n, tb). n \<noteq> t) (st_tables s)\<rparr>)))"
| "statement_step env (Drop_Named_Index name) s = drop_named_index name s"
| "statement_step env (Create_Unique_Index name t cs cond) s =
     add_index \<lparr> ix_name = name, ix_kind = Unique_Index, ix_columns = cs, ix_where = cond \<rparr> t s"
| "statement_step env (Add_Check name t a b) s =
     with_table s t (\<lambda>tb.
       throw_if (\<not> (has_column tb a \<and> has_column tb b)) (Fault ''undefined_column'')
       (throw_if (\<not> check_ok \<lparr> ck_name = name, ck_if = a, ck_then = b \<rparr> (tb_rows tb)) (ConstraintViolation name)
         (Inr (tb\<lparr>tb_checks := tb_checks tb @ [\<lparr> ck_name = name, ck_if = a, ck_then = b \<rparr>]\<rparr>))))"
| "statement_step env (Drop_Check name t) s =
     with_table s t (\<lambda>tb.
       throw_if (\<not> list_ex (\<lambda>ck. ck_name ck = name) (tb_checks tb)) (Fault ''undefined_object'')
         (Inr (tb\<lparr>tb_checks := filter (\<lambda>ck. ck_name ck \<noteq> name) (tb_checks tb)\<rparr>)))"
| "statement_step env (Create_Function f) s =
     Inr (s\<lparr>st_functions := (if f \<in> set (st_functions s) then st_functions s else st_functions s @ [f])\<rparr>)"
| "statement_step env (Create_Trigger name t f) s =
     throw_if (f \<notin> set (st_functions s)) (Fault ''undefined_function'')
      (with_table s t (\<lambda>tb. Inr (tb\<lparr>tb_triggers := tb_triggers tb @ [name]\<rparr>)))"
| "statement_step env (Defer f) s = bind_res (f s) (\<lambda>ws. run_all (write_step env) ws s)"

text \<open>
  A migration builds its statements from what it reads first, and a transaction runs them. The migrator
  runs migrations one after the other and stops at the first that fails, which leaves what it found.
\<close>

record migration =
  mg_name :: string
  mg_up :: "migration_env \<Rightarrow> store \<Rightarrow> statement list res"
  mg_down :: "migration_env \<Rightarrow> store \<Rightarrow> statement list res"

definition run_migration ::
  "migration_env \<Rightarrow> (migration_env \<Rightarrow> store \<Rightarrow> statement list res) \<Rightarrow> store \<Rightarrow> store res" where
  "run_migration env m s = bind_res (m env s) (\<lambda>sts. run_all (statement_step env) sts s)"

fun migrate ::
  "migration_env \<Rightarrow> (migration_env \<Rightarrow> store \<Rightarrow> statement list res) list \<Rightarrow> store \<Rightarrow> store \<times> exn option" where
  "migrate env [] s = (s, None)"
| "migrate env (m # ms) s =
     (case run_migration env m s of Inl e \<Rightarrow> (s, Some e) | Inr s' \<Rightarrow> migrate env ms s')"

end
