(* ===== verification/Migration_Types.thy ===== *)
theory Migration_Types
  imports Migration_Store
begin

text \<open>
  Every statement of a migration keeps what PostgreSQL guarantees: rows of the declared types, unique
  indexes, checks and foreign keys.
\<close>

section \<open>Runs\<close>

locale keeps =
  fixes step :: "'a \<Rightarrow> 's \<Rightarrow> 's res"
    and inv :: "'s \<Rightarrow> bool"
  assumes step_keeps: "inv s \<Longrightarrow> step x s = Inr s' \<Longrightarrow> inv s'"
begin

lemma run_keeps: "inv s \<Longrightarrow> run_all step xs s = Inr s' \<Longrightarrow> inv s'"
  by (induction xs arbitrary: s) (auto simp: res_simps dest: step_keeps)

end

section \<open>Cells\<close>

lemma row_ok_names: "row_ok cs r \<Longrightarrow> map fst r = map co_name cs"
  unfolding row_ok_def by (induction rule: list_all2_induct) auto

lemma row_ok_dom: "row_ok cs r \<Longrightarrow> fst ` set r = co_name ` set cs"
  using row_ok_names by (metis list.set_map)

lemma row_ok_cell:
  assumes "row_ok cs r" "distinct (map co_name cs)" "x \<in> set r"
  shows "cell r (fst x) = snd x"
proof -
  have "distinct (map fst r)" using row_ok_names [OF assms(1)] assms(2) by simp
  then have "map_of r (fst x) = Some (snd x)" using assms(3) by (simp add: map_of_is_SomeI)
  then show ?thesis by (simp add: cell_def)
qed

lemma cell_outside: "c \<notin> fst ` set r \<Longrightarrow> cell r c = Pg_Null"
  using map_of_eq_None_iff [of r c] by (simp add: cell_def)

lemma cell_append: "cell (r @ [(c, v)]) k = (if k = c \<and> k \<notin> fst ` set r then v else cell r k)"
proof (cases "map_of r k")
  case None
  then have "k \<notin> fst ` set r" by (simp add: map_of_eq_None_iff)
  then show ?thesis using None by (simp add: cell_def map_add_def)
next
  case (Some w)
  then have "k \<in> fst ` set r" by (force dest: map_of_SomeD)
  then show ?thesis using Some by (simp add: cell_def map_add_def)
qed

lemma cell_filter: "k \<noteq> c \<Longrightarrow> cell (filter (\<lambda>(n, v). n \<noteq> c) r) k = cell r k"
  unfolding cell_def by (induction r) auto

lemma row_ok_append: "row_ok cs r \<Longrightarrow> fits c v \<Longrightarrow> row_ok (cs @ [c]) (r @ [(co_name c, v)])"
  by (simp add: row_ok_def list_all2_appendI)

lemma row_ok_filter:
  "row_ok cs r \<Longrightarrow> row_ok (filter (\<lambda>k. co_name k \<noteq> c) cs) (filter (\<lambda>(n, v). n \<noteq> c) r)"
  unfolding row_ok_def by (induction rule: list_all2_induct) auto

lemma row_ok_alter:
  assumes "row_ok cs r" "distinct (map co_name cs)" "cell r c \<noteq> Pg_Null"
  shows "row_ok (map (\<lambda>k. if co_name k = c then k\<lparr>co_not_null := True\<rparr> else k) cs) r"
proof -
  have "fst x = co_name (if co_name k = c then k\<lparr>co_not_null := True\<rparr> else k) \<and>
      fits (if co_name k = c then k\<lparr>co_not_null := True\<rparr> else k) (snd x)"
    if "x \<in> set r" "fst x = co_name k \<and> fits k (snd x)" for k x
    using that row_ok_cell [OF assms(1,2) that(1)] assms(3) by (auto simp: fits_def split: if_splits)
  then show ?thesis
    using assms(1) unfolding row_ok_def list_all2_map1 by (auto intro: list_all2_mono [rotated] elim: list_all2_mono simp: list_all2_conv_all_nth)
qed

text \<open>Rows that agree on some columns.\<close>

definition agree :: "string set \<Rightarrow> row \<Rightarrow> row \<Rightarrow> bool" where
  "agree X r r' \<longleftrightarrow> (\<forall>c\<in>X. cell r' c = cell r c)"

lemma index_ok_agree:
  assumes "list_all2 (agree X) rows rows'" "index_uses ix \<subseteq> X"
  shows "index_ok ix rows' = index_ok ix rows"
proof -
  have "map (\<lambda>r. map (cell r) (ix_columns ix)) (filter (row_matches (ix_where ix)) rows') =
      map (\<lambda>r. map (cell r) (ix_columns ix)) (filter (row_matches (ix_where ix)) rows)"
    using assms(1)
  proof (induction rule: list_all2_induct)
    case (Cons r rows r' rows')
    then have "cell r' c = cell r c" if "c \<in> index_uses ix" for c using assms(2) that by (auto simp: agree_def)
    then have "row_matches (ix_where ix) r' = row_matches (ix_where ix) r"
      "map (cell r') (ix_columns ix) = map (cell r) (ix_columns ix)"
      by (force simp: row_matches_def list_all_iff index_uses_def)+
    then show ?case using Cons by simp
  qed simp
  then show ?thesis by (simp add: index_ok_def)
qed

lemma check_ok_agree:
  assumes "list_all2 (agree X) rows rows'" "{ck_if ck, ck_then ck} \<subseteq> X"
  shows "check_ok ck rows' = check_ok ck rows"
  using assms by (induction rule: list_all2_induct) (auto simp: check_ok_def agree_def)

lemma link_ok_agree:
  assumes "list_all2 (agree X) rows rows'" "fk_column fk \<in> X"
  shows "link_ok s fk rows' = link_ok s fk rows"
  using assms by (induction rule: list_all2_induct) (auto simp: link_ok_def agree_def split: option.splits)

section \<open>One table changes\<close>

lemma put_table_simps [simp]:
  "map fst (st_tables (put_table t tb s)) = map fst (st_tables s)"
  "st_functions (put_table t tb s) = st_functions s"
  "table_of (put_table t tb s) u = (if u = t \<and> table_of s t \<noteq> None then Some tb else table_of s u)"
proof -
  show "map fst (st_tables (put_table t tb s)) = map fst (st_tables s)"
    by (simp add: put_table_def comp_def split_beta if_distrib cong: if_cong)
  show "st_functions (put_table t tb s) = st_functions s" by (simp add: put_table_def)
  have "map_of (map (\<lambda>(n, x). if n = t then (n, tb) else (n, x)) ts) u =
      (if u = t \<and> map_of ts t \<noteq> None then Some tb else map_of ts u)" for ts :: "(string \<times> pg_table) list"
    by (induction ts) auto
  then show "table_of (put_table t tb s) u = (if u = t \<and> table_of s t \<noteq> None then Some tb else table_of s u)"
    by (simp add: put_table_def table_of_def)
qed

lemma table_of_mem: "table_of s t = Some tb \<Longrightarrow> (t, tb) \<in> set (st_tables s)"
  by (simp add: table_of_def map_of_SomeD)

lemma store_ok_table: "store_ok s \<Longrightarrow> table_of s t = Some tb \<Longrightarrow> table_ok tb"
  by (auto simp: store_ok_def list_all_iff dest: table_of_mem)

lemma store_ok_link:
  "store_ok s \<Longrightarrow> table_of s t = Some tb \<Longrightarrow> fk \<in> set (tb_foreign tb) \<Longrightarrow> link_ok s fk (tb_rows tb)"
  by (fastforce simp: store_ok_def links_ok_def list_all_iff dest: table_of_mem)

lemma mem_put_table:
  "x \<in> set (st_tables (put_table t tb s)) \<Longrightarrow> x = (t, tb) \<or> (x \<in> set (st_tables s) \<and> fst x \<noteq> t)"
  by (auto simp: put_table_def split: if_splits)

text \<open>Identifiers that were there stay.\<close>

definition keeps_ids :: "row list \<Rightarrow> row list \<Rightarrow> bool" where
  "keeps_ids rows rows' \<longleftrightarrow>
     (\<forall>v. v \<noteq> Pg_Null \<longrightarrow> v \<in> (\<lambda>r. cell r ''id'') ` set rows \<longrightarrow> v \<in> (\<lambda>r. cell r ''id'') ` set rows')"

lemma keeps_ids_agree:
  assumes "list_all2 (agree X) rows rows'" "''id'' \<in> X \<or> (\<forall>r\<in>set rows. cell r ''id'' = Pg_Null)"
  shows "keeps_ids rows rows'"
  unfolding keeps_ids_def
proof (intro allI impI)
  fix v assume v: "v \<noteq> Pg_Null" "v \<in> (\<lambda>r. cell r ''id'') ` set rows"
  then obtain i where i: "i < length rows" "v = cell (rows ! i) ''id''" by (auto simp: in_set_conv_nth)
  have "''id'' \<in> X" using assms(2) v by auto
  then have "cell (rows' ! i) ''id'' = v" "i < length rows'"
    using assms(1) i by (auto simp: list_all2_conv_all_nth agree_def)
  then show "v \<in> (\<lambda>r. cell r ''id'') ` set rows'" by force
qed

lemma link_ok_put:
  assumes "link_ok s fk rows" "table_of s t = Some tb" "fk_table fk = t \<Longrightarrow> keeps_ids (tb_rows tb) (tb_rows tb')"
  shows "link_ok (put_table t tb' s) fk rows"
proof (cases "fk_table fk = t")
  case True
  have "cell r (fk_column fk) = Pg_Null \<or> (\<exists>r'\<in>set (tb_rows tb'). cell r' ''id'' = cell r (fk_column fk))"
    if r: "r \<in> set rows" for r
  proof (cases "cell r (fk_column fk) = Pg_Null")
    case False
    then obtain r' where "r' \<in> set (tb_rows tb)" "cell r' ''id'' = cell r (fk_column fk)"
      using assms(1,2) True r by (auto simp: link_ok_def list_all_iff list_ex_iff)
    then have "cell r (fk_column fk) \<in> (\<lambda>r. cell r ''id'') ` set (tb_rows tb)" by force
    then have "cell r (fk_column fk) \<in> (\<lambda>r. cell r ''id'') ` set (tb_rows tb')"
      using assms(3) [OF True] False by (simp add: keeps_ids_def)
    then show ?thesis by force
  qed simp
  then show ?thesis using True assms(2) by (simp add: link_ok_def list_all_iff list_ex_iff)
qed (use assms(1) in \<open>simp add: link_ok_def\<close>)

lemma put_table_ok:
  assumes ok: "store_ok s" "table_of s t = Some tb" and tb': "table_ok tb'"
    and own: "\<And>fk. fk \<in> set (tb_foreign tb') \<Longrightarrow> link_ok s fk (tb_rows tb')"
    and ids: "self_referenced s t \<or> (\<exists>fk\<in>set (tb_foreign tb'). fk_table fk = t) \<Longrightarrow> keeps_ids (tb_rows tb) (tb_rows tb')"
  shows "store_ok (put_table t tb' s)"
proof -
  let ?s = "put_table t tb' s"
  have "link_ok ?s fk (tb_rows x)" if x: "(n, x) \<in> set (st_tables ?s)" and fk: "fk \<in> set (tb_foreign x)" for n x fk
  proof (cases "n = t \<and> x = tb'")
    case True
    then show ?thesis using link_ok_put [OF own ok(2)] ids fk by blast
  next
    case False
    then have m: "(n, x) \<in> set (st_tables s)" using mem_put_table [OF x] by auto
    then have "link_ok s fk (tb_rows x)" using ok(1) fk by (fastforce simp: store_ok_def links_ok_def list_all_iff)
    moreover have "self_referenced s t" if "fk_table fk = t" using m fk that by (fastforce simp: self_referenced_def list_ex_iff)
    ultimately show ?thesis using link_ok_put [OF _ ok(2)] ids by blast
  qed
  then have "links_ok ?s" by (auto simp: links_ok_def list_all_iff)
  moreover have "list_all (\<lambda>(n, x). table_ok x) (st_tables ?s)"
    using ok(1) tb' by (auto simp: store_ok_def list_all_iff put_table_def split: if_splits)
  ultimately show ?thesis using ok(1) by (simp add: store_ok_def)
qed

lemma with_table_Inr [res_simps]:
  "with_table s t f = Inr s' \<longleftrightarrow> (\<exists>tb tb'. table_of s t = Some tb \<and> f tb = Inr tb' \<and> s' = put_table t tb' s)"
  by (auto simp: with_table_def res_simps)

text \<open>Changes that leave the rows, or the cells of the columns that stay.\<close>

lemma agree_put_ok:
  assumes "store_ok s" "table_of s t = Some tb" "table_ok tb'" "set (tb_foreign tb') \<subseteq> set (tb_foreign tb)"
    and "list_all2 (agree X) (tb_rows tb) (tb_rows tb')" "fk_column ` set (tb_foreign tb') \<subseteq> X"
    and "self_referenced s t \<Longrightarrow> ''id'' \<in> X \<or> (\<forall>r\<in>set (tb_rows tb). cell r ''id'' = Pg_Null)"
  shows "store_ok (put_table t tb' s)"
proof (rule put_table_ok [OF assms(1-3)])
  fix fk assume fk: "fk \<in> set (tb_foreign tb')"
  then have "link_ok s fk (tb_rows tb)" using store_ok_link [OF assms(1,2)] assms(4) by blast
  then show "link_ok s fk (tb_rows tb')" using link_ok_agree [OF assms(5)] assms(6) fk by blast
next
  assume "self_referenced s t \<or> (\<exists>fk\<in>set (tb_foreign tb'). fk_table fk = t)"
  then have "self_referenced s t"
    using assms(4) table_of_mem [OF assms(2)] by (fastforce simp: self_referenced_def list_ex_iff)
  then show "keeps_ids (tb_rows tb) (tb_rows tb')" using keeps_ids_agree [OF assms(5)] assms(7) by blast
qed

lemma same_rows_ok:
  assumes "store_ok s" "table_of s t = Some tb" "table_ok tb'" "set (tb_foreign tb') \<subseteq> set (tb_foreign tb)"
    and "tb_rows tb' = tb_rows tb"
  shows "store_ok (put_table t tb' s)"
proof (rule agree_put_ok [OF assms(1-4), where X = UNIV])
  show "list_all2 (agree UNIV) (tb_rows tb) (tb_rows tb')" by (simp add: assms(5) list_all2_same agree_def)
qed auto

section \<open>Every statement\<close>

lemma add_index_ok:
  assumes "add_index ix t s = Inr s'" "store_ok s"
  shows "store_ok s'"
proof -
  obtain tb where tb: "table_of s t = Some tb" "index_ok ix (tb_rows tb)" "s' = put_table t (tb\<lparr>tb_indexes := tb_indexes tb @ [ix]\<rparr>) s"
    and c: "list_all (has_column tb) (ix_columns ix)" "list_all (\<lambda>(c, v). has_column tb c) (ix_where ix)"
    using assms(1) by (auto simp: add_index_def res_simps)
  have "index_uses ix \<subseteq> set (map co_name (tb_columns tb))"
    using c by (auto simp: index_uses_def list_all_iff has_column_def)
  then have "table_ok (tb\<lparr>tb_indexes := tb_indexes tb @ [ix]\<rparr>)"
    using store_ok_table [OF assms(2) tb(1)] tb(2) by (simp add: table_ok_def)
  then show ?thesis unfolding tb(3) by (rule same_rows_ok [OF assms(2) tb(1)]) simp_all
qed

lemma add_foreign_ok:
  assumes "add_foreign fk t s = Inr s'" "store_ok s"
  shows "store_ok s'"
proof -
  obtain tb where tb: "table_of s t = Some tb" "link_ok s fk (tb_rows tb)" "has_column tb (fk_column fk)"
      "s' = put_table t (tb\<lparr>tb_foreign := tb_foreign tb @ [fk]\<rparr>) s"
    using assms(1) by (auto simp: add_foreign_def res_simps)
  show ?thesis unfolding tb(4)
  proof (rule put_table_ok [OF assms(2) tb(1)])
    show "table_ok (tb\<lparr>tb_foreign := tb_foreign tb @ [fk]\<rparr>)"
      using store_ok_table [OF assms(2) tb(1)] tb(3) by (simp add: table_ok_def has_column_def)
  qed (use tb(2) store_ok_link [OF assms(2) tb(1)] in \<open>auto simp: keeps_ids_def\<close>)
qed

lemma add_modifier_ok: "add_modifier t c m s = Inr s' \<Longrightarrow> store_ok s \<Longrightarrow> store_ok s'"
  by (cases m) (auto intro: add_index_ok add_foreign_ok)

interpretation modifiers: keeps "add_modifier t c" store_ok
  by unfold_locales (rule add_modifier_ok)

lemma add_column_ok:
  assumes "with_table s t (add_column env c) = Inr s'" "store_ok s"
  shows "store_ok s'"
proof -
  obtain tb rows where tb: "table_of s t = Some tb"
      "rows = map (\<lambda>(n, r). r @ [(co_name c, default_value env n (co_default c))]) (enumerate 0 (tb_rows tb))"
      "\<not> has_column tb (co_name c)" "list_all (\<lambda>r. fits c (cell r (co_name c))) rows"
    and s': "s' = put_table t (tb\<lparr>tb_columns := tb_columns tb @ [c], tb_rows := rows\<rparr>) s"
    using assms(1) by (auto simp: add_column_def res_simps Let_def)
  let ?tb = "tb\<lparr>tb_columns := tb_columns tb @ [c], tb_rows := rows\<rparr>" and ?X = "set (map co_name (tb_columns tb))"
  have ok: "table_ok tb" by (rule store_ok_table [OF assms(2) tb(1)])
  have new: "co_name c \<notin> ?X" using tb(3) by (simp add: has_column_def)
  have len: "length rows = length (tb_rows tb)" by (simp add: tb(2))
  have nth: "\<exists>v. rows ! i = tb_rows tb ! i @ [(co_name c, v)]" if "i < length (tb_rows tb)" for i
    using that by (simp add: tb(2) nth_enumerate_eq)
  have dom: "fst ` set (tb_rows tb ! i) = ?X" if "i < length (tb_rows tb)" for i
    using ok that row_ok_dom [of "tb_columns tb" "tb_rows tb ! i"] by (simp add: table_ok_def list_all_length)
  have a: "list_all2 (agree ?X) (tb_rows tb) rows"
    unfolding list_all2_conv_all_nth agree_def
  proof (intro conjI allI impI ballI)
    fix i k assume i: "i < length (tb_rows tb)" "k \<in> ?X"
    obtain v where "rows ! i = tb_rows tb ! i @ [(co_name c, v)]" using nth [OF i(1)] by blast
    moreover have "k \<noteq> co_name c" using i(2) new by blast
    ultimately show "cell (rows ! i) k = cell (tb_rows tb ! i) k" by (simp add: cell_append)
  qed (simp add: len)
  have r: "row_ok (tb_columns tb @ [c]) (rows ! i)" if "i < length rows" for i
  proof -
    have i: "i < length (tb_rows tb)" using that len by simp
    obtain v where v: "rows ! i = tb_rows tb ! i @ [(co_name c, v)]" using nth [OF i] by blast
    have "fits c (cell (rows ! i) (co_name c))" using tb(4) that by (simp add: list_all_length)
    moreover have "cell (rows ! i) (co_name c) = v" using new dom [OF i] by (simp add: v cell_append)
    moreover have "row_ok (tb_columns tb) (tb_rows tb ! i)" using ok i by (simp add: table_ok_def list_all_length)
    ultimately show ?thesis by (simp add: v row_ok_append)
  qed
  have "table_ok ?tb"
    using ok new r index_ok_agree [OF a] check_ok_agree [OF a]
    by (auto simp: table_ok_def list_all_iff in_set_conv_nth [of _ rows])
  then show ?thesis unfolding s'
  proof (rule agree_put_ok [OF assms(2) tb(1), where X = ?X])
    show "list_all2 (agree ?X) (tb_rows tb) (tb_rows ?tb)" using a by simp
    show "fk_column ` set (tb_foreign ?tb) \<subseteq> ?X" using ok by (auto simp: table_ok_def list_all_iff)
    show "''id'' \<in> ?X \<or> (\<forall>r\<in>set (tb_rows tb). cell r ''id'' = Pg_Null)"
      using dom cell_outside by (metis in_set_conv_nth)
  qed simp
qed

lemma drop_column_ok:
  assumes "with_table s t (drop_column c) = Inr s'" "store_ok s" "c = ''id'' \<Longrightarrow> \<not> self_referenced s t"
  shows "store_ok s'"
proof -
  obtain tb where tb: "table_of s t = Some tb" and s': "s' = put_table t (tb\<lparr>tb_columns := filter (\<lambda>k. co_name k \<noteq> c) (tb_columns tb),
          tb_indexes := filter (\<lambda>ix. c \<notin> index_uses ix) (tb_indexes tb),
          tb_foreign := filter (\<lambda>fk. fk_column fk \<noteq> c) (tb_foreign tb),
          tb_checks := filter (\<lambda>ck. c \<notin> {ck_if ck, ck_then ck}) (tb_checks tb),
          tb_rows := map (filter (\<lambda>(n, v). n \<noteq> c)) (tb_rows tb)\<rparr>) s" (is "s' = put_table t ?tb s")
    using assms(1) by (auto simp: drop_column_def res_simps)
  let ?X = "set (map co_name (tb_columns ?tb))"
  have ok: "table_ok tb" by (rule store_ok_table [OF assms(2) tb])
  have a: "list_all2 (agree (- {c})) (tb_rows tb) (tb_rows ?tb)"
    by (auto simp: list_all2_map2 list_all2_same agree_def cell_filter)
  have d: "distinct (map co_name (filter (\<lambda>k. co_name k \<noteq> c) (tb_columns tb)))"
    using ok by (simp add: table_ok_def distinct_map_filter)
  have n: "co_name ` set (tb_columns ?tb) = co_name ` set (tb_columns tb) - {c}" by auto
  have "table_ok ?tb"
    unfolding table_ok_def set_map n
    using ok d index_ok_agree [OF a] check_ok_agree [OF a]
    by (auto simp: table_ok_def list_all_iff row_ok_filter)
  then show ?thesis unfolding s'
  proof (rule agree_put_ok [OF assms(2) tb, where X = "- {c}"])
    show "list_all2 (agree (- {c})) (tb_rows tb) (tb_rows ?tb)" by (rule a)
  qed (use assms(3) in auto)
qed

lemma alter_not_null_ok:
  assumes "with_table s t (alter_not_null c) = Inr s'" "store_ok s"
  shows "store_ok s'"
proof -
  let ?f = "\<lambda>k. if co_name k = c then k\<lparr>co_not_null := True\<rparr> else k"
  obtain tb where tb: "table_of s t = Some tb" "list_all (\<lambda>r. cell r c \<noteq> Pg_Null) (tb_rows tb)"
    and s': "s' = put_table t (tb\<lparr>tb_columns := map ?f (tb_columns tb)\<rparr>) s"
    using assms(1) by (auto simp: alter_not_null_def res_simps)
  have n: "co_name \<circ> ?f = co_name" "(\<lambda>k. co_name (?f k)) = co_name" by auto
  have "table_ok (tb\<lparr>tb_columns := map ?f (tb_columns tb)\<rparr>)"
    using store_ok_table [OF assms(2) tb(1)] tb(2)
    by (simp add: table_ok_def n list_all_iff row_ok_alter)
  then show ?thesis unfolding s' by (rule same_rows_ok [OF assms(2) tb(1)]) simp_all
qed

lemma drop_index_ok:
  assumes "with_table s t (drop_index kind name) = Inr s'" "store_ok s"
  shows "store_ok s'"
proof -
  obtain tb where tb: "table_of s t = Some tb"
    "s' = put_table t (tb\<lparr>tb_indexes := filter (\<lambda>ix. ix_name ix \<noteq> name) (tb_indexes tb)\<rparr>) s"
    using assms(1) by (auto simp: drop_index_def res_simps)
  have "table_ok (tb\<lparr>tb_indexes := filter (\<lambda>ix. ix_name ix \<noteq> name) (tb_indexes tb)\<rparr>)"
    using store_ok_table [OF assms(2) tb(1)] by (auto simp: table_ok_def list_all_iff)
  then show ?thesis unfolding tb(2) by (rule same_rows_ok [OF assms(2) tb(1)]) simp_all
qed

lemma drop_foreign_ok:
  assumes "with_table s t (drop_foreign name) = Inr s'" "store_ok s"
  shows "store_ok s'"
proof -
  obtain tb where tb: "table_of s t = Some tb"
    "s' = put_table t (tb\<lparr>tb_foreign := filter (\<lambda>fk. fk_name fk \<noteq> name) (tb_foreign tb)\<rparr>) s"
    using assms(1) by (auto simp: drop_foreign_def res_simps)
  have "table_ok (tb\<lparr>tb_foreign := filter (\<lambda>fk. fk_name fk \<noteq> name) (tb_foreign tb)\<rparr>)"
    using store_ok_table [OF assms(2) tb(1)] by (auto simp: table_ok_def list_all_iff)
  then show ?thesis unfolding tb(2) by (rule same_rows_ok [OF assms(2) tb(1)]) auto
qed

lemma drop_named_index_ok: "drop_named_index name s = Inr s' \<Longrightarrow> store_ok s \<Longrightarrow> store_ok s'"
  by (auto simp: drop_named_index_def res_simps intro: drop_index_ok split: prod.splits simp del: with_table_Inr)


lemma table_op_ok: "table_op_step env t x s = Inr s' \<Longrightarrow> store_ok s \<Longrightarrow> store_ok s'"
  by (cases x) (auto simp: throw_if_Inr bind_res_Inr simp del: with_table_Inr
      intro: modifiers.run_keeps [OF add_column_ok] add_index_ok drop_column_ok alter_not_null_ok drop_index_ok drop_foreign_ok drop_named_index_ok)

interpretation table_ops: keeps "table_op_step env t" store_ok
  by unfold_locales (rule table_op_ok)

lemma write_rows_ok: "write_rows t f s = Inr s' \<Longrightarrow> store_ok s \<Longrightarrow> store_ok s'"
proof -
  assume a: "write_rows t f s = Inr s'" "store_ok s"
  then obtain tb where "table_of s t = Some tb" "table_ok (tb\<lparr>tb_rows := f tb\<rparr>)" "links_ok s'"
    "s' = put_table t (tb\<lparr>tb_rows := f tb\<rparr>) s"
    by (auto simp: write_rows_def res_simps Let_def)
  then show "store_ok s'" using a(2) by (auto simp: store_ok_def list_all_iff dest!: mem_put_table)
qed

lemma write_ok: "write_step env x s = Inr s' \<Longrightarrow> store_ok s \<Longrightarrow> store_ok s'"
  by (cases x) (auto intro: write_rows_ok)

interpretation writes: keeps "write_step env" store_ok
  by unfold_locales (rule write_ok)

lemma link_ok_tables: "table_of s' (fk_table fk) = table_of s (fk_table fk) \<Longrightarrow> link_ok s' fk rows = link_ok s fk rows"
  by (simp add: link_ok_def)

lemma create_empty_ok:
  assumes "store_ok s" "\<not> has_table s t"
  shows "store_ok (s\<lparr>st_tables := st_tables s @ [(t, new_table)]\<rparr>)"
proof -
  let ?s = "s\<lparr>st_tables := st_tables s @ [(t, new_table)]\<rparr>"
  have "table_of ?s u = table_of s u" if "table_of s u \<noteq> None" for u
    using that by (auto simp: table_of_def map_add_def)
  then have "link_ok ?s fk rows" if "link_ok s fk rows" for fk rows
    using that link_ok_tables [of ?s fk s] by (auto simp: link_ok_def split: option.splits)
  then have "links_ok ?s" using assms(1) by (auto simp: store_ok_def links_ok_def list_all_iff new_table_def)
  moreover have "t \<notin> fst ` set (st_tables s)"
    using assms(2) by (simp add: has_table_def table_of_def map_of_eq_None_iff)
  ultimately show ?thesis using assms(1) by (simp add: store_ok_def table_ok_def new_table_def)
qed

lemma drop_table_ok:
  assumes "store_ok s" "\<not> referenced s t"
  shows "store_ok (s\<lparr>st_tables := filter (\<lambda>(n, tb). n \<noteq> t) (st_tables s)\<rparr>)"
proof -
  let ?s = "s\<lparr>st_tables := filter (\<lambda>(n, tb). n \<noteq> t) (st_tables s)\<rparr>"
  have m: "map_of (filter (\<lambda>(n, tb). n \<noteq> t) ts) u = map_of ts u" if "u \<noteq> t" for u and ts :: "(string \<times> pg_table) list"
    using that by (induction ts) auto
  have "link_ok ?s fk (tb_rows tb)" if x: "(n, tb) \<in> set (st_tables s)" "n \<noteq> t" "fk \<in> set (tb_foreign tb)" for n tb fk
  proof -
    have "fk_table fk \<noteq> t" using assms(2) x by (force simp: referenced_def list_ex_iff)
    then have "table_of ?s (fk_table fk) = table_of s (fk_table fk)" by (simp add: table_of_def m)
    moreover have "link_ok s fk (tb_rows tb)" using assms(1) x by (fastforce simp: store_ok_def links_ok_def list_all_iff)
    ultimately show ?thesis using link_ok_tables by blast
  qed
  then have "links_ok ?s" by (auto simp: links_ok_def list_all_iff)
  moreover have "distinct (map fst (filter (\<lambda>(n, tb). n \<noteq> t) (st_tables s)))"
    using assms(1) by (simp add: store_ok_def distinct_map_filter)
  ultimately show ?thesis using assms(1) by (auto simp: store_ok_def list_all_iff)
qed

lemma add_check_ok:
  assumes "statement_step env (Add_Check name t a b) s = Inr s'" "store_ok s"
  shows "store_ok s'"
proof -
  let ?ck = "\<lparr> ck_name = name, ck_if = a, ck_then = b \<rparr>"
  obtain tb where tb: "table_of s t = Some tb" "has_column tb a" "has_column tb b" "check_ok ?ck (tb_rows tb)"
    "s' = put_table t (tb\<lparr>tb_checks := tb_checks tb @ [?ck]\<rparr>) s"
    using assms(1) by (auto simp: res_simps)
  have "table_ok (tb\<lparr>tb_checks := tb_checks tb @ [?ck]\<rparr>)"
    using store_ok_table [OF assms(2) tb(1)] tb(2-4) by (simp add: table_ok_def has_column_def)
  then show ?thesis unfolding tb(5) by (rule same_rows_ok [OF assms(2) tb(1)]) simp_all
qed

lemma drop_check_ok:
  assumes "statement_step env (Drop_Check name t) s = Inr s'" "store_ok s"
  shows "store_ok s'"
proof -
  obtain tb where tb: "table_of s t = Some tb"
    "s' = put_table t (tb\<lparr>tb_checks := filter (\<lambda>ck. ck_name ck \<noteq> name) (tb_checks tb)\<rparr>) s"
    using assms(1) by (auto simp: res_simps)
  have "table_ok (tb\<lparr>tb_checks := filter (\<lambda>ck. ck_name ck \<noteq> name) (tb_checks tb)\<rparr>)"
    using store_ok_table [OF assms(2) tb(1)] by (auto simp: table_ok_def list_all_iff)
  then show ?thesis unfolding tb(2) by (rule same_rows_ok [OF assms(2) tb(1)]) simp_all
qed

lemma trigger_ok: "store_ok s \<Longrightarrow> table_of s t = Some tb \<Longrightarrow> store_ok (put_table t (tb\<lparr>tb_triggers := x\<rparr>) s)"
  by (rule same_rows_ok) (use store_ok_table in \<open>auto simp: table_ok_def\<close>)

lemma functions_ok: "store_ok s \<Longrightarrow> store_ok (s\<lparr>st_functions := x\<rparr>)"
  by (simp add: store_ok_def links_ok_def link_ok_def table_of_def)

lemma statement_ok: "statement_step env x s = Inr s' \<Longrightarrow> store_ok s \<Longrightarrow> store_ok s'"
proof (cases x)
  fix f
  assume "statement_step env x s = Inr s'" "store_ok s" "x = Defer f"
  then show "store_ok s'" by (auto simp: bind_res_Inr intro: writes.run_keeps)
qed (auto simp: res_simps simp del: statement_step.simps(6,7)
    intro: table_ops.run_keeps create_empty_ok drop_table_ok add_check_ok drop_check_ok trigger_ok functions_ok
      add_index_ok drop_named_index_ok)

interpretation statements: keeps "statement_step env" store_ok
  by unfold_locales (rule statement_ok)

lemma run_migration_ok: "run_migration env m s = Inr s' \<Longrightarrow> store_ok s \<Longrightarrow> store_ok s'"
  by (auto simp: run_migration_def bind_res_Inr intro: statements.run_keeps)

lemma migrate_ok: "store_ok s \<Longrightarrow> store_ok (fst (migrate env ms s))"
  by (induction env ms s rule: migrate.induct) (auto split: sum.splits intro: run_migration_ok)

lemma empty_store_ok: "store_ok empty_store"
  by (simp add: store_ok_def empty_store_def links_ok_def)

end
