(* ===== verification/Migrations.thy ===== *)
theory Migrations
  imports Migration_Store Provider_Service
begin

text \<open>
  The migrations of \<open>database/migrations\<close> on PostgreSQL, in their order, both ways. What a migration does in
  \<open>defer\<close> and what it reads before it builds its statements is translated too.
\<close>

section \<open>Users, releases and storage\<close>

abbreviation not_null_now :: "modifier list" where
  "not_null_now \<equiv> [Not_Nullable, Default_To Now]"

abbreviation uuid_key :: "modifier list" where
  "uuid_key \<equiv> [Primary, Default_To Random_Uuid]"

abbreviation flag :: "bool \<Rightarrow> modifier list" where
  "flag b \<equiv> [Not_Nullable, Default_To (Value (Pg_Bool b))]"

abbreviation number :: "int \<Rightarrow> modifier list" where
  "number n \<equiv> [Not_Nullable, Default_To (Value (Pg_Int n))]"

abbreviation ref :: "string \<Rightarrow> on_delete \<Rightarrow> modifier list" where
  "ref t del \<equiv> [Not_Nullable, References t del]"

definition create_users_up :: "statement list" where
  "create_users_up =
    [Create_Table ''users''
      [Column ''id'' Uuid uuid_key,
       Column ''email'' (Varchar 255) [Not_Nullable, Unique_Column],
       Column ''password_hash'' (Varchar 255) [Not_Nullable],
       Column ''created_at'' Timestamp not_null_now,
       Column ''updated_at'' Timestamp not_null_now],
     Create_Function ''set_updated_at'',
     Create_Trigger ''trg_users_updated_at'' ''users'' ''set_updated_at'']"

definition create_users_down :: "statement list" where
  "create_users_down =
    [Drop_Table ''users'']"

definition create_versions_up :: "statement list" where
  "create_versions_up =
    [Create_Table ''versions''
      [Column ''id'' Uuid uuid_key,
       Column ''version_number'' (Varchar 50) [Not_Nullable, Unique_Column],
       Column ''codename'' (Varchar 100) [Nullable],
       Column ''major'' Integer [Not_Nullable],
       Column ''minor'' Integer [Not_Nullable],
       Column ''patch'' Integer [Not_Nullable],
       Column ''release_date'' Timestamp [Nullable],
       Column ''changelog'' Text [Nullable],
       Column ''is_active'' Boolean (flag True),
       Column ''created_at'' Timestamp not_null_now],
     Alter_Table ''versions''
      [Index [''major'', ''minor'', ''patch''] ''idx_versions_semver'']]"

definition create_versions_down :: "statement list" where
  "create_versions_down =
    [Drop_Table ''versions'']"

definition create_platforms_up :: "statement list" where
  "create_platforms_up =
    [Create_Table ''platforms''
      [Column ''id'' Uuid uuid_key,
       Column ''name'' (Varchar 50) [Not_Nullable, Unique_Column],
       Column ''display_name'' (Varchar 100) [Not_Nullable],
       Column ''created_at'' Timestamp [],
       Column ''updated_at'' Timestamp []]]"

definition create_platforms_down :: "statement list" where
  "create_platforms_down =
    [Drop_Table ''platforms'']"

definition create_architectures_up :: "statement list" where
  "create_architectures_up =
    [Create_Table ''architectures''
      [Column ''id'' Uuid uuid_key,
       Column ''name'' (Varchar 50) [Not_Nullable, Unique_Column],
       Column ''display_name'' (Varchar 100) [Not_Nullable]]]"

definition create_architectures_down :: "statement list" where
  "create_architectures_down =
    [Drop_Table ''architectures'']"

definition create_storage_providers_up :: "statement list" where
  "create_storage_providers_up =
    [Create_Table ''storage_providers''
      [Column ''id'' Uuid uuid_key,
       Column ''name'' (Varchar 100) [Not_Nullable],
       Column ''type'' (Varchar 50) [Not_Nullable],
       Column ''config'' Jsonb [Not_Nullable],
       Column ''is_default'' Boolean (flag False),
       Column ''created_at'' Timestamp not_null_now],
     Create_Unique_Index ''uq_storage_default'' ''storage_providers'' [''is_default''] [(''is_default'', Pg_Bool True)]]"

definition create_storage_providers_down :: "statement list" where
  "create_storage_providers_down =
    [Drop_Table ''storage_providers'']"

definition create_artifacts_up :: "statement list" where
  "create_artifacts_up =
    [Create_Table ''artifacts''
      [Column ''id'' Uuid uuid_key,
       Column ''version_id'' Uuid (ref ''versions'' Cascade),
       Column ''platform_id'' Uuid (ref ''platforms'' No_Action),
       Column ''architecture_id'' Uuid (ref ''architectures'' No_Action),
       Column ''storage_provider_id'' Uuid (ref ''storage_providers'' No_Action),
       Column ''file_name'' (Varchar 255) [Not_Nullable],
       Column ''mime_type'' (Varchar 100) [Nullable],
       Column ''size_bytes'' Big_Integer [Nullable],
       Column ''checksum'' (Varchar 128) [Nullable],
       Column ''storage_key'' (Varchar 500) [Not_Nullable],
       Column ''download_count'' Integer (number 0),
       Column ''is_archived'' Boolean (flag False),
       Column ''created_at'' Timestamp not_null_now,
       Unique [''version_id'', ''platform_id'', ''architecture_id''] ''uq_artifacts_unique''],
     Alter_Table ''artifacts''
      [Index [''version_id''] ''idx_artifacts_version'',
       Index [''platform_id'', ''architecture_id''] ''idx_artifacts_platform_arch'',
       Index [''storage_provider_id''] ''idx_artifacts_provider'']]"

definition create_artifacts_down :: "statement list" where
  "create_artifacts_down =
    [Drop_Table ''artifacts'']"

definition drop_version_number_up :: "statement list" where
  "drop_version_number_up =
    [Alter_Table ''versions''
      [Drop_Column ''version_number'',
       Unique [''major'', ''minor'', ''patch''] ''unique_m_m_p'']]"

definition drop_version_number_down :: "statement list" where
  "drop_version_number_down =
    [Alter_Table ''versions''
      [Column ''version_number'' (Varchar 50) [Nullable],
       Drop_Unique ''unique_m_m_p'']]"

definition create_settings_up :: "statement list" where
  "create_settings_up =
    [Create_Table ''settings''
      [Column ''id'' (Varchar 255) [Primary],
       Column ''key'' (Varchar 255) [Not_Nullable, Unique_Column],
       Column ''value'' (Varchar 255) [Nullable],
       Column ''created_at'' Timestamp [],
       Column ''updated_at'' Timestamp []]]"

definition create_settings_down :: "statement list" where
  "create_settings_down =
    [Drop_Table ''settings'']"

definition add_publication_up :: "statement list" where
  "add_publication_up =
    [Alter_Table ''artifacts''
      [Column ''channel'' (Varchar 255) [Not_Nullable, Default_To (Value (Pg_Text ''dev''))],
       Column ''is_published'' Boolean (flag False),
       Column ''published_at'' Timestamp [Nullable]]]"

definition add_publication_down :: "statement list" where
  "add_publication_down =
    [Alter_Table ''artifacts''
      [Drop_Column ''channel'',
       Drop_Column ''is_published'',
       Drop_Column ''published_at'']]"

definition add_provider_active_up :: "statement list" where
  "add_provider_active_up =
    [Alter_Table ''storage_providers''
      [Column ''is_active'' Boolean (flag False)]]"

definition add_provider_active_down :: "statement list" where
  "add_provider_active_down =
    [Alter_Table ''storage_providers''
      [Drop_Column ''is_active'']]"

definition add_quota_up :: "statement list" where
  "add_quota_up =
    [Alter_Table ''storage_providers''
      [Column ''quota_bytes'' Big_Integer [Nullable, Default_To (Value (Pg_Int (10 * 1024 * 1024 * 1024)))]]]"

definition add_quota_down :: "statement list" where
  "add_quota_down =
    [Alter_Table ''storage_providers''
      [Drop_Column ''quota_bytes'']]"

definition unique_per_channel_up :: "statement list" where
  "unique_per_channel_up =
    [Alter_Table ''artifacts''
      [Drop_Unique ''uq_artifacts_unique'',
       Unique [''version_id'', ''platform_id'', ''architecture_id'', ''channel''] ''uq_artifacts_system_channel'']]"

definition unique_per_channel_down :: "statement list" where
  "unique_per_channel_down =
    [Alter_Table ''artifacts''
      [Drop_Unique ''uq_artifacts_system_channel'',
       Unique [''version_id'', ''platform_id'', ''architecture_id''] ''uq_artifacts_unique'']]"

definition add_full_name_up :: "statement list" where
  "add_full_name_up =
    [Alter_Table ''users''
      [Column ''full_name'' (Varchar 255) [Nullable]]]"

definition add_full_name_down :: "statement list" where
  "add_full_name_down =
    [Alter_Table ''users''
      [Drop_Column ''full_name'']]"

definition create_download_histories_up :: "statement list" where
  "create_download_histories_up =
    [Create_Table ''download_histories''
      [Column ''id'' Uuid uuid_key,
       Column ''artifact_id'' Uuid (ref ''artifacts'' Cascade),
       Column ''ip_address'' (Varchar 50) [Nullable],
       Column ''user_agent'' Text [Nullable],
       Column ''created_at'' Timestamp not_null_now]]"

definition create_download_histories_down :: "statement list" where
  "create_download_histories_down =
    [Drop_Table ''download_histories'']"

definition add_checksums_up :: "statement list" where
  "add_checksums_up =
    [Alter_Table ''artifacts''
      [Column ''checksum_md5'' (Varchar 32) [Nullable],
       Column ''checksum_sha1'' (Varchar 40) [Nullable],
       Column ''checksum_sha256'' (Varchar 64) [Nullable],
       Column ''checksum_sha512'' (Varchar 128) [Nullable]]]"

definition add_checksums_down :: "statement list" where
  "add_checksums_down =
    [Alter_Table ''artifacts''
      [Drop_Column ''checksum_md5'',
       Drop_Column ''checksum_sha1'',
       Drop_Column ''checksum_sha256'',
       Drop_Column ''checksum_sha512'']]"

section \<open>Sign-in\<close>

definition create_reset_tokens_up :: "statement list" where
  "create_reset_tokens_up =
    [Create_Table ''password_reset_tokens''
      [Column ''id'' Serial [],
       Column ''email'' (Varchar 255) [Not_Nullable, Index_Column],
       Column ''token'' (Varchar 255) [Not_Nullable, Unique_Column],
       Column ''expires_at'' Timestamp [Not_Nullable],
       Column ''created_at'' Timestamp []]]"

definition create_reset_tokens_down :: "statement list" where
  "create_reset_tokens_down =
    [Drop_Table ''password_reset_tokens'']"

definition create_remember_tokens_up :: "statement list" where
  "create_remember_tokens_up =
    [Create_Table ''remember_me_tokens''
      [Column ''id'' Serial [],
       Column ''tokenable_id'' Uuid (ref ''users'' Cascade),
       Column ''hash'' (Varchar 255) [Not_Nullable],
       Column ''created_at'' Timestamp [Not_Nullable],
       Column ''updated_at'' Timestamp [Not_Nullable],
       Column ''expires_at'' Timestamp [Not_Nullable]]]"

definition create_remember_tokens_down :: "statement list" where
  "create_remember_tokens_down =
    [Drop_Table ''remember_me_tokens'']"

text \<open>The user that was created first becomes root.\<close>

definition time_of :: "pg_value \<Rightarrow> int" where
  "time_of v = (case v of Pg_Time t \<Rightarrow> t | _ \<Rightarrow> 0)"

definition first_user_root :: "store \<Rightarrow> pg_write list res" where
  "first_user_root s =
     Inr (case sort_key (\<lambda>r. time_of (cell r ''created_at'')) (rows_of s ''users'') of
         [] \<Rightarrow> []
       | u # us \<Rightarrow> [Update ''users'' (\<lambda>r. cell r ''id'' = cell u ''id'') [(''is_root'', Pg_Bool True)]])"

definition add_root_up :: "statement list" where
  "add_root_up =
    [Alter_Table ''users''
      [Column ''is_root'' Boolean (flag False)],
     Defer first_user_root]"

definition add_root_down :: "statement list" where
  "add_root_down =
    [Alter_Table ''users''
      [Drop_Column ''is_root'']]"

definition add_user_deleted_up :: "statement list" where
  "add_user_deleted_up =
    [Alter_Table ''users''
      [Column ''deleted_at'' Timestamp [Nullable, Default_To (Value Pg_Null)]]]"

definition add_user_deleted_down :: "statement list" where
  "add_user_deleted_down =
    [Alter_Table ''users''
      [Drop_Column ''deleted_at'']]"

definition soft_deleted_tables :: "string list" where
  "soft_deleted_tables = [''architectures'', ''artifacts'', ''download_histories'', ''platforms'', ''settings'',
     ''storage_providers'', ''versions'', ''remember_me_tokens'', ''password_reset_tokens'']"

definition add_deleted_up :: "store \<Rightarrow> statement list" where
  "add_deleted_up s =
     map (\<lambda>t. Alter_Table t [Column ''deleted_at'' Timestamp [Nullable, Default_To (Value Pg_Null)]])
       (filter (has_table s) soft_deleted_tables)"

definition add_deleted_down :: "store \<Rightarrow> statement list" where
  "add_deleted_down s =
     map (\<lambda>t. Alter_Table t [Drop_Column ''deleted_at'']) (filter (has_table s) soft_deleted_tables)"

definition add_location_up :: "statement list" where
  "add_location_up =
    [Alter_Table ''download_histories''
      [Column ''lat'' Double [Nullable],
       Column ''lng'' Double [Nullable],
       Column ''country_code'' (Varchar 255) [Nullable]]]"

definition add_location_down :: "statement list" where
  "add_location_down =
    [Alter_Table ''download_histories''
      [Drop_Column ''lat'',
       Drop_Column ''lng'',
       Drop_Column ''country_code'']]"

definition add_user_active_up :: "statement list" where
  "add_user_active_up =
    [Alter_Table ''users''
      [Column ''is_active'' Boolean (flag True)]]"

definition add_user_active_down :: "statement list" where
  "add_user_active_down =
    [Alter_Table ''users''
      [Drop_Column ''is_active'']]"

definition add_appearance_up :: "statement list" where
  "add_appearance_up =
    [Alter_Table ''users''
      [Column ''theme'' (Varchar 10) [Default_To (Value (Pg_Text ''system''))],
       Column ''accent_color'' Integer [Default_To (Value (Pg_Int 0))]]]"

definition add_appearance_down :: "statement list" where
  "add_appearance_down =
    [Alter_Table ''users''
      [Drop_Column ''theme'',
       Drop_Column ''accent_color'']]"

section \<open>Licenses, limits and reservations\<close>

definition create_licenses_up :: "statement list" where
  "create_licenses_up =
    [Create_Table ''licenses''
      [Column ''id'' Uuid [Primary],
       Column ''license_key'' (Varchar 255) [Not_Nullable, Unique_Column],
       Column ''product_name'' (Varchar 255) [Not_Nullable],
       Column ''customer_name'' (Varchar 255) [Nullable],
       Column ''customer_email'' (Varchar 255) [Nullable],
       Column ''status'' (Varchar 50) [Not_Nullable, Default_To (Value (Pg_Text ''active''))],
       Column ''expires_at'' Timestamp [Nullable],
       Column ''revoked_at'' Timestamp [Nullable],
       Column ''created_at'' Timestamp not_null_now,
       Column ''updated_at'' Timestamp not_null_now,
       Column ''deleted_at'' Timestamp [Nullable]]]"

definition create_licenses_down :: "statement list" where
  "create_licenses_down =
    [Drop_Table ''licenses'']"

definition create_activations_up :: "statement list" where
  "create_activations_up =
    [Alter_Table ''licenses''
      [Column ''max_activations'' Integer (number 1),
       Column ''activation_count'' Integer (number 0)],
     Create_Table ''license_activations''
      [Column ''id'' Uuid [Primary],
       Column ''license_id'' Uuid [References ''licenses'' Cascade],
       Column ''machine_id'' (Varchar 255) [Not_Nullable],
       Column ''created_at'' Timestamp not_null_now]]"

definition create_activations_down :: "statement list" where
  "create_activations_down =
    [Drop_Table ''license_activations'',
     Alter_Table ''licenses''
      [Drop_Column ''max_activations'',
       Drop_Column ''activation_count'']]"

definition create_limits_up :: "statement list" where
  "create_limits_up =
    [Alter_Table ''users''
      [Column ''auth_version'' Integer (number 0)],
     Create_Table ''auth_rate_limits''
      [Column ''key'' (Varchar 64) [Primary],
       Column ''attempts'' Integer [Not_Nullable],
       Column ''window_ends_at'' Timestamp [Not_Nullable, Index_Column]],
     Create_Table ''storage_upload_reservations''
      [Column ''id'' Uuid [Primary],
       Column ''storage_provider_id'' Uuid (ref ''storage_providers'' No_Action),
       Column ''size_bytes'' Big_Integer [Not_Nullable],
       Column ''expires_at'' Timestamp [Not_Nullable, Index_Column],
       Column ''created_at'' Timestamp [Not_Nullable],
       Index [''storage_provider_id'', ''expires_at''] ''idx_upload_reservations_provider_expiry''],
     Alter_Table ''artifacts''
      [Index [''platform_id'', ''architecture_id'', ''channel'', ''is_published'', ''is_archived'', ''deleted_at'', ''version_id'', ''id'']
         ''idx_artifacts_public_release''],
     Defer (\<lambda>_. Inr [Delete ''remember_me_tokens'' (\<lambda>_. True)])]"

definition create_limits_down :: "statement list" where
  "create_limits_down =
    [Alter_Table ''artifacts''
      [Drop_Index ''idx_artifacts_public_release''],
     Drop_Table ''storage_upload_reservations'',
     Drop_Table ''auth_rate_limits'',
     Alter_Table ''users''
      [Drop_Column ''auth_version'']]"

section \<open>Products\<close>

text \<open>The name of the default product is the setting \<open>appName\<close> where it is there.\<close>

definition app_name :: "store \<Rightarrow> string" where
  "app_name s =
     (case List.find (\<lambda>r. cell r ''key'' = Pg_Text ''appName'') (rows_of s ''settings'') of
        None \<Rightarrow> ''Reeva''
      | Some r \<Rightarrow> (case cell r ''value'' of
          Pg_Text v \<Rightarrow> if trim v = [] then ''Reeva'' else take 120 (trim v)
        | _ \<Rightarrow> ''Reeva''))"

definition default_product :: "string \<Rightarrow> string \<Rightarrow> pg_write list" where
  "default_product i name =
     [Insert ''software'' [(''id'', Pg_Uuid i), (''name'', Pg_Text name), (''slug'', Pg_Text ''reeva''),
        (''is_active'', Pg_Bool True), (''is_default'', Pg_Bool True)],
      Update ''versions'' (\<lambda>_. True) [(''software_id'', Pg_Uuid i)]]"

definition add_products_up :: "migration_env \<Rightarrow> store \<Rightarrow> statement list" where
  "add_products_up env s =
    [Create_Table ''software''
      [Column ''id'' Uuid [Primary],
       Column ''name'' (Varchar 120) [Not_Nullable],
       Column ''slug'' (Varchar 80) [Not_Nullable],
       Unique [''slug''] ''uq_software_slug'',
       Column ''is_active'' Boolean (flag True),
       Column ''is_default'' Boolean (flag False),
       Column ''created_at'' Timestamp not_null_now,
       Column ''updated_at'' Timestamp not_null_now,
       Index [''is_active'', ''is_default''] ''idx_software_active_default''],
     Alter_Table ''versions'' [Column ''software_id'' Uuid [Nullable, References ''software'' Restrict]],
     Defer (\<lambda>_. Inr (default_product (me_random_uuid env) (app_name s))),
     Alter_Table ''versions'' [Alter_Not_Null ''software_id''],
     Alter_Table ''versions''
      [Drop_Unique ''unique_m_m_p'',
       Unique [''software_id'', ''major'', ''minor'', ''patch''] ''uq_versions_software_semver'',
       Index [''software_id'', ''is_active'', ''major'', ''minor'', ''patch''] ''idx_versions_software_semver'']]"

definition add_products_down :: "store \<Rightarrow> statement list res" where
  "add_products_down s =
     throw_if (\<not> distinct (map (\<lambda>r. (cell r ''major'', cell r ''minor'', cell r ''patch'')) (rows_of s ''versions'')))
       (Error ''Cannot roll back software products while different products contain the same semantic version. Export or reconcile those versions first.'')
       (Inr [Alter_Table ''versions'' [Drop_Foreign ''software_id''],
          Alter_Table ''versions''
           [Drop_Index ''idx_versions_software_semver'',
            Drop_Unique ''uq_versions_software_semver'',
            Unique [''major'', ''minor'', ''patch''] ''unique_m_m_p''],
          Alter_Table ''versions'' [Drop_Column ''software_id''],
          Drop_Table ''software''])"

definition release_invariants_up :: "statement list" where
  "release_invariants_up =
    [Create_Table ''sessions''
      [Column ''id'' (Varchar 255) [Primary],
       Column ''data'' Text [Not_Nullable],
       Column ''user_id'' (Varchar 255) [Nullable, Index_Column],
       Column ''expires_at'' Timestamp [Not_Nullable, Index_Column]],
     Drop_Named_Index ''uq_storage_default'',
     Create_Unique_Index ''uq_storage_default'' ''storage_providers'' [''is_default'']
       [(''is_default'', Pg_Bool True), (''deleted_at'', Pg_Null)],
     Create_Unique_Index ''uq_software_default'' ''software'' [''is_default''] [(''is_default'', Pg_Bool True)],
     Add_Check ''chk_software_default_active'' ''software'' ''is_default'' ''is_active'',
     Alter_Table ''download_histories''
      [Index [''deleted_at'', ''created_at''] ''idx_download_histories_live_created'']]"

definition release_invariants_down :: "statement list" where
  "release_invariants_down =
    [Drop_Table ''sessions'',
     Drop_Named_Index ''uq_storage_default'',
     Create_Unique_Index ''uq_storage_default'' ''storage_providers'' [''is_default''] [(''is_default'', Pg_Bool True)],
     Drop_Named_Index ''uq_software_default'',
     Drop_Check ''chk_software_default_active'' ''software'',
     Alter_Table ''download_histories''
      [Drop_Index ''idx_download_histories_live_created'']]"

section \<open>Encrypted configurations\<close>

text \<open>\<open>env.get\<close> of the legacy variables, a parameter.\<close>

definition environment_config :: "(string \<Rightarrow> jsval) \<Rightarrow> props" where
  "environment_config env_get =
     [(''bucket'', env_get ''S3_BUCKET''), (''endpoint'', env_get ''S3_ENDPOINT''), (''region'', env_get ''S3_REGION''),
      (''accessKeyId'', env_get ''S3_ACCESS_KEY_ID''), (''secretAccessKey'', env_get ''S3_SECRET_ACCESS_KEY''),
      (''sessionToken'', env_get ''S3_SESSION_TOKEN''), (''forcePathStyle'', env_get ''S3_FORCE_PATH_STYLE''),
      (''maxAttempts'', env_get ''S3_MAX_ATTEMPTS''), (''connectionTimeoutMs'', env_get ''S3_CONNECTION_TIMEOUT_MS''),
      (''socketTimeoutMs'', env_get ''S3_SOCKET_TIMEOUT_MS''),
      (''downloadUrlTtlSeconds'', env_get ''S3_DOWNLOAD_URL_TTL_SECONDS'')]"

definition migrate_environment_provider :: "(string \<Rightarrow> url option) \<Rightarrow> (string \<Rightarrow> jsval) \<Rightarrow> jsval res" where
  "migrate_environment_provider parse_url env_get =
     bind_res (normalize_s3_compatible_config parse_url (JObj (environment_config env_get)) ''s3'') (\<lambda>c.
     Inr (JObj ((''driver'', JStr ''s3'') # s3_props c)))"

definition parse_config :: "vault \<Rightarrow> pg_value \<Rightarrow> jsval res" where
  "parse_config vt v =
     bind_res (case v of
         Pg_Json (JStr s) \<Rightarrow> from_option (Fault ''SyntaxError'') (vt_parse vt s)
       | Pg_Json j \<Rightarrow> Inr j
       | _ \<Rightarrow> Inr JNull) (\<lambda>parsed.
     case parsed of
       JObj ps \<Rightarrow> Inr parsed
     | _ \<Rightarrow> Inl (Error ''Found an invalid storage provider configuration during encryption migration.''))"

definition set_config :: "row \<Rightarrow> jsval \<Rightarrow> pg_write" where
  "set_config r v = Update ''storage_providers'' (\<lambda>row. cell row ''id'' = cell r ''id'') [(''config'', Pg_Json v)]"

definition plain_config :: "(string \<Rightarrow> url option) \<Rightarrow> (string \<Rightarrow> jsval) \<Rightarrow> jsval \<Rightarrow> jsval res" where
  "plain_config parse_url env_get config =
     (if js_prop (config_props config) ''configSource'' = JStr ''environment'' then
        (case migrate_environment_provider parse_url env_get of
           Inl e \<Rightarrow> Inl (Error ''Cannot migrate the environment-backed S3 provider. Keep its complete legacy S3_* settings available for this startup, then run migrations again.'')
         | Inr c \<Rightarrow> Inr c)
      else Inr config)"

fun encrypt_rows :: "vault \<Rightarrow> (string \<Rightarrow> url option) \<Rightarrow> (string \<Rightarrow> jsval) \<Rightarrow> row list \<Rightarrow> pg_write list res" where
  "encrypt_rows vt parse_url env_get [] = Inr []"
| "encrypt_rows vt parse_url env_get (r # rs) =
     bind_res (parse_config vt (cell r ''config'')) (\<lambda>config.
     if is_encrypted config \<noteq> None then encrypt_rows vt parse_url env_get rs
     else bind_res (plain_config parse_url env_get config) (\<lambda>c.
       bind_res (encrypt_rows vt parse_url env_get rs) (\<lambda>ws. Inr (set_config r (encrypt_config vt c) # ws))))"

fun decrypt_rows :: "vault \<Rightarrow> row list \<Rightarrow> pg_write list res" where
  "decrypt_rows vt [] = Inr []"
| "decrypt_rows vt (r # rs) =
     bind_res (parse_config vt (cell r ''config'')) (\<lambda>config.
     if is_encrypted config = None then decrypt_rows vt rs
     else bind_res (decrypt_config vt config) (\<lambda>c.
       bind_res (decrypt_rows vt rs) (\<lambda>ws. Inr (set_config r c # ws))))"

definition encrypt_configs_up :: "vault \<Rightarrow> (string \<Rightarrow> url option) \<Rightarrow> (string \<Rightarrow> jsval) \<Rightarrow> statement list" where
  "encrypt_configs_up vt parse_url env_get =
     [Defer (\<lambda>s. encrypt_rows vt parse_url env_get (rows_of s ''storage_providers''))]"

definition encrypt_configs_down :: "vault \<Rightarrow> statement list" where
  "encrypt_configs_down vt = [Defer (\<lambda>s. decrypt_rows vt (rows_of s ''storage_providers''))]"

definition add_signatures_up :: "statement list" where
  "add_signatures_up =
    [Alter_Table ''software''
      [Column ''require_signed_updates'' Boolean (flag False)],
     Create_Table ''software_signing_keys''
      [Column ''id'' Uuid [Primary],
       Column ''software_id'' Uuid (ref ''software'' Cascade),
       Column ''key_id'' (Varchar 64) [Not_Nullable],
       Column ''public_key'' Text [Not_Nullable],
       Column ''is_active'' Boolean (flag True),
       Column ''created_at'' Timestamp not_null_now,
       Column ''updated_at'' Timestamp not_null_now,
       Unique [''key_id''] ''uq_software_signing_keys_key_id'',
       Index [''software_id'', ''is_active''] ''idx_software_signing_keys_active''],
     Alter_Table ''artifacts''
      [Column ''signature'' Text [Nullable],
       Column ''signature_key_id'' (Varchar 64) [Nullable],
       Column ''signature_manifest'' Jsonb [Nullable],
       Index [''signature_key_id''] ''idx_artifacts_signature_key'']]"

definition add_signatures_down :: "statement list" where
  "add_signatures_down =
    [Alter_Table ''artifacts''
      [Drop_Index ''idx_artifacts_signature_key'',
       Drop_Column ''signature'',
       Drop_Column ''signature_key_id'',
       Drop_Column ''signature_manifest''],
     Drop_Table ''software_signing_keys'',
     Alter_Table ''software''
      [Drop_Column ''require_signed_updates'']]"

section \<open>All migrations\<close>

definition migrations :: "vault \<Rightarrow> (string \<Rightarrow> url option) \<Rightarrow> (string \<Rightarrow> jsval) \<Rightarrow> migration list" where
  "migrations vt parse_url env_get =
    [migration.make ''1758943358073_create_users_table'' (\<lambda>_ _. Inr create_users_up) (\<lambda>_ _. Inr create_users_down),
     migration.make ''1774798500727_create_versions_table'' (\<lambda>_ _. Inr create_versions_up) (\<lambda>_ _. Inr create_versions_down),
     migration.make ''1774798501489_create_platforms_table'' (\<lambda>_ _. Inr create_platforms_up) (\<lambda>_ _. Inr create_platforms_down),
     migration.make ''1774798502255_create_architectures_table'' (\<lambda>_ _. Inr create_architectures_up) (\<lambda>_ _. Inr create_architectures_down),
     migration.make ''1774798503019_create_storage_providers_table'' (\<lambda>_ _. Inr create_storage_providers_up) (\<lambda>_ _. Inr create_storage_providers_down),
     migration.make ''1774798503800_create_artifacts_table'' (\<lambda>_ _. Inr create_artifacts_up) (\<lambda>_ _. Inr create_artifacts_down),
     migration.make ''1774806285988_alter_versions_table'' (\<lambda>_ _. Inr drop_version_number_up) (\<lambda>_ _. Inr drop_version_number_down),
     migration.make ''1774861504679_create_settings_table'' (\<lambda>_ _. Inr create_settings_up) (\<lambda>_ _. Inr create_settings_down),
     migration.make ''1774863563302_alter_artifacts_table'' (\<lambda>_ _. Inr add_publication_up) (\<lambda>_ _. Inr add_publication_down),
     migration.make ''1774864796843_alter_storages_table'' (\<lambda>_ _. Inr add_provider_active_up) (\<lambda>_ _. Inr add_provider_active_down),
     migration.make ''1774868009285_alter_storages_table'' (\<lambda>_ _. Inr add_quota_up) (\<lambda>_ _. Inr add_quota_down),
     migration.make ''1774868503825_alter_artifacts_table'' (\<lambda>_ _. Inr unique_per_channel_up) (\<lambda>_ _. Inr unique_per_channel_down),
     migration.make ''1774869336622_alter_users_table'' (\<lambda>_ _. Inr add_full_name_up) (\<lambda>_ _. Inr add_full_name_down),
     migration.make ''1774870362468_create_download_histories_table'' (\<lambda>_ _. Inr create_download_histories_up) (\<lambda>_ _. Inr create_download_histories_down),
     migration.make ''1774873558161_alter_artifacts_table'' (\<lambda>_ _. Inr add_checksums_up) (\<lambda>_ _. Inr add_checksums_down),
     migration.make ''1774887107847_create_password_reset_tokens_table'' (\<lambda>_ _. Inr create_reset_tokens_up) (\<lambda>_ _. Inr create_reset_tokens_down),
     migration.make ''1774888424472_create_remember_me_tokens_table'' (\<lambda>_ _. Inr create_remember_tokens_up) (\<lambda>_ _. Inr create_remember_tokens_down),
     migration.make ''1774888858249_alter_users_table'' (\<lambda>_ _. Inr add_root_up) (\<lambda>_ _. Inr add_root_down),
     migration.make ''1774900000000_alter_users_soft_delete'' (\<lambda>_ _. Inr add_user_deleted_up) (\<lambda>_ _. Inr add_user_deleted_down),
     migration.make ''1774900000001_alter_all_tables_soft_delete'' (\<lambda>_ s. Inr (add_deleted_up s)) (\<lambda>_ s. Inr (add_deleted_down s)),
     migration.make ''1774945999474_create_enhance_download_histories_table'' (\<lambda>_ _. Inr add_location_up) (\<lambda>_ _. Inr add_location_down),
     migration.make ''1776164555197_alter_users_table'' (\<lambda>_ _. Inr add_user_active_up) (\<lambda>_ _. Inr add_user_active_down),
     migration.make ''1776244800000_add_appearance_to_users_table'' (\<lambda>_ _. Inr add_appearance_up) (\<lambda>_ _. Inr add_appearance_down),
     migration.make ''1776410460135_alter_licenses_table'' (\<lambda>_ _. Inr create_licenses_up) (\<lambda>_ _. Inr create_licenses_down),
     migration.make ''1776411873622_alter_licenses_table'' (\<lambda>_ _. Inr create_activations_up) (\<lambda>_ _. Inr create_activations_down),
     migration.make ''1777000000000_create_auth_rate_limits_and_upload_reservations'' (\<lambda>_ _. Inr create_limits_up) (\<lambda>_ _. Inr create_limits_down),
     migration.make ''1777100000000_add_software_products'' (\<lambda>env s. Inr (add_products_up env s)) (\<lambda>_. add_products_down),
     migration.make ''1777200000000_postgresql_release_invariants'' (\<lambda>_ _. Inr release_invariants_up) (\<lambda>_ _. Inr release_invariants_down),
     migration.make ''1777300000000_encrypt_storage_provider_configs'' (\<lambda>_ _. Inr (encrypt_configs_up vt parse_url env_get)) (\<lambda>_ _. Inr (encrypt_configs_down vt)),
     migration.make ''1777400000000_add_ota_release_signatures'' (\<lambda>_ _. Inr add_signatures_up) (\<lambda>_ _. Inr add_signatures_down)]"

lemmas static_migrations = create_users_up_def create_users_down_def create_versions_up_def create_versions_down_def create_platforms_up_def create_platforms_down_def create_architectures_up_def create_architectures_down_def create_storage_providers_up_def create_storage_providers_down_def create_artifacts_up_def create_artifacts_down_def drop_version_number_up_def drop_version_number_down_def create_settings_up_def create_settings_down_def add_publication_up_def add_publication_down_def add_provider_active_up_def add_provider_active_down_def add_quota_up_def add_quota_down_def unique_per_channel_up_def unique_per_channel_down_def add_full_name_up_def add_full_name_down_def create_download_histories_up_def create_download_histories_down_def add_checksums_up_def add_checksums_down_def create_reset_tokens_up_def create_reset_tokens_down_def create_remember_tokens_up_def create_remember_tokens_down_def add_root_up_def add_root_down_def add_user_deleted_up_def add_user_deleted_down_def add_location_up_def add_location_down_def add_user_active_up_def add_user_active_down_def add_appearance_up_def add_appearance_down_def create_licenses_up_def create_licenses_down_def create_activations_up_def create_activations_down_def create_limits_up_def create_limits_down_def release_invariants_up_def release_invariants_down_def add_signatures_up_def add_signatures_down_def

end
