(* ===== verification/Migration_Audit.thy ===== *)
theory Migration_Audit
  imports Migration_Types Migrations
begin

text \<open>
  All migrations on an empty database: they succeed, the tables they leave, and which of them their
  rollback undoes.
\<close>

section \<open>Applying and reverting each migration\<close>

text \<open>The same tables; the order of the indexes of a table does not matter.\<close>

definition same_table :: "pg_table \<Rightarrow> pg_table \<Rightarrow> bool" where
  "same_table tb tb' \<longleftrightarrow> tb_columns tb' = tb_columns tb \<and> tb_rows tb' = tb_rows tb \<and> tb_foreign tb' = tb_foreign tb \<and>
     tb_checks tb' = tb_checks tb \<and> tb_triggers tb' = tb_triggers tb \<and> set (tb_indexes tb') = set (tb_indexes tb)"

definition same_store :: "store \<Rightarrow> store \<Rightarrow> bool" where
  "same_store s s' \<longleftrightarrow> st_functions s' = st_functions s \<and>
     list_all2 (\<lambda>(t, tb) (t', tb'). t' = t \<and> same_table tb tb') (st_tables s) (st_tables s')"

definition undoes :: "migration_env \<Rightarrow> migration \<Rightarrow> store \<Rightarrow> store \<Rightarrow> bool" where
  "undoes env m s s' = (case run_migration env (mg_down m) s' of Inl e \<Rightarrow> False | Inr s'' \<Rightarrow> same_store s s'')"

fun audit :: "migration_env \<Rightarrow> migration list \<Rightarrow> store \<Rightarrow> (store \<times> string list) res" where
  "audit env [] s = Inr (s, [])"
| "audit env (m # ms) s =
     bind_res (run_migration env (mg_up m) s) (\<lambda>s'.
     bind_res (audit env ms s') (\<lambda>(installed, kept).
     Inr (installed, (if undoes env m s s' then [] else [mg_name m]) @ kept)))"

lemma audit_migrate: "audit env ms s = Inr (installed, kept) \<Longrightarrow> migrate env (map mg_up ms) s = (installed, None)"
  by (induction env ms s arbitrary: kept rule: audit.induct) (auto simp: bind_res_Inr split: sum.splits)

lemma audit_undoes:
  "audit env ms s = Inr (installed, kept) \<Longrightarrow> i < length ms \<Longrightarrow> mg_name (ms ! i) \<notin> set kept \<Longrightarrow>
     \<exists>s'. run_migration env (mg_up (ms ! i)) (fst (migrate env (map mg_up (take i ms)) s)) = Inr s' \<and>
       undoes env (ms ! i) (fst (migrate env (map mg_up (take i ms)) s)) s'"
proof (induction ms arbitrary: s i kept)
  case (Cons m ms)
  then obtain s' k where s': "run_migration env (mg_up m) s = Inr s'" "audit env ms s' = Inr (installed, k)"
    "kept = (if undoes env m s s' then [] else [mg_name m]) @ k"
    by (auto simp: bind_res_Inr)
  show ?case
  proof (cases i)
    case 0
    then show ?thesis using s' Cons.prems(3) by (auto split: if_splits)
  next
    case (Suc j)
    then show ?thesis using Cons.IH [OF s'(2), of j] Cons.prems(2,3) s'(1,3) by (auto split: if_splits)
  qed
qed simp

section \<open>The tables they leave\<close>

type_synonym table_shape =
  "(string \<times> pg_type \<times> bool) list \<times> (index_kind \<times> string list \<times> (string \<times> pg_value) list) list \<times> (string \<times> string) list"

text \<open>Columns with type and \<open>NOT NULL\<close>, unique indexes, and checks.\<close>

definition shape_of :: "pg_table \<Rightarrow> table_shape" where
  "shape_of tb =
     (map (\<lambda>c. (co_name c, co_type c, co_not_null c)) (tb_columns tb),
      map (\<lambda>ix. (ix_kind ix, ix_columns ix, ix_where ix)) (filter (\<lambda>ix. ix_kind ix \<noteq> Plain_Index) (tb_indexes tb)),
      map (\<lambda>ck. (ck_if ck, ck_then ck)) (tb_checks tb))"

definition shapes :: "store \<Rightarrow> (string \<times> table_shape) list" where
  "shapes s = map (\<lambda>(t, tb). (t, shape_of tb)) (st_tables s)"

definition audited :: "(store \<times> string list) res \<Rightarrow> ((string \<times> table_shape) list \<times> string list) res" where
  "audited r = bind_res r (\<lambda>(s, kept). Inr (shapes s, kept))"

definition installed_shapes :: "(string \<times> table_shape) list" where
  "installed_shapes =
    [(''users'',
       ([(''id'', Uuid, True), (''email'', Varchar 255, True), (''password_hash'', Varchar 255, True),
         (''created_at'', Timestamp, True), (''updated_at'', Timestamp, True),
         (''full_name'', Varchar 255, False), (''is_root'', Boolean, True), (''deleted_at'', Timestamp, False),
         (''is_active'', Boolean, True), (''theme'', Varchar 10, False), (''accent_color'', Integer, False),
         (''auth_version'', Integer, True)],
        [(Primary_Key, [''id''], []), (Unique_Constraint, [''email''], [])], [])),
     (''versions'',
       ([(''id'', Uuid, True), (''codename'', Varchar 100, False), (''major'', Integer, True),
         (''minor'', Integer, True), (''patch'', Integer, True), (''release_date'', Timestamp, False),
         (''changelog'', Text, False), (''is_active'', Boolean, True), (''created_at'', Timestamp, True),
         (''deleted_at'', Timestamp, False), (''software_id'', Uuid, True)],
        [(Primary_Key, [''id''], []), (Unique_Constraint, [''software_id'', ''major'', ''minor'', ''patch''], [])], [])),
     (''platforms'',
       ([(''id'', Uuid, True), (''name'', Varchar 50, True), (''display_name'', Varchar 100, True),
         (''created_at'', Timestamp, False), (''updated_at'', Timestamp, False),
         (''deleted_at'', Timestamp, False)],
        [(Primary_Key, [''id''], []), (Unique_Constraint, [''name''], [])], [])),
     (''architectures'',
       ([(''id'', Uuid, True), (''name'', Varchar 50, True), (''display_name'', Varchar 100, True),
         (''deleted_at'', Timestamp, False)],
        [(Primary_Key, [''id''], []), (Unique_Constraint, [''name''], [])], [])),
     (''storage_providers'',
       ([(''id'', Uuid, True), (''name'', Varchar 100, True), (''type'', Varchar 50, True),
         (''config'', Jsonb, True), (''is_default'', Boolean, True), (''created_at'', Timestamp, True),
         (''is_active'', Boolean, True), (''quota_bytes'', Big_Integer, False),
         (''deleted_at'', Timestamp, False)],
        [(Primary_Key, [''id''], []), (Unique_Index, [''is_default''], [(''is_default'', Pg_Bool True), (''deleted_at'', Pg_Null)])], [])),
     (''artifacts'',
       ([(''id'', Uuid, True), (''version_id'', Uuid, True), (''platform_id'', Uuid, True),
         (''architecture_id'', Uuid, True), (''storage_provider_id'', Uuid, True),
         (''file_name'', Varchar 255, True), (''mime_type'', Varchar 100, False),
         (''size_bytes'', Big_Integer, False), (''checksum'', Varchar 128, False),
         (''storage_key'', Varchar 500, True), (''download_count'', Integer, True),
         (''is_archived'', Boolean, True), (''created_at'', Timestamp, True), (''channel'', Varchar 255, True),
         (''is_published'', Boolean, True), (''published_at'', Timestamp, False),
         (''checksum_md5'', Varchar 32, False), (''checksum_sha1'', Varchar 40, False),
         (''checksum_sha256'', Varchar 64, False), (''checksum_sha512'', Varchar 128, False),
         (''deleted_at'', Timestamp, False), (''signature'', Text, False),
         (''signature_key_id'', Varchar 64, False), (''signature_manifest'', Jsonb, False)],
        [(Primary_Key, [''id''], []), (Unique_Constraint, [''version_id'', ''platform_id'', ''architecture_id'', ''channel''], [])], [])),
     (''settings'',
       ([(''id'', Varchar 255, True), (''key'', Varchar 255, True), (''value'', Varchar 255, False),
         (''created_at'', Timestamp, False), (''updated_at'', Timestamp, False),
         (''deleted_at'', Timestamp, False)],
        [(Primary_Key, [''id''], []), (Unique_Constraint, [''key''], [])], [])),
     (''download_histories'',
       ([(''id'', Uuid, True), (''artifact_id'', Uuid, True), (''ip_address'', Varchar 50, False),
         (''user_agent'', Text, False), (''created_at'', Timestamp, True), (''deleted_at'', Timestamp, False),
         (''lat'', Double, False), (''lng'', Double, False), (''country_code'', Varchar 255, False)],
        [(Primary_Key, [''id''], [])], [])),
     (''password_reset_tokens'',
       ([(''id'', Serial, True), (''email'', Varchar 255, True), (''token'', Varchar 255, True),
         (''expires_at'', Timestamp, True), (''created_at'', Timestamp, False),
         (''deleted_at'', Timestamp, False)],
        [(Primary_Key, [''id''], []), (Unique_Constraint, [''token''], [])], [])),
     (''remember_me_tokens'',
       ([(''id'', Serial, True), (''tokenable_id'', Uuid, True), (''hash'', Varchar 255, True),
         (''created_at'', Timestamp, True), (''updated_at'', Timestamp, True),
         (''expires_at'', Timestamp, True), (''deleted_at'', Timestamp, False)],
        [(Primary_Key, [''id''], [])], [])),
     (''licenses'',
       ([(''id'', Uuid, True), (''license_key'', Varchar 255, True), (''product_name'', Varchar 255, True),
         (''customer_name'', Varchar 255, False), (''customer_email'', Varchar 255, False),
         (''status'', Varchar 50, True), (''expires_at'', Timestamp, False),
         (''revoked_at'', Timestamp, False), (''created_at'', Timestamp, True),
         (''updated_at'', Timestamp, True), (''deleted_at'', Timestamp, False),
         (''max_activations'', Integer, True), (''activation_count'', Integer, True)],
        [(Primary_Key, [''id''], []), (Unique_Constraint, [''license_key''], [])], [])),
     (''license_activations'',
       ([(''id'', Uuid, True), (''license_id'', Uuid, False), (''machine_id'', Varchar 255, True),
         (''created_at'', Timestamp, True)],
        [(Primary_Key, [''id''], [])], [])),
     (''auth_rate_limits'',
       ([(''key'', Varchar 64, True), (''attempts'', Integer, True), (''window_ends_at'', Timestamp, True)],
        [(Primary_Key, [''key''], [])], [])),
     (''storage_upload_reservations'',
       ([(''id'', Uuid, True), (''storage_provider_id'', Uuid, True), (''size_bytes'', Big_Integer, True),
         (''expires_at'', Timestamp, True), (''created_at'', Timestamp, True)],
        [(Primary_Key, [''id''], [])], [])),
     (''software'',
       ([(''id'', Uuid, True), (''name'', Varchar 120, True), (''slug'', Varchar 80, True),
         (''is_active'', Boolean, True), (''is_default'', Boolean, True), (''created_at'', Timestamp, True),
         (''updated_at'', Timestamp, True), (''require_signed_updates'', Boolean, True)],
        [(Primary_Key, [''id''], []), (Unique_Constraint, [''slug''], []), (Unique_Index, [''is_default''], [(''is_default'', Pg_Bool True)])], [(''is_default'', ''is_active'')])),
     (''sessions'',
       ([(''id'', Varchar 255, True), (''data'', Text, True), (''user_id'', Varchar 255, False),
         (''expires_at'', Timestamp, True)],
        [(Primary_Key, [''id''], [])], [])),
     (''software_signing_keys'',
       ([(''id'', Uuid, True), (''software_id'', Uuid, True), (''key_id'', Varchar 64, True),
         (''public_key'', Text, True), (''is_active'', Boolean, True), (''created_at'', Timestamp, True),
         (''updated_at'', Timestamp, True)],
        [(Primary_Key, [''id''], []), (Unique_Constraint, [''key_id''], [])], []))]"

text \<open>The two that are not undone: the function for \<open>updated_at\<close> stays, and \<open>version_number\<close> comes back without its values.\<close>

lemma audited_migrations:
  "audited (audit env (migrations vt parse_url env_get) empty_store) =
     Inr (installed_shapes, [''1758943358073_create_users_table'', ''1774806285988_alter_versions_table''])"
  by code_simp

definition installed :: "migration_env \<Rightarrow> vault \<Rightarrow> (string \<Rightarrow> url option) \<Rightarrow> (string \<Rightarrow> jsval) \<Rightarrow> store" where
  "installed env vt parse_url env_get = fst (migrate env (map mg_up (migrations vt parse_url env_get)) empty_store)"

lemma installation:
  "audit env (migrations vt parse_url env_get) empty_store =
     Inr (installed env vt parse_url env_get, [''1758943358073_create_users_table'', ''1774806285988_alter_versions_table''])"
  "migrate env (map mg_up (migrations vt parse_url env_get)) empty_store = (installed env vt parse_url env_get, None)"
  "shapes (installed env vt parse_url env_get) = installed_shapes"
proof -
  obtain s kept where a: "audit env (migrations vt parse_url env_get) empty_store = Inr (s, kept)"
    "shapes s = installed_shapes" "kept = [''1758943358073_create_users_table'', ''1774806285988_alter_versions_table'']"
    using audited_migrations [of env vt parse_url env_get] by (auto simp: audited_def bind_res_Inr)
  moreover have "s = installed env vt parse_url env_get" using audit_migrate [OF a(1)] by (simp add: installed_def)
  ultimately show "audit env (migrations vt parse_url env_get) empty_store =
     Inr (installed env vt parse_url env_get, [''1758943358073_create_users_table'', ''1774806285988_alter_versions_table''])"
    "migrate env (map mg_up (migrations vt parse_url env_get)) empty_store = (installed env vt parse_url env_get, None)"
    "shapes (installed env vt parse_url env_get) = installed_shapes"
    using audit_migrate by auto
qed

end
