(* ===== verification/Migration_Rows.thy ===== *)
theory Migration_Rows
  imports Migration_Types Migrations
begin

text \<open>
  What the statements of a migration do to columns and rows, without the checks: the view of a store that
  a reader of the tables has, and the proof that every statement that succeeds does exactly this.
\<close>

section \<open>Views\<close>

type_synonym table_view = "column list \<times> row list \<times> string list"

type_synonym view = "string \<Rightarrow> table_view option"

definition view_of :: "store \<Rightarrow> view" where
  "view_of s t = map_option (\<lambda>tb. (tb_columns tb, tb_rows tb, tb_triggers tb)) (table_of s t)"

lemma view_of_rows: "view_of s t = Some (cs, rows, tr) \<Longrightarrow> rows_of s t = rows"
  by (auto simp: view_of_def rows_of_def)

lemma rows_of_view: "rows_of s t = (case view_of s t of None \<Rightarrow> [] | Some (cs, rows, tr) \<Rightarrow> rows)"
  by (simp add: view_of_def rows_of_def split: option.splits)

fun op_view :: "migration_env \<Rightarrow> table_op \<Rightarrow> table_view \<Rightarrow> table_view" where
  "op_view env (Column c ty ms) (cs, rows, tr) =
     (cs @ [make_column c ty ms],
      map (\<lambda>(n, r). r @ [(c, default_value env n (co_default (make_column c ty ms)))]) (enumerate 0 rows), tr)"
| "op_view env (Alter_Not_Null c) (cs, rows, tr) =
     (map (\<lambda>k. if co_name k = c then k\<lparr>co_not_null := True\<rparr> else k) cs, rows, tr)"
| "op_view env (Drop_Column c) (cs, rows, tr) =
     (filter (\<lambda>k. co_name k \<noteq> c) cs, map (filter (\<lambda>(n, v). n \<noteq> c)) rows, tr)"
| "op_view env _ v = v"

lemma op_view_same [simp]:
  "map_option (op_view env (Unique xs n)) v = v" "map_option (op_view env (Drop_Unique n)) v = v"
  "map_option (op_view env (Index xs n)) v = v" "map_option (op_view env (Drop_Index n)) v = v"
  "map_option (op_view env (Drop_Foreign n)) v = v"
  by (cases v, simp_all)+

definition view_touched :: "migration_env \<Rightarrow> string list \<Rightarrow> row \<Rightarrow> row" where
  "view_touched env tr r = (if tr = [] then r else set_cell (''updated_at'', Pg_Time (me_now env)) r)"

definition view_inserted :: "migration_env \<Rightarrow> column list \<Rightarrow> nat \<Rightarrow> row \<Rightarrow> row" where
  "view_inserted env cs n vals =
     map (\<lambda>c. (co_name c, case map_of vals (co_name c) of Some v \<Rightarrow> v | None \<Rightarrow> default_value env n (co_default c))) cs"

fun write_view :: "migration_env \<Rightarrow> pg_write \<Rightarrow> view \<Rightarrow> view" where
  "write_view env (Insert t vals) V =
     V(t := map_option (\<lambda>(cs, rows, tr). (cs, rows @ [view_inserted env cs (length rows) vals], tr)) (V t))"
| "write_view env (Update t P vals) V =
     V(t := map_option (\<lambda>(cs, rows, tr). (cs, map (\<lambda>r. if P r then view_touched env tr (fold set_cell vals r) else r) rows, tr)) (V t))"
| "write_view env (Delete t P) V =
     V(t := map_option (\<lambda>(cs, rows, tr). (cs, filter (\<lambda>r. \<not> P r) rows, tr)) (V t))"

fun statement_view :: "migration_env \<Rightarrow> statement \<Rightarrow> view \<Rightarrow> view" where
  "statement_view env (Create_Table t ops) V = V(t := Some (fold (op_view env) ops ([], [], [])))"
| "statement_view env (Alter_Table t ops) V = V(t := map_option (fold (op_view env) ops) (V t))"
| "statement_view env (Drop_Table t) V = V(t := None)"
| "statement_view env (Create_Trigger name t f) V = V(t := map_option (\<lambda>(cs, rows, tr). (cs, rows, tr @ [name])) (V t))"
| "statement_view env _ V = V"

section \<open>The statements do this\<close>

lemma view_put: "table_of s t \<noteq> None \<Longrightarrow>
    view_of (put_table t tb s) = (view_of s)(t := Some (tb_columns tb, tb_rows tb, tb_triggers tb))"
  by (auto simp: view_of_def)

lemma view_put_same:
  "table_of s t = Some tb \<Longrightarrow> tb_columns tb' = tb_columns tb \<Longrightarrow> tb_rows tb' = tb_rows tb \<Longrightarrow> tb_triggers tb' = tb_triggers tb \<Longrightarrow>
     view_of (put_table t tb' s) = view_of s"
  by (auto simp: view_of_def)

lemma add_index_view: "add_index ix t s = Inr s' \<Longrightarrow> view_of s' = view_of s"
  by (auto simp: add_index_def res_simps view_put_same)

lemma add_foreign_view: "add_foreign fk t s = Inr s' \<Longrightarrow> view_of s' = view_of s"
  by (auto simp: add_foreign_def res_simps view_put_same)

lemma add_modifier_view: "add_modifier t c m s = Inr s' \<Longrightarrow> view_of s' = view_of s"
  by (cases m) (auto dest: add_index_view add_foreign_view)

lemma add_modifiers_view: "run_all (add_modifier t c) ms s = Inr s' \<Longrightarrow> view_of s' = view_of s"
  by (induction ms arbitrary: s) (auto simp: res_simps dest: add_modifier_view)

lemma drop_index_view: "with_table s t (drop_index kind name) = Inr s' \<Longrightarrow> view_of s' = view_of s"
  by (auto simp: drop_index_def res_simps view_put_same)

lemma drop_named_index_view: "drop_named_index name s = Inr s' \<Longrightarrow> view_of s' = view_of s"
  by (auto simp: drop_named_index_def bind_res_Inr from_option_Inr dest: drop_index_view simp del: with_table_Inr)

lemma add_column_view:
  "with_table s t (add_column env (make_column c ty ms)) = Inr s' \<Longrightarrow>
     view_of s' = (view_of s)(t := map_option (op_view env (Column c ty ms)) (view_of s t))"
proof -
  have n: "co_name (make_column c ty ms) = c" by (simp add: make_column_def)
  show "with_table s t (add_column env (make_column c ty ms)) = Inr s' \<Longrightarrow> ?thesis"
    by (auto simp: add_column_def res_simps Let_def n view_put) (simp add: view_of_def)
qed

lemma table_op_view:
  assumes "table_op_step env t x s = Inr s'"
  shows "view_of s' = (view_of s)(t := map_option (op_view env x) (view_of s t))"
proof (cases x)
  case (Column c ty ms)
  then obtain s1 where s1: "with_table s t (add_column env (make_column c ty ms)) = Inr s1" "view_of s' = view_of s1"
    using assms by (auto simp: bind_res_Inr simp del: with_table_Inr dest: add_modifiers_view)
  then show ?thesis using add_column_view [OF s1(1)] Column by simp
next
  case (Alter_Not_Null c)
  then show ?thesis using assms by (auto simp: alter_not_null_def res_simps view_put) (simp add: view_of_def)
next
  case (Drop_Column c)
  then show ?thesis using assms by (auto simp: drop_column_def res_simps view_put) (simp_all add: view_of_def)
next
  case (Drop_Foreign c)
  then have "view_of s' = view_of s" using assms by (auto simp: drop_foreign_def res_simps view_put_same)
  then show ?thesis using Drop_Foreign by (simp add: fun_eq_iff)
qed (use assms in \<open>auto simp: fun_eq_iff option.map_ident simp del: with_table_Inr
    dest!: add_index_view drop_index_view drop_named_index_view\<close>)

lemma table_ops_view:
  assumes "run_all (table_op_step env t) ops s = Inr s'"
  shows "view_of s' = (view_of s)(t := map_option (fold (op_view env) ops) (view_of s t))"
  using assms
proof (induction ops arbitrary: s)
  case (Cons x ops)
  then obtain s1 where s1: "table_op_step env t x s = Inr s1" "run_all (table_op_step env t) ops s1 = Inr s'"
    by (auto simp: bind_res_Inr)
  then show ?case using Cons.IH [OF s1(2)] table_op_view [OF s1(1)] by (auto simp: option.map_comp comp_def fun_eq_iff)
qed (auto simp: fun_eq_iff option.map_id)

lemma write_view_step:
  assumes "write_step env x s = Inr s'"
  shows "view_of s' = write_view env x (view_of s)"
  using assms
  by (cases x)
    (auto simp: write_rows_def res_simps Let_def view_put view_of_def fun_eq_iff view_inserted_def inserted_row_def
      view_touched_def touched_def)

lemma writes_view:
  assumes "run_all (write_step env) ws s = Inr s'"
  shows "view_of s' = fold (write_view env) ws (view_of s)"
  using assms by (induction ws arbitrary: s) (auto simp: bind_res_Inr write_view_step)

lemma statement_view_step:
  assumes "statement_step env x s = Inr s'" "\<forall>f. x \<noteq> Defer f"
  shows "view_of s' = statement_view env x (view_of s)"
proof (cases x)
  case (Create_Table t ops)
  let ?s = "s\<lparr>st_tables := st_tables s @ [(t, new_table)]\<rparr>"
  have n: "table_of s t = None" and r: "run_all (table_op_step env t) ops ?s = Inr s'"
    using assms Create_Table by (auto simp: throw_if_Inr has_table_def)
  have "view_of ?s = (view_of s)(t := Some ([], [], []))"
  proof
    fix u
    show "view_of ?s u = ((view_of s)(t := Some ([], [], []))) u"
      using n by (auto simp: view_of_def table_of_def map_add_def new_table_def split: option.splits)
  qed
  then show ?thesis using table_ops_view [OF r] Create_Table by simp
next
  case (Drop_Table t)
  have "map_of (filter (\<lambda>(n, tb). n \<noteq> t) ts) u = (if u = t then None else map_of ts u)" for u and ts :: "(string \<times> pg_table) list"
    by (induction ts) auto
  then show ?thesis using assms Drop_Table by (auto simp: throw_if_Inr view_of_def table_of_def fun_eq_iff)
next
  case (Add_Check name t a b)
  then show ?thesis using assms by (auto simp: res_simps view_put_same)
next
  case (Drop_Check name t)
  then show ?thesis using assms by (auto simp: res_simps view_put_same)
next
  case (Create_Function f)
  then show ?thesis using assms by (auto simp: view_of_def table_of_def fun_eq_iff)
next
  case (Create_Trigger name t f)
  then show ?thesis using assms by (auto simp: res_simps view_put view_of_def fun_eq_iff)
qed (use assms in \<open>auto dest: table_ops_view add_index_view drop_named_index_view\<close>)

lemma statement_view_defer:
  assumes "statement_step env (Defer f) s = Inr s'"
  obtains ws where "f s = Inr ws" "view_of s' = fold (write_view env) ws (view_of s)"
  using assms by (auto simp: bind_res_Inr dest: writes_view)

end
