(* ===== verification/Migration_Data.thy ===== *)
theory Migration_Data
  imports Migration_Rows
begin

text \<open>
  What the migrations do to the data they find: the product boundary that all earlier versions are put
  under, and the encryption of the configurations of storage providers, with its way back.
\<close>

section \<open>Products\<close>

lemma map_enumerate_rows [simp]: "map (\<lambda>(n, r). f r) (enumerate k rows) = map f rows"
  by (induction rows arbitrary: k) auto

lemma new_column_fresh:
  assumes "table_op_step env t (Column c ty ms) s = Inr s'" "view_of s t = Some (cs, rows, tr)"
  shows "c \<notin> co_name ` set cs"
proof -
  obtain tb where "table_of s t = Some tb" "\<not> has_column tb (co_name (make_column c ty ms))"
    using assms(1) by (auto simp: add_column_def res_simps Let_def)
  then show ?thesis using assms(2) by (auto simp: view_of_def has_column_def make_column_def)
qed

lemma set_cell_new: "c \<notin> fst ` set r \<Longrightarrow> set_cell (c, v) (r @ [(c, w)]) = r @ [(c, v)]"
  unfolding set_cell_def by (induction r) auto

definition default_product_row :: "migration_env \<Rightarrow> store \<Rightarrow> row" where
  "default_product_row env s =
     [(''id'', Pg_Uuid (me_random_uuid env)), (''name'', Pg_Text (app_name s)), (''slug'', Pg_Text ''reeva''),
      (''is_active'', Pg_Bool True), (''is_default'', Pg_Bool True), (''created_at'', Pg_Time (me_now env)),
      (''updated_at'', Pg_Time (me_now env))]"

lemma software_table_view:
  "statement_view env (hd (add_products_up env s)) V ''software'' =
     Some ([make_column ''id'' Uuid [Primary], make_column ''name'' (Varchar 120) [Not_Nullable],
       make_column ''slug'' (Varchar 80) [Not_Nullable], make_column ''is_active'' Boolean (flag True),
       make_column ''is_default'' Boolean (flag False), make_column ''created_at'' Timestamp not_null_now,
       make_column ''updated_at'' Timestamp not_null_now], [], [])"
  by (simp add: add_products_up_def)

lemma default_product_inserted:
  "view_inserted env [make_column ''id'' Uuid [Primary], make_column ''name'' (Varchar 120) [Not_Nullable],
       make_column ''slug'' (Varchar 80) [Not_Nullable], make_column ''is_active'' Boolean (flag True),
       make_column ''is_default'' Boolean (flag False), make_column ''created_at'' Timestamp not_null_now,
       make_column ''updated_at'' Timestamp not_null_now] n
     [(''id'', Pg_Uuid (me_random_uuid env)), (''name'', Pg_Text (app_name s)), (''slug'', Pg_Text ''reeva''),
        (''is_active'', Pg_Bool True), (''is_default'', Pg_Bool True)] = default_product_row env s"
  by (simp add: view_inserted_def make_column_def default_product_row_def default_value_def)

text \<open>
  C32. The migration that adds products puts every version there is under one new default product, named
  after the setting \<open>appName\<close>, and changes nothing else: no version is lost or altered, no other table
  changes, and all types, unique indexes, checks and references hold afterwards.
\<close>

theorem products_migration:
  assumes "store_ok s" "run_migration env (\<lambda>env s. Inr (add_products_up env s)) s = Inr s'"
    and "table_of s ''versions'' = Some tb" "tb_triggers tb = []"
  shows "store_ok s' \<and> rows_of s' ''software'' = [default_product_row env s] \<and>
     rows_of s' ''versions'' = map (\<lambda>r. r @ [(''software_id'', Pg_Uuid (me_random_uuid env))]) (tb_rows tb) \<and>
     (\<forall>t. t \<noteq> ''versions'' \<longrightarrow> t \<noteq> ''software'' \<longrightarrow> rows_of s' t = rows_of s t)"
proof -
  let ?uuid = "Pg_Uuid (me_random_uuid env)" and ?col = "Column ''software_id'' Uuid [Nullable, References ''software'' Restrict]"
  obtain x1 x2 x3 x4 x5 where x: "add_products_up env s = [x1, x2, x3, x4, x5]"
    and x2: "x2 = Alter_Table ''versions'' [?col]"
    and x3: "x3 = Defer (\<lambda>_. Inr (default_product (me_random_uuid env) (app_name s)))"
    and x4: "x4 = Alter_Table ''versions'' [Alter_Not_Null ''software_id'']"
    and x5: "\<exists>cs1 n1 cs2 n2 n3. x5 = Alter_Table ''versions'' [Drop_Unique n1, Unique cs1 n2, Index cs2 n3]"
    and x1: "\<exists>ops. x1 = Create_Table ''software'' ops"
    by (simp add: add_products_up_def)
  obtain s1 s2 s3 s4 where r: "statement_step env x1 s = Inr s1" "statement_step env x2 s1 = Inr s2"
      "statement_step env x3 s2 = Inr s3" "statement_step env x4 s3 = Inr s4" "statement_step env x5 s4 = Inr s'"
    using assms(2) by (auto simp: run_migration_def x bind_res_Inr)
  let ?V = "view_of s" let ?V1 = "statement_view env x1 ?V"
  have v: "?V ''versions'' = Some (tb_columns tb, tb_rows tb, [])" using assms(3,4) by (simp add: view_of_def)
  have v1: "view_of s1 = ?V1" using x1 statement_view_step [OF r(1)] by auto
  have v1': "?V1 t = ?V t" if "t \<noteq> ''software''" for t using x1 that by auto
  have fresh: "''software_id'' \<notin> fst ` set q" if "q \<in> set (tb_rows tb)" for q
  proof -
    have "table_op_step env ''versions'' ?col s1 = Inr s2" using r(2) by (simp add: x2 bind_res_Inr)
    moreover have "view_of s1 ''versions'' = Some (tb_columns tb, tb_rows tb, [])" using v v1 v1' by simp
    ultimately have "''software_id'' \<notin> co_name ` set (tb_columns tb)" by (rule new_column_fresh)
    moreover have "row_ok (tb_columns tb) q"
      using store_ok_table [OF assms(1,3)] that by (simp add: table_ok_def list_all_iff)
    ultimately show ?thesis using row_ok_dom by simp
  qed
  have v2: "view_of s2 = statement_view env x2 ?V1" using statement_view_step [OF r(2)] by (simp add: x2 v1)
  have v3: "view_of s3 = fold (write_view env) (default_product (me_random_uuid env) (app_name s)) (view_of s2)"
    using statement_view_defer [OF r(3) [unfolded x3]] by auto
  have v4: "view_of s4 = statement_view env x4 (view_of s3)" using statement_view_step [OF r(4)] by (simp add: x4)
  have v5: "view_of s' = view_of s4" using x5 statement_view_step [OF r(5)] by (auto simp: fun_eq_iff option.map_comp comp_def option.map_ident)
  have "rows_of s' ''versions'' = map (\<lambda>q. set_cell (''software_id'', ?uuid) (q @ [(''software_id'', Pg_Null)])) (tb_rows tb)"
    unfolding rows_of_view v5 v4 x4 v3 v2 x2
    by (simp add: v v1' default_product_def default_value_def make_column_def view_touched_def comp_def)
  also have "\<dots> = map (\<lambda>q. q @ [(''software_id'', ?uuid)]) (tb_rows tb)" by (simp add: set_cell_new fresh)
  finally have versions: "rows_of s' ''versions'' = \<dots>" .
  have "?V1 ''software'' = statement_view env (hd (add_products_up env s)) ?V ''software''" by (simp add: x)
  then have software: "rows_of s' ''software'' = [default_product_row env s]"
    unfolding rows_of_view v5 v4 x4 v3 v2 x2
    by (simp add: software_table_view default_product_def default_product_inserted)
  have "rows_of s' t = rows_of s t" if "t \<noteq> ''versions''" "t \<noteq> ''software''" for t
    unfolding rows_of_view v5 v4 x4 v3 v2 x2 using that by (simp add: v1' default_product_def)
  then show ?thesis using versions software run_migration_ok [OF assms(2,1)] by blast
qed

section \<open>Encrypted configurations\<close>

lemma set_cell_simps [simp]:
  "set_cell x [] = []"
  "set_cell (c, v) ((n, w) # r) = (if n = c then (c, v) else (n, w)) # set_cell (c, v) r"
  by (simp_all add: set_cell_def)

lemma set_cell_names [simp]: "map fst (set_cell x r) = map fst r"
  by (auto simp: set_cell_def)

lemma cell_set_cell: "cell (set_cell (c, v) r) k = (if k = c \<and> c \<in> fst ` set r then v else cell r k)"
proof (induction r)
  case (Cons x r)
  obtain n w where "x = (n, w)" by (cases x)
  then show ?case using Cons by (cases "k = n"; cases "c = n") (simp_all add: cell_def)
qed simp

lemma set_cell_twice: "set_cell (c, v) (set_cell (c, w) r) = set_cell (c, v) r"
  by (auto simp: set_cell_def)

lemma set_cell_absent: "c \<notin> fst ` set r \<Longrightarrow> set_cell (c, v) r = r"
  by (induction r) auto

lemma set_cell_same: "distinct (map fst r) \<Longrightarrow> cell r c = v \<Longrightarrow> set_cell (c, v) r = r"
proof (induction r)
  case (Cons x r)
  obtain n w where x: "x = (n, w)" by (cases x)
  show ?case
  proof (cases "n = c")
    case True
    then show ?thesis using Cons.prems x set_cell_absent [of c r v] by (simp add: cell_def)
  next
    case False
    then have "cell r c = v" using Cons.prems x by (simp add: cell_def)
    then show ?thesis using Cons False x by simp
  qed
qed simp

lemma row_ok_set_cell:
  assumes "row_ok cs r" "\<forall>k\<in>set cs. co_name k = c \<longrightarrow> fits k v"
  shows "row_ok cs (set_cell (c, v) r)"
  using assms unfolding row_ok_def by (induction rule: list_all2_induct) (auto simp: set_cell_def)

text \<open>The table of providers as far as these migrations rely on it.\<close>

definition config_table :: "store \<Rightarrow> pg_table \<Rightarrow> bool" where
  "config_table s tb \<longleftrightarrow> store_ok s \<and> table_of s ''storage_providers'' = Some tb \<and> tb_triggers tb = [] \<and>
     distinct (map (\<lambda>r. cell r ''id'') (tb_rows tb)) \<and>
     (\<exists>k\<in>set (tb_columns tb). co_name k = ''config'' \<and> co_type k = Jsonb) \<and>
     (\<forall>ix\<in>set (tb_indexes tb). ''config'' \<notin> index_uses ix) \<and>
     (\<forall>ck\<in>set (tb_checks tb). ''config'' \<notin> {ck_if ck, ck_then ck}) \<and>
     (\<forall>fk\<in>set (tb_foreign tb). fk_column fk \<noteq> ''config'')"

lemma config_rows_distinct: "config_table s tb \<Longrightarrow> distinct (tb_rows tb)"
  by (simp add: config_table_def distinct_map)

definition with_rows :: "store \<Rightarrow> pg_table \<Rightarrow> row list \<Rightarrow> store" where
  "with_rows s tb rows = put_table ''storage_providers'' (tb\<lparr>tb_rows := rows\<rparr>) s"

lemma with_rows_again: "with_rows (with_rows s tb rows) (tb\<lparr>tb_rows := rows\<rparr>) rows' = with_rows s tb rows'"
  by (auto simp: with_rows_def put_table_def split_beta)

lemma with_rows_same: "distinct (map fst (st_tables s)) \<Longrightarrow> table_of s ''storage_providers'' = Some tb \<Longrightarrow> with_rows s tb (tb_rows tb) = s"
proof -
  assume a: "distinct (map fst (st_tables s))" "table_of s ''storage_providers'' = Some tb"
  have "x = tb" if "(''storage_providers'', x) \<in> set (st_tables s)" for x
    using that a by (simp add: table_of_def)
  then have "map (\<lambda>(n, x). if n = ''storage_providers'' then (n, tb) else (n, x)) (st_tables s) = st_tables s"
    by (intro map_idI) auto
  then show ?thesis by (simp add: with_rows_def put_table_def)
qed

lemma config_rows_ok:
  assumes "config_table s tb" "list_all2 (\<lambda>q q'. q' = q \<or> (\<exists>v. q' = set_cell (''config'', Pg_Json v) q)) (tb_rows tb) rows"
  shows "config_table (with_rows s tb rows) (tb\<lparr>tb_rows := rows\<rparr>)"
proof -
  let ?tb = "tb\<lparr>tb_rows := rows\<rparr>"
  have ok: "store_ok s" "table_of s ''storage_providers'' = Some tb" using assms(1) by (simp_all add: config_table_def)
  have t: "table_ok tb" by (rule store_ok_table [OF ok])
  obtain k where k: "k \<in> set (tb_columns tb)" "co_name k = ''config''" "co_type k = Jsonb"
    using assms(1) by (auto simp: config_table_def)
  have fit: "fits c (Pg_Json v)" if "c \<in> set (tb_columns tb)" "co_name c = ''config''" for c v
  proof -
    have "c = k" using t k that by (auto simp: table_ok_def dest: distinct_map_inj)
    then show ?thesis using k by (simp add: fits_def)
  qed
  have a: "list_all2 (agree (- {''config''})) (tb_rows tb) rows"
    by (rule list_all2_mono [OF assms(2)]) (auto simp: agree_def cell_set_cell split: if_splits)
  have "list_all (row_ok (tb_columns tb)) rows"
    unfolding list_all_length
  proof (intro allI impI)
    fix n assume n: "n < length rows"
    then have "row_ok (tb_columns tb) (tb_rows tb ! n)"
      using t list_all2_lengthD [OF assms(2)] by (simp add: table_ok_def list_all_length)
    moreover have "rows ! n = tb_rows tb ! n \<or> (\<exists>v. rows ! n = set_cell (''config'', Pg_Json v) (tb_rows tb ! n))"
      using list_all2_nthD2 [OF assms(2) n] .
    ultimately show "row_ok (tb_columns tb) (rows ! n)" using row_ok_set_cell fit by metis
  qed
  moreover have "index_ok ix rows = index_ok ix (tb_rows tb)" if "ix \<in> set (tb_indexes tb)" for ix
    using assms(1) that by (intro index_ok_agree [OF a]) (auto simp: config_table_def)
  moreover have "check_ok ck rows = check_ok ck (tb_rows tb)" if "ck \<in> set (tb_checks tb)" for ck
    using assms(1) that by (intro check_ok_agree [OF a]) (auto simp: config_table_def)
  ultimately have "table_ok ?tb" using t by (simp add: table_ok_def list_all_iff)
  moreover have "list_all2 (agree (- {''config''})) (tb_rows tb) (tb_rows ?tb)" using a by simp
  ultimately have "store_ok (with_rows s tb rows)"
    unfolding with_rows_def using assms(1) by (intro agree_put_ok [OF ok]) (auto simp: config_table_def)
  moreover have "map (\<lambda>r. cell r ''id'') rows = map (\<lambda>r. cell r ''id'') (tb_rows tb)"
    using a by (induction rule: list_all2_induct) (auto simp: agree_def)
  ultimately show ?thesis using assms(1) by (simp add: config_table_def with_rows_def)
qed

lemma config_written:
  assumes "config_table s tb"
  shows "write_step env (set_config r v) s =
    Inr (with_rows s tb (map (\<lambda>q. if cell q ''id'' = cell r ''id'' then set_cell (''config'', Pg_Json v) q else q) (tb_rows tb)))"
proof -
  let ?rows = "map (\<lambda>q. if cell q ''id'' = cell r ''id'' then set_cell (''config'', Pg_Json v) q else q) (tb_rows tb)"
  have "config_table (with_rows s tb ?rows) (tb\<lparr>tb_rows := ?rows\<rparr>)"
    by (rule config_rows_ok [OF assms]) (auto simp: list_all2_map2 list_all2_same)
  then have "table_ok (tb\<lparr>tb_rows := ?rows\<rparr>)" "links_ok (with_rows s tb ?rows)"
    using store_ok_table by (auto simp: config_table_def store_ok_def)
  then show ?thesis
    using assms by (simp add: set_config_def write_rows_def with_rows_def config_table_def touched_def Let_def cong: if_cong)
qed

lemma configs_written:
  assumes "config_table s tb" "set rs \<subseteq> set (tb_rows tb)" "distinct rs"
  shows "run_all (write_step env) (map (\<lambda>r. set_config r (g r)) rs) s =
    Inr (with_rows s tb (map (\<lambda>q. if q \<in> set rs then set_cell (''config'', Pg_Json (g q)) q else q) (tb_rows tb)))"
  using assms
proof (induction rs arbitrary: s tb)
  case Nil
  then show ?case using with_rows_same [of s tb] by (simp add: config_table_def store_ok_def)
next
  case (Cons r rs)
  let ?w = "\<lambda>q. set_cell (''config'', Pg_Json (g q)) q"
  let ?rows = "map (\<lambda>q. if cell q ''id'' = cell r ''id'' then set_cell (''config'', Pg_Json (g r)) q else q) (tb_rows tb)"
  have ids: "q = r'" if "q \<in> set (tb_rows tb)" "r' \<in> set (tb_rows tb)" "cell q ''id'' = cell r' ''id''" for q r'
    using Cons.prems(1) that by (auto simp: config_table_def dest: distinct_map_inj)
  have only: "?rows = map (\<lambda>q. if q = r then ?w q else q) (tb_rows tb)"
    using ids Cons.prems(2) by (intro map_cong) auto
  have ok: "config_table (with_rows s tb ?rows) (tb\<lparr>tb_rows := ?rows\<rparr>)"
    by (rule config_rows_ok [OF Cons.prems(1)]) (auto simp: list_all2_map2 list_all2_same)
  have sub: "set rs \<subseteq> set (tb_rows (tb\<lparr>tb_rows := ?rows\<rparr>))" "distinct rs"
    using Cons.prems(2,3) unfolding only by auto
  have id: "cell (?w r) ''id'' = cell r ''id''" by (simp add: cell_set_cell)
  have w: "?w r \<notin> set rs"
  proof
    assume m: "?w r \<in> set rs"
    then have "?w r = r" using id ids Cons.prems(2) by force
    then show False using m Cons.prems(3) by simp
  qed
  have "(if (if q = r then ?w q else q) \<in> set rs then ?w (if q = r then ?w q else q) else if q = r then ?w q else q) =
      (if q \<in> set (r # rs) then ?w q else q)" for q
    using w by (cases "q = r") simp_all
  then have rows: "map (\<lambda>q. if q \<in> set rs then ?w q else q) ?rows = map (\<lambda>q. if q \<in> set (r # rs) then ?w q else q) (tb_rows tb)"
    unfolding only map_map comp_def by (simp only:)
  have "run_all (write_step env) (map (\<lambda>r. set_config r (g r)) (r # rs)) s =
      run_all (write_step env) (map (\<lambda>r. set_config r (g r)) rs) (with_rows s tb ?rows)"
    using config_written [OF Cons.prems(1)] by simp
  moreover have "tb_rows (tb\<lparr>tb_rows := ?rows\<rparr>) = ?rows" by simp
  ultimately show ?case using Cons.IH [OF ok sub] by (simp only: with_rows_again rows)
qed

text \<open>A row whose configuration is a plain object of its own, as JSON has it.\<close>

definition plain_provider :: "row \<Rightarrow> bool" where
  "plain_provider r \<longleftrightarrow>
     (\<exists>ps. cell r ''config'' = Pg_Json (JObj ps) \<and> flat_props ps \<and> JUndef \<notin> snd ` set ps \<and>
        is_encrypted (JObj ps) = None \<and> js_prop ps ''configSource'' \<noteq> JStr ''environment'')"

definition config_of :: "row \<Rightarrow> jsval" where
  "config_of r = (case cell r ''config'' of Pg_Json v \<Rightarrow> v | _ \<Rightarrow> JNull)"

lemma is_encrypted_envelope [simp]: "is_encrypted (encrypt_config vt v) = Some (vt_encrypt vt v)"
  by (simp add: is_encrypted_def encrypt_config_def js_prop_def envelope_key_def)

lemma encrypted_object: "\<exists>ps. encrypt_config vt v = JObj ps"
  by (simp add: encrypt_config_def)

lemma json_props_defined: "JUndef \<notin> snd ` set ps \<Longrightarrow> json_props ps = ps"
  unfolding json_props_def by (rule filter_True) force

lemma decrypt_encrypted:
  "vault_ok vt \<Longrightarrow> flat_props ps \<Longrightarrow> JUndef \<notin> snd ` set ps \<Longrightarrow> decrypt_config vt (encrypt_config vt (JObj ps)) = Inr (JObj ps)"
  by (simp add: decrypt_config_def vault_ok_def json_props_defined)

lemma encrypt_rows_plain:
  "\<forall>r\<in>set rs. plain_provider r \<Longrightarrow>
     encrypt_rows vt parse_url env_get rs = Inr (map (\<lambda>r. set_config r (encrypt_config vt (config_of r))) rs)"
  by (induction rs) (auto simp: plain_provider_def config_of_def parse_config_def plain_config_def config_props_def)

lemma encrypt_rows_encrypted:
  "\<forall>r\<in>set rs. \<exists>v. cell r ''config'' = Pg_Json (encrypt_config vt v) \<Longrightarrow> encrypt_rows vt parse_url env_get rs = Inr []"
proof (induction rs)
  case (Cons r rs)
  then obtain v where v: "cell r ''config'' = Pg_Json (encrypt_config vt v)" by auto
  obtain ps where "encrypt_config vt v = JObj ps" using encrypted_object by blast
  then have "parse_config vt (cell r ''config'') = Inr (encrypt_config vt v)" by (simp add: v parse_config_def)
  then show ?case using Cons by simp
qed simp

lemma decrypt_rows_encrypted:
  assumes "vault_ok vt" "\<forall>r\<in>set rs. \<exists>ps. cell r ''config'' = Pg_Json (encrypt_config vt (JObj ps)) \<and> flat_props ps \<and> JUndef \<notin> snd ` set ps"
  shows "decrypt_rows vt rs = Inr (map (\<lambda>r. set_config r (projr (decrypt_config vt (config_of r)))) rs)"
  using assms(2)
proof (induction rs)
  case (Cons r rs)
  then obtain ps where v: "cell r ''config'' = Pg_Json (encrypt_config vt (JObj ps))" "flat_props ps" "JUndef \<notin> snd ` set ps" by auto
  obtain qs where "encrypt_config vt (JObj ps) = JObj qs" using encrypted_object by blast
  then have "parse_config vt (cell r ''config'') = Inr (encrypt_config vt (JObj ps))" by (simp add: v parse_config_def)
  then show ?case using Cons by (simp add: v config_of_def decrypt_encrypted [OF assms(1) v(2,3)])
qed simp

text \<open>
  C33. Encrypting the configurations succeeds on every table of providers with plain configurations, leaves
  none of them readable without the key, is harmless when it runs again, and rolling it back gives the
  database that was there.
\<close>

theorem encryption_migration_roundtrip:
  assumes "vault_ok vt" "config_table s tb" "\<forall>r\<in>set (tb_rows tb). plain_provider r"
  shows "\<exists>s1. run_migration env (\<lambda>_ _. Inr (encrypt_configs_up vt parse_url env_get)) s = Inr s1 \<and> store_ok s1 \<and>
     (\<forall>r\<in>set (rows_of s1 ''storage_providers''). is_encrypted (config_of r) \<noteq> None) \<and>
     run_migration env (\<lambda>_ _. Inr (encrypt_configs_up vt parse_url env_get)) s1 = Inr s1 \<and>
     run_migration env (\<lambda>_ _. Inr (encrypt_configs_down vt)) s1 = Inr s"
proof -
  let ?rows = "tb_rows tb" and ?g = "\<lambda>r. encrypt_config vt (config_of r)" and ?h = "\<lambda>r. projr (decrypt_config vt (config_of r))"
  let ?rows1 = "map (\<lambda>q. set_cell (''config'', Pg_Json (?g q)) q) ?rows"
  let ?s1 = "with_rows s tb ?rows1"
  have ok: "store_ok s" "table_of s ''storage_providers'' = Some tb" using assms(2) by (simp_all add: config_table_def)
  have t: "table_ok tb" by (rule store_ok_table [OF ok])
  have rows: "rows_of s ''storage_providers'' = ?rows" "rows_of ?s1 ''storage_providers'' = ?rows1"
    by (simp_all add: rows_of_def ok(2) with_rows_def)
  have d: "distinct ?rows" by (rule config_rows_distinct [OF assms(2)])
  have ok1: "config_table ?s1 (tb\<lparr>tb_rows := ?rows1\<rparr>)"
    by (rule config_rows_ok [OF assms(2)]) (auto simp: list_all2_map2 list_all2_same)
  have d1: "distinct ?rows1" using config_rows_distinct [OF ok1] by simp
  have names: "distinct (map fst q)" "''config'' \<in> fst ` set q" if "q \<in> set ?rows" for q
  proof -
    have q: "row_ok (tb_columns tb) q" using t that by (simp add: table_ok_def list_all_iff)
    then show "distinct (map fst q)" using t row_ok_names [OF q] by (simp add: table_ok_def)
    obtain k where "k \<in> set (tb_columns tb)" "co_name k = ''config''" using assms(2) by (auto simp: config_table_def)
    then show "''config'' \<in> fst ` set q" using row_ok_dom [OF q] by (metis imageI)
  qed
  have c1: "cell (set_cell (''config'', Pg_Json (?g q)) q) ''config'' = Pg_Json (?g q)" if "q \<in> set ?rows" for q
    using names(2) [OF that] by (simp add: cell_set_cell)
  have up: "run_migration env (\<lambda>_ _. Inr (encrypt_configs_up vt parse_url env_get)) s = Inr ?s1"
    using configs_written [OF assms(2) subset_refl d, of env ?g] encrypt_rows_plain [OF assms(3)]
    by (simp add: run_migration_def encrypt_configs_up_def rows cong: map_cong)
  have again: "run_migration env (\<lambda>_ _. Inr (encrypt_configs_up vt parse_url env_get)) ?s1 = Inr ?s1"
  proof -
    have "\<forall>r\<in>set ?rows1. \<exists>v. cell r ''config'' = Pg_Json (encrypt_config vt v)" using c1 by auto
    then show ?thesis by (simp add: run_migration_def encrypt_configs_up_def rows encrypt_rows_encrypted)
  qed
  have plain: "\<exists>ps. config_of q = JObj ps \<and> cell q ''config'' = Pg_Json (JObj ps) \<and> flat_props ps \<and> JUndef \<notin> snd ` set ps"
    if "q \<in> set ?rows" for q
    using assms(3) that by (auto simp: plain_provider_def config_of_def)
  have "\<forall>r\<in>set ?rows1. \<exists>ps. cell r ''config'' = Pg_Json (encrypt_config vt (JObj ps)) \<and> flat_props ps \<and> JUndef \<notin> snd ` set ps"
    using c1 plain by fastforce
  then have dec: "decrypt_rows vt ?rows1 = Inr (map (\<lambda>r. set_config r (?h r)) ?rows1)"
    by (rule decrypt_rows_encrypted [OF assms(1)])
  have restored: "set_cell (''config'', Pg_Json (?h (set_cell (''config'', Pg_Json (?g q)) q))) (set_cell (''config'', Pg_Json (?g q)) q) = q"
    if q: "q \<in> set ?rows" for q
  proof -
    obtain ps where ps: "config_of q = JObj ps" "cell q ''config'' = Pg_Json (JObj ps)" "flat_props ps" "JUndef \<notin> snd ` set ps"
      using plain [OF q] by blast
    have "?h (set_cell (''config'', Pg_Json (?g q)) q) = JObj ps"
      using c1 [OF q] by (simp add: config_of_def [of "set_cell x q" for x] ps(1) decrypt_encrypted [OF assms(1) ps(3,4)])
    then show ?thesis using set_cell_same [OF names(1) [OF q] ps(2)] by (simp add: set_cell_twice)
  qed
  have "run_all (write_step env) (map (\<lambda>r. set_config r (?h r)) ?rows1) ?s1 =
      Inr (with_rows ?s1 (tb\<lparr>tb_rows := ?rows1\<rparr>) (map (\<lambda>q. if q \<in> set ?rows1 then set_cell (''config'', Pg_Json (?h q)) q else q) ?rows1))"
    using configs_written [OF ok1 _ d1, of env ?h] by simp
  also have "map (\<lambda>q. if q \<in> set ?rows1 then set_cell (''config'', Pg_Json (?h q)) q else q) ?rows1 = ?rows"
    using restored by (simp add: map_idI)
  also have "with_rows ?s1 (tb\<lparr>tb_rows := ?rows1\<rparr>) ?rows = s"
    using with_rows_same [of s tb] ok by (simp add: with_rows_again store_ok_def)
  finally have down: "run_migration env (\<lambda>_ _. Inr (encrypt_configs_down vt)) ?s1 = Inr s"
    using dec by (simp add: run_migration_def encrypt_configs_down_def rows)
  have "\<forall>r\<in>set ?rows1. is_encrypted (config_of r) \<noteq> None"
    using c1 by (auto simp: config_of_def [of "set_cell x q" for x q])
  then show ?thesis using up again down ok1 rows(2) by (auto simp: config_table_def)
qed

section \<open>Concrete runs\<close>

definition data_env :: migration_env where
  "data_env = \<lparr> me_now = 7, me_gen_uuid = (\<lambda>n. dec n), me_random_uuid = ''p1'' \<rparr>"

text \<open>A database with two versions before the products, and one with a plain provider.\<close>

definition version_store :: store where
  "version_store =
     (let col = (\<lambda>n ty. \<lparr> co_name = n, co_type = ty, co_not_null = True, co_default = None \<rparr>) in
      \<lparr> st_tables =
          [(''versions'', new_table\<lparr>tb_columns := [col ''id'' Uuid, col ''major'' Integer, col ''minor'' Integer,
                col ''patch'' Integer, col ''is_active'' Boolean],
              tb_indexes := [\<lparr> ix_name = ''unique_m_m_p'', ix_kind = Unique_Constraint,
                ix_columns = [''major'', ''minor'', ''patch''], ix_where = [] \<rparr>],
              tb_rows := [[(''id'', Pg_Uuid ''v1''), (''major'', Pg_Int 1), (''minor'', Pg_Int 0), (''patch'', Pg_Int 0), (''is_active'', Pg_Bool True)],
                [(''id'', Pg_Uuid ''v2''), (''major'', Pg_Int 1), (''minor'', Pg_Int 1), (''patch'', Pg_Int 0), (''is_active'', Pg_Bool True)]]\<rparr>),
           (''settings'', new_table\<lparr>tb_columns := [col ''key'' (Varchar 255), col ''value'' (Varchar 255)],
              tb_rows := [[(''key'', Pg_Text ''appName''), (''value'', Pg_Text '' My App '')]]\<rparr>)],
         st_functions = [] \<rparr>)"

definition plain_store :: store where
  "plain_store =
     \<lparr> st_tables = [(''storage_providers'', new_table\<lparr>
          tb_columns := [\<lparr> co_name = ''id'', co_type = Uuid, co_not_null = True, co_default = None \<rparr>,
            \<lparr> co_name = ''config'', co_type = Jsonb, co_not_null = True, co_default = None \<rparr>],
          tb_rows := [[(''id'', Pg_Uuid ''sp1''), (''config'', Pg_Json (JObj [(''driver'', JStr ''local''), (''root'', JStr ''/data'')]))]]\<rparr>)],
       st_functions = [] \<rparr>"

lemma products_migration_witness:
  "\<exists>s'. run_migration data_env (\<lambda>env s. Inr (add_products_up env s)) version_store = Inr s' \<and> store_ok s' \<and>
     map (\<lambda>r. cell r ''name'') (rows_of s' ''software'') = [Pg_Text ''My App'']"
proof -
  have "case run_migration data_env (\<lambda>env s. Inr (add_products_up env s)) version_store of Inl _ \<Rightarrow> False | Inr _ \<Rightarrow> True"
    by code_simp
  then obtain s' where s': "run_migration data_env (\<lambda>env s. Inr (add_products_up env s)) version_store = Inr s'"
    by (auto split: sum.splits)
  obtain tb where tb: "table_of version_store ''versions'' = Some tb" "tb_triggers tb = []"
    by (simp add: version_store_def Let_def table_of_def new_table_def)
  have ok: "store_ok version_store" by code_simp
  have "cell (default_product_row data_env version_store) ''name'' = Pg_Text ''My App''" by code_simp
  then show ?thesis using products_migration [OF ok s' tb] s' by simp
qed

lemma encryption_migration_roundtrip_witness:
  "\<exists>s1. run_migration data_env (\<lambda>_ _. Inr (encrypt_configs_up toy_vault toy_url (\<lambda>_. JUndef))) plain_store = Inr s1 \<and>
     s1 \<noteq> plain_store \<and> run_migration data_env (\<lambda>_ _. Inr (encrypt_configs_down toy_vault)) s1 = Inr plain_store"
proof -
  have ok: "store_ok plain_store" by code_simp
  obtain tb where tb: "table_of plain_store ''storage_providers'' = Some tb" "tb_triggers tb = []" "tb_indexes tb = []"
      "tb_checks tb = []" "tb_foreign tb = []"
    and rows: "tb_rows tb = [[(''id'', Pg_Uuid ''sp1''), (''config'', Pg_Json (JObj [(''driver'', JStr ''local''), (''root'', JStr ''/data'')]))]]"
    and cols: "\<exists>k\<in>set (tb_columns tb). co_name k = ''config'' \<and> co_type k = Jsonb"
    by (simp add: plain_store_def table_of_def new_table_def)
  have "config_table plain_store tb" using ok tb cols by (simp add: config_table_def rows)
  moreover have p: "\<forall>r\<in>set (tb_rows tb). plain_provider r"
    by (simp add: rows plain_provider_def cell_def flat_props_def flat_value_def is_encrypted_def js_prop_def)
  ultimately obtain s1 where s1: "run_migration data_env (\<lambda>_ _. Inr (encrypt_configs_up toy_vault toy_url (\<lambda>_. JUndef))) plain_store = Inr s1"
    "\<forall>r\<in>set (rows_of s1 ''storage_providers''). is_encrypted (config_of r) \<noteq> None"
    "run_migration data_env (\<lambda>_ _. Inr (encrypt_configs_down toy_vault)) s1 = Inr plain_store"
    using encryption_migration_roundtrip [OF toy_vault_ok] by metis
  have "\<exists>r\<in>set (rows_of plain_store ''storage_providers''). is_encrypted (config_of r) = None"
    by (simp add: rows_of_def tb(1) rows config_of_def cell_def is_encrypted_def js_prop_def)
  then show ?thesis using s1 by metis
qed

end
