(* ===== verification/Migration_Safety.thy ===== *)
theory Migration_Safety
  imports Migration_Audit Migration_Data License_Service Account_Service
begin

text \<open>
  What the migrations guarantee for the services: the constraints that \<open>Schema\<close> states are those of the
  tables the migrations leave, every database reached by migrating keeps its types, and each migration but
  two is undone by its rollback.
\<close>

section \<open>Rows of the services as rows of PostgreSQL\<close>

definition nullable_cell :: "('a \<Rightarrow> pg_value) \<Rightarrow> 'a option \<Rightarrow> pg_value" where
  "nullable_cell f v = (case v of None \<Rightarrow> Pg_Null | Some x \<Rightarrow> f x)"

definition software_cells :: "software_row \<Rightarrow> row" where
  "software_cells r =
     [(''id'', Pg_Uuid (sw_id r)), (''name'', Pg_Text (sw_name r)), (''slug'', Pg_Text (sw_slug r)),
      (''is_active'', Pg_Bool (sw_is_active r)), (''is_default'', Pg_Bool (sw_is_default r)),
      (''created_at'', Pg_Time (sw_created_at r)), (''require_signed_updates'', Pg_Bool (sw_require_signed r))]"

definition signing_key_cells :: "signing_key_row \<Rightarrow> row" where
  "signing_key_cells r =
     [(''id'', Pg_Uuid (sk_id r)), (''software_id'', Pg_Uuid (sk_software_id r)), (''key_id'', Pg_Text (sk_key_id r)),
      (''public_key'', Pg_Text (sk_public_key r)), (''is_active'', Pg_Bool (sk_is_active r)),
      (''created_at'', Pg_Time (sk_created_at r))]"

definition version_cells :: "version_row \<Rightarrow> row" where
  "version_cells r =
     [(''id'', Pg_Uuid (ver_id r)), (''codename'', nullable_cell Pg_Text (ver_codename r)),
      (''major'', Pg_Int (ver_major r)), (''minor'', Pg_Int (ver_minor r)), (''patch'', Pg_Int (ver_patch r)),
      (''changelog'', nullable_cell Pg_Text (ver_changelog r)), (''is_active'', Pg_Bool (ver_is_active r)),
      (''created_at'', Pg_Time (ver_created_at r)), (''deleted_at'', nullable_cell Pg_Time (ver_deleted_at r)),
      (''software_id'', Pg_Uuid (ver_software_id r))]"

definition artifact_cells :: "artifact_row \<Rightarrow> row" where
  "artifact_cells r =
     [(''id'', Pg_Uuid (art_id r)), (''version_id'', Pg_Uuid (art_version_id r)),
      (''platform_id'', Pg_Uuid (art_platform_id r)), (''architecture_id'', Pg_Uuid (art_architecture_id r)),
      (''storage_provider_id'', Pg_Uuid (art_provider_id r)), (''file_name'', Pg_Text (art_file_name r)),
      (''mime_type'', nullable_cell Pg_Text (art_mime_type r)), (''size_bytes'', nullable_cell Pg_Int (art_size_bytes r)),
      (''checksum'', nullable_cell Pg_Text (art_checksum r)), (''storage_key'', Pg_Text (art_storage_key r)),
      (''download_count'', Pg_Int (int (art_download_count r))), (''is_archived'', Pg_Bool (art_is_archived r)),
      (''created_at'', Pg_Time (art_created_at r)), (''channel'', Pg_Text (art_channel r)),
      (''is_published'', Pg_Bool (art_is_published r)), (''published_at'', nullable_cell Pg_Time (art_published_at r)),
      (''checksum_md5'', nullable_cell Pg_Text (art_md5 r)), (''checksum_sha1'', nullable_cell Pg_Text (art_sha1 r)),
      (''checksum_sha256'', nullable_cell Pg_Text (art_sha256 r)), (''checksum_sha512'', nullable_cell Pg_Text (art_sha512 r)),
      (''deleted_at'', nullable_cell Pg_Time (art_deleted_at r)), (''signature'', nullable_cell Pg_Text (art_signature r)),
      (''signature_key_id'', nullable_cell Pg_Text (art_signature_key_id r))]"

definition provider_cells :: "provider_row \<Rightarrow> row" where
  "provider_cells r =
     [(''id'', Pg_Uuid (sp_id r)), (''name'', Pg_Text (sp_name r)), (''type'', Pg_Text (sp_type r)),
      (''config'', Pg_Json (sp_config r)), (''is_default'', Pg_Bool (sp_is_default r)),
      (''created_at'', Pg_Time (sp_created_at r)), (''is_active'', Pg_Bool (sp_is_active r)),
      (''quota_bytes'', nullable_cell Pg_Int (sp_quota_bytes r)), (''deleted_at'', nullable_cell Pg_Time (sp_deleted_at r))]"

definition platform_cells :: "platform_row \<Rightarrow> row" where
  "platform_cells r =
     [(''id'', Pg_Uuid (plat_id r)), (''name'', Pg_Text (plat_name r)), (''display_name'', Pg_Text (plat_display_name r)),
      (''deleted_at'', nullable_cell Pg_Time (plat_deleted_at r))]"

definition architecture_cells :: "architecture_row \<Rightarrow> row" where
  "architecture_cells r =
     [(''id'', Pg_Uuid (arch_id r)), (''name'', Pg_Text (arch_name r)), (''display_name'', Pg_Text (arch_display_name r)),
      (''deleted_at'', nullable_cell Pg_Time (arch_deleted_at r))]"

definition setting_cells :: "setting_row \<Rightarrow> row" where
  "setting_cells r =
     [(''id'', Pg_Text (st_id r)), (''key'', Pg_Text (st_key r)), (''value'', nullable_cell Pg_Text (st_value r)),
      (''deleted_at'', nullable_cell Pg_Time (st_deleted_at r))]"

definition license_cells :: "license_row \<Rightarrow> row" where
  "license_cells r =
     [(''id'', Pg_Uuid (lic_id r)), (''license_key'', Pg_Text (lic_license_key r)),
      (''product_name'', Pg_Text (lic_product_name r)), (''customer_name'', nullable_cell Pg_Text (lic_customer_name r)),
      (''customer_email'', nullable_cell Pg_Text (lic_customer_email r)), (''status'', Pg_Text (lic_status r)),
      (''expires_at'', nullable_cell Pg_Time (lic_expires_at r)), (''revoked_at'', nullable_cell Pg_Time (lic_revoked_at r)),
      (''created_at'', Pg_Time (lic_created_at r)), (''deleted_at'', nullable_cell Pg_Time (lic_deleted_at r)),
      (''max_activations'', Pg_Int (lic_max_activations r)), (''activation_count'', Pg_Int (lic_activation_count r))]"

definition activation_cells :: "activation_row \<Rightarrow> row" where
  "activation_cells r =
     [(''id'', Pg_Uuid (la_id r)), (''license_id'', Pg_Uuid (la_license_id r)),
      (''machine_id'', Pg_Text (la_machine_id r)), (''created_at'', Pg_Time (la_created_at r))]"

definition user_cells :: "user_row \<Rightarrow> row" where
  "user_cells r =
     [(''id'', Pg_Uuid (us_id r)), (''email'', Pg_Text (us_email r)), (''password_hash'', Pg_Text (us_password_hash r)),
      (''created_at'', Pg_Time (us_created_at r)), (''full_name'', nullable_cell Pg_Text (us_full_name r)),
      (''is_root'', Pg_Bool (us_is_root r)), (''deleted_at'', nullable_cell Pg_Time (us_deleted_at r)),
      (''is_active'', Pg_Bool (us_is_active r)), (''theme'', Pg_Text (us_theme r)),
      (''accent_color'', Pg_Int (us_accent_color r)), (''auth_version'', Pg_Int (us_auth_version r))]"

definition reset_token_cells :: "reset_token_row \<Rightarrow> row" where
  "reset_token_cells r =
     [(''id'', Pg_Int (int (rt_id r))), (''email'', Pg_Text (rt_email r)), (''token'', Pg_Text (rt_token r)),
      (''expires_at'', Pg_Time (rt_expires_at r))]"

definition rate_limit_cells :: "rate_limit_row \<Rightarrow> row" where
  "rate_limit_cells r =
     [(''key'', Pg_Text (rl_key r)), (''attempts'', Pg_Int (int (rl_attempts r))),
      (''window_ends_at'', Pg_Time (rl_window_ends_at r))]"

definition reservation_cells :: "reservation_row \<Rightarrow> row" where
  "reservation_cells r =
     [(''id'', Pg_Uuid (rv_id r)), (''storage_provider_id'', Pg_Uuid (rv_provider_id r)),
      (''size_bytes'', Pg_Int (rv_size_bytes r)), (''expires_at'', Pg_Time (rv_expires_at r)),
      (''created_at'', Pg_Time (rv_created_at r))]"

lemmas cells_defs = software_cells_def signing_key_cells_def version_cells_def artifact_cells_def provider_cells_def
  platform_cells_def architecture_cells_def setting_cells_def license_cells_def activation_cells_def user_cells_def
  reset_token_cells_def rate_limit_cells_def reservation_cells_def

definition stored_rows :: "db \<Rightarrow> (string \<times> row list) list" where
  "stored_rows d =
     [(''software'', map software_cells (software d)), (''software_signing_keys'', map signing_key_cells (signing_keys d)),
      (''versions'', map version_cells (versions d)), (''artifacts'', map artifact_cells (artifacts d)),
      (''storage_providers'', map provider_cells (providers d)), (''platforms'', map platform_cells (platforms d)),
      (''architectures'', map architecture_cells (architectures d)), (''settings'', map setting_cells (settings d)),
      (''licenses'', map license_cells (licenses d)), (''license_activations'', map activation_cells (activations d)),
      (''users'', map user_cells (users d)), (''password_reset_tokens'', map reset_token_cells (reset_tokens d)),
      (''auth_rate_limits'', map rate_limit_cells (rate_limits d)),
      (''storage_upload_reservations'', map reservation_cells (reservations d))]"

lemma software_key_cells [simp]:
  "cell (software_cells r) ''id'' = Pg_Uuid (sw_id r)"
  "cell (software_cells r) ''slug'' = Pg_Text (sw_slug r)"
  "cell (software_cells r) ''is_default'' = Pg_Bool (sw_is_default r)"
  "cell (software_cells r) ''is_active'' = Pg_Bool (sw_is_active r)"
  by (simp_all add: software_cells_def cell_def)

lemma provider_key_cells [simp]:
  "cell (provider_cells r) ''id'' = Pg_Uuid (sp_id r)"
  "cell (provider_cells r) ''is_default'' = Pg_Bool (sp_is_default r)"
  "cell (provider_cells r) ''deleted_at'' = nullable_cell Pg_Time (sp_deleted_at r)"
  by (simp_all add: provider_cells_def cell_def)

lemma signing_key_key_cells [simp]:
  "cell (signing_key_cells r) ''id'' = Pg_Uuid (sk_id r)"
  "cell (signing_key_cells r) ''key_id'' = Pg_Text (sk_key_id r)"
  by (simp_all add: signing_key_cells_def cell_def)

lemma version_key_cells [simp]:
  "cell (version_cells r) ''id'' = Pg_Uuid (ver_id r)"
  "cell (version_cells r) ''software_id'' = Pg_Uuid (ver_software_id r)"
  "cell (version_cells r) ''major'' = Pg_Int (ver_major r)"
  "cell (version_cells r) ''minor'' = Pg_Int (ver_minor r)"
  "cell (version_cells r) ''patch'' = Pg_Int (ver_patch r)"
  by (simp_all add: version_cells_def cell_def)

lemma artifact_key_cells [simp]:
  "cell (artifact_cells r) ''id'' = Pg_Uuid (art_id r)"
  "cell (artifact_cells r) ''version_id'' = Pg_Uuid (art_version_id r)"
  "cell (artifact_cells r) ''platform_id'' = Pg_Uuid (art_platform_id r)"
  "cell (artifact_cells r) ''architecture_id'' = Pg_Uuid (art_architecture_id r)"
  "cell (artifact_cells r) ''channel'' = Pg_Text (art_channel r)"
  by (simp_all add: artifact_cells_def cell_def)

lemma platform_key_cells [simp]:
  "cell (platform_cells r) ''id'' = Pg_Uuid (plat_id r)"
  "cell (platform_cells r) ''name'' = Pg_Text (plat_name r)"
  by (simp_all add: platform_cells_def cell_def)

lemma architecture_key_cells [simp]:
  "cell (architecture_cells r) ''id'' = Pg_Uuid (arch_id r)"
  "cell (architecture_cells r) ''name'' = Pg_Text (arch_name r)"
  by (simp_all add: architecture_cells_def cell_def)

lemma setting_key_cells [simp]:
  "cell (setting_cells r) ''id'' = Pg_Text (st_id r)"
  "cell (setting_cells r) ''key'' = Pg_Text (st_key r)"
  by (simp_all add: setting_cells_def cell_def)

lemma license_key_cells [simp]:
  "cell (license_cells r) ''id'' = Pg_Uuid (lic_id r)"
  "cell (license_cells r) ''license_key'' = Pg_Text (lic_license_key r)"
  by (simp_all add: license_cells_def cell_def)

lemma activation_key_cells [simp]:
  "cell (activation_cells r) ''id'' = Pg_Uuid (la_id r)"
  by (simp_all add: activation_cells_def cell_def)

lemma user_key_cells [simp]:
  "cell (user_cells r) ''id'' = Pg_Uuid (us_id r)"
  "cell (user_cells r) ''email'' = Pg_Text (us_email r)"
  by (simp_all add: user_cells_def cell_def)

lemma reset_token_key_cells [simp]:
  "cell (reset_token_cells r) ''id'' = Pg_Int (int (rt_id r))"
  "cell (reset_token_cells r) ''token'' = Pg_Text (rt_token r)"
  by (simp_all add: reset_token_cells_def cell_def)

lemma rate_limit_key_cells [simp]:
  "cell (rate_limit_cells r) ''key'' = Pg_Text (rl_key r)"
  by (simp_all add: rate_limit_cells_def cell_def)

lemma reservation_key_cells [simp]:
  "cell (reservation_cells r) ''id'' = Pg_Uuid (rv_id r)"
  by (simp_all add: reservation_cells_def cell_def)

text \<open>What PostgreSQL enforces on the rows of a table.\<close>

definition enforced :: "store \<Rightarrow> string \<Rightarrow> row list \<Rightarrow> bool" where
  "enforced s t rows \<longleftrightarrow>
     (case table_of s t of
        None \<Rightarrow> False
      | Some tb \<Rightarrow> list_all (\<lambda>ix. index_ok ix rows) (tb_indexes tb) \<and> list_all (\<lambda>ck. check_ok ck rows) (tb_checks tb))"

section \<open>Unique indexes\<close>

lemma index_ok_unique_on:
  assumes "\<And>r. row_matches (ix_where ix) (cells r) \<longleftrightarrow> key r \<noteq> None"
    and "\<And>r k. key r = Some k \<Longrightarrow> map (cell (cells r)) (ix_columns ix) = g k"
    and "\<And>k. Pg_Null \<notin> set (g k)" "inj g" "ix_kind ix \<noteq> Plain_Index"
  shows "index_ok ix (map cells rs) \<longleftrightarrow> unique_on key rs"
proof -
  have n: "Pg_Null \<notin> cell (cells r) ` set (ix_columns ix)" if "key r = Some k" for r k
    using assms(2) [OF that] assms(3) [of k] by (metis list.set_map)
  have "filter (\<lambda>k. Pg_Null \<notin> set k) (map (\<lambda>r. map (cell r) (ix_columns ix)) (filter (row_matches (ix_where ix)) (map cells rs))) =
      map g (List.map_filter key rs)"
    using assms(1,2) n by (induction rs) (auto simp: map_filter_simps split: option.splits)
  then show ?thesis
    using assms(4,5) inj_on_subset [OF assms(4)] by (simp add: index_ok_def unique_on_def distinct_map)
qed

text \<open>Only the shape of a table matters for what it enforces.\<close>

definition shape_enforced :: "table_shape \<Rightarrow> row list \<Rightarrow> bool" where
  "shape_enforced sh rows \<longleftrightarrow>
     (case sh of (cs, ixs, cks) \<Rightarrow>
        list_all (\<lambda>(k, xs, ps). index_ok \<lparr> ix_name = [], ix_kind = k, ix_columns = xs, ix_where = ps \<rparr> rows) ixs \<and>
        list_all (\<lambda>(a, b). check_ok \<lparr> ck_name = [], ck_if = a, ck_then = b \<rparr> rows) cks)"

lemma enforced_shape: "enforced s t rows \<longleftrightarrow> (case map_of (shapes s) t of None \<Rightarrow> False | Some sh \<Rightarrow> shape_enforced sh rows)"
proof -
  have m: "map_of (shapes s) t = map_option shape_of (table_of s t)"
    unfolding shapes_def table_of_def by (simp add: map_of_map)
  have i: "index_ok \<lparr> ix_name = [], ix_kind = ix_kind ix, ix_columns = ix_columns ix, ix_where = ix_where ix \<rparr> rows = index_ok ix rows" for ix
    by (simp add: index_ok_def)
  have p: "ix_kind ix = Plain_Index \<Longrightarrow> index_ok ix rows" for ix by (simp add: index_ok_def)
  have c: "check_ok \<lparr> ck_name = [], ck_if = ck_if ck, ck_then = ck_then ck \<rparr> rows = check_ok ck rows" for ck
    by (simp add: check_ok_def)
  show ?thesis
    using p by (auto simp: enforced_def m shape_enforced_def shape_of_def list_all_iff i c split: option.splits)
qed

section \<open>The constraints of the services\<close>

lemma distinct_cells [simp]:
  "distinct (map (\<lambda>r. [Pg_Uuid (f r)]) rs) = distinct (map f rs)"
  "distinct (map (\<lambda>r. [Pg_Text (f r)]) rs) = distinct (map f rs)"
  "distinct (map (\<lambda>r. [Pg_Int (int (n r))]) rs) = distinct (map n rs)"
  "distinct (map (\<lambda>r. [Pg_Uuid (f r), Pg_Int (a r), Pg_Int (b r), Pg_Int (c r)]) rs) = distinct (map (\<lambda>r. (f r, a r, b r, c r)) rs)"
  "distinct (map (\<lambda>r. [Pg_Uuid (f r), Pg_Uuid (g r), Pg_Uuid (h r), Pg_Text (k r)]) rs) = distinct (map (\<lambda>r. (f r, g r, h r, k r)) rs)"
  by (induction rs) auto

text \<open>The unique indexes and checks of the installed tables.\<close>

lemma installed_constraints:
  "map_option snd (map_of installed_shapes ''software'') =
     Some ([(Primary_Key, [''id''], []), (Unique_Constraint, [''slug''], []), (Unique_Index, [''is_default''], [(''is_default'', Pg_Bool True)])], [(''is_default'', ''is_active'')])"
  "map_option snd (map_of installed_shapes ''storage_providers'') =
     Some ([(Primary_Key, [''id''], []), (Unique_Index, [''is_default''], [(''is_default'', Pg_Bool True), (''deleted_at'', Pg_Null)])], [])"
  "map_option snd (map_of installed_shapes ''software_signing_keys'') =
     Some ([(Primary_Key, [''id''], []), (Unique_Constraint, [''key_id''], [])], [])"
  "map_option snd (map_of installed_shapes ''versions'') =
     Some ([(Primary_Key, [''id''], []), (Unique_Constraint, [''software_id'', ''major'', ''minor'', ''patch''], [])], [])"
  "map_option snd (map_of installed_shapes ''artifacts'') =
     Some ([(Primary_Key, [''id''], []), (Unique_Constraint, [''version_id'', ''platform_id'', ''architecture_id'', ''channel''], [])], [])"
  "map_option snd (map_of installed_shapes ''platforms'') =
     Some ([(Primary_Key, [''id''], []), (Unique_Constraint, [''name''], [])], [])"
  "map_option snd (map_of installed_shapes ''architectures'') =
     Some ([(Primary_Key, [''id''], []), (Unique_Constraint, [''name''], [])], [])"
  "map_option snd (map_of installed_shapes ''settings'') =
     Some ([(Primary_Key, [''id''], []), (Unique_Constraint, [''key''], [])], [])"
  "map_option snd (map_of installed_shapes ''licenses'') =
     Some ([(Primary_Key, [''id''], []), (Unique_Constraint, [''license_key''], [])], [])"
  "map_option snd (map_of installed_shapes ''license_activations'') =
     Some ([(Primary_Key, [''id''], [])], [])"
  "map_option snd (map_of installed_shapes ''users'') =
     Some ([(Primary_Key, [''id''], []), (Unique_Constraint, [''email''], [])], [])"
  "map_option snd (map_of installed_shapes ''password_reset_tokens'') =
     Some ([(Primary_Key, [''id''], []), (Unique_Constraint, [''token''], [])], [])"
  "map_option snd (map_of installed_shapes ''auth_rate_limits'') =
     Some ([(Primary_Key, [''key''], [])], [])"
  "map_option snd (map_of installed_shapes ''storage_upload_reservations'') =
     Some ([(Primary_Key, [''id''], [])], [])"
  by code_simp+

lemma installed_rows:
  "map_option snd (map_of installed_shapes t) = Some (ixs, cks) \<Longrightarrow>
     enforced (installed env vt parse_url env_get) t rows \<longleftrightarrow>
       list_all (\<lambda>(k, xs, ps). index_ok \<lparr> ix_name = [], ix_kind = k, ix_columns = xs, ix_where = ps \<rparr> rows) ixs \<and>
       list_all (\<lambda>(a, b). check_ok \<lparr> ck_name = [], ck_if = a, ck_then = b \<rparr> rows) cks"
  by (auto simp: enforced_shape installation(3) shape_enforced_def split: option.splits)

lemmas index_simps = index_ok_def row_matches_def filter_map comp_def unique_on_total

lemma one_default_index:
  assumes "\<And>r. row_matches ps (cells r) = P r" "\<And>r. P r \<Longrightarrow> cell (cells r) ''is_default'' = Pg_Bool True"
  shows "index_ok \<lparr> ix_name = [], ix_kind = Unique_Index, ix_columns = [''is_default''], ix_where = ps \<rparr> (map cells rs) =
     unique_on (\<lambda>r. if P r then Some () else None) rs"
  by (rule index_ok_unique_on [where g = "\<lambda>_. [Pg_Bool True]"]) (use assms in \<open>auto simp: inj_def split: if_splits\<close>)

lemma enforced_software:
  "enforced (installed env vt parse_url env_get) ''software'' (map software_cells rs) = satisfies software_constraints rs"
proof -
  have "index_ok \<lparr> ix_name = [], ix_kind = Unique_Index, ix_columns = [''is_default''], ix_where = [(''is_default'', Pg_Bool True)] \<rparr>
      (map software_cells rs) = unique_on (\<lambda>r. if sw_is_default r then Some () else None) rs"
    by (rule one_default_index) (simp_all add: row_matches_def)
  moreover have "check_ok \<lparr> ck_name = [], ck_if = ''is_default'', ck_then = ''is_active'' \<rparr> (map software_cells rs) =
      list_all (\<lambda>r. \<not> sw_is_default r \<or> sw_is_active r) rs"
    by (auto simp: check_ok_def list_all_iff)
  ultimately show ?thesis
    by (simp add: installed_rows [OF installed_constraints(1)] software_constraints_def)
      (simp add: index_simps)
qed

lemma enforced_provider:
  "enforced (installed env vt parse_url env_get) ''storage_providers'' (map provider_cells rs) = satisfies provider_constraints rs"
proof -
  have "index_ok \<lparr> ix_name = [], ix_kind = Unique_Index, ix_columns = [''is_default''],
        ix_where = [(''is_default'', Pg_Bool True), (''deleted_at'', Pg_Null)] \<rparr> (map provider_cells rs) =
      unique_on (\<lambda>r. if sp_is_default r \<and> sp_deleted_at r = None then Some () else None) rs"
    by (rule one_default_index) (auto simp: row_matches_def nullable_cell_def split: option.splits)
  then show ?thesis
    by (simp add: installed_rows [OF installed_constraints(2)] provider_constraints_def)
      (simp add: index_simps)
qed

lemma enforced_signing_key:
  "enforced (installed env vt parse_url env_get) ''software_signing_keys'' (map signing_key_cells rs) = satisfies signing_key_constraints rs"
  by (simp add: installed_rows [OF installed_constraints(3)] index_simps signing_key_constraints_def)

lemma enforced_version:
  "enforced (installed env vt parse_url env_get) ''versions'' (map version_cells rs) = satisfies version_constraints rs"
  by (simp add: installed_rows [OF installed_constraints(4)] index_simps version_constraints_def)

lemma enforced_artifact:
  "enforced (installed env vt parse_url env_get) ''artifacts'' (map artifact_cells rs) = satisfies artifact_constraints rs"
  by (simp add: installed_rows [OF installed_constraints(5)] index_simps artifact_constraints_def)

lemma enforced_platform:
  "enforced (installed env vt parse_url env_get) ''platforms'' (map platform_cells rs) = satisfies platform_constraints rs"
  by (simp add: installed_rows [OF installed_constraints(6)] index_simps platform_constraints_def)

lemma enforced_architecture:
  "enforced (installed env vt parse_url env_get) ''architectures'' (map architecture_cells rs) = satisfies architecture_constraints rs"
  by (simp add: installed_rows [OF installed_constraints(7)] index_simps architecture_constraints_def)

lemma enforced_setting:
  "enforced (installed env vt parse_url env_get) ''settings'' (map setting_cells rs) = satisfies setting_constraints rs"
  by (simp add: installed_rows [OF installed_constraints(8)] index_simps setting_constraints_def)

lemma enforced_license:
  "enforced (installed env vt parse_url env_get) ''licenses'' (map license_cells rs) = satisfies license_constraints rs"
  by (simp add: installed_rows [OF installed_constraints(9)] index_simps license_constraints_def)

lemma enforced_activation:
  "enforced (installed env vt parse_url env_get) ''license_activations'' (map activation_cells rs) = satisfies activation_constraints rs"
  by (simp add: installed_rows [OF installed_constraints(10)] index_simps activation_constraints_def)

lemma enforced_user:
  "enforced (installed env vt parse_url env_get) ''users'' (map user_cells rs) = satisfies user_constraints rs"
  by (simp add: installed_rows [OF installed_constraints(11)] index_simps user_constraints_def)

lemma enforced_reset_token:
  "enforced (installed env vt parse_url env_get) ''password_reset_tokens'' (map reset_token_cells rs) = satisfies reset_token_constraints rs"
  by (simp add: installed_rows [OF installed_constraints(12)] index_simps reset_token_constraints_def)

lemma enforced_rate_limit:
  "enforced (installed env vt parse_url env_get) ''auth_rate_limits'' (map rate_limit_cells rs) = satisfies rate_limit_constraints rs"
  by (simp add: installed_rows [OF installed_constraints(13)] index_simps rate_limit_constraints_def)

lemma enforced_reservation:
  "enforced (installed env vt parse_url env_get) ''storage_upload_reservations'' (map reservation_cells rs) = satisfies reservation_constraints rs"
  by (simp add: installed_rows [OF installed_constraints(14)] index_simps reservation_constraints_def)

lemmas enforced_tables = enforced_software enforced_provider enforced_signing_key enforced_version enforced_artifact enforced_platform enforced_architecture enforced_setting enforced_license enforced_activation enforced_user enforced_reset_token enforced_rate_limit enforced_reservation

section \<open>Columns\<close>

text \<open>A value of the type of a column, whatever its length or size, and one that fits the column.\<close>

fun same_kind :: "pg_type \<Rightarrow> pg_value \<Rightarrow> bool" where
  "same_kind (Varchar n) (Pg_Text s) = True"
| "same_kind Integer (Pg_Int i) = True"
| "same_kind Serial (Pg_Int i) = True"
| "same_kind Big_Integer (Pg_Int i) = True"
| "same_kind ty v = has_type ty v"

definition column_of :: "string \<Rightarrow> string \<Rightarrow> (pg_type \<times> bool) option" where
  "column_of t n = (case map_of installed_shapes t of None \<Rightarrow> None | Some (cs, ixs, cks) \<Rightarrow> map_of cs n)"

definition cell_has :: "(pg_type \<Rightarrow> pg_value \<Rightarrow> bool) \<Rightarrow> string \<Rightarrow> string \<times> pg_value \<Rightarrow> bool" where
  "cell_has P t x =
     (case column_of t (fst x) of
        None \<Rightarrow> False
      | Some (ty, required) \<Rightarrow> if snd x = Pg_Null then \<not> required else P ty (snd x))"

lemma software_columns [simp]:
  "column_of ''software'' ''id'' = Some (Uuid, True)"
  "column_of ''software'' ''name'' = Some (Varchar 120, True)"
  "column_of ''software'' ''slug'' = Some (Varchar 80, True)"
  "column_of ''software'' ''is_active'' = Some (Boolean, True)"
  "column_of ''software'' ''is_default'' = Some (Boolean, True)"
  "column_of ''software'' ''created_at'' = Some (Timestamp, True)"
  "column_of ''software'' ''require_signed_updates'' = Some (Boolean, True)"
  by code_simp+

lemma signing_key_columns [simp]:
  "column_of ''software_signing_keys'' ''id'' = Some (Uuid, True)"
  "column_of ''software_signing_keys'' ''software_id'' = Some (Uuid, True)"
  "column_of ''software_signing_keys'' ''key_id'' = Some (Varchar 64, True)"
  "column_of ''software_signing_keys'' ''public_key'' = Some (Text, True)"
  "column_of ''software_signing_keys'' ''is_active'' = Some (Boolean, True)"
  "column_of ''software_signing_keys'' ''created_at'' = Some (Timestamp, True)"
  by code_simp+

lemma version_columns [simp]:
  "column_of ''versions'' ''id'' = Some (Uuid, True)"
  "column_of ''versions'' ''codename'' = Some (Varchar 100, False)"
  "column_of ''versions'' ''major'' = Some (Integer, True)"
  "column_of ''versions'' ''minor'' = Some (Integer, True)"
  "column_of ''versions'' ''patch'' = Some (Integer, True)"
  "column_of ''versions'' ''changelog'' = Some (Text, False)"
  "column_of ''versions'' ''is_active'' = Some (Boolean, True)"
  "column_of ''versions'' ''created_at'' = Some (Timestamp, True)"
  "column_of ''versions'' ''deleted_at'' = Some (Timestamp, False)"
  "column_of ''versions'' ''software_id'' = Some (Uuid, True)"
  by code_simp+

lemma artifact_columns [simp]:
  "column_of ''artifacts'' ''id'' = Some (Uuid, True)"
  "column_of ''artifacts'' ''version_id'' = Some (Uuid, True)"
  "column_of ''artifacts'' ''platform_id'' = Some (Uuid, True)"
  "column_of ''artifacts'' ''architecture_id'' = Some (Uuid, True)"
  "column_of ''artifacts'' ''storage_provider_id'' = Some (Uuid, True)"
  "column_of ''artifacts'' ''file_name'' = Some (Varchar 255, True)"
  "column_of ''artifacts'' ''mime_type'' = Some (Varchar 100, False)"
  "column_of ''artifacts'' ''size_bytes'' = Some (Big_Integer, False)"
  "column_of ''artifacts'' ''checksum'' = Some (Varchar 128, False)"
  "column_of ''artifacts'' ''storage_key'' = Some (Varchar 500, True)"
  "column_of ''artifacts'' ''download_count'' = Some (Integer, True)"
  "column_of ''artifacts'' ''is_archived'' = Some (Boolean, True)"
  "column_of ''artifacts'' ''created_at'' = Some (Timestamp, True)"
  "column_of ''artifacts'' ''channel'' = Some (Varchar 255, True)"
  "column_of ''artifacts'' ''is_published'' = Some (Boolean, True)"
  "column_of ''artifacts'' ''published_at'' = Some (Timestamp, False)"
  "column_of ''artifacts'' ''checksum_md5'' = Some (Varchar 32, False)"
  "column_of ''artifacts'' ''checksum_sha1'' = Some (Varchar 40, False)"
  "column_of ''artifacts'' ''checksum_sha256'' = Some (Varchar 64, False)"
  "column_of ''artifacts'' ''checksum_sha512'' = Some (Varchar 128, False)"
  "column_of ''artifacts'' ''deleted_at'' = Some (Timestamp, False)"
  "column_of ''artifacts'' ''signature'' = Some (Text, False)"
  "column_of ''artifacts'' ''signature_key_id'' = Some (Varchar 64, False)"
  by code_simp+

lemma provider_columns [simp]:
  "column_of ''storage_providers'' ''id'' = Some (Uuid, True)"
  "column_of ''storage_providers'' ''name'' = Some (Varchar 100, True)"
  "column_of ''storage_providers'' ''type'' = Some (Varchar 50, True)"
  "column_of ''storage_providers'' ''config'' = Some (Jsonb, True)"
  "column_of ''storage_providers'' ''is_default'' = Some (Boolean, True)"
  "column_of ''storage_providers'' ''created_at'' = Some (Timestamp, True)"
  "column_of ''storage_providers'' ''is_active'' = Some (Boolean, True)"
  "column_of ''storage_providers'' ''quota_bytes'' = Some (Big_Integer, False)"
  "column_of ''storage_providers'' ''deleted_at'' = Some (Timestamp, False)"
  by code_simp+

lemma platform_columns [simp]:
  "column_of ''platforms'' ''id'' = Some (Uuid, True)"
  "column_of ''platforms'' ''name'' = Some (Varchar 50, True)"
  "column_of ''platforms'' ''display_name'' = Some (Varchar 100, True)"
  "column_of ''platforms'' ''deleted_at'' = Some (Timestamp, False)"
  by code_simp+

lemma architecture_columns [simp]:
  "column_of ''architectures'' ''id'' = Some (Uuid, True)"
  "column_of ''architectures'' ''name'' = Some (Varchar 50, True)"
  "column_of ''architectures'' ''display_name'' = Some (Varchar 100, True)"
  "column_of ''architectures'' ''deleted_at'' = Some (Timestamp, False)"
  by code_simp+

lemma setting_columns [simp]:
  "column_of ''settings'' ''id'' = Some (Varchar 255, True)"
  "column_of ''settings'' ''key'' = Some (Varchar 255, True)"
  "column_of ''settings'' ''value'' = Some (Varchar 255, False)"
  "column_of ''settings'' ''deleted_at'' = Some (Timestamp, False)"
  by code_simp+

lemma license_columns [simp]:
  "column_of ''licenses'' ''id'' = Some (Uuid, True)"
  "column_of ''licenses'' ''license_key'' = Some (Varchar 255, True)"
  "column_of ''licenses'' ''product_name'' = Some (Varchar 255, True)"
  "column_of ''licenses'' ''customer_name'' = Some (Varchar 255, False)"
  "column_of ''licenses'' ''customer_email'' = Some (Varchar 255, False)"
  "column_of ''licenses'' ''status'' = Some (Varchar 50, True)"
  "column_of ''licenses'' ''expires_at'' = Some (Timestamp, False)"
  "column_of ''licenses'' ''revoked_at'' = Some (Timestamp, False)"
  "column_of ''licenses'' ''created_at'' = Some (Timestamp, True)"
  "column_of ''licenses'' ''deleted_at'' = Some (Timestamp, False)"
  "column_of ''licenses'' ''max_activations'' = Some (Integer, True)"
  "column_of ''licenses'' ''activation_count'' = Some (Integer, True)"
  by code_simp+

lemma activation_columns [simp]:
  "column_of ''license_activations'' ''id'' = Some (Uuid, True)"
  "column_of ''license_activations'' ''license_id'' = Some (Uuid, False)"
  "column_of ''license_activations'' ''machine_id'' = Some (Varchar 255, True)"
  "column_of ''license_activations'' ''created_at'' = Some (Timestamp, True)"
  by code_simp+

lemma user_columns [simp]:
  "column_of ''users'' ''id'' = Some (Uuid, True)"
  "column_of ''users'' ''email'' = Some (Varchar 255, True)"
  "column_of ''users'' ''password_hash'' = Some (Varchar 255, True)"
  "column_of ''users'' ''created_at'' = Some (Timestamp, True)"
  "column_of ''users'' ''full_name'' = Some (Varchar 255, False)"
  "column_of ''users'' ''is_root'' = Some (Boolean, True)"
  "column_of ''users'' ''deleted_at'' = Some (Timestamp, False)"
  "column_of ''users'' ''is_active'' = Some (Boolean, True)"
  "column_of ''users'' ''theme'' = Some (Varchar 10, False)"
  "column_of ''users'' ''accent_color'' = Some (Integer, False)"
  "column_of ''users'' ''auth_version'' = Some (Integer, True)"
  by code_simp+

lemma reset_token_columns [simp]:
  "column_of ''password_reset_tokens'' ''id'' = Some (Serial, True)"
  "column_of ''password_reset_tokens'' ''email'' = Some (Varchar 255, True)"
  "column_of ''password_reset_tokens'' ''token'' = Some (Varchar 255, True)"
  "column_of ''password_reset_tokens'' ''expires_at'' = Some (Timestamp, True)"
  by code_simp+

lemma rate_limit_columns [simp]:
  "column_of ''auth_rate_limits'' ''key'' = Some (Varchar 64, True)"
  "column_of ''auth_rate_limits'' ''attempts'' = Some (Integer, True)"
  "column_of ''auth_rate_limits'' ''window_ends_at'' = Some (Timestamp, True)"
  by code_simp+

lemma reservation_columns [simp]:
  "column_of ''storage_upload_reservations'' ''id'' = Some (Uuid, True)"
  "column_of ''storage_upload_reservations'' ''storage_provider_id'' = Some (Uuid, True)"
  "column_of ''storage_upload_reservations'' ''size_bytes'' = Some (Big_Integer, True)"
  "column_of ''storage_upload_reservations'' ''expires_at'' = Some (Timestamp, True)"
  "column_of ''storage_upload_reservations'' ''created_at'' = Some (Timestamp, True)"
  by code_simp+

lemma nullable_cell_has [simp]:
  "column_of t n = Some (ty, False) \<Longrightarrow> cell_has P t (n, nullable_cell f v) \<longleftrightarrow> (case v of None \<Rightarrow> True | Some x \<Rightarrow> f x = Pg_Null \<or> P ty (f x))"
  by (simp add: cell_has_def nullable_cell_def split: option.splits)

lemma required_cell_has [simp]:
  "column_of t n = Some (ty, True) \<Longrightarrow> v \<noteq> Pg_Null \<Longrightarrow> cell_has P t (n, v) \<longleftrightarrow> P ty v"
  "column_of t n = Some (ty, False) \<Longrightarrow> v \<noteq> Pg_Null \<Longrightarrow> cell_has P t (n, v) \<longleftrightarrow> P ty v"
  by (simp_all add: cell_has_def)

lemma kinds:
  "list_all (cell_has same_kind ''software'') (software_cells r0)"
  "list_all (cell_has same_kind ''software_signing_keys'') (signing_key_cells r1)"
  "list_all (cell_has same_kind ''versions'') (version_cells r2)"
  "list_all (cell_has same_kind ''artifacts'') (artifact_cells r3)"
  "list_all (cell_has same_kind ''storage_providers'') (provider_cells r4)"
  "list_all (cell_has same_kind ''platforms'') (platform_cells r5)"
  "list_all (cell_has same_kind ''architectures'') (architecture_cells r6)"
  "list_all (cell_has same_kind ''settings'') (setting_cells r7)"
  "list_all (cell_has same_kind ''licenses'') (license_cells r8)"
  "list_all (cell_has same_kind ''license_activations'') (activation_cells r9)"
  "list_all (cell_has same_kind ''users'') (user_cells r10)"
  "list_all (cell_has same_kind ''password_reset_tokens'') (reset_token_cells r11)"
  "list_all (cell_has same_kind ''auth_rate_limits'') (rate_limit_cells r12)"
  "list_all (cell_has same_kind ''storage_upload_reservations'') (reservation_cells r13)"
  by (simp_all add: cells_defs split: option.splits)

definition row_has :: "(pg_type \<Rightarrow> pg_value \<Rightarrow> bool) \<Rightarrow> string \<Rightarrow> row \<Rightarrow> bool" where
  "row_has P t r = list_all (cell_has P t) r"

section \<open>Rows that are created\<close>

lemma software_row_fits:
  assumes "create_software nfkd now i v d = Inr (r, d')" "length (software d) + 2 < 10 ^ 79"
  shows "row_has has_type ''software'' (software_cells r)"
proof -
  obtain name where n: "software_name v = Inr name" "sw_name r = name"
    and slug: "allocate_slug (length (software d) + 2) (map sw_slug (software d)) (create_safe_slug nfkd name) 1 = Some (sw_slug r)"
    using assms(1) by (auto simp: create_software_def res_simps Let_def simp del: allocate_slug.simps)
  have "length (sw_slug r) \<le> 80"
    using allocate_slug_good [of "map sw_slug (software d)" nfkd name] assms(2) slug by auto
  moreover have "length name \<le> 120" using n(1) by (auto simp: software_name_def res_simps Let_def)
  ultimately show ?thesis by (simp add: row_has_def software_cells_def n(2))
qed

lemma version_row_fits:
  assumes "create_version lib iso_day now i data d = Inr (v, d')"
  shows "row_has has_type ''versions'' (version_cells v)"
proof -
  obtain c k where c: "parse_version_parts data = Inr c" "parse_codename (js_prop data ''codename'') = Inr k"
    and v: "ver_major v = major c" "ver_minor v = minor c" "ver_patch v = patch c" "ver_codename v = k" "ver_deleted_at v = None"
    using assms by (auto simp: create_version_def res_simps Let_def split: jsval.splits)
  have "length x \<le> 100" if "k = Some x" for x
    using c(2) that le_trans [OF length_trim_le] by (auto simp: parse_codename_def not_less split: jsval.splits if_splits)
  then show ?thesis using version_parts_bounds [OF c(1)]
    by (auto simp: row_has_def version_cells_def v core_nonneg_def split: option.splits)
qed

lemma user_row_fits:
  assumes "\<And>n p. length (ac_hash account n p) \<le> 255" "create_user account now i salt pw v w d = Inr (x, d')"
  shows "row_has has_type ''users'' (user_cells (last (users d')))"
proof -
  obtain s name where s: "email_format s" "length s \<le> 255" "full_name w = Inr name"
    and u: "users d' = users d @ [\<lparr> us_id = i, us_email = lowercase (trim s), us_full_name = name,
        us_password_hash = ac_hash account salt pw, us_is_active = True, us_is_root = False, us_auth_version = 0,
        us_theme = ''system'', us_accent_color = 0, us_created_at = now, us_deleted_at = None \<rparr>]"
    using assms(2) by (auto simp: create_user_def save_users_def res_simps Let_def split: jsval.splits)
  have "length (lowercase (trim s)) \<le> 255" using s(2) length_trim_le [of s] by (simp add: lowercase_def)
  moreover have "length y \<le> 255" if "name = Some y" for y
    using s(3) that by (auto simp: full_name_def throw_if_def split: jsval.splits if_splits)
  ultimately show ?thesis using assms(1) by (auto simp: row_has_def user_cells_def u split: option.splits)
qed

lemma bind_resE: "bind_res x f = Inr y \<Longrightarrow> (\<And>z. x = Inr z \<Longrightarrow> f z = Inr y \<Longrightarrow> P) \<Longrightarrow> P"
  by (auto simp: bind_res_Inr)

lemma written_bounds:
  "varchar n s = Inr t \<Longrightarrow> length t \<le> n"
  "varchar_null n v = Inr w \<Longrightarrow> \<forall>s. w = Some s \<longrightarrow> length s \<le> n"
  "int4 k = Inr j \<Longrightarrow> - 2147483648 \<le> j \<and> j \<le> 2147483647"
  by (auto simp: varchar_null_def res_simps split: option.splits)

lemma license_row_fits:
  assumes "create_license license now i uuids data d = Inr (r, d')"
  shows "row_has has_type ''licenses'' (license_cells r)"
proof -
  have "length (lic_license_key r) \<le> 255 \<and> length (lic_product_name r) \<le> 255 \<and> length (lic_status r) \<le> 50 \<and>
      (\<forall>s. lic_customer_name r = Some s \<longrightarrow> length s \<le> 255) \<and> (\<forall>s. lic_customer_email r = Some s \<longrightarrow> length s \<le> 255) \<and>
      - 2147483648 \<le> lic_max_activations r \<and> lic_max_activations r \<le> 2147483647 \<and> lic_activation_count r = 0 \<and>
      lic_revoked_at r = None \<and> lic_deleted_at r = None"
    using assms unfolding create_license_def Let_def by (elim bind_resE) (auto dest!: written_bounds)
  then show ?thesis
    by (cases "lic_customer_name r"; cases "lic_customer_email r"; cases "lic_expires_at r")
      (simp_all add: row_has_def license_cells_def)
qed

section \<open>Properties\<close>

text \<open>
  C14. On an empty database all migrations succeed, whatever the clock, the keys and the environment, and the
  tables they leave enforce exactly the constraints the services rely on: a database satisfies \<open>db_ok\<close>
  and the keys of activations and reservations if and only if its rows satisfy every index and check of
  the migrated tables. Every field of a row is a column of its type there, null only where the column
  may be.
\<close>

theorem schema_of_migrations:
  "migrate env (map mg_up (migrations vt parse_url env_get)) empty_store = (installed env vt parse_url env_get, None) \<and>
   (db_ok d \<and> satisfies activation_constraints (activations d) \<and> satisfies reservation_constraints (reservations d) \<longleftrightarrow>
      list_all (\<lambda>(t, rows). enforced (installed env vt parse_url env_get) t rows) (stored_rows d)) \<and>
   list_all (\<lambda>(t, rows). list_all (row_has same_kind t) rows) (stored_rows d)"
  by (simp add: installation(2) stored_rows_def enforced_tables db_ok_def list_all_iff row_has_def kinds [unfolded list_all_iff])
    blast

text \<open>
  Whatever migrations run, forward or back and in any order, on a database with any data: if its rows had
  the declared types and satisfied every unique index, check and reference, they do afterwards, also
  where a migration fails half way.
\<close>

theorem migrations_keep_types:
  assumes "store_ok s" "set ms \<subseteq> mg_up ` set (migrations vt parse_url env_get) \<union> mg_down ` set (migrations vt parse_url env_get)"
  shows "store_ok (fst (migrate env ms s))"
  using assms(1) by (rule migrate_ok)

text \<open>
  C31. Rolling back a migration right after it ran leaves the tables it found, for every migration but two: the
  first, whose function for \<open>updated_at\<close> stays, and the one that drops \<open>version_number\<close>, whose column
  comes back nullable, not unique and at the end.
\<close>

theorem migrations_undone:
  assumes "i < 30" "i \<noteq> 0" "i \<noteq> 6"
  shows "\<exists>s'. run_migration env (mg_up (migrations vt parse_url env_get ! i))
        (fst (migrate env (map mg_up (take i (migrations vt parse_url env_get))) empty_store)) = Inr s' \<and>
     undoes env (migrations vt parse_url env_get ! i)
        (fst (migrate env (map mg_up (take i (migrations vt parse_url env_get))) empty_store)) s'"
proof (rule audit_undoes [OF installation(1)])
  have l: "length (migrations vt parse_url env_get) = 30" by (simp add: migrations_def)
  show "i < length (migrations vt parse_url env_get)" using assms(1) by (simp only: l)
  have n: "map mg_name (migrations vt parse_url env_get) ! j = mg_name (migrations vt parse_url env_get ! j)" if "j < 30" for j
    using that by (simp only: l nth_map)
  have d: "distinct (map mg_name (migrations vt parse_url env_get))" by code_simp
  have at: "map mg_name (migrations vt parse_url env_get) ! 0 = ''1758943358073_create_users_table''"
    "map mg_name (migrations vt parse_url env_get) ! 6 = ''1774806285988_alter_versions_table''"
    by (simp_all add: migrations_def migration.defs)
  have "map mg_name (migrations vt parse_url env_get) ! i \<noteq> map mg_name (migrations vt parse_url env_get) ! j"
    if "j < 30" "i \<noteq> j" for j
    using d assms(1) that by (simp only: nth_eq_iff_index_eq length_map l simp_thms)
  from this [of 0] this [of 6] show "mg_name (migrations vt parse_url env_get ! i)
      \<notin> set [''1758943358073_create_users_table'', ''1774806285988_alter_versions_table'']"
    unfolding at n [OF assms(1)] using assms(2,3) by simp
qed

text \<open>
  Whatever a user of the administration enters, a row that is created fits the columns of its table: no
  text is longer than its column, no number out of range and no required value missing. That the hash
  of a password fits its column is what the hashing is known for, and the table of products is finite.
\<close>

theorem created_rows_fit:
  assumes "\<And>n p. length (ac_hash account n p) \<le> 255" "length (software d) + 2 < 10 ^ 79"
  shows "(create_software nfkd now i v d = Inr (sw, d1) \<longrightarrow> row_has has_type ''software'' (software_cells sw)) \<and>
     (create_version lib iso_day now i data d = Inr (ver, d2) \<longrightarrow> row_has has_type ''versions'' (version_cells ver)) \<and>
     (create_user account now i salt pw v w d = Inr (x, d3) \<longrightarrow> row_has has_type ''users'' (user_cells (last (users d3)))) \<and>
     (create_setting i v w d = Inr (st, d4) \<and> length i \<le> 255 \<longrightarrow> row_has has_type ''settings'' (setting_cells st)) \<and>
     (create_license license now i uuids data d = Inr (lic, d5) \<longrightarrow> row_has has_type ''licenses'' (license_cells lic))"
proof (intro conjI impI)
  assume "create_software nfkd now i v d = Inr (sw, d1)"
  then show "row_has has_type ''software'' (software_cells sw)"
    by (rule software_row_fits) (rule assms(2))
next
  assume "create_version lib iso_day now i data d = Inr (ver, d2)"
  then show "row_has has_type ''versions'' (version_cells ver)"
    by (auto simp: version_row_fits)
next
  assume "create_user account now i salt pw v w d = Inr (x, d3)"
  then show "row_has has_type ''users'' (user_cells (last (users d3)))"
    by (auto simp: user_row_fits [OF assms(1)])
next
  assume "create_setting i v w d = Inr (st, d4) \<and> length i \<le> 255"
  then show "row_has has_type ''settings'' (setting_cells st)"
    by (auto simp: create_setting_def new_setting_def validate_setting_def valid_setting_key_def text_value_def setting_value_def
        res_simps Let_def row_has_def setting_cells_def split: jsval.splits if_splits)
next
  assume "create_license license now i uuids data d = Inr (lic, d5)"
  then show "row_has has_type ''licenses'' (license_cells lic)"
    by (rule license_row_fits)
qed

section \<open>Concrete runs\<close>

definition toy_menv :: migration_env where
  "toy_menv = \<lparr> me_now = 7, me_gen_uuid = (\<lambda>n. dec n), me_random_uuid = ''p1'' \<rparr>"

lemma migrations_keep_types_witness: "store_ok (installed toy_menv toy_vault toy_url (\<lambda>_. JUndef))"
  unfolding installed_def
  by (rule migrations_keep_types [OF empty_store_ok, where vt = toy_vault and parse_url = toy_url and env_get = "\<lambda>_. JUndef"]) auto

lemma migrations_undone_witness:
  "\<exists>s'. undoes toy_menv (migrations toy_vault toy_url (\<lambda>_. JUndef) ! 26)
     (fst (migrate toy_menv (map mg_up (take 26 (migrations toy_vault toy_url (\<lambda>_. JUndef)))) empty_store)) s'"
  using migrations_undone [of 26 toy_menv toy_vault toy_url "\<lambda>_. JUndef"] by fastforce

lemma created_rows_fit_witness:
  "\<exists>r d'. create_software (\<lambda>s. s) 5 ''s2'' (JStr '' App! '') sample_db = Inr (r, d') \<and> row_has has_type ''software'' (software_cells r)"
proof -
  have "case create_software (\<lambda>s. s) 5 ''s2'' (JStr '' App! '') sample_db of Inl _ \<Rightarrow> False | Inr _ \<Rightarrow> True" by code_simp
  then obtain r d' where r: "create_software (\<lambda>s. s) 5 ''s2'' (JStr '' App! '') sample_db = Inr (r, d')"
    by (auto split: sum.splits)
  have "length (ac_hash (toy_account\<lparr>ac_hash := \<lambda>_ _. ''hash''\<rparr>) n p) \<le> 255" for n p by simp
  moreover have "length (software sample_db) + 2 < 10 ^ 79" by (simp add: sample_tables)
  ultimately have "row_has has_type ''software'' (software_cells r)"
    using created_rows_fit [THEN conjunct1, rule_format, OF _ _ r] by blast
  then show ?thesis using r by blast
qed

end
