(* ===== verification/Seeders.thy ===== *)
theory Seeders
  imports Provider_Service Account_Service
begin

text \<open>
  The seeders of \<open>database/seeders\<close>, which run at every start: the platforms and architectures, the
  storage providers and the first administrator.
\<close>

section \<open>Finding or creating a row\<close>

text \<open>\<open>Model.firstOrCreate(search, values)\<close>: the hooks of soft deletes apply to the search.\<close>

definition first_or_create ::
  "(string \<times> ('r list \<Rightarrow> bool)) list \<Rightarrow> ('r \<Rightarrow> int option) \<Rightarrow> ('r \<Rightarrow> bool) \<Rightarrow> 'r \<Rightarrow> 'r list \<Rightarrow> ('r \<times> 'r list) res" where
  "first_or_create cs deleted_at P new tbl =
     (case List.find P (ignore_deleted deleted_at tbl) of
        Some r \<Rightarrow> Inr (r, tbl)
      | None \<Rightarrow> bind_res (checked cs (tbl @ [new])) (\<lambda>t. Inr (new, t)))"

text \<open>What every later seeding relies on: the row is there, the old ones are as they were, and nothing happens again.\<close>

lemma first_or_create_Inr:
  assumes "first_or_create cs del P new tbl = Inr (r, tbl')" "P new" "del new = None"
  shows "r \<in> set tbl' \<and> P r \<and> del r = None \<and> (tbl' = tbl \<or> tbl' = tbl @ [new] \<and> satisfies cs tbl')"
proof (cases "List.find P (ignore_deleted del tbl)")
  case None
  then show ?thesis using assms by (auto simp: first_or_create_def res_simps)
next
  case (Some q)
  then show ?thesis using assms by (auto simp: first_or_create_def row_simps dest!: find_Some_mem)
qed

lemma first_or_create_again:
  assumes "r \<in> set tbl" "P r" "del r = None"
  shows "\<exists>q. first_or_create cs del P new tbl = Inr (q, tbl)"
proof -
  have "List.find P (ignore_deleted del tbl) \<noteq> None"
    using assms by (auto simp: find_None_iff row_simps)
  then show ?thesis by (auto simp: first_or_create_def)
qed

section \<open>Platforms and architectures\<close>

definition seeded_platforms :: "(string \<times> string) list" where
  "seeded_platforms =
     [(''mac'', ''macOS''), (''windows'', ''Windows''), (''linux'', ''Linux''), (''android'', ''Android''),
      (''ubuntu'', ''Ubuntu''), (''debian'', ''Debian''), (''linux_mint'', ''Linux Mint''), (''fedora'', ''Fedora''),
      (''rhel'', ''RHEL''), (''centos'', ''CentOS''), (''opensuse'', ''openSUSE''), (''freebsd'', ''FreeBSD''),
      (''openbsd'', ''OpenBSD'')]"

definition seeded_architectures :: "(string \<times> string) list" where
  "seeded_architectures =
     [(''x86'', ''Intel 32-bit (x86)''), (''x64'', ''Intel 64-bit (x64)''), (''arm64'', ''ARM 64-bit (AArch64)''),
      (''arm32'', ''ARM 32-bit (v7)''), (''riscv64'', ''RISC-V 64-bit'')]"

text \<open>\<open>new_id\<close> gives the \<open>randomUUID()\<close> of a new row.\<close>

fun seed_platform_rows :: "(string \<Rightarrow> string) \<Rightarrow> (string \<times> string) list \<Rightarrow> platform_row list \<Rightarrow> platform_row list res" where
  "seed_platform_rows new_id [] tbl = Inr tbl"
| "seed_platform_rows new_id ((n, display) # ps) tbl =
     bind_res (first_or_create platform_constraints plat_deleted_at (\<lambda>r. plat_name r = n)
         \<lparr> plat_id = new_id n, plat_name = n, plat_display_name = display, plat_deleted_at = None \<rparr> tbl) (\<lambda>(r, tbl').
     seed_platform_rows new_id ps tbl')"

fun seed_architecture_rows :: "(string \<Rightarrow> string) \<Rightarrow> (string \<times> string) list \<Rightarrow> architecture_row list \<Rightarrow> architecture_row list res" where
  "seed_architecture_rows new_id [] tbl = Inr tbl"
| "seed_architecture_rows new_id ((n, display) # ps) tbl =
     bind_res (first_or_create architecture_constraints arch_deleted_at (\<lambda>r. arch_name r = n)
         \<lparr> arch_id = new_id n, arch_name = n, arch_display_name = display, arch_deleted_at = None \<rparr> tbl) (\<lambda>(r, tbl').
     seed_architecture_rows new_id ps tbl')"

definition seed_targets :: "(string \<Rightarrow> string) \<Rightarrow> db \<Rightarrow> db res" where
  "seed_targets new_id d =
     bind_res (seed_platform_rows new_id seeded_platforms (platforms d)) (\<lambda>ps.
     bind_res (seed_architecture_rows new_id seeded_architectures (architectures d)) (\<lambda>hs.
     Inr (d\<lparr>platforms := ps, architectures := hs\<rparr>)))"

section \<open>Storage providers\<close>

definition ten_gigabytes :: int where
  "ten_gigabytes = 10 * 1024 * 1024 * 1024"

definition seeded_provider :: "(string \<Rightarrow> string) \<Rightarrow> int \<Rightarrow> string \<Rightarrow> string \<Rightarrow> props \<Rightarrow> provider_row" where
  "seeded_provider new_id now n ty config =
     \<lparr> sp_id = new_id n, sp_name = n, sp_type = ty, sp_config = JObj config, sp_is_default = False, sp_is_active = False,
       sp_quota_bytes = Some ten_gigabytes, sp_created_at = now, sp_deleted_at = None \<rparr>"

definition make_local_default :: "provider_row \<Rightarrow> provider_row" where
  "make_local_default r = r\<lparr>sp_is_default := True, sp_is_active := True\<rparr>"

text \<open>\<open>path.join(process.cwd(), 'storage', 'uploads')\<close>, \<open>cwd\<close> an absolute path without a slash at its end.\<close>

definition seed_local :: "(string \<Rightarrow> string) \<Rightarrow> int \<Rightarrow> string \<Rightarrow> provider_row list \<Rightarrow> provider_row list res" where
  "seed_local new_id now cwd tbl =
     (let current = List.find sp_is_default (ignore_deleted sp_deleted_at tbl);
          row = (seeded_provider new_id now ''Local Storage'' ''local''
            [(''driver'', JStr ''local''), (''root'', JStr (cwd @ ''/storage/uploads''))])
            \<lparr>sp_is_default := current = None, sp_is_active := True\<rparr>
      in bind_res (first_or_create provider_constraints sp_deleted_at (\<lambda>r. sp_type r = ''local'') row tbl) (\<lambda>(r, tbl').
         if current = None \<and> \<not> sp_is_default r
         then checked provider_constraints (modify_by sp_id (sp_id r) make_local_default tbl')
         else Inr tbl'))"

definition seed_named :: "provider_row \<Rightarrow> provider_row list \<Rightarrow> provider_row list res" where
  "seed_named row tbl =
     bind_res (first_or_create provider_constraints sp_deleted_at (\<lambda>r. sp_name r = sp_name row) row tbl) (\<lambda>(r, tbl'). Inr tbl')"

definition seed_storage :: "(string \<Rightarrow> string) \<Rightarrow> int \<Rightarrow> string \<Rightarrow> db \<Rightarrow> db res" where
  "seed_storage new_id now cwd d =
     bind_res (seed_local new_id now cwd (providers d)) (\<lambda>t1.
     bind_res (seed_named (seeded_provider new_id now ''MinIO Object Storage'' ''self-hosted''
        [(''driver'', JStr ''minio''), (''endpoint'', JStr ''localhost''), (''bucket'', JStr ''reeva-artifacts''),
         (''region'', JStr ''us-east-1''), (''useSSL'', JBool True)]) t1) (\<lambda>t2.
     bind_res (seed_named (seeded_provider new_id now ''Amazon S3'' ''cloud''
        [(''driver'', JStr ''s3''), (''region'', JStr ''us-east-1''), (''bucket'', JStr [])]) t2) (\<lambda>t3.
     bind_res (seed_named (seeded_provider new_id now ''SeaweedFS'' ''self-hosted''
        [(''driver'', JStr ''seaweedfs''), (''endpoint'', JStr ''localhost''), (''port'', JNum (Fin 8333)),
         (''bucket'', JStr ''reeva''), (''useSSL'', JBool False)]) t3) (\<lambda>t4.
     Inr (d\<lparr>providers := t4\<rparr>)))))"

section \<open>The first administrator\<close>

text \<open>
  \<open>ADMIN_EMAIL\<close> and \<open>ADMIN_PASSWORD\<close>, \<^const>\<open>None\<close> where they are not set. A user that is there becomes root;
  only the legacy value \<open>admin\<close> of the password column is replaced.
\<close>

definition promoted :: "account_env \<Rightarrow> nat \<Rightarrow> string \<Rightarrow> user_row \<Rightarrow> user_row" where
  "promoted env salt password u =
     (let r = u\<lparr>us_is_root := True\<rparr>
      in if us_password_hash u = ''admin'' then r\<lparr>us_password_hash := ac_hash env salt password\<rparr> else r)"

definition first_root :: "account_env \<Rightarrow> int \<Rightarrow> nat \<Rightarrow> string \<Rightarrow> string \<Rightarrow> string \<Rightarrow> user_row" where
  "first_root env now salt i email password =
     \<lparr> us_id = i, us_email = email, us_full_name = None, us_password_hash = ac_hash env salt password, us_is_active = True,
       us_is_root = True, us_auth_version = 0, us_theme = ''system'', us_accent_color = 0, us_created_at = now,
       us_deleted_at = None \<rparr>"

definition seed_user :: "account_env \<Rightarrow> int \<Rightarrow> nat \<Rightarrow> string \<Rightarrow> string option \<Rightarrow> string option \<Rightarrow> db \<Rightarrow> db res" where
  "seed_user env now salt i admin_email admin_password d =
     (let email = (case admin_email of None \<Rightarrow> [] | Some e \<Rightarrow> lowercase (trim e));
          password = (case admin_password of None \<Rightarrow> [] | Some p \<Rightarrow> p) in
      if email = [] \<and> password = [] then Inr d
      else throw_if (email = [] \<or> password = [] \<or> length password < 16)
        (Error ''Set ADMIN_EMAIL and an ADMIN_PASSWORD of at least 16 characters before seeding users.'')
        (bind_res (first_or_create user_constraints us_deleted_at (\<lambda>u. us_email u = email)
            (first_root env now salt i email password) (users d)) (\<lambda>(u, tbl).
         if \<not> us_is_root u \<or> us_password_hash u = ''admin''
         then bind_res (checked user_constraints (modify_by us_id (us_id u) (promoted env salt password) tbl)) (\<lambda>t.
           Inr (d\<lparr>users := t\<rparr>))
         else Inr (d\<lparr>users := tbl\<rparr>))))"

definition seed_all ::
  "account_env \<Rightarrow> (string \<Rightarrow> string) \<Rightarrow> int \<Rightarrow> nat \<Rightarrow> string \<Rightarrow> string \<Rightarrow> string option \<Rightarrow> string option \<Rightarrow> db \<Rightarrow> db res" where
  "seed_all env new_id now salt i cwd admin_email admin_password d =
     bind_res (seed_targets new_id d) (\<lambda>d1.
     bind_res (seed_storage new_id now cwd d1) (\<lambda>d2.
     seed_user env now salt i admin_email admin_password d2))"

section \<open>Seeding again\<close>

text \<open>A table from which a list of named rows is seeded.\<close>

locale seeded_table =
  fixes cs :: "(string \<times> ('r list \<Rightarrow> bool)) list"
    and deleted_at :: "'r \<Rightarrow> int option"
    and name_of :: "'r \<Rightarrow> string"
    and new_row :: "string \<Rightarrow> string \<Rightarrow> 'r"
    and seed :: "(string \<times> string) list \<Rightarrow> 'r list \<Rightarrow> 'r list res"
  assumes seed_Nil: "seed [] tbl = Inr tbl"
    and seed_Cons: "seed ((n, x) # ps) tbl =
      bind_res (first_or_create cs deleted_at (\<lambda>r. name_of r = n) (new_row n x) tbl) (\<lambda>(r, t). seed ps t)"
    and new_row_name: "name_of (new_row n x) = n"
    and new_row_live: "deleted_at (new_row n x) = None"
begin

lemma seeded:
  "seed ps tbl = Inr tbl' \<Longrightarrow>
     set tbl \<subseteq> set tbl' \<and> (satisfies cs tbl \<longrightarrow> satisfies cs tbl') \<and>
     (\<forall>n\<in>fst ` set ps. \<exists>r\<in>set tbl'. name_of r = n \<and> deleted_at r = None)"
proof (induction ps arbitrary: tbl)
  case (Cons p ps)
  obtain n x where p: "p = (n, x)" by (cases p)
  then obtain r t where t: "first_or_create cs deleted_at (\<lambda>r. name_of r = n) (new_row n x) tbl = Inr (r, t)" "seed ps t = Inr tbl'"
    using Cons.prems by (auto simp: seed_Cons bind_res_Inr)
  have "r \<in> set t \<and> name_of r = n \<and> deleted_at r = None \<and> (t = tbl \<or> t = tbl @ [new_row n x] \<and> satisfies cs t)"
    using first_or_create_Inr [OF t(1)] new_row_name new_row_live by simp
  then show ?case using Cons.IH [OF t(2)] by (auto simp: p)
qed (simp add: seed_Nil)

lemma seed_again:
  "\<forall>n\<in>fst ` set ps. \<exists>r\<in>set tbl. name_of r = n \<and> deleted_at r = None \<Longrightarrow> seed ps tbl = Inr tbl"
proof (induction ps)
  case (Cons p ps)
  obtain n x where p: "p = (n, x)" by (cases p)
  then obtain r where "r \<in> set tbl" "name_of r = n" "deleted_at r = None" using Cons.prems by auto
  then obtain q where "first_or_create cs deleted_at (\<lambda>r. name_of r = n) (new_row n x) tbl = Inr (q, tbl)"
    using first_or_create_again [of r tbl "\<lambda>r. name_of r = n" deleted_at cs "new_row n x"] by auto
  then show ?case using Cons by (simp add: p seed_Cons)
qed (simp add: seed_Nil)

end

interpretation platform_seeds: seeded_table platform_constraints plat_deleted_at plat_name
  "\<lambda>n x. \<lparr> plat_id = new_id n, plat_name = n, plat_display_name = x, plat_deleted_at = None \<rparr>" "seed_platform_rows new_id"
  by (standard, rule seed_platform_rows.simps, rule seed_platform_rows.simps, simp, simp)

interpretation architecture_seeds: seeded_table architecture_constraints arch_deleted_at arch_name
  "\<lambda>n x. \<lparr> arch_id = new_id n, arch_name = n, arch_display_name = x, arch_deleted_at = None \<rparr>" "seed_architecture_rows new_id"
  by (standard, rule seed_architecture_rows.simps, rule seed_architecture_rows.simps, simp, simp)

text \<open>Seeding with other identifiers is the same once the rows are there.\<close>

lemma seed_targets_again:
  assumes "seed_targets new_id d = Inr d1"
  shows "seed_targets new_id' d1 = Inr d1"
proof -
  obtain ps hs where p: "seed_platform_rows new_id seeded_platforms (platforms d) = Inr ps"
      "seed_architecture_rows new_id seeded_architectures (architectures d) = Inr hs"
    and d1: "d1 = d\<lparr>platforms := ps, architectures := hs\<rparr>"
    using assms by (auto simp: seed_targets_def bind_res_Inr)
  have "seed_platform_rows new_id' seeded_platforms ps = Inr ps"
    by (rule platform_seeds.seed_again) (use platform_seeds.seeded [OF p(1)] in blast)
  moreover have "seed_architecture_rows new_id' seeded_architectures hs = Inr hs"
    by (rule architecture_seeds.seed_again) (use architecture_seeds.seeded [OF p(2)] in blast)
  ultimately show ?thesis by (simp add: seed_targets_def d1)
qed

text \<open>The storage providers: a live default and a live local provider are all that the first step asks for.\<close>

lemma seed_local_Inr:
  assumes "seed_local new_id now cwd tbl = Inr tbl'" "satisfies provider_constraints tbl"
  shows "satisfies provider_constraints tbl' \<and> (\<exists>r\<in>set tbl'. sp_is_default r \<and> sp_deleted_at r = None) \<and>
    (\<exists>r\<in>set tbl'. sp_type r = ''local'' \<and> sp_deleted_at r = None)"
proof -
  define current where "current = List.find sp_is_default (ignore_deleted sp_deleted_at tbl)"
  define row where "row = (seeded_provider new_id now ''Local Storage'' ''local''
     [(''driver'', JStr ''local''), (''root'', JStr (cwd @ ''/storage/uploads''))])
     \<lparr>sp_is_default := current = None, sp_is_active := True\<rparr>"
  obtain r t where foc: "first_or_create provider_constraints sp_deleted_at (\<lambda>r. sp_type r = ''local'') row tbl = Inr (r, t)"
    and rest: "(if current = None \<and> \<not> sp_is_default r
       then checked provider_constraints (modify_by sp_id (sp_id r) make_local_default t) else Inr t) = Inr tbl'"
    using assms(1) by (auto simp: seed_local_def Let_def bind_res_Inr simp flip: current_def row_def)
  have r: "r \<in> set t \<and> sp_type r = ''local'' \<and> sp_deleted_at r = None \<and>
      (t = tbl \<or> t = tbl @ [row] \<and> satisfies provider_constraints t)"
    using first_or_create_Inr [OF foc] by (simp add: row_def seeded_provider_def)
  show ?thesis
  proof (cases "current = None \<and> \<not> sp_is_default r")
    case True
    then have "make_local_default r \<in> set tbl'" "satisfies provider_constraints tbl'"
      using rest r by (auto simp: res_simps mem_modify_by)
    then show ?thesis using r by (auto simp: make_local_default_def intro!: bexI [of _ "make_local_default r"])
  next
    case False
    then have "tbl' = t" using rest by auto
    moreover have "\<exists>q\<in>set t. sp_is_default q \<and> sp_deleted_at q = None"
    proof (cases current)
      case None
      then show ?thesis using False r by auto
    next
      case (Some q)
      then have "q \<in> set tbl \<and> sp_is_default q \<and> sp_deleted_at q = None"
        unfolding current_def by (auto simp: row_simps dest!: find_Some_mem)
      then show ?thesis using r by auto
    qed
    ultimately show ?thesis using r assms(2) by auto
  qed
qed

lemma seed_local_again:
  assumes "\<exists>r\<in>set tbl. sp_is_default r \<and> sp_deleted_at r = None" "\<exists>r\<in>set tbl. sp_type r = ''local'' \<and> sp_deleted_at r = None"
  shows "seed_local new_id now cwd tbl = Inr tbl"
proof -
  have "List.find sp_is_default (ignore_deleted sp_deleted_at tbl) \<noteq> None"
    using assms(1) by (auto simp: find_None_iff row_simps)
  moreover have "\<exists>q. first_or_create provider_constraints sp_deleted_at (\<lambda>r. sp_type r = ''local'') new tbl = Inr (q, tbl)" for new
    using assms(2) by (auto intro: first_or_create_again)
  then obtain q where "first_or_create provider_constraints sp_deleted_at (\<lambda>r. sp_type r = ''local'') new tbl = Inr (q new, tbl)" for new
    by metis
  ultimately show ?thesis by (auto simp: seed_local_def Let_def)
qed

definition has_provider :: "string \<Rightarrow> provider_row list \<Rightarrow> bool" where
  "has_provider n tbl \<longleftrightarrow> list_ex (\<lambda>r. sp_name r = n \<and> sp_deleted_at r = None) tbl"

lemma seed_named_Inr:
  assumes "seed_named row tbl = Inr tbl'" "sp_deleted_at row = None" "satisfies provider_constraints tbl"
  shows "satisfies provider_constraints tbl' \<and> set tbl \<subseteq> set tbl' \<and> has_provider (sp_name row) tbl'"
  using assms by (auto simp: seed_named_def bind_res_Inr has_provider_def list_ex_iff dest!: first_or_create_Inr)

lemma seed_named_again: "has_provider (sp_name row) tbl \<Longrightarrow> seed_named row tbl = Inr tbl"
  using first_or_create_again [of _ tbl "\<lambda>r. sp_name r = sp_name row" sp_deleted_at provider_constraints row]
  by (fastforce simp: seed_named_def has_provider_def list_ex_iff)

lemma has_provider_mono: "set tbl \<subseteq> set tbl' \<Longrightarrow> has_provider n tbl \<Longrightarrow> has_provider n tbl'"
  by (auto simp: has_provider_def list_ex_iff)

definition providers_seeded :: "provider_row list \<Rightarrow> bool" where
  "providers_seeded tbl \<longleftrightarrow> (\<exists>r\<in>set tbl. sp_is_default r \<and> sp_deleted_at r = None) \<and>
     (\<exists>r\<in>set tbl. sp_type r = ''local'' \<and> sp_deleted_at r = None) \<and>
     (\<forall>n\<in>{''MinIO Object Storage'', ''Amazon S3'', ''SeaweedFS''}. has_provider n tbl)"

lemma seeded_provider_simps [simp]:
  "sp_name (seeded_provider new_id now n ty config) = n" "sp_deleted_at (seeded_provider new_id now n ty config) = None"
  by (simp_all add: seeded_provider_def)

lemma seed_storage_Inr:
  assumes "seed_storage new_id now cwd d = Inr d'" "satisfies provider_constraints (providers d)"
  shows "\<exists>t. d' = d\<lparr>providers := t\<rparr> \<and> satisfies provider_constraints t \<and> providers_seeded t"
proof -
  obtain t1 t2 t3 t4 r2 r3 r4 where t1: "seed_local new_id now cwd (providers d) = Inr t1"
    and t2: "seed_named r2 t1 = Inr t2" "sp_name r2 = ''MinIO Object Storage''" "sp_deleted_at r2 = None"
    and t3: "seed_named r3 t2 = Inr t3" "sp_name r3 = ''Amazon S3''" "sp_deleted_at r3 = None"
    and t4: "seed_named r4 t3 = Inr t4" "sp_name r4 = ''SeaweedFS''" "sp_deleted_at r4 = None"
    and d': "d' = d\<lparr>providers := t4\<rparr>"
    using assms(1) by (fastforce simp: seed_storage_def bind_res_Inr)
  note s1 = seed_local_Inr [OF t1 assms(2)]
  note s2 = seed_named_Inr [OF t2(1,3) conjunct1 [OF s1]]
  note s3 = seed_named_Inr [OF t3(1,3) conjunct1 [OF s2]]
  note s4 = seed_named_Inr [OF t4(1,3) conjunct1 [OF s3]]
  have sub: "set t1 \<subseteq> set t4" "set t2 \<subseteq> set t4" "set t3 \<subseteq> set t4" using s2 s3 s4 by auto
  have "has_provider (sp_name r2) t4" "has_provider (sp_name r3) t4" "has_provider (sp_name r4) t4"
    using s2 s3 s4 has_provider_mono [OF sub(2)] has_provider_mono [OF sub(3)] by auto
  moreover have "(\<exists>r\<in>set t4. sp_is_default r \<and> sp_deleted_at r = None) \<and> (\<exists>r\<in>set t4. sp_type r = ''local'' \<and> sp_deleted_at r = None)"
    using s1 sub(1) by blast
  ultimately show ?thesis using s4 t2(2) t3(2) t4(2) by (intro exI [of _ t4]) (simp add: d' providers_seeded_def)
qed

lemma seed_storage_again: "providers_seeded (providers d) \<Longrightarrow> seed_storage new_id now cwd d = Inr d"
  by (simp add: seed_storage_def providers_seeded_def seed_local_again seed_named_again)

text \<open>The first administrator: once a live root with the address has a hashed password, nothing is left to do.\<close>

definition root_seeded :: "string \<Rightarrow> user_row list \<Rightarrow> bool" where
  "root_seeded email tbl \<longleftrightarrow> list_ex (\<lambda>u. us_email u = email \<and> us_deleted_at u = None) tbl \<and>
     list_all (\<lambda>u. us_email u = email \<and> us_deleted_at u = None \<longrightarrow> us_is_root u \<and> us_password_hash u \<noteq> ''admin'') tbl"

lemma unique_email:
  assumes "satisfies user_constraints tbl" "u \<in> set tbl" "v \<in> set tbl" "us_email u = us_email v"
  shows "u = v"
proof -
  have "distinct (map us_email tbl)" using assms(1) by (simp add: user_constraints_def unique_on_total)
  then show ?thesis using assms(2-4) by (auto simp: distinct_map inj_on_def)
qed

lemma root_seededI:
  assumes "satisfies user_constraints tbl" "u \<in> set tbl" "us_email u = email" "us_deleted_at u = None"
    "us_is_root u" "us_password_hash u \<noteq> ''admin''"
  shows "root_seeded email tbl"
  using assms unique_email [OF assms(1)] by (fastforce simp: root_seeded_def list_ex_iff list_all_iff)

lemma seed_user_Inr:
  assumes "seed_user env now salt i (Some e) (Some p) d = Inr d'" "satisfies user_constraints (users d)"
    and hashed: "\<And>s x. ac_hash env s x \<noteq> ''admin''" and given: "p \<noteq> []"
  shows "\<exists>t. d' = d\<lparr>users := t\<rparr> \<and> satisfies user_constraints t \<and> root_seeded (lowercase (trim e)) t \<and> 16 \<le> length p"
proof -
  define email where "email = lowercase (trim e)"
  obtain u tbl where foc: "first_or_create user_constraints us_deleted_at (\<lambda>u. us_email u = email)
      (first_root env now salt i email p) (users d) = Inr (u, tbl)"
    and rest: "(if \<not> us_is_root u \<or> us_password_hash u = ''admin''
      then bind_res (checked user_constraints (modify_by us_id (us_id u) (promoted env salt p) tbl)) (\<lambda>t. Inr (d\<lparr>users := t\<rparr>))
      else Inr (d\<lparr>users := tbl\<rparr>)) = Inr d'" and len: "16 \<le> length p"
    using assms(1) given by (auto simp: seed_user_def Let_def bind_res_Inr throw_if_def simp flip: email_def split: if_splits)
  have u: "u \<in> set tbl" "us_email u = email" "us_deleted_at u = None" and tbl: "satisfies user_constraints tbl"
    using first_or_create_Inr [OF foc] assms(2) by (auto simp: first_root_def)
  show ?thesis
  proof (cases "\<not> us_is_root u \<or> us_password_hash u = ''admin''")
    case True
    then have d': "d' = d\<lparr>users := modify_by us_id (us_id u) (promoted env salt p) tbl\<rparr>"
      and ok: "satisfies user_constraints (modify_by us_id (us_id u) (promoted env salt p) tbl)"
      using rest by (auto simp: res_simps bind_res_Inr)
    have "promoted env salt p u \<in> set (modify_by us_id (us_id u) (promoted env salt p) tbl)"
      using u(1) by (auto simp: mem_modify_by)
    from root_seededI [OF ok this, of email]
    have "root_seeded email (modify_by us_id (us_id u) (promoted env salt p) tbl)"
      using u hashed by (simp add: promoted_def Let_def)
    then show ?thesis using d' ok len by (auto simp: email_def)
  next
    case False
    then show ?thesis using rest u tbl root_seededI [OF tbl u(1)] len by (auto simp: email_def)
  qed
qed

lemma seed_user_again:
  assumes "root_seeded (lowercase (trim e)) (users d)" "lowercase (trim e) \<noteq> []" "16 \<le> length p"
  shows "seed_user env now salt i (Some e) (Some p) d = Inr d"
proof -
  obtain u where "u \<in> set (users d)" "us_email u = lowercase (trim e)" "us_deleted_at u = None"
    using assms(1) by (auto simp: root_seeded_def list_ex_iff)
  then have "List.find (\<lambda>u. us_email u = lowercase (trim e)) (ignore_deleted us_deleted_at (users d)) \<noteq> None"
    by (auto simp: find_None_iff row_simps)
  then obtain q where q: "List.find (\<lambda>u. us_email u = lowercase (trim e)) (ignore_deleted us_deleted_at (users d)) = Some q" by auto
  then have "us_is_root q \<and> us_password_hash q \<noteq> ''admin''"
    using assms(1) by (auto simp: root_seeded_def list_all_iff row_simps dest!: find_Some_mem)
  then show ?thesis using q assms(2,3) by (auto simp: seed_user_def first_or_create_def Let_def throw_if_def)
qed

lemma seed_user_keeps:
  assumes "seed_user env now salt i ae ap d = Inr d'" "satisfies user_constraints (users d)"
    "\<And>s x. ac_hash env s x \<noteq> ''admin''"
  shows "(\<exists>t. d' = d\<lparr>users := t\<rparr> \<and> satisfies user_constraints t) \<and>
    (\<forall>e. ae = Some e \<longrightarrow> lowercase (trim e) \<noteq> [] \<longrightarrow> root_seeded (lowercase (trim e)) (users d')) \<and>
    seed_user env now2 salt2 i2 ae ap d' = Inr d'"
proof (cases "(case ae of None \<Rightarrow> [] | Some e \<Rightarrow> lowercase (trim e)) = [] \<and> (case ap of None \<Rightarrow> [] | Some p \<Rightarrow> p) = []")
  case True
  then have "d' = d" using assms(1) by (simp add: seed_user_def)
  then show ?thesis using True assms(1,2) by (auto simp: seed_user_def intro!: exI [of _ "users d"])
next
  case False
  then have "(case ae of None \<Rightarrow> [] | Some e \<Rightarrow> lowercase (trim e)) \<noteq> []" "(case ap of None \<Rightarrow> [] | Some p \<Rightarrow> p) \<noteq> []"
    using assms(1) by (auto simp: seed_user_def Let_def throw_if_def split: if_splits)
  then obtain e p where ep: "ae = Some e" "ap = Some p" "lowercase (trim e) \<noteq> []" "p \<noteq> []"
    by (auto split: option.splits)
  show ?thesis
    using seed_user_Inr [OF assms(1) [unfolded ep(1,2)] assms(2,3) ep(4)] seed_user_again [OF _ ep(3)] by (auto simp: ep)
qed

lemma seed_targets_keeps:
  assumes "seed_targets new_id d = Inr d1" "db_ok d"
  shows "db_ok d1 \<and> providers d1 = providers d \<and> users d1 = users d"
proof -
  obtain ps hs where p: "seed_platform_rows new_id seeded_platforms (platforms d) = Inr ps"
      "seed_architecture_rows new_id seeded_architectures (architectures d) = Inr hs"
    and d1: "d1 = d\<lparr>platforms := ps, architectures := hs\<rparr>"
    using assms(1) by (auto simp: seed_targets_def bind_res_Inr)
  show ?thesis using platform_seeds.seeded [OF p(1)] architecture_seeds.seeded [OF p(2)] assms(2) by (simp add: d1 db_ok_def)
qed

lemma seed_targets_frame:
  "seed_targets new_id d = Inr d \<Longrightarrow> platforms d' = platforms d \<Longrightarrow> architectures d' = architectures d \<Longrightarrow>
   seed_targets new_id d' = Inr d'"
  by (cases d; cases d') (auto simp: seed_targets_def bind_res_Inr)

section \<open>What a start leaves\<close>


definition sample_seeding :: "db res" where
  "sample_seeding = seed_all toy_account (\<lambda>n. n) 7 1 ''u1'' ''/app'' (Some '' Root@b.c '') (Some ''0123456789abcdef'') empty_db"

lemma sample_seeding_Inr: obtains d' where "sample_seeding = Inr d'"
proof -
  have "case sample_seeding of Inl _ \<Rightarrow> False | Inr _ \<Rightarrow> True" by code_simp
  then show thesis using that by (auto split: sum.splits)
qed

lemma sample_seeding_facts:
  "db_ok empty_db" "ac_hash toy_account s x \<noteq> ''admin''" "lowercase (trim '' Root@b.c '') = ''root@b.c''"
proof -
  show "db_ok empty_db" by code_simp
  show "ac_hash toy_account s x \<noteq> ''admin''" by (simp add: toy_account_def)
  show "lowercase (trim '' Root@b.c '') = ''root@b.c''" by code_simp
qed


end
