(* ===== verification/Signer.thy ===== *)
theory Signer
  imports Managed_Signer
begin

text \<open>
  \<open>signer/src/main.rs\<close>: the external signer. It keeps signing requests in a database of its own, lets one
  identity submit release manifests and another approve them, and has the approved manifests signed by
  keys that never leave a vault (OpenBao). A handler of the server is a function of the state of the
  database; an error, wherever it is raised, rolls the transaction of the handler back.
\<close>

section \<open>Answers\<close>

datatype api_error = Api_Error nat string

type_synonym 'a reply = "api_error + 'a"

text \<open>The operator \<open>?\<close>.\<close>

fun and_then :: "'a reply \<Rightarrow> ('a \<Rightarrow> 'b reply) \<Rightarrow> 'b reply" where
  "and_then (Inl e) f = Inl e"
| "and_then (Inr x) f = f x"

definition fail_if :: "bool \<Rightarrow> api_error \<Rightarrow> 'a reply \<Rightarrow> 'a reply" where
  "fail_if c e r = (if c then Inl e else r)"

definition ok_or :: "api_error \<Rightarrow> 'a option \<Rightarrow> 'a reply" where
  "ok_or e x = (case x of None \<Rightarrow> Inl e | Some y \<Rightarrow> Inr y)"

named_theorems reply_simps "when a step of a handler succeeds"

lemma and_then_Inr [reply_simps]: "and_then r f = Inr y \<longleftrightarrow> (\<exists>x. r = Inr x \<and> f x = Inr y)"
  by (cases r) auto

lemma fail_if_Inr [reply_simps]: "fail_if c e r = Inr y \<longleftrightarrow> \<not> c \<and> r = Inr y"
  by (simp add: fail_if_def)

lemma ok_or_Inr [reply_simps]: "ok_or e x = Inr y \<longleftrightarrow> x = Some y"
  by (cases x) (auto simp: ok_or_def)

lemma reply_steps [simp]: "fail_if True e r = Inl e" "fail_if False e r = r" "ok_or e None = Inl e" "ok_or e (Some y) = Inr y"
  by (simp_all add: fail_if_def ok_or_def)

definition bad_request :: "string \<Rightarrow> api_error" where
  "bad_request message = Api_Error 400 message"

definition unavailable :: api_error where
  "unavailable = Api_Error 503 ''Signing backend unavailable or sealed.''"

definition key_conflict :: "string \<Rightarrow> api_error" where
  "key_conflict message = Api_Error 409 message"

section \<open>Libraries\<close>

text \<open>The values of \<open>serde_json\<close>, whose integers and other numbers are apart.\<close>

datatype json_value =
    V_Null
  | V_Bool bool
  | V_Unsigned nat
  | V_Number
  | V_String string
  | V_Array "json_value list"
  | V_Object "(string \<times> json_value) list"

fun index_value :: "json_value \<Rightarrow> string \<Rightarrow> json_value" where
  "index_value (V_Object ps) k = (case map_of ps k of None \<Rightarrow> V_Null | Some v \<Rightarrow> v)"
| "index_value _ k = V_Null"

fun as_str :: "json_value \<Rightarrow> string option" where
  "as_str (V_String s) = Some s"
| "as_str _ = None"

fun as_u64 :: "json_value \<Rightarrow> nat option" where
  "as_u64 (V_Unsigned n) = Some n"
| "as_u64 _ = None"

text \<open>
  The crates: base64 in its two alphabets, \<open>serde_json\<close> for values and for the struct \<open>Manifest\<close> (its
  \<open>schema_version\<close> and the rest), \<open>sl_raw_key\<close> for \<open>VerifyingKey::from_bytes\<close> and its PEM, and the strict
  verification with the key of a PEM. Digests are those of \<^typ>\<open>crypto\<close>.
\<close>

record signer_lib =
  sl_crypto :: crypto
  sl_encode :: "bytes \<Rightarrow> string"
  sl_decode :: "string \<Rightarrow> bytes option"
  sl_std_encode :: "bytes \<Rightarrow> string"
  sl_std_decode :: "string \<Rightarrow> bytes option"
  sl_json :: "bytes \<Rightarrow> json_value option"
  sl_manifest :: "bytes \<Rightarrow> (nat \<times> ota_manifest) option"
  sl_raw_key :: "bytes \<Rightarrow> string option"
  sl_verify_strict :: "string \<Rightarrow> bytes \<Rightarrow> bytes \<Rightarrow> bool"

text \<open>
  What is documented of them: encoding is base64url without padding and decoding reads it back, reading a
  manifest gives the fields that were written, the PEM of a key is an Ed25519 key that surrounding space does
  not change, and what the strict verification accepts the ordinary one accepts.
\<close>

definition signer_lib_ok :: "signer_lib \<Rightarrow> bool" where
  "signer_lib_ok lib \<longleftrightarrow> crypto_ok (sl_crypto lib) \<and> sl_encode lib = base64url \<and>
     (\<forall>b. sl_decode lib (base64url b) = Some b) \<and>
     (\<forall>m. 0 \<le> mf_size_bytes m \<and> mf_size_bytes m < 2 ^ 64 \<longrightarrow>
        sl_manifest lib (utf8 (json_object (manifest_obj m))) = Some (1, m)) \<and>
     (\<forall>raw pem. sl_raw_key lib raw = Some pem \<longrightarrow>
        cr_key_type (sl_crypto lib) pem = Some ''ed25519'' \<and> cr_key_type (sl_crypto lib) (trim pem) = Some ''ed25519'' \<and>
        cr_spki_der (sl_crypto lib) (trim pem) = cr_spki_der (sl_crypto lib) pem \<and>
        cr_verify (sl_crypto lib) (trim pem) = cr_verify (sl_crypto lib) pem \<and>
        length pem \<le> 4096 \<and> starts_with (trim pem) ''-----BEGIN PUBLIC KEY-----'') \<and>
     (\<forall>pem b s. sl_verify_strict lib pem b s \<longrightarrow> cr_verify (sl_crypto lib) pem b s)"

definition hex_digest :: "signer_lib \<Rightarrow> bytes \<Rightarrow> string" where
  "hex_digest lib b = cr_sha256 (sl_crypto lib) b"

section \<open>Identities\<close>

record signer_app =
  ap_requester_hash :: string
  ap_approver_hash :: string

definition token_hash :: "signer_lib \<Rightarrow> string \<Rightarrow> string" where
  "token_hash lib token = cr_sha256 (sl_crypto lib) (utf8 token)"

text \<open>\<^const>\<open>None\<close> is a request without a readable \<open>Authorization\<close> header.\<close>

definition bearer :: "string option \<Rightarrow> string" where
  "bearer h = (case h of None \<Rightarrow> [] | Some v \<Rightarrow> if starts_with v ''Bearer '' then drop 7 v else [])"

definition check_auth :: "signer_lib \<Rightarrow> string option \<Rightarrow> string \<Rightarrow> unit reply" where
  "check_auth lib h expected =
     fail_if (256 < length (utf8 (bearer h)) \<or> token_hash lib (bearer h) \<noteq> expected)
       (Api_Error 401 ''Invalid signing identity.'') (Inr ())"

definition check_read :: "signer_lib \<Rightarrow> signer_app \<Rightarrow> string option \<Rightarrow> unit reply" where
  "check_read lib app h =
     (case check_auth lib h (ap_requester_hash app) of
        Inr _ \<Rightarrow> Inr ()
      | Inl _ \<Rightarrow> check_auth lib h (ap_approver_hash app))"

section \<open>Manifests\<close>

definition valid_slug :: "string \<Rightarrow> bool" where
  "valid_slug s \<longleftrightarrow> s \<noteq> [] \<and> length (utf8 s) \<le> 80 \<and> \<not> starts_with s ''-'' \<and> hd (rev s) \<noteq> CHR ''-'' \<and>
     list_all (\<lambda>c. is_lower c \<or> is_digit c \<or> c = CHR ''-'') s"

definition valid_hex :: "string \<Rightarrow> bool" where
  "valid_hex s \<longleftrightarrow> length (utf8 s) = 64 \<and> list_all is_hex s"

definition is_control :: "char \<Rightarrow> bool" where
  "is_control c \<longleftrightarrow> code c < 32 \<or> char_between 127 159 c"

definition version_part :: "string \<Rightarrow> bool" where
  "version_part p \<longleftrightarrow> p \<noteq> [] \<and> (length p = 1 \<or> \<not> starts_with p ''0'') \<and> list_all is_digit p \<and> undec p \<le> 2147483647"

definition version_supported :: "string \<Rightarrow> bool" where
  "version_supported v \<longleftrightarrow> length (split_on (CHR ''.'') v) = 3 \<and> list_all version_part (split_on (CHR ''.'') v)"

definition context_supported :: "string \<Rightarrow> bool" where
  "context_supported v \<longleftrightarrow> v \<noteq> [] \<and> length (utf8 v) \<le> 100 \<and> \<not> list_ex is_control v"

definition opt_bytes :: "string option \<Rightarrow> nat" where
  "opt_bytes x = (case x of None \<Rightarrow> 0 | Some s \<Rightarrow> length (utf8 s))"

definition supported_manifest :: "string \<Rightarrow> nat \<Rightarrow> ota_manifest \<Rightarrow> bool" where
  "supported_manifest product schema_version m \<longleftrightarrow>
     schema_version = 1 \<and> valid_slug product \<and> mf_software m = product \<and> version_supported (mf_version m) \<and>
     mf_channel m \<in> {''stable'', ''beta'', ''dev'', ''staging''} \<and>
     context_supported (mf_platform m) \<and> context_supported (mf_architecture m) \<and>
     mf_file_name m \<noteq> [] \<and> length (utf8 (mf_file_name m)) \<le> 500 \<and>
     \<not> list_ex (\<lambda>c. is_control c \<or> c = CHR ''/'' \<or> c = CHR 0x5C) (mf_file_name m) \<and>
     mf_size_bytes m \<le> 9007199254740991 \<and> valid_hex (mf_sha256 m) \<and>
     opt_bytes (mf_codename m) \<le> 1024 \<and> opt_bytes (mf_changelog m) \<le> 90000"

definition parse_release :: "signer_lib \<Rightarrow> string \<Rightarrow> string \<Rightarrow> (bytes \<times> ota_manifest) reply" where
  "parse_release lib payload product =
     fail_if (payload = [] \<or> 120000 < length (utf8 payload)) (bad_request ''Invalid manifest size.'')
     (and_then (ok_or (bad_request ''Invalid base64url payload.'') (sl_decode lib payload)) (\<lambda>b.
      fail_if (sl_encode lib b \<noteq> payload) (bad_request ''Noncanonical payload.'')
      (and_then (ok_or (bad_request ''Invalid release manifest.'') (sl_manifest lib b)) (\<lambda>(v, m).
       fail_if (\<not> supported_manifest product v m) (bad_request ''Unsupported or mismatched release metadata.'')
         (Inr (b, m))))))"

section \<open>The vault\<close>

record vault_key =
  vk_product :: string
  vk_key_version :: nat
  vk_key_id :: string
  vk_public_key :: string

text \<open>
  A connection to OpenBao: the content of the token file if it can be read, and the exchange, which gives the
  status, the announced length and the body of a response, or \<^const>\<open>None\<close> when it fails. What the vault
  answers may change between the calls of one handler, so handlers take one connection for each call.
\<close>

record vault_response =
  vr_status :: nat
  vr_content_length :: "nat option"
  vr_body :: bytes

record bao =
  va_token :: "string option"
  va_send :: "string \<Rightarrow> string \<Rightarrow> string \<Rightarrow> json_value option \<Rightarrow> vault_response option"

definition bao_call :: "signer_lib \<Rightarrow> bao \<Rightarrow> string \<Rightarrow> string \<Rightarrow> json_value option \<Rightarrow> json_value reply" where
  "bao_call lib va meth path body =
     and_then (ok_or unavailable (va_token va)) (\<lambda>token.
     and_then (ok_or unavailable (va_send va (trim token) meth (''/v1/'' @ path) body)) (\<lambda>r.
     fail_if (vr_status r < 200 \<or> 300 \<le> vr_status r) unavailable
     (fail_if (case vr_content_length r of None \<Rightarrow> False | Some n \<Rightarrow> 262144 < n) unavailable
     (fail_if (262144 < length (vr_body r)) unavailable
       (ok_or unavailable (sl_json lib (vr_body r)))))))"

definition min_version :: "json_value \<Rightarrow> nat" where
  "min_version data = (case as_u64 (index_value data ''min_encryption_version'') of None \<Rightarrow> 0 | Some n \<Rightarrow> n)"

definition custody_policy :: "json_value \<Rightarrow> bool" where
  "custody_policy data \<longleftrightarrow>
     index_value data ''type'' = V_String ''ed25519'' \<and> index_value data ''derived'' = V_Bool False \<and>
     index_value data ''exportable'' = V_Bool False \<and> index_value data ''allow_plaintext_backup'' = V_Bool False"

definition bao_key :: "signer_lib \<Rightarrow> bao \<Rightarrow> string \<Rightarrow> nat option \<Rightarrow> vault_key reply" where
  "bao_key lib va product wanted =
     fail_if (\<not> valid_slug product) (bad_request ''Invalid product slug.'')
     (and_then (bao_call lib va ''GET'' (''transit/keys/reeva-'' @ product) None) (\<lambda>result.
      let data = index_value result ''data'' in
      fail_if (\<not> custody_policy data) (key_conflict ''Signing key does not satisfy custody policy.'')
      (and_then (ok_or unavailable
          (Option.bind (as_u64 (index_value data ''latest_version'')) (\<lambda>n. if n < 2 ^ 32 then Some n else None))) (\<lambda>latest.
       let version = (case wanted of None \<Rightarrow> latest | Some v \<Rightarrow> v) in
       fail_if (version = 0 \<or> latest < version \<or> version < min_version data) (key_conflict ''Signing key version is disabled.'')
       (and_then (ok_or unavailable
           (as_str (index_value (index_value (index_value data ''keys'') (dec version)) ''public_key''))) (\<lambda>text.
        and_then (ok_or unavailable (Option.bind (sl_std_decode lib text) (\<lambda>raw. if length raw = 32 then Some raw else None))) (\<lambda>raw.
        and_then (ok_or unavailable (sl_raw_key lib raw)) (\<lambda>pem.
        Inr \<lparr> vk_product = product, vk_key_version = version,
              vk_key_id = hex_digest lib (cr_spki_der (sl_crypto lib) pem), vk_public_key = pem \<rparr>))))))))"

definition strip_prefix :: "string \<Rightarrow> string \<Rightarrow> string option" where
  "strip_prefix p s = (if starts_with s p then Some (drop (length p) s) else None)"

definition bao_sign :: "signer_lib \<Rightarrow> bao \<Rightarrow> vault_key \<Rightarrow> bytes \<Rightarrow> string reply" where
  "bao_sign lib va key b =
     and_then (bao_call lib va ''POST'' (''transit/sign/reeva-'' @ vk_product key)
       (Some (V_Object [(''input'', V_String (sl_std_encode lib b)), (''key_version'', V_Unsigned (vk_key_version key)),
          (''prehashed'', V_Bool False)]))) (\<lambda>result.
     and_then (ok_or unavailable (as_str (index_value (index_value result ''data'') ''signature''))) (\<lambda>wrapped.
     and_then (ok_or unavailable (strip_prefix (''vault:v'' @ dec (vk_key_version key) @ '':'') wrapped)) (\<lambda>text.
     and_then (ok_or unavailable (sl_std_decode lib text)) (\<lambda>s.
     fail_if (length s \<noteq> 64) unavailable
     (fail_if (\<not> sl_verify_strict lib (vk_public_key key) b s) unavailable
       (Inr (sl_encode lib s)))))))"

section \<open>Signing requests\<close>

record signing_row =
  sr_id :: string
  sr_product :: string
  sr_payload :: string
  sr_payload_digest :: string
  sr_key_id :: string
  sr_key_version :: nat
  sr_public_key :: string
  sr_status :: string
  sr_signature :: "string option"
  sr_expires_at :: int

record signer_db =
  sd_requests :: "signing_row list"
  sd_audit :: "(string \<times> string \<times> string) list"

definition empty_signer :: signer_db where
  "empty_signer = \<lparr> sd_requests = [], sd_audit = [] \<rparr>"

record create_input =
  ci_product :: string
  ci_payload :: string
  ci_key_id :: string
  ci_key_version :: nat

record approval =
  ai_payload_digest :: string
  ai_artifact_sha256 :: string
  ai_artifact_size_bytes :: nat
  ai_expires_at :: int

definition request_id :: "signer_lib \<Rightarrow> string \<Rightarrow> string \<Rightarrow> bytes \<Rightarrow> string" where
  "request_id lib product key_id b =
     cr_sha256 (sl_crypto lib) (utf8 ''reeva-signer-v1'' @ [0] @ utf8 product @ [0] @ utf8 key_id @ [0] @ b)"

definition audit_event :: "string \<Rightarrow> string \<Rightarrow> string \<Rightarrow> signer_db \<Rightarrow> signer_db" where
  "audit_event i event actor d = d\<lparr>sd_audit := sd_audit d @ [(i, event, actor)]\<rparr>"

text \<open>The statements of the handlers. \<open>now\<close> is the clock of the transaction in seconds.\<close>

definition prune :: "int \<Rightarrow> signer_db \<Rightarrow> signer_db" where
  "prune now d = d\<lparr>sd_requests := filter (\<lambda>r. \<not> (sr_signature r = None \<and> sr_expires_at r < now - 86400)) (sd_requests d)\<rparr>"

definition renew :: "int \<Rightarrow> string \<Rightarrow> signer_db \<Rightarrow> signer_db" where
  "renew now i d = d\<lparr>sd_requests := map (\<lambda>r. if sr_id r = i \<and> sr_expires_at r < now then r\<lparr>sr_expires_at := now + 86400\<rparr> else r) (sd_requests d)\<rparr>"

definition new_request :: "signer_lib \<Rightarrow> int \<Rightarrow> create_input \<Rightarrow> vault_key \<Rightarrow> bytes \<Rightarrow> signing_row" where
  "new_request lib now input key b =
     \<lparr> sr_id = request_id lib (ci_product input) (vk_key_id key) b, sr_product = ci_product input, sr_payload = ci_payload input,
       sr_payload_digest = hex_digest lib b, sr_key_id = vk_key_id key, sr_key_version = vk_key_version key,
       sr_public_key = vk_public_key key, sr_status = ''pending'', sr_signature = None, sr_expires_at = now + 86400 \<rparr>"

text \<open>\<open>create_request\<close>. The advisory lock admits one of these transactions at a time.\<close>

definition admit_request :: "signer_lib \<Rightarrow> int \<Rightarrow> create_input \<Rightarrow> vault_key \<Rightarrow> bytes \<Rightarrow> signer_db \<Rightarrow> (signing_row \<times> signer_db) reply" where
  "admit_request lib now input key b d =
     (let i = request_id lib (ci_product input) (vk_key_id key) b; d1 = prune now d in
      case find_by sr_id i (sd_requests d1) of
        Some row \<Rightarrow>
          if sr_status row = ''pending'' \<and> sr_expires_at row < now
          then Inr (row\<lparr>sr_expires_at := now + 86400\<rparr>, audit_event i ''renewed'' ''requester'' (renew now i d1))
          else Inr (row, d1)
      | None \<Rightarrow>
          fail_if (10000 \<le> length (sd_requests d1))
            (Api_Error 429 ''Signing request retention limit reached. Export audit and prune old completed requests.'')
            (let row = new_request lib now input key b in
             Inr (row, audit_event i ''requested'' ''requester'' (d1\<lparr>sd_requests := sd_requests d1 @ [row]\<rparr>))))"

definition create_signing_request ::
  "signer_lib \<Rightarrow> signer_app \<Rightarrow> bao \<Rightarrow> int \<Rightarrow> string option \<Rightarrow> create_input \<Rightarrow> signer_db \<Rightarrow> (signing_row \<times> signer_db) reply" where
  "create_signing_request lib app va now auth input d =
     and_then (check_auth lib auth (ap_requester_hash app)) (\<lambda>_.
     fail_if (\<not> valid_hex (ci_key_id input) \<or> ci_key_version input = 0 \<or> 2147483647 < ci_key_version input)
       (bad_request ''Invalid signing key.'')
     (and_then (parse_release lib (ci_payload input) (ci_product input)) (\<lambda>(b, _).
      and_then (bao_key lib va (ci_product input) (Some (ci_key_version input))) (\<lambda>key.
      fail_if (vk_key_id key \<noteq> ci_key_id input) (key_conflict ''Public key fingerprint changed.'')
        (admit_request lib now input key b d)))))"

definition read_signing_request :: "signer_lib \<Rightarrow> signer_app \<Rightarrow> string option \<Rightarrow> string \<Rightarrow> signer_db \<Rightarrow> signing_row reply" where
  "read_signing_request lib app auth i d =
     and_then (check_read lib app auth) (\<lambda>_.
     fail_if (\<not> valid_hex i) (bad_request ''Invalid request identifier.'')
       (ok_or (Api_Error 404 ''Signing request not found.'') (find_by sr_id i (sd_requests d))))"

definition read_public_key :: "signer_lib \<Rightarrow> signer_app \<Rightarrow> bao \<Rightarrow> string option \<Rightarrow> string \<Rightarrow> vault_key reply" where
  "read_public_key lib app va auth product = and_then (check_read lib app auth) (\<lambda>_. bao_key lib va product None)"

definition mark_signed :: "string \<Rightarrow> string \<Rightarrow> signer_db \<Rightarrow> signer_db" where
  "mark_signed i sig d = d\<lparr>sd_requests := modify_by sr_id i (\<lambda>r. r\<lparr>sr_status := ''signed'', sr_signature := Some sig\<rparr>) (sd_requests d)\<rparr>"

definition matches_release :: "approval \<Rightarrow> signing_row \<Rightarrow> ota_manifest \<Rightarrow> bool" where
  "matches_release a r m \<longleftrightarrow> ai_payload_digest a = sr_payload_digest r \<and> ai_artifact_sha256 a = mf_sha256 m \<and>
     int (ai_artifact_size_bytes a) = mf_size_bytes m \<and> ai_expires_at a = sr_expires_at r"

text \<open>\<open>approve\<close>: \<open>slots\<close> permits are left, and the three connections are those of its calls of the vault.\<close>

definition approve_request ::
  "signer_lib \<Rightarrow> signer_app \<Rightarrow> bao \<times> bao \<times> bao \<Rightarrow> nat \<Rightarrow> int \<Rightarrow> string option \<Rightarrow> string \<Rightarrow> approval \<Rightarrow> signer_db \<Rightarrow>
     (signing_row \<times> signer_db) reply" where
  "approve_request lib app vas slots now auth i a d =
     and_then (check_auth lib auth (ap_approver_hash app)) (\<lambda>_.
     fail_if (\<not> valid_hex i) (bad_request ''Invalid request identifier.'')
     (fail_if (slots = 0) (Api_Error 429 ''Signer concurrency limit reached.'')
     (and_then (ok_or (Api_Error 404 ''Signing request not found.'') (find_by sr_id i (sd_requests d))) (\<lambda>r.
      and_then (parse_release lib (sr_payload r) (sr_product r)) (\<lambda>(b, m).
      fail_if (\<not> matches_release a r m) (key_conflict ''Approval does not match the exact manifest and artifact.'')
      (and_then (bao_key lib (fst vas) (sr_product r) (Some (sr_key_version r))) (\<lambda>key.
       fail_if (vk_key_id key \<noteq> sr_key_id r) (key_conflict ''Signing key changed.'')
       (if sr_status r = ''signed'' then Inr (r, d)
        else fail_if (sr_expires_at r < now)
          (Api_Error 410 ''Approval request expired. Resubmit and review the renewed request.'')
          (and_then (bao_sign lib (fst (snd vas)) key b) (\<lambda>sig.
           and_then (bao_key lib (snd (snd vas)) (sr_product r) (Some (sr_key_version r))) (\<lambda>again.
           fail_if (vk_key_id again \<noteq> vk_key_id key) unavailable
             (Inr (r\<lparr>sr_status := ''signed'', sr_signature := Some sig\<rparr>,
                audit_event i ''approved-and-signed'' ''approver'' (mark_signed i sig d))))))))))))))"

definition ready :: "signer_lib \<Rightarrow> bao \<Rightarrow> bool \<Rightarrow> unit reply" where
  "ready lib va db_up =
     fail_if (\<not> db_up) (Api_Error 503 ''Signing database unavailable.'')
       (and_then (bao_call lib va ''GET'' ''auth/token/lookup-self'' None) (\<lambda>_. Inr ()))"

section \<open>Start\<close>

text \<open>\<open>read_secret\<close> of a file with the given content, and the identities with which \<open>main\<close> starts to serve.\<close>

definition read_secret :: "string option \<Rightarrow> string option" where
  "read_secret file =
     (case file of
        None \<Rightarrow> None
      | Some content \<Rightarrow>
          let secret = trim content in
          if length (utf8 secret) < 32 \<or> 256 < length (utf8 secret) then None else Some secret)"

definition start_identities :: "signer_lib \<Rightarrow> string option \<Rightarrow> string option \<Rightarrow> signer_app option" where
  "start_identities lib requester_file approver_file =
     (case (read_secret requester_file, read_secret approver_file) of
        (Some user, Some approver) \<Rightarrow>
          if user = approver then None
          else Some \<lparr> ap_requester_hash = token_hash lib user, ap_approver_hash = token_hash lib approver \<rparr>
      | _ \<Rightarrow> None)"

end
