(* ===== verification/Signer_Safety.thy ===== *)
theory Signer_Safety
  imports Signer
begin

text \<open>
  What the signer guarantees whatever requests it receives, in whatever order and whatever its vault answers:
  every stored signature verifies and was approved, by the approver, for exactly the manifest and the artifact
  it signs; and its answers are the ones the client of the server accepts.
\<close>

section \<open>Steps that succeed\<close>

lemma check_auth_Inr [reply_simps]:
  "check_auth lib h e = Inr x \<longleftrightarrow> length (utf8 (bearer h)) \<le> 256 \<and> token_hash lib (bearer h) = e"
  by (auto simp: check_auth_def reply_simps)

lemma parse_release_Inr:
  "parse_release lib payload product = Inr (b, m) \<longleftrightarrow>
     payload \<noteq> [] \<and> length (utf8 payload) \<le> 120000 \<and> sl_decode lib payload = Some b \<and> sl_encode lib b = payload \<and>
     (\<exists>v. sl_manifest lib b = Some (v, m) \<and> supported_manifest product v m)"
  by (auto simp: parse_release_def reply_simps)

lemma bao_key_Inr:
  assumes "bao_key lib va product wanted = Inr key"
  shows "vk_product key = product \<and> 0 < vk_key_version key \<and> (\<forall>v. wanted = Some v \<longrightarrow> vk_key_version key = v) \<and>
    vk_key_id key = hex_digest lib (cr_spki_der (sl_crypto lib) (vk_public_key key)) \<and>
    (\<exists>raw. sl_raw_key lib raw = Some (vk_public_key key))"
  using assms by (cases wanted) (clarsimp simp: bao_key_def reply_simps Let_def; blast)+

lemma bao_sign_Inr:
  "bao_sign lib va key b = Inr sig \<Longrightarrow>
     \<exists>s. sig = sl_encode lib s \<and> length s = 64 \<and> sl_verify_strict lib (vk_public_key key) b s"
  by (auto simp: bao_sign_def reply_simps)

text \<open>Once the crates behave, a signature of the vault is one that the server accepts for the payload.\<close>

lemma utf8_base64url [simp]: "length (utf8 (base64url b)) = length (base64url b)"
proof (rule length_utf8_text)
  show "list_all (\<lambda>c. code c < 128) (base64url b)"
    using base64url_class [of b]
    by (auto simp: list_all_iff is_b64url_def is_alnum_def is_digit_def is_upper_def is_lower_def char_between_def)
qed

lemma sign_verifies:
  assumes "signer_lib_ok lib" "parse_release lib payload product = Inr (b, m)" "bao_key lib va product w = Inr key"
    "bao_sign lib va2 key b = Inr sig"
  shows "verify_ota_release_signature (sl_crypto lib) payload (JStr sig) (vk_public_key key)"
proof -
  obtain s where s: "sig = sl_encode lib s" "length s = 64" "sl_verify_strict lib (vk_public_key key) b s"
    using bao_sign_Inr [OF assms(4)] by blast
  have p: "payload \<noteq> []" "length (utf8 payload) \<le> 120000" "payload = base64url b"
    using assms(1,2) by (auto simp: parse_release_Inr signer_lib_ok_def)
  have "b \<noteq> []" using p(1,3) by (auto simp: base64url_def)
  moreover have "cr_key_type (sl_crypto lib) (vk_public_key key) = Some ''ed25519''"
    using bao_key_Inr [OF assms(3)] assms(1) by (auto simp: signer_lib_ok_def)
  ultimately show ?thesis
    unfolding verify_iff using assms(1) s p by (intro exI [of _ b] exI [of _ s]) (auto simp: signer_lib_ok_def)
qed

section \<open>Runs\<close>

text \<open>
  The requests that change the database. A resubmission that read a pending request may find it signed when
  it renews it, since only its update takes the lock of the row: \<open>Late_Renewal\<close> is such an update.
\<close>

datatype signer_event =
    Create_Event bao int "string option" create_input
  | Approve_Event "bao \<times> bao \<times> bao" nat int "string option" string approval
  | Late_Renewal int string

definition late_renewal :: "int \<Rightarrow> string \<Rightarrow> signer_db \<Rightarrow> signer_db" where
  "late_renewal now i d =
     (if list_ex (\<lambda>r. sr_id r = i \<and> sr_expires_at r < now) (sd_requests d)
      then audit_event i ''renewed'' ''requester'' (renew now i d) else d)"

definition committed :: "(signing_row \<times> signer_db) reply \<Rightarrow> signer_db \<Rightarrow> signer_db" where
  "committed reply d = (case reply of Inl e \<Rightarrow> d | Inr (r, d') \<Rightarrow> d')"

fun signer_step :: "signer_lib \<Rightarrow> signer_app \<Rightarrow> signer_event \<Rightarrow> signer_db \<Rightarrow> signer_db" where
  "signer_step lib app (Create_Event va now auth input) d = committed (create_signing_request lib app va now auth input d) d"
| "signer_step lib app (Approve_Event vas slots now auth i a) d = committed (approve_request lib app vas slots now auth i a d) d"
| "signer_step lib app (Late_Renewal now i) d = late_renewal now i d"

definition signer_run :: "signer_lib \<Rightarrow> signer_app \<Rightarrow> signer_event list \<Rightarrow> signer_db" where
  "signer_run lib app es = foldl (\<lambda>d e. signer_step lib app e d) empty_signer es"

lemma signer_run_simps [simp]:
  "signer_run lib app [] = empty_signer" "signer_run lib app (es @ [e]) = signer_step lib app e (signer_run lib app es)"
  by (simp_all add: signer_run_def)

section \<open>What a step does to the rows\<close>

text \<open>The part of a row that never changes.\<close>

definition release_part :: "signing_row \<Rightarrow> string \<times> string \<times> string \<times> string \<times> string \<times> nat \<times> string" where
  "release_part r = (sr_id r, sr_product r, sr_payload r, sr_payload_digest r, sr_key_id r, sr_key_version r, sr_public_key r)"

text \<open>An accepted submission, and an approval that signs the row it finds.\<close>

definition admitted :: "signer_lib \<Rightarrow> signer_app \<Rightarrow> signer_event \<Rightarrow> signing_row \<Rightarrow> bool" where
  "admitted lib app e r \<longleftrightarrow> (\<exists>va now auth input b m key. e = Create_Event va now auth input \<and>
     token_hash lib (bearer auth) = ap_requester_hash app \<and>
     parse_release lib (ci_payload input) (ci_product input) = Inr (b, m) \<and>
     bao_key lib va (ci_product input) (Some (ci_key_version input)) = Inr key \<and>
     ci_key_version input \<le> 2147483647 \<and> r = new_request lib now input key b)"

definition approved :: "signer_lib \<Rightarrow> signer_app \<Rightarrow> signer_event \<Rightarrow> signing_row \<Rightarrow> string \<Rightarrow> bool" where
  "approved lib app e r sig \<longleftrightarrow> (\<exists>vas slots now auth a b m key. e = Approve_Event vas slots now auth (sr_id r) a \<and>
     token_hash lib (bearer auth) = ap_approver_hash app \<and>
     parse_release lib (sr_payload r) (sr_product r) = Inr (b, m) \<and> matches_release a r m \<and>
     bao_key lib (fst vas) (sr_product r) (Some (sr_key_version r)) = Inr key \<and> vk_key_id key = sr_key_id r \<and>
     now \<le> sr_expires_at r \<and> bao_sign lib (fst (snd vas)) key b = Inr sig)"

lemma create_Inr:
  assumes "create_signing_request lib app va now auth input d = Inr (row, d')"
  shows "\<exists>r. admitted lib app (Create_Event va now auth input) r \<and>
    (d' = prune now d \<or> d' = audit_event (sr_id r) ''renewed'' ''requester'' (renew now (sr_id r) (prune now d)) \<or>
     sr_id r \<notin> sr_id ` set (sd_requests (prune now d)) \<and> length (sd_requests (prune now d)) < 10000 \<and>
     d' = audit_event (sr_id r) ''requested'' ''requester'' (prune now d\<lparr>sd_requests := sd_requests (prune now d) @ [r]\<rparr>))"
proof -
  obtain b m key where c: "check_auth lib auth (ap_requester_hash app) = Inr ()" "ci_key_version input \<le> 2147483647"
    "parse_release lib (ci_payload input) (ci_product input) = Inr (b, m)"
    "bao_key lib va (ci_product input) (Some (ci_key_version input)) = Inr key"
    and a: "admit_request lib now input key b d = Inr (row, d')"
    using assms by (auto simp: create_signing_request_def reply_simps)
  let ?r = "new_request lib now input key b"
  have id: "sr_id ?r = request_id lib (ci_product input) (vk_key_id key) b" by (simp add: new_request_def)
  have "admitted lib app (Create_Event va now auth input) ?r"
    using c by (auto simp: admitted_def reply_simps)
  moreover have "d' = prune now d \<or> d' = audit_event (sr_id ?r) ''renewed'' ''requester'' (renew now (sr_id ?r) (prune now d)) \<or>
     sr_id ?r \<notin> sr_id ` set (sd_requests (prune now d)) \<and> length (sd_requests (prune now d)) < 10000 \<and>
     d' = audit_event (sr_id ?r) ''requested'' ''requester'' (prune now d\<lparr>sd_requests := sd_requests (prune now d) @ [?r]\<rparr>)"
    using a unfolding id
    by (auto simp: admit_request_def Let_def reply_simps row_simps split: option.splits if_splits)
  ultimately show ?thesis by blast
qed

lemma approve_Inr:
  assumes "approve_request lib app vas slots now auth i a d = Inr (row, d')"
  shows "d' = d \<or> (\<exists>r sig. r \<in> set (sd_requests d) \<and> sr_id r = i \<and> sr_status r \<noteq> ''signed'' \<and>
    approved lib app (Approve_Event vas slots now auth i a) r sig \<and>
    d' = audit_event i ''approved-and-signed'' ''approver'' (mark_signed i sig d))"
proof -
  obtain r b m key where r: "find_by sr_id i (sd_requests d) = Some r" "token_hash lib (bearer auth) = ap_approver_hash app"
    "parse_release lib (sr_payload r) (sr_product r) = Inr (b, m)" "matches_release a r m"
    "bao_key lib (fst vas) (sr_product r) (Some (sr_key_version r)) = Inr key" "vk_key_id key = sr_key_id r"
    and rest: "sr_status r = ''signed'' \<and> d' = d \<or> sr_status r \<noteq> ''signed'' \<and> now \<le> sr_expires_at r \<and>
      (\<exists>sig. bao_sign lib (fst (snd vas)) key b = Inr sig \<and>
         d' = audit_event i ''approved-and-signed'' ''approver'' (mark_signed i sig d))"
    using assms by (auto simp: approve_request_def reply_simps not_less split: if_splits)
  have "r \<in> set (sd_requests d)" "sr_id r = i" using find_by_Some [OF r(1)] by auto
  then show ?thesis using rest r(2-6) unfolding approved_def by blast
qed

section \<open>The invariant\<close>

definition fingerprint :: "signer_lib \<Rightarrow> string \<Rightarrow> string" where
  "fingerprint lib pem = hex_digest lib (cr_spki_der (sl_crypto lib) pem)"

definition signing_row_ok :: "signer_lib \<Rightarrow> signing_row \<Rightarrow> bool" where
  "signing_row_ok lib r \<longleftrightarrow>
     (\<exists>b m. parse_release lib (sr_payload r) (sr_product r) = Inr (b, m) \<and> sr_payload_digest r = hex_digest lib b \<and>
        sr_id r = request_id lib (sr_product r) (sr_key_id r) b) \<and>
     0 < sr_key_version r \<and> sr_key_version r \<le> 2147483647 \<and> sr_key_id r = fingerprint lib (sr_public_key r) \<and>
     (\<exists>raw. sl_raw_key lib raw = Some (sr_public_key r)) \<and>
     (sr_status r = ''pending'' \<and> sr_signature r = None \<or>
      sr_status r = ''signed'' \<and> (\<exists>s pem. sr_signature r = Some s \<and> fingerprint lib pem = sr_key_id r \<and>
        verify_ota_release_signature (sl_crypto lib) (sr_payload r) (JStr s) pem))"

definition approval_entry :: "string \<Rightarrow> string \<times> string \<times> string" where
  "approval_entry i = (i, ''approved-and-signed'', ''approver'')"

definition is_signed :: "signer_db \<Rightarrow> string \<Rightarrow> bool" where
  "is_signed d i \<longleftrightarrow> (\<exists>r\<in>set (sd_requests d). sr_id r = i \<and> sr_status r = ''signed'')"

definition requests_ok :: "signer_lib \<Rightarrow> signer_db \<Rightarrow> bool" where
  "requests_ok lib d \<longleftrightarrow> distinct (map sr_id (sd_requests d)) \<and> list_all (signing_row_ok lib) (sd_requests d) \<and>
     length (sd_requests d) \<le> 10000 \<and>
     (\<forall>i. count_list (sd_audit d) (approval_entry i) = (if is_signed d i then 1 else 0))"

lemma signing_row_ok_expiry [simp]: "signing_row_ok lib (r\<lparr>sr_expires_at := t\<rparr>) = signing_row_ok lib r"
  by (simp add: signing_row_ok_def)

lemma signed_kept: "signing_row_ok lib r \<Longrightarrow> sr_status r = ''signed'' \<longleftrightarrow> sr_signature r \<noteq> None"
  by (auto simp: signing_row_ok_def)

lemma ok_prune: "requests_ok lib d \<Longrightarrow> requests_ok lib (prune now d)"
proof -
  assume ok: "requests_ok lib d"
  have "is_signed (prune now d) i = is_signed d i" for i
  proof -
    have "\<forall>r\<in>set (sd_requests d). sr_status r = ''signed'' \<longleftrightarrow> sr_signature r \<noteq> None"
      using ok signed_kept by (auto simp: requests_ok_def list_all_iff)
    then show ?thesis by (auto simp: is_signed_def prune_def)
  qed
  moreover have "length (sd_requests (prune now d)) \<le> length (sd_requests d)" by (simp add: prune_def)
  then have "length (sd_requests (prune now d)) \<le> 10000" using ok by (simp add: requests_ok_def)
  ultimately show ?thesis using ok by (auto simp: requests_ok_def prune_def distinct_map_filter' list_all_iff)
qed

lemma ok_audit_other:
  "requests_ok lib d \<Longrightarrow> event \<noteq> ''approved-and-signed'' \<Longrightarrow> requests_ok lib (audit_event i event actor d)"
  by (simp add: requests_ok_def audit_event_def approval_entry_def is_signed_def)

lemma map_renew: "(\<And>r t. f (r\<lparr>sr_expires_at := t\<rparr>) = f r) \<Longrightarrow> map f (sd_requests (renew now i d)) = map f (sd_requests d)"
  by (simp add: renew_def)

lemma is_signed_map: "is_signed d i \<longleftrightarrow> (i, ''signed'') \<in> set (map (\<lambda>r. (sr_id r, sr_status r)) (sd_requests d))"
  by (auto simp: is_signed_def)

lemma ok_renew: "requests_ok lib d \<Longrightarrow> requests_ok lib (renew now i d)"
proof -
  assume ok: "requests_ok lib d"
  have "list_all (signing_row_ok lib) (sd_requests (renew now i d))"
    using ok by (auto simp: requests_ok_def renew_def list_all_iff)
  moreover have "map sr_id (sd_requests (renew now i d)) = map sr_id (sd_requests d)" by (rule map_renew) simp
  moreover have "map (\<lambda>r. (sr_id r, sr_status r)) (sd_requests (renew now i d)) = map (\<lambda>r. (sr_id r, sr_status r)) (sd_requests d)"
    by (rule map_renew) simp
  moreover have "length (sd_requests (renew now i d)) = length (sd_requests d)" "sd_audit (renew now i d) = sd_audit d"
    by (simp_all add: renew_def)
  ultimately show ?thesis using ok unfolding requests_ok_def is_signed_map by simp
qed

lemma admitted_row_ok: "admitted lib app e r \<Longrightarrow> signing_row_ok lib r \<and> sr_status r = ''pending''"
  by (fastforce simp: admitted_def signing_row_ok_def new_request_def fingerprint_def dest: bao_key_Inr)

lemma ok_insert:
  assumes "requests_ok lib d" "signing_row_ok lib r" "sr_status r = ''pending''" "sr_id r \<notin> sr_id ` set (sd_requests d)"
    "length (sd_requests d) < 10000"
  shows "requests_ok lib (d\<lparr>sd_requests := sd_requests d @ [r]\<rparr>)"
  using assms by (auto simp: requests_ok_def is_signed_def)

lemma signed_row_ok:
  assumes "signer_lib_ok lib" "approved lib app e r sig" "signing_row_ok lib r"
  shows "signing_row_ok lib (r\<lparr>sr_status := ''signed'', sr_signature := Some sig\<rparr>)"
proof -
  obtain va va2 b m key where a: "parse_release lib (sr_payload r) (sr_product r) = Inr (b, m)"
    "bao_key lib va (sr_product r) (Some (sr_key_version r)) = Inr key" "vk_key_id key = sr_key_id r"
    "bao_sign lib va2 key b = Inr sig"
    using assms(2) by (auto simp: approved_def)
  have "verify_ota_release_signature (sl_crypto lib) (sr_payload r) (JStr sig) (vk_public_key key)"
    by (rule sign_verifies [OF assms(1) a(1,2,4)])
  moreover have "fingerprint lib (vk_public_key key) = sr_key_id r"
    using bao_key_Inr [OF a(2)] a(3) by (simp add: fingerprint_def)
  ultimately show ?thesis using assms(3) by (auto simp: signing_row_ok_def)
qed

lemma ok_mark_signed:
  assumes "signer_lib_ok lib" "requests_ok lib d" "r \<in> set (sd_requests d)" "sr_status r \<noteq> ''signed''"
    "approved lib app e r sig"
  shows "requests_ok lib (audit_event (sr_id r) ''approved-and-signed'' ''approver'' (mark_signed (sr_id r) sig d))"
proof -
  let ?f = "\<lambda>r. r\<lparr>sr_status := ''signed'', sr_signature := Some sig\<rparr>"
  have ids: "distinct (map sr_id (sd_requests d))" and ok: "\<forall>q\<in>set (sd_requests d). signing_row_ok lib q"
    using assms(2) by (auto simp: requests_ok_def list_all_iff)
  have only: "q = r" if "q \<in> set (sd_requests d)" "sr_id q = sr_id r" for q
    using distinct_map_inj [OF ids that(1) assms(3) that(2)] .
  have rows: "set (sd_requests (mark_signed (sr_id r) sig d)) = insert (?f r) (set (sd_requests d) - {r})"
    using only assms(3) by (auto simp: mark_signed_def mem_modify_by) metis+
  have "is_signed (mark_signed (sr_id r) sig d) i \<longleftrightarrow> i = sr_id r \<or> is_signed d i" for i
    unfolding is_signed_def rows using assms(4) by auto
  moreover have "\<not> is_signed d (sr_id r)" using only assms(4) by (auto simp: is_signed_def)
  moreover have "\<forall>q\<in>set (sd_requests (mark_signed (sr_id r) sig d)). signing_row_ok lib q"
    unfolding rows using ok signed_row_ok [OF assms(1,5)] assms(3) by auto
  moreover have "map sr_id (sd_requests (mark_signed (sr_id r) sig d)) = map sr_id (sd_requests d)"
    unfolding mark_signed_def by (simp add: modify_by_keys)
  moreover have "length (sd_requests (mark_signed (sr_id r) sig d)) = length (sd_requests d)"
    by (simp add: mark_signed_def modify_by_def)
  moreover have "sd_audit (mark_signed (sr_id r) sig d) = sd_audit d" by (simp add: mark_signed_def)
  ultimately show ?thesis
    using assms(2) ids unfolding requests_ok_def
    by (auto simp: audit_event_def approval_entry_def is_signed_def list_all_iff)
qed

lemma signer_step_ok:
  assumes "signer_lib_ok lib" "requests_ok lib d"
  shows "requests_ok lib (signer_step lib app e d)"
proof (cases e)
  case (Create_Event va now auth input)
  then show ?thesis
    using assms(2) create_Inr [of lib app va now auth input d]
    by (fastforce simp: committed_def split: sum.splits
        intro: ok_prune ok_renew ok_audit_other ok_insert dest: admitted_row_ok)
next
  case (Approve_Event vas slots now auth i a)
  show ?thesis
  proof (cases "approve_request lib app vas slots now auth i a d")
    case (Inr x)
    then obtain row d' where x: "approve_request lib app vas slots now auth i a d = Inr (row, d')" by (cases x) auto
    from approve_Inr [OF x] show ?thesis
      using ok_mark_signed [OF assms] assms(2) x by (auto simp: Approve_Event committed_def)
  qed (simp add: Approve_Event committed_def assms(2))
next
  case (Late_Renewal now i)
  then show ?thesis using assms(2) by (simp add: late_renewal_def ok_audit_other ok_renew)
qed

lemma empty_signer_ok: "requests_ok lib empty_signer"
  by (simp add: requests_ok_def empty_signer_def is_signed_def)

lemma signer_run_ok: "signer_lib_ok lib \<Longrightarrow> requests_ok lib (signer_run lib app es)"
  by (induction es rule: rev_induct) (auto simp: empty_signer_ok signer_step_ok)

section \<open>Every signature was approved\<close>

lemma step_rows:
  assumes "r' \<in> set (sd_requests (signer_step lib app e d))" "distinct (map sr_id (sd_requests d))"
  shows "(\<exists>r\<in>set (sd_requests d). release_part r = release_part r' \<and>
      (sr_signature r' = sr_signature r \<or> (\<exists>sig. sr_signature r' = Some sig \<and> approved lib app e r sig))) \<or>
    admitted lib app e r'"
proof -
  have renewed: "\<exists>r\<in>set (sd_requests x). release_part r = release_part r' \<and> sr_signature r' = sr_signature r"
    if "r' \<in> set (sd_requests (renew now i x))" for now i x
    using that by (auto simp: renew_def release_part_def split: if_splits)
  have pruned: "r \<in> set (sd_requests d)" if "r \<in> set (sd_requests (prune now d))" for now r
    using that by (simp add: prune_def)
  show ?thesis
  proof (cases e)
    case (Create_Event va now auth input)
    show ?thesis
    proof (cases "create_signing_request lib app va now auth input d")
      case (Inr x)
      then obtain row d' where x: "create_signing_request lib app va now auth input d = Inr (row, d')" by (cases x) auto
      then have r': "r' \<in> set (sd_requests d')" using assms(1) by (simp add: Create_Event committed_def)
      obtain r where r: "admitted lib app e r" and d': "d' = prune now d \<or>
          d' = audit_event (sr_id r) ''renewed'' ''requester'' (renew now (sr_id r) (prune now d)) \<or>
          d' = audit_event (sr_id r) ''requested'' ''requester'' (prune now d\<lparr>sd_requests := sd_requests (prune now d) @ [r]\<rparr>)"
        using create_Inr [OF x] by (auto simp: Create_Event)
      have "r' \<in> set (sd_requests (prune now d)) \<or> r' \<in> set (sd_requests (renew now (sr_id r) (prune now d))) \<or> r' = r"
        using d' r' by (auto simp: audit_event_def)
      then show ?thesis using renewed [of now "sr_id r" "prune now d"] pruned r by blast
    qed (use assms(1) in \<open>auto simp: Create_Event committed_def\<close>)
  next
    case (Approve_Event vas slots now auth i a)
    show ?thesis
    proof (cases "approve_request lib app vas slots now auth i a d")
      case (Inr x)
      then obtain row d' where x: "approve_request lib app vas slots now auth i a d = Inr (row, d')" by (cases x) auto
      then have r': "r' \<in> set (sd_requests d')" using assms(1) by (simp add: Approve_Event committed_def)
      from approve_Inr [OF x] show ?thesis
      proof
        assume "\<exists>r sig. r \<in> set (sd_requests d) \<and> sr_id r = i \<and> sr_status r \<noteq> ''signed'' \<and>
          approved lib app (Approve_Event vas slots now auth i a) r sig \<and>
          d' = audit_event i ''approved-and-signed'' ''approver'' (mark_signed i sig d)"
        then obtain r sig where r: "r \<in> set (sd_requests d)" "sr_id r = i" "approved lib app e r sig"
          "d' = audit_event i ''approved-and-signed'' ''approver'' (mark_signed i sig d)" by (auto simp: Approve_Event)
        then obtain q where q: "q \<in> set (sd_requests d)"
            "r' = (if sr_id q = i then q\<lparr>sr_status := ''signed'', sr_signature := Some sig\<rparr> else q)"
          using r' by (auto simp: audit_event_def mark_signed_def mem_modify_by)
        show ?thesis
        proof (cases "sr_id q = i")
          case True
          then have "q = r" using distinct_map_inj [OF assms(2) q(1) r(1)] r(2) by simp
          then show ?thesis using q r by (auto simp: release_part_def)
        qed (use q in auto)
      qed (use r' in auto)
    qed (use assms(1) in \<open>auto simp: Approve_Event committed_def\<close>)
  next
    case (Late_Renewal now i)
    then show ?thesis
      using assms(1) renewed [of now i d] by (auto simp: late_renewal_def audit_event_def split: if_splits)
  qed
qed

lemma rows_accounted:
  assumes "signer_lib_ok lib" "r \<in> set (sd_requests (signer_run lib app es))"
  shows "(\<exists>e\<in>set es. \<exists>q. admitted lib app e q \<and> release_part q = release_part r) \<and>
    (\<forall>sig. sr_signature r = Some sig \<longrightarrow> (\<exists>e\<in>set es. \<exists>q. approved lib app e q sig \<and> release_part q = release_part r))"
  using assms(2)
proof (induction es arbitrary: r rule: rev_induct)
  case (snoc e es)
  have d: "distinct (map sr_id (sd_requests (signer_run lib app es)))"
    using signer_run_ok [OF assms(1)] by (simp add: requests_ok_def)
  from step_rows [OF snoc.prems [unfolded signer_run_simps] d] show ?case
  proof
    assume "admitted lib app e r"
    moreover then have "sr_signature r = None" by (auto simp: admitted_def new_request_def)
    ultimately show ?thesis by auto
  next
    assume "\<exists>q\<in>set (sd_requests (signer_run lib app es)). release_part q = release_part r \<and>
      (sr_signature r = sr_signature q \<or> (\<exists>sig. sr_signature r = Some sig \<and> approved lib app e q sig))"
    then obtain q where q: "q \<in> set (sd_requests (signer_run lib app es))" "release_part q = release_part r"
      "sr_signature r = sr_signature q \<or> (\<exists>sig. sr_signature r = Some sig \<and> approved lib app e q sig)" by blast
    show ?thesis using snoc.IH [OF q(1)] q(2,3) by auto
  qed
qed (simp add: empty_signer_def)

lemma signed_rows_kept:
  assumes "signer_lib_ok lib" "requests_ok lib d" "r \<in> set (sd_requests d)" "sr_signature r = Some s"
  shows "\<exists>r'\<in>set (sd_requests (signer_step lib app e d)). release_part r' = release_part r \<and> sr_signature r' = Some s"
proof -
  have st: "sr_status r = ''signed''" using assms(2-4) signed_kept by (fastforce simp: requests_ok_def list_all_iff)
  have pruned: "r \<in> set (sd_requests (prune now d))" for now using assms(3,4) by (simp add: prune_def)
  have renewed: "\<exists>r'\<in>set (sd_requests (renew now i x)). release_part r' = release_part r \<and> sr_signature r' = Some s"
    if "r \<in> set (sd_requests x)" for now i x
    using that assms(4)
    by (intro bexI [of _ "if sr_id r = i \<and> sr_expires_at r < now then r\<lparr>sr_expires_at := now + 86400\<rparr> else r"])
      (auto simp: renew_def release_part_def)
  show ?thesis
  proof (cases e)
    case (Create_Event va now auth input)
    show ?thesis
    proof (cases "create_signing_request lib app va now auth input d")
      case (Inr x)
      then obtain row d' where x: "create_signing_request lib app va now auth input d = Inr (row, d')" by (cases x) auto
      obtain q where "d' = prune now d \<or> d' = audit_event (sr_id q) ''renewed'' ''requester'' (renew now (sr_id q) (prune now d)) \<or>
          d' = audit_event (sr_id q) ''requested'' ''requester'' (prune now d\<lparr>sd_requests := sd_requests (prune now d) @ [q]\<rparr>)"
        using create_Inr [OF x] by blast
      then show ?thesis
        using pruned [of now] renewed [OF pruned [of now], of now "sr_id q"] assms(4) x
        by (auto simp: Create_Event committed_def audit_event_def)
    qed (use assms in \<open>auto simp: Create_Event committed_def\<close>)
  next
    case (Approve_Event vas slots now auth i a)
    show ?thesis
    proof (cases "approve_request lib app vas slots now auth i a d")
      case (Inr x)
      then obtain row d' where x: "approve_request lib app vas slots now auth i a d = Inr (row, d')" by (cases x) auto
      have "r \<in> set (sd_requests d')"
        using approve_Inr [OF x]
      proof
        assume "\<exists>q sig. q \<in> set (sd_requests d) \<and> sr_id q = i \<and> sr_status q \<noteq> ''signed'' \<and>
          approved lib app (Approve_Event vas slots now auth i a) q sig \<and>
          d' = audit_event i ''approved-and-signed'' ''approver'' (mark_signed i sig d)"
        then obtain q sig where q: "q \<in> set (sd_requests d)" "sr_id q = i" "sr_status q \<noteq> ''signed''"
          "d' = audit_event i ''approved-and-signed'' ''approver'' (mark_signed i sig d)" by blast
        have "sr_id r \<noteq> i"
          using distinct_map_inj [OF _ assms(3) q(1)] assms(2) q(2,3) st by (auto simp: requests_ok_def)
        then show ?thesis using assms(3) q(4) by (auto simp: audit_event_def mark_signed_def mem_modify_by)
      qed (use assms(3) in simp)
      then show ?thesis using assms(4) x by (auto simp: Approve_Event committed_def)
    qed (use assms in \<open>auto simp: Approve_Event committed_def\<close>)
  next
    case (Late_Renewal now i)
    then show ?thesis using renewed [OF assms(3)] assms(3,4) by (auto simp: late_renewal_def audit_event_def)
  qed
qed

section \<open>The client of the signer\<close>

text \<open>The JSON of \<open>PublicKey\<close> and \<open>SigningRequest\<close>, as \<open>JSON.parse\<close> of the server reads it.\<close>

definition key_response :: "vault_key \<Rightarrow> (string \<times> jsval) list" where
  "key_response k =
     [(''product'', JStr (vk_product k)), (''keyVersion'', JNum (Fin (of_nat (vk_key_version k)))),
      (''keyId'', JStr (vk_key_id k)), (''publicKey'', JStr (vk_public_key k))]"

definition row_response :: "signing_row \<Rightarrow> (string \<times> jsval) list" where
  "row_response r =
     [(''id'', JStr (sr_id r)), (''product'', JStr (sr_product r)), (''payload'', JStr (sr_payload r)),
      (''payloadDigest'', JStr (sr_payload_digest r)), (''keyId'', JStr (sr_key_id r)),
      (''keyVersion'', JNum (Fin (of_nat (sr_key_version r)))), (''publicKey'', JStr (sr_public_key r)),
      (''status'', JStr (sr_status r)), (''signature'', case sr_signature r of None \<Rightarrow> JNull | Some s \<Rightarrow> JStr s),
      (''expiresAt'', JNum (Fin (of_int (sr_expires_at r))))]"

text \<open>A key of the vault passes the validation of the server.\<close>

lemma vault_key_validated:
  assumes "signer_lib_ok lib" "sl_raw_key lib raw = Some pem"
  shows "validate_ota_public_key (sl_crypto lib) (JStr pem) =
    Inr \<lparr> pk_public_key = cr_spki_pem (sl_crypto lib) (trim pem), pk_key_id = fingerprint lib pem \<rparr>"
proof -
  have "cr_key_type (sl_crypto lib) (trim pem) = Some ''ed25519''" "length pem \<le> 4096"
    "starts_with (trim pem) ''-----BEGIN PUBLIC KEY-----''" "cr_spki_der (sl_crypto lib) (trim pem) = cr_spki_der (sl_crypto lib) pem"
    using assms unfolding signer_lib_ok_def by blast+
  then show ?thesis
    by (simp add: validate_ota_public_key_def get_public_key_def get_ota_signing_key_id_def fingerprint_def hex_digest_def)
qed

definition client_key :: "signer_lib \<Rightarrow> string \<Rightarrow> nat \<Rightarrow> string \<Rightarrow> managed_signing_key" where
  "client_key lib product version pem =
     \<lparr> mk_product = product, mk_key_version = int version, mk_key_id = fingerprint lib pem,
       mk_public_key = cr_spki_pem (sl_crypto lib) (trim pem) \<rparr>"

lemma signer_key_read:
  assumes "signer_lib_ok lib" "sl_raw_key lib raw = Some pem" "0 < version"
    "js_prop v ''product'' = JStr product" "js_prop v ''keyVersion'' = JNum (Fin (of_nat version))"
    "js_prop v ''publicKey'' = JStr pem" "js_prop v ''keyId'' = JStr (fingerprint lib pem)"
  shows "signer_key (sl_crypto lib) (Some v) product = Inr (client_key lib product version pem)"
  using assms(3-) vault_key_validated [OF assms(1,2)] by (simp add: signer_key_def client_key_def)

lemma client_reads_key:
  assumes "signer_lib_ok lib" "bao_key lib va product w = Inr k"
  shows "signer_key (sl_crypto lib) (Some (key_response k)) product = Inr (client_key lib product (vk_key_version k) (vk_public_key k))"
proof -
  obtain raw where "sl_raw_key lib raw = Some (vk_public_key k)" "vk_product k = product" "0 < vk_key_version k"
    "vk_key_id k = fingerprint lib (vk_public_key k)"
    using bao_key_Inr [OF assms(2)] by (auto simp: fingerprint_def)
  then show ?thesis
    using signer_key_read [OF assms(1), of raw "vk_public_key k" "vk_key_version k" "key_response k" product]
    by (simp add: key_response_def js_prop_def)
qed

text \<open>That no two keys have the same fingerprint.\<close>

definition fingerprints_apart :: "signer_lib \<Rightarrow> bool" where
  "fingerprints_apart lib \<longleftrightarrow> (\<forall>p q. fingerprint lib p = fingerprint lib q \<longrightarrow> cr_verify (sl_crypto lib) p = cr_verify (sl_crypto lib) q)"

lemma signature_under_client_key:
  assumes "signer_lib_ok lib" "sl_raw_key lib raw = Some pem" "fingerprints_apart lib" "fingerprint lib pem' = fingerprint lib pem"
    "verify_ota_release_signature (sl_crypto lib) payload (JStr s) pem'"
  shows "verify_ota_release_signature (sl_crypto lib) payload (JStr s) (cr_spki_pem (sl_crypto lib) (trim pem))"
proof -
  have t: "cr_key_type (sl_crypto lib) (trim pem) = Some ''ed25519''" "cr_verify (sl_crypto lib) (trim pem) = cr_verify (sl_crypto lib) pem"
    using assms(1,2) unfolding signer_lib_ok_def by blast+
  have "crypto_ok (sl_crypto lib)" using assms(1) by (simp add: signer_lib_ok_def)
  then have "cr_key_type (sl_crypto lib) (cr_spki_pem (sl_crypto lib) (trim pem)) = Some ''ed25519''"
    "cr_verify (sl_crypto lib) (cr_spki_pem (sl_crypto lib) (trim pem)) = cr_verify (sl_crypto lib) pem"
    using t unfolding crypto_ok_def by auto
  moreover have "cr_verify (sl_crypto lib) pem' = cr_verify (sl_crypto lib) pem"
    using assms(3) assms(4) unfolding fingerprints_apart_def by blast
  ultimately show ?thesis using assms(5) unfolding verify_iff by auto
qed

section \<open>Signing a release\<close>

lemma hex64_valid: "is_hex64 s \<Longrightarrow> valid_hex s"
proof -
  assume h: "is_hex64 s"
  then have "list_all (\<lambda>c. code c < 128) s"
    by (auto simp: is_hex64_def list_all_iff is_hex_def is_digit_def char_between_def)
  then show ?thesis using h by (simp add: valid_hex_def is_hex64_def length_utf8_text)
qed

lemma digests_valid:
  assumes "signer_lib_ok lib"
  shows "valid_hex (hex_digest lib b)" "valid_hex (request_id lib product key_id b)"
proof -
  have "is_hex64 (cr_sha256 (sl_crypto lib) x)" for x using assms by (simp add: signer_lib_ok_def crypto_ok_def)
  then show "valid_hex (hex_digest lib b)" "valid_hex (request_id lib product key_id b)"
    by (simp_all add: hex64_valid hex_digest_def request_id_def)
qed

lemma dec_hd_nonzero: "0 < n \<Longrightarrow> hd (dec n) \<noteq> CHR ''0''"
proof (induction n rule: dec.induct)
  case (1 n)
  show ?case
  proof (cases "n < 10")
    case True
    have "code (hd (dec n)) = 48 + n" using True by (subst dec.simps) simp
    moreover have "code (CHR ''0'') = 48" by code_simp
    ultimately show ?thesis using 1(2) by auto
  next
    case False
    then have "0 < n div 10" by simp
    then have "hd (dec (n div 10)) \<noteq> CHR ''0''" using 1(1) False by simp
    then show ?thesis using False by (subst dec.simps) simp
  qed
qed

lemma dec_leading_zero: "starts_with (dec n) ''0'' \<Longrightarrow> length (dec n) = 1"
proof (cases "n = 0")
  case False
  assume "starts_with (dec n) ''0''"
  then have "hd (dec n) = CHR ''0''" using dec_nonempty [of n] by (cases "dec n") (auto simp: starts_with_def)
  then show ?thesis using dec_hd_nonzero [of n] False by simp
qed (subst dec.simps, simp)

lemma dec_part: "n \<le> 2147483647 \<Longrightarrow> version_part (dec n) \<and> CHR ''.'' \<notin> set (dec n)"
  using dec_digits [of n] dec_nonempty [of n] dec_leading_zero [of n]
  by (auto simp: version_part_def list_all_iff is_digit_def char_between_def)

text \<open>The versions of the server are the versions the signer supports.\<close>

lemma version_text_supported:
  assumes "0 \<le> ver_major v" "ver_major v \<le> 2147483647" "0 \<le> ver_minor v" "ver_minor v \<le> 2147483647"
    "0 \<le> ver_patch v" "ver_patch v \<le> 2147483647"
  shows "version_supported (version_text v)"
proof -
  have p: "version_part (dec (nat n)) \<and> CHR ''.'' \<notin> set (dec (nat n))" if "0 \<le> n" "n \<le> 2147483647" for n
    using that by (intro dec_part) linarith
  have "split_on (CHR ''.'') (version_text v) = [dec (nat (ver_major v)), dec (nat (ver_minor v)), dec (nat (ver_patch v))]"
    using assms p by (simp add: version_text_def int_text_def split_on_append split_on_single)
  then show ?thesis using assms p by (simp add: version_supported_def)
qed

lemma payload_parsed:
  assumes "signer_lib_ok lib" "supported_manifest (mf_software m) 1 m" "0 \<le> mf_size_bytes m" "length (payload_of m) \<le> 120000"
  shows "parse_release lib (payload_of m) (mf_software m) = Inr (utf8 (json_object (manifest_obj m)), m)"
proof -
  have "mf_size_bytes m < 2 ^ 64" using assms(2) by (simp add: supported_manifest_def)
  then have "sl_manifest lib (utf8 (json_object (manifest_obj m))) = Some (1, m)"
    "sl_decode lib (payload_of m) = Some (utf8 (json_object (manifest_obj m)))" "sl_encode lib = base64url"
    using assms(1,3) unfolding signer_lib_ok_def payload_of_def by blast+
  moreover have "payload_of m \<noteq> []"
    using length_base64url [of "utf8 (json_object (manifest_obj m))"] by (auto simp: payload_of_def json_object_def utf8_Cons utf8_char_def)
  ultimately show ?thesis using assms(2,4) by (simp add: parse_release_Inr payload_of_def)
qed

lemma find_by_snoc: "k \<notin> key ` set xs \<Longrightarrow> key r = k \<Longrightarrow> find_by key k (xs @ [r]) = Some r"
  by (induction xs) (auto simp: find_by_def)

text \<open>A submission that is new, and the approval of a pending request.\<close>

definition after_submission :: "int \<Rightarrow> signing_row \<Rightarrow> signer_db \<Rightarrow> signer_db" where
  "after_submission now r d =
     audit_event (sr_id r) ''requested'' ''requester'' (prune now d\<lparr>sd_requests := sd_requests (prune now d) @ [r]\<rparr>)"

lemma submission_succeeds:
  fixes now :: int
  assumes "signer_lib_ok lib" "check_auth lib auth (ap_requester_hash app) = Inr ()"
    "parse_release lib (ci_payload input) (ci_product input) = Inr (b, m)"
    "bao_key lib va (ci_product input) (Some (ci_key_version input)) = Inr key" "vk_key_id key = ci_key_id input"
    "ci_key_version input \<le> 2147483647" "length (sd_requests d) < 10000"
    "request_id lib (ci_product input) (ci_key_id input) b \<notin> sr_id ` set (sd_requests d)"
  defines "r \<equiv> new_request lib now input key b"
  shows "create_signing_request lib app va now auth input d = Inr (r, after_submission now r d) \<and>
    find_by sr_id (sr_id r) (sd_requests (after_submission now r d)) = Some r"
proof -
  have id: "sr_id r = request_id lib (ci_product input) (vk_key_id key) b" by (simp add: r_def new_request_def)
  have new: "sr_id r \<notin> sr_id ` set (sd_requests (prune now d))" "length (sd_requests (prune now d)) < 10000"
    using assms(5,7,8) le_less_trans [OF length_filter_le] by (auto simp: prune_def id)
  have "find_by sr_id (request_id lib (ci_product input) (vk_key_id key) b) (sd_requests (prune now d)) = None"
    using new(1) by (simp add: find_by_None id)
  then have "admit_request lib now input key b d = Inr (r, after_submission now r d)"
    using new(2) by (simp add: admit_request_def after_submission_def fail_if_def Let_def id flip: r_def)
  moreover have "valid_hex (ci_key_id input)" "0 < ci_key_version input"
    using bao_key_Inr [OF assms(4)] digests_valid [OF assms(1)] assms(5) by auto
  ultimately show ?thesis
    using assms(2-6) find_by_snoc [OF new(1)] by (simp add: create_signing_request_def fail_if_def after_submission_def audit_event_def)
qed

lemma approval_succeeds:
  assumes "check_auth lib auth (ap_approver_hash app) = Inr ()" "valid_hex i" "0 < slots"
    "find_by sr_id i (sd_requests d) = Some r" "parse_release lib (sr_payload r) (sr_product r) = Inr (b, m)"
    "matches_release a r m" "\<And>x. x \<in> {va, va2} \<Longrightarrow> bao_key lib x (sr_product r) (Some (sr_key_version r)) = Inr key"
    "vk_key_id key = sr_key_id r" "sr_status r = ''pending''" "now \<le> sr_expires_at r" "bao_sign lib va1 key b = Inr sig"
  shows "approve_request lib app (va, va1, va2) slots now auth i a d =
      Inr (r\<lparr>sr_status := ''signed'', sr_signature := Some sig\<rparr>, audit_event i ''approved-and-signed'' ''approver'' (mark_signed i sig d)) \<and>
    r\<lparr>sr_status := ''signed'', sr_signature := Some sig\<rparr> \<in> set (sd_requests (mark_signed i sig d))"
proof -
  have "bao_key lib va (sr_product r) (Some (sr_key_version r)) = Inr key" "bao_key lib va2 (sr_product r) (Some (sr_key_version r)) = Inr key"
    using assms(7) by auto
  moreover have "r \<in> set (sd_requests d)" "sr_id r = i" using find_by_Some [OF assms(4)] by auto
  ultimately show ?thesis
    using assms(1-6,8-11) by (auto simp: approve_request_def fail_if_def mark_signed_def mem_modify_by)
qed

section \<open>Two identities\<close>

text \<open>
  A signer that was started gives no header both roles, unless the digests of two different texts agree; and
  a request without a token has neither role, unless the digest of the empty text is that of a secret.
\<close>

lemma identities_apart:
  assumes "start_identities lib f g = Some app" "check_auth lib h (ap_requester_hash app) = Inr ()" "check_auth lib h (ap_approver_hash app) = Inr ()"
  shows "\<exists>x y. x \<noteq> y \<and> token_hash lib x = token_hash lib y"
proof -
  obtain x y where "x \<noteq> y" "ap_requester_hash app = token_hash lib x" "ap_approver_hash app = token_hash lib y"
    using assms(1) by (auto simp: start_identities_def split: option.splits if_splits)
  then show ?thesis using assms(2,3) by (auto simp: check_auth_Inr)
qed

lemma no_token_no_role:
  assumes "start_identities lib f g = Some app" "check_read lib app None = Inr ()"
  shows "\<exists>x. x \<noteq> [] \<and> token_hash lib x = token_hash lib []"
proof -
  have nonempty: "read_secret content = Some x \<Longrightarrow> x \<noteq> []" for content x
    by (auto simp: read_secret_def utf8_def Let_def split: option.splits if_splits)
  obtain x y where "x \<noteq> []" "y \<noteq> []" "ap_requester_hash app = token_hash lib x" "ap_approver_hash app = token_hash lib y"
    using assms(1) by (auto simp: start_identities_def split: option.splits if_splits dest!: nonempty intro: that)
  moreover have "token_hash lib [] = ap_requester_hash app \<or> token_hash lib [] = ap_approver_hash app"
    using assms(2) by (auto simp: check_read_def check_auth_def bearer_def fail_if_def split: if_splits)
  ultimately show ?thesis by metis
qed

section \<open>Properties\<close>

text \<open>
  C35. Whatever requests the signer receives, in whatever order, at whatever times and whatever its vault answers:
  request identifiers are unique and derived from the product, the key and the manifest, a request is signed
  exactly when it has a signature, that signature is one the server accepts over the stored payload with a
  key of the stored fingerprint, at most 10,000 requests are kept, and the audit has one entry of an approval
  for every signed request and none for another.
\<close>

theorem signer_requests_sound:
  assumes "signer_lib_ok lib"
  shows "requests_ok lib (signer_run lib app es)"
  using assms by (rule signer_run_ok)

text \<open>
  C12. No signature without two identities: a signed request was submitted with the token of the requester, and
  approved with the token of the approver for exactly the digest of its payload and for an artifact of exactly
  the checksum and the size that its manifest states; and it stays signed as it is whatever happens later.
\<close>

theorem signing_needs_approval:
  assumes "signer_lib_ok lib" "r \<in> set (sd_requests (signer_run lib app es))" "sr_signature r = Some sig"
  shows "\<exists>b m va now auth input vas slots now2 auth2 a.
    sr_payload r = base64url b \<and> sl_manifest lib b = Some (1, m) \<and> mf_software m = sr_product r \<and>
    Create_Event va now auth input \<in> set es \<and> token_hash lib (bearer auth) = ap_requester_hash app \<and>
    ci_payload input = sr_payload r \<and> ci_product input = sr_product r \<and>
    Approve_Event vas slots now2 auth2 (sr_id r) a \<in> set es \<and> token_hash lib (bearer auth2) = ap_approver_hash app \<and>
    ai_payload_digest a = hex_digest lib b \<and> ai_artifact_sha256 a = mf_sha256 m \<and> int (ai_artifact_size_bytes a) = mf_size_bytes m"
proof -
  obtain e1 q1 where c: "e1 \<in> set es" "admitted lib app e1 q1" "release_part q1 = release_part r"
    using rows_accounted [OF assms(1,2)] by blast
  obtain e2 q2 where a: "e2 \<in> set es" "approved lib app e2 q2 sig" "release_part q2 = release_part r"
    using rows_accounted [OF assms(1,2)] assms(3) by blast
  have "signing_row_ok lib r" using signer_run_ok [OF assms(1)] assms(2) by (auto simp: requests_ok_def list_all_iff)
  then obtain b m where b: "parse_release lib (sr_payload r) (sr_product r) = Inr (b, m)" "sr_payload_digest r = hex_digest lib b"
    by (auto simp: signing_row_ok_def)
  have enc: "sl_encode lib = base64url" using assms(1) by (simp add: signer_lib_ok_def)
  have m: "sr_payload r = base64url b" "sl_manifest lib b = Some (1, m)" "mf_software m = sr_product r"
    using b(1) by (auto simp: parse_release_Inr supported_manifest_def enc)
  obtain va now auth input where ce: "Create_Event va now auth input \<in> set es"
      "token_hash lib (bearer auth) = ap_requester_hash app" "ci_payload input = sr_payload r" "ci_product input = sr_product r"
    using c by (auto simp: admitted_def release_part_def new_request_def)
  obtain vas slots now2 auth2 ap b2 m2 where ae: "Approve_Event vas slots now2 auth2 (sr_id q2) ap \<in> set es"
      "token_hash lib (bearer auth2) = ap_approver_hash app" "parse_release lib (sr_payload q2) (sr_product q2) = Inr (b2, m2)"
      "matches_release ap q2 m2"
    using a(1,2) by (auto simp: approved_def)
  have q2: "sr_id q2 = sr_id r" "sr_payload q2 = sr_payload r" "sr_product q2 = sr_product r" "sr_payload_digest q2 = sr_payload_digest r"
    using a(3) by (simp_all add: release_part_def)
  then have "m2 = m" using ae(3) b(1) by simp
  then have "ai_payload_digest ap = hex_digest lib b" "ai_artifact_sha256 ap = mf_sha256 m" "int (ai_artifact_size_bytes ap) = mf_size_bytes m"
    using ae(4) q2(4) b(2) by (simp_all add: matches_release_def)
  then show ?thesis using m ce ae(1,2) unfolding q2(1) by blast
qed

text \<open>
  C13. The signer and its client agree: for every request the signer can hold, and the key that the client read
  from the vault of the signer under the fingerprint and the version of the request, the client accepts the
  answer of the signer and sees its status, signature and expiry; a signature it sees verifies under its key.
\<close>

theorem client_accepts_signer:
  assumes "signer_lib_ok lib" "fingerprints_apart lib" "r \<in> set (sd_requests (signer_run lib app es))"
    "is_safe_integer (sr_expires_at r)"
    "bao_key lib va (sr_product r) w = Inr k" "vk_key_id k = sr_key_id r" "vk_key_version k = sr_key_version r"
  shows "\<exists>key q. signer_key (sl_crypto lib) (Some (key_response k)) (sr_product r) = Inr key \<and>
    signing_request (sl_crypto lib) (Some (row_response r)) key (sr_payload r) = Inr (Some q) \<and>
    mr_id q = sr_id r \<and> mr_status q = JStr (sr_status r) \<and> mr_expires_at q = sr_expires_at r \<and>
    mr_signature q = (case sr_signature r of None \<Rightarrow> JNull | Some s \<Rightarrow> JStr s) \<and>
    (sr_status r = ''signed'' \<longrightarrow> verify_ota_release_signature (sl_crypto lib) (sr_payload r) (mr_signature q) (mk_public_key key))"
proof -
  let ?key = "client_key lib (sr_product r) (vk_key_version k) (vk_public_key k)"
  have ok: "signing_row_ok lib r" using signer_run_ok [OF assms(1)] assms(3) by (auto simp: requests_ok_def list_all_iff)
  then obtain b m raw where r: "parse_release lib (sr_payload r) (sr_product r) = Inr (b, m)" "sr_payload_digest r = hex_digest lib b"
    "sr_id r = request_id lib (sr_product r) (sr_key_id r) b" "0 < sr_key_version r" "sr_key_id r = fingerprint lib (sr_public_key r)"
    "sl_raw_key lib raw = Some (sr_public_key r)" by (auto simp: signing_row_ok_def)
  have "sr_payload r = base64url b" using r(1) assms(1) by (auto simp: parse_release_Inr signer_lib_ok_def)
  then have b: "base64url_decode (sr_payload r) = b" by simp
  obtain raw2 where k: "sl_raw_key lib raw2 = Some (vk_public_key k)" "fingerprint lib (vk_public_key k) = sr_key_id r"
    using bao_key_Inr [OF assms(5)] assms(6) by (auto simp: fingerprint_def)
  have row_key: "signer_key (sl_crypto lib) (Some (row_response r)) (sr_product r) =
      Inr (client_key lib (sr_product r) (sr_key_version r) (sr_public_key r))"
    by (rule signer_key_read [OF assms(1) r(6,4)]) (simp_all add: row_response_def js_prop_def r(5))
  have "sr_status r = ''signed'' \<Longrightarrow> \<exists>s. sr_signature r = Some s \<and>
      verify_ota_release_signature (sl_crypto lib) (sr_payload r) (JStr s) (mk_public_key ?key)"
    using ok signature_under_client_key [OF assms(1) k(1) assms(2)] k(2) by (fastforce simp: signing_row_ok_def client_key_def)
  moreover have "sr_status r = ''pending'' \<and> sr_signature r = None \<or> sr_status r = ''signed''"
    using ok by (auto simp: signing_row_ok_def)
  moreover have "js_safe_integer (JNum (Fin (of_int (sr_expires_at r)))) = Some (sr_expires_at r)"
    using assms(4) by (simp add: js_safe_integer_def)
  moreover have "managed_request_id (sl_crypto lib) (sr_product r) (sr_key_id r) (sr_payload r) = sr_id r"
    by (simp add: managed_request_id_def r(3) request_id_def b)
  moreover have "cr_sha256 (sl_crypto lib) b = sr_payload_digest r" by (simp add: r(2) hex_digest_def)
  ultimately have "\<exists>q. signing_request (sl_crypto lib) (Some (row_response r)) ?key (sr_payload r) = Inr (Some q) \<and>
      mr_id q = sr_id r \<and> mr_status q = JStr (sr_status r) \<and> mr_expires_at q = sr_expires_at r \<and>
      mr_signature q = (case sr_signature r of None \<Rightarrow> JNull | Some s \<Rightarrow> JStr s) \<and>
      (sr_status r = ''signed'' \<longrightarrow> verify_ota_release_signature (sl_crypto lib) (sr_payload r) (mr_signature q) (mk_public_key ?key))"
    using row_key k(2) assms(7) r(5)
    by (auto simp: signing_request_def client_key_def b) (auto simp: row_response_def js_prop_def)
  then show ?thesis using client_reads_key [OF assms(1,5)] by blast
qed

text \<open>
  C36. A release whose manifest the signer supports can be signed: while the vault answers for the key, a submission of
  the payload that the server builds and an approval of its digest, checksum and size within a day succeed, and
  leave a signature over that payload which the server accepts.
\<close>

theorem managed_signing_completes:
  assumes "signer_lib_ok lib" "supported_manifest (mf_software m) 1 m" "0 \<le> mf_size_bytes m" "length (payload_of m) \<le> 120000"
    "check_auth lib auth (ap_requester_hash app) = Inr ()" "check_auth lib auth2 (ap_approver_hash app) = Inr ()"
    "\<And>x. x \<in> {va, va1, va3} \<Longrightarrow> bao_key lib x (mf_software m) (Some v) = Inr key" "v \<le> 2147483647"
    "bao_sign lib va2 key (utf8 (json_object (manifest_obj m))) = Inr sig"
    "length (sd_requests d) < 10000" "0 < slots" "now2 \<le> now + 86400"
    "request_id lib (mf_software m) (vk_key_id key) (utf8 (json_object (manifest_obj m))) \<notin> sr_id ` set (sd_requests d)"
  shows "\<exists>r d1 r2 d2.
    create_signing_request lib app va now auth
      \<lparr> ci_product = mf_software m, ci_payload = payload_of m, ci_key_id = vk_key_id key, ci_key_version = v \<rparr> d = Inr (r, d1) \<and>
    approve_request lib app (va1, va2, va3) slots now2 auth2 (sr_id r)
      \<lparr> ai_payload_digest = hex_digest lib (utf8 (json_object (manifest_obj m))), ai_artifact_sha256 = mf_sha256 m,
        ai_artifact_size_bytes = nat (mf_size_bytes m), ai_expires_at = sr_expires_at r \<rparr> d1 = Inr (r2, d2) \<and>
    r2 \<in> set (sd_requests d2) \<and> sr_payload r2 = payload_of m \<and> sr_signature r2 = Some sig \<and>
    verify_ota_release_signature (sl_crypto lib) (payload_of m) (JStr sig) (vk_public_key key)"
proof -
  let ?b = "utf8 (json_object (manifest_obj m))"
  let ?in = "\<lparr> ci_product = mf_software m, ci_payload = payload_of m, ci_key_id = vk_key_id key, ci_key_version = v \<rparr>"
  let ?r = "new_request lib now ?in key ?b"
  have key: "bao_key lib va (mf_software m) (Some v) = Inr key" using assms(7) by auto
  note p = payload_parsed [OF assms(1-4)]
  have s: "create_signing_request lib app va now auth ?in d = Inr (?r, after_submission now ?r d) \<and>
      find_by sr_id (sr_id ?r) (sd_requests (after_submission now ?r d)) = Some ?r"
    using submission_succeeds [OF assms(1,5), where input = ?in and b = ?b and m = m and va = va and key = key and d = d and now = now] p key assms(8,10,13) by simp
  have "vk_key_version key = v" using bao_key_Inr [OF key] by simp
  then have fields: "sr_product ?r = mf_software m" "sr_payload ?r = payload_of m" "sr_key_version ?r = v"
    "sr_key_id ?r = vk_key_id key" "sr_status ?r = ''pending''" "now2 \<le> sr_expires_at ?r" "valid_hex (sr_id ?r)"
    "matches_release \<lparr> ai_payload_digest = hex_digest lib ?b, ai_artifact_sha256 = mf_sha256 m,
        ai_artifact_size_bytes = nat (mf_size_bytes m), ai_expires_at = sr_expires_at ?r \<rparr> ?r m"
    using assms(3,12) digests_valid [OF assms(1)] by (simp_all add: new_request_def matches_release_def)
  note a = approval_succeeds [OF assms(6) fields(7) assms(11) conjunct2 [OF s], unfolded fields, OF p fields(8) _ refl refl fields(6) assms(9), of va1 va3]
  show ?thesis using s a assms(7) sign_verifies [OF assms(1) p key assms(9)] by (fastforce simp: audit_event_def fields)
qed

section \<open>A concrete signer\<close>

definition manifest_of_obj :: "json_obj \<Rightarrow> (nat \<times> ota_manifest) option" where
  "manifest_of_obj ps =
     (case ps of
        [(_, SInt v), (_, SStr sw), (_, SStr ver), (_, codename), (_, changelog), (_, SStr channel),
         (_, SStr platform), (_, SStr architecture), (_, SStr file_name), (_, SInt sz), (_, SStr sha)] \<Rightarrow>
          Some (nat v, \<lparr> mf_software = sw, mf_version = ver,
            mf_codename = (case codename of SStr s \<Rightarrow> Some s | _ \<Rightarrow> None),
            mf_changelog = (case changelog of SStr s \<Rightarrow> Some s | _ \<Rightarrow> None), mf_channel = channel, mf_platform = platform,
            mf_architecture = architecture, mf_file_name = file_name, mf_size_bytes = sz, mf_sha256 = sha \<rparr>)
      | _ \<Rightarrow> None)"

lemma manifest_of_obj: "manifest_of_obj (manifest_obj m) = Some (1, m)"
  by (cases m; cases "mf_codename m"; cases "mf_changelog m") (simp_all add: manifest_of_obj_def manifest_obj_def opt_text_def)

definition toy_vault_key :: json_value where
  "toy_vault_key = V_Object [(''data'', V_Object [(''type'', V_String ''ed25519''), (''derived'', V_Bool False),
     (''exportable'', V_Bool False), (''allow_plaintext_backup'', V_Bool False), (''latest_version'', V_Unsigned 1),
     (''keys'', V_Object [(''1'', V_Object [(''public_key'', V_String ''K'')])])])]"

definition toy_signature :: string where
  "toy_signature = base64url (toy_sign (utf8 (json_object (manifest_obj sample_manifest))))"

definition toy_signer :: signer_lib where
  "toy_signer = \<lparr> sl_crypto = toy_crypto, sl_encode = base64url, sl_decode = (\<lambda>s. Some (base64url_decode s)),
     sl_std_encode = base64url, sl_std_decode = (\<lambda>s. Some (if s = ''K'' then replicate 32 1 else base64url_decode s)),
     sl_json = (\<lambda>b. if b = [1] then Some toy_vault_key
        else Some (V_Object [(''data'', V_Object [(''signature'', V_String (''vault:v1:'' @ toy_signature))])])),
     sl_manifest = (\<lambda>b. Option.bind (Option.bind (utf8_decode b) json_parse) manifest_of_obj),
     sl_raw_key = (\<lambda>raw. if raw = replicate 32 1 then Some toy_pem else None),
     sl_verify_strict = (\<lambda>pem b s. s = toy_sign b) \<rparr>"

definition toy_bao :: bao where
  "toy_bao = \<lparr> va_token = Some ''t'', va_send = (\<lambda>token meth path body.
     Some \<lparr> vr_status = 200, vr_content_length = None, vr_body = (if meth = ''GET'' then [1] else [2]) \<rparr>) \<rparr>"

definition toy_app :: signer_app where
  "toy_app = \<lparr> ap_requester_hash = token_hash toy_signer ''requester'', ap_approver_hash = token_hash toy_signer ''approver'' \<rparr>"

definition toy_submission :: create_input where
  "toy_submission = \<lparr> ci_product = ''app'', ci_payload = payload_of sample_manifest, ci_key_id = toy_key_id, ci_key_version = 1 \<rparr>"

definition toy_approval :: approval where
  "toy_approval = \<lparr> ai_payload_digest = toy_digest (utf8 (json_object (manifest_obj sample_manifest))),
     ai_artifact_sha256 = replicate 64 (CHR ''a''), ai_artifact_size_bytes = 5, ai_expires_at = 86500 \<rparr>"

definition toy_events :: "signer_event list" where
  "toy_events = [Create_Event toy_bao 100 (Some ''Bearer requester'') toy_submission,
     Approve_Event (toy_bao, toy_bao, toy_bao) 1 200 (Some ''Bearer approver'')
       (request_id toy_signer ''app'' toy_key_id (utf8 (json_object (manifest_obj sample_manifest)))) toy_approval]"

lemma toy_signer_ok: "signer_lib_ok toy_signer"
proof -
  have m: "sl_manifest toy_signer (utf8 (json_object (manifest_obj m))) = Some (1, m)" for m
    by (simp add: toy_signer_def json_roundtrip [OF manifest_keys] manifest_of_obj)
  have "trim toy_pem = toy_pem" "starts_with toy_pem ''-----BEGIN PUBLIC KEY-----''" "length toy_pem \<le> 4096" by code_simp+
  then have "\<forall>raw pem. sl_raw_key toy_signer raw = Some pem \<longrightarrow>
        cr_key_type (sl_crypto toy_signer) pem = Some ''ed25519'' \<and> cr_key_type (sl_crypto toy_signer) (trim pem) = Some ''ed25519'' \<and>
        cr_spki_der (sl_crypto toy_signer) (trim pem) = cr_spki_der (sl_crypto toy_signer) pem \<and>
        cr_verify (sl_crypto toy_signer) (trim pem) = cr_verify (sl_crypto toy_signer) pem \<and>
        length pem \<le> 4096 \<and> starts_with (trim pem) ''-----BEGIN PUBLIC KEY-----''"
    by (auto simp: toy_signer_def toy_crypto_def)
  moreover have "\<forall>pem b s. sl_verify_strict toy_signer pem b s \<longrightarrow> cr_verify (sl_crypto toy_signer) pem b s"
    by (simp add: toy_signer_def toy_crypto_def)
  moreover have "crypto_ok (sl_crypto toy_signer)" "sl_encode toy_signer = base64url" "\<forall>b. sl_decode toy_signer (base64url b) = Some b"
    by (simp_all add: toy_signer_def toy_crypto_ok)
  ultimately show ?thesis unfolding signer_lib_ok_def using m by blast
qed

lemma toy_apart: "fingerprints_apart toy_signer"
  by (simp add: fingerprints_apart_def toy_signer_def toy_crypto_def)

definition toy_bytes :: bytes where
  "toy_bytes = utf8 (json_object (manifest_obj sample_manifest))"

definition toy_key :: vault_key where
  "toy_key = \<lparr> vk_product = ''app'', vk_key_version = 1, vk_key_id = toy_key_id, vk_public_key = toy_pem \<rparr>"

lemma toy_dec: "dec 1 = ''1''" "dec (Suc 0) = ''1''" by code_simp+

lemma toy_bao_key: "bao_key toy_signer toy_bao ''app'' (Some 1) = Inr toy_key"
proof -
  have "valid_slug ''app''" by code_simp
  then show ?thesis
    by (simp add: bao_key_def bao_call_def toy_bao_def toy_signer_def toy_vault_key_def custody_policy_def min_version_def
        toy_dec toy_key_def toy_key_id_def hex_digest_def toy_crypto_def Let_def)
qed

lemma toy_bao_sign: "bao_sign toy_signer toy_bao toy_key toy_bytes = Inr toy_signature"
proof -
  have "length (toy_sign toy_bytes) = 64" by (simp add: toy_sign_def)
  moreover have "toy_signature \<noteq> ''K''" by (auto simp: toy_signature_def toy_sign_def length_base64url dest: arg_cong [of _ _ length])
  ultimately show ?thesis
    by (simp add: bao_sign_def bao_call_def toy_bao_def toy_signer_def toy_key_def toy_dec strip_prefix_def starts_with_def
        toy_signature_def toy_bytes_def)
qed

lemma toy_supported: "supported_manifest ''app'' 1 sample_manifest" "length (payload_of sample_manifest) \<le> 120000"
  "0 \<le> mf_size_bytes sample_manifest" "mf_software sample_manifest = ''app''"
  by code_simp+

lemma toy_tokens: "check_auth toy_signer (Some ''Bearer requester'') (ap_requester_hash toy_app) = Inr ()"
  "check_auth toy_signer (Some ''Bearer approver'') (ap_approver_hash toy_app) = Inr ()"
  by (simp_all add: check_auth_def toy_app_def bearer_def starts_with_def utf8_def utf8_char_def)

text \<open>The two requests of \<open>toy_events\<close> leave a signed request.\<close>

lemma toy_run:
  obtains r where "r \<in> set (sd_requests (signer_run toy_signer toy_app toy_events))" "sr_signature r = Some toy_signature"
    "sr_status r = ''signed''" "sr_product r = ''app''" "sr_key_id r = toy_key_id" "sr_key_version r = 1" "sr_expires_at r = 86500"
proof -
  let ?r = "new_request toy_signer 100 toy_submission toy_key toy_bytes"
  let ?d = "after_submission 100 ?r empty_signer"
  let ?r2 = "?r\<lparr>sr_status := ''signed'', sr_signature := Some toy_signature\<rparr>"
  have p: "parse_release toy_signer (payload_of sample_manifest) ''app'' = Inr (toy_bytes, sample_manifest)"
    using payload_parsed [OF toy_signer_ok _ toy_supported(3,2)] toy_supported(1,4) by (simp add: toy_bytes_def)
  have c: "create_signing_request toy_signer toy_app toy_bao 100 (Some ''Bearer requester'') toy_submission empty_signer = Inr (?r, ?d) \<and>
      find_by sr_id (sr_id ?r) (sd_requests ?d) = Some ?r"
    using p toy_bao_key
    by (intro submission_succeeds [OF toy_signer_ok toy_tokens(1), where m = sample_manifest])
      (simp_all add: toy_submission_def toy_key_def empty_signer_def)
  have id: "sr_id ?r = request_id toy_signer ''app'' toy_key_id toy_bytes"
    by (simp add: new_request_def toy_submission_def toy_key_def)
  have f: "sr_product ?r = ''app''" "sr_payload ?r = payload_of sample_manifest" "sr_key_version ?r = 1" "sr_key_id ?r = toy_key_id"
    "sr_status ?r = ''pending''" "sr_expires_at ?r = 86500" "sr_payload_digest ?r = toy_digest toy_bytes"
    by (simp_all add: new_request_def toy_submission_def toy_key_def hex_digest_def toy_signer_def toy_crypto_def)
  have m: "matches_release toy_approval ?r sample_manifest"
  proof -
    have "mf_sha256 sample_manifest = replicate 64 (CHR ''a'')" "mf_size_bytes sample_manifest = 5" by (simp_all add: sample_manifest_def)
    then show ?thesis by (simp add: matches_release_def f toy_approval_def flip: toy_bytes_def)
  qed
  have a: "approve_request toy_signer toy_app (toy_bao, toy_bao, toy_bao) 1 200 (Some ''Bearer approver'') (sr_id ?r) toy_approval ?d =
      Inr (?r2, audit_event (sr_id ?r) ''approved-and-signed'' ''approver'' (mark_signed (sr_id ?r) toy_signature ?d)) \<and>
      ?r2 \<in> set (sd_requests (mark_signed (sr_id ?r) toy_signature ?d))"
  proof (rule approval_succeeds [OF toy_tokens(2), where key = toy_key and m = sample_manifest and b = toy_bytes])
    show "valid_hex (sr_id ?r)" by (simp add: id digests_valid [OF toy_signer_ok])
    show "vk_key_id toy_key = sr_key_id ?r" by (simp only: f) (simp add: toy_key_def)
  qed (use c p toy_bao_key toy_bao_sign m in \<open>simp_all add: f\<close>)
  have "?r2 \<in> set (sd_requests (signer_run toy_signer toy_app toy_events))"
    using c a by (simp add: toy_events_def signer_run_def committed_def id audit_event_def flip: toy_bytes_def)
  then show thesis by (rule that) (simp_all add: f)
qed

lemma signer_requests_sound_witness: "requests_ok toy_signer (signer_run toy_signer toy_app toy_events)"
  by (rule signer_requests_sound) (rule toy_signer_ok)

lemma signing_needs_approval_witness:
  "\<exists>vas slots now auth i a. Approve_Event vas slots now auth i a \<in> set toy_events \<and>
     token_hash toy_signer (bearer auth) = ap_approver_hash toy_app \<and> ai_artifact_sha256 a = replicate 64 (CHR ''a'')"
proof -
  obtain r where r: "r \<in> set (sd_requests (signer_run toy_signer toy_app toy_events))" "sr_signature r = Some toy_signature"
    by (rule toy_run)
  from signing_needs_approval [OF toy_signer_ok r] obtain vas slots now auth a
    where "Approve_Event vas slots now auth (sr_id r) a \<in> set toy_events" "token_hash toy_signer (bearer auth) = ap_approver_hash toy_app"
    by blast
  then show ?thesis by (auto simp: toy_events_def toy_approval_def)
qed

lemma client_accepts_signer_witness:
  "\<exists>r key q. r \<in> set (sd_requests (signer_run toy_signer toy_app toy_events)) \<and>
     signing_request toy_crypto (Some (row_response r)) key (sr_payload r) = Inr (Some q) \<and> mr_signature q = JStr toy_signature \<and>
     verify_ota_release_signature toy_crypto (sr_payload r) (JStr toy_signature) (mk_public_key key)"
proof -
  obtain r where r: "r \<in> set (sd_requests (signer_run toy_signer toy_app toy_events))" "sr_signature r = Some toy_signature"
    "sr_status r = ''signed''" "sr_product r = ''app''" "sr_key_id r = toy_key_id" "sr_key_version r = 1" "sr_expires_at r = 86500"
    by (rule toy_run)
  have "is_safe_integer (sr_expires_at r)" "sl_crypto toy_signer = toy_crypto" "vk_key_id toy_key = toy_key_id" "vk_key_version toy_key = 1"
    by (simp_all add: r(7) is_safe_integer_def max_safe_integer_def toy_signer_def toy_key_def)
  then show ?thesis
    using client_accepts_signer [OF toy_signer_ok toy_apart r(1), of toy_bao "Some 1" toy_key] toy_bao_key r by fastforce
qed

lemma managed_signing_completes_witness:
  "\<exists>r d1 r2 d2. create_signing_request toy_signer toy_app toy_bao 100 (Some ''Bearer requester'')
      \<lparr> ci_product = ''app'', ci_payload = payload_of sample_manifest, ci_key_id = toy_key_id, ci_key_version = 1 \<rparr> empty_signer = Inr (r, d1) \<and>
     approve_request toy_signer toy_app (toy_bao, toy_bao, toy_bao) 8 200 (Some ''Bearer approver'') (sr_id r)
      \<lparr> ai_payload_digest = hex_digest toy_signer toy_bytes, ai_artifact_sha256 = mf_sha256 sample_manifest,
        ai_artifact_size_bytes = nat (mf_size_bytes sample_manifest), ai_expires_at = sr_expires_at r \<rparr> d1 = Inr (r2, d2) \<and>
     sr_signature r2 = Some toy_signature"
proof -
  have "supported_manifest (mf_software sample_manifest) 1 sample_manifest" using toy_supported(1,4) by simp
  from managed_signing_completes [OF toy_signer_ok this toy_supported(3,2) toy_tokens,
      where va = toy_bao and ?va1.0 = toy_bao and ?va2.0 = toy_bao and ?va3.0 = toy_bao and v = 1 and key = toy_key and
        sig = toy_signature and d = empty_signer and slots = 8 and now = 100 and ?now2.0 = 200]
  show ?thesis using toy_bao_key toy_bao_sign toy_supported(4)
    by (simp add: empty_signer_def toy_key_def flip: toy_bytes_def) blast
qed

end
