(* ===== verification/Legacy_Import.thy ===== *)
theory Legacy_Import
  imports Migration_Types Provider_Service
begin

text \<open>
  \<open>scripts/legacy_data_import.mjs\<close>, \<open>scripts/import_legacy_data.mjs\<close> and
  \<open>scripts/storage_provider_config_crypto.mjs\<close>: the import of exported rows into an empty, migrated database,
  in one transaction.
\<close>

section \<open>Parameters\<close>

text \<open>
  \<open>im_cast\<close> is what the driver and PostgreSQL make of a JavaScript value for a column of a type, or the error
  they report; \<open>im_parse\<close> is \<open>JSON.parse\<close> of a text, \<open>im_text\<close> is \<open>String(value)\<close> of what is not a text and
  \<open>im_uuid\<close> the value of \<open>randomUUID()\<close>.
\<close>

record import_env =
  im_migration :: migration_env
  im_cast :: "pg_type \<Rightarrow> jsval \<Rightarrow> pg_value res"
  im_parse :: "string \<Rightarrow> jsval option"
  im_text :: "jsval \<Rightarrow> string"
  im_uuid :: string

definition import_tables :: "string list" where
  "import_tables =
     [''users'', ''settings'', ''platforms'', ''architectures'', ''storage_providers'', ''software'', ''versions'', ''artifacts'',
      ''download_histories'', ''licenses'', ''license_activations'', ''storage_upload_reservations'']"

definition skipped_tables :: "string list" where
  "skipped_tables =
     [''sessions'', ''password_reset_tokens'', ''remember_me_tokens'', ''auth_rate_limits'', ''adonis_schema'',
      ''adonis_schema_versions'']"

definition cleared_tables :: "string list" where
  "cleared_tables = import_tables @ filter (\<lambda>t. \<not> starts_with t ''adonis_'') skipped_tables"

section \<open>The document\<close>

definition array_of :: "jsval \<Rightarrow> jsval list option" where
  "array_of v = (case v of JArr vs \<Rightarrow> Some vs | _ \<Rightarrow> None)"

definition prop_of :: "jsval \<Rightarrow> string \<Rightarrow> jsval" where
  "prop_of v k = (case v of JObj ps \<Rightarrow> js_prop ps k | _ \<Rightarrow> JUndef)"

definition document_tables :: "jsval \<Rightarrow> props res" where
  "document_tables doc =
     (case prop_of doc ''tables'' of
        JObj ps \<Rightarrow>
          throw_if (prop_of doc ''formatVersion'' \<noteq> JNum (Fin 1))
            (Error ''Expected formatVersion=1 and a tables object containing arrays of exported rows.'')
            (case List.find (\<lambda>(n, v). n \<notin> set (import_tables @ skipped_tables) \<or> array_of v = None) ps of
               Some (n, v) \<Rightarrow> Inl (Error (''Unsupported table or row list: '' @ n @ ''.''))
             | None \<Rightarrow> Inr ps)
      | _ \<Rightarrow> Inl (Error ''Expected formatVersion=1 and a tables object containing arrays of exported rows.''))"

definition data_rows :: "props \<Rightarrow> string \<Rightarrow> jsval list" where
  "data_rows data t = (case array_of (js_prop data t) of None \<Rightarrow> [] | Some vs \<Rightarrow> vs)"

section \<open>The target\<close>

definition target_clear :: "store \<Rightarrow> string \<Rightarrow> unit res" where
  "target_clear s t =
     (let rows = rows_of s t in
      if t = ''software''
      then throw_if (1 < length rows \<or> length rows = 1 \<and>
          \<not> list_ex (\<lambda>r. cell r ''slug'' = Pg_Text ''reeva'' \<and> cell r ''is_default'' = Pg_Bool True) rows)
        (Error ''Target software table is not the migration-created baseline.'') (Inr ())
      else throw_if (rows \<noteq> []) (Error (''Target table '' @ t @ '' is not empty; refusing to replace data.'')) (Inr ()))"

fun all_clear :: "store \<Rightarrow> string list \<Rightarrow> unit res" where
  "all_clear s [] = Inr ()"
| "all_clear s (t # ts) = bind_res (target_clear s t) (\<lambda>_. all_clear s ts)"

text \<open>
  \<open>DELETE FROM\<close> without a condition: rows of other tables that refer to the table go along where the foreign key
  cascades, and the statement fails where a reference would be left.
\<close>

definition emptied_table :: "string \<Rightarrow> string \<times> pg_table \<Rightarrow> string \<times> pg_table" where
  "emptied_table t x =
     (case x of (n, tb) \<Rightarrow> (n, tb\<lparr>tb_rows := if n = t then []
        else filter (\<lambda>r. \<not> list_ex (\<lambda>fk. fk_table fk = t \<and> fk_on_delete fk = Cascade \<and> cell r (fk_column fk) \<noteq> Pg_Null)
          (tb_foreign tb)) (tb_rows tb)\<rparr>))"

definition delete_all :: "string \<Rightarrow> store \<Rightarrow> store res" where
  "delete_all t s =
     (let s' = s\<lparr>st_tables := map (emptied_table t) (st_tables s)\<rparr> in
      throw_if (\<not> store_ok s') (ConstraintViolation t) (Inr s'))"

section \<open>Rows\<close>

text \<open>The default product of an export without products, and the versions that it takes.\<close>

fun app_name_setting :: "jsval list \<Rightarrow> jsval res" where
  "app_name_setting [] = Inr JUndef"
| "app_name_setting (v # vs) =
     (if v = JNull then Inl (Fault ''TypeError'')
      else if prop_of v ''key'' = JStr ''appName'' then Inr (prop_of v ''value'') else app_name_setting vs)"

definition set_prop :: "string \<Rightarrow> jsval \<Rightarrow> props \<Rightarrow> props" where
  "set_prop k v ps = (if k \<in> fst ` set ps then map (\<lambda>(n, w). if n = k then (n, v) else (n, w)) ps else ps @ [(k, v)])"

fun with_software :: "string \<Rightarrow> jsval list \<Rightarrow> jsval list res" where
  "with_software i [] = Inr []"
| "with_software i (v # vs) =
     bind_res (case v of
         JObj ps \<Rightarrow> Inr (JObj (set_prop ''software_id'' (JStr i) ps))
       | JArr ws \<Rightarrow> Inr v
       | _ \<Rightarrow> Inl (Fault ''TypeError'')) (\<lambda>w.
     bind_res (with_software i vs) (\<lambda>ws. Inr (w # ws)))"

definition default_software :: "import_env \<Rightarrow> jsval \<Rightarrow> jsval" where
  "default_software env setting =
     (let name = js_or setting (JStr ''Reeva'') in
      JObj [(''id'', JStr (im_uuid env)), (''name'', JStr (take 120 (case name of JStr s \<Rightarrow> s | _ \<Rightarrow> im_text env name))),
        (''slug'', JStr ''reeva''), (''is_active'', JBool True), (''is_default'', JBool True)])"

definition import_data :: "import_env \<Rightarrow> props \<Rightarrow> props res" where
  "import_data env data =
     (if data_rows data ''software'' \<noteq> [] then Inr data
      else bind_res (app_name_setting (data_rows data ''settings'')) (\<lambda>setting.
        bind_res (with_software (im_uuid env) (data_rows data ''versions'')) (\<lambda>vs.
        let d1 = set_prop ''software'' (JArr [default_software env setting]) data in
        Inr (if ''versions'' \<in> fst ` set data then set_prop ''versions'' (JArr vs) d1 else d1))))"

text \<open>One value of a row, for the column \<open>c\<close> of the table \<open>t\<close>.\<close>

definition unsafe_number :: "jsval \<Rightarrow> bool" where
  "unsafe_number v = (case v of JNum x \<Rightarrow> js_safe_integer v = None | _ \<Rightarrow> False)"

definition boolean_value :: "jsval \<Rightarrow> bool option" where
  "boolean_value v =
     (if v \<in> {JBool True, JNum (Fin 1), JStr ''1''} then Some True
      else if v \<in> {JBool False, JNum (Fin 0), JStr ''0''} then Some False else None)"

definition convert_value :: "import_env \<Rightarrow> (jsval \<Rightarrow> jsval) option \<Rightarrow> string \<Rightarrow> column \<Rightarrow> jsval \<Rightarrow> jsval res" where
  "convert_value env enc t c v =
     bind_res (if co_type c = Boolean \<and> v \<noteq> JNull
       then (case boolean_value v of None \<Rightarrow> Inl (Error (''Invalid boolean in '' @ t @ ''.'' @ co_name c @ ''.'')) | Some b \<Rightarrow> Inr (JBool b))
       else Inr v) (\<lambda>v1.
     bind_res (case v of JStr s \<Rightarrow> if co_type c = Jsonb then from_option (Fault ''SyntaxError'') (im_parse env s) else Inr v1 | _ \<Rightarrow> Inr v1) (\<lambda>v2.
     bind_res (if t = ''storage_providers'' \<and> co_name c = ''config''
       then (case enc of
               None \<Rightarrow> Inl (Error ''An APP_KEY-backed storage config encryptor is required for import.'')
             | Some f \<Rightarrow> Inr (f v2))
       else Inr v2) (\<lambda>v3.
     throw_if (co_type c = Big_Integer \<and> unsafe_number v)
       (Error (''Unsafe numeric value in '' @ t @ ''.'' @ co_name c @ ''; export bigint values as decimal strings.'')) (Inr v3))))"

fun convert_entries :: "import_env \<Rightarrow> (jsval \<Rightarrow> jsval) option \<Rightarrow> string \<Rightarrow> column list \<Rightarrow> props \<Rightarrow> (column \<times> jsval) list res" where
  "convert_entries env enc t cs [] = Inr []"
| "convert_entries env enc t cs ((n, v) # ps) =
     bind_res (from_option (Error (''Unknown column '' @ t @ ''.'' @ n @ ''.'')) (List.find (\<lambda>c. co_name c = n) cs)) (\<lambda>c.
     bind_res (convert_value env enc t c v) (\<lambda>w.
     bind_res (convert_entries env enc t cs ps) (\<lambda>ws. Inr ((c, w) # ws))))"

text \<open>\<open>delete row.version_number\<close> and \<open>row.auth_version = Number(row.auth_version || 0) + 1\<close>\<close>

fun js_succ :: "jsnum \<Rightarrow> jsnum" where
  "js_succ (Fin x) = to_double (x + 1)"
| "js_succ x = x"

definition adjusted_entries :: "string \<Rightarrow> props \<Rightarrow> props" where
  "adjusted_entries t ps =
     (if t = ''versions'' then filter (\<lambda>(n, v). n \<noteq> ''version_number'') ps
      else if t = ''users''
        then set_prop ''auth_version'' (JNum (js_succ (to_number (js_or (js_prop ps ''auth_version'') (JNum (Fin 0)))))) ps
      else ps)"

fun cast_entries :: "import_env \<Rightarrow> (column \<times> jsval) list \<Rightarrow> row res" where
  "cast_entries env [] = Inr []"
| "cast_entries env ((c, v) # es) =
     bind_res (im_cast env (co_type c) v) (\<lambda>x. bind_res (cast_entries env es) (\<lambda>r. Inr ((co_name c, x) # r)))"

definition row_values :: "import_env \<Rightarrow> (jsval \<Rightarrow> jsval) option \<Rightarrow> string \<Rightarrow> column list \<Rightarrow> jsval \<Rightarrow> row res" where
  "row_values env enc t cs v =
     (case v of
        JObj ps \<Rightarrow>
          bind_res (convert_entries env enc t cs (adjusted_entries t ps)) (\<lambda>es.
          throw_if (es = []) (Error (''Empty row in '' @ t @ ''.'')) (cast_entries env es))
      | _ \<Rightarrow> Inl (Error (''Invalid row in '' @ t @ ''.'')))"

section \<open>The transaction\<close>

fun import_rows :: "import_env \<Rightarrow> (jsval \<Rightarrow> jsval) option \<Rightarrow> string \<Rightarrow> column list \<Rightarrow> jsval list \<Rightarrow> store \<Rightarrow> store res" where
  "import_rows env enc t cs [] s = Inr s"
| "import_rows env enc t cs (v # vs) s =
     bind_res (row_values env enc t cs v) (\<lambda>vals.
     bind_res (write_step (im_migration env) (Insert t vals) s) (import_rows env enc t cs vs))"

definition columns_of :: "store \<Rightarrow> string \<Rightarrow> column list" where
  "columns_of s t = (case table_of s t of None \<Rightarrow> [] | Some tb \<Rightarrow> tb_columns tb)"

fun import_all :: "import_env \<Rightarrow> (jsval \<Rightarrow> jsval) option \<Rightarrow> props \<Rightarrow> string list \<Rightarrow> store \<Rightarrow> store res" where
  "import_all env enc data [] s = Inr s"
| "import_all env enc data (t # ts) s =
     bind_res (import_rows env enc t (columns_of s t) (data_rows data t) s) (import_all env enc data ts)"

definition active_defaults :: "store \<Rightarrow> row list" where
  "active_defaults s =
     filter (\<lambda>r. cell r ''is_default'' = Pg_Bool True \<and> cell r ''is_active'' = Pg_Bool True) (rows_of s ''software'')"

definition count_mismatch :: "props \<Rightarrow> store \<Rightarrow> string option" where
  "count_mismatch data s = List.find (\<lambda>t. length (rows_of s t) \<noteq> length (data_rows data t)) import_tables"

definition import_work :: "import_env \<Rightarrow> (jsval \<Rightarrow> jsval) option \<Rightarrow> props \<Rightarrow> store \<Rightarrow> ((string \<times> nat) list \<times> store) res" where
  "import_work env enc doc s =
     throw_if (\<not> list_all (has_table s) cleared_tables) (Fault ''undefined_table'')
     (bind_res (all_clear s cleared_tables) (\<lambda>_.
      bind_res (import_data env doc) (\<lambda>data.
      bind_res (delete_all ''software'' s) (\<lambda>s1.
      bind_res (import_all env enc data import_tables s1) (\<lambda>s2.
      throw_if (length (active_defaults s2) \<noteq> 1) (Error ''Exactly one active default software must be supplied.'')
      (case count_mismatch data s2 of
         Some t \<Rightarrow> Inl (Error (''Imported count mismatch for '' @ t @ ''.''))
       | None \<Rightarrow> Inr (map (\<lambda>t. (t, length (data_rows data t))) import_tables, s2)))))))"

text \<open>The counts it reports, and the database afterwards: the former one after an error or in a dry run.\<close>

definition import_legacy_data ::
  "import_env \<Rightarrow> bool \<Rightarrow> (jsval \<Rightarrow> jsval) option \<Rightarrow> jsval \<Rightarrow> store \<Rightarrow> (string \<times> nat) list res \<times> store" where
  "import_legacy_data env dry enc doc s =
     (case bind_res (document_tables doc) (\<lambda>data. import_work env enc data s) of
        Inl e \<Rightarrow> (Inl e, s)
      | Inr (counts, s') \<Rightarrow> (Inr counts, if dry then s else s'))"

section \<open>The command\<close>

text \<open>\<open>createStorageConfigEncryptor(appKey)\<close>, \<open>vt\<close> the encryption of the key.\<close>

definition storage_config_encryptor :: "(string \<Rightarrow> vault) \<Rightarrow> string option \<Rightarrow> ((jsval \<Rightarrow> jsval) \<times> (jsval \<Rightarrow> jsval option res)) res" where
  "storage_config_encryptor vt app_key =
     (case app_key of
        None \<Rightarrow> Inl (Error ''APP_KEY is required to encrypt storage provider configuration.'')
      | Some k \<Rightarrow>
          throw_if (k = []) (Error ''APP_KEY is required to encrypt storage provider configuration.'')
            (Inr (encrypt_config (vt k),
               \<lambda>v. case is_encrypted v of
                 None \<Rightarrow> Inl (Error ''Invalid encrypted storage provider configuration.'')
               | Some payload \<Rightarrow> Inr (vt_decrypt (vt k) payload))))"

record import_request =
  iq_args :: "string list"
  iq_env :: "string \<Rightarrow> string option"

definition env_text :: "import_request \<Rightarrow> string \<Rightarrow> string" where
  "env_text q n = (case iq_env q n of None \<Rightarrow> [] | Some s \<Rightarrow> s)"

text \<open>\<open>args[args.indexOf('--file') + 1]\<close>, the first argument where the flag is missing.\<close>

fun index_of :: "'a \<Rightarrow> 'a list \<Rightarrow> nat" where
  "index_of x [] = 0"
| "index_of x (y # ys) = (if x = y then 0 else Suc (index_of x ys))"

definition file_argument :: "string list \<Rightarrow> string" where
  "file_argument args =
     (let i = (if ''--file'' \<in> set args then index_of ''--file'' args + 1 else 0) in
      if i < length args then args ! i else [])"

definition import_usage :: "import_request \<Rightarrow> exn option" where
  "import_usage q =
     (if ''--file'' \<notin> set (iq_args q) \<or> file_argument (iq_args q) = [] \<or> ''--empty-target'' \<notin> set (iq_args q)
      then Some (Error ''Usage: pnpm db:import --file /secure/export.json --empty-target [--dry-run]. Configure PostgreSQL DB_* environment variables explicitly.'')
      else if env_text q ''DB_HOST'' = [] \<or> env_text q ''DB_USER'' = [] \<or> env_text q ''DB_DATABASE'' = [] \<or>
          env_text q ''DB_CONNECTION'' \<notin> {[], ''pg''}
      then Some (Error ''Set PostgreSQL DB_HOST, DB_USER, DB_DATABASE and optional DB_CONNECTION=pg explicitly. No .env file is loaded by this importer.'')
      else if env_text q ''APP_KEY'' = []
      then Some (Error ''Set APP_KEY to the same persistent key used by Reeva to encrypt imported storage configuration.'')
      else if env_text q ''DB_SSL'' \<notin> {[], ''true'', ''false''} then Some (Error ''DB_SSL must be true or false.'') else None)"

text \<open>
  The command once it is connected: \<open>read_file\<close> gives the document of a file, \<^const>\<open>None\<close> where the file cannot
  be read or is no JSON.
\<close>

definition import_command ::
  "import_env \<Rightarrow> (string \<Rightarrow> vault) \<Rightarrow> (string \<Rightarrow> jsval option) \<Rightarrow> import_request \<Rightarrow> store \<Rightarrow> (string \<times> nat) list res \<times> store" where
  "import_command env vt read_file q s =
     (case import_usage q of
        Some e \<Rightarrow> (Inl e, s)
      | None \<Rightarrow>
          (case bind_res (from_option (Fault ''SyntaxError'') (read_file (file_argument (iq_args q)))) (\<lambda>doc.
              bind_res (storage_config_encryptor vt (iq_env q ''APP_KEY'')) (\<lambda>c. Inr (doc, c))) of
             Inl e \<Rightarrow> (Inl e, s)
           | Inr (doc, encrypt, decrypt) \<Rightarrow>
               import_legacy_data env (''--dry-run'' \<in> set (iq_args q)) (Some encrypt) doc s))"

section \<open>What an import leaves\<close>

text \<open>A row that was written for a row of the document: every given value is cast into its column.\<close>

definition written_for :: "import_env \<Rightarrow> (jsval \<Rightarrow> jsval) option \<Rightarrow> string \<Rightarrow> column list \<Rightarrow> jsval \<Rightarrow> row \<Rightarrow> bool" where
  "written_for env enc t cs v r \<longleftrightarrow> (\<exists>vals. row_values env enc t cs v = Inr vals \<and> (\<forall>x\<in>set vals. cell r (fst x) = snd x))"

end
