(* ===== verification/Import_Safety.thy ===== *)
theory Import_Safety
  imports Legacy_Import
begin

text \<open>
  What an import leaves: all rows of the document and nothing else of them, every constraint of the database,
  one active default product, encrypted configurations and no session that is still accepted.
\<close>

section \<open>One row\<close>

lemma convert_entries_names:
  "convert_entries env enc t cs ps = Inr es \<Longrightarrow> map (\<lambda>e. co_name (fst e)) es = map fst ps \<and> fst ` set es \<subseteq> set cs"
proof (induction ps arbitrary: es)
  case (Cons p ps)
  obtain n v where p: "p = (n, v)" by (cases p)
  then obtain c w ws where e: "List.find (\<lambda>c. co_name c = n) cs = Some c" "convert_entries env enc t cs ps = Inr ws" "es = (c, w) # ws"
    using Cons.prems by (auto simp: res_simps)
  then show ?case using Cons.IH [OF e(2)] find_Some_mem [OF e(1)] by (auto simp: p)
qed auto

lemma cast_entries_names: "cast_entries env es = Inr r \<Longrightarrow> map fst r = map (\<lambda>e. co_name (fst e)) es"
proof (induction es arbitrary: r)
  case (Cons e es)
  obtain c v where e: "e = (c, v)" by (cases e)
  then obtain x q where "cast_entries env es = Inr q" "r = (co_name c, x) # q" using Cons.prems by (auto simp: bind_res_Inr)
  then show ?case using Cons.IH by (simp add: e)
qed simp

lemma set_prop_names: "map fst (set_prop k v ps) = (if k \<in> fst ` set ps then map fst ps else map fst ps @ [k])"
proof -
  have "map fst (map (\<lambda>(n, w). if n = k then (n, v) else (n, w)) ps) = map fst ps" by (induction ps) auto
  then show ?thesis by (simp add: set_prop_def del: map_map)
qed

lemma set_prop_keys: "distinct (map fst ps) \<Longrightarrow> distinct (map fst (set_prop k v ps))"
  unfolding set_prop_names by auto

lemma adjusted_keys: "distinct (map fst ps) \<Longrightarrow> distinct (map fst (adjusted_entries t ps))"
  by (simp add: adjusted_entries_def set_prop_keys distinct_map_filter')

text \<open>\<open>JSON.parse\<close> gives objects that have every key once.\<close>

definition once_keyed :: "jsval \<Rightarrow> bool" where
  "once_keyed v \<longleftrightarrow> (case v of JObj ps \<Rightarrow> distinct (map fst ps) | _ \<Rightarrow> True)"

lemma row_values_names:
  assumes "row_values env enc t cs v = Inr vals" "once_keyed v"
  shows "distinct (map fst vals) \<and> fst ` set vals \<subseteq> co_name ` set cs"
proof -
  obtain ps where v: "v = JObj ps" using assms(1) by (cases v) (simp_all add: row_values_def)
  obtain es where es: "convert_entries env enc t cs (adjusted_entries t ps) = Inr es" "cast_entries env es = Inr vals"
    using assms(1) by (auto simp: row_values_def v bind_res_Inr throw_if_Inr)
  have "map fst vals = map fst (adjusted_entries t ps)"
    using convert_entries_names [OF es(1)] cast_entries_names [OF es(2)] by simp
  moreover have "fst ` set vals \<subseteq> co_name ` set cs"
  proof -
    have "set (map fst vals) = (\<lambda>e. co_name (fst e)) ` set es" using cast_entries_names [OF es(2)] by simp
    then show ?thesis using convert_entries_names [OF es(1)] by auto
  qed
  ultimately show ?thesis using adjusted_keys assms(2) by (simp add: v once_keyed_def)
qed

lemma inserted_cell:
  assumes "distinct (map fst vals)" "fst ` set vals \<subseteq> co_name ` set (tb_columns tb)" "x \<in> set vals"
  shows "cell (inserted_row env tb vals) (fst x) = snd x"
proof -
  have v: "map_of vals (fst x) = Some (snd x)" using assms(1,3) by (simp add: map_of_is_SomeI)
  have "map_of (map (\<lambda>c. (co_name c, f (co_name c) c)) cs) n = Some y"
    if "n \<in> co_name ` set cs" "\<And>c. f n c = y" for f :: "string \<Rightarrow> column \<Rightarrow> pg_value" and cs n y
    using that by (induction cs) auto
  from this [of "fst x" "tb_columns tb" "\<lambda>n c. case map_of vals n of Some v \<Rightarrow> v | None \<Rightarrow> default_value env (length (tb_rows tb)) (co_default c)" "snd x"]
  show ?thesis using assms(2,3) v by (auto simp: cell_def inserted_row_def)
qed

section \<open>The rows of a table\<close>

lemma import_rows_written:
  assumes "import_rows env enc t cs vs s = Inr s'" "table_of s t = Some tb" "cs = tb_columns tb" "\<forall>v\<in>set vs. once_keyed v"
  shows "\<exists>rows. table_of s' t = Some (tb\<lparr>tb_rows := tb_rows tb @ rows\<rparr>) \<and> list_all2 (written_for env enc t cs) vs rows \<and>
    (\<forall>u. u \<noteq> t \<longrightarrow> table_of s' u = table_of s u)"
  using assms
proof (induction vs arbitrary: s tb)
  case (Cons v vs)
  obtain vals s1 where v: "row_values env enc t cs v = Inr vals" "write_step (im_migration env) (Insert t vals) s = Inr s1"
    "import_rows env enc t cs vs s1 = Inr s'"
    using Cons.prems(1) by (auto simp: bind_res_Inr simp del: write_step.simps)
  let ?r = "inserted_row (im_migration env) tb vals" and ?tb = "tb\<lparr>tb_rows := tb_rows tb @ [inserted_row (im_migration env) tb vals]\<rparr>"
  have s1: "s1 = put_table t ?tb s" using v(2) Cons.prems(2) by (auto simp: write_rows_def res_simps Let_def)
  have w: "written_for env enc t cs v ?r"
    using row_values_names [OF v(1)] Cons.prems(3,4) inserted_cell [of vals tb _ "im_migration env"] v(1)
    by (auto simp: written_for_def)
  from Cons.IH [OF v(3), of ?tb] obtain rows where
    "table_of s' t = Some (?tb\<lparr>tb_rows := tb_rows ?tb @ rows\<rparr>)" "list_all2 (written_for env enc t cs) vs rows"
    "\<forall>u. u \<noteq> t \<longrightarrow> table_of s' u = table_of s1 u"
    using Cons.prems(2-4) by (auto simp: s1)
  then show ?case using w by (intro exI [of _ "?r # rows"]) (auto simp: s1)
qed auto

lemma import_all_written:
  assumes "import_all env enc data ts s = Inr s'" "distinct ts" "\<forall>t\<in>set ts. table_of s t \<noteq> None"
    "\<forall>t\<in>set ts. \<forall>v\<in>set (data_rows data t). once_keyed v"
  shows "(\<forall>t\<in>set ts. \<exists>tb rows. table_of s t = Some tb \<and> table_of s' t = Some (tb\<lparr>tb_rows := tb_rows tb @ rows\<rparr>) \<and>
      list_all2 (written_for env enc t (tb_columns tb)) (data_rows data t) rows) \<and>
    (\<forall>u. u \<notin> set ts \<longrightarrow> table_of s' u = table_of s u)"
  using assms
proof (induction ts arbitrary: s)
  case (Cons t ts)
  obtain s1 where s1: "import_rows env enc t (columns_of s t) (data_rows data t) s = Inr s1" "import_all env enc data ts s1 = Inr s'"
    using Cons.prems(1) by (auto simp: bind_res_Inr)
  obtain tb where tb: "table_of s t = Some tb" using Cons.prems(3) by auto
  from import_rows_written [OF s1(1) tb] obtain rows where r: "table_of s1 t = Some (tb\<lparr>tb_rows := tb_rows tb @ rows\<rparr>)"
    "list_all2 (written_for env enc t (tb_columns tb)) (data_rows data t) rows" "\<forall>u. u \<noteq> t \<longrightarrow> table_of s1 u = table_of s u"
    using Cons.prems(4) tb by (auto simp: columns_of_def)
  have u: "table_of s1 u = table_of s u" if "u \<in> set ts" for u using r(3) that Cons.prems(2) by auto
  have ih: "(\<forall>t\<in>set ts. \<exists>tb rows. table_of s1 t = Some tb \<and> table_of s' t = Some (tb\<lparr>tb_rows := tb_rows tb @ rows\<rparr>) \<and>
      list_all2 (written_for env enc t (tb_columns tb)) (data_rows data t) rows) \<and>
    (\<forall>u. u \<notin> set ts \<longrightarrow> table_of s' u = table_of s1 u)"
    using Cons.IH [OF s1(2)] Cons.prems(2-4) u by simp
  have "table_of s' t = Some (tb\<lparr>tb_rows := tb_rows tb @ rows\<rparr>)" using ih r(1) Cons.prems(2) by simp
  then show ?case using ih r tb u by auto
qed simp

lemma import_rows_ok: "import_rows env enc t cs vs s = Inr s' \<Longrightarrow> store_ok s \<Longrightarrow> store_ok s'"
  by (induction vs arbitrary: s) (auto simp: bind_res_Inr simp del: write_step.simps dest: write_ok)

interpretation table_imports: keeps "\<lambda>t s. import_rows env enc t (columns_of s t) (data_rows data t) s" store_ok
  by unfold_locales (rule import_rows_ok)

lemma import_all_run: "import_all env enc data ts s = run_all (\<lambda>t s. import_rows env enc t (columns_of s t) (data_rows data t) s) ts s"
  by (induction ts arbitrary: s) (auto intro: bind_res_cong)

lemma import_all_ok: "import_all env enc data ts s = Inr s' \<Longrightarrow> store_ok s \<Longrightarrow> store_ok s'"
  unfolding import_all_run by (rule table_imports.run_keeps)

section \<open>The target\<close>

lemma all_clear_Inr: "all_clear s ts = Inr () \<longleftrightarrow> (\<forall>t\<in>set ts. target_clear s t = Inr ())"
  by (induction ts) (auto simp: bind_res_Inr)

lemma clear_rows: "target_clear s t = Inr () \<Longrightarrow> t \<noteq> ''software'' \<Longrightarrow> rows_of s t = []"
  by (simp add: target_clear_def Let_def res_simps)

lemma delete_all_Inr:
  assumes "delete_all t s = Inr s'"
  shows "store_ok s' \<and> (\<forall>u. table_of s' u = map_option (\<lambda>tb. snd (emptied_table t (u, tb))) (table_of s u))"
proof -
  have s': "s' = s\<lparr>st_tables := map (emptied_table t) (st_tables s)\<rparr>" "store_ok s'"
    using assms by (auto simp: delete_all_def Let_def res_simps)
  have "map_of (map (emptied_table t) xs) u = map_option (\<lambda>tb. snd (emptied_table t (u, tb))) (map_of xs u)" for xs u
    by (induction xs) (auto simp: emptied_table_def)
  then show ?thesis using s' by (simp add: table_of_def)
qed

lemma emptied_table_rows: "tb_rows (snd (emptied_table t (u, tb))) = (if u = t then [] else
    filter (\<lambda>r. \<not> list_ex (\<lambda>fk. fk_table fk = t \<and> fk_on_delete fk = Cascade \<and> cell r (fk_column fk) \<noteq> Pg_Null) (tb_foreign tb)) (tb_rows tb))"
  "tb_columns (snd (emptied_table t (u, tb))) = tb_columns tb"
  by (simp_all add: emptied_table_def)

section \<open>The rows of the document\<close>

lemma js_prop_set_prop: "js_prop (set_prop k v ps) n = (if n = k then v else js_prop ps n)"
proof (cases "k \<in> fst ` set ps")
  case True
  have "map_of (map (\<lambda>(n, w). if n = k then (n, v) else (n, w)) ps) n = (if n = k then Some v else map_of ps n)"
    if "k \<in> fst ` set ps \<or> n \<noteq> k"
    using that by (induction ps) force+
  then show ?thesis using True by (simp add: js_prop_def set_prop_def)
next
  case False
  then have "map_of ps k = None" by (simp add: map_of_eq_None_iff)
  then show ?thesis using False by (auto simp: js_prop_def set_prop_def map_add_def split: option.splits)
qed

lemma with_software_keys:
  "with_software i vs = Inr ws \<Longrightarrow> \<forall>v\<in>set vs. once_keyed v \<Longrightarrow> \<forall>w\<in>set ws. once_keyed w"
proof (induction vs arbitrary: ws)
  case (Cons v vs)
  then obtain w ws' where w: "with_software i vs = Inr ws'" "ws = w # ws'"
      "v = w \<or> (\<exists>ps. v = JObj ps \<and> w = JObj (set_prop ''software_id'' (JStr i) ps))"
    by (auto simp: bind_res_Inr split: jsval.splits)
  have "once_keyed w" using w(3) Cons.prems(2) by (auto simp: once_keyed_def set_prop_keys)
  then show ?case using Cons.IH [OF w(1)] Cons.prems(2) w(2) by simp
qed simp

definition rows_once_keyed :: "props \<Rightarrow> bool" where
  "rows_once_keyed data \<longleftrightarrow> (\<forall>t. \<forall>v\<in>set (data_rows data t). once_keyed v)"

lemma import_data_keys:
  assumes "import_data env ps = Inr data" "rows_once_keyed ps"
  shows "rows_once_keyed data"
proof (cases "data_rows ps ''software'' \<noteq> []")
  case True
  then show ?thesis using assms by (simp add: import_data_def)
next
  case False
  then obtain setting vs where vs: "with_software (im_uuid env) (data_rows ps ''versions'') = Inr vs"
    and data: "data = (if ''versions'' \<in> fst ` set ps
      then set_prop ''versions'' (JArr vs) (set_prop ''software'' (JArr [default_software env setting]) ps)
      else set_prop ''software'' (JArr [default_software env setting]) ps)"
    using assms(1) by (simp add: import_data_def bind_res_Inr Let_def) blast
  have "once_keyed (default_software env setting)" by (simp add: default_software_def once_keyed_def Let_def)
  moreover have "\<forall>w\<in>set vs. once_keyed w" using with_software_keys [OF vs] assms(2) by (simp add: rows_once_keyed_def)
  ultimately show ?thesis
    using assms(2) by (auto simp: data Let_def rows_once_keyed_def data_rows_def js_prop_set_prop array_of_def)
qed

lemma import_work_Inr:
  assumes "import_work env enc ps s = Inr (counts, s')" "rows_once_keyed ps" "store_ok s"
  shows "\<exists>data. import_data env ps = Inr data \<and> store_ok s' \<and> length (active_defaults s') = 1 \<and>
    counts = map (\<lambda>t. (t, length (data_rows data t))) import_tables \<and>
    (\<forall>t\<in>set import_tables. list_all2 (written_for env enc t (columns_of s t)) (data_rows data t) (rows_of s' t)) \<and>
    (\<forall>t\<in>set cleared_tables - set import_tables. rows_of s' t = [])"
proof -
  obtain data s1 where h: "list_all (has_table s) cleared_tables" "all_clear s cleared_tables = Inr ()"
    and data: "import_data env ps = Inr data" and s1: "delete_all ''software'' s = Inr s1"
    and s2: "import_all env enc data import_tables s1 = Inr s'" and one: "length (active_defaults s') = 1"
    and counts: "counts = map (\<lambda>t. (t, length (data_rows data t))) import_tables"
    using assms(1) by (auto simp: import_work_def bind_res_Inr throw_if_Inr split: option.splits)
  have clear: "rows_of s t = []" if "t \<in> set cleared_tables" "t \<noteq> ''software''" for t
    using clear_rows h(2) that by (simp add: all_clear_Inr)
  have t1: "table_of s1 u = map_option (\<lambda>tb. snd (emptied_table ''software'' (u, tb))) (table_of s u)" for u
    using delete_all_Inr [OF s1] by blast
  have empty1: "rows_of s1 t = [] \<and> columns_of s1 t = columns_of s t \<and> table_of s1 t \<noteq> None" if "t \<in> set cleared_tables" for t
  proof -
    obtain tb where tb: "table_of s t = Some tb" using h(1) \<open>t \<in> set cleared_tables\<close> by (auto simp: list_all_iff has_table_def)
    have "t = ''software'' \<or> tb_rows tb = []" using clear [OF that] tb by (auto simp: rows_of_def)
    then show ?thesis using tb by (auto simp: t1 rows_of_def columns_of_def emptied_table_rows)
  qed
  have sub: "set import_tables \<subseteq> set cleared_tables" by (simp add: cleared_tables_def)
  have d: "distinct import_tables" by (simp add: import_tables_def)
  have keyed: "rows_once_keyed data" by (rule import_data_keys [OF data assms(2)])
  have w: "(\<forall>t\<in>set import_tables. \<exists>tb rows. table_of s1 t = Some tb \<and> table_of s' t = Some (tb\<lparr>tb_rows := tb_rows tb @ rows\<rparr>) \<and>
      list_all2 (written_for env enc t (tb_columns tb)) (data_rows data t) rows) \<and>
    (\<forall>u. u \<notin> set import_tables \<longrightarrow> table_of s' u = table_of s1 u)"
  proof (rule import_all_written [OF s2 d])
    show "\<forall>t\<in>set import_tables. table_of s1 t \<noteq> None" using empty1 sub by blast
    show "\<forall>t\<in>set import_tables. \<forall>v\<in>set (data_rows data t). once_keyed v" using keyed by (simp add: rows_once_keyed_def)
  qed
  have "list_all2 (written_for env enc t (columns_of s t)) (data_rows data t) (rows_of s' t)" if t: "t \<in> set import_tables" for t
  proof -
    obtain tb rows where r: "table_of s1 t = Some tb" "table_of s' t = Some (tb\<lparr>tb_rows := tb_rows tb @ rows\<rparr>)"
      "list_all2 (written_for env enc t (tb_columns tb)) (data_rows data t) rows" using w t by blast
    have "tb_rows tb = []" "tb_columns tb = columns_of s t"
      using empty1 [of t] sub t r(1) by (auto simp: rows_of_def columns_of_def)
    then show ?thesis using r by (simp add: rows_of_def)
  qed
  moreover have "rows_of s' t = []" if "t \<in> set cleared_tables - set import_tables" for t
    using w empty1 [of t] that by (simp add: rows_of_def)
  moreover have "store_ok s'" by (rule import_all_ok [OF s2]) (use delete_all_Inr [OF s1] in blast)
  ultimately show ?thesis using data counts one by blast
qed

section \<open>Secrets and sessions\<close>

lemma entries_written:
  assumes "convert_entries env enc t cs ps = Inr es" "cast_entries env es = Inr vals" "(n, x) \<in> set ps"
  shows "\<exists>c w y. List.find (\<lambda>c. co_name c = n) cs = Some c \<and> convert_value env enc t c x = Inr w \<and> im_cast env (co_type c) w = Inr y \<and>
    (n, y) \<in> set vals"
  using assms
proof (induction ps arbitrary: es vals)
  case (Cons p ps)
  obtain m v where p: "p = (m, v)" by (cases p)
  then obtain c w ws where e: "List.find (\<lambda>c. co_name c = m) cs = Some c" "convert_value env enc t c v = Inr w"
      "convert_entries env enc t cs ps = Inr ws" "es = (c, w) # ws"
    using Cons.prems(1) by (auto simp: bind_res_Inr from_option_Inr)
  then obtain y q where q: "im_cast env (co_type c) w = Inr y" "cast_entries env ws = Inr q" "vals = (co_name c, y) # q"
    using Cons.prems(2) by (auto simp: bind_res_Inr)
  have "co_name c = m" using find_Some_mem [OF e(1)] by simp
  then show ?case using Cons.IH [OF e(3) q(2)] Cons.prems(3) e(1,2) q(1,3) p by auto
qed simp

lemma written_value:
  assumes "written_for env enc t cs (JObj ps) r" "(n, x) \<in> set (adjusted_entries t ps)"
  shows "\<exists>c w. List.find (\<lambda>c. co_name c = n) cs = Some c \<and> convert_value env enc t c x = Inr w \<and> im_cast env (co_type c) w = Inr (cell r n)"
proof -
  obtain vals where vals: "row_values env enc t cs (JObj ps) = Inr vals" "\<forall>x\<in>set vals. cell r (fst x) = snd x"
    using assms(1) by (auto simp: written_for_def)
  obtain es where es: "convert_entries env enc t cs (adjusted_entries t ps) = Inr es" "cast_entries env es = Inr vals"
    using vals(1) by (auto simp: row_values_def bind_res_Inr throw_if_Inr)
  from entries_written [OF es assms(2)] show ?thesis using vals(2) by force
qed

lemma written_object: "written_for env enc t cs v r \<Longrightarrow> \<exists>ps. v = JObj ps"
  by (cases v) (auto simp: written_for_def row_values_def)

text \<open>What the driver makes of objects for a \<open>jsonb\<close> column and of integers for an \<open>integer\<close> column.\<close>

definition casts_values :: "import_env \<Rightarrow> bool" where
  "casts_values env \<longleftrightarrow>
     (\<forall>ps. JUndef \<notin> snd ` set ps \<longrightarrow> im_cast env Jsonb (JObj ps) = Inr (Pg_Json (JObj ps))) \<and>
     (\<forall>n. - (2 ^ 31) \<le> n \<and> n < 2 ^ 31 \<longrightarrow> im_cast env Integer (JNum (Fin (of_int n))) = Inr (Pg_Int n))"

definition column_type :: "store \<Rightarrow> string \<Rightarrow> string \<Rightarrow> pg_type option" where
  "column_type s t n = map_option co_type (List.find (\<lambda>c. co_name c = n) (columns_of s t))"

text \<open>The configuration that a value of the export stands for: a text is JSON.\<close>

definition stands_for :: "import_env \<Rightarrow> jsval \<Rightarrow> jsval \<Rightarrow> bool" where
  "stands_for env x c \<longleftrightarrow> (case x of JStr t \<Rightarrow> im_parse env t = Some c | _ \<Rightarrow> c = x)"

lemma imported_config:
  assumes "casts_values env" "written_for env (Some (encrypt_config vt)) ''storage_providers'' (columns_of s ''storage_providers'') v r"
    "column_type s ''storage_providers'' ''config'' = Some Jsonb" "prop_of v ''config'' = x" "x \<noteq> JUndef"
  shows "\<exists>c. cell r ''config'' = Pg_Json (encrypt_config vt c) \<and> stands_for env x c"
proof -
  obtain ps where v: "v = JObj ps" using written_object [OF assms(2)] by blast
  have "(''config'', x) \<in> set ps" using assms(4,5) by (auto simp: v prop_of_def js_prop_def split: option.splits dest: map_of_SomeD)
  then have "(''config'', x) \<in> set (adjusted_entries ''storage_providers'' ps)" by (simp add: adjusted_entries_def)
  from written_value [OF assms(2) [unfolded v] this] obtain k w where
    k: "List.find (\<lambda>c. co_name c = ''config'') (columns_of s ''storage_providers'') = Some k"
      "convert_value env (Some (encrypt_config vt)) ''storage_providers'' k x = Inr w" "im_cast env (co_type k) w = Inr (cell r ''config'')"
    by blast
  have ty: "co_type k = Jsonb" "co_name k = ''config''" using assms(3) k(1) find_Some_mem [OF k(1)] by (auto simp: column_type_def)
  then obtain c where c: "w = encrypt_config vt c" "stands_for env x c"
    using k(2) by (cases x) (auto simp: stands_for_def convert_value_def bind_res_Inr throw_if_Inr from_option_Inr)
  have "im_cast env Jsonb (encrypt_config vt c) = Inr (Pg_Json (encrypt_config vt c))"
    using assms(1) by (simp add: casts_values_def encrypt_config_def)
  then show ?thesis using c k(3) ty(1) by (intro exI [of _ c]) auto
qed

lemma small_double: "0 \<le> n \<Longrightarrow> n < 2147483647 \<Longrightarrow> to_double (of_int n + 1) = Fin (of_int n + 1)"
proof -
  assume n: "0 \<le> n" "n < 2147483647"
  have "(of_int n + 1 :: rat) \<le> 2147483647" "0 < (of_int n + 1 :: rat)" using n by linarith+
  then have "\<not> 2 ^ 1024 - 2 ^ 970 \<le> (of_int n + 1 :: rat)" "\<not> (of_int n + 1 :: rat) \<le> - (2 ^ 1024 - 2 ^ 970)"
    by (simp_all add: not_le)
  then show ?thesis using fl_of_int_pos [of "n + 1"] n by (simp add: to_double_def)
qed

lemma imported_auth_version:
  assumes "casts_values env" "written_for env enc ''users'' (columns_of s ''users'') v r" "once_keyed v"
    "column_type s ''users'' ''auth_version'' = Some Integer" "0 \<le> n" "n < 2147483647"
    "prop_of v ''auth_version'' = JNum (Fin (of_int n)) \<or> n = 0 \<and> prop_of v ''auth_version'' = JUndef"
  shows "cell r ''auth_version'' = Pg_Int (n + 1)"
proof -
  obtain ps where v: "v = JObj ps" using written_object [OF assms(2)] by blast
  have e: "to_number (js_or (js_prop ps ''auth_version'') (JNum (Fin 0))) = Fin (of_int n)"
    using assms(7) by (auto simp: v prop_of_def js_or_def)
  have "to_double (of_int n + 1) = Fin (of_int (n + 1))" using small_double [OF assms(5,6)] by simp
  then have "adjusted_entries ''users'' ps = set_prop ''auth_version'' (JNum (Fin (of_int (n + 1)))) ps"
    by (simp add: adjusted_entries_def e)
  moreover have "(k, w) \<in> set (set_prop k w ps)" for k w by (force simp: set_prop_def)
  ultimately have "(''auth_version'', JNum (Fin (of_int (n + 1)))) \<in> set (adjusted_entries ''users'' ps)" by simp
  from written_value [OF assms(2) [unfolded v] this] obtain k w where
    k: "List.find (\<lambda>c. co_name c = ''auth_version'') (columns_of s ''users'') = Some k"
      "convert_value env enc ''users'' k (JNum (Fin (of_int (n + 1)))) = Inr w" "im_cast env (co_type k) w = Inr (cell r ''auth_version'')"
    by blast
  have ty: "co_type k = Integer" using assms(4) k(1) by (auto simp: column_type_def)
  then have "w = JNum (Fin (of_int (n + 1)))" using k(2) by (simp add: convert_value_def)
  moreover have "im_cast env Integer (JNum (Fin (of_int (n + 1)))) = Inr (Pg_Int (n + 1))"
    using assms(1,5,6) by (simp add: casts_values_def del: of_int_add)
  ultimately show ?thesis using k(3) ty by (simp del: of_int_add)
qed

section \<open>Properties\<close>


text \<open>
  C38. An import protects what it takes over: every configuration of a storage provider that the document gives is
  stored as an envelope of the encryption of the server, around exactly that configuration, and every
  user's version of the credentials is one above the exported one, so no exported session is accepted.
\<close>

theorem import_protects:
  assumes "store_ok s" "prop_of doc ''tables'' = JObj ps" "rows_once_keyed ps" "casts_values env"
    "import_legacy_data env False (Some (encrypt_config vt)) doc s = (Inr counts, s')"
    "column_type s ''storage_providers'' ''config'' = Some Jsonb" "column_type s ''users'' ''auth_version'' = Some Integer"
  shows "\<exists>data. import_data env ps = Inr data \<and>
    list_all2 (\<lambda>v r. prop_of v ''config'' \<noteq> JUndef \<longrightarrow>
        (\<exists>c. cell r ''config'' = Pg_Json (encrypt_config vt c) \<and> stands_for env (prop_of v ''config'') c))
      (data_rows data ''storage_providers'') (rows_of s' ''storage_providers'') \<and>
    list_all2 (\<lambda>v r. \<forall>n. 0 \<le> n \<and> n < 2147483647 \<and>
        (prop_of v ''auth_version'' = JNum (Fin (of_int n)) \<or> n = 0 \<and> prop_of v ''auth_version'' = JUndef) \<longrightarrow>
        cell r ''auth_version'' = Pg_Int (n + 1))
      (data_rows data ''users'') (rows_of s' ''users'')"
proof -
  obtain qs where "document_tables doc = Inr qs" "import_work env (Some (encrypt_config vt)) qs s = Inr (counts, s')"
    using assms(5) by (auto simp: import_legacy_data_def bind_res_Inr split: sum.splits)
  moreover have "qs = ps"
    using calculation(1) assms(2) by (auto simp: document_tables_def throw_if_Inr split: option.splits)
  ultimately obtain data where data: "import_data env ps = Inr data"
    and w: "\<forall>t\<in>set import_tables. list_all2 (written_for env (Some (encrypt_config vt)) t (columns_of s t)) (data_rows data t) (rows_of s' t)"
    using import_work_Inr [OF _ assms(3,1)] by blast
  have keyed: "once_keyed v" if "v \<in> set (data_rows data t)" for v t
    using import_data_keys [OF data assms(3)] that by (simp add: rows_once_keyed_def)
  have t: "''storage_providers'' \<in> set import_tables" "''users'' \<in> set import_tables" by (simp_all add: import_tables_def)
  have "list_all2 (\<lambda>v r. prop_of v ''config'' \<noteq> JUndef \<longrightarrow>
        (\<exists>c. cell r ''config'' = Pg_Json (encrypt_config vt c) \<and> stands_for env (prop_of v ''config'') c))
      (data_rows data ''storage_providers'') (rows_of s' ''storage_providers'')"
    using bspec [OF w t(1)] by (rule list_all2_mono) (intro impI, rule imported_config [OF assms(4) _ assms(6) refl])
  moreover have "list_all2 (\<lambda>v r. \<forall>n. 0 \<le> n \<and> n < 2147483647 \<and>
        (prop_of v ''auth_version'' = JNum (Fin (of_int n)) \<or> n = 0 \<and> prop_of v ''auth_version'' = JUndef) \<longrightarrow>
        cell r ''auth_version'' = Pg_Int (n + 1)) (data_rows data ''users'') (rows_of s' ''users'')"
    using bspec [OF w t(2)]
    by (rule list.rel_mono_strong) (use imported_auth_version [OF assms(4) _ keyed assms(7)] in blast)
  ultimately show ?thesis using data by blast
qed

text \<open>The successor of a small integer is exact, which is how it is evaluated.\<close>

lemma js_succ_code [code]:
  "js_succ (Fin x) = (if of_int \<lfloor>x\<rfloor> = x \<and> 0 \<le> x \<and> x < 2147483647 then Fin (x + 1) else to_double (x + 1))"
  "js_succ NaN = NaN" "js_succ PosInf = PosInf" "js_succ NegInf = NegInf"
  using small_double [of "\<lfloor>x\<rfloor>"] by auto

section \<open>A concrete import\<close>

fun toy_cast :: "pg_type \<Rightarrow> jsval \<Rightarrow> pg_value res" where
  "toy_cast ty JNull = Inr Pg_Null"
| "toy_cast Uuid (JStr s) = Inr (Pg_Uuid s)"
| "toy_cast (Varchar n) (JStr s) = Inr (Pg_Text s)"
| "toy_cast Boolean (JBool b) = Inr (Pg_Bool b)"
| "toy_cast Integer (JNum (Fin q)) = Inr (Pg_Int \<lfloor>q\<rfloor>)"
| "toy_cast Jsonb (JObj ps) = Inr (Pg_Json (JObj ps))"
| "toy_cast ty v = Inl (Fault ''invalid_text_representation'')"

definition toy_import :: import_env where
  "toy_import = \<lparr> im_migration = \<lparr> me_now = 7, me_gen_uuid = (\<lambda>n. dec n), me_random_uuid = ''r'' \<rparr>, im_cast = toy_cast,
     im_parse = (\<lambda>s. Some (JObj [(''driver'', JStr ''local'')])), im_text = (\<lambda>v. []), im_uuid = ''s2'' \<rparr>"

definition toy_column :: "string \<Rightarrow> pg_type \<Rightarrow> column" where
  "toy_column n ty = \<lparr> co_name = n, co_type = ty, co_not_null = True, co_default = None \<rparr>"

definition toy_columns :: "string \<Rightarrow> column list" where
  "toy_columns t = toy_column ''id'' Uuid #
     (if t = ''users'' then [toy_column ''auth_version'' Integer]
      else if t = ''storage_providers'' then [toy_column ''config'' Jsonb]
      else if t = ''versions'' then [toy_column ''software_id'' Uuid]
      else if t = ''software'' then [toy_column ''name'' (Varchar 120), toy_column ''slug'' (Varchar 80),
        toy_column ''is_active'' Boolean, toy_column ''is_default'' Boolean] else [])"

definition toy_target :: store where
  "toy_target = \<lparr> st_tables = map (\<lambda>t. (t, new_table\<lparr>tb_columns := toy_columns t,
       tb_rows := (if t = ''software'' then [[(''id'', Pg_Uuid ''s1''), (''name'', Pg_Text ''Reeva''), (''slug'', Pg_Text ''reeva''),
         (''is_active'', Pg_Bool True), (''is_default'', Pg_Bool True)]] else [])\<rparr>)) cleared_tables, st_functions = [] \<rparr>"

definition toy_document :: "props" where
  "toy_document =
     [(''users'', JArr [JObj [(''id'', JStr ''u1''), (''auth_version'', JNum (Fin 4))]]),
      (''storage_providers'', JArr [JObj [(''id'', JStr ''p1''), (''config'', JStr ''{}'')]]),
      (''versions'', JArr [JObj [(''id'', JStr ''v1''), (''version_number'', JStr ''1.0.0'')]]),
      (''sessions'', JArr [JObj [(''id'', JStr ''x'')]])]"

definition toy_export :: jsval where
  "toy_export = JObj [(''formatVersion'', JNum (Fin 1)), (''tables'', JObj toy_document)]"

lemma toy_import_facts:
  "store_ok toy_target" "prop_of toy_export ''tables'' = JObj toy_document" "rows_once_keyed toy_document" "casts_values toy_import"
  "column_type toy_target ''storage_providers'' ''config'' = Some Jsonb" "column_type toy_target ''users'' ''auth_version'' = Some Integer"
proof -
  show "store_ok toy_target" by code_simp
  show "prop_of toy_export ''tables'' = JObj toy_document" by (simp add: toy_export_def prop_of_def js_prop_def)
  show "rows_once_keyed toy_document"
    by (auto simp: rows_once_keyed_def data_rows_def array_of_def js_prop_def toy_document_def once_keyed_def split: option.splits if_splits)
  show "casts_values toy_import" by (simp add: casts_values_def toy_import_def)
  show "column_type toy_target ''storage_providers'' ''config'' = Some Jsonb" "column_type toy_target ''users'' ''auth_version'' = Some Integer"
    by code_simp+
qed

lemma toy_import_runs:
  obtains counts s' where "import_legacy_data toy_import False (Some (encrypt_config toy_vault)) toy_export toy_target = (Inr counts, s')"
    "rows_of s' ''users'' = [[(''id'', Pg_Uuid ''u1''), (''auth_version'', Pg_Int 5)]]"
proof -
  have "case import_legacy_data toy_import False (Some (encrypt_config toy_vault)) toy_export toy_target of
      (o', s') \<Rightarrow> (case o' of Inl _ \<Rightarrow> False | Inr _ \<Rightarrow> True) \<and> rows_of s' ''users'' = [[(''id'', Pg_Uuid ''u1''), (''auth_version'', Pg_Int 5)]]"
    by code_simp
  then show thesis using that by (auto split: prod.splits sum.splits)
qed


lemma import_protects_witness:
  "\<exists>counts s' data. import_legacy_data toy_import False (Some (encrypt_config toy_vault)) toy_export toy_target = (Inr counts, s') \<and>
     import_data toy_import toy_document = Inr data \<and>
     list_all2 (\<lambda>v r. prop_of v ''config'' \<noteq> JUndef \<longrightarrow>
        (\<exists>c. cell r ''config'' = Pg_Json (encrypt_config toy_vault c) \<and> stands_for toy_import (prop_of v ''config'') c))
       (data_rows data ''storage_providers'') (rows_of s' ''storage_providers'')"
proof -
  obtain counts s1 where s1: "import_legacy_data toy_import False (Some (encrypt_config toy_vault)) toy_export toy_target = (Inr counts, s1)"
    by (rule toy_import_runs)
  from import_protects [OF toy_import_facts(1-4) s1 toy_import_facts(5,6)] s1 show ?thesis by blast
qed

text \<open>
  The table of signing keys is neither checked nor imported: keys that were registered for the product of the
  migrations go with it, although the import refuses to replace data.
\<close>

definition keyed_target :: store where
  "keyed_target = toy_target\<lparr>st_tables := st_tables toy_target @
     [(''software_signing_keys'', new_table\<lparr>tb_columns := [toy_column ''id'' Uuid, toy_column ''software_id'' Uuid],
        tb_foreign := [\<lparr> fk_name = ''software_signing_keys_software_id_foreign'', fk_column = ''software_id'',
          fk_table = ''software'', fk_on_delete = Cascade \<rparr>],
        tb_rows := [[(''id'', Pg_Uuid ''k1''), (''software_id'', Pg_Uuid ''s1'')]]\<rparr>)]\<rparr>"

lemma signing_keys_dropped:
  "store_ok keyed_target \<and> rows_of keyed_target ''software_signing_keys'' \<noteq> [] \<and>
     (case import_legacy_data toy_import False (Some (encrypt_config toy_vault)) toy_export keyed_target of
        (outcome, s') \<Rightarrow> \<not> isl outcome \<and> rows_of s' ''software_signing_keys'' = [])"
proof (intro conjI)
  show "store_ok keyed_target" by code_simp
  show "rows_of keyed_target ''software_signing_keys'' \<noteq> []" by code_simp
  have "case import_legacy_data toy_import False (Some (encrypt_config toy_vault)) toy_export keyed_target of
      (outcome, s') \<Rightarrow> (case outcome of Inl _ \<Rightarrow> False | Inr _ \<Rightarrow> True) \<and> rows_of s' ''software_signing_keys'' = []"
    by code_simp
  then show "case import_legacy_data toy_import False (Some (encrypt_config toy_vault)) toy_export keyed_target of
      (outcome, s') \<Rightarrow> \<not> isl outcome \<and> rows_of s' ''software_signing_keys'' = []"
    by (auto split: prod.splits sum.splits)
qed

end
