(* ===== verification/Ota_Signing_Tool.thy ===== *)
theory Ota_Signing_Tool
  imports Fixture
begin

text \<open>
  \<open>scripts/ota_signing.mjs\<close>: the command with which a publisher makes a key pair, reads the fingerprint of a
  public key and signs the payload of a release away from the server.
\<close>

section \<open>The machine of the publisher\<close>

text \<open>
  Files by path; \<open>to_private\<close> is the type of a private key in PEM (\<^const>\<open>None\<close> where it cannot be read),
  \<open>to_sign\<close> its signature of bytes, \<open>to_resolve\<close> is \<open>path.resolve\<close>, \<open>to_mkdir\<close> says whether
  \<open>mkdirSync\<close> succeeds and \<open>to_writable\<close> whether a file can be created, \<open>to_pair\<close> is the generated pair of private and public PEM.
\<close>

type_synonym files = "string \<rightharpoonup> string"

record tool_env =
  to_crypto :: crypto
  to_private :: "string \<Rightarrow> string option"
  to_sign :: "string \<Rightarrow> bytes \<Rightarrow> bytes"
  to_resolve :: "string \<Rightarrow> string"
  to_mkdir :: "string \<Rightarrow> bool"
  to_writable :: "string \<Rightarrow> bool"
  to_pair :: "string \<times> string"

text \<open>What the tool relies on: an Ed25519 signature has 64 bytes and verifies under the public key of the private key.\<close>

definition key_pair :: "tool_env \<Rightarrow> string \<Rightarrow> string \<Rightarrow> bool" where
  "key_pair env private_pem public_pem \<longleftrightarrow>
     to_private env private_pem = Some ''ed25519'' \<and> cr_key_type (to_crypto env) public_pem = Some ''ed25519'' \<and>
     (\<forall>b. length (to_sign env private_pem b) = 64 \<and> cr_verify (to_crypto env) public_pem b (to_sign env private_pem b))"

section \<open>Options\<close>

type_synonym options = "(string \<times> string) list"

fun parse_options :: "string list \<Rightarrow> options \<Rightarrow> options res" where
  "parse_options [] opts = Inr opts"
| "parse_options [n] opts = Inl (Error (''Invalid or duplicate option: '' @ (if n = [] then ''(missing)'' else n)))"
| "parse_options (n # v # args) opts =
     throw_if (\<not> starts_with n ''--'' \<or> v = [] \<or> n \<in> fst ` set opts)
       (Error (''Invalid or duplicate option: '' @ (if n = [] then ''(missing)'' else n)))
       (parse_options args (opts @ [(n, v)]))"

definition option_text :: "options \<Rightarrow> string \<Rightarrow> string" where
  "option_text opts n = (case map_of opts n of None \<Rightarrow> [] | Some v \<Rightarrow> v)"

definition read_text_file :: "files \<Rightarrow> string \<Rightarrow> string res" where
  "read_text_file fs path = from_option (Fault ''ENOENT'') (fs path)"

section \<open>Commands\<close>

definition tool_key_id :: "crypto \<Rightarrow> string \<Rightarrow> string res" where
  "tool_key_id cr pem =
     (case cr_key_type cr pem of
        None \<Rightarrow> Inl (Fault ''ERR_OSSL_UNSUPPORTED'')
      | Some t \<Rightarrow> throw_if (t \<noteq> ''ed25519'') (Error ''OTA release signing keys must use Ed25519.'')
          (Inr (cr_sha256 cr (cr_spki_der cr pem))))"

definition fingerprint_command :: "tool_env \<Rightarrow> files \<Rightarrow> options \<Rightarrow> string res" where
  "fingerprint_command env fs opts =
     throw_if (option_text opts ''--public-key'' = [] \<or> length opts \<noteq> 1) (Error ''Provide --public-key <public-key.pem>.'')
     (bind_res (read_text_file fs (option_text opts ''--public-key'')) (\<lambda>pem. tool_key_id (to_crypto env) (trim pem)))"

definition sign_command :: "tool_env \<Rightarrow> files \<Rightarrow> options \<Rightarrow> string res" where
  "sign_command env fs opts =
     (let private_path = option_text opts ''--private-key''; payload = option_text opts ''--payload-base64url'' in
      throw_if (private_path = [] \<or> payload = [] \<or> length opts \<noteq> 2) (Error ''Provide --payload-base64url and --private-key.'')
      (throw_if (\<not> list_all is_b64url payload \<or> 120000 < length payload)
        (Error ''The payload must be a base64url string representing at most 90 KB.'')
      (bind_res (read_text_file fs private_path) (\<lambda>pem.
       bind_res (from_option (Fault ''ERR_OSSL_UNSUPPORTED'') (to_private env pem)) (\<lambda>t.
       throw_if (t \<noteq> ''ed25519'') (Error ''OTA release signing keys must use Ed25519.'')
       (let b = base64url_decode payload in
        throw_if (b = [] \<or> base64url b \<noteq> payload) (Error ''The payload is not valid canonical base64url.'')
          (Inr (base64url (to_sign env pem b)))))))))"

text \<open>\<open>writeFileSync\<close> with the flag \<open>wx\<close>.\<close>

definition create_file :: "tool_env \<Rightarrow> string \<Rightarrow> string \<Rightarrow> files \<Rightarrow> files res" where
  "create_file env path content fs =
     throw_if (fs path \<noteq> None) (Fault ''EEXIST'') (throw_if (\<not> to_writable env path) (Fault ''EACCES'') (Inr (fs(path \<mapsto> content))))"

definition in_directory :: "string \<Rightarrow> string \<Rightarrow> string" where
  "in_directory directory n = (if directory = ''/'' then directory else directory @ ''/'') @ n"

definition generate_command :: "tool_env \<Rightarrow> string \<Rightarrow> files \<Rightarrow> string res \<times> files" where
  "generate_command env input fs =
     (let directory = to_resolve env input;
          private_path = in_directory directory ''reeva-ota-private.pem'';
          public_path = in_directory directory ''reeva-ota-public.pem'' in
      if input = [] then (Inl (Error ''Provide a directory for the key pair.''), fs)
      else if \<not> to_mkdir env directory then (Inl (Fault ''EACCES''), fs)
      else if fs private_path \<noteq> None \<or> fs public_path \<noteq> None
      then (Inl (Error ''Key output files already exist; choose an empty directory.''), fs)
      else
        (case create_file env private_path (fst (to_pair env)) fs of
           Inl e \<Rightarrow> (Inl e, fs)
         | Inr fs1 \<Rightarrow>
             (case create_file env public_path (snd (to_pair env)) fs1 of
                Inl e \<Rightarrow> (Inl e, fs1(private_path := None))
              | Inr fs2 \<Rightarrow>
                  (bind_res (tool_key_id (to_crypto env) (snd (to_pair env))) (\<lambda>i.
                     Inr (''keyId='' @ i @ [CHR 0x0A] @ ''publicKey='' @ public_path @ [CHR 0x0A] @ ''privateKey='' @ private_path)), fs2))))"

text \<open>The process: what it prints, its exit code, and the files it leaves.\<close>

definition signing_tool :: "tool_env \<Rightarrow> string list \<Rightarrow> files \<Rightarrow> (string \<times> nat) \<times> files" where
  "signing_tool env args fs =
     (let finish = (\<lambda>r. case r of Inl e \<Rightarrow> ([], 1) | Inr out \<Rightarrow> (out, 0)) in
      case args of
        [] \<Rightarrow> (([], 0), fs)
      | command # rest \<Rightarrow>
          if command = ''generate''
          then (case generate_command env (case rest of [] \<Rightarrow> [] | x # _ \<Rightarrow> x) fs of (r, fs') \<Rightarrow> (finish r, fs'))
          else if command = ''fingerprint'' then (finish (bind_res (parse_options rest []) (fingerprint_command env fs)), fs)
          else if command = ''sign'' then (finish (bind_res (parse_options rest []) (sign_command env fs)), fs)
          else (([], if command = [] then 0 else 2), fs))"

section \<open>What the server makes of it\<close>

lemma option_text_simps:
  "option_text [(n, v), (n', v')] n = v" "n' \<noteq> n \<Longrightarrow> option_text [(n, v), (n', v')] n' = v'" "option_text [(n, v)] n = v"
  by (simp_all add: option_text_def)

lemma parse_two_options:
  "starts_with n ''--'' \<Longrightarrow> starts_with n' ''--'' \<Longrightarrow> v \<noteq> [] \<Longrightarrow> v' \<noteq> [] \<Longrightarrow> n \<noteq> n' \<Longrightarrow>
     parse_options [n, v, n', v'] [] = Inr [(n, v), (n', v')]"
  by simp

definition signing_options :: "string \<Rightarrow> string \<Rightarrow> options" where
  "signing_options path payload = [(''--private-key'', path), (''--payload-base64url'', payload)]"

lemma signing_options_text:
  "option_text (signing_options path payload) ''--private-key'' = path"
  "option_text (signing_options path payload) ''--payload-base64url'' = payload"
  "length (signing_options path payload) = 2"
  by (simp_all add: option_text_def signing_options_def)

text \<open>With a readable key the command signs exactly the nonempty payloads in canonical form within the limit.\<close>

lemma sign_command_canonical:
  assumes "path \<noteq> []" "fs path = Some pem" "to_private env pem = Some ''ed25519''"
    and "b \<noteq> []" "length (base64url b) \<le> 120000"
  shows "sign_command env fs (signing_options path (base64url b)) = Inr (base64url (to_sign env pem b))"
proof -
  have "base64url b \<noteq> []" using assms(4) base64url_inject [of b "[]"] by (auto simp: base64url_def)
  then show ?thesis
    using assms base64url_class [of b] by (simp add: sign_command_def signing_options_text read_text_file_def Let_def)
qed

lemma sign_command_Inr:
  assumes "sign_command env fs (signing_options path payload) = Inr out" "fs path = Some pem"
  obtains b where "b \<noteq> []" "payload = base64url b" "length payload \<le> 120000" "out = base64url (to_sign env pem b)"
  using assms by (intro that [of "base64url_decode payload"])
    (auto simp: sign_command_def signing_options_text read_text_file_def Let_def res_simps)

lemma tool_sign_run:
  assumes "path \<noteq> []" "payload \<noteq> []"
  shows "signing_tool env [''sign'', ''--private-key'', path, ''--payload-base64url'', payload] fs =
     ((case sign_command env fs (signing_options path payload) of Inl e \<Rightarrow> ([], 1) | Inr out \<Rightarrow> (out, 0)), fs)"
  using assms by (simp add: signing_tool_def parse_two_options signing_options_def starts_with_def)

text \<open>
  C39. The signing tool and the server agree: with a key pair of the publisher, \<open>sign\<close> exits with 0 exactly
  for the payloads the server can accept a signature of, what it prints then verifies on the server, and it
  changes no file. With another exit code it prints nothing.
\<close>

theorem tool_signature_accepted:
  assumes "key_pair env pem public_pem" "fs path = Some pem" "path \<noteq> []" "payload \<noteq> []"
    and "signing_tool env [''sign'', ''--private-key'', path, ''--payload-base64url'', payload] fs = ((out, rc), fs')"
  shows "(rc = 0 \<longleftrightarrow> (\<exists>sig. verify_ota_release_signature (to_crypto env) payload (JStr sig) public_pem)) \<and>
     (if rc = 0 then verify_ota_release_signature (to_crypto env) payload (JStr out) public_pem else rc = 1 \<and> out = []) \<and>
     fs' = fs"
proof -
  let ?cr = "to_crypto env"
  have key: "cr_key_type ?cr public_pem = Some ''ed25519''" "length (to_sign env pem b) = 64"
    "cr_verify ?cr public_pem b (to_sign env pem b)" "to_private env pem = Some ''ed25519''" for b
    using assms(1) by (simp_all add: key_pair_def)
  show ?thesis
  proof (cases "sign_command env fs (signing_options path payload)")
    case (Inl e)
    then have "((out, rc), fs') = (([], 1), fs)" using assms(3-5) by (simp add: tool_sign_run)
    moreover have "\<not> verify_ota_release_signature ?cr payload (JStr sig) public_pem" for sig
      using Inl sign_command_canonical [where fs = fs and path = path and pem = pem and env = env] assms(2,3) key(4) by (auto simp: verify_iff)
    ultimately show ?thesis by simp
  next
    case (Inr sig)
    then have r: "((out, rc), fs') = ((sig, 0), fs)" using assms(3-5) by (simp add: tool_sign_run)
    obtain b where "b \<noteq> []" "payload = base64url b" "length payload \<le> 120000" "sig = base64url (to_sign env pem b)"
      using sign_command_Inr [where fs = fs and path = path, OF Inr] assms(2) by blast
    then have "verify_ota_release_signature ?cr payload (JStr sig) public_pem"
      unfolding verify_iff using key by blast
    then show ?thesis using r by auto
  qed
qed

section \<open>Key pairs\<close>

text \<open>The fingerprint it prints is the identifier under which the server registers the key.\<close>

lemma fingerprint_registered:
  assumes "validate_ota_public_key cr (JStr pem) = Inr k"
  shows "tool_key_id cr (trim pem) = Inr (pk_key_id k)"
  using assms by (auto simp: validate_ota_public_key_def get_public_key_def get_ota_signing_key_id_def tool_key_id_def Let_def res_simps
      split: if_splits option.splits)

text \<open>No file that exists is overwritten, and where \<open>generate\<close> cannot write both halves it leaves none.\<close>

lemma generate_keeps_files:
  assumes "generate_command env input fs = (r, fs')" "fs path = Some content"
  shows "fs' path = Some content"
  using assms by (auto simp: generate_command_def create_file_def in_directory_def Let_def throw_if_def split: if_splits sum.splits)

lemma generate_whole_pair:
  assumes "generate_command env input fs = (r, fs')"
  shows "fs' = fs \<or> fs' (in_directory (to_resolve env input) ''reeva-ota-private.pem'') = Some (fst (to_pair env)) \<and>
     fs' (in_directory (to_resolve env input) ''reeva-ota-public.pem'') = Some (snd (to_pair env))"
  using assms by (auto simp: generate_command_def create_file_def in_directory_def Let_def throw_if_def split: if_splits sum.splits)

section \<open>A publisher's machine\<close>

definition sample_tool :: tool_env where
  "sample_tool = \<lparr> to_crypto = toy_crypto, to_private = (\<lambda>pem. Some ''ed25519''), to_sign = (\<lambda>pem. toy_sign),
     to_resolve = (\<lambda>p. p), to_mkdir = (\<lambda>p. True), to_writable = (\<lambda>p. True), to_pair = (''S'', toy_pem) \<rparr>"

lemma sample_key_pair: "key_pair sample_tool ''S'' toy_pem"
  by (simp add: key_pair_def sample_tool_def toy_crypto_def toy_pem_def starts_with_def length_toy_sign)

lemma tool_signature_accepted_witness:
  "signing_tool sample_tool [''sign'', ''--private-key'', ''k'', ''--payload-base64url'', base64url [1]] [''k'' \<mapsto> ''S''] =
     ((base64url (toy_sign [1]), 0), [''k'' \<mapsto> ''S'']) \<and>
   verify_ota_release_signature toy_crypto (base64url [1]) (JStr (base64url (toy_sign [1]))) toy_pem"
proof -
  have ne: "base64url [1] \<noteq> []" using base64url_inject [of "[1]" "[]"] by (auto simp: base64url_def)
  have sign: "sign_command sample_tool [''k'' \<mapsto> ''S''] (signing_options ''k'' (base64url [1])) = Inr (base64url (toy_sign [1]))"
    by (subst sign_command_canonical) (simp_all add: sample_tool_def length_base64url)
  have run: "signing_tool sample_tool [''sign'', ''--private-key'', ''k'', ''--payload-base64url'', base64url [1]] [''k'' \<mapsto> ''S''] =
     ((base64url (toy_sign [1]), 0), [''k'' \<mapsto> ''S''])"
    using ne by (subst tool_sign_run) (simp_all add: sign)
  show ?thesis using tool_signature_accepted [OF sample_key_pair _ _ ne run] run by (simp add: sample_tool_def)
qed

end
