(* ===== verification/Signer_Admin.thy ===== *)
theory Signer_Admin
  imports Signer_Safety
begin

text \<open>
  \<open>scripts/signer_admin.mjs\<close>: the tool with which operators set up the vault of the external signer, make
  the signing key of a product, review a signing request and approve it. It talks to the signer and to the
  vault over HTTPS and keeps the recovery material of the vault in a file.
\<close>

section \<open>The machine of the operator\<close>

text \<open>
  A request carries the token of the vault (any truthy JSON value), the token of an identity of the signer, or
  none. The environment has the variables of the process and what the tool calls: \<open>ad_protocol\<close> is the
  protocol of \<open>new URL(path, base)\<close>; \<open>ad_answer\<close> gives, after the requests made so far, the status, the number
  of bytes and the text of the answer to a request, \<^const>\<open>None\<close> where the connection fails or takes more than 15
  seconds, and \<open>ad_takes\<close> the milliseconds it takes; \<open>ad_parse\<close>, \<open>ad_stringify\<close> and \<open>ad_text\<close> are
  \<open>JSON.parse\<close>, \<open>JSON.stringify\<close> and \<open>Buffer.toString\<close>, \<open>ad_string\<close> is \<open>String\<close> of values that are no texts; \<open>ad_raw_key\<close> is the PEM of the public key of 32 bytes;
  \<open>ad_artifact\<close> is the content of the file of an artifact.
\<close>

datatype admin_header = No_Token | Vault_Token jsval | Bearer_Token string

record admin_request =
  rq_url :: string
  rq_path :: string
  rq_method :: string
  rq_body :: "jsval option"
  rq_header :: admin_header

record admin_env =
  ad_crypto :: crypto
  ad_root :: "string option"
  ad_signer_url :: "string option"
  ad_bao_url :: "string option"
  ad_ca_file :: "string option"
  ad_approver_file :: "string option"
  ad_token_file :: "string option"
  ad_recovery_file :: "string option"
  ad_operator_file :: "string option"
  ad_protocol :: "string \<Rightarrow> string \<Rightarrow> string res"
  ad_answer :: "admin_request list \<Rightarrow> admin_request \<Rightarrow> (nat \<times> nat \<times> string) option"
  ad_takes :: "admin_request list \<Rightarrow> nat"
  ad_parse :: "string \<Rightarrow> jsval option"
  ad_stringify :: "jsval \<Rightarrow> string"
  ad_string :: "jsval \<Rightarrow> string"
  ad_text :: "bytes \<Rightarrow> string"
  ad_raw_key :: "bytes \<Rightarrow> string option"
  ad_artifact :: "string \<Rightarrow> bytes option"
  ad_writable :: "string \<Rightarrow> bool"

definition or_default :: "string option \<Rightarrow> string \<Rightarrow> string" where
  "or_default x d = (if no_text x then d else the x)"

definition operator_directory :: "admin_env \<Rightarrow> string" where
  "operator_directory env = or_default (ad_root env) ''/operator''"

definition signer_url :: "admin_env \<Rightarrow> string" where
  "signer_url env = or_default (ad_signer_url env) ''https://signer:8443''"

definition bao_url :: "admin_env \<Rightarrow> string" where
  "bao_url env = or_default (ad_bao_url env) ''https://openbao:8200''"

definition ca_path :: "admin_env \<Rightarrow> string" where
  "ca_path env = or_default (ad_ca_file env) ''/trust/ca.pem''"

definition approver_path :: "admin_env \<Rightarrow> string" where
  "approver_path env = or_default (ad_approver_file env) ''/approver/token''"

definition backend_token_path :: "admin_env \<Rightarrow> string" where
  "backend_token_path env = or_default (ad_token_file env) ''/bao-client/token''"

definition recovery_path :: "admin_env \<Rightarrow> string" where
  "recovery_path env = operator_directory env @ ''/initialization.json''"

text \<open>
  The files, the requests made, the clock in milliseconds, and what was printed: lines of text and named
  values.
\<close>

datatype printed = Line string | Values "(string \<times> jsval) list"

record admin_state =
  as_files :: "string \<rightharpoonup> string"
  as_calls :: "admin_request list"
  as_now :: nat
  as_printed :: "printed list"

section \<open>Steps\<close>

type_synonym 'a admin = "admin_state \<Rightarrow> 'a res \<times> admin_state"

definition pure_step :: "'a res \<Rightarrow> 'a admin" where
  "pure_step r s = (r, s)"

definition then_do :: "'a admin \<Rightarrow> ('a \<Rightarrow> 'b admin) \<Rightarrow> 'b admin" where
  "then_do m f s = (case m s of (Inl e, s') \<Rightarrow> (Inl e, s') | (Inr x, s') \<Rightarrow> f x s')"

definition refuse_if :: "bool \<Rightarrow> exn \<Rightarrow> 'a admin \<Rightarrow> 'a admin" where
  "refuse_if c e m s = (if c then (Inl e, s) else m s)"

definition read_content :: "string \<Rightarrow> string admin" where
  "read_content path s = (from_option (Fault ''ENOENT'') (as_files s path), s)"

definition write_text :: "admin_env \<Rightarrow> string \<Rightarrow> string \<Rightarrow> unit admin" where
  "write_text env path content s =
     (if ad_writable env path then (Inr (), s\<lparr>as_files := (as_files s)(path \<mapsto> content)\<rparr>) else (Inl (Fault ''EACCES''), s))"

text \<open>The flag \<open>wx\<close>.\<close>

definition write_new_text :: "admin_env \<Rightarrow> string \<Rightarrow> string \<Rightarrow> unit admin" where
  "write_new_text env path content s = refuse_if (as_files s path \<noteq> None) (Fault ''EEXIST'') (write_text env path content) s"

definition rename_file :: "admin_env \<Rightarrow> string \<Rightarrow> string \<Rightarrow> unit admin" where
  "rename_file env source dest s =
     (case as_files s source of
        None \<Rightarrow> (Inl (Fault ''ENOENT''), s)
      | Some content \<Rightarrow>
          if ad_writable env dest then (Inr (), s\<lparr>as_files := (as_files s)(source := None, dest \<mapsto> content)\<rparr>)
          else (Inl (Fault ''EACCES''), s))"

definition print_out :: "printed \<Rightarrow> unit admin" where
  "print_out p s = (Inr (), s\<lparr>as_printed := as_printed s @ [p]\<rparr>)"

text \<open>\<open>value.k\<close>: \<open>undefined\<close> and \<open>null\<close> have no properties.\<close>

definition member_of :: "string \<Rightarrow> jsval \<Rightarrow> jsval res" where
  "member_of k v =
     (case v of
        JUndef \<Rightarrow> Inl (Fault ''TypeError'') | JNull \<Rightarrow> Inl (Fault ''TypeError'')
      | JObj ps \<Rightarrow> Inr (js_prop ps k)
      | JArr vs \<Rightarrow> Inr (case List.find (\<lambda>n. dec n = k) [0..<length vs] of None \<Rightarrow> JUndef | Some n \<Rightarrow> vs ! n)
      | _ \<Rightarrow> Inr JUndef)"

text \<open>\<open>value?.k\<close>\<close>

definition member_opt :: "string \<Rightarrow> jsval \<Rightarrow> jsval" where
  "member_opt k v = (case member_of k v of Inl e \<Rightarrow> JUndef | Inr w \<Rightarrow> w)"

text \<open>A value in a template or as the name of a property.\<close>

definition template_text :: "admin_env \<Rightarrow> jsval \<Rightarrow> string" where
  "template_text env v = (case v of JStr s \<Rightarrow> s | _ \<Rightarrow> ad_string env v)"

text \<open>\<open>Buffer.from(value, 'base64')\<close> of a text; other values, which no answer has there, are refused.\<close>

definition buffer_of :: "jsval \<Rightarrow> bytes res" where
  "buffer_of v = (case v of JStr s \<Rightarrow> Inr (base64url_decode s) | _ \<Rightarrow> Inl (Fault ''ERR_INVALID_ARG_TYPE''))"

definition is_admin_slug :: "string \<Rightarrow> bool" where
  "is_admin_slug s \<longleftrightarrow>
     (case s of
        [] \<Rightarrow> False
      | c # t \<Rightarrow> (is_lower c \<or> is_digit c) \<and>
          (t = [] \<or> length t \<le> 79 \<and> list_all (\<lambda>x. is_lower x \<or> is_digit x \<or> x = CHR ''-'') t \<and>
             (is_lower (last t) \<or> is_digit (last t))))"

section \<open>Requests\<close>

definition admin_answer :: "admin_env \<Rightarrow> (nat \<times> nat \<times> string) option \<Rightarrow> jsval res" where
  "admin_answer env a =
     (case a of
        None \<Rightarrow> Inl (Fault ''ECONNRESET'')
      | Some (status, received, body) \<Rightarrow>
          throw_if (262144 < received) (Error ''Administration response too large.'')
          (throw_if (status < 200 \<or> 300 \<le> status) 
            (Error (''Administration request failed (HTTP '' @ dec status @ ''). No secrets were logged.''))
          (if received = 0 then Inr (JObj []) else from_option (Error ''Invalid response.'') (ad_parse env body))))"

definition admin_call :: "admin_env \<Rightarrow> admin_request \<Rightarrow> jsval admin" where
  "admin_call env q s =
     (case ad_protocol env (rq_url q) (rq_path q) of
        Inl e \<Rightarrow> (Inl e, s)
      | Inr protocol \<Rightarrow>
          refuse_if (protocol \<noteq> ''https:'') (Error ''Signing administration requires HTTPS.'')
          (then_do (read_content (ca_path env)) (\<lambda>ca s1.
             (admin_answer env (ad_answer env (as_calls s1) q),
              s1\<lparr>as_calls := as_calls s1 @ [q], as_now := as_now s1 + ad_takes env (as_calls s1)\<rparr>))) s)"

definition vault_call :: "admin_env \<Rightarrow> string \<Rightarrow> string \<Rightarrow> jsval option \<Rightarrow> jsval \<Rightarrow> jsval admin" where
  "vault_call env meth path body token =
     admin_call env \<lparr> rq_url = bao_url env, rq_path = path, rq_method = meth, rq_body = body,
       rq_header = (if truthy token then Vault_Token token else No_Token) \<rparr>"

definition signer_request :: "string \<Rightarrow> string \<Rightarrow> string \<Rightarrow> jsval option \<Rightarrow> string \<Rightarrow> admin_request" where
  "signer_request url meth path body token =
     \<lparr> rq_url = url, rq_path = path, rq_method = meth, rq_body = body,
       rq_header = (if token = [] then No_Token else Bearer_Token token) \<rparr>"

section \<open>Custody of the vault\<close>

definition credentials :: "admin_env \<Rightarrow> jsval admin" where
  "credentials env =
     then_do (read_content (or_default (ad_recovery_file env) (recovery_path env))) (\<lambda>content.
       pure_step (from_option (Fault ''SyntaxError'') (ad_parse env content)))"

definition operator_token :: "admin_env \<Rightarrow> jsval admin" where
  "operator_token env =
     then_do (if no_text (ad_operator_file env)
         then then_do (credentials env) (\<lambda>c. pure_step (member_of ''root_token'' c))
         else then_do (read_content (the (ad_operator_file env))) (\<lambda>content. pure_step (Inr (JStr (trim content))))) (\<lambda>token.
     refuse_if (\<not> truthy token) (Error ''No administrative token. Supply a separately managed SIGNER_OPERATOR_TOKEN_FILE.'')
       (pure_step (Inr token)))"

definition without_root_token :: "jsval \<Rightarrow> jsval" where
  "without_root_token v = (case v of JObj ps \<Rightarrow> JObj (filter (\<lambda>(k, x). k \<noteq> ''root_token'') ps) | _ \<Rightarrow> v)"

definition json_line :: "admin_env \<Rightarrow> jsval \<Rightarrow> string" where
  "json_line env v = ad_stringify env v @ [CHR 0x0A]"

definition retire_root :: "admin_env \<Rightarrow> unit admin" where
  "retire_root env =
     then_do (credentials env) (\<lambda>recovery.
     then_do (pure_step (member_of ''root_token'' recovery)) (\<lambda>token.
     refuse_if (\<not> truthy token) (Error ''Initial root token already removed.'')
     (then_do (vault_call env ''POST'' ''/v1/auth/token/revoke-self'' None token) (\<lambda>_.
      then_do (write_text env (recovery_path env) (json_line env (without_root_token recovery))) (\<lambda>_.
      print_out (Line ''Initial root token revoked and removed. Preserve recovery shares offline; future key administration requires a separately managed operator token.''))))))"

fun unseal_each :: "admin_env \<Rightarrow> jsval list \<Rightarrow> unit admin" where
  "unseal_each env [] = pure_step (Inr ())"
| "unseal_each env (key # keys) =
     then_do (vault_call env ''POST'' ''/v1/sys/unseal'' (Some (JObj [(''key'', key)])) JUndef) (\<lambda>_. unseal_each env keys)"

text \<open>\<open>keys.slice(0, 2)\<close>, which texts have as well.\<close>

definition two_keys :: "jsval \<Rightarrow> jsval list res" where
  "two_keys v =
     (case v of JArr vs \<Rightarrow> Inr (take 2 vs) | JStr s \<Rightarrow> Inr (map (\<lambda>c. JStr [c]) (take 2 s)) | _ \<Rightarrow> Inl (Fault ''TypeError''))"

lemma admin_call_time: "as_now s \<le> as_now (snd (admin_call env q s))"
  by (auto simp: admin_call_def refuse_if_def then_do_def read_content_def split: sum.splits prod.splits)

function wait_for_leader :: "admin_env \<Rightarrow> nat \<Rightarrow> unit admin" where
  "wait_for_leader env deadline s =
     (if as_now s < deadline
      then (case vault_call env ''GET'' ''/v1/sys/leader'' None JUndef s of
          (Inl e, s1) \<Rightarrow> (Inl e, s1)
        | (Inr leader, s1) \<Rightarrow>
            (case member_of ''is_self'' leader of
               Inl e \<Rightarrow> (Inl e, s1)
             | Inr b \<Rightarrow> if truthy b then (Inr (), s1) else wait_for_leader env deadline (s1\<lparr>as_now := as_now s1 + 250\<rparr>)))
      else (Inl (Error ''Vault unsealed but no active leader became ready within 30 seconds.''), s))"
  by pat_completeness auto

termination
proof (relation "measure (\<lambda>(env, deadline, s). deadline - as_now s)", simp)
  fix env deadline s r s1 leader b
  assume "as_now s < deadline" and v: "(r, s1) = vault_call env ''GET'' ''/v1/sys/leader'' None JUndef s"
  moreover have "as_now s \<le> as_now s1"
    using admin_call_time [where s = s and env = env] by (metis v snd_conv vault_call_def)
  ultimately show "((env, deadline, s1\<lparr>as_now := as_now s1 + 250\<rparr>), env, deadline, s) \<in> measure (\<lambda>(env, deadline, s). deadline - as_now s)"
    by simp
qed

declare wait_for_leader.simps [simp del]

definition unseal_vault :: "admin_env \<Rightarrow> jsval \<Rightarrow> unit admin" where
  "unseal_vault env keys =
     then_do (pure_step (two_keys keys)) (\<lambda>ks.
     then_do (unseal_each env ks) (\<lambda>_ s. wait_for_leader env (as_now s + 30000) s))"

definition signer_policy :: string where
  \<open>signer_policy =
     ''path "transit/keys/reeva-*" { capabilities = ["read"] }'' @ [CHR 0x0A] @
     ''path "transit/sign/reeva-*" { capabilities = ["update"] }'' @ [CHR 0x0A] @
     ''path "auth/token/renew-self" { capabilities = ["update"] }'' @ [CHR 0x0A] @
     ''path "auth/token/lookup-self" { capabilities = ["read", "update"] }''\<close>

definition has_transit :: "jsval \<Rightarrow> bool res" where
  "has_transit mounts =
     bind_res (member_of ''transit/'' mounts) (\<lambda>a.
     if truthy a then Inr True
     else bind_res (member_of ''data'' mounts) (\<lambda>data. Inr (truthy (member_opt ''transit/'' data))))"

definition configure_runtime :: "admin_env \<Rightarrow> jsval \<Rightarrow> unit admin" where
  "configure_runtime env token =
     then_do (vault_call env ''GET'' ''/v1/sys/mounts'' None token) (\<lambda>mounts.
     then_do (pure_step (has_transit mounts)) (\<lambda>present.
     then_do (if present then pure_step (Inr JUndef)
       else vault_call env ''POST'' ''/v1/sys/mounts/transit'' (Some (JObj [(''type'', JStr ''transit'')])) token) (\<lambda>_.
     then_do (vault_call env ''PUT'' ''/v1/sys/policies/acl/reeva-signer'' (Some (JObj [(''policy'', JStr signer_policy)])) token) (\<lambda>_.
     then_do (vault_call env ''POST'' ''/v1/auth/token/create-orphan'' (Some (JObj [(''policies'', JArr [JStr ''reeva-signer'']),
       (''no_default_policy'', JBool True), (''period'', JStr ''24h''), (''display_name'', JStr ''reeva-signer'')])) token) (\<lambda>response.
     then_do (pure_step (bind_res (member_of ''auth'' response) (\<lambda>a. bind_res (member_of ''client_token'' a)
       (\<lambda>t. Inr (template_text env t))))) (\<lambda>content.
     then_do (write_text env (backend_token_path env @ ''.tmp'') (content @ [CHR 0x0A])) (\<lambda>_.
     rename_file env (backend_token_path env @ ''.tmp'') (backend_token_path env))))))))"

definition initialize_vault :: "admin_env \<Rightarrow> unit admin" where
  "initialize_vault env =
     then_do (vault_call env ''GET'' ''/v1/sys/init'' None JUndef) (\<lambda>state.
     then_do (pure_step (member_of ''initialized'' state)) (\<lambda>initialized.
     refuse_if (truthy initialized) (Error ''Vault already initialized; use unseal/configure. Existing custody data was preserved.'')
     (then_do (write_new_text env (recovery_path env) (''{}'' @ [CHR 0x0A])) (\<lambda>_.
      then_do (vault_call env ''PUT'' ''/v1/sys/init''
        (Some (JObj [(''secret_shares'', JNum (Fin 3)), (''secret_threshold'', JNum (Fin 2))])) JUndef) (\<lambda>result.
      then_do (write_text env (recovery_path env) (json_line env result)) (\<lambda>_.
      then_do (pure_step (member_of ''keys'' result)) (\<lambda>keys.
      then_do (unseal_vault env keys) (\<lambda>_.
      then_do (pure_step (member_of ''root_token'' result)) (\<lambda>token.
      then_do (configure_runtime env token) (\<lambda>_.
      print_out (Line ''Vault initialized/unsealed; scoped signer token configured. Recovery material is in the operator-only volume. Export shares to independent custodians and secure/remove the retained root token before production.'')))))))))))"

section \<open>Keys of products\<close>

definition custody_violated :: "jsval \<Rightarrow> bool res" where
  "custody_violated data =
     bind_res (member_of ''type'' data) (\<lambda>t.
       Inr (t \<noteq> JStr ''ed25519'' \<or> truthy (member_opt ''derived'' data) \<or> truthy (member_opt ''exportable'' data) \<or>
         truthy (member_opt ''allow_plaintext_backup'' data)))"

definition raw_public_key :: "admin_env \<Rightarrow> jsval \<Rightarrow> bytes res" where
  "raw_public_key env data =
     bind_res (member_of ''latest_version'' data) (\<lambda>version.
     bind_res (member_of ''keys'' data) (\<lambda>keys.
     bind_res (member_of (template_text env version) keys) (\<lambda>key.
     bind_res (member_of ''public_key'' key) buffer_of)))"

definition provision_key :: "admin_env \<Rightarrow> string \<Rightarrow> unit admin" where
  "provision_key env product =
     refuse_if (\<not> is_admin_slug product) (Error ''Provide a valid software slug.'')
     (then_do (operator_token env) (\<lambda>token.
      then_do (vault_call env ''POST'' (''/v1/transit/keys/reeva-'' @ product)
        (Some (JObj [(''type'', JStr ''ed25519''), (''derived'', JBool False), (''exportable'', JBool False),
           (''allow_plaintext_backup'', JBool False)])) token) (\<lambda>_.
      then_do (vault_call env ''GET'' (''/v1/transit/keys/reeva-'' @ product) None token) (\<lambda>result.
      then_do (pure_step (member_of ''data'' result)) (\<lambda>data.
      then_do (pure_step (custody_violated data)) (\<lambda>bad.
      refuse_if bad (Error ''Existing key does not satisfy custody policy. No key was replaced.'')
      (then_do (pure_step (raw_public_key env data)) (\<lambda>raw.
       refuse_if (length raw \<noteq> 32) (Error ''Invalid provider public key.'')
       (then_do (pure_step (from_option (Fault ''ERR_OSSL'') (ad_raw_key env raw))) (\<lambda>pem.
        print_out (Values [(''product'', JStr product), (''keyVersion'', member_opt ''latest_version'' data),
          (''keyId'', JStr (cr_sha256 (ad_crypto env) (cr_spki_der (ad_crypto env) pem))), (''publicKey'', JStr pem)])))))))))))"

section \<open>Review and approval\<close>

definition signing_request_of :: "admin_env \<Rightarrow> string \<Rightarrow> (string \<times> jsval) admin" where
  "signing_request_of env i =
     refuse_if (\<not> is_hex64 i) (Error ''Provide a signing request ID.'')
     (then_do (read_content (approver_path env)) (\<lambda>content.
      then_do (admin_call env (signer_request (signer_url env) ''GET'' (''/v1/requests/'' @ i) None (trim content))) (\<lambda>v.
      pure_step (Inr (trim content, v)))))"

definition parse_manifest :: "admin_env \<Rightarrow> bytes \<Rightarrow> jsval res" where
  "parse_manifest env b = from_option (Fault ''SyntaxError'') (ad_parse env (ad_text env b))"

definition review_release :: "admin_env \<Rightarrow> string \<Rightarrow> unit admin" where
  "review_release env i =
     then_do (signing_request_of env i) (\<lambda>(token, v).
     then_do (pure_step (bind_res (member_of ''payload'' v) buffer_of)) (\<lambda>b.
     then_do (pure_step (parse_manifest env b)) (\<lambda>manifest.
     print_out (Values [(''id'', member_opt ''id'' v), (''keyId'', member_opt ''keyId'' v), (''keyVersion'', member_opt ''keyVersion'' v),
       (''payloadDigest'', JStr (cr_sha256 (ad_crypto env) b)), (''manifest'', manifest), (''status'', member_opt ''status'' v),
       (''expiresAt'', member_opt ''expiresAt'' v)]))))"

definition approval_body :: "string \<Rightarrow> string \<Rightarrow> nat \<Rightarrow> jsval \<Rightarrow> jsval" where
  "approval_body digest sha256 bytes expires_at =
     JObj [(''payloadDigest'', JStr digest), (''artifactSha256'', JStr sha256),
       (''artifactSizeBytes'', JNum (Fin (of_nat bytes))), (''expiresAt'', expires_at)]"

definition artifact_differs :: "admin_env \<Rightarrow> bytes \<Rightarrow> jsval \<Rightarrow> bool res" where
  "artifact_differs env content manifest =
     bind_res (member_of ''sha256'' manifest) (\<lambda>sha.
       Inr (sha \<noteq> JStr (cr_sha256 (ad_crypto env) content) \<or>
         member_opt ''sizeBytes'' manifest \<noteq> JNum (Fin (of_nat (length content)))))"

definition approve_release :: "admin_env \<Rightarrow> string \<Rightarrow> string \<Rightarrow> string \<Rightarrow> unit admin" where
  "approve_release env i path digest =
     refuse_if (path = [] \<or> \<not> is_hex64 digest)
       (Error ''approve requires <request-id> <artifact-file> <reviewed-payload-digest>. Run review first.'')
     (then_do (signing_request_of env i) (\<lambda>(token, v).
      then_do (pure_step (bind_res (member_of ''payload'' v) buffer_of)) (\<lambda>b.
      refuse_if (cr_sha256 (ad_crypto env) b \<noteq> digest \<or> member_opt ''payloadDigest'' v \<noteq> JStr digest)
        (Error ''Manifest changed or review digest mismatched.'')
      (then_do (pure_step (parse_manifest env b)) (\<lambda>manifest.
       then_do (pure_step (from_option (Fault ''ENOENT'') (ad_artifact env path))) (\<lambda>content.
       then_do (pure_step (artifact_differs env content manifest)) (\<lambda>differs.
       refuse_if differs (Error ''Local independently obtained artifact does not match manifest.'')
       (then_do (admin_call env (signer_request (signer_url env) ''POST'' (''/v1/requests/'' @ i @ ''/approve'')
          (Some (approval_body digest (cr_sha256 (ad_crypto env) content) (length content) (member_opt ''expiresAt'' v))) token)) (\<lambda>result.
        then_do (pure_step (member_of ''id'' result)) (\<lambda>rid.
        print_out (Values [(''request'', rid), (''status'', member_opt ''status'' result), (''keyId'', member_opt ''keyId'' result),
          (''signature'', member_opt ''signature'' result)])))))))))))"

section \<open>The command line\<close>

definition admin_usage :: exn where
  "admin_usage = Error ''Commands: init | unseal | configure | retire-root | provision <software-slug> | review <request-id> | approve <request-id> <artifact-file> <reviewed-payload-digest>''"

fun admin_command :: "admin_env \<Rightarrow> string list \<Rightarrow> unit admin" where
  "admin_command env [c] =
     (if c = ''init'' then initialize_vault env
      else if c = ''unseal''
      then then_do (credentials env) (\<lambda>r. then_do (pure_step (member_of ''keys'' r)) (\<lambda>keys.
        then_do (unseal_vault env keys) (\<lambda>_. print_out (Line ''Vault unsealed.''))))
      else if c = ''configure''
      then then_do (operator_token env) (\<lambda>token. then_do (configure_runtime env token) (\<lambda>_.
        print_out (Line ''Scoped runtime token replaced; previous token must be revoked by an operator.'')))
      else if c = ''retire-root'' then retire_root env
      else pure_step (Inl admin_usage))"
| "admin_command env [c, a] =
     (if c = ''provision'' then provision_key env a else if c = ''review'' then review_release env a else pure_step (Inl admin_usage))"
| "admin_command env [c, a, b, d] = (if c = ''approve'' then approve_release env a b d else pure_step (Inl admin_usage))"
| "admin_command env args = pure_step (Inl admin_usage)"

definition signer_admin :: "admin_env \<Rightarrow> string list \<Rightarrow> admin_state \<Rightarrow> nat \<times> admin_state" where
  "signer_admin env args s = (case admin_command env args s of (r, s') \<Rightarrow> (if isl r then 1 else 0, s'))"

end
