(* ===== verification/Admin_Safety.thy ===== *)
theory Admin_Safety
  imports Signer_Admin
begin

text \<open>
  What the operators' tool keeps: the custody of the vault, and that what it approves is what the signer is
  asked to sign.
\<close>

section \<open>Laws of the steps\<close>

lemma then_do_pure [simp]: "then_do (pure_step (Inl e)) f s = (Inl e, s)" "then_do (pure_step (Inr x)) f s = f x s"
  by (simp_all add: then_do_def pure_step_def)

lemma then_do_read [simp]:
  "then_do (read_content path) f s = (case as_files s path of None \<Rightarrow> (Inl (Fault ''ENOENT''), s) | Some content \<Rightarrow> f content s)"
  by (auto simp: then_do_def read_content_def split: option.splits)

lemma refuse_if_simps [simp]: "refuse_if True e m s = (Inl e, s)" "refuse_if False e m s = m s"
  by (simp_all add: refuse_if_def)

definition keeps :: "(admin_state \<Rightarrow> admin_state \<Rightarrow> bool) \<Rightarrow> 'a admin \<Rightarrow> bool" where
  "keeps rel m \<longleftrightarrow> (\<forall>s. rel s (snd (m s)))"

definition vault_init :: "string \<times> string" where
  "vault_init = (''PUT'', ''/v1/sys/init'')"

text \<open>
  A relation between the states before and after that holds for every step of the commands: requests to the
  vault other than its initialisation, requests to the signer, and writing files of the set \<open>paths\<close>.
\<close>

locale step_law =
  fixes env :: admin_env and rel :: "admin_state \<Rightarrow> admin_state \<Rightarrow> bool" and paths :: "string set"
  assumes rel_refl: "rel s s"
    and rel_trans: "rel s t \<Longrightarrow> rel t u \<Longrightarrow> rel s u"
    and rel_printed: "rel s (s\<lparr>as_printed := ps\<rparr>)"
    and rel_waits: "rel s (s\<lparr>as_now := n\<rparr>)"
    and rel_vault: "(meth, path) \<noteq> vault_init \<Longrightarrow> keeps rel (vault_call env meth path body token)"
    and rel_signer: "(meth, path) \<noteq> vault_init \<Longrightarrow> keeps rel (admin_call env (signer_request (signer_url env) meth path body bearer_token))"
    and rel_write: "p \<in> paths \<Longrightarrow> keeps rel (write_text env p content)"
    and rel_rename: "p \<in> paths \<Longrightarrow> q \<in> paths \<Longrightarrow> keeps rel (rename_file env p q)"
begin

lemma kept_pure: "keeps rel (pure_step r)"
  by (simp add: keeps_def pure_step_def rel_refl)

lemma kept_read: "keeps rel (read_content path)"
  by (simp add: keeps_def read_content_def rel_refl)

lemma kept_print: "keeps rel (print_out p)"
  by (simp add: keeps_def print_out_def rel_printed)

lemma kept_then: "keeps rel m \<Longrightarrow> (\<And>x. keeps rel (f x)) \<Longrightarrow> keeps rel (then_do m f)"
  unfolding keeps_def then_do_def by (auto split: prod.splits sum.splits) (metis rel_trans snd_conv)+

lemma kept_refuse: "keeps rel m \<Longrightarrow> keeps rel (refuse_if c e m)"
  by (simp add: keeps_def refuse_if_def rel_refl)

lemma kept_if: "keeps rel m \<Longrightarrow> keeps rel n \<Longrightarrow> keeps rel (if c then m else n)"
  by simp

lemma kept_unseal_each: "keeps rel (unseal_each env keys)"
  by (induction keys) (auto intro!: kept_pure kept_then rel_vault simp: vault_init_def)

lemma kept_wait: "rel s (snd (wait_for_leader env deadline s))"
proof (induction "deadline - as_now s" arbitrary: s rule: less_induct)
  case less
  obtain r s1 where v: "vault_call env ''GET'' ''/v1/sys/leader'' None JUndef s = (r, s1)" by fastforce
  have s1: "rel s s1"
    using rel_vault [of "''GET''" "''/v1/sys/leader''" None JUndef] v by (auto simp: keeps_def vault_init_def dest: spec [of _ s])
  have "as_now s \<le> as_now s1" using admin_call_time [where s = s and env = env] v by (metis snd_conv vault_call_def)
  then have "as_now s < deadline \<Longrightarrow> rel (s1\<lparr>as_now := as_now s1 + 250\<rparr>) (snd (wait_for_leader env deadline (s1\<lparr>as_now := as_now s1 + 250\<rparr>)))"
    by (intro less) simp
  moreover have "rel s (s1\<lparr>as_now := as_now s1 + 250\<rparr>)" using s1 rel_waits rel_trans by blast
  ultimately show ?case
    using s1 rel_refl rel_trans by (subst wait_for_leader.simps) (auto simp: v split: sum.splits)
qed

lemmas kept = kept_pure kept_read kept_print kept_then kept_refuse kept_if kept_unseal_each rel_vault rel_signer

lemma kept_unseal: "keeps rel (unseal_vault env keys)"
proof -
  have "keeps rel (\<lambda>s. wait_for_leader env (as_now s + 30000) s)" by (simp add: keeps_def kept_wait)
  then show ?thesis unfolding unseal_vault_def by (intro kept)
qed

lemma kept_credentials: "keeps rel (credentials env)"
  unfolding credentials_def by (intro kept)

lemma kept_operator_token: "keeps rel (operator_token env)"
  unfolding operator_token_def by (intro kept kept_credentials)

lemma kept_configure:
  assumes "backend_token_path env \<in> paths" "backend_token_path env @ ''.tmp'' \<in> paths"
  shows "keeps rel (configure_runtime env token)"
  unfolding configure_runtime_def using assms by (intro kept rel_write rel_rename) (auto simp: vault_init_def)

lemma kept_retire: "recovery_path env \<in> paths \<Longrightarrow> keeps rel (retire_root env)"
  unfolding retire_root_def by (intro kept kept_credentials rel_write) (auto simp: vault_init_def)

lemma kept_signing_request: "keeps rel (signing_request_of env i)"
  unfolding signing_request_of_def by (intro kept) (simp add: vault_init_def)

lemma kept_release: "keeps rel (review_release env i)" "keeps rel (approve_release env i path digest)"
  unfolding review_release_def approve_release_def split_def by ((intro kept kept_signing_request; simp add: vault_init_def)+)

lemma kept_provision: "keeps rel (provision_key env product)"
  unfolding provision_key_def by (intro kept kept_operator_token) (auto simp: vault_init_def)

text \<open>Every command but \<open>init\<close>, and \<open>init\<close> where the relation holds for the initialisation too.\<close>

lemma kept_command:
  assumes "backend_token_path env \<in> paths" "backend_token_path env @ ''.tmp'' \<in> paths"
    and "args = [''retire-root''] \<Longrightarrow> recovery_path env \<in> paths" "args \<noteq> [''init'']"
  shows "keeps rel (admin_command env args)"
  using assms
  by (cases "(env, args)" rule: admin_command.cases)
    (simp_all add: kept_pure kept_retire kept_provision kept_release kept_credentials kept_unseal
      kept_operator_token kept_configure kept_then kept_print)

lemma kept_write_new: "p \<in> paths \<Longrightarrow> keeps rel (write_new_text env p content)"
  using rel_write by (simp add: keeps_def write_new_text_def refuse_if_def rel_refl)

lemma kept_initialize:
  assumes "backend_token_path env \<in> paths" "backend_token_path env @ ''.tmp'' \<in> paths" "recovery_path env \<in> paths"
    and "\<And>body. keeps rel (vault_call env (fst vault_init) (snd vault_init) body JUndef)"
  shows "keeps rel (initialize_vault env)"
  unfolding initialize_vault_def
  by (intro kept kept_write_new kept_unseal kept_configure rel_write assms assms(4) [unfolded vault_init_def fst_conv snd_conv])
    (auto simp: vault_init_def)

end


section \<open>Where tokens go and which files change\<close>

text \<open>A token of the vault goes to the vault only, the token of the approver to the signer only.\<close>

definition confined :: "admin_env \<Rightarrow> admin_request \<Rightarrow> bool" where
  "confined env q \<longleftrightarrow> rq_url q = signer_url env \<and> (\<forall>v. rq_header q \<noteq> Vault_Token v) \<or>
     rq_url q = bao_url env \<and> (\<forall>t. rq_header q \<noteq> Bearer_Token t)"

definition initialises :: "admin_request \<Rightarrow> bool" where
  "initialises q \<longleftrightarrow> (rq_method q, rq_path q) = vault_init"

definition calls_law :: "(admin_request \<Rightarrow> bool) \<Rightarrow> admin_state \<Rightarrow> admin_state \<Rightarrow> bool" where
  "calls_law P s t \<longleftrightarrow> (\<exists>qs. as_calls t = as_calls s @ qs \<and> list_all P qs)"

definition files_law :: "string set \<Rightarrow> admin_state \<Rightarrow> admin_state \<Rightarrow> bool" where
  "files_law paths s t \<longleftrightarrow> (\<forall>p. p \<notin> paths \<longrightarrow> as_files t p = as_files s p)"

lemma calls_law_refl [simp]: "as_calls t = as_calls s \<Longrightarrow> calls_law P s t"
  by (simp add: calls_law_def)

lemma calls_law_trans: "calls_law P s t \<Longrightarrow> calls_law P t u \<Longrightarrow> calls_law P s u"
  unfolding calls_law_def by (metis append.assoc list_all_append)

lemma admin_call_calls: "P q \<Longrightarrow> keeps (calls_law P) (admin_call env q)"
  by (auto simp: keeps_def calls_law_def admin_call_def refuse_if_def split: sum.splits option.splits)

lemma admin_call_files: "as_files (snd (admin_call env q s)) = as_files s"
  by (auto simp: admin_call_def refuse_if_def split: sum.splits option.splits)

definition quiet_request :: "admin_env \<Rightarrow> admin_request \<Rightarrow> bool" where
  "quiet_request env q \<longleftrightarrow> confined env q \<and> \<not> initialises q"

interpretation calls: step_law env "calls_law (confined env)" UNIV for env
  by unfold_locales
    (auto simp: keeps_def write_text_def rename_file_def vault_call_def signer_request_def confined_def split: option.splits
      intro: calls_law_trans admin_call_calls [unfolded keeps_def, rule_format])

interpretation quiet: step_law env "calls_law (quiet_request env)" UNIV for env
  by unfold_locales
    (auto simp: keeps_def write_text_def rename_file_def vault_call_def signer_request_def quiet_request_def confined_def initialises_def
      split: option.splits intro: calls_law_trans admin_call_calls [unfolded keeps_def, rule_format])

interpretation touched: step_law env "files_law paths" paths for env paths
  by unfold_locales
    (auto simp: keeps_def files_law_def write_text_def rename_file_def vault_call_def admin_call_files split: option.splits)

definition token_files :: "admin_env \<Rightarrow> string set" where
  "token_files env = {backend_token_path env, backend_token_path env @ ''.tmp''}"

lemma init_calls: "calls_law (confined env) s (snd (initialize_vault env s))"
proof -
  have "keeps (calls_law (confined env)) (initialize_vault env)"
    by (rule calls.kept_initialize) (auto simp: vault_call_def confined_def intro: admin_call_calls)
  then show ?thesis by (simp add: keeps_def)
qed

lemma init_files: "files_law (insert (recovery_path env) (token_files env)) s (snd (initialize_vault env s))"
proof -
  have "keeps (files_law (insert (recovery_path env) (token_files env))) (initialize_vault env)"
    by (rule touched.kept_initialize) (simp_all add: token_files_def keeps_def files_law_def vault_call_def admin_call_files)
  then show ?thesis by (simp add: keeps_def)
qed

lemma command_laws:
  assumes "args \<noteq> [''init'']"
  shows "calls_law (quiet_request env) s (snd (admin_command env args s))"
    "files_law (token_files env \<union> (if args = [''retire-root''] then {recovery_path env} else {})) s (snd (admin_command env args s))"
proof -
  have "keeps (calls_law (quiet_request env)) (admin_command env args)" using assms by (intro quiet.kept_command) auto
  then show "calls_law (quiet_request env) s (snd (admin_command env args s))" by (simp add: keeps_def)
  have "keeps (files_law (token_files env \<union> (if args = [''retire-root''] then {recovery_path env} else {}))) (admin_command env args)"
    using assms by (intro touched.kept_command) (auto simp: token_files_def)
  then show "files_law (token_files env \<union> (if args = [''retire-root''] then {recovery_path env} else {})) s (snd (admin_command env args s))"
    by (simp add: keeps_def)
qed

text \<open>An existing recovery file stops \<open>init\<close> before the vault is initialised.\<close>

lemma init_preserves:
  assumes "as_files s (recovery_path env) \<noteq> None"
  shows "calls_law (quiet_request env) s (snd (initialize_vault env s)) \<and> as_files (snd (initialize_vault env s)) = as_files s"
proof -
  let ?q = "vault_call env ''GET'' ''/v1/sys/init'' None JUndef"
  have f: "as_files (snd (?q s)) = as_files s" by (simp add: vault_call_def admin_call_files)
  have "calls_law (quiet_request env) s (snd (?q s))"
    using quiet.rel_vault [of "''GET''" "''/v1/sys/init''"] by (auto simp: keeps_def vault_init_def)
  moreover have "snd (initialize_vault env s) = snd (?q s)"
  proof -
    obtain r s1 where q: "?q s = (r, s1)" by fastforce
    then have "as_files s1 (recovery_path env) \<noteq> None" using assms f by simp
    then have stop: "then_do (write_new_text env (recovery_path env) c) g s1 = (Inl (Fault ''EEXIST''), s1)" for c and g :: "unit \<Rightarrow> unit admin"
      by (simp add: then_do_def write_new_text_def)
    show ?thesis
    proof (cases r)
      case (Inr answer)
      show ?thesis
      proof (cases "member_of ''initialized'' answer")
        fix b
        assume "member_of ''initialized'' answer = Inr b"
        then show ?thesis by (cases "truthy b") (simp_all add: initialize_vault_def then_do_def [of ?q] q Inr stop)
      qed (simp add: initialize_vault_def then_do_def [of ?q] q Inr)
    qed (simp add: initialize_vault_def then_do_def [of ?q] q)
  qed
  ultimately show ?thesis using f by simp
qed


text \<open>
  With \<open>SIGNER_RECOVERY_FILE\<close> the root token is read from that file, and \<open>retire-root\<close> leaves it there.
\<close>

lemma retired_token_kept:
  assumes "ad_recovery_file env = Some p" "p \<noteq> recovery_path env"
  shows "as_files (snd (retire_root env s)) p = as_files s p"
  using touched.kept_retire [of env "{recovery_path env}"] assms by (simp add: keeps_def files_law_def)

section \<open>What is approved\<close>

text \<open>
  \<open>JSON.parse\<close> of the tool and the reader of the signer agree on what a manifest says, and the text form of
  a release that the signer reads.
\<close>

definition agrees_with_signer :: "admin_env \<Rightarrow> signer_lib \<Rightarrow> bool" where
  "agrees_with_signer env lib \<longleftrightarrow> ad_crypto env = sl_crypto lib \<and>
     (\<forall>b v m. sl_manifest lib b = Some (v, m) \<longrightarrow>
        (\<exists>ps. ad_parse env (ad_text env b) = Some (JObj ps) \<and> js_prop ps ''sha256'' = JStr (mf_sha256 m) \<and>
           js_prop ps ''sizeBytes'' = JNum (Fin (of_int (mf_size_bytes m)))))"

definition review_call :: "admin_env \<Rightarrow> string \<Rightarrow> string \<Rightarrow> admin_request" where
  "review_call env i bearer_token = signer_request (signer_url env) ''GET'' (''/v1/requests/'' @ i) None (trim bearer_token)"

definition approval_call :: "admin_env \<Rightarrow> string \<Rightarrow> string \<Rightarrow> approval \<Rightarrow> admin_request" where
  "approval_call env i bearer_token a =
     signer_request (signer_url env) ''POST'' (''/v1/requests/'' @ i @ ''/approve'')
       (Some (approval_body (ai_payload_digest a) (ai_artifact_sha256 a) (ai_artifact_size_bytes a) (JNum (Fin (of_int (ai_expires_at a))))))
       (trim bearer_token)"

text \<open>The operator holds the artifact of the manifest.\<close>

definition holds_artifact :: "admin_env \<Rightarrow> string \<Rightarrow> ota_manifest \<Rightarrow> bool" where
  "holds_artifact env path m \<longleftrightarrow> (\<exists>content. ad_artifact env path = Some content \<and>
     cr_sha256 (ad_crypto env) content = mf_sha256 m \<and> int (length content) = mf_size_bytes m)"

text \<open>The signer answers the tool's question about a request with the row of the request.\<close>

definition answers_row :: "admin_env \<Rightarrow> admin_state \<Rightarrow> string \<Rightarrow> signing_row \<Rightarrow> bool" where
  "answers_row env s bearer_token r \<longleftrightarrow> (\<exists>n content. 0 < n \<and> n \<le> 262144 \<and>
     ad_answer env (as_calls s) (review_call env (sr_id r) bearer_token) = Some (200, n, content) \<and>
     ad_parse env content = Some (JObj (row_response r)))"

definition operator_ready :: "admin_env \<Rightarrow> admin_state \<Rightarrow> string \<Rightarrow> bool" where
  "operator_ready env s bearer_token \<longleftrightarrow> as_files s (ca_path env) \<noteq> None \<and> as_files s (approver_path env) = Some bearer_token \<and>
     (\<forall>path. ad_protocol env (signer_url env) path = Inr ''https:'')"

lemma admin_call_ready:
  assumes "operator_ready env s bearer_token" "rq_url q = signer_url env"
  shows "admin_call env q s = (admin_answer env (ad_answer env (as_calls s) q),
     s\<lparr>as_calls := as_calls s @ [q], as_now := as_now s + ad_takes env (as_calls s)\<rparr>)"
  using assms by (auto simp: operator_ready_def admin_call_def)

lemma request_row:
  assumes "operator_ready env s bearer_token" "answers_row env s bearer_token r" "is_hex64 (sr_id r)"
  shows "signing_request_of env (sr_id r) s = (Inr (trim bearer_token, JObj (row_response r)),
     s\<lparr>as_calls := as_calls s @ [review_call env (sr_id r) bearer_token], as_now := as_now s + ad_takes env (as_calls s)\<rparr>)"
proof -
  obtain n content where a: "0 < n" "n \<le> 262144" "ad_parse env content = Some (JObj (row_response r))"
    "ad_answer env (as_calls s) (review_call env (sr_id r) bearer_token) = Some (200, n, content)"
    using assms(2) by (auto simp: answers_row_def)
  have "as_files s (approver_path env) = Some bearer_token" using assms(1) by (simp add: operator_ready_def)
  moreover have "admin_call env (review_call env (sr_id r) bearer_token) s = (Inr (JObj (row_response r)),
      s\<lparr>as_calls := as_calls s @ [review_call env (sr_id r) bearer_token], as_now := as_now s + ad_takes env (as_calls s)\<rparr>)"
    using a by (subst admin_call_ready [OF assms(1)]) (simp_all add: review_call_def signer_request_def admin_answer_def)
  ultimately show ?thesis
    using assms(3) by (simp add: signing_request_of_def then_do_def [of "admin_call env q" for q] pure_step_def review_call_def)
qed

lemma row_members: "member_of ''payload'' (JObj (row_response r)) = Inr (JStr (sr_payload r))"
  "member_opt ''payloadDigest'' (JObj (row_response r)) = JStr (sr_payload_digest r)"
  "member_opt ''expiresAt'' (JObj (row_response r)) = JNum (Fin (of_int (sr_expires_at r)))"
  by (simp_all add: member_opt_def member_of_def row_response_def js_prop_def)

text \<open>The run of \<open>approve\<close> once the request is read.\<close>

lemma approve_run:
  assumes "operator_ready env s bearer_token" "answers_row env s bearer_token r" "is_hex64 (sr_id r)" "path \<noteq> []" "is_hex64 digest"
    and "sr_payload r = base64url b" "ad_parse env (ad_text env b) = Some (JObj ps)"
    "js_prop ps ''sha256'' = JStr (mf_sha256 m)" "js_prop ps ''sizeBytes'' = JNum (Fin (of_int (mf_size_bytes m)))"
  defines "t \<equiv> s\<lparr>as_calls := as_calls s @ [review_call env (sr_id r) bearer_token], as_now := as_now s + ad_takes env (as_calls s)\<rparr>"
  shows "\<not> (cr_sha256 (ad_crypto env) b = digest \<and> sr_payload_digest r = digest \<and> holds_artifact env path m) \<Longrightarrow>
      \<exists>e. approve_release env (sr_id r) path digest s = (Inl e, t)"
    and "cr_sha256 (ad_crypto env) b = digest \<and> sr_payload_digest r = digest \<and> holds_artifact env path m \<Longrightarrow>
      as_calls (snd (approve_release env (sr_id r) path digest s)) = as_calls t @ [approval_call env (sr_id r) bearer_token
        \<lparr> ai_payload_digest = digest, ai_artifact_sha256 = mf_sha256 m, ai_artifact_size_bytes = nat (mf_size_bytes m),
          ai_expires_at = sr_expires_at r \<rparr>]"
proof -
  have differs: "artifact_differs env content (JObj ps) =
      Inr (\<not> (cr_sha256 (ad_crypto env) content = mf_sha256 m \<and> int (length content) = mf_size_bytes m))" for content
    using assms(8,9) by (auto simp: artifact_differs_def member_of_def member_opt_def)
  note run = approve_release_def then_do_def [of "signing_request_of env i" for i] request_row [OF assms(1-3)] row_members buffer_of_def
    parse_manifest_def assms(6,7) differs
  show "\<exists>e. approve_release env (sr_id r) path digest s = (Inl e, t)"
    if "\<not> (cr_sha256 (ad_crypto env) b = digest \<and> sr_payload_digest r = digest \<and> holds_artifact env path m)"
    using that assms(4,5) unfolding t_def
    by (cases "ad_artifact env path") (auto simp: run holds_artifact_def refuse_if_def)
  show "as_calls (snd (approve_release env (sr_id r) path digest s)) = as_calls t @ [approval_call env (sr_id r) bearer_token
        \<lparr> ai_payload_digest = digest, ai_artifact_sha256 = mf_sha256 m, ai_artifact_size_bytes = nat (mf_size_bytes m),
          ai_expires_at = sr_expires_at r \<rparr>]"
    if held: "cr_sha256 (ad_crypto env) b = digest \<and> sr_payload_digest r = digest \<and> holds_artifact env path m"
  proof -
    obtain content where c: "ad_artifact env path = Some content" "cr_sha256 (ad_crypto env) content = mf_sha256 m" "int (length content) = mf_size_bytes m"
      using held by (auto simp: holds_artifact_def)
    have t: "operator_ready env t bearer_token" using assms(1) by (simp add: operator_ready_def t_def)
    let ?a = "\<lparr> ai_payload_digest = digest, ai_artifact_sha256 = mf_sha256 m, ai_artifact_size_bytes = nat (mf_size_bytes m), ai_expires_at = sr_expires_at r \<rparr>"
    have q: "approval_call env (sr_id r) bearer_token ?a = signer_request (signer_url env) ''POST'' (''/v1/requests/'' @ sr_id r @ ''/approve'')
        (Some (approval_body digest (mf_sha256 m) (length content) (JNum (Fin (of_int (sr_expires_at r)))))) (trim bearer_token)"
      using c(3) [symmetric] by (simp add: approval_call_def)
    have calls: "as_calls (snd (then_do (admin_call env (approval_call env (sr_id r) bearer_token ?a)) f t)) =
        as_calls t @ [approval_call env (sr_id r) bearer_token ?a]"
      if "\<And>v u. as_calls (snd (f v u)) = as_calls u" for f :: "jsval \<Rightarrow> unit admin"
      using that by (simp add: then_do_def admin_call_ready [OF t] approval_call_def signer_request_def split: sum.splits)
    let ?rest = "\<lambda>result. then_do (pure_step (member_of ''id'' result)) (\<lambda>rid. print_out (Values [(''request'', rid),
        (''status'', member_opt ''status'' result), (''keyId'', member_opt ''keyId'' result), (''signature'', member_opt ''signature'' result)]))"
    have "approve_release env (sr_id r) path digest s = then_do (admin_call env (approval_call env (sr_id r) bearer_token ?a)) ?rest t"
      using held c assms(4,5) unfolding q t_def by (simp add: run)
    moreover have "as_calls (snd (?rest v u)) = as_calls u" for v u
      by (simp add: then_do_def pure_step_def print_out_def split: sum.splits)
    ultimately show ?thesis by (simp only: calls)
  qed
qed

text \<open>
  C15. The tool approves exactly what the operator reviewed and holds: for a request of the signer it submits an
  approval if and only if the operator gave the digest of its payload and a file of the checksum and the size of
  its manifest; the approval it submits is one that the signer takes as matching the request, and where
  it submits none it has only read the request and exits with 1.
\<close>

theorem tool_approval_matches:
  assumes "signer_lib_ok lib" "agrees_with_signer env lib" "r \<in> set (sd_requests (signer_run lib app es))"
    "operator_ready env s bearer_token" "answers_row env s bearer_token r" "path \<noteq> []" "is_hex64 digest"
    "signer_admin env [''approve'', sr_id r, path, digest] s = (rc, s')"
  shows "\<exists>b m. sr_payload r = base64url b \<and> sl_manifest lib b = Some (1, m) \<and>
    (if digest = hex_digest lib b \<and> holds_artifact env path m
     then \<exists>a. matches_release a r m \<and> ai_payload_digest a = digest \<and>
       as_calls s' = as_calls s @ [review_call env (sr_id r) bearer_token, approval_call env (sr_id r) bearer_token a]
     else rc = 1 \<and> as_calls s' = as_calls s @ [review_call env (sr_id r) bearer_token])"
proof -
  have row: "signing_row_ok lib r" using signer_run_ok [OF assms(1)] assms(3) by (auto simp: requests_ok_def list_all_iff)
  then obtain b m where b: "parse_release lib (sr_payload r) (sr_product r) = Inr (b, m)" "sr_payload_digest r = hex_digest lib b"
    "sr_id r = request_id lib (sr_product r) (sr_key_id r) b"
    by (auto simp: signing_row_ok_def)
  have m: "sr_payload r = base64url b" "sl_manifest lib b = Some (1, m)"
    using b(1) assms(1) by (auto simp: parse_release_Inr supported_manifest_def signer_lib_ok_def)
  have cr: "ad_crypto env = sl_crypto lib" "\<And>x. is_hex64 (cr_sha256 (sl_crypto lib) x)"
    using assms(1,2) by (simp_all add: agrees_with_signer_def signer_lib_ok_def crypto_ok_def)
  obtain ps where ps: "ad_parse env (ad_text env b) = Some (JObj ps)" "js_prop ps ''sha256'' = JStr (mf_sha256 m)"
    "js_prop ps ''sizeBytes'' = JNum (Fin (of_int (mf_size_bytes m)))"
    using assms(2) m(2) unfolding agrees_with_signer_def by blast
  have id: "is_hex64 (sr_id r)" by (simp add: b(3) request_id_def cr(2))
  note run = approve_run [OF assms(4,5) id assms(6,7) m(1) ps]
  have s': "s' = snd (approve_release env (sr_id r) path digest s)" "rc = (if isl (fst (approve_release env (sr_id r) path digest s)) then 1 else 0)"
    using assms(8) by (auto simp: signer_admin_def split: prod.splits)
  have digest: "cr_sha256 (ad_crypto env) b = hex_digest lib b" by (simp add: cr(1) hex_digest_def)
  show ?thesis
  proof (cases "digest = hex_digest lib b \<and> holds_artifact env path m")
    case True
    let ?a = "\<lparr> ai_payload_digest = digest, ai_artifact_sha256 = mf_sha256 m, ai_artifact_size_bytes = nat (mf_size_bytes m),
        ai_expires_at = sr_expires_at r \<rparr>"
    have "0 \<le> mf_size_bytes m" using True by (auto simp: holds_artifact_def)
    then have "matches_release ?a r m" using True b(2) by (simp add: matches_release_def)
    moreover have "as_calls s' = as_calls s @ [review_call env (sr_id r) bearer_token, approval_call env (sr_id r) bearer_token ?a]"
      using run(2) True b(2) digest s'(1) by simp
    ultimately show ?thesis using m True by (intro exI [of _ b] exI [of _ m]) auto
  next
    case False
    then have "rc = 1 \<and> as_calls s' = as_calls s @ [review_call env (sr_id r) bearer_token]"
      using run(1) b(2) digest s' by auto
    then show ?thesis using m False by auto
  qed
qed

section \<open>Products\<close>

text \<open>The names of products for which the tool makes keys are those the signer takes.\<close>

lemma admin_slug_valid: "is_admin_slug s \<longleftrightarrow> valid_slug s"
proof (cases s)
  case (Cons c t)
  have utf8: "length (utf8 s) = length s" if "list_all (\<lambda>x. is_lower x \<or> is_digit x \<or> x = CHR ''-'') s"
    using that by (intro length_utf8_text) (auto simp: list_all_iff is_lower_def is_digit_def char_between_def)
  have dash: "\<not> is_lower (CHR ''-'')" "\<not> is_digit (CHR ''-'')" by code_simp+
  show ?thesis
  proof (cases "list_all (\<lambda>x. is_lower x \<or> is_digit x \<or> x = CHR ''-'') s")
    case True
    then show ?thesis
      using utf8 dash unfolding Cons
      by (cases t rule: rev_cases) (auto simp: is_admin_slug_def valid_slug_def starts_with_def)
  next
    case False
    then show ?thesis unfolding Cons by (auto simp: is_admin_slug_def valid_slug_def)
  qed
qed (simp add: is_admin_slug_def valid_slug_def)

section \<open>A desk of an operator\<close>

definition held_manifest :: ota_manifest where
  "held_manifest = sample_manifest\<lparr>mf_sha256 := toy_digest [1], mf_size_bytes := 1\<rparr>"

definition held_bytes :: bytes where
  "held_bytes = utf8 (json_object (manifest_obj held_manifest))"

definition held_events :: "signer_event list" where
  "held_events = [Create_Event toy_bao 100 (Some ''Bearer requester'')
     \<lparr> ci_product = ''app'', ci_payload = payload_of held_manifest, ci_key_id = toy_key_id, ci_key_version = 1 \<rparr>]"

definition toy_admin :: "signing_row \<Rightarrow> admin_env" where
  "toy_admin r = \<lparr> ad_crypto = toy_crypto, ad_root = None, ad_signer_url = None, ad_bao_url = None, ad_ca_file = None,
     ad_approver_file = None, ad_token_file = None, ad_recovery_file = None, ad_operator_file = None,
     ad_protocol = (\<lambda>base path. Inr ''https:''), ad_answer = (\<lambda>qs q. Some (200, 1, ''R'')), ad_takes = (\<lambda>qs. 1),
     ad_parse = (\<lambda>s. if s = ''R'' then Some (JObj (row_response r))
       else map_option (\<lambda>(v, m). JObj [(''sha256'', JStr (mf_sha256 m)), (''sizeBytes'', JNum (Fin (of_int (mf_size_bytes m))))])
         (Option.bind (json_parse s) manifest_of_obj)),
     ad_stringify = (\<lambda>v. []), ad_string = (\<lambda>v. []), ad_text = (\<lambda>b. case utf8_decode b of None \<Rightarrow> [] | Some s \<Rightarrow> s),
     ad_raw_key = (\<lambda>raw. None), ad_artifact = (\<lambda>path. Some [1]), ad_writable = (\<lambda>path. True) \<rparr>"

definition toy_desk :: admin_state where
  "toy_desk = \<lparr> as_files = [''/trust/ca.pem'' \<mapsto> ''CA'', ''/approver/token'' \<mapsto> ''approver'', ''/operator/initialization.json'' \<mapsto> ''R''],
     as_calls = [], as_now = 0, as_printed = [] \<rparr>"

lemma toy_paths: "ca_path (toy_admin r) = ''/trust/ca.pem''" "approver_path (toy_admin r) = ''/approver/token''"
  "recovery_path (toy_admin r) = ''/operator/initialization.json''"
  by (simp_all add: ca_path_def approver_path_def recovery_path_def operator_directory_def or_default_def no_text_def toy_admin_def)


lemma held_supported: "supported_manifest ''app'' 1 held_manifest" "mf_software held_manifest = ''app''" "0 \<le> mf_size_bytes held_manifest"
  using toy_supported(1) hex64_valid [OF toy_digest_hex64] by (simp_all add: held_manifest_def supported_manifest_def sample_manifest_def)

lemma held_payload: "length (payload_of held_manifest) \<le> 120000"
  by code_simp

lemma held_row:
  obtains r where "r \<in> set (sd_requests (signer_run toy_signer toy_app held_events))" "sr_payload r = payload_of held_manifest"
proof -
  let ?in = "\<lparr> ci_product = ''app'', ci_payload = payload_of held_manifest, ci_key_id = toy_key_id, ci_key_version = 1 \<rparr>"
  let ?r = "new_request toy_signer 100 ?in toy_key held_bytes"
  have p: "parse_release toy_signer (payload_of held_manifest) ''app'' = Inr (held_bytes, held_manifest)"
    using payload_parsed [OF toy_signer_ok _ held_supported(3) held_payload] held_supported(1,2) by (simp add: held_bytes_def)
  have c: "create_signing_request toy_signer toy_app toy_bao 100 (Some ''Bearer requester'') ?in empty_signer =
      Inr (?r, after_submission 100 ?r empty_signer) \<and>
      find_by sr_id (sr_id ?r) (sd_requests (after_submission 100 ?r empty_signer)) = Some ?r"
    using p toy_bao_key
    by (intro submission_succeeds [OF toy_signer_ok toy_tokens(1), where m = held_manifest]) (simp_all add: toy_key_def empty_signer_def)
  then have "?r \<in> set (sd_requests (signer_run toy_signer toy_app held_events))"
    using find_by_Some [OF conjunct2 [OF c]] by (simp add: held_events_def signer_run_def committed_def)
  then show thesis by (rule that) (simp add: new_request_def)
qed

lemma toy_agrees: "agrees_with_signer (toy_admin r) toy_signer"
proof -
  have "\<exists>ps. ad_parse (toy_admin r) (ad_text (toy_admin r) b) = Some (JObj ps) \<and> js_prop ps ''sha256'' = JStr (mf_sha256 m) \<and>
      js_prop ps ''sizeBytes'' = JNum (Fin (of_int (mf_size_bytes m)))" if read: "sl_manifest toy_signer b = Some (v, m)" for b v m
  proof -
    obtain s ps where p: "utf8_decode b = Some s" "json_parse s = Some ps" "manifest_of_obj ps = Some (v, m)"
      using read by (auto simp: toy_signer_def bind_eq_Some_conv)
    have "json_parse ''R'' = None" by (simp add: json_parse_def)
    then have "s \<noteq> ''R''" using p(2) by auto
    then show ?thesis using p by (simp add: toy_admin_def js_prop_def)
  qed
  then show ?thesis unfolding agrees_with_signer_def by (simp add: toy_admin_def toy_signer_def)
qed

lemma tool_approval_matches_witness:
  "\<exists>r a. r \<in> set (sd_requests (signer_run toy_signer toy_app held_events)) \<and> matches_release a r held_manifest \<and>
     as_calls (snd (signer_admin (toy_admin r) [''approve'', sr_id r, ''f'', toy_digest held_bytes] toy_desk)) =
       [review_call (toy_admin r) (sr_id r) ''approver'', approval_call (toy_admin r) (sr_id r) ''approver'' a]"
proof -
  obtain r where r: "r \<in> set (sd_requests (signer_run toy_signer toy_app held_events))" "sr_payload r = payload_of held_manifest"
    by (rule held_row)
  have ready: "operator_ready (toy_admin r) toy_desk ''approver''" "answers_row (toy_admin r) toy_desk ''approver'' r"
    by (simp_all add: operator_ready_def answers_row_def toy_paths toy_desk_def) (simp_all add: toy_admin_def)
  let ?run = "signer_admin (toy_admin r) [''approve'', sr_id r, ''f'', toy_digest held_bytes] toy_desk"
  obtain b m where b: "sr_payload r = base64url b" "sl_manifest toy_signer b = Some (1, m)" and
    c: "(if toy_digest held_bytes = hex_digest toy_signer b \<and> holds_artifact (toy_admin r) ''f'' m
     then \<exists>a. matches_release a r m \<and> ai_payload_digest a = toy_digest held_bytes \<and>
       as_calls (snd ?run) = as_calls toy_desk @ [review_call (toy_admin r) (sr_id r) ''approver'', approval_call (toy_admin r) (sr_id r) ''approver'' a]
     else fst ?run = 1 \<and> as_calls (snd ?run) = as_calls toy_desk @ [review_call (toy_admin r) (sr_id r) ''approver''])"
    using tool_approval_matches [OF toy_signer_ok toy_agrees r(1) ready _ toy_digest_hex64 surjective_pairing, where path = "''f''"]
    by blast
  then have run: "toy_digest held_bytes = hex_digest toy_signer b \<and> holds_artifact (toy_admin r) ''f'' m \<Longrightarrow>
      \<exists>a. matches_release a r m \<and> as_calls (snd ?run) =
        as_calls toy_desk @ [review_call (toy_admin r) (sr_id r) ''approver'', approval_call (toy_admin r) (sr_id r) ''approver'' a]"
    by auto
  have "b = held_bytes" using b(1) r(2) base64url_inject by (simp add: payload_of_def held_bytes_def)
  moreover have "sl_manifest toy_signer held_bytes = Some (1, held_manifest)"
    by (simp add: held_bytes_def toy_signer_def json_roundtrip [OF manifest_keys] manifest_of_obj)
  ultimately have "m = held_manifest" "hex_digest toy_signer b = toy_digest held_bytes"
    using b(2) by (simp_all add: hex_digest_def toy_signer_def toy_crypto_def)
  moreover have "holds_artifact (toy_admin r) ''f'' held_manifest"
    by (simp add: holds_artifact_def toy_admin_def toy_crypto_def held_manifest_def)
  ultimately show ?thesis using run r(1) by (auto simp: toy_desk_def)
qed

end
