(* ===== verification/Startup.thy ===== *)
theory Startup
  imports JS_Values Encoding
begin

text \<open>
  What runs before the server listens: the checks of \<open>start/env.ts\<close>, the connection of
  \<open>config/database.ts\<close>, \<open>scripts/init_database_secret.mjs\<close>, which keeps the password of the database in a
  volume, and \<open>scripts/check_database_connection.mjs\<close>, which waits for PostgreSQL.
\<close>

section \<open>Variables of the environment\<close>

type_synonym variables = "string \<rightharpoonup> string"

text \<open>\<open>process.env.X || d\<close>\<close>

definition variable_or :: "variables \<Rightarrow> string \<Rightarrow> string \<Rightarrow> string" where
  "variable_or env n d = (case env n of None \<Rightarrow> d | Some v \<Rightarrow> if v = [] then d else v)"

definition db_ssl :: "string option \<Rightarrow> bool res" where
  "db_ssl v =
     (case v of
        None \<Rightarrow> Inr False
      | Some s \<Rightarrow> if s = [] then Inr False
          else throw_if (s \<notin> {''true'', ''false''}) (Error ''DB_SSL must be true or false'') (Inr (s = ''true'')))"

definition valid_port :: "jsnum \<Rightarrow> bool" where
  "valid_port n \<longleftrightarrow> (case n of Fin x \<Rightarrow> x = of_int \<lfloor>x\<rfloor> \<and> 1 \<le> x \<and> x \<le> 65535 | _ \<Rightarrow> False)"

text \<open>\<open>PORT\<close> as the number \<open>Env\<close> casts it to; the result is the value of \<open>process.env.PORT\<close> afterwards.\<close>

definition server_port :: "variables \<Rightarrow> jsnum option \<Rightarrow> variables res" where
  "server_port env port =
     (case port of
        None \<Rightarrow> Inr (env(''PORT'' \<mapsto> ''8888''))
      | Some n \<Rightarrow> throw_if (\<not> valid_port n) (Error ''PORT must be an integer between 1 and 65535.'') (Inr env))"

definition legacy_variables :: "string list" where
  "legacy_variables = [''S3_ENDPOINT'', ''S3_REGION'', ''S3_BUCKET'', ''S3_ACCESS_KEY_ID'', ''S3_SECRET_ACCESS_KEY'', ''S3_SESSION_TOKEN'',
     ''S3_FORCE_PATH_STYLE'', ''S3_MAX_ATTEMPTS'', ''S3_CONNECTION_TIMEOUT_MS'', ''S3_SOCKET_TIMEOUT_MS'',
     ''S3_DOWNLOAD_URL_TTL_SECONDS'', ''STORAGE_DRIVER'']"

definition start_env :: "variables \<Rightarrow> jsnum option \<Rightarrow> variables res" where
  "start_env env port =
     bind_res (db_ssl (env ''DB_SSL'')) (\<lambda>_.
     bind_res (server_port env port) (\<lambda>env1.
     throw_if (variable_or env1 ''S3_FORCE_PATH_STYLE'' ''auto'' \<notin> {''auto'', ''true'', ''false''})
       (Error ''S3_FORCE_PATH_STYLE must be auto, true, or false.'')
       (Inr (foldl (\<lambda>e n. e(n := None)) env1 legacy_variables))))"

lemma foldl_remove: "foldl (\<lambda>e n. e(n := None)) env ns n = (if n \<in> set ns then None else env n)"
  by (induction ns arbitrary: env) auto

text \<open>The secrets of the legacy storage are not in the environment of the running server.\<close>

lemma start_env_forgets:
  assumes "start_env env port = Inr env'"
  shows "env' n = (if n \<in> set legacy_variables then None else if n = ''PORT'' \<and> port = None then Some ''8888'' else env n)"
  using assms by (auto simp: start_env_def server_port_def res_simps foldl_remove split: option.splits if_splits)

section \<open>The connection of the database\<close>

record connection =
  dc_host :: string
  dc_port :: jsnum
  dc_user :: string
  dc_password :: "string option"
  dc_database :: string
  dc_ssl :: "string option option"

text \<open>
  \<open>dc_ssl\<close> is \<^const>\<open>None\<close> without TLS and holds the certificate of the authority, if one is given. \<open>read\<close> gives
  the content of a file; \<open>port\<close> is \<open>DB_PORT\<close> as \<open>Env\<close> casts it to a number.
\<close>

definition text_setting :: "variables \<Rightarrow> string \<Rightarrow> string option" where
  "text_setting env n = (case env n of None \<Rightarrow> None | Some v \<Rightarrow> if v = [] then None else Some v)"

definition database_password :: "variables \<Rightarrow> (string \<Rightarrow> string res) \<Rightarrow> string option res" where
  "database_password env read =
     (case text_setting env ''DB_PASSWORD'' of
        Some p \<Rightarrow> Inr (Some p)
      | None \<Rightarrow> (case text_setting env ''DB_PASSWORD_FILE'' of
            None \<Rightarrow> Inr None
          | Some path \<Rightarrow> bind_res (read path) (\<lambda>c. Inr (Some (trim c)))))"

definition database_connection :: "variables \<Rightarrow> (string \<Rightarrow> string res) \<Rightarrow> jsnum option \<Rightarrow> connection res" where
  "database_connection env read port =
     bind_res (database_password env read) (\<lambda>password.
     bind_res (db_ssl (env ''DB_SSL'')) (\<lambda>ssl.
     bind_res (if \<not> ssl then Inr None
       else (case text_setting env ''DB_SSL_CA_PATH'' of
           None \<Rightarrow> Inr (Some None)
         | Some path \<Rightarrow> bind_res (read path) (\<lambda>ca. Inr (Some (Some ca))))) (\<lambda>tls.
     Inr \<lparr> dc_host = variable_or env ''DB_HOST'' ''127.0.0.1'',
           dc_port = (case port of Some n \<Rightarrow> if truthy (JNum n) then n else Fin 5432 | None \<Rightarrow> Fin 5432),
           dc_user = variable_or env ''DB_USER'' ''reeva'', dc_password = password,
           dc_database = variable_or env ''DB_DATABASE'' ''reeva'', dc_ssl = tls \<rparr>)))"

section \<open>The password of the database\<close>

text \<open>
  The volumes, as files by path; \<open>vo_temporary\<close> names the temporary file of a write, \<open>vo_random\<close> are the random
  texts of a run, \<open>vo_fails\<close> says where writing fails, and \<open>vo_identity\<close> is the JSON of user and database.
\<close>

type_synonym volume = "string \<rightharpoonup> string"

record volume_env =
  vo_temporary :: "string \<Rightarrow> string"
  vo_fails :: "string \<Rightarrow> bool"
  vo_identity :: "string \<Rightarrow> string \<Rightarrow> string"
  vo_random :: "string \<times> string"

definition link_file :: "string \<Rightarrow> string \<Rightarrow> volume \<Rightarrow> volume" where
  "link_file source dest fs = (if fs dest = None then fs(dest := fs source) else fs)"

definition persist :: "volume_env \<Rightarrow> string \<Rightarrow> string \<Rightarrow> volume \<Rightarrow> string res \<times> volume" where
  "persist env path content fs =
     (let temporary = vo_temporary env path in
      if vo_fails env temporary then (Inl (Fault ''EACCES''), fs)
      else if fs temporary \<noteq> None then (Inl (Fault ''EEXIST''), fs)
      else
        (let fs1 = fs(temporary \<mapsto> content @ [CHR 0x0A]) in
         if fs1 path = None \<and> vo_fails env path then (Inl (Fault ''EACCES''), fs1(temporary := None))
         else
           (let fs2 = (link_file temporary path fs1)(temporary := None) in
            (bind_res (from_option (Fault ''ENOENT'') (fs2 path)) (\<lambda>c. Inr (trim c)), fs2))))"

definition secret_usable :: "string \<Rightarrow> bool" where
  "secret_usable p \<longleftrightarrow> trim p = p \<and> CHR 0x0A \<notin> set p \<and> CHR 0x0D \<notin> set p"

definition reserved_names :: "string set" where
  "reserved_names = {''postgres'', ''template0'', ''template1''}"

definition init_database_secret :: "volume_env \<Rightarrow> variables \<Rightarrow> volume \<Rightarrow> unit res \<times> volume" where
  "init_database_secret env vars fs =
     (let user = variable_or vars ''POSTGRES_USER'' ''reeva''; database = variable_or vars ''POSTGRES_DB'' ''reeva'';
          identity = vo_identity env user database; configured = variable_or vars ''POSTGRES_PASSWORD'' [] in
      if user = ''postgres'' \<or> database \<in> reserved_names
      then (Inl (Error ''Use a dedicated PostgreSQL application role and database.''), fs)
      else (case persist env ''/app/secrets/identity.json'' identity fs of
          (Inl e, fs1) \<Rightarrow> (Inl e, fs1)
        | (Inr known, fs1) \<Rightarrow>
          if known \<noteq> identity
          then (Inl (Error ''PostgreSQL identity differs from the initialized volume. Migrate explicitly; existing volumes were preserved.''), fs1)
          else if configured \<noteq> [] \<and> \<not> secret_usable configured
          then (Inl (Error ''POSTGRES_PASSWORD must not contain newlines or surrounding whitespace.''), fs1)
          else (case persist env ''/app/secrets/db_password'' (if configured = [] then fst (vo_random env) else configured) fs1 of
              (Inl e, fs2) \<Rightarrow> (Inl e, fs2)
            | (Inr stored, fs2) \<Rightarrow>
              if stored = [] then (Inl (Error ''Persistent database password is empty.''), fs2)
              else if configured \<noteq> [] \<and> configured \<noteq> stored
              then (Inl (Error ''POSTGRES_PASSWORD differs from the initialized password. Rotate the database role password and secret file together; existing volumes were preserved.''), fs2)
              else (case persist env ''/app/admin-secrets/postgres_password'' (snd (vo_random env)) fs2 of
                  (Inl e, fs3) \<Rightarrow> (Inl e, fs3)
                | (Inr _, fs3) \<Rightarrow> (Inr (), fs3)))))"

text \<open>Whatever happens, no file is lost or changed.\<close>

definition volume_kept :: "volume \<Rightarrow> volume \<Rightarrow> bool" where
  "volume_kept fs fs' \<longleftrightarrow> (\<forall>p c. fs p = Some c \<longrightarrow> fs' p = Some c)"

lemma volume_kept_refl [simp]: "volume_kept fs fs"
  by (simp add: volume_kept_def)

lemma volume_kept_trans: "volume_kept a b \<Longrightarrow> volume_kept b c \<Longrightarrow> volume_kept a c"
  by (simp add: volume_kept_def)

lemma persist_kept: "persist env path content fs = (r, fs') \<Longrightarrow> volume_kept fs fs'"
  by (auto simp: persist_def link_file_def volume_kept_def Let_def split: if_splits)

lemma persist_value:
  assumes "persist env path content fs = (Inr v, fs')" "vo_temporary env path \<noteq> path"
  shows "\<exists>c. fs' path = Some c \<and> v = trim c \<and> (fs path = None \<longrightarrow> c = content @ [CHR 0x0A])"
  using assms by (auto simp: persist_def link_file_def Let_def res_simps split: if_splits)

lemma secret_preserved:
  assumes "init_database_secret env vars fs = (r, fs')"
  shows "volume_kept fs fs'"
  using assms
  by (auto simp: init_database_secret_def Let_def dest!: persist_kept split: prod.splits sum.splits if_splits intro: volume_kept_trans)

text \<open>A run that succeeds leaves the password in the volume, and it is the configured one, if one is configured.\<close>

lemma secret_available:
  assumes "init_database_secret env vars fs = (Inr x, fs')" "\<And>p. vo_temporary env p \<noteq> p"
  shows "\<exists>c. fs' ''/app/secrets/db_password'' = Some c \<and> trim c \<noteq> [] \<and>
    (variable_or vars ''POSTGRES_PASSWORD'' [] \<noteq> [] \<longrightarrow> trim c = variable_or vars ''POSTGRES_PASSWORD'' [])"
proof -
  let ?w = "variable_or vars ''POSTGRES_PASSWORD'' []"
  obtain content fs1 stored fs2 where p: "persist env ''/app/secrets/db_password'' content fs1 = (Inr stored, fs2)" "volume_kept fs2 fs'"
    "stored \<noteq> []" "?w \<noteq> [] \<longrightarrow> ?w = stored"
    using assms(1) by (auto simp: init_database_secret_def Let_def split: prod.splits sum.splits if_splits dest: persist_kept)
  then show ?thesis using persist_value [OF p(1) assms(2)] by (auto simp: volume_kept_def)
qed

section \<open>Waiting for the database\<close>

text \<open>
  The error of a driver with what it refers to: an object is its place in a list of objects, so errors may be
  shared and may refer to themselves. \<open>Absent\<close> is any value that is not truthy, \<open>Primitive\<close> any other that is no
  object.
\<close>

datatype error_ref = Absent | Primitive | Object nat

record error_object =
  eo_code :: jsval
  eo_message :: jsval
  eo_errors :: "error_ref list option"
  eo_cause :: error_ref

type_synonym error_store = "error_object list"

definition code_format :: "string \<Rightarrow> bool" where
  "code_format s \<longleftrightarrow> s \<noteq> [] \<and> list_all (\<lambda>c. is_upper c \<or> is_digit c \<or> c = CHR ''_'') s"

definition own_codes :: "error_object \<Rightarrow> string list" where
  "own_codes e =
     (case eo_code e of JStr s \<Rightarrow> if code_format s then [s] else [] | _ \<Rightarrow> []) @
     (if eo_message e \<in> {JStr ''timeout expired'', JStr ''Connection terminated due to connection timeout''} then [''ETIMEDOUT''] else [])"

text \<open>The order in which \<open>pending.pop()\<close> finds what an error refers to.\<close>

definition referred :: "error_object \<Rightarrow> error_ref list" where
  "referred e = (if eo_cause e = Absent then [] else [eo_cause e]) @ rev (case eo_errors e of None \<Rightarrow> [] | Some es \<Rightarrow> es)"

definition add_code :: "string list \<Rightarrow> string \<Rightarrow> string list" where
  "add_code codes c = (if c \<in> set codes then codes else codes @ [c])"

function collect_codes :: "error_store \<Rightarrow> error_ref list \<Rightarrow> nat list \<Rightarrow> string list \<Rightarrow> string list" where
  "collect_codes st [] seen codes = codes"
| "collect_codes st (current # pending) seen codes =
     (case current of
        Object i \<Rightarrow>
          if length st \<le> i \<or> i \<in> set seen then collect_codes st pending seen codes
          else collect_codes st (referred (st ! i) @ pending) (i # seen) (foldl add_code codes (own_codes (st ! i)))
      | _ \<Rightarrow> collect_codes st pending seen codes)"
  by pat_completeness auto

termination
proof (relation "measures [\<lambda>(st, pending, seen, codes). card ({..<length st} - set seen), \<lambda>(st, pending, seen, codes). length pending]")
  fix st :: error_store and current pending seen codes i
  assume current: "current = Object i" and "\<not> (length st \<le> i \<or> i \<in> set seen)"
  from this(2) have "i \<in> {..<length st} - set seen" by auto
  moreover have "{..<length st} - set (i # seen) = {..<length st} - set seen - {i}" by auto
  ultimately have "card ({..<length st} - set (i # seen)) < card ({..<length st} - set seen)"
    by (metis card_Diff1_less finite_Diff finite_lessThan)
  then show "((st, referred (st ! i) @ pending, i # seen, foldl add_code codes (own_codes (st ! i))), st, current # pending, seen, codes) \<in>
      measures [\<lambda>(st, pending, seen, codes). card ({..<length st} - set seen), \<lambda>(st, pending, seen, codes). length pending]"
    by simp
qed auto

definition error_codes :: "error_store \<Rightarrow> error_ref \<Rightarrow> string list" where
  "error_codes st r = collect_codes st [r] [] []"

text \<open>The codes found are those of all objects that are reached, each once, also where errors form a cycle.\<close>

inductive reached :: "error_store \<Rightarrow> error_ref set \<Rightarrow> nat \<Rightarrow> bool" for st roots where
  root: "Object i \<in> roots \<Longrightarrow> i < length st \<Longrightarrow> reached st roots i"
| step: "reached st roots i \<Longrightarrow> Object j \<in> set (referred (st ! i)) \<Longrightarrow> j < length st \<Longrightarrow> reached st roots j"

lemma foldl_add_code: "set (foldl add_code codes cs) = set codes \<union> set cs" "distinct codes \<Longrightarrow> distinct (foldl add_code codes cs)"
  by (induction cs arbitrary: codes) (auto simp: add_code_def)

lemma reached_through:
  assumes "reached st roots i" "\<And>k. Object k \<in> roots \<Longrightarrow> k < length st \<Longrightarrow> k \<in> seen \<or> reached st roots' k"
    and "\<And>k j. k \<in> seen \<Longrightarrow> Object j \<in> set (referred (st ! k)) \<Longrightarrow> j < length st \<Longrightarrow> j \<in> seen \<or> Object j \<in> roots'"
  shows "i \<in> seen \<or> reached st roots' i"
  using assms(1)
proof induction
  case (root i)
  then show ?case using assms(2) by blast
next
  case (step i j)
  then show ?case using assms(3) [of i j] by (metis reached.root reached.step)
qed

lemma reached_mono: "reached st roots i \<Longrightarrow> roots \<subseteq> roots' \<Longrightarrow> reached st roots' i"
  by (induction rule: reached.induct) (auto intro: reached.intros)

lemma collect_codes_set:
  assumes "\<And>k j. k \<in> set seen \<Longrightarrow> Object j \<in> set (referred (st ! k)) \<Longrightarrow> j < length st \<Longrightarrow> j \<in> set seen \<or> Object j \<in> set pending"
  shows "set (collect_codes st pending seen codes) = set codes \<union> {c. \<exists>i. (i \<notin> set seen \<and> reached st (set pending) i) \<and> c \<in> set (own_codes (st ! i))}"
  using assms
proof (induction st pending seen codes rule: collect_codes.induct)
  case (1 st seen codes)
  have "\<not> reached st {} i" for i
    by (rule notI, induction rule: reached.induct) auto
  then show ?case by simp
next
  case (2 st current pending seen codes)
  show ?case
  proof (cases "\<exists>i. current = Object i \<and> i < length st \<and> i \<notin> set seen")
    case True
    then obtain i where i: "current = Object i" "i < length st" "i \<notin> set seen" by blast
    let ?pending = "referred (st ! i) @ pending"
    have other: "k \<in> set (i # seen) \<or> reached st (set ?pending) k" if "Object k \<in> set (current # pending)" "k < length st" for k
      using that i(1) by (auto intro: reached.root)
    have closed: "j \<in> set (i # seen) \<or> Object j \<in> set ?pending"
      if "k \<in> set (i # seen)" "Object j \<in> set (referred (st ! k))" "j < length st" for k j
      using 2(5) [of k j] that i(1) by auto
    have found: "(j \<notin> set seen \<and> reached st (set (current # pending)) j) \<longleftrightarrow> j = i \<or> (j \<notin> set (i # seen) \<and> reached st (set ?pending) j)" for j
    proof
      assume j: "j \<notin> set seen \<and> reached st (set (current # pending)) j"
      have "j \<in> set (i # seen) \<or> reached st (set ?pending) j"
        by (rule reached_through [OF conjunct2 [OF j]]) (erule (1) other, rule closed)
      then show "j = i \<or> (j \<notin> set (i # seen) \<and> reached st (set ?pending) j)" using j by auto
    next
      assume j: "j = i \<or> (j \<notin> set (i # seen) \<and> reached st (set ?pending) j)"
      have r: "reached st (set (current # pending)) i" using i by (auto intro: reached.root)
      have "reached st (set (current # pending)) j" if "reached st (set ?pending) j"
        using reached_through [OF that, where seen = "{}" and roots' = "set (current # pending)"] r by (auto intro: reached.intros)
      then show "j \<notin> set seen \<and> reached st (set (current # pending)) j" using j r i(3) by auto
    qed
    have "set (collect_codes st ?pending (i # seen) (foldl add_code codes (own_codes (st ! i)))) =
        set (foldl add_code codes (own_codes (st ! i))) \<union> {c. \<exists>j. (j \<notin> set (i # seen) \<and> reached st (set ?pending) j) \<and> c \<in> set (own_codes (st ! j))}"
      by (rule 2(4) [OF i(1)]) (use i(2,3) in simp, rule closed)
    then show ?thesis using i unfolding found by (auto simp: foldl_add_code)
  next
    case False
    have other: "k \<in> set seen \<or> reached st (set pending) k" if "Object k \<in> set (current # pending)" "k < length st" for k
      using that False by (auto intro: reached.root)
    have closed: "j \<in> set seen \<or> Object j \<in> set pending" if "k \<in> set seen" "Object j \<in> set (referred (st ! k))" "j < length st" for k j
      using 2(5) [OF that] that(3) False by auto
    have "j \<in> set seen \<or> reached st (set pending) j" if "reached st (set (current # pending)) j" for j
      by (rule reached_through [OF that]) (erule (1) other, rule closed)
    then have found: "(j \<notin> set seen \<and> reached st (set (current # pending)) j) \<longleftrightarrow> (j \<notin> set seen \<and> reached st (set pending) j)" for j
      using reached_mono [of st "set pending" j "set (current # pending)"] by (meson set_subset_Cons)
    have "set (collect_codes st pending seen codes) =
        set codes \<union> {c. \<exists>j. (j \<notin> set seen \<and> reached st (set pending) j) \<and> c \<in> set (own_codes (st ! j))}"
    proof (cases current)
      case (Object i)
      have "length st \<le> i \<or> i \<in> set seen" using False Object by auto
      then show ?thesis by (rule 2(3) [OF Object]) (rule closed)
    next
      case Absent
      show ?thesis by (rule 2(1) [OF Absent]) (rule closed)
    next
      case Primitive
      show ?thesis by (rule 2(2) [OF Primitive]) (rule closed)
    qed
    moreover have "collect_codes st (current # pending) seen codes = collect_codes st pending seen codes"
      using False by (auto split: error_ref.splits)
    ultimately show ?thesis unfolding found by simp
  qed
qed

lemma error_codes_set: "set (error_codes st r) = {c. \<exists>i. reached st {r} i \<and> c \<in> set (own_codes (st ! i))}"
  using collect_codes_set [where seen = "[]" and pending = "[r]"] by (simp add: error_codes_def)

text \<open>
  The wait. \<open>cx_connect\<close> is an attempt to connect that starts at a time (in milliseconds) with a limit: how long it
  takes, and the error if it fails, in the store \<open>cx_errors\<close>. Closing a connection takes no time here.
\<close>

record connector =
  cx_connect :: "nat \<Rightarrow> nat \<Rightarrow> nat \<times> error_ref option"
  cx_errors :: error_store

definition retryable_codes :: "string list" where
  "retryable_codes = [''ECONNREFUSED'', ''ECONNRESET'', ''ETIMEDOUT'', ''EHOSTUNREACH'', ''ENETUNREACH'', ''EAI_AGAIN'', ''ENOTFOUND'', ''57P03'']"

definition attempt_limit :: "nat \<Rightarrow> nat \<Rightarrow> nat" where
  "attempt_limit deadline now = max 1 (min 5000 (deadline - now))"

text \<open>\<^const>\<open>Inl\<close> are the codes that were met when it gives up; with the time at which it ends.\<close>

function await_database :: "connector \<Rightarrow> nat \<Rightarrow> string list \<Rightarrow> nat \<Rightarrow> (string list + unit) \<times> nat" where
  "await_database cx deadline met now =
     (case cx_connect cx now (attempt_limit deadline now) of
        (d, None) \<Rightarrow> (Inr (), now + d)
      | (d, Some r) \<Rightarrow>
          (let codes = error_codes (cx_errors cx) r; met' = foldl add_code met codes; t = now + d in
           if codes = [] \<or> \<not> list_all (\<lambda>c. c \<in> set retryable_codes) codes \<or> deadline \<le> t then (Inl met', t)
           else if deadline \<le> t + min 1000 (deadline - t) then (Inl met', t + min 1000 (deadline - t))
           else await_database cx deadline met' (t + min 1000 (deadline - t))))"
  by pat_completeness auto

termination
  by (relation "measure (\<lambda>(cx, deadline, met, now). deadline - now)") auto

declare await_database.simps [simp del]

text \<open>Where every attempt keeps its limit, the wait is over at the deadline.\<close>

lemma await_bounded:
  assumes "\<And>t l. fst (cx_connect cx t l) \<le> l" "now < deadline"
  shows "snd (await_database cx deadline met now) \<le> deadline"
  using assms
proof (induction cx deadline met now rule: await_database.induct)
  case (1 cx deadline met now)
  obtain d e where c: "cx_connect cx now (attempt_limit deadline now) = (d, e)" by fastforce
  then have d: "now + d \<le> deadline" using 1(2) [of now "attempt_limit deadline now"] 1(3) by (auto simp: attempt_limit_def)
  then show ?case
    using 1(1) [OF c [symmetric]] 1(2,3) c by (subst await_database.simps) (auto simp: Let_def split: option.splits)
qed

text \<open>It reports success only after an attempt that connected.\<close>

lemma await_connected:
  assumes "await_database cx deadline met now = (Inr x, t)"
  shows "\<exists>t0 d. now \<le> t0 \<and> cx_connect cx t0 (attempt_limit deadline t0) = (d, None) \<and> t = t0 + d"
  using assms
proof (induction cx deadline met now rule: await_database.induct)
  case (1 cx deadline met now)
  obtain d e where c: "cx_connect cx now (attempt_limit deadline now) = (d, e)" by fastforce
  show ?case
  proof (cases e)
    case None
    then show ?thesis using 1(2) c by (subst (asm) await_database.simps) auto
  next
    case (Some r)
    let ?codes = "error_codes (cx_errors cx) r"
    let ?next = "now + d + min 1000 (deadline - (now + d))"
    let ?stop = "?codes = [] \<or> \<not> list_all (\<lambda>c. c \<in> set retryable_codes) ?codes \<or> deadline \<le> now + d"
    have run: "(if ?stop then (Inl (foldl add_code met ?codes), now + d)
        else if deadline \<le> ?next then (Inl (foldl add_code met ?codes), ?next)
        else await_database cx deadline (foldl add_code met ?codes) ?next) = (Inr x, t)"
      using 1(2) by (simp only: await_database.simps [of cx deadline met now] c Some prod.case option.case Let_def)
    have go: "\<not> ?stop" by (rule notI) (use run in simp)
    have late: "\<not> deadline \<le> ?next" by (rule notI) (use run go in simp)
    have "await_database cx deadline (foldl add_code met ?codes) ?next = (Inr x, t)" using run by (simp only: go late if_False)
    note go late this
    from 1(1) [OF c [symmetric] Some refl refl refl this] obtain t0 d' where
      "?next \<le> t0" "cx_connect cx t0 (attempt_limit deadline t0) = (d', None)" "t = t0 + d'" by blast
    moreover have "now \<le> t0" using calculation(1) by linarith
    ultimately show ?thesis by blast
  qed
qed

definition whole_number :: "jsnum \<Rightarrow> nat \<Rightarrow> nat \<Rightarrow> nat option" where
  "whole_number n lo hi =
     (case n of Fin x \<Rightarrow> if x = of_int \<lfloor>x\<rfloor> \<and> of_nat lo \<le> x \<and> x \<le> of_nat hi then Some (nat \<lfloor>x\<rfloor>) else None | _ \<Rightarrow> None)"

text \<open>The message has a dash between the numbers.\<close>

definition database_usage :: string where
  "database_usage = ''PostgreSQL requires DB_HOST and a valid DB_PORT (1-65535).''"

definition check_database :: "variables \<Rightarrow> (string \<Rightarrow> string res) \<Rightarrow> (string option \<Rightarrow> string option \<Rightarrow> connector) \<Rightarrow> nat \<Rightarrow> unit res" where
  "check_database env read cx now =
     (let host = trim (variable_or env ''DB_HOST'' []);
          port = whole_number (number_of_string (variable_or env ''DB_PORT'' ''5432'')) 1 65535;
          timeout = whole_number (number_of_string (variable_or env ''DB_STARTUP_TIMEOUT_SECONDS'' ''30'')) 1 300 in
      throw_if (variable_or env ''DB_CONNECTION'' ''pg'' \<noteq> ''pg'') (Error ''Only PostgreSQL is supported. Set DB_CONNECTION=pg.'')
      (throw_if (variable_or env ''DB_SSL'' ''true'' \<notin> {''true'', ''false''}) (Error ''DB_SSL must be true or false.'')
      (throw_if (host = []) (Error database_usage)
      (bind_res (from_option (Error database_usage) port) (\<lambda>p.
       bind_res (from_option (Error ''DB_STARTUP_TIMEOUT_SECONDS must be an integer between 1 and 300.'') timeout) (\<lambda>seconds.
       bind_res (database_password env read) (\<lambda>password.
       bind_res (if env ''DB_SSL'' = Some ''true''
         then (case text_setting env ''DB_SSL_CA_PATH'' of None \<Rightarrow> Inr None | Some path \<Rightarrow> bind_res (read path) (\<lambda>ca. Inr (Some ca)))
         else Inr None) (\<lambda>ca.
       (case await_database (cx password ca) (now + seconds * 1000) [] now of
          (Inr _, t) \<Rightarrow> Inr ()
        | (Inl met, t) \<Rightarrow> Inl (Error (''Cannot connect to PostgreSQL at '' @ json_string host @ '':'' @ dec p @ '': '' @
            (if met = [] then ''connection failed'' else join_with '', '' met) @
            ''. Check DB_HOST/DB_PORT, server availability, and DB credentials.'')))))))))))"

text \<open>A check that passes connected within the limit.\<close>

lemma check_database_connected:
  assumes "check_database env read cx now = Inr ()"
  shows "\<exists>password ca deadline t0 d. deadline \<le> now + 300000 \<and> now \<le> t0 \<and>
    cx_connect (cx password ca) t0 (attempt_limit deadline t0) = (d, None)"
  using assms
proof -
  have limit: "whole_number n lo hi = Some k \<Longrightarrow> k \<le> hi" for n lo hi k
    by (auto simp: whole_number_def nat_le_iff floor_le_iff split: jsnum.splits if_splits)
  obtain password ca seconds f where s: "seconds \<le> 300"
    "(case await_database (cx password ca) (now + seconds * 1000) [] now of (Inr _, t) \<Rightarrow> Inr () | (Inl met, t) \<Rightarrow> Inl (f met)) = (Inr () :: unit res)"
    using assms unfolding check_database_def Let_def res_simps by (elim conjE exE) (rule that [OF limit], assumption, assumption)
  then obtain x t where "await_database (cx password ca) (now + seconds * 1000) [] now = (Inr x, t)"
    by (auto split: prod.splits sum.splits)
  from await_connected [OF this] obtain t0 d where
    "now \<le> t0" "cx_connect (cx password ca) t0 (attempt_limit (now + seconds * 1000) t0) = (d, None)" by blast
  moreover have "now + seconds * 1000 \<le> now + 300000" using s(1) by simp
  ultimately show ?thesis by blast
qed

end
